(* ===== verification/Prelude.thy ===== *)
theory Prelude
  imports Main "HOL-Library.Word"
begin

unbundle bit_operations_syntax

text \<open>
  Shared vocabulary of the development: the machine integer types of the C sources, the
  \<open>errno\<close> values the driver sets, the three-way outcome of a C function, the simp-rule
  collections, and generic lemmas on lists, options and words.

  A C identifier with leading underscores is not an Isabelle identifier. The convention is a
  suffix that counts them: \<open>__f\<close> is written \<open>f_u2\<close> and \<open>____f\<close> is written \<open>f_u4\<close>.
\<close>

type_synonym u8 = "8 word"
type_synonym u16 = "16 word"
type_synonym u32 = "32 word"
type_synonym u64 = "64 word"

text \<open>
  The \<open>errno\<close> values assigned or returned by the sources. \<open>ERRNO_UNSET\<close> is the failure of a
  function that leaves \<open>errno\<close> as it was.
\<close>

datatype errno =
    EPERM | ENOENT | EAGAIN | ENOMEM | EFAULT | EBUSY | EEXIST | ENODEV | EINVAL | ENOSPC
  | EIO | EBADE | EALREADY | EILSEQ | ENOTSUP | ETIMEDOUT | ERRNO_UNSET

text \<open>
  The outcome of a C function that may fail: \<open>Ok\<close> with its result, \<open>Fail\<close> with the
  \<open>errno\<close> it reports, or \<open>Fault\<close> when the C code would have undefined behaviour (an index
  outside an array, a null pointer dereferenced) or stop in an \<open>assert\<close>. A memory safety
  statement about an operation is that its outcome is never \<open>Fault\<close>.
\<close>

datatype 'a outcome = Ok 'a | Fail errno | Fault

text \<open>
  A C function that changes a state \<open>'s\<close> returns its outcome with the state it leaves, also when
  it fails. \<open>andthen\<close> runs the next call when the previous one succeeded.
\<close>

definition andthen :: "'a outcome \<times> 's \<Rightarrow> ('a \<Rightarrow> 's \<Rightarrow> 'b outcome \<times> 's) \<Rightarrow> 'b outcome \<times> 's" where
  "andthen r f = (case r of (Ok x, s) \<Rightarrow> f x s | (Fail e, s) \<Rightarrow> (Fail e, s) | (Fault, s) \<Rightarrow> (Fault, s))"

lemma andthen_simps [simp]:
  "andthen (Ok x, s) f = f x s" "andthen (Fail e, s) f = (Fail e, s)"
  "andthen (Fault, s) f = (Fault, s)"
  by (simp_all add: andthen_def)

lemma andthen_Ok:
  "andthen r f = (Ok y, s') \<longleftrightarrow> (\<exists>x s. r = (Ok x, s) \<and> f x s = (Ok y, s'))"
  by (cases r; cases "fst r") auto

text \<open>An array access that faults outside its bounds.\<close>

definition nth_opt :: "'a list \<Rightarrow> nat \<Rightarrow> 'a option" where
  "nth_opt xs i = (if i < length xs then Some (xs ! i) else None)"

named_theorems ring_simps "index arithmetic of ring buffers"
named_theorems word_bit_simps "single bits of machine words"

subsection \<open>Lists and options\<close>

lemma nth_opt_eq_Some [simp]: "nth_opt xs i = Some x \<longleftrightarrow> i < length xs \<and> xs ! i = x"
  by (auto simp: nth_opt_def)

lemma nth_opt_eq_None [simp]: "nth_opt xs i = None \<longleftrightarrow> length xs \<le> i"
  by (auto simp: nth_opt_def)

lemma nth_opt_in: "i < length xs \<Longrightarrow> nth_opt xs i = Some (xs ! i)"
  by simp

text \<open>Unlinking the element at a position.\<close>

definition delete_at :: "nat \<Rightarrow> 'a list \<Rightarrow> 'a list" where
  "delete_at k xs = take k xs @ drop (Suc k) xs"

lemma delete_at_Cons [simp]:
  "delete_at 0 (x # xs) = xs" "delete_at (Suc k) (x # xs) = x # delete_at k xs"
  by (simp_all add: delete_at_def)

lemma set_delete_at: "set (delete_at k xs) \<subseteq> set xs"
  by (auto simp: delete_at_def dest: in_set_takeD in_set_dropD)

lemma distinct_delete_at: "distinct (map f xs) \<Longrightarrow> distinct (map f (delete_at k xs))"
proof (induction xs arbitrary: k)
  case (Cons x xs)
  then show ?case using set_delete_at [of _ xs] by (cases k) auto
qed (simp add: delete_at_def)

subsection \<open>Ring indices\<close>

lemma succ_mod_less [ring_simps]: "0 < (n::nat) \<Longrightarrow> Suc i mod n < n"
  by simp

text \<open>The number of elements between a head and a tail index of a ring of \<open>n\<close> slots.\<close>

definition ring_count :: "nat \<Rightarrow> nat \<Rightarrow> nat \<Rightarrow> nat" where
  "ring_count n h t = (if h \<le> t then t - h else n - h + t)"

lemma ring_count_less: "h < n \<Longrightarrow> t < n \<Longrightarrow> ring_count n h t < n"
  by (auto simp: ring_count_def)

lemma ring_count_self [simp]: "ring_count n h h = 0"
  by (simp add: ring_count_def)

lemma ring_count_zero: "h < n \<Longrightarrow> t < n \<Longrightarrow> ring_count n h t = 0 \<longleftrightarrow> h = t"
  by (auto simp: ring_count_def)

lemma succ_mod_cases: "i < n \<Longrightarrow> Suc i mod n = (if Suc i = n then 0 else Suc i)"
  by auto

lemma ring_count_full:
  "h < n \<Longrightarrow> t < n \<Longrightarrow> Suc t mod n = h \<longleftrightarrow> ring_count n h t = n - 1"
  by (auto simp: ring_count_def succ_mod_cases)

lemma ring_count_push:
  assumes "h < n" and "t < n" and "Suc t mod n \<noteq> h"
  shows "ring_count n h (Suc t mod n) = Suc (ring_count n h t)"
  using assms by (auto simp: ring_count_def succ_mod_cases)

lemma ring_count_pop:
  assumes "h < n" and "t < n" and "h \<noteq> t"
  shows "Suc (ring_count n (Suc h mod n) t) = ring_count n h t"
  using assms by (auto simp: ring_count_def succ_mod_cases)

lemma ring_index_last:
  assumes "h < n" and "t < n"
  shows "(h + ring_count n h t) mod n = t"
  using assms by (auto simp: ring_count_def)

lemma ring_index_inj:
  fixes n :: nat
  assumes "h < n" and "i < n" and "j < n" and "(h + i) mod n = (h + j) mod n"
  shows "i = j"
proof -
  have wrap: "(h + k) mod n = (if h + k < n then h + k else h + k - n)" if "k < n" for k
    using assms(1) that by (simp add: le_mod_geq)
  show ?thesis
    using assms(2-4) wrap [OF assms(2)] wrap [OF assms(3)] by (auto split: if_splits)
qed

subsection \<open>Machine words\<close>

lemma unat_lt_u16: "unat (w :: u16) < 65536"
  using unsigned_less [of w] by simp

lemma unat_lt_u8: "unat (w :: u8) < 256"
  using unsigned_less [of w] by simp

lemma unat_of_nat_u16 [simp]: "n < 65536 \<Longrightarrow> unat (word_of_nat n :: u16) = n"
  by (simp add: unat_of_nat)

lemma and_exp_zero [word_bit_simps]:
  "(w :: 'a::len word) AND 2 ^ n = 0 \<longleftrightarrow> \<not> bit w n"
proof
  assume "w AND 2 ^ n = 0"
  then have "bit (w AND 2 ^ n) n = bit (0 :: 'a word) n" by (rule arg_cong)
  then show "\<not> bit w n"
    by (auto simp: bit_and_iff bit_exp_iff dest: bit_imp_le_length)
next
  assume "\<not> bit w n"
  then show "w AND 2 ^ n = 0"
    by (intro bit_word_eqI) (auto simp: bit_and_iff bit_exp_iff)
qed

text \<open>The bits of a word that is below a power of two.\<close>

lemma small_bit:
  assumes "unat (x :: 'a::len word) < 2 ^ k" and "bit x n"
  shows "n < k"
proof (rule ccontr)
  assume "\<not> n < k"
  then have "unat x < 2 ^ n" using assms(1) power_increasing [of k n "2::nat"] by linarith
  moreover have "bit (unat x) n" using assms(2) by (simp add: bit_unsigned_iff bit_imp_le_length)
  ultimately show False by (simp add: bit_iff_odd)
qed

end
