(* ===== verification/Ctrl_State.thy ===== *)
theory Ctrl_State
  imports Prelude "HOL-Library.Sublist"
begin

text \<open>
  The controller state machine of \<open>lib/libunvmed.c\<close>: \<open>enum unvme_state\<close>, the transition
  switch of \<open>____unvmed_ctrl_set_state()\<close>, its locked wrappers (each runs as one atomic step
  under \<open>u->lock\<close>), the fallback variant, and the three entry points of the VF invalidation
  protocol. The state that these functions read and write is \<open>u->state\<close> alone.
\<close>

datatype unvme_state =
    UNVME_DISABLED | UNVME_ENABLING | UNVME_ENABLED | UNVME_RESETTING | UNVME_TEARDOWN
  | UNVME_FATAL | UNVME_VF_INVALIDATING | UNVME_VF_INVALIDATED | UNVME_VF_RECOVERING
  | UNVME_VF_RECOVERED | UNVME_VF_ENABLED

text \<open>The enumeration values \<open>1U << 0\<close> to \<open>1U << 10\<close>, which the sources also use as masks.\<close>

primrec state_pos :: "unvme_state \<Rightarrow> nat" where
  "state_pos UNVME_DISABLED = 0"
| "state_pos UNVME_ENABLING = 1"
| "state_pos UNVME_ENABLED = 2"
| "state_pos UNVME_RESETTING = 3"
| "state_pos UNVME_TEARDOWN = 4"
| "state_pos UNVME_FATAL = 5"
| "state_pos UNVME_VF_INVALIDATING = 6"
| "state_pos UNVME_VF_INVALIDATED = 7"
| "state_pos UNVME_VF_RECOVERING = 8"
| "state_pos UNVME_VF_RECOVERED = 9"
| "state_pos UNVME_VF_ENABLED = 10"

definition state_val :: "unvme_state \<Rightarrow> u32" where
  "state_val s = push_bit (state_pos s) 1"

text \<open>The test \<open>old & old_states\<close> of a state against a mask.\<close>

definition in_mask :: "unvme_state \<Rightarrow> u32 \<Rightarrow> bool" where
  "in_mask s states \<longleftrightarrow> state_val s AND states \<noteq> 0"

text \<open>\<open>unvmed_state_str()\<close>.\<close>

primrec unvmed_state_str :: "unvme_state \<Rightarrow> string" where
  "unvmed_state_str UNVME_DISABLED = ''DISABLED''"
| "unvmed_state_str UNVME_ENABLING = ''ENABLING''"
| "unvmed_state_str UNVME_ENABLED = ''ENABLED''"
| "unvmed_state_str UNVME_RESETTING = ''RESETTING''"
| "unvmed_state_str UNVME_TEARDOWN = ''TEARDOWN''"
| "unvmed_state_str UNVME_FATAL = ''FATAL''"
| "unvmed_state_str UNVME_VF_INVALIDATING = ''VF_INVALIDATING''"
| "unvmed_state_str UNVME_VF_INVALIDATED = ''VF_INVALIDATED''"
| "unvmed_state_str UNVME_VF_RECOVERING = ''VF_RECOVERING''"
| "unvmed_state_str UNVME_VF_RECOVERED = ''VF_RECOVERED''"
| "unvmed_state_str UNVME_VF_ENABLED = ''VF_ENABLED''"

text \<open>
  The nested switch: \<open>change_allowed new old\<close> is the value \<open>change\<close> has after it, the outer
  switch being on the requested state and the inner one on the current state.
\<close>

fun change_allowed :: "unvme_state \<Rightarrow> unvme_state \<Rightarrow> bool" where
  "change_allowed UNVME_DISABLED old = (old = UNVME_RESETTING)"
| "change_allowed UNVME_ENABLING old = (old = UNVME_DISABLED)"
| "change_allowed UNVME_ENABLED old = (old = UNVME_ENABLING \<or> old = UNVME_VF_ENABLED)"
| "change_allowed UNVME_RESETTING old = (old = UNVME_ENABLED \<or> old = UNVME_FATAL)"
| "change_allowed UNVME_TEARDOWN old =
     (old = UNVME_DISABLED \<or> old = UNVME_ENABLED \<or> old = UNVME_RESETTING \<or> old = UNVME_FATAL
      \<or> old = UNVME_VF_INVALIDATED \<or> old = UNVME_VF_RECOVERING)"
| "change_allowed UNVME_FATAL old =
     (old = UNVME_ENABLING \<or> old = UNVME_RESETTING \<or> old = UNVME_VF_INVALIDATING
      \<or> old = UNVME_ENABLED)"
| "change_allowed UNVME_VF_INVALIDATING old =
     (old = UNVME_ENABLED \<or> old = UNVME_DISABLED \<or> old = UNVME_RESETTING
      \<or> old = UNVME_ENABLING \<or> old = UNVME_FATAL \<or> old = UNVME_VF_ENABLED)"
| "change_allowed UNVME_VF_INVALIDATED old =
     (old = UNVME_ENABLED \<or> old = UNVME_FATAL \<or> old = UNVME_DISABLED
      \<or> old = UNVME_RESETTING \<or> old = UNVME_VF_INVALIDATING \<or> old = UNVME_VF_ENABLED)"
| "change_allowed UNVME_VF_RECOVERING old = (old = UNVME_TEARDOWN)"
| "change_allowed UNVME_VF_RECOVERED old = (old = UNVME_VF_RECOVERING)"
| "change_allowed UNVME_VF_ENABLED old = (old = UNVME_DISABLED \<or> old = UNVME_VF_RECOVERED)"

text \<open>
  \<open>____unvmed_ctrl_set_state()\<close>: \<open>Inr\<close> is the return value true with the stored state,
  \<open>Inl\<close> is false with \<open>errno\<close>, the state being unchanged.
\<close>

definition unvmed_ctrl_set_state_u4 ::
  "unvme_state \<Rightarrow> unvme_state \<Rightarrow> errno + unvme_state" where
  "unvmed_ctrl_set_state_u4 old state =
     (if old = state then Inl EALREADY
      else if change_allowed state old then Inr state
      else Inl EINVAL)"

definition unvmed_ctrl_cmp_set_state_u2 ::
  "unvme_state \<Rightarrow> u32 \<Rightarrow> unvme_state \<Rightarrow> errno + unvme_state" where
  "unvmed_ctrl_cmp_set_state_u2 old old_states state =
     (if \<not> in_mask old old_states then Inl EAGAIN
      else unvmed_ctrl_set_state_u4 old state)"

definition unvmed_ctrl_set_state_u2 ::
  "unvme_state \<Rightarrow> unvme_state \<Rightarrow> errno + unvme_state" where
  "unvmed_ctrl_set_state_u2 old state = unvmed_ctrl_set_state_u4 old state"

text \<open>
  The state left behind and the boolean result of a set-state call, for callers that ignore
  \<open>errno\<close>.
\<close>

definition state_after :: "unvme_state \<Rightarrow> errno + unvme_state \<Rightarrow> unvme_state" where
  "state_after old r = (case r of Inl _ \<Rightarrow> old | Inr s \<Rightarrow> s)"

definition changed :: "errno + unvme_state \<Rightarrow> bool" where
  "changed r = (case r of Inl _ \<Rightarrow> False | Inr _ \<Rightarrow> True)"

text \<open>
  \<open>unvmed_ctrl_set_state_fallback()\<close>: the returned flag, the state left behind, and the last
  \<open>errno\<close> that the call assigned, if any.
\<close>

definition unvmed_ctrl_set_state_fallback ::
  "unvme_state \<Rightarrow> unvme_state \<Rightarrow> u32 \<Rightarrow> unvme_state \<Rightarrow> bool \<times> unvme_state \<times> errno option"
where
  "unvmed_ctrl_set_state_fallback cur state cur_states fallback =
     (case unvmed_ctrl_set_state_u4 cur state of
        Inr s \<Rightarrow> (True, s, None)
      | Inl e \<Rightarrow>
          if e = EALREADY then (True, cur, Some e)
          else if \<not> in_mask cur cur_states then (False, cur, Some e)
          else (case unvmed_ctrl_set_state_u4 cur fallback of
                  Inr s \<Rightarrow> (False, s, Some ENODEV)
                | Inl e' \<Rightarrow>
                    if e' = EALREADY then (False, cur, Some ENODEV)
                    else (False, cur, Some e')))"

subsection \<open>Invalidation of a virtual function\<close>

text \<open>
  The three entry points of the VF invalidation protocol. They are entered only for a
  controller whose \<open>u->ctrl.pci.bdf\<close> is set and names a virtual function
  (\<open>pci_is_vf\<close> of libvfn is a parameter). Other threads may change \<open>u->state\<close> between two
  accesses, so each access has its own argument: the state it observes.
\<close>

definition vf_present :: "(string \<Rightarrow> bool) \<Rightarrow> string option \<Rightarrow> bool" where
  "vf_present pci_is_vf bdf = (case bdf of None \<Rightarrow> False | Some b \<Rightarrow> pci_is_vf b)"

text \<open>
  \<open>unvmed_vf_check_reset_allowed()\<close>: \<open>cur\<close> is the state of the first read, \<open>now\<close> the state
  under the lock of the compare-and-set. The result is the return value and the state left.
\<close>

definition unvmed_vf_check_reset_allowed ::
  "(string \<Rightarrow> bool) \<Rightarrow> string option \<Rightarrow> unvme_state \<Rightarrow> unvme_state
   \<Rightarrow> (errno + unit) \<times> unvme_state" where
  "unvmed_vf_check_reset_allowed pci_is_vf bdf cur now =
     (if \<not> vf_present pci_is_vf bdf then (Inl ENODEV, now)
      else if cur = UNVME_ENABLED then (Inr (), now)
      else (case unvmed_ctrl_cmp_set_state_u2 now
                   (state_val UNVME_VF_INVALIDATING OR state_val UNVME_FATAL)
                   UNVME_VF_INVALIDATED of
              Inr s \<Rightarrow> (Inl EBUSY, s)
            | Inl e \<Rightarrow>
                if e \<noteq> EAGAIN \<and> e \<noteq> EALREADY then (Inl e, now) else (Inl EBUSY, now)))"

text \<open>The source mask of \<open>unvmed_vf_start_invalidating()\<close>.\<close>

definition invalidating_allowed :: u32 where
  "invalidating_allowed =
     NOT (state_val UNVME_VF_ENABLED OR state_val UNVME_RESETTING) AND (push_bit 11 1 - 1)"

text \<open>
  Its retry loop over the states that the successive attempts observe; \<open>None\<close> means that the
  loop is still spinning when the observations are used up.
\<close>

fun start_invalidating_loop :: "unvme_state list \<Rightarrow> (errno + unvme_state) option" where
  "start_invalidating_loop [] = None"
| "start_invalidating_loop (now # later) =
     (case unvmed_ctrl_cmp_set_state_u2 now invalidating_allowed UNVME_VF_INVALIDATING of
        Inr s \<Rightarrow> Some (Inr s)
      | Inl e \<Rightarrow> if e \<noteq> EAGAIN then Some (Inl e) else start_invalidating_loop later)"

text \<open>On success it returns the state \<open>cur\<close> read first; the new state is the second component.\<close>

definition unvmed_vf_start_invalidating ::
  "(string \<Rightarrow> bool) \<Rightarrow> string option \<Rightarrow> unvme_state \<Rightarrow> unvme_state list
   \<Rightarrow> (errno + unvme_state \<times> unvme_state) option" where
  "unvmed_vf_start_invalidating pci_is_vf bdf cur attempts =
     (if \<not> vf_present pci_is_vf bdf then Some (Inl ENODEV)
      else (case start_invalidating_loop attempts of
              None \<Rightarrow> None
            | Some (Inl e) \<Rightarrow> Some (Inl e)
            | Some (Inr s) \<Rightarrow> Some (Inr (cur, s))))"

definition invalidated_exit_state :: u32 where
  "invalidated_exit_state =
     state_val UNVME_VF_INVALIDATED OR state_val UNVME_FATAL OR state_val UNVME_ENABLED
     OR state_val UNVME_DISABLED OR state_val UNVME_RESETTING OR state_val UNVME_VF_ENABLED"

fun wait_exit_state :: "unvme_state list \<Rightarrow> bool" where
  "wait_exit_state [] = False"
| "wait_exit_state (cur # later) =
     (in_mask cur invalidated_exit_state \<or> wait_exit_state later)"

text \<open>
  The poll of \<open>CSTS\<close> over the values the device returns; \<open>rdy\<close> and \<open>cfs\<close> are the field
  tests \<open>NVME_CSTS_RDY\<close> and \<open>NVME_CSTS_CFS\<close> of the NVMe headers.
\<close>

fun wait_not_ready :: "(u32 \<Rightarrow> bool) \<Rightarrow> (u32 \<Rightarrow> bool) \<Rightarrow> u32 list \<Rightarrow> (errno + unit) option" where
  "wait_not_ready rdy cfs [] = None"
| "wait_not_ready rdy cfs (csts # later) =
     (if csts = 0xffffffff then Some (Inl ENODEV)
      else if \<not> rdy csts \<or> cfs csts then Some (Inr ())
      else wait_not_ready rdy cfs later)"

text \<open>
  \<open>unvmed_vf_finish_invalidated()\<close>: \<open>obs\<close> are the states its first loop observes, \<open>reads\<close>
  the \<open>CSTS\<close> values, \<open>now\<close> the state under the lock at the end.
\<close>

definition unvmed_vf_finish_invalidated ::
  "(u32 \<Rightarrow> bool) \<Rightarrow> (u32 \<Rightarrow> bool) \<Rightarrow> (string \<Rightarrow> bool) \<Rightarrow> string option \<Rightarrow> unvme_state
   \<Rightarrow> unvme_state list \<Rightarrow> u32 list \<Rightarrow> unvme_state \<Rightarrow> ((errno + unit) \<times> unvme_state) option" where
  "unvmed_vf_finish_invalidated rdy cfs pci_is_vf bdf old obs reads now =
     (if \<not> vf_present pci_is_vf bdf then Some (Inl ENODEV, now)
      else if \<not> in_mask old invalidated_exit_state \<and> \<not> wait_exit_state obs then None
      else (case wait_not_ready rdy cfs reads of
              None \<Rightarrow> None
            | Some (Inl e) \<Rightarrow> Some (Inl e, now)
            | Some (Inr _) \<Rightarrow>
                (case unvmed_ctrl_set_state_u2 now UNVME_VF_INVALIDATED of
                   Inr s \<Rightarrow> Some (Inr (), s)
                 | Inl e \<Rightarrow> if e \<noteq> EALREADY then Some (Inl e, now) else Some (Inr (), now))))"

subsection \<open>The transition graph\<close>

text \<open>One successful state change, whoever asks for it.\<close>

inductive ctrl_step :: "unvme_state \<Rightarrow> unvme_state \<Rightarrow> bool" where
  set_state: "unvmed_ctrl_set_state_u4 old state = Inr new \<Longrightarrow> ctrl_step old new"

inductive_cases ctrl_stepE: "ctrl_step old new"

lemma ctrl_step_iff: "ctrl_step old new \<longleftrightarrow> old \<noteq> new \<and> change_allowed new old"
proof
  assume "ctrl_step old new"
  then show "old \<noteq> new \<and> change_allowed new old"
    by (auto elim!: ctrl_stepE simp: unvmed_ctrl_set_state_u4_def split: if_splits)
next
  assume "old \<noteq> new \<and> change_allowed new old"
  then have "unvmed_ctrl_set_state_u4 old new = Inr new"
    by (simp add: unvmed_ctrl_set_state_u4_def)
  then show "ctrl_step old new" by (rule ctrl_step.set_state)
qed

fun ctrl_path :: "unvme_state \<Rightarrow> unvme_state list \<Rightarrow> bool" where
  "ctrl_path s [] = True"
| "ctrl_path s (t # ts) = (ctrl_step s t \<and> ctrl_path t ts)"

subsection \<open>Masks\<close>

lemma in_mask_bit: "in_mask s states \<longleftrightarrow> bit states (state_pos s)"
proof -
  have "state_pos s < 32" by (cases s) simp_all
  then show ?thesis
    by (simp add: in_mask_def state_val_def and.commute word_bit_simps)
qed

lemma state_val_bit: "bit (state_val s) n \<longleftrightarrow> n = state_pos s"
proof -
  have "state_pos s < 32" by (cases s) simp_all
  then show ?thesis
    by (auto simp: state_val_def bit_exp_iff)
qed

lemma state_pos_inj: "state_pos s = state_pos t \<longleftrightarrow> s = t"
  by (cases s; cases t) simp_all

lemma in_mask_state_val [simp]: "in_mask s (state_val t) \<longleftrightarrow> s = t"
  by (auto simp: in_mask_bit state_val_bit state_pos_inj)

lemma in_mask_or [simp]: "in_mask s (m OR n) \<longleftrightarrow> in_mask s m \<or> in_mask s n"
  by (simp add: in_mask_bit bit_or_iff)

lemma in_mask_and [simp]: "in_mask s (m AND n) \<longleftrightarrow> in_mask s m \<and> in_mask s n"
  by (simp add: in_mask_bit bit_and_iff)

lemma in_mask_not [simp]: "in_mask s (NOT m) \<longleftrightarrow> \<not> in_mask s m"
proof -
  have "state_pos s < 32" by (cases s) simp_all
  then show ?thesis by (simp add: in_mask_bit bit_not_iff)
qed

lemma in_mask_low_bits [simp]: "in_mask s 0x7FF"
  by (cases s) (simp_all add: in_mask_def state_val_def)

lemma in_invalidating_allowed [simp]:
  "in_mask s invalidating_allowed \<longleftrightarrow> s \<noteq> UNVME_VF_ENABLED \<and> s \<noteq> UNVME_RESETTING"
  by (simp add: invalidating_allowed_def)

lemma in_invalidated_exit_state [simp]:
  "in_mask s invalidated_exit_state \<longleftrightarrow>
   s \<in> {UNVME_VF_INVALIDATED, UNVME_FATAL, UNVME_ENABLED, UNVME_DISABLED, UNVME_RESETTING,
        UNVME_VF_ENABLED}"
  by (auto simp: invalidated_exit_state_def)

subsection \<open>Paths of the transition graph\<close>

lemma ctrl_path_append:
  "ctrl_path s (ts @ us) \<longleftrightarrow> ctrl_path s ts \<and> ctrl_path (last (s # ts)) us"
  by (induction ts arbitrary: s) auto

lemma step_from_teardown: "ctrl_step UNVME_TEARDOWN t \<Longrightarrow> t = UNVME_VF_RECOVERING"
  by (cases t) (simp_all add: ctrl_step_iff)

lemma step_from_recovering:
  "ctrl_step UNVME_VF_RECOVERING t \<Longrightarrow> t = UNVME_VF_RECOVERED \<or> t = UNVME_TEARDOWN"
  by (cases t) (simp_all add: ctrl_step_iff)

lemma step_from_recovered: "ctrl_step UNVME_VF_RECOVERED t \<Longrightarrow> t = UNVME_VF_ENABLED"
  by (cases t) (simp_all add: ctrl_step_iff)

lemma step_from_invalidated: "ctrl_step UNVME_VF_INVALIDATED t \<Longrightarrow> t = UNVME_TEARDOWN"
  by (cases t) (simp_all add: ctrl_step_iff)

lemma step_to_disabled: "ctrl_step s UNVME_DISABLED \<Longrightarrow> s = UNVME_RESETTING"
  by (cases s) (simp_all add: ctrl_step_iff)

text \<open>The states a controller may be in between a teardown and the end of VF recovery.\<close>

definition recovery_states :: "unvme_state set" where
  "recovery_states = {UNVME_TEARDOWN, UNVME_VF_RECOVERING, UNVME_VF_RECOVERED}"

lemma recovery_suffix:
  assumes "ctrl_path s ts" and "last (s # ts) \<notin> recovery_states"
  shows "(s = UNVME_TEARDOWN \<longrightarrow>
            subseq [UNVME_VF_RECOVERING, UNVME_VF_RECOVERED, UNVME_VF_ENABLED] ts)
       \<and> (s = UNVME_VF_RECOVERING \<longrightarrow> subseq [UNVME_VF_RECOVERED, UNVME_VF_ENABLED] ts)
       \<and> (s = UNVME_VF_RECOVERED \<longrightarrow> subseq [UNVME_VF_ENABLED] ts)"
  using assms
proof (induction ts arbitrary: s)
  case Nil
  then show ?case by (auto simp: recovery_states_def)
next
  case (Cons t ts)
  have IH: "(t = UNVME_TEARDOWN \<longrightarrow>
            subseq [UNVME_VF_RECOVERING, UNVME_VF_RECOVERED, UNVME_VF_ENABLED] ts)
       \<and> (t = UNVME_VF_RECOVERING \<longrightarrow> subseq [UNVME_VF_RECOVERED, UNVME_VF_ENABLED] ts)
       \<and> (t = UNVME_VF_RECOVERED \<longrightarrow> subseq [UNVME_VF_ENABLED] ts)"
    using Cons.prems by (intro Cons.IH) (simp_all split: if_splits)
  have "ctrl_step s t" using Cons.prems(1) by simp
  then show ?case
    using IH step_from_teardown [of t] step_from_recovering [of t] step_from_recovered [of t]
    by (auto dest: subseq_Cons' intro: subseq_Cons2 list_emb_Cons)
qed

text \<open>C17. A controller that entered \<open>UNVME_TEARDOWN\<close> is outside of the three states of teardown and recovery again only
  after it went through \<open>VF_RECOVERING\<close>, \<open>VF_RECOVERED\<close> and \<open>VF_ENABLED\<close>, in this order. Two shorter
  ways that comments of the library describe are refused by its state machine: from \<open>VF_RECOVERED\<close> to
  \<open>ENABLING\<close>, the normal enable path, and from \<open>VF_RECOVERING\<close> directly to \<open>VF_ENABLED\<close>.
\<close>

theorem teardown_recovery_chain:
  assumes "ctrl_path UNVME_TEARDOWN ts" and "last (UNVME_TEARDOWN # ts) \<notin> recovery_states"
  shows "subseq [UNVME_VF_RECOVERING, UNVME_VF_RECOVERED, UNVME_VF_ENABLED] ts
    \<and> \<not> ctrl_step UNVME_VF_RECOVERED UNVME_ENABLING \<and> \<not> ctrl_step UNVME_VF_RECOVERING UNVME_VF_ENABLED"
  using recovery_suffix [OF assms] by (simp add: ctrl_step_iff)

theorem teardown_recovery_chain_witness:
  "subseq [UNVME_VF_RECOVERING, UNVME_VF_RECOVERED, UNVME_VF_ENABLED]
     [UNVME_VF_RECOVERING, UNVME_TEARDOWN, UNVME_VF_RECOVERING, UNVME_VF_RECOVERED,
      UNVME_VF_ENABLED, UNVME_ENABLED]"
  by (rule teardown_recovery_chain [THEN conjunct1]) (simp_all add: ctrl_step_iff recovery_states_def)

text \<open>A path from every state to \<open>UNVME_DISABLED\<close>, and from there to every state.\<close>

definition recovery_route :: "unvme_state list" where
  "recovery_route = [UNVME_VF_RECOVERING, UNVME_VF_RECOVERED, UNVME_VF_ENABLED, UNVME_ENABLED,
     UNVME_RESETTING, UNVME_DISABLED]"

fun route_to_disabled :: "unvme_state \<Rightarrow> unvme_state list" where
  "route_to_disabled UNVME_DISABLED = []"
| "route_to_disabled UNVME_ENABLING = [UNVME_ENABLED, UNVME_RESETTING, UNVME_DISABLED]"
| "route_to_disabled UNVME_ENABLED = [UNVME_RESETTING, UNVME_DISABLED]"
| "route_to_disabled UNVME_RESETTING = [UNVME_DISABLED]"
| "route_to_disabled UNVME_TEARDOWN = recovery_route"
| "route_to_disabled UNVME_FATAL = [UNVME_RESETTING, UNVME_DISABLED]"
| "route_to_disabled UNVME_VF_INVALIDATING =
     UNVME_VF_INVALIDATED # UNVME_TEARDOWN # recovery_route"
| "route_to_disabled UNVME_VF_INVALIDATED = UNVME_TEARDOWN # recovery_route"
| "route_to_disabled UNVME_VF_RECOVERING = tl recovery_route"
| "route_to_disabled UNVME_VF_RECOVERED = tl (tl recovery_route)"
| "route_to_disabled UNVME_VF_ENABLED = [UNVME_ENABLED, UNVME_RESETTING, UNVME_DISABLED]"

fun route_from_disabled :: "unvme_state \<Rightarrow> unvme_state list" where
  "route_from_disabled UNVME_DISABLED = []"
| "route_from_disabled UNVME_ENABLED = [UNVME_ENABLING, UNVME_ENABLED]"
| "route_from_disabled UNVME_RESETTING = [UNVME_ENABLING, UNVME_ENABLED, UNVME_RESETTING]"
| "route_from_disabled UNVME_FATAL = [UNVME_ENABLING, UNVME_FATAL]"
| "route_from_disabled UNVME_VF_RECOVERING = [UNVME_TEARDOWN, UNVME_VF_RECOVERING]"
| "route_from_disabled UNVME_VF_RECOVERED =
     [UNVME_TEARDOWN, UNVME_VF_RECOVERING, UNVME_VF_RECOVERED]"
| "route_from_disabled s = [s]"

lemma route_to_disabled_path:
  "ctrl_path s (route_to_disabled s) \<and> last (s # route_to_disabled s) = UNVME_DISABLED"
  by (cases s) (simp_all add: recovery_route_def ctrl_step_iff)

lemma route_from_disabled_path:
  "ctrl_path UNVME_DISABLED (route_from_disabled t)
   \<and> last (UNVME_DISABLED # route_from_disabled t) = t"
  by (cases t) (simp_all add: ctrl_step_iff)

text \<open>Every controller state can be reached from every other one by state changes that the
  transition switch accepts: no state is a dead end, teardown included.
\<close>

theorem ctrl_graph_connected: "\<exists>ts. ctrl_path s ts \<and> last (s # ts) = t"
proof -
  let ?to = "route_to_disabled s" and ?from = "route_from_disabled t"
  have "ctrl_path s (?to @ ?from)"
    using route_to_disabled_path [of s] route_from_disabled_path [of t]
    by (simp only: ctrl_path_append)
  moreover have "last (s # ?to @ ?from) = t"
    using route_to_disabled_path [of s] route_from_disabled_path [of t]
    by (cases "?from = []") auto
  ultimately show ?thesis by blast
qed

subsection \<open>The VF protocol\<close>

lemma start_invalidating_spin:
  "set waits \<subseteq> {UNVME_VF_ENABLED, UNVME_RESETTING} \<Longrightarrow>
   start_invalidating_loop (waits @ rest) = start_invalidating_loop rest"
  by (induction waits) (auto simp: unvmed_ctrl_cmp_set_state_u2_def)

lemma start_invalidating_settles:
  assumes "s \<notin> {UNVME_VF_ENABLED, UNVME_RESETTING}"
  shows "start_invalidating_loop (s # rest) = Some (
     if s \<in> {UNVME_ENABLED, UNVME_DISABLED, UNVME_ENABLING, UNVME_FATAL}
     then Inr UNVME_VF_INVALIDATING
     else Inl (if s = UNVME_VF_INVALIDATING then EALREADY else EINVAL))"
  using assms
  by (cases s) (simp_all add: unvmed_ctrl_cmp_set_state_u2_def unvmed_ctrl_set_state_u4_def)

text \<open>Starting the invalidation of a VF spins exactly while the controller is in
  \<open>VF_ENABLED\<close> or \<open>RESETTING\<close>. Once another state is observed it returns: with the
  state \<open>VF_INVALIDATING\<close> from four states, with \<open>EALREADY\<close> when it is there already, and
  with \<open>EINVAL\<close> from the teardown, invalidated and recovery states, although the source
  comment says that all states but the two it waits out are allowed.
\<close>

theorem vf_start_invalidating_outcome:
  assumes "vf_present pci_is_vf bdf"
    and "set waits \<subseteq> {UNVME_VF_ENABLED, UNVME_RESETTING}"
    and "s \<notin> {UNVME_VF_ENABLED, UNVME_RESETTING}"
  shows "unvmed_vf_start_invalidating pci_is_vf bdf cur waits = None
   \<and> unvmed_vf_start_invalidating pci_is_vf bdf cur (waits @ s # rest) = Some (
     if s \<in> {UNVME_ENABLED, UNVME_DISABLED, UNVME_ENABLING, UNVME_FATAL}
     then Inr (cur, UNVME_VF_INVALIDATING)
     else Inl (if s = UNVME_VF_INVALIDATING then EALREADY else EINVAL))"
  using assms start_invalidating_spin [OF assms(2), of "[]"]
  by (simp add: unvmed_vf_start_invalidating_def start_invalidating_spin
        start_invalidating_settles del: start_invalidating_loop.simps(2))

theorem vf_start_invalidating_outcome_witness:
  "unvmed_vf_start_invalidating (\<lambda>_. True) (Some ''0000:01:00.1'') UNVME_RESETTING
     [UNVME_RESETTING, UNVME_TEARDOWN] = Some (Inl EINVAL)"
  using vf_start_invalidating_outcome [of "\<lambda>_. True" "Some ''0000:01:00.1''" "[UNVME_RESETTING]"
      UNVME_TEARDOWN UNVME_RESETTING "[]"]
  by (simp add: vf_present_def)

lemma vf_check_reset_allowed_outcome:
  "unvmed_vf_check_reset_allowed pci_is_vf bdf cur now =
     (if \<not> vf_present pci_is_vf bdf then (Inl ENODEV, now)
      else if cur = UNVME_ENABLED then (Inr (), now)
      else (Inl EBUSY,
            if now = UNVME_VF_INVALIDATING \<or> now = UNVME_FATAL then UNVME_VF_INVALIDATED
            else now))"
  by (cases now) (simp_all add: unvmed_vf_check_reset_allowed_def
        unvmed_ctrl_cmp_set_state_u2_def unvmed_ctrl_set_state_u4_def)

lemma wait_not_ready_returns:
  assumes "\<exists>csts \<in> set reads. csts = 0xffffffff \<or> \<not> rdy csts \<or> cfs csts"
  shows "wait_not_ready rdy cfs reads \<noteq> None"
  using assms by (induction reads) auto

lemma wait_not_ready_ok:
  "wait_not_ready rdy cfs reads = Some (Inr x) \<Longrightarrow>
   \<exists>csts \<in> set reads. csts \<noteq> 0xffffffff \<and> (\<not> rdy csts \<or> cfs csts)"
  by (induction reads) (auto split: if_splits)

text \<open>When the invalidation of a VF finishes with success, the controller is in
  \<open>VF_INVALIDATED\<close>, and the poll of the device saw it not ready or in fatal status.
\<close>

theorem finish_invalidated_state:
  assumes "unvmed_vf_finish_invalidated rdy cfs pci_is_vf bdf old obs reads now
             = Some (Inr (), st)"
  shows "st = UNVME_VF_INVALIDATED
    \<and> (\<exists>csts \<in> set reads. csts \<noteq> 0xffffffff \<and> (\<not> rdy csts \<or> cfs csts))"
  using assms wait_not_ready_ok [of rdy cfs reads]
  by (auto simp: unvmed_vf_finish_invalidated_def unvmed_ctrl_set_state_u2_def
        unvmed_ctrl_set_state_u4_def split: if_splits option.splits sum.splits)

theorem finish_invalidated_state_witness:
  "unvmed_vf_finish_invalidated (\<lambda>c. bit c 0) (\<lambda>c. bit c 1) (\<lambda>_. True) (Some ''0000:01:00.1'')
     UNVME_VF_INVALIDATING [UNVME_FATAL] [1, 0] UNVME_FATAL = Some (Inr (), UNVME_VF_INVALIDATED)
   \<and> (\<exists>csts \<in> set [1, 0 :: u32]. csts \<noteq> 0xffffffff \<and> (\<not> bit csts 0 \<or> bit csts 1))"
proof -
  have run: "unvmed_vf_finish_invalidated (\<lambda>c. bit c 0) (\<lambda>c. bit c 1) (\<lambda>_. True)
     (Some ''0000:01:00.1'') UNVME_VF_INVALIDATING [UNVME_FATAL] [1, 0] UNVME_FATAL
       = Some (Inr (), UNVME_VF_INVALIDATED)"
    by (simp add: unvmed_vf_finish_invalidated_def vf_present_def unvmed_ctrl_set_state_u2_def
        unvmed_ctrl_set_state_u4_def)
  with finish_invalidated_state [OF run] show ?thesis by blast
qed

lemma set_state_fallback_vf_enabled:
  "unvmed_ctrl_set_state_fallback cur UNVME_VF_ENABLED
     (state_val UNVME_VF_INVALIDATING OR state_val UNVME_VF_INVALIDATED OR state_val UNVME_FATAL)
     UNVME_VF_INVALIDATED =
   (if cur = UNVME_VF_ENABLED then (True, cur, Some EALREADY)
    else if cur = UNVME_DISABLED \<or> cur = UNVME_VF_RECOVERED then (True, UNVME_VF_ENABLED, None)
    else if cur \<in> {UNVME_VF_INVALIDATING, UNVME_VF_INVALIDATED, UNVME_FATAL}
      then (False, UNVME_VF_INVALIDATED, Some ENODEV)
    else (False, cur, Some EINVAL))"
  by (cases cur) (simp_all add: unvmed_ctrl_set_state_fallback_def unvmed_ctrl_set_state_u4_def)

end
