(* ===== verification/Id_Pool.thy ===== *)
theory Id_Pool
  imports Prelude
begin

text \<open>
  The contract that the driver's two identifier allocators share: the VCQ identifier stack of
  \<open>lib/libunvmed-vcq.c\<close> and the per-queue command identifier bitmap of
  \<open>lib/libunvmed-cmds.c\<close>. A client acquires an identifier, holds it, and releases only what it
  holds. \<open>pool_run\<close> is such a client; the locale proves once that no identifier is held twice.
\<close>

datatype pool_op = Acquire | Release nat

fun pool_run ::
  "('p \<Rightarrow> (nat \<times> 'p) option) \<Rightarrow> ('p \<Rightarrow> nat \<Rightarrow> 'p) \<Rightarrow> pool_op list \<Rightarrow> 'p \<times> nat list
   \<Rightarrow> 'p \<times> nat list" where
  "pool_run acq rel [] (p, held) = (p, held)"
| "pool_run acq rel (Acquire # ops) (p, held) =
     (case acq p of
        None \<Rightarrow> pool_run acq rel ops (p, held)
      | Some (i, p') \<Rightarrow> pool_run acq rel ops (p', i # held))"
| "pool_run acq rel (Release i # ops) (p, held) =
     (if i \<in> set held then pool_run acq rel ops (rel p i, remove1 i held)
      else pool_run acq rel ops (p, held))"

locale id_pool =
  fixes acq :: "'p \<Rightarrow> (nat \<times> 'p) option"
    and rel :: "'p \<Rightarrow> nat \<Rightarrow> 'p"
    and ids :: "'p \<Rightarrow> nat set"
    and free :: "'p \<Rightarrow> nat set"
    and inv :: "'p \<Rightarrow> bool"
  assumes free_ids: "inv p \<Longrightarrow> free p \<subseteq> ids p"
    and acq_some: "inv p \<Longrightarrow> acq p = Some (i, p') \<Longrightarrow>
          i \<in> free p \<and> free p' = free p - {i} \<and> ids p' = ids p \<and> inv p'"
    and acq_none: "inv p \<Longrightarrow> acq p = None \<longleftrightarrow> free p = {}"
    and rel_held: "inv p \<Longrightarrow> i \<in> ids p \<Longrightarrow> i \<notin> free p \<Longrightarrow>
          free (rel p i) = insert i (free p) \<and> ids (rel p i) = ids p \<and> inv (rel p i)"
begin

text \<open>What a client may rely on between its calls: it holds exactly what is not free.\<close>

definition holds :: "'p \<Rightarrow> nat list \<Rightarrow> bool" where
  "holds p held \<longleftrightarrow> inv p \<and> distinct held \<and> set held = ids p - free p"

lemma holds_acq:
  assumes "holds p held" and "acq p = Some (i, p')"
  shows "holds p' (i # held) \<and> ids p' = ids p"
proof -
  have "inv p" and held: "set held = ids p - free p" and "distinct held"
    using assms(1) by (auto simp: holds_def)
  with acq_some [OF \<open>inv p\<close> assms(2)] free_ids [OF \<open>inv p\<close>] show ?thesis
    by (auto simp: holds_def)
qed

lemma holds_rel:
  assumes "holds p held" and "i \<in> set held"
  shows "holds (rel p i) (remove1 i held) \<and> ids (rel p i) = ids p"
proof -
  have "inv p" and "set held = ids p - free p" and "distinct held"
    using assms(1) by (auto simp: holds_def)
  with rel_held [OF \<open>inv p\<close>, of i] assms(2) show ?thesis
    by (auto simp: holds_def)
qed

lemma holds_run:
  "holds p held \<Longrightarrow> pool_run acq rel ops (p, held) = (p', held') \<Longrightarrow>
   holds p' held' \<and> ids p' = ids p"
proof (induction ops arbitrary: p held)
  case (Cons op ops)
  show ?case
  proof (cases op)
    case Acquire
    show ?thesis
    proof (cases "acq p")
      case None
      with Cons Acquire show ?thesis by simp
    next
      case (Some ip)
      then obtain i q where acq: "acq p = Some (i, q)" by (cases ip) simp
      with Cons.prems Acquire have "pool_run acq rel ops (q, i # held) = (p', held')" by simp
      with Cons.IH holds_acq [OF Cons.prems(1) acq] show ?thesis by force
    qed
  next
    case (Release i)
    with Cons.IH Cons.prems holds_rel [OF Cons.prems(1), of i] show ?thesis
      by (simp split: if_splits) force
  qed
qed simp

lemma run_distinct:
  assumes "inv p" and "free p = ids p" and "pool_run acq rel ops (p, []) = (p', held)"
  shows "distinct held \<and> set held \<subseteq> ids p
    \<and> (acq p' = None \<longleftrightarrow> set held = ids p)"
proof -
  have "holds p []" using assms(1,2) by (simp add: holds_def)
  then have run: "holds p' held \<and> ids p' = ids p" using assms(3) by (rule holds_run)
  then have "inv p'" by (simp add: holds_def)
  with run acq_none [OF this] free_ids [OF this] show ?thesis
    by (auto simp: holds_def)
qed

end

end
