(* ===== verification/Bounded_Fifo.thy ===== *)
theory Bounded_Fifo
  imports Prelude
begin

text \<open>
  The contract of a bounded first-in first-out queue, and what its consumer gets by popping
  repeatedly. The virtual completion queue provides it; the reaping loops are its clients.
\<close>

text \<open>Pop at most \<open>n\<close> entries, stopping when the queue reports that it is empty.\<close>

fun drain :: "('q \<Rightarrow> ('e \<times> 'q) outcome) \<Rightarrow> nat \<Rightarrow> 'q \<Rightarrow> ('e list \<times> 'q) outcome" where
  "drain pop 0 q = Ok ([], q)"
| "drain pop (Suc n) q =
     (case pop q of
        Ok (e, q') \<Rightarrow>
          (case drain pop n q' of Ok (es, r) \<Rightarrow> Ok (e # es, r) | Fail x \<Rightarrow> Fail x | Fault \<Rightarrow> Fault)
      | Fail _ \<Rightarrow> Ok ([], q)
      | Fault \<Rightarrow> Fault)"

text \<open>Push a list of entries, stopping at the first refusal.\<close>

fun push_all :: "('q \<Rightarrow> 'e \<Rightarrow> 'q outcome) \<Rightarrow> 'e list \<Rightarrow> 'q \<Rightarrow> 'q outcome" where
  "push_all push [] q = Ok q"
| "push_all push (e # es) q =
     (case push q e of Ok q' \<Rightarrow> push_all push es q' | Fail x \<Rightarrow> Fail x | Fault \<Rightarrow> Fault)"

locale bounded_fifo =
  fixes push :: "'q \<Rightarrow> 'e \<Rightarrow> 'q outcome"
    and pop :: "'q \<Rightarrow> ('e \<times> 'q) outcome"
    and entries :: "'q \<Rightarrow> 'e list"
    and cap :: "'q \<Rightarrow> nat"
    and wf :: "'q \<Rightarrow> bool"
  assumes entries_bound: "wf q \<Longrightarrow> length (entries q) \<le> cap q"
    and push_full: "wf q \<Longrightarrow> length (entries q) = cap q \<Longrightarrow> push q e = Fail EAGAIN"
    and push_room: "wf q \<Longrightarrow> length (entries q) < cap q \<Longrightarrow>
          \<exists>q'. push q e = Ok q' \<and> entries q' = entries q @ [e] \<and> cap q' = cap q \<and> wf q'"
    and pop_empty: "wf q \<Longrightarrow> entries q = [] \<Longrightarrow> pop q = Fail ENOENT"
    and pop_first: "wf q \<Longrightarrow> entries q = e # es \<Longrightarrow>
          \<exists>q'. pop q = Ok (e, q') \<and> entries q' = es \<and> cap q' = cap q \<and> wf q'"
begin

lemma push_all_room:
  assumes "wf q" and "length (entries q) + length es \<le> cap q"
  shows "\<exists>q'. push_all push es q = Ok q' \<and> entries q' = entries q @ es
           \<and> cap q' = cap q \<and> wf q'"
  using assms
proof (induction es arbitrary: q)
  case (Cons e es)
  then obtain q' where "push q e = Ok q'" and q': "entries q' = entries q @ [e]"
    "cap q' = cap q" "wf q'"
    using push_room [of q e] by auto
  with Cons.IH [of q'] Cons.prems show ?case by auto
qed auto

lemma drain_take:
  assumes "wf q"
  shows "\<exists>q'. drain pop n q = Ok (take n (entries q), q') \<and> entries q' = drop n (entries q)
           \<and> cap q' = cap q \<and> wf q'"
  using assms
proof (induction n arbitrary: q)
  case (Suc n)
  show ?case
  proof (cases "entries q")
    case Nil
    with Suc.prems show ?thesis by (simp add: pop_empty)
  next
    case (Cons e es)
    then obtain q' where "pop q = Ok (e, q')" and "entries q' = es" "cap q' = cap q" "wf q'"
      using pop_first [OF Suc.prems] by blast
    with Suc.IH [of q'] Cons show ?thesis by auto
  qed
qed auto

text \<open>What was pushed comes out, once, in order.\<close>

lemma push_all_drain:
  assumes "wf q" and "entries q = []" and "length es \<le> cap q"
  shows "\<exists>q' q''. push_all push es q = Ok q' \<and> drain pop (length es) q' = Ok (es, q'')
           \<and> entries q'' = []"
proof -
  from assms push_all_room [of q es] obtain q' where q': "push_all push es q = Ok q'"
    "entries q' = es" "wf q'" by auto
  with drain_take [OF \<open>wf q'\<close>, of "length es"] show ?thesis by auto
qed

end

end
