(* ===== verification/Vcq.thy ===== *)
theory Vcq
  imports Id_Pool Bounded_Fifo
begin

text \<open>
  Virtual completion queues, \<open>lib/libunvmed-vcq.c\<close>: the pool of VCQ identifiers (a stack of
  free slots linked through an array, \<open>__vcq_slots\<close>, and the map from identifiers to queues,
  \<open>__vcq_map\<close>), and the ring buffer of completion entries with its push, pop and run
  operations. The operations of this theory run without interference; the interleaved
  executions are in theory \<open>Vcq_Conc\<close>.
\<close>

subsection \<open>Completion entries\<close>

text \<open>The fields of \<open>struct nvme_cqe\<close> that the sources read or write.\<close>

record nvme_cqe =
  qw0 :: u64
  sqhd :: u16
  sqid :: u16
  cqe_cid :: u16
  sfp :: u16

record unvme_vcqe =
  vcqe_cqe :: nvme_cqe
  vcqe_bdf :: u32
  vcqe_injected :: u32

subsection \<open>The identifier pool\<close>

text \<open>\<open>UNVME_VCQ_MAX\<close>; slot 0 is never handed out.\<close>

definition UNVME_VCQ_MAX :: nat where
  "UNVME_VCQ_MAX = 4096"

text \<open>
  The static arrays are functions on their indices. A slot pointer is its index (\<open>None\<close> is
  \<open>NULL\<close>); a queue pointer in \<open>vcq_map\<close> is the address of a caller-owned queue.
\<close>

record vcq_slot =
  slot_qid :: nat
  slot_next :: "nat option"

record vcq_pool =
  vcq_slots :: "nat \<Rightarrow> vcq_slot"
  vcq_free_top :: "nat option"
  vcq_map :: "nat \<Rightarrow> nat option"

definition zero_slot :: vcq_slot where
  "zero_slot = \<lparr>slot_qid = 0, slot_next = None\<rparr>"

definition unvmed_vcq_pool_init :: vcq_pool where
  "unvmed_vcq_pool_init =
     \<lparr>vcq_slots = (\<lambda>i. if 1 \<le> i \<and> i < UNVME_VCQ_MAX
        then \<lparr>slot_qid = i, slot_next = (if i + 1 < UNVME_VCQ_MAX then Some (i + 1) else None)\<rparr>
        else zero_slot),
      vcq_free_top = Some 1,
      vcq_map = (\<lambda>_. None)\<rparr>"

text \<open>\<open>unvmed_vcq_acquire()\<close> returns 0 with \<open>ENOSPC\<close> when the stack is empty: \<open>None\<close>.\<close>

definition unvmed_vcq_acquire :: "vcq_pool \<Rightarrow> (nat \<times> vcq_pool) option" where
  "unvmed_vcq_acquire p =
     (case vcq_free_top p of
        None \<Rightarrow> None
      | Some slot \<Rightarrow> Some (slot_qid (vcq_slots p slot),
                        p\<lparr>vcq_free_top := slot_next (vcq_slots p slot)\<rparr>))"

definition unvmed_vcq_release :: "vcq_pool \<Rightarrow> nat \<Rightarrow> vcq_pool" where
  "unvmed_vcq_release p qid =
     p\<lparr>vcq_slots := (vcq_slots p)(qid := (vcq_slots p qid)\<lparr>slot_next := vcq_free_top p\<rparr>),
       vcq_free_top := Some qid\<rparr>"

definition unvmed_vcq_get :: "vcq_pool \<Rightarrow> nat \<Rightarrow> nat option" where
  "unvmed_vcq_get p qid =
     (if qid = 0 \<or> UNVME_VCQ_MAX \<le> qid then None else vcq_map p qid)"

text \<open>The stack of free slots below a top pointer.\<close>

inductive free_chain :: "(nat \<Rightarrow> vcq_slot) \<Rightarrow> nat option \<Rightarrow> nat list \<Rightarrow> bool"
  for slots :: "nat \<Rightarrow> vcq_slot" where
  Nil: "free_chain slots None []"
| Cons: "free_chain slots (slot_next (slots i)) xs \<Longrightarrow> free_chain slots (Some i) (i # xs)"

inductive_simps free_chain_None [simp]: "free_chain slots None xs"
inductive_simps free_chain_Some: "free_chain slots (Some i) xs"

definition valid_qids :: "nat set" where
  "valid_qids = {1..<UNVME_VCQ_MAX}"

definition vcq_pool_inv :: "vcq_pool \<Rightarrow> bool" where
  "vcq_pool_inv p \<longleftrightarrow>
     (\<forall>i\<in>valid_qids. slot_qid (vcq_slots p i) = i)
     \<and> (\<exists>xs. free_chain (vcq_slots p) (vcq_free_top p) xs \<and> distinct xs \<and> set xs \<subseteq> valid_qids)"

definition vcq_free_qids :: "vcq_pool \<Rightarrow> nat set" where
  "vcq_free_qids p = {i. \<exists>xs. free_chain (vcq_slots p) (vcq_free_top p) xs \<and> i \<in> set xs}"

lemma free_chain_unique:
  "free_chain slots tp xs \<Longrightarrow> free_chain slots tp js \<Longrightarrow> xs = js"
proof (induction arbitrary: js rule: free_chain.induct)
  case (Cons i xs)
  from Cons.prems obtain ks where "js = i # ks" and "free_chain slots (slot_next (slots i)) ks"
    by (auto elim: free_chain.cases)
  with Cons.IH show ?case by simp
qed simp

lemma free_chain_upd:
  assumes "free_chain slots tp xs" and "q \<notin> set xs"
  shows "free_chain (slots(q := s)) tp xs"
  using assms by (induction rule: free_chain.induct) (auto intro: free_chain.intros)

lemma vcq_free_qids_chain:
  "free_chain (vcq_slots p) (vcq_free_top p) xs \<Longrightarrow> vcq_free_qids p = set xs"
  by (auto simp: vcq_free_qids_def dest: free_chain_unique)

lemma vcq_pool_invE:
  assumes "vcq_pool_inv p"
  obtains xs where "free_chain (vcq_slots p) (vcq_free_top p) xs" and "distinct xs"
    and "set xs \<subseteq> valid_qids" and "vcq_free_qids p = set xs"
    and "\<forall>i\<in>valid_qids. slot_qid (vcq_slots p i) = i"
  using assms vcq_free_qids_chain unfolding vcq_pool_inv_def by blast

lemma acquire_step:
  assumes "vcq_pool_inv p" and "unvmed_vcq_acquire p = Some (q, p')"
  shows "q \<in> vcq_free_qids p \<and> vcq_free_qids p' = vcq_free_qids p - {q} \<and> vcq_pool_inv p'"
proof -
  from assms(1) obtain xs where chain: "free_chain (vcq_slots p) (vcq_free_top p) xs"
    and "distinct xs" and sub: "set xs \<subseteq> valid_qids" and free: "vcq_free_qids p = set xs"
    and qid: "\<forall>i\<in>valid_qids. slot_qid (vcq_slots p i) = i"
    by (rule vcq_pool_invE)
  from assms(2) obtain i where top: "vcq_free_top p = Some i"
    and q: "q = slot_qid (vcq_slots p i)"
    and p': "p' = p\<lparr>vcq_free_top := slot_next (vcq_slots p i)\<rparr>"
    by (auto simp: unvmed_vcq_acquire_def split: option.splits)
  from chain top obtain js where xs: "xs = i # js"
    and tail: "free_chain (vcq_slots p) (slot_next (vcq_slots p i)) js"
    by (auto simp: free_chain_Some)
  have "q = i" using q qid sub xs by simp
  moreover have "vcq_free_qids p' = set js"
    using tail p' by (intro vcq_free_qids_chain) simp
  moreover have "vcq_pool_inv p'"
    using tail p' qid sub xs \<open>distinct xs\<close> by (auto simp: vcq_pool_inv_def)
  ultimately show ?thesis using free xs \<open>distinct xs\<close> by auto
qed

lemma release_step:
  assumes "vcq_pool_inv p" and "q \<in> valid_qids" and "q \<notin> vcq_free_qids p"
  shows "vcq_free_qids (unvmed_vcq_release p q) = insert q (vcq_free_qids p)
     \<and> vcq_pool_inv (unvmed_vcq_release p q)"
proof -
  from assms(1) obtain xs where chain: "free_chain (vcq_slots p) (vcq_free_top p) xs"
    and "distinct xs" and sub: "set xs \<subseteq> valid_qids" and free: "vcq_free_qids p = set xs"
    and qid: "\<forall>i\<in>valid_qids. slot_qid (vcq_slots p i) = i"
    by (rule vcq_pool_invE)
  let ?p = "unvmed_vcq_release p q"
  have chain': "free_chain (vcq_slots ?p) (vcq_free_top ?p) (q # xs)"
    using free_chain_upd [OF chain, of q] assms(3) free
    by (auto simp: unvmed_vcq_release_def intro!: free_chain.intros)
  have "vcq_pool_inv ?p"
    unfolding vcq_pool_inv_def
    using chain' qid sub \<open>distinct xs\<close> assms free
    by (auto simp: unvmed_vcq_release_def intro!: exI [of _ "q # xs"])
  then show ?thesis using vcq_free_qids_chain [OF chain'] free by simp
qed

interpretation vcq_ids: id_pool unvmed_vcq_acquire unvmed_vcq_release "\<lambda>_. valid_qids"
  vcq_free_qids vcq_pool_inv
proof
  fix p assume inv: "vcq_pool_inv p"
  show "vcq_free_qids p \<subseteq> valid_qids" using inv by (auto elim: vcq_pool_invE)
  show "unvmed_vcq_acquire p = None \<longleftrightarrow> vcq_free_qids p = {}"
    using inv
    by (elim vcq_pool_invE)
       (auto simp: unvmed_vcq_acquire_def free_chain_Some split: option.splits)
qed (use acquire_step release_step in auto)

subsection \<open>The pool after initialisation\<close>

lemma init_chain:
  assumes "1 \<le> i" and "i \<le> UNVME_VCQ_MAX"
  shows "free_chain (vcq_slots unvmed_vcq_pool_init)
           (if i < UNVME_VCQ_MAX then Some i else None) [i..<UNVME_VCQ_MAX]"
  using assms(2,1)
proof (induction i rule: inc_induct)
  case base
  then show ?case by simp
next
  case (step i)
  have next_i: "slot_next (vcq_slots unvmed_vcq_pool_init i) =
      (if Suc i < UNVME_VCQ_MAX then Some (Suc i) else None)"
    using step.hyps step.prems by (simp add: unvmed_vcq_pool_init_def)
  have "free_chain (vcq_slots unvmed_vcq_pool_init)
          (slot_next (vcq_slots unvmed_vcq_pool_init i)) [Suc i..<UNVME_VCQ_MAX]"
    using step.IH by (simp only: next_i)
  then show ?case using step.hyps by (simp add: free_chain.Cons upt_conv_Cons)
qed

lemma pool_init_chain:
  "free_chain (vcq_slots unvmed_vcq_pool_init) (vcq_free_top unvmed_vcq_pool_init)
     [1..<UNVME_VCQ_MAX]"
proof -
  have top: "vcq_free_top unvmed_vcq_pool_init = Some 1"
    by (simp add: unvmed_vcq_pool_init_def)
  have "1 < UNVME_VCQ_MAX" by (simp add: UNVME_VCQ_MAX_def)
  then show ?thesis using init_chain [of 1] top by (metis less_imp_le order_refl)
qed

lemma pool_init_inv: "vcq_pool_inv unvmed_vcq_pool_init"
proof -
  have "\<forall>i\<in>valid_qids. slot_qid (vcq_slots unvmed_vcq_pool_init i) = i"
    by (simp add: valid_qids_def unvmed_vcq_pool_init_def)
  with pool_init_chain show ?thesis
    unfolding vcq_pool_inv_def valid_qids_def by (metis distinct_upt set_upt order_refl)
qed

lemma pool_init_free: "vcq_free_qids unvmed_vcq_pool_init = valid_qids"
  using vcq_free_qids_chain [OF pool_init_chain] by (simp add: valid_qids_def)

text \<open>C26. Whatever sequence of acquire and release calls runs one after the other from the
  initial pool, no VCQ identifier is handed out twice, identifier 0 is never handed out, and an
  acquire fails exactly when all 4095 identifiers are in use.
\<close>

theorem vcq_pool_exclusive:
  assumes "pool_run unvmed_vcq_acquire unvmed_vcq_release ops (unvmed_vcq_pool_init, []) = (p, held)"
  shows "distinct held \<and> set held \<subseteq> {1..<4096}
    \<and> (unvmed_vcq_acquire p = None \<longleftrightarrow> set held = {1..<4096})"
  using vcq_ids.run_distinct [OF pool_init_inv pool_init_free assms]
  by (simp add: valid_qids_def UNVME_VCQ_MAX_def)

theorem vcq_pool_exclusive_witness:
  "\<exists>p. pool_run unvmed_vcq_acquire unvmed_vcq_release [Acquire, Acquire, Release 1, Acquire]
         (unvmed_vcq_pool_init, []) = (p, [1, 2]) \<and> distinct [1, 2 :: nat]
       \<and> unvmed_vcq_acquire p \<noteq> None"
proof -
  obtain p where run: "pool_run unvmed_vcq_acquire unvmed_vcq_release
      [Acquire, Acquire, Release 1, Acquire] (unvmed_vcq_pool_init, []) = (p, [1, 2])"
    by (simp add: unvmed_vcq_acquire_def unvmed_vcq_release_def unvmed_vcq_pool_init_def
        UNVME_VCQ_MAX_def)
  have "3 \<in> {1..<4096 :: nat}" "3 \<notin> set [1, 2 :: nat]" by simp_all
  then have "set [1, 2] \<noteq> {1..<4096 :: nat}" by blast
  with vcq_pool_exclusive [OF run] run show ?thesis by blast
qed

subsection \<open>The ring of completion entries\<close>

text \<open>
  \<open>struct unvme_vcq\<close>; \<open>head\<close> and \<open>tail\<close> are 16-bit. The size is a C \<open>int\<close> that
  \<open>unvmed_vcq_init()\<close> sets from its argument.
\<close>

record unvme_vcq =
  vq_qid :: nat
  vq_qsize :: nat
  vq_head :: u16
  vq_tail :: u16
  vq_vcqe :: "unvme_vcqe list"

text \<open>The value stored for \<open>(x + 1) % q->qsize\<close>: computed as an \<open>int\<close>, truncated to 16 bits.\<close>

definition vcq_next :: "nat \<Rightarrow> u16 \<Rightarrow> u16" where
  "vcq_next qsize x = word_of_nat ((unat x + 1) mod qsize)"

definition unvmed_vcq_push_u2 ::
  "u32 \<Rightarrow> unvme_vcq \<Rightarrow> nvme_cqe \<Rightarrow> u32 \<Rightarrow> unvme_vcq outcome" where
  "unvmed_vcq_push_u2 u_bdf q cqe injected =
     (if vq_qsize q = 0 then Fault
      else if (unat (vq_tail q) + 1) mod vq_qsize q = unat (vq_head q) then Fail EAGAIN
      else if length (vq_vcqe q) \<le> unat (vq_tail q) then Fault
      else Ok (q\<lparr>vq_vcqe := (vq_vcqe q)[unat (vq_tail q) :=
                  \<lparr>vcqe_cqe = cqe, vcqe_bdf = u_bdf, vcqe_injected = injected\<rparr>],
               vq_tail := vcq_next (vq_qsize q) (vq_tail q)\<rparr>))"

definition unvmed_vcq_pop :: "unvme_vcq option \<Rightarrow> (unvme_vcqe \<times> unvme_vcq) outcome" where
  "unvmed_vcq_pop vcq =
     (case vcq of
        None \<Rightarrow> Fail ENOENT
      | Some q \<Rightarrow>
          if vq_head q = vq_tail q then Fail ENOENT
          else if length (vq_vcqe q) \<le> unat (vq_head q) \<or> vq_qsize q = 0 then Fault
          else Ok (vq_vcqe q ! unat (vq_head q),
                   q\<lparr>vq_head := vcq_next (vq_qsize q) (vq_head q)\<rparr>))"

text \<open>
  \<open>unvmed_vcq_init()\<close>: \<open>mem\<close> is the result of its \<open>malloc()\<close>, an array of \<open>qsize\<close> entries
  with arbitrary contents or \<open>None\<close>. The result carries the queue, the pool and the thread-local
  \<open>__vcq_qid\<close>; on failure the pool is returned as the error path leaves it.
\<close>

definition unvmed_vcq_init ::
  "vcq_pool \<Rightarrow> nat \<Rightarrow> nat \<Rightarrow> unvme_vcqe list option
   \<Rightarrow> (errno \<times> vcq_pool) + (unvme_vcq \<times> vcq_pool \<times> nat)" where
  "unvmed_vcq_init p addr qsize mem =
     (case unvmed_vcq_acquire p of
        None \<Rightarrow> Inl (ENOSPC, p)
      | Some (qid, p') \<Rightarrow>
          if qid = 0 then Inl (ENOSPC, p')
          else (case mem of
             None \<Rightarrow> Inl (ENOMEM, unvmed_vcq_release p' qid)
           | Some vcqe \<Rightarrow>
               Inr (\<lparr>vq_qid = qid, vq_qsize = qsize, vq_head = 0, vq_tail = 0, vq_vcqe = vcqe\<rparr>,
                    p'\<lparr>vcq_map := (vcq_map p')(qid := Some addr)\<rparr>, qid)))"

definition zero_vcq :: unvme_vcq where
  "zero_vcq = \<lparr>vq_qid = 0, vq_qsize = 0, vq_head = 0, vq_tail = 0, vq_vcqe = []\<rparr>"

text \<open>\<open>unvmed_vcq_free()\<close> ends with a \<open>memset()\<close> of the queue to zero.\<close>

definition unvmed_vcq_free :: "vcq_pool \<Rightarrow> unvme_vcq \<Rightarrow> unvme_vcq \<times> vcq_pool" where
  "unvmed_vcq_free p vcq =
     (let qid = vq_qid vcq in
      (zero_vcq, unvmed_vcq_release (p\<lparr>vcq_map := (vcq_map p)(qid := None)\<rparr>) qid))"

subsection \<open>The ring as a bounded queue\<close>

definition vcq_wf :: "unvme_vcq \<Rightarrow> bool" where
  "vcq_wf q \<longleftrightarrow> 0 < vq_qsize q \<and> vq_qsize q \<le> 65536 \<and> length (vq_vcqe q) = vq_qsize q
     \<and> unat (vq_head q) < vq_qsize q \<and> unat (vq_tail q) < vq_qsize q"

definition vcq_entries :: "unvme_vcq \<Rightarrow> unvme_vcqe list" where
  "vcq_entries q =
     map (\<lambda>i. vq_vcqe q ! ((unat (vq_head q) + i) mod vq_qsize q))
       [0..<ring_count (vq_qsize q) (unat (vq_head q)) (unat (vq_tail q))]"

lemma vcq_next_unat [ring_simps]:
  assumes "0 < n" and "n \<le> 65536"
  shows "unat (vcq_next n x) = Suc (unat x) mod n"
proof -
  have "Suc (unat x) mod n < 65536"
    using assms by (meson less_le_trans mod_less_divisor)
  then show ?thesis by (simp add: vcq_next_def)
qed

lemma vcq_entries_length:
  "length (vcq_entries q) = ring_count (vq_qsize q) (unat (vq_head q)) (unat (vq_tail q))"
  by (simp add: vcq_entries_def)

lemma vcq_entries_bound: "vcq_wf q \<Longrightarrow> length (vcq_entries q) < vq_qsize q"
  by (simp add: vcq_entries_length vcq_wf_def ring_count_less)

lemma vcq_full_iff:
  "vcq_wf q \<Longrightarrow> (unat (vq_tail q) + 1) mod vq_qsize q = unat (vq_head q)
     \<longleftrightarrow> length (vcq_entries q) = vq_qsize q - 1"
  by (simp add: vcq_entries_length vcq_wf_def ring_count_full)

lemma vcq_empty_iff: "vcq_wf q \<Longrightarrow> vq_head q = vq_tail q \<longleftrightarrow> vcq_entries q = []"
proof -
  assume wf: "vcq_wf q"
  have "vcq_entries q = [] \<longleftrightarrow> length (vcq_entries q) = 0" by simp
  also have "\<dots> \<longleftrightarrow> unat (vq_head q) = unat (vq_tail q)"
    using wf unfolding vcq_entries_length vcq_wf_def by (intro ring_count_zero) auto
  finally show ?thesis by (simp add: word_unat_eq_iff)
qed

text \<open>Writing the slot at the tail leaves the queued entries as they are.\<close>

lemma vcq_write_tail:
  assumes "vcq_wf q"
  shows "vcq_entries (q\<lparr>vq_vcqe := (vq_vcqe q)[unat (vq_tail q) := e]\<rparr>) = vcq_entries q"
proof -
  let ?n = "vq_qsize q" and ?h = "unat (vq_head q)" and ?t = "unat (vq_tail q)"
  have bounds: "?h < ?n" "?t < ?n" using assms by (auto simp: vcq_wf_def)
  have "?t \<noteq> (?h + i) mod ?n" if "i < ring_count ?n ?h ?t" for i
  proof
    assume "?t = (?h + i) mod ?n"
    then have "(?h + i) mod ?n = (?h + ring_count ?n ?h ?t) mod ?n"
      using ring_index_last [OF bounds] by simp
    then have "i = ring_count ?n ?h ?t"
      using ring_count_less [OF bounds] that ring_index_inj [OF bounds(1)]
      by (meson less_trans)
    with that show False by simp
  qed
  then show ?thesis by (simp add: vcq_entries_def)
qed

text \<open>Advancing the tail over a written slot appends its entry.\<close>

lemma vcq_advance_tail:
  assumes "vcq_wf q" and "Suc (unat (vq_tail q)) mod vq_qsize q \<noteq> unat (vq_head q)"
  shows "vcq_entries (q\<lparr>vq_tail := vcq_next (vq_qsize q) (vq_tail q)\<rparr>)
           = vcq_entries q @ [vq_vcqe q ! unat (vq_tail q)]
     \<and> vcq_wf (q\<lparr>vq_tail := vcq_next (vq_qsize q) (vq_tail q)\<rparr>)"
proof -
  have bounds: "unat (vq_head q) < vq_qsize q" "unat (vq_tail q) < vq_qsize q"
    and size: "0 < vq_qsize q" "vq_qsize q \<le> 65536"
    using assms by (auto simp: vcq_wf_def)
  show ?thesis
    using assms bounds size ring_count_push [OF bounds assms(2)] ring_index_last [OF bounds]
    by (auto simp: vcq_entries_def vcq_wf_def vcq_next_unat)
qed

text \<open>Advancing the head drops the first entry, which is the one at the head.\<close>

lemma vcq_advance_head:
  assumes "vcq_wf q" and "vq_head q \<noteq> vq_tail q"
  shows "vcq_entries q = vq_vcqe q ! unat (vq_head q)
           # vcq_entries (q\<lparr>vq_head := vcq_next (vq_qsize q) (vq_head q)\<rparr>)
     \<and> vcq_wf (q\<lparr>vq_head := vcq_next (vq_qsize q) (vq_head q)\<rparr>)"
proof -
  let ?n = "vq_qsize q" and ?h = "unat (vq_head q)" and ?t = "unat (vq_tail q)"
  have bounds: "?h < ?n" "?t < ?n" and size: "0 < ?n" "?n \<le> 65536"
    using assms by (auto simp: vcq_wf_def)
  have "?h \<noteq> ?t" using assms(2) by (simp add: word_unat_eq_iff)
  then have count: "ring_count ?n ?h ?t = Suc (ring_count ?n (Suc ?h mod ?n) ?t)"
    using ring_count_pop [OF bounds] by simp
  have shift: "Suc (?h + i) mod ?n = (Suc ?h mod ?n + i) mod ?n" for i
    by (metis add_Suc mod_add_left_eq)
  have "vcq_entries q = vq_vcqe q ! ?h
           # vcq_entries (q\<lparr>vq_head := vcq_next ?n (vq_head q)\<rparr>)"
    unfolding vcq_entries_def count upt_conv_Cons [OF zero_less_Suc] map_Suc_upt [symmetric]
    using bounds size by (simp add: vcq_next_unat shift del: upt_Suc)
  then show ?thesis using assms(1) size by (simp add: vcq_wf_def vcq_next_unat)
qed

text \<open>An entry as \<open>unvmed_vcq_push()\<close> queues it.\<close>

definition vcq_push_entry :: "unvme_vcq \<Rightarrow> unvme_vcqe \<Rightarrow> unvme_vcq outcome" where
  "vcq_push_entry q e = unvmed_vcq_push_u2 (vcqe_bdf e) q (vcqe_cqe e) (vcqe_injected e)"

definition vcq_pop_entry :: "unvme_vcq \<Rightarrow> (unvme_vcqe \<times> unvme_vcq) outcome" where
  "vcq_pop_entry q = unvmed_vcq_pop (Some q)"

lemma vcq_write_wf:
  "vcq_wf q \<Longrightarrow> vcq_wf (q\<lparr>vq_vcqe := (vq_vcqe q)[unat (vq_tail q) := e]\<rparr>)"
  by (simp add: vcq_wf_def)

lemma push_room_vcq:
  assumes "vcq_wf q" and "length (vcq_entries q) < vq_qsize q - 1"
  shows "\<exists>q'. vcq_push_entry q e = Ok q' \<and> vcq_entries q' = vcq_entries q @ [e]
           \<and> vq_qsize q' - 1 = vq_qsize q - 1 \<and> vcq_wf q'"
proof -
  let ?w = "q\<lparr>vq_vcqe := (vq_vcqe q)[unat (vq_tail q) := e]\<rparr>"
  let ?q = "?w\<lparr>vq_tail := vcq_next (vq_qsize q) (vq_tail q)\<rparr>"
  have room: "Suc (unat (vq_tail q)) mod vq_qsize q \<noteq> unat (vq_head q)"
    using vcq_full_iff [OF assms(1)] assms(2) by auto
  have wf: "0 < vq_qsize q" "unat (vq_tail q) < length (vq_vcqe q)"
    using assms(1) by (auto simp: vcq_wf_def)
  have "vcq_push_entry q e = Ok ?q"
    using wf room by (cases e) (simp add: vcq_push_entry_def unvmed_vcq_push_u2_def)
  moreover have "vcq_entries ?q = vcq_entries q @ [e] \<and> vcq_wf ?q"
    using vcq_advance_tail [OF vcq_write_wf [OF assms(1)], of e] vcq_write_tail [OF assms(1), of e]
      room wf by simp
  ultimately show ?thesis by auto
qed

lemma pop_first_vcq:
  assumes "vcq_wf q" and "vcq_entries q = e # es"
  shows "\<exists>q'. vcq_pop_entry q = Ok (e, q') \<and> vcq_entries q' = es
           \<and> vq_qsize q' - 1 = vq_qsize q - 1 \<and> vcq_wf q'"
proof -
  have "vq_head q \<noteq> vq_tail q" using assms vcq_empty_iff by auto
  moreover have "unat (vq_head q) < length (vq_vcqe q)" "0 < vq_qsize q"
    using assms(1) by (auto simp: vcq_wf_def)
  ultimately show ?thesis
    using vcq_advance_head [OF assms(1)] assms(2)
    by (auto simp: vcq_pop_entry_def unvmed_vcq_pop_def)
qed

interpretation vcq: bounded_fifo vcq_push_entry vcq_pop_entry vcq_entries
  "\<lambda>q. vq_qsize q - 1" vcq_wf
proof
  fix q e assume wf: "vcq_wf q"
  show "length (vcq_entries q) \<le> vq_qsize q - 1" using vcq_entries_bound [OF wf] by simp
  show "vcq_push_entry q e = Fail EAGAIN" if "length (vcq_entries q) = vq_qsize q - 1"
    using that vcq_full_iff [OF wf] wf
    by (simp add: vcq_push_entry_def unvmed_vcq_push_u2_def vcq_wf_def)
  show "vcq_pop_entry q = Fail ENOENT" if "vcq_entries q = []"
    using that vcq_empty_iff [OF wf] by (simp add: vcq_pop_entry_def unvmed_vcq_pop_def)
qed (use push_room_vcq pop_first_vcq in auto)

text \<open>Entries pushed into an empty ring, as many as it has room for, come out once each and
  in order, with the payload, device and injection mark they were pushed with.
\<close>

theorem vcq_push_pop_roundtrip:
  assumes "vcq_wf q" and "vcq_entries q = []" and "length es < vq_qsize q"
  shows "\<exists>q' q''. push_all vcq_push_entry es q = Ok q'
           \<and> drain vcq_pop_entry (length es) q' = Ok (es, q'') \<and> vcq_entries q'' = []"
  using assms by (intro vcq.push_all_drain) simp_all

definition sample_cqe :: "u16 \<Rightarrow> unvme_vcqe" where
  "sample_cqe cid = \<lparr>vcqe_cqe = \<lparr>qw0 = 0, sqhd = 0, sqid = 1, cqe_cid = cid, sfp = 1\<rparr>,
                     vcqe_bdf = 0x100, vcqe_injected = 0\<rparr>"

definition sample_ring :: "u16 \<Rightarrow> unvme_vcq" where
  "sample_ring t = \<lparr>vq_qid = 1, vq_qsize = 3, vq_head = 2, vq_tail = t,
                     vq_vcqe = map sample_cqe [0, 1, 2]\<rparr>"

theorem vcq_push_pop_roundtrip_witness:
  "\<exists>q' q''. push_all vcq_push_entry [sample_cqe 7, sample_cqe 5] (sample_ring 2) = Ok q'
       \<and> drain vcq_pop_entry (length [sample_cqe 7, sample_cqe 5]) q'
           = Ok ([sample_cqe 7, sample_cqe 5], q'') \<and> vcq_entries q'' = []"
  by (rule vcq_push_pop_roundtrip) (simp_all add: sample_ring_def vcq_wf_def vcq_entries_def)

subsection \<open>Running a queue\<close>

text \<open>
  \<open>__unvmed_vcq_run_n()\<close>. With \<open>nowait\<close> the loop stops at an empty queue. Without it the code
  polls until an entry arrives: each fruitless poll lets one step of the environment, the
  producers, run (the head of \<open>env\<close>), and \<open>None\<close> says that the loop still polls when the
  environment has made all its steps. An empty queue is the only error of \<open>unvmed_vcq_pop()\<close>. The queue is
  not a null pointer here; that would be popped like a queue that is always empty.
\<close>

fun vcq_run_loop ::
  "bool \<Rightarrow> (unvme_vcq \<Rightarrow> unvme_vcq) list \<Rightarrow> nat \<Rightarrow> unvme_vcq
   \<Rightarrow> (unvme_vcqe list \<times> unvme_vcq \<times> (unvme_vcq \<Rightarrow> unvme_vcq) list) outcome option" where
  "vcq_run_loop nowait env 0 q = Some (Ok ([], q, env))"
| "vcq_run_loop nowait env (Suc nr) q =
     (case vcq_pop_entry q of
        Ok (e, q') \<Rightarrow>
          (case vcq_run_loop nowait env nr q' of
             Some (Ok (es, r)) \<Rightarrow> Some (Ok (e # es, r))
           | r \<Rightarrow> r)
      | Fault \<Rightarrow> Some Fault
      | Fail _ \<Rightarrow>
          if nowait then Some (Ok ([], q, env))
          else (case env of [] \<Rightarrow> None | f # fs \<Rightarrow> vcq_run_loop nowait fs (Suc nr) (f q)))"

text \<open>
  \<open>unvmed_vcq_run_n()\<close>: the entries copied out, the queue, and \<open>u->nr_cmds\<close>, which each of the
  two inner calls lowers by the number of entries it took.
\<close>

definition unvmed_vcq_run_n ::
  "int \<Rightarrow> unvme_vcq \<Rightarrow> int \<Rightarrow> int \<Rightarrow> (unvme_vcq \<Rightarrow> unvme_vcq) list
   \<Rightarrow> (unvme_vcqe list \<times> unvme_vcq \<times> int) outcome option" where
  "unvmed_vcq_run_n nr_cmds q mn mx env =
     (case vcq_run_loop False env (nat mn) q of
        None \<Rightarrow> None
      | Some (Ok (es, q1, env1)) \<Rightarrow>
          (let nr1 = nr_cmds - int (length es) in
           if mx \<le> int (length es) then Some (Ok (es, q1, nr1))
           else (case vcq_run_loop True env1 (nat (mx - int (length es))) q1 of
                   None \<Rightarrow> None
                 | Some (Ok (fs, q2, _)) \<Rightarrow> Some (Ok (es @ fs, q2, nr1 - int (length fs)))
                 | Some (Fail x) \<Rightarrow> Some (Fail x)
                 | Some Fault \<Rightarrow> Some Fault))
      | Some (Fail x) \<Rightarrow> Some (Fail x)
      | Some Fault \<Rightarrow> Some Fault)"

lemma vcq_run_loop_drain:
  assumes "vcq_wf q" and "nowait \<or> n \<le> length (vcq_entries q)"
  shows "\<exists>q'. vcq_run_loop nowait env n q = Some (Ok (take n (vcq_entries q), q', env))
           \<and> vcq_entries q' = drop n (vcq_entries q) \<and> vcq_wf q'"
  using assms
proof (induction n arbitrary: q)
  case (Suc n)
  show ?case
  proof (cases "vcq_entries q")
    case Nil
    with Suc.prems vcq.pop_empty [OF Suc.prems(1) Nil] show ?thesis by simp
  next
    case (Cons e es)
    then obtain q' where q': "vcq_pop_entry q = Ok (e, q')" "vcq_entries q' = es" "vcq_wf q'"
      using vcq.pop_first [OF Suc.prems(1)] by blast
    with Suc.prems(2) Cons have "nowait \<or> n \<le> length (vcq_entries q')" by simp
    with Suc.IH [OF q'(3) this] q' Cons show ?thesis by auto
  qed
qed auto

lemma vcq_run_loop_stuck:
  assumes "vcq_wf q" and "length (vcq_entries q) < n"
  shows "vcq_run_loop False [] n q = None"
  using assms
proof (induction n arbitrary: q)
  case (Suc n)
  show ?case
  proof (cases "vcq_entries q")
    case Nil
    then show ?thesis using vcq.pop_empty [OF Suc.prems(1)] by simp
  next
    case (Cons e es)
    then obtain q' where "vcq_pop_entry q = Ok (e, q')" "vcq_entries q' = es" "vcq_wf q'"
      using vcq.pop_first [OF Suc.prems(1)] by blast
    with Suc Cons show ?thesis by simp
  qed
qed simp

text \<open>C25. A run of a virtual completion queue in which nothing is produced meanwhile returns iff
  at least the minimum number of entries is queued; it then takes the first entries in order, up
  to the maximum, leaves the rest, and lowers the controller's count of outstanding commands by
  the number taken. Otherwise it polls forever.
\<close>

theorem vcq_run_n_outcome:
  assumes "vcq_wf q" and "0 \<le> mn" and "mn \<le> mx"
  shows "if mn \<le> int (length (vcq_entries q))
    then \<exists>q'. unvmed_vcq_run_n nr q mn mx [] =
           Some (Ok (take (nat mx) (vcq_entries q), q',
                     nr - int (length (take (nat mx) (vcq_entries q)))))
         \<and> vcq_entries q' = drop (nat mx) (vcq_entries q) \<and> vcq_wf q'
    else unvmed_vcq_run_n nr q mn mx [] = None"
proof (cases "mn \<le> int (length (vcq_entries q))")
  case False
  then have "length (vcq_entries q) < nat mn" by linarith
  with False show ?thesis
    by (simp add: unvmed_vcq_run_n_def vcq_run_loop_stuck [OF assms(1)])
next
  case True
  let ?n = "nat mn" and ?m = "nat mx" and ?es = "vcq_entries q"
  have n: "?n \<le> length ?es" and "?n \<le> ?m" using True assms by auto
  obtain q1 where q1: "vcq_run_loop False [] ?n q = Some (Ok (take ?n ?es, q1, []))"
    "vcq_entries q1 = drop ?n ?es" "vcq_wf q1"
    using vcq_run_loop_drain [OF assms(1), of False ?n "[]"] n by auto
  obtain q2 where q2: "vcq_run_loop True [] (?m - ?n) q1
      = Some (Ok (take (?m - ?n) (drop ?n ?es), q2, []))"
    "vcq_entries q2 = drop (?m - ?n) (drop ?n ?es)" "vcq_wf q2"
    using vcq_run_loop_drain [OF q1(3), of True "?m - ?n" "[]"] q1(2) by auto
  have split: "take ?m ?es = take ?n ?es @ take (?m - ?n) (drop ?n ?es)"
    using \<open>?n \<le> ?m\<close> by (metis le_add_diff_inverse take_add)
  have rest: "drop (?m - ?n) (drop ?n ?es) = drop ?m ?es" using \<open>?n \<le> ?m\<close> by simp
  have len: "int (length (take ?n ?es)) = mn" using n assms(2) by simp
  have diff: "nat (mx - mn) = ?m - ?n" using assms by simp
  show ?thesis
  proof (cases "mx \<le> mn")
    case True
    then have "?m = ?n" using assms by simp
    with q1 len True \<open>mn \<le> int (length ?es)\<close> show ?thesis
      by (auto simp: unvmed_vcq_run_n_def Let_def)
  next
    case False
    with q1 q2 len diff split rest \<open>mn \<le> int (length ?es)\<close> show ?thesis
      by (auto simp: unvmed_vcq_run_n_def Let_def)
  qed
qed

theorem vcq_run_n_outcome_witness:
  "\<exists>q'. unvmed_vcq_run_n 9 (sample_ring 1) 1 8 []
     = Some (Ok ([sample_cqe 2, sample_cqe 0], q', 7)) \<and> vcq_entries q' = []"
proof -
  have es: "vcq_entries (sample_ring 1) = [sample_cqe 2, sample_cqe 0]"
    by (simp add: vcq_entries_def sample_ring_def ring_count_def upt_rec)
  have "vcq_wf (sample_ring 1)" by (simp add: sample_ring_def vcq_wf_def)
  from vcq_run_n_outcome [OF this, of 1 8 9] es show ?thesis by auto
qed

end
