(* ===== verification/Vcq_Conc.thy ===== *)
theory Vcq_Conc
  imports Vcq
begin

text \<open>
  Interleaved executions of the virtual completion queue. Producers run
  \<open>__unvmed_vcq_push()\<close> under \<open>tail_lock\<close>, so at most one is inside at a time; the owner
  thread runs \<open>unvmed_vcq_pop()\<close> without a lock. A step is one atomic load, store or array
  access of either side. The identifier pool is accessed by any number of threads without a
  lock; its steps are the loads, stores and compare-and-swaps of \<open>unvmed_vcq_acquire()\<close> and
  \<open>unvmed_vcq_release()\<close>.
\<close>

subsection \<open>One producer at a time, one consumer\<close>

text \<open>
  Where a producer is: outside, after loading the tail, after the test that the queue is not
  full, after writing the slot. Where the consumer is: outside, after loading the head, after
  the test that the queue is not empty, after reading the slot.
\<close>

datatype prod_pc = PIdle | PTail unvme_vcqe u16 | PRoom unvme_vcqe u16 | PWrote unvme_vcqe u16

datatype cons_pc = CIdle | CHead u16 | CSome u16 | CRead u16 unvme_vcqe

text \<open>The history variables \<open>pushed\<close> and \<open>popped\<close> record the completed calls.\<close>

record vcq_sys =
  ring :: unvme_vcq
  prod :: prod_pc
  consumer :: cons_pc
  pushed :: "unvme_vcqe list"
  popped :: "unvme_vcqe list"

inductive vcq_step :: "vcq_sys \<Rightarrow> vcq_sys \<Rightarrow> bool" where
  push_load: "prod s = PIdle \<Longrightarrow> vcq_step s (s\<lparr>prod := PTail e (vq_tail (ring s))\<rparr>)"
| push_full: "prod s = PTail e t \<Longrightarrow>
    (unat t + 1) mod vq_qsize (ring s) = unat (vq_head (ring s)) \<Longrightarrow>
    vcq_step s (s\<lparr>prod := PIdle\<rparr>)"
| push_room: "prod s = PTail e t \<Longrightarrow>
    (unat t + 1) mod vq_qsize (ring s) \<noteq> unat (vq_head (ring s)) \<Longrightarrow>
    vcq_step s (s\<lparr>prod := PRoom e t\<rparr>)"
| push_write: "prod s = PRoom e t \<Longrightarrow>
    vcq_step s (s\<lparr>prod := PWrote e t,
      ring := (ring s)\<lparr>vq_vcqe := (vq_vcqe (ring s))[unat t := e]\<rparr>\<rparr>)"
| push_store: "prod s = PWrote e t \<Longrightarrow>
    vcq_step s (s\<lparr>prod := PIdle, pushed := pushed s @ [e],
      ring := (ring s)\<lparr>vq_tail := vcq_next (vq_qsize (ring s)) t\<rparr>\<rparr>)"
| pop_load: "consumer s = CIdle \<Longrightarrow> vcq_step s (s\<lparr>consumer := CHead (vq_head (ring s))\<rparr>)"
| pop_none: "consumer s = CHead h \<Longrightarrow> h = vq_tail (ring s) \<Longrightarrow>
    vcq_step s (s\<lparr>consumer := CIdle\<rparr>)"
| pop_some: "consumer s = CHead h \<Longrightarrow> h \<noteq> vq_tail (ring s) \<Longrightarrow>
    vcq_step s (s\<lparr>consumer := CSome h\<rparr>)"
| pop_read: "consumer s = CSome h \<Longrightarrow>
    vcq_step s (s\<lparr>consumer := CRead h (vq_vcqe (ring s) ! unat h)\<rparr>)"
| pop_store: "consumer s = CRead h e \<Longrightarrow>
    vcq_step s (s\<lparr>consumer := CIdle, popped := popped s @ [e],
      ring := (ring s)\<lparr>vq_head := vcq_next (vq_qsize (ring s)) h\<rparr>\<rparr>)"

definition vcq_start :: "unvme_vcq \<Rightarrow> vcq_sys" where
  "vcq_start q = \<lparr>ring = q, prod = PIdle, consumer = CIdle, pushed = [], popped = []\<rparr>"

inductive vcq_reach :: "unvme_vcq \<Rightarrow> vcq_sys \<Rightarrow> bool" for q :: unvme_vcq where
  start: "vcq_reach q (vcq_start q)"
| step: "vcq_reach q s \<Longrightarrow> vcq_step s t \<Longrightarrow> vcq_reach q t"

text \<open>What each program counter knows about the ring.\<close>

fun prod_ok :: "unvme_vcq \<Rightarrow> prod_pc \<Rightarrow> bool" where
  "prod_ok q PIdle = True"
| "prod_ok q (PTail e t) = (t = vq_tail q)"
| "prod_ok q (PRoom e t) =
     (t = vq_tail q \<and> Suc (unat t) mod vq_qsize q \<noteq> unat (vq_head q))"
| "prod_ok q (PWrote e t) =
     (t = vq_tail q \<and> Suc (unat t) mod vq_qsize q \<noteq> unat (vq_head q)
      \<and> vq_vcqe q ! unat t = e)"

fun cons_ok :: "unvme_vcq \<Rightarrow> cons_pc \<Rightarrow> bool" where
  "cons_ok q CIdle = True"
| "cons_ok q (CHead h) = (h = vq_head q)"
| "cons_ok q (CSome h) = (h = vq_head q \<and> vq_head q \<noteq> vq_tail q)"
| "cons_ok q (CRead h e) =
     (h = vq_head q \<and> vq_head q \<noteq> vq_tail q \<and> vq_vcqe q ! unat h = e)"

definition vcq_sys_inv :: "vcq_sys \<Rightarrow> bool" where
  "vcq_sys_inv s \<longleftrightarrow> vcq_wf (ring s) \<and> prod_ok (ring s) (prod s)
     \<and> cons_ok (ring s) (consumer s) \<and> pushed s = popped s @ vcq_entries (ring s)"

text \<open>A store by one side keeps what the other side knows.\<close>

lemma cons_ok_write:
  assumes "vcq_wf q" and "cons_ok q c"
  shows "cons_ok (q\<lparr>vq_vcqe := (vq_vcqe q)[unat (vq_tail q) := e]\<rparr>) c"
  using assms by (cases c) (auto simp: word_unat_eq_iff)

lemma cons_ok_tail:
  assumes "vcq_wf q" and "cons_ok q c" and "Suc (unat (vq_tail q)) mod vq_qsize q \<noteq> unat (vq_head q)"
  shows "cons_ok (q\<lparr>vq_tail := vcq_next (vq_qsize q) (vq_tail q)\<rparr>) c"
proof -
  have "vq_head q \<noteq> vcq_next (vq_qsize q) (vq_tail q)"
    using assms by (auto simp: word_unat_eq_iff vcq_next_unat vcq_wf_def)
  with assms(2) show ?thesis by (cases c) auto
qed

lemma prod_ok_head:
  assumes "vcq_wf q" and "prod_ok q p" and "vq_head q \<noteq> vq_tail q"
  shows "prod_ok (q\<lparr>vq_head := vcq_next (vq_qsize q) (vq_head q)\<rparr>) p"
proof -
  let ?n = "vq_qsize q" and ?h = "unat (vq_head q)" and ?t = "unat (vq_tail q)"
  have "?h < ?n" "?t < ?n" "?h \<noteq> ?t" using assms by (auto simp: vcq_wf_def word_unat_eq_iff)
  then have "Suc ?t mod ?n \<noteq> Suc ?h mod ?n" by (auto simp: succ_mod_cases)
  with assms show ?thesis by (cases p) (auto simp: vcq_next_unat vcq_wf_def)
qed

lemma vcq_step_inv: "vcq_step s t \<Longrightarrow> vcq_sys_inv s \<Longrightarrow> vcq_sys_inv t"
proof (induction rule: vcq_step.induct)
  case (push_write s e t)
  then show ?case
    using vcq_write_wf [of "ring s" e] vcq_write_tail [of "ring s" e] cons_ok_write [of "ring s" _ e]
    by (auto simp: vcq_sys_inv_def vcq_wf_def)
next
  case (push_store s e t)
  then show ?case
    using vcq_advance_tail [of "ring s"] cons_ok_tail [of "ring s"]
    by (auto simp: vcq_sys_inv_def)
next
  case (pop_store s h e)
  then show ?case
    using vcq_advance_head [of "ring s"] prod_ok_head [of "ring s"]
    by (auto simp: vcq_sys_inv_def)
qed (auto simp: vcq_sys_inv_def)

lemma vcq_reach_inv:
  assumes "vcq_reach q s" and "vcq_wf q" and "vq_head q = vq_tail q"
  shows "vcq_sys_inv s"
  using assms(1)
proof (induction rule: vcq_reach.induct)
  case start
  show ?case using assms(2,3) vcq_empty_iff [OF assms(2)]
    by (simp add: vcq_sys_inv_def vcq_start_def)
next
  case (step s t)
  then show ?case by (blast intro: vcq_step_inv)
qed

text \<open>C1. 
  In every interleaving of the producers' and the consumer's memory accesses, the entries popped
  so far followed by the entries in the ring are exactly the entries pushed so far, in order:
  nothing is lost, duplicated or reordered, and the ring never holds \<open>qsize\<close> entries.
\<close>

theorem vcq_interleaved_fifo:
  assumes "vcq_reach q s" and "vcq_wf q" and "vq_head q = vq_tail q"
  shows "pushed s = popped s @ vcq_entries (ring s)
    \<and> length (vcq_entries (ring s)) < vq_qsize (ring s)"
  using vcq_reach_inv [OF assms] vcq_entries_bound by (auto simp: vcq_sys_inv_def)

definition sample_vcq :: unvme_vcq where
  "sample_vcq = \<lparr>vq_qid = 1, vq_qsize = 2, vq_head = 0, vq_tail = 0,
     vq_vcqe = replicate 2 \<lparr>vcqe_cqe = \<lparr>qw0 = 0, sqhd = 0, sqid = 1, cqe_cid = 7, sfp = 1\<rparr>,
                           vcqe_bdf = 0, vcqe_injected = 0\<rparr>\<rparr>"

definition sample_entry :: unvme_vcqe where
  "sample_entry = \<lparr>vcqe_cqe = \<lparr>qw0 = 0, sqhd = 0, sqid = 1, cqe_cid = 3, sfp = 1\<rparr>,
                   vcqe_bdf = 0, vcqe_injected = 0\<rparr>"

lemma sample_push_reach: "\<exists>s. vcq_reach sample_vcq s \<and> pushed s = [sample_entry]"
proof -
  let ?s0 = "vcq_start sample_vcq"
  let ?s1 = "?s0\<lparr>prod := PTail sample_entry (vq_tail (ring ?s0))\<rparr>"
  let ?s2 = "?s1\<lparr>prod := PRoom sample_entry 0\<rparr>"
  let ?s3 = "?s2\<lparr>prod := PWrote sample_entry 0,
      ring := (ring ?s2)\<lparr>vq_vcqe := (vq_vcqe (ring ?s2))[unat (0 :: u16) := sample_entry]\<rparr>\<rparr>"
  let ?s4 = "?s3\<lparr>prod := PIdle, pushed := pushed ?s3 @ [sample_entry],
      ring := (ring ?s3)\<lparr>vq_tail := vcq_next (vq_qsize (ring ?s3)) 0\<rparr>\<rparr>"
  have "vcq_reach sample_vcq ?s1"
    by (rule vcq_reach.step [OF vcq_reach.start vcq_step.push_load]) (simp add: vcq_start_def)
  then have "vcq_reach sample_vcq ?s2"
    by (rule vcq_reach.step [OF _ vcq_step.push_room])
       (simp_all add: vcq_start_def sample_vcq_def)
  then have "vcq_reach sample_vcq ?s3"
    by (rule vcq_reach.step [OF _ vcq_step.push_write]) simp
  then have "vcq_reach sample_vcq ?s4"
    by (rule vcq_reach.step [OF _ vcq_step.push_store]) simp
  then show ?thesis by (rule exI [of _ ?s4, OF conjI]) (simp add: vcq_start_def)
qed

theorem vcq_interleaved_fifo_witness:
  "\<exists>s. vcq_reach sample_vcq s \<and> pushed s = [sample_entry]
     \<and> pushed s = popped s @ vcq_entries (ring s)"
proof -
  from sample_push_reach obtain s where s: "vcq_reach sample_vcq s" "pushed s = [sample_entry]"
    by blast
  have "vcq_wf sample_vcq" "vq_head sample_vcq = vq_tail sample_vcq"
    by (simp_all add: sample_vcq_def vcq_wf_def)
  with vcq_interleaved_fifo [OF s(1)] s show ?thesis by blast
qed

subsection \<open>The identifier pool without a lock\<close>

text \<open>
  A thread that acquires has loaded the top slot, or has also read its \<open>next\<close> pointer for the
  compare-and-swap; a thread that releases has linked its slot to the top it saw.
\<close>

datatype pool_pc = TIdle | TLoaded nat | TNext nat "nat option" | TRel nat

record pool_sys =
  pool :: vcq_pool
  pcs :: "nat \<Rightarrow> pool_pc"
  owned :: "nat \<Rightarrow> nat list"

datatype pool_ev = EvLoad | EvNext | EvAcqCas | EvLink nat | EvRelCas

text \<open>
  One access by one thread; \<open>None\<close> when the thread is not at that point. A failed
  compare-and-swap stores the current value into its expected operand, as libvfn's
  \<open>atomic_cmpxchg()\<close> does.
\<close>

fun pool_exec :: "nat \<Rightarrow> pool_ev \<Rightarrow> pool_sys \<Rightarrow> pool_sys option" where
  "pool_exec t EvLoad s =
     (if pcs s t = TIdle
      then Some (case vcq_free_top (pool s) of
                   None \<Rightarrow> s
                 | Some i \<Rightarrow> s\<lparr>pcs := (pcs s)(t := TLoaded i)\<rparr>)
      else None)"
| "pool_exec t EvNext s =
     (case pcs s t of
        TLoaded i \<Rightarrow>
          Some (s\<lparr>pcs := (pcs s)(t := TNext i (slot_next (vcq_slots (pool s) i)))\<rparr>)
      | _ \<Rightarrow> None)"
| "pool_exec t EvAcqCas s =
     (case pcs s t of
        TNext i nx \<Rightarrow>
          if vcq_free_top (pool s) = Some i
          then Some (s\<lparr>pool := (pool s)\<lparr>vcq_free_top := nx\<rparr>,
                       pcs := (pcs s)(t := TIdle),
                       owned := (owned s)(t := slot_qid (vcq_slots (pool s) i) # owned s t)\<rparr>)
          else Some (s\<lparr>pcs := (pcs s)(t := (case vcq_free_top (pool s) of
                                           None \<Rightarrow> TIdle | Some j \<Rightarrow> TLoaded j))\<rparr>)
      | _ \<Rightarrow> None)"
| "pool_exec t (EvLink q) s =
     (if pcs s t = TIdle \<and> q \<in> set (owned s t)
      then Some (s\<lparr>pool := (pool s)\<lparr>vcq_slots := (vcq_slots (pool s))
                      (q := (vcq_slots (pool s) q)\<lparr>slot_next := vcq_free_top (pool s)\<rparr>)\<rparr>,
                   pcs := (pcs s)(t := TRel q),
                   owned := (owned s)(t := remove1 q (owned s t))\<rparr>)
      else None)"
| "pool_exec t EvRelCas s =
     (case pcs s t of
        TRel q \<Rightarrow>
          if vcq_free_top (pool s) = slot_next (vcq_slots (pool s) q)
          then Some (s\<lparr>pool := (pool s)\<lparr>vcq_free_top := Some q\<rparr>, pcs := (pcs s)(t := TIdle)\<rparr>)
          else Some (s\<lparr>pool := (pool s)\<lparr>vcq_slots := (vcq_slots (pool s))
                      (q := (vcq_slots (pool s) q)\<lparr>slot_next := vcq_free_top (pool s)\<rparr>)\<rparr>\<rparr>)
      | _ \<Rightarrow> None)"

definition pool_start :: pool_sys where
  "pool_start = \<lparr>pool = unvmed_vcq_pool_init, pcs = (\<lambda>_. TIdle), owned = (\<lambda>_. [])\<rparr>"

inductive pool_reach :: "pool_sys \<Rightarrow> bool" where
  start: "pool_reach pool_start"
| step: "pool_reach s \<Longrightarrow> pool_exec t e s = Some s' \<Longrightarrow> pool_reach s'"

fun pool_trace :: "(nat \<times> pool_ev) list \<Rightarrow> pool_sys \<Rightarrow> pool_sys option" where
  "pool_trace [] s = Some s"
| "pool_trace ((t, e) # es) s =
     (case pool_exec t e s of None \<Rightarrow> None | Some s' \<Rightarrow> pool_trace es s')"

lemma pool_trace_reach: "pool_reach s \<Longrightarrow> pool_trace es s = Some s' \<Longrightarrow> pool_reach s'"
proof (induction es arbitrary: s)
  case (Cons te es)
  then obtain t e u where te: "te = (t, e)" and u: "pool_exec t e s = Some u"
    and "pool_trace es u = Some s'"
    by (cases te) (auto split: option.splits)
  with Cons.IH pool_reach.step [OF Cons.prems(1) u] show ?case by blast
qed simp

text \<open>
  Thread 0 is about to swap the top from slot 1 to slot 2 when thread 1 takes slots 1 and 2 and
  returns slot 1; the swap of thread 0 still finds slot 1 on top and succeeds.
\<close>

definition aba_trace :: "(nat \<times> pool_ev) list" where
  "aba_trace = [(0, EvLoad), (0, EvNext),
     (1, EvLoad), (1, EvNext), (1, EvAcqCas), (1, EvLoad), (1, EvNext), (1, EvAcqCas),
     (1, EvLink 1), (1, EvRelCas),
     (0, EvAcqCas), (0, EvLoad), (0, EvNext), (0, EvAcqCas)]"

lemma aba_trace_owners:
  "\<exists>s. pool_trace aba_trace pool_start = Some s \<and> owned s 0 = [2, 1] \<and> owned s 1 = [2]"
  by (simp add: aba_trace_def pool_start_def unvmed_vcq_pool_init_def UNVME_VCQ_MAX_def)

text \<open>
  The lock-free stack of VCQ identifiers is not safe against interleaving: a run of two threads
  from the initial pool ends with both of them holding identifier 2 (an ABA of the top pointer).
\<close>

theorem vcq_pool_aba:
  "\<exists>s q. pool_reach s \<and> q \<in> set (owned s 0) \<and> q \<in> set (owned s 1)"
proof -
  from aba_trace_owners obtain s where "pool_trace aba_trace pool_start = Some s"
    and own: "owned s 0 = [2, 1]" "owned s 1 = [2]" by blast
  then have "pool_reach s" using pool_trace_reach pool_reach.start by blast
  with own show ?thesis by force
qed

end
