(* ===== verification/Cid_Bitmap.thy ===== *)
theory Cid_Bitmap
  imports Id_Pool
begin

unbundle bit_operations_syntax

text \<open>
  Command identifiers of a submission queue: the bitmap of \<open>struct unvme_bitmap\<close>, created by
  \<open>unvmed_cid_init()\<close> in \<open>lib/libunvmed.c\<close> and used by \<open>unvmed_cid_alloc()\<close>,
  \<open>unvmed_cid_alloc_n()\<close> and \<open>unvmed_cid_free()\<close> in \<open>lib/libunvmed-cmds.c\<close>. Each
  compare-and-swap is the point where its operation takes effect, and is modelled as one that
  finds the byte it loaded.
\<close>

record unvme_bitmap =
  bm_size :: nat
  nr_bytes :: nat
  bm_bits :: "u8 list"
  bm_top :: nat

text \<open>
  \<open>unvmed_cid_init()\<close>; the bits after the last identifier are marked used. The caller zeroes the
  structure, so \<open>top\<close> starts at 0. \<open>mem\<close> says whether \<open>calloc()\<close> succeeds.
\<close>

definition unvmed_cid_init :: "bool \<Rightarrow> nat \<Rightarrow> unvme_bitmap outcome" where
  "unvmed_cid_init mem size' =
     (let n = (size' + 8 - 1) div 8; bits = replicate n (0 :: u8) in
      if \<not> mem then Fail ENOMEM
      else Ok \<lparr>bm_size = size', nr_bytes = n,
               bm_bits = (if size' mod 8 \<noteq> 0 then bits[n - 1 := push_bit (size' mod 8) 0xff]
                          else bits),
               bm_top = 0\<rparr>)"

text \<open>\<open>__find_first_zero()\<close>; \<open>None\<close> is -1. Its first test compares a promoted \<open>uint8_t\<close> with -1.\<close>

definition find_first_zero_u2 :: "u8 \<Rightarrow> nat option" where
  "find_first_zero_u2 byte =
     (if uint byte = -1 then None else find (\<lambda>i. byte AND push_bit i 1 = 0) [0..<8])"

text \<open>The body the two loops of \<open>unvmed_cid_alloc()\<close> share: the position to claim in a byte.\<close>

definition claim_pos :: "u8 \<Rightarrow> nat option" where
  "claim_pos old = (if old = 0xFF then None else find_first_zero_u2 old)"

text \<open>The second loop, from byte \<open>i\<close> over the \<open>n\<close> bytes that remain.\<close>

fun cid_scan :: "u8 list \<Rightarrow> nat \<Rightarrow> nat \<Rightarrow> (nat \<times> nat) option outcome" where
  "cid_scan bits i 0 = Ok None"
| "cid_scan bits i (Suc n) =
     (case nth_opt bits i of
        None \<Rightarrow> Fault
      | Some old \<Rightarrow>
          (case claim_pos old of
             None \<Rightarrow> cid_scan bits (Suc i) n
           | Some pos \<Rightarrow> Ok (Some (i, pos))))"

definition set_cid_bit :: "unvme_bitmap \<Rightarrow> nat \<Rightarrow> nat \<Rightarrow> unvme_bitmap" where
  "set_cid_bit b i pos =
     b\<lparr>bm_bits := (bm_bits b)[i := (bm_bits b ! i) OR push_bit pos 1]\<rparr>"

text \<open>The identifier stored for bit \<open>pos\<close> of byte \<open>i\<close>, an \<open>int\<close> truncated to 16 bits.\<close>

definition cid_of :: "nat \<Rightarrow> nat \<Rightarrow> u16" where
  "cid_of i pos = word_of_nat (i * 8 + pos)"

definition unvmed_cid_alloc :: "unvme_bitmap \<Rightarrow> (u16 \<times> unvme_bitmap) outcome" where
  "unvmed_cid_alloc b =
     (case nth_opt (bm_bits b) (bm_top b) of
        None \<Rightarrow> Fault
      | Some old \<Rightarrow>
          (case claim_pos old of
             Some pos \<Rightarrow> Ok (cid_of (bm_top b) pos, set_cid_bit b (bm_top b) pos)
           | None \<Rightarrow>
               (case cid_scan (bm_bits b) 0 (nr_bytes b) of
                  Ok (Some (i, pos)) \<Rightarrow>
                    Ok (cid_of i pos, (set_cid_bit b i pos)\<lparr>bm_top := i\<rparr>)
                | Ok None \<Rightarrow> Fail EBUSY
                | Fail e \<Rightarrow> Fail e
                | Fault \<Rightarrow> Fault)))"

definition unvmed_cid_alloc_n :: "unvme_bitmap \<Rightarrow> u16 \<Rightarrow> unvme_bitmap outcome" where
  "unvmed_cid_alloc_n b cid =
     (let byte_index = unat cid div 8; bit_index = unat cid mod 8 in
      if bm_size b \<le> unat cid then Fail EINVAL
      else (case nth_opt (bm_bits b) byte_index of
              None \<Rightarrow> Fault
            | Some old \<Rightarrow>
                if old AND push_bit bit_index 1 \<noteq> 0 then Fail EEXIST
                else Ok (set_cid_bit b byte_index bit_index)))"

definition unvmed_cid_free :: "unvme_bitmap \<Rightarrow> u16 \<Rightarrow> unvme_bitmap outcome" where
  "unvmed_cid_free b cid =
     (let byte_index = unat cid div 8; bit_index = unat cid mod 8 in
      if bm_size b \<le> unat cid then Fail EINVAL
      else (case nth_opt (bm_bits b) byte_index of
              None \<Rightarrow> Fault
            | Some old \<Rightarrow>
                Ok (b\<lparr>bm_bits := (bm_bits b)[byte_index := old AND NOT (push_bit bit_index 1)]\<rparr>)))"

subsection \<open>The bitmap as a set of identifiers\<close>

definition cid_bit :: "unvme_bitmap \<Rightarrow> nat \<Rightarrow> bool" where
  "cid_bit b c = bit (bm_bits b ! (c div 8)) (c mod 8)"

definition used_cids :: "unvme_bitmap \<Rightarrow> nat set" where
  "used_cids b = {c. c < bm_size b \<and> cid_bit b c}"

definition bitmap_wf :: "unvme_bitmap \<Rightarrow> bool" where
  "bitmap_wf b \<longleftrightarrow> 0 < bm_size b \<and> bm_size b \<le> 65536 \<and> nr_bytes b = (bm_size b + 7) div 8
     \<and> length (bm_bits b) = nr_bytes b \<and> bm_top b < nr_bytes b
     \<and> (\<forall>c. bm_size b \<le> c \<and> c < 8 * nr_bytes b \<longrightarrow> cid_bit b c)"

lemma claim_pos_Some:
  "claim_pos old = Some pos \<Longrightarrow> pos < 8 \<and> \<not> bit old pos"
  by (auto simp: claim_pos_def find_first_zero_u2_def find_Some_iff word_bit_simps
        split: if_splits)

lemma uint_not_neg [simp]: "uint (w :: u8) \<noteq> -1"
  using unsigned_greater_eq [of w] by (metis neg_0_le_iff_le not_one_le_zero)

lemma bit_ff_int [simp]: "bit (255 :: int) i \<longleftrightarrow> i < 8"
proof -
  have "(255 :: int) = mask 8" by (simp add: mask_eq_exp_minus_1)
  then show ?thesis by (simp only: bit_mask_iff) simp
qed

lemma claim_pos_None: "claim_pos old = None \<longleftrightarrow> (\<forall>i<8. bit old i)"
proof -
  have "old = 0xFF \<longleftrightarrow> (\<forall>i<8. bit old i)"
    by (auto intro!: bit_word_eqI)
  then show ?thesis
    by (auto simp: claim_pos_def find_first_zero_u2_def find_None_iff word_bit_simps)
qed

lemma cid_scan_spec:
  assumes "i + n \<le> length bits"
  shows "case cid_scan bits i n of
      Ok None \<Rightarrow> (\<forall>j. i \<le> j \<and> j < i + n \<longrightarrow> claim_pos (bits ! j) = None)
    | Ok (Some (j, pos)) \<Rightarrow> i \<le> j \<and> j < i + n \<and> claim_pos (bits ! j) = Some pos
    | _ \<Rightarrow> False"
  using assms
proof (induction bits i n rule: cid_scan.induct)
  case (2 bits i n)
  show ?case
  proof (cases "claim_pos (bits ! i)")
    case None
    have "nth_opt bits i = Some (bits ! i)" using "2.prems" by simp
    with 2 None show ?thesis
      by (auto split: outcome.splits option.splits simp: nth_opt_def)
         (metis Suc_leI le_neq_implies_less)+
  next
    case (Some pos)
    with "2.prems" show ?thesis by (simp add: nth_opt_def)
  qed
qed auto

lemma cid_index:
  assumes "bitmap_wf b" and "c < 8 * nr_bytes b"
  shows "c div 8 < length (bm_bits b)"
  using assms by (simp add: bitmap_wf_def less_mult_imp_div_less mult.commute)

lemma cid_lt_bytes: "bitmap_wf b \<Longrightarrow> c < bm_size b \<Longrightarrow> c < 8 * nr_bytes b"
  by (auto simp: bitmap_wf_def)

lemma cid_bit_set:
  assumes "i < length (bm_bits b)" and "pos < 8" and "c div 8 < length (bm_bits b)"
  shows "cid_bit (set_cid_bit b i pos) c \<longleftrightarrow> c = i * 8 + pos \<or> cid_bit b c"
proof -
  have "bit ((x :: u8) OR push_bit pos 1) k \<longleftrightarrow> bit x k \<or> k = pos" for x k
    using assms(2) by (auto simp: bit_or_iff bit_exp_iff)
  moreover have "c = i * 8 + pos \<longleftrightarrow> c div 8 = i \<and> c mod 8 = pos"
    using assms(2) by auto
  ultimately show ?thesis
    using assms(1) by (auto simp: cid_bit_def set_cid_bit_def nth_list_update)
qed

lemma set_cid_bit_simps [simp]:
  "bm_size (set_cid_bit b i pos) = bm_size b" "nr_bytes (set_cid_bit b i pos) = nr_bytes b"
  "length (bm_bits (set_cid_bit b i pos)) = length (bm_bits b)"
  "bm_top (set_cid_bit b i pos) = bm_top b"
  by (simp_all add: set_cid_bit_def)

text \<open>Setting the bit of an identifier adds it to the used ones.\<close>

lemma set_cid_bit_used:
  assumes "bitmap_wf b" and "i < length (bm_bits b)" and "pos < 8" and "i * 8 + pos < bm_size b"
    and "t < nr_bytes b"
  shows "used_cids ((set_cid_bit b i pos)\<lparr>bm_top := t\<rparr>) = insert (i * 8 + pos) (used_cids b)
     \<and> bitmap_wf ((set_cid_bit b i pos)\<lparr>bm_top := t\<rparr>)"
proof -
  let ?b = "(set_cid_bit b i pos)\<lparr>bm_top := t\<rparr>"
  have bit': "cid_bit ?b c \<longleftrightarrow> c = i * 8 + pos \<or> cid_bit b c" if "c < 8 * nr_bytes b" for c
    using cid_bit_set [OF assms(2,3) cid_index [OF assms(1) that]] by (simp add: cid_bit_def)
  then have "used_cids ?b = insert (i * 8 + pos) (used_cids b)"
    using assms(4) cid_lt_bytes [OF assms(1)] by (auto simp: used_cids_def)
  moreover have "bitmap_wf ?b"
    using assms bit' by (auto simp: bitmap_wf_def)
  ultimately show ?thesis by blast
qed

text \<open>A clear bit belongs to an identifier: the padding bits are all set.\<close>

lemma clear_bit_cid:
  assumes "bitmap_wf b" and "i < length (bm_bits b)" and "claim_pos (bm_bits b ! i) = Some pos"
  shows "i * 8 + pos < bm_size b \<and> pos < 8 \<and> i * 8 + pos \<notin> used_cids b"
proof -
  have pos: "pos < 8" "\<not> bit (bm_bits b ! i) pos" using claim_pos_Some [OF assms(3)] by auto
  then have clear: "\<not> cid_bit b (i * 8 + pos)" by (simp add: cid_bit_def)
  moreover have "i * 8 + pos < 8 * nr_bytes b"
    using assms(1,2) pos(1) by (simp add: bitmap_wf_def)
  ultimately have "i * 8 + pos < bm_size b"
    using assms(1) unfolding bitmap_wf_def by (meson not_less)
  with clear pos show ?thesis by (simp add: used_cids_def)
qed

lemma all_claimed_full:
  assumes "bitmap_wf b" and "\<forall>j < nr_bytes b. claim_pos (bm_bits b ! j) = None"
  shows "used_cids b = {..<bm_size b}"
proof -
  have "cid_bit b c" if "c < bm_size b" for c
    using assms(2) cid_index [OF assms(1) cid_lt_bytes [OF assms(1) that]] assms(1)
    by (auto simp: cid_bit_def claim_pos_None bitmap_wf_def)
  then show ?thesis by (auto simp: used_cids_def)
qed

lemma cid_alloc_at:
  assumes "bitmap_wf b" and "i < length (bm_bits b)" and "claim_pos (bm_bits b ! i) = Some pos"
    and "t < nr_bytes b"
  shows "let c = i * 8 + pos; b' = (set_cid_bit b i pos)\<lparr>bm_top := t\<rparr> in
      unat (cid_of i pos) = c \<and> c < bm_size b \<and> c \<notin> used_cids b
      \<and> used_cids b' = insert c (used_cids b) \<and> bitmap_wf b' \<and> bm_size b' = bm_size b"
proof -
  have c: "i * 8 + pos < bm_size b" "pos < 8" "i * 8 + pos \<notin> used_cids b"
    using clear_bit_cid [OF assms(1-3)] by auto
  then have "i * 8 + pos < 65536" using assms(1) by (simp add: bitmap_wf_def)
  then have "unat (cid_of i pos) = i * 8 + pos"
    unfolding cid_of_def by (rule unat_of_nat_u16)
  with c set_cid_bit_used [OF assms(1,2) c(2,1) assms(4)] show ?thesis by (simp add: Let_def)
qed

lemma bitmap_self_top: "b\<lparr>bm_top := bm_top b\<rparr> = (b :: unvme_bitmap)"
  by simp

text \<open>The two outcomes of an allocation on a well-formed bitmap.\<close>

lemma cid_alloc_cases:
  assumes "bitmap_wf b"
  obtains (full) "unvmed_cid_alloc b = Fail EBUSY" and "used_cids b = {..<bm_size b}"
  | (got) cid b' where "unvmed_cid_alloc b = Ok (cid, b')" and "unat cid < bm_size b"
      and "unat cid \<notin> used_cids b" and "used_cids b' = insert (unat cid) (used_cids b)"
      and "bitmap_wf b'" and "bm_size b' = bm_size b"
proof (cases "claim_pos (bm_bits b ! bm_top b)")
  case (Some pos)
  have top: "bm_top b < length (bm_bits b)" "bm_top b < nr_bytes b"
    using assms by (auto simp: bitmap_wf_def)
  have self: "(set_cid_bit b (bm_top b) pos)\<lparr>bm_top := bm_top b\<rparr> = set_cid_bit b (bm_top b) pos"
    by (simp add: set_cid_bit_def)
  have "unvmed_cid_alloc b = Ok (cid_of (bm_top b) pos, set_cid_bit b (bm_top b) pos)"
    using Some top by (simp add: unvmed_cid_alloc_def nth_opt_def)
  with cid_alloc_at [OF assms top(1) Some top(2)] show thesis
    using got [of "cid_of (bm_top b) pos" "set_cid_bit b (bm_top b) pos"]
    by (simp add: Let_def self)
next
  case None
  have len: "0 + nr_bytes b \<le> length (bm_bits b)" and top: "bm_top b < length (bm_bits b)"
    using assms by (auto simp: bitmap_wf_def)
  note scan = cid_scan_spec [OF len]
  show thesis
  proof (cases "cid_scan (bm_bits b) 0 (nr_bytes b)")
    case (Ok r)
    show thesis
    proof (cases r)
      case None
      with Ok scan have "\<forall>j < nr_bytes b. claim_pos (bm_bits b ! j) = None" by simp
      then have "used_cids b = {..<bm_size b}" by (rule all_claimed_full [OF assms])
      moreover have "unvmed_cid_alloc b = Fail EBUSY"
        using Ok None \<open>claim_pos (bm_bits b ! bm_top b) = None\<close> top
        by (simp add: unvmed_cid_alloc_def nth_opt_def)
      ultimately show thesis by (intro full)
    next
      case (Some ip)
      obtain i pos where ip: "ip = (i, pos)" by (cases ip)
      with Ok Some scan have i: "i < nr_bytes b" "claim_pos (bm_bits b ! i) = Some pos" by auto
      then have "i < length (bm_bits b)" using assms by (simp add: bitmap_wf_def)
      moreover have "unvmed_cid_alloc b
          = Ok (cid_of i pos, (set_cid_bit b i pos)\<lparr>bm_top := i\<rparr>)"
        using Ok Some ip \<open>claim_pos (bm_bits b ! bm_top b) = None\<close> top
        by (simp add: unvmed_cid_alloc_def nth_opt_def)
      ultimately show thesis
        using cid_alloc_at [OF assms _ i(2,1)]
          got [of "cid_of i pos" "(set_cid_bit b i pos)\<lparr>bm_top := i\<rparr>"]
        by (simp add: Let_def)
    qed
  qed (use scan in auto)
qed

lemma cid_alloc_n_spec:
  assumes "bitmap_wf b"
  shows "if bm_size b \<le> unat cid then unvmed_cid_alloc_n b cid = Fail EINVAL
    else if unat cid \<in> used_cids b then unvmed_cid_alloc_n b cid = Fail EEXIST
    else \<exists>b'. unvmed_cid_alloc_n b cid = Ok b' \<and> used_cids b' = insert (unat cid) (used_cids b)
           \<and> bitmap_wf b' \<and> bm_size b' = bm_size b"
proof (cases "unat cid < bm_size b")
  case True
  let ?i = "unat cid div 8" and ?p = "unat cid mod 8"
  have i: "?i < length (bm_bits b)" by (rule cid_index [OF assms cid_lt_bytes [OF assms True]])
  have self: "(set_cid_bit b ?i ?p)\<lparr>bm_top := bm_top b\<rparr> = set_cid_bit b ?i ?p"
    by (simp add: set_cid_bit_def)
  have "bm_top b < nr_bytes b" using assms by (simp add: bitmap_wf_def)
  then have "used_cids (set_cid_bit b ?i ?p) = insert (unat cid) (used_cids b)
      \<and> bitmap_wf (set_cid_bit b ?i ?p)"
    using set_cid_bit_used [OF assms i, of ?p "bm_top b"] True self by simp
  with True i show ?thesis
    by (auto simp: unvmed_cid_alloc_n_def Let_def nth_opt_def used_cids_def cid_bit_def
          word_bit_simps)
qed (simp add: unvmed_cid_alloc_n_def)

lemma cid_free_spec:
  assumes "bitmap_wf b"
  shows "if bm_size b \<le> unat cid then unvmed_cid_free b cid = Fail EINVAL
    else \<exists>b'. unvmed_cid_free b cid = Ok b' \<and> used_cids b' = used_cids b - {unat cid}
           \<and> bitmap_wf b' \<and> bm_size b' = bm_size b"
proof (cases "unat cid < bm_size b")
  case True
  let ?i = "unat cid div 8" and ?p = "unat cid mod 8"
  let ?b = "b\<lparr>bm_bits := (bm_bits b)[?i := (bm_bits b ! ?i) AND NOT (push_bit ?p 1)]\<rparr>"
  have i: "?i < length (bm_bits b)" by (rule cid_index [OF assms cid_lt_bytes [OF assms True]])
  have bits: "bit ((x :: u8) AND NOT (push_bit ?p 1)) k \<longleftrightarrow> bit x k \<and> k \<noteq> ?p" for x k
    by (auto simp: bit_and_iff bit_not_iff bit_exp_iff dest: bit_imp_le_length)
  have bit': "cid_bit ?b c \<longleftrightarrow> cid_bit b c \<and> c \<noteq> unat cid" if "c < 8 * nr_bytes b" for c
  proof -
    have "c = unat cid \<longleftrightarrow> c div 8 = ?i \<and> c mod 8 = ?p" by (metis div_mult_mod_eq)
    then show ?thesis using i bits by (auto simp: cid_bit_def nth_list_update)
  qed
  then have "used_cids ?b = used_cids b - {unat cid}"
    using cid_lt_bytes [OF assms] by (auto simp: used_cids_def)
  moreover have "bitmap_wf ?b"
    using assms bit' True by (auto simp: bitmap_wf_def)
  ultimately show ?thesis
    using True i by (auto simp: unvmed_cid_free_def Let_def nth_opt_def)
qed (simp add: unvmed_cid_free_def)

subsection \<open>Initialisation\<close>

lemma cid_init_bit:
  assumes "unvmed_cid_init True n = Ok b" and "c < 8 * nr_bytes b"
  shows "cid_bit b c \<longleftrightarrow> n \<le> c"
proof -
  let ?k = "(n + 7) div 8"
  have b: "nr_bytes b = ?k" "bm_bits b = (if n mod 8 \<noteq> 0
      then (replicate ?k (0 :: u8))[?k - 1 := push_bit (n mod 8) 0xff] else replicate ?k 0)"
    using assms(1) by (auto simp: unvmed_cid_init_def Let_def add.commute)
  have c: "c div 8 < ?k" using assms(2) b by (simp add: less_mult_imp_div_less mult.commute)
  have last: "bit (push_bit (n mod 8) (0xff :: u8)) (c mod 8) \<longleftrightarrow> n mod 8 \<le> c mod 8"
    by (auto simp: bit_push_bit_iff)
  have even_bytes: "?k = n div 8" if "n mod 8 = 0" using that by presburger
  have odd_bytes: "?k = Suc (n div 8)" if "n mod 8 \<noteq> 0" using that by presburger
  show ?thesis
  proof (cases "c div 8 = ?k - 1 \<and> n mod 8 \<noteq> 0")
    case True
    then have "n div 8 = c div 8" using odd_bytes by simp
    then have "n \<le> c \<longleftrightarrow> n mod 8 \<le> c mod 8"
      by (metis div_mult_mod_eq nat_add_left_cancel_le)
    with True b c last show ?thesis by (simp add: cid_bit_def)
  next
    case False
    have "c div 8 < n div 8"
    proof (cases "n mod 8 = 0")
      case True
      then show ?thesis using c even_bytes by simp
    next
      case neq: False
      then show ?thesis using c False odd_bytes by simp
    qed
    then have "c < n" by (meson div_le_mono not_less)
    with False b c show ?thesis by (auto simp: cid_bit_def nth_list_update)
  qed
qed

lemma cid_init_ok:
  assumes "0 < n" and "n \<le> 65536"
  shows "\<exists>b. unvmed_cid_init True n = Ok b \<and> bitmap_wf b \<and> bm_size b = n \<and> used_cids b = {}"
proof -
  obtain b where b: "unvmed_cid_init True n = Ok b" by (simp add: unvmed_cid_init_def Let_def)
  have size: "bm_size b = n" "nr_bytes b = (n + 7) div 8" "length (bm_bits b) = nr_bytes b"
    "bm_top b = 0"
    using b by (auto simp: unvmed_cid_init_def Let_def)
  have "bitmap_wf b"
    using assms size cid_init_bit [OF b] by (auto simp: bitmap_wf_def)
  moreover have "used_cids b = {}"
    using cid_init_bit [OF b] cid_lt_bytes [OF \<open>bitmap_wf b\<close>] size by (force simp: used_cids_def)
  ultimately show ?thesis using b size by blast
qed

subsection \<open>The bitmap as an identifier pool\<close>

definition cid_acquire :: "unvme_bitmap \<Rightarrow> (nat \<times> unvme_bitmap) option" where
  "cid_acquire b =
     (case unvmed_cid_alloc b of Ok (cid, b') \<Rightarrow> Some (unat cid, b') | _ \<Rightarrow> None)"

definition cid_release :: "unvme_bitmap \<Rightarrow> nat \<Rightarrow> unvme_bitmap" where
  "cid_release b i = (case unvmed_cid_free b (word_of_nat i) of Ok b' \<Rightarrow> b' | _ \<Rightarrow> b)"

definition cid_ids :: "unvme_bitmap \<Rightarrow> nat set" where
  "cid_ids b = {..<bm_size b}"

definition free_cids :: "unvme_bitmap \<Rightarrow> nat set" where
  "free_cids b = cid_ids b - used_cids b"

lemma used_cids_sub: "used_cids b \<subseteq> cid_ids b"
  by (auto simp: used_cids_def cid_ids_def)

interpretation cids: id_pool cid_acquire cid_release cid_ids free_cids bitmap_wf
proof
  fix b i b' assume wf: "bitmap_wf b"
  show "free_cids b \<subseteq> cid_ids b" by (auto simp: free_cids_def)
  show "i \<in> free_cids b \<and> free_cids b' = free_cids b - {i} \<and> cid_ids b' = cid_ids b \<and> bitmap_wf b'"
    if "cid_acquire b = Some (i, b')"
    using wf by (rule cid_alloc_cases)
       (use that in \<open>auto simp: cid_acquire_def free_cids_def cid_ids_def\<close>)
  show "cid_acquire b = None \<longleftrightarrow> free_cids b = {}"
    using wf by (rule cid_alloc_cases)
       (auto simp: cid_acquire_def free_cids_def cid_ids_def)
  show "free_cids (cid_release b i) = insert i (free_cids b)
      \<and> cid_ids (cid_release b i) = cid_ids b \<and> bitmap_wf (cid_release b i)"
    if "i \<in> cid_ids b" "i \<notin> free_cids b"
  proof -
    have i: "i < bm_size b" "unat (word_of_nat i :: u16) = i"
      using that(1) wf by (auto simp: cid_ids_def bitmap_wf_def)
    then obtain c where "unvmed_cid_free b (word_of_nat i) = Ok c" "used_cids c = used_cids b - {i}"
      "bitmap_wf c" "bm_size c = bm_size b"
      using cid_free_spec [OF wf, of "word_of_nat i"] by auto
    with that show ?thesis by (auto simp: cid_release_def free_cids_def cid_ids_def)
  qed
qed

text \<open>C12. Whatever sequence of allocations and frees runs on a freshly initialised bitmap of
  \<open>n\<close> identifiers, no command identifier is handed out twice, none is \<open>n\<close> or above (the
  padding bits of the last byte are never used), and an allocation fails exactly when all \<open>n\<close>
  are in use.
\<close>

theorem cid_pool_exclusive:
  assumes "0 < n" and "n \<le> 65536" and "unvmed_cid_init True n = Ok b"
    and "pool_run cid_acquire cid_release ops (b, []) = (b', held)"
  shows "distinct held \<and> set held \<subseteq> {..<n} \<and> (cid_acquire b' = None \<longleftrightarrow> set held = {..<n})"
proof -
  have b: "bitmap_wf b" "bm_size b = n" "used_cids b = {}"
    using cid_init_ok [OF assms(1,2)] assms(3) by auto
  then have "free_cids b = cid_ids b" by (simp add: free_cids_def)
  from cids.run_distinct [OF b(1) this assms(4)] b(2) show ?thesis by (simp add: cid_ids_def)
qed

lemma sample_bitmap_run:
  "\<exists>b'. pool_run cid_acquire cid_release [Acquire, Acquire, Acquire, Acquire]
     (\<lparr>bm_size = 3, nr_bytes = 1, bm_bits = [0xF8], bm_top = 0\<rparr>, []) = (b', [2, 1, 0])"
  by (simp add: cid_acquire_def unvmed_cid_alloc_def nth_opt_def claim_pos_def
      find_first_zero_u2_def set_cid_bit_def cid_of_def upt_rec)

theorem cid_pool_exclusive_witness:
  "\<exists>b b'. unvmed_cid_init True 3 = Ok b
     \<and> pool_run cid_acquire cid_release [Acquire, Acquire, Acquire, Acquire] (b, []) = (b', [2, 1, 0])
     \<and> cid_acquire b' = None"
proof -
  let ?b = "\<lparr>bm_size = 3, nr_bytes = 1, bm_bits = [0xF8], bm_top = 0\<rparr>"
  have init: "unvmed_cid_init True 3 = Ok ?b" by (simp add: unvmed_cid_init_def)
  from sample_bitmap_run obtain b' where run: "pool_run cid_acquire cid_release
      [Acquire, Acquire, Acquire, Acquire] (?b, []) = (b', [2, 1, 0])" by blast
  have "set [2, 1, 0] = {..<3 :: nat}" by auto
  with cid_pool_exclusive [OF _ _ init run] init run show ?thesis by auto
qed

end
