(* ===== verification/Resource.thy ===== *)
theory Resource
  imports Prelude
begin

text \<open>
  The contract of operations that take resources out of a shared ledger (heap blocks, IOMMU
  mappings) and give them back: a successful call takes items that nobody held, a failed call
  takes nothing, and a release gives back exactly what was taken and never frees an item twice.
  \<open>res_run\<close> is a client that acquires and releases in any order; the locale proves once that it
  never faults and never leaks.
\<close>

datatype 'a res_op = Get 'a | Put nat

fun res_run ::
  "('a \<Rightarrow> 's \<Rightarrow> 'r outcome \<times> 's) \<Rightarrow> ('r \<Rightarrow> 's \<Rightarrow> unit outcome \<times> 's) \<Rightarrow> 'a res_op list
   \<Rightarrow> 's \<times> 'r list \<Rightarrow> ('s \<times> 'r list) option" where
  "res_run acq rel [] (s, held) = Some (s, held)"
| "res_run acq rel (Get a # ops) (s, held) =
     (case acq a s of
        (Ok r, s') \<Rightarrow> res_run acq rel ops (s', r # held)
      | (Fail _, s') \<Rightarrow> res_run acq rel ops (s', held)
      | (Fault, _) \<Rightarrow> None)"
| "res_run acq rel (Put k # ops) (s, held) =
     (if k < length held
      then (case rel (held ! k) s of
              (Ok _, s') \<Rightarrow> res_run acq rel ops (s', take k held @ drop (Suc k) held)
            | _ \<Rightarrow> None)
      else res_run acq rel ops (s, held))"

locale resource =
  fixes acq :: "'a \<Rightarrow> 's \<Rightarrow> 'r outcome \<times> 's"
    and rel :: "'r \<Rightarrow> 's \<Rightarrow> unit outcome \<times> 's"
    and owns :: "'r \<Rightarrow> 'x set"
    and live :: "'s \<Rightarrow> 'x set"
    and wf :: "'s \<Rightarrow> bool"
  assumes acq_safe: "wf s \<Longrightarrow> fst (acq a s) \<noteq> Fault"
    and acq_ok: "wf s \<Longrightarrow> acq a s = (Ok r, s') \<Longrightarrow>
          wf s' \<and> owns r \<inter> live s = {} \<and> live s' = live s \<union> owns r"
    and acq_fail: "wf s \<Longrightarrow> acq a s = (Fail e, s') \<Longrightarrow> wf s' \<and> live s' = live s"
    and rel_ok: "wf s \<Longrightarrow> owns r \<subseteq> live s \<Longrightarrow>
          \<exists>s'. rel r s = (Ok (), s') \<and> wf s' \<and> live s' = live s - owns r"
begin

definition owned :: "'r list \<Rightarrow> 'x set" where
  "owned held = (\<Union>r\<in>set held. owns r)"

primrec apart :: "'r list \<Rightarrow> bool" where
  "apart [] = True"
| "apart (r # rs) = (owns r \<inter> owned rs = {} \<and> apart rs)"

lemma owned_simps [simp]:
  "owned [] = {}" "owned (r # rs) = owns r \<union> owned rs" "owned (rs @ ts) = owned rs \<union> owned ts"
  by (auto simp: owned_def)

lemma apart_append [simp]:
  "apart (rs @ ts) \<longleftrightarrow> apart rs \<and> apart ts \<and> owned rs \<inter> owned ts = {}"
  by (induction rs) auto

lemma apart_nth: "apart rs \<Longrightarrow> i < j \<Longrightarrow> j < length rs \<Longrightarrow> owns (rs ! i) \<inter> owns (rs ! j) = {}"
proof (induction rs arbitrary: i j)
  case (Cons r rs)
  obtain j' where j: "j = Suc j'" using Cons.prems(2) by (cases j) auto
  show ?case
  proof (cases i)
    case 0
    have "rs ! j' \<in> set rs" using Cons.prems(3) j by simp
    then show ?thesis using Cons.prems(1) by (auto simp: 0 j owned_def)
  next
    case (Suc i')
    then show ?thesis using Cons.IH [of i' j'] Cons.prems by (simp add: j)
  qed
qed simp

text \<open>The ledger is what was there at the start and what the client holds, kept apart.\<close>

definition balanced :: "'x set \<Rightarrow> 's \<Rightarrow> 'r list \<Rightarrow> bool" where
  "balanced base s held \<longleftrightarrow>
     wf s \<and> apart held \<and> base \<inter> owned held = {} \<and> live s = base \<union> owned held"

lemma balanced_get:
  assumes "balanced base s held" and "acq a s = (Ok r, s')"
  shows "balanced base s' (r # held)"
proof -
  have "wf s" using assms(1) by (simp add: balanced_def)
  from acq_ok [OF this assms(2)] assms(1) show ?thesis by (auto simp: balanced_def)
qed

lemma balanced_put:
  assumes "balanced base s held" and "k < length held"
  shows "\<exists>s'. rel (held ! k) s = (Ok (), s') \<and> balanced base s' (take k held @ drop (Suc k) held)"
proof -
  let ?l = "take k held" and ?r = "drop (Suc k) held" and ?x = "held ! k"
  have split: "held = ?l @ ?x # ?r" using assms(2) by (rule id_take_nth_drop)
  have "wf s" and "apart (?l @ ?x # ?r)" and "base \<inter> owned (?l @ ?x # ?r) = {}"
    and live: "live s = base \<union> owned (?l @ ?x # ?r)"
    using assms(1) split by (auto simp: balanced_def simp del: owned_simps apart_append)
  then obtain s' where "rel ?x s = (Ok (), s')" "wf s'" "live s' = live s - owns ?x"
    using rel_ok [of s ?x] by auto
  moreover have "live s - owns ?x = base \<union> owned (?l @ ?r)"
    using live \<open>apart (?l @ ?x # ?r)\<close> \<open>base \<inter> owned (?l @ ?x # ?r) = {}\<close> by auto
  ultimately show ?thesis
    using \<open>apart (?l @ ?x # ?r)\<close> \<open>base \<inter> owned (?l @ ?x # ?r) = {}\<close>
    by (auto simp: balanced_def)
qed

lemma balanced_run:
  "balanced base s held \<Longrightarrow> \<exists>s' held'. res_run acq rel ops (s, held) = Some (s', held')
     \<and> balanced base s' held'"
proof (induction ops arbitrary: s held)
  case (Cons op ops)
  show ?case
  proof (cases op)
    case (Get a)
    have "wf s" using Cons.prems by (simp add: balanced_def)
    obtain out s1 where acq: "acq a s = (out, s1)" by fastforce
    show ?thesis
    proof (cases out)
      case (Ok r)
      with Cons.IH [OF balanced_get [OF Cons.prems]] acq Get show ?thesis by simp
    next
      case (Fail e)
      then have "balanced base s1 held"
        using acq_fail [OF \<open>wf s\<close>] acq Cons.prems by (auto simp: balanced_def)
      with Cons.IH acq Get Fail show ?thesis by simp
    next
      case Fault
      with acq acq_safe [OF \<open>wf s\<close>, of a] show ?thesis by simp
    qed
  next
    case (Put k)
    with Cons.IH balanced_put [OF Cons.prems, of k] Cons.prems show ?thesis by fastforce
  qed
qed simp

lemma run_balanced:
  assumes "wf s"
  shows "\<exists>s' held. res_run acq rel ops (s, []) = Some (s', held) \<and> wf s' \<and> apart held
    \<and> live s \<inter> owned held = {} \<and> live s' = live s \<union> owned held"
proof -
  have "balanced (live s) s []" using assms by (simp add: balanced_def)
  from balanced_run [OF this, of ops] show ?thesis by (auto simp: balanced_def)
qed

end

end
