(* ===== verification/Dma.thy ===== *)
theory Dma
  imports Resource
begin

unbundle bit_operations_syntax

text \<open>
  Buffers for the device: page-aligned allocation (\<open>unvmed_pgmap()\<close> and its relatives in
  \<open>lib/libunvmed.h\<close>), mapping into the IOMMU, the buffers of a command
  (\<open>unvmed_buf_init()\<close>, \<open>unvmed_buf_free()\<close>), the list of shared buffers
  (\<open>unvmed_mem_alloc()\<close>, \<open>unvmed_mem_get()\<close>, \<open>unvmed_mem_free()\<close>), the controller memory
  buffer, all in \<open>lib/libunvmed.c\<close> and \<open>lib/libunvmed-cmds.c\<close>. The host memory buffer
  is in theory \<open>Hmb\<close>.

  A pointer is a natural number and 0 is \<open>NULL\<close>. The heap is the set of the addresses that are
  allocated; freeing any other address is a \<open>Fault\<close>. The contents of the buffers are not
  modelled, except the two arrays of the host memory buffer.
\<close>

subsection \<open>The environment\<close>

text \<open>
  What libvfn and the allocator do: \<open>__mps_to_pagesize()\<close>, \<open>ALIGN_UP()\<close>, the addresses that
  \<open>posix_memalign()\<close> and \<open>calloc()\<close> choose (\<open>None\<close> when they fail), and the IOMMU calls
  \<open>iommu_translate_vaddr()\<close>, \<open>iommu_translate_iova()\<close>, \<open>iommu_map_vaddr_align()\<close> and
  \<open>iommu_unmap_vaddr()\<close> over the state \<open>'m\<close> of the IOMMU context. The sources pass no flag
  that asks for a fixed I/O address, so the address is a result of the map call only.
\<close>

record 'm dma_ops =
  mps_to_pagesize :: "u8 \<Rightarrow> u64"
  align_up :: "u64 \<Rightarrow> u64 \<Rightarrow> u64"
  memalign :: "nat set \<Rightarrow> u64 \<Rightarrow> u64 \<Rightarrow> nat option"
  calloc :: "nat set \<Rightarrow> u64 \<Rightarrow> nat option"
  iommu_translate_vaddr :: "'m \<Rightarrow> nat \<Rightarrow> u64 option"
  iommu_translate_iova :: "'m \<Rightarrow> u64 \<Rightarrow> (nat \<times> u64) option"
  iommu_map_vaddr :: "'m \<Rightarrow> nat \<Rightarrow> u64 \<Rightarrow> u64 \<Rightarrow> u64 \<Rightarrow> errno + u64 \<times> 'm"
  iommu_unmap_vaddr :: "'m \<Rightarrow> nat \<Rightarrow> errno + 'm"

record iommu_dmabuf =
  db_vaddr :: nat
  db_iova :: u64
  db_len :: u64

record nvme_cmb =
  cmb_bar :: nat
  cmb_vaddr :: nat
  cmb_iova :: u64
  cmb_size :: u64

text \<open>
  \<open>struct unvme_hmb\<close>; \<open>hmb_descs\<close> and \<open>hmb_vaddrs\<close> are the contents of the two arrays at
  \<open>descs\<close> and \<open>descs_vaddr\<close>, a descriptor being its address and its size in pages.
\<close>

record unvme_hmb =
  hmb_descs_ptr :: nat
  hmb_descs :: "(u64 \<times> u32) list"
  hmb_vaddr_ptr :: nat
  hmb_vaddrs :: "nat list"
  hmb_descs_iova :: u64
  hmb_descs_size :: u64
  hmb_nr_descs :: nat
  hmb_hsize :: u32

definition zero_hmb :: unvme_hmb where
  "zero_hmb = \<lparr>hmb_descs_ptr = 0, hmb_descs = [], hmb_vaddr_ptr = 0, hmb_vaddrs = [],
     hmb_descs_iova = 0, hmb_descs_size = 0, hmb_nr_descs = 0, hmb_hsize = 0\<rparr>"

text \<open>
  The part of \<open>struct unvme\<close> that these functions use. \<open>bdf\<close> is \<open>u->ctrl.pci.bdf\<close>, which is
  cleared when the controller is detached.
\<close>

record 'm unvme_dma =
  bdf :: "string option"
  mps :: u8
  heap :: "nat set"
  iommu :: 'm
  cmb :: nvme_cmb
  mem_list :: "iommu_dmabuf list"
  hmb :: unvme_hmb

subsection \<open>Pages and mappings\<close>

definition unvmed_pagesize :: "'m dma_ops \<Rightarrow> ('m, 'z) unvme_dma_scheme \<Rightarrow> u64" where
  "unvmed_pagesize ops u = mps_to_pagesize ops (mps u)"

text \<open>\<open>posix_memalign()\<close> reports failure by its return value and leaves \<open>errno\<close> alone.\<close>

definition unvmed_pgmap_aligned ::
  "'m dma_ops \<Rightarrow> u64 \<Rightarrow> u64 \<Rightarrow> ('m, 'z) unvme_dma_scheme
   \<Rightarrow> (nat \<times> u64) outcome \<times> ('m, 'z) unvme_dma_scheme" where
  "unvmed_pgmap_aligned ops sz pagesize u =
     (let len = align_up ops sz pagesize in
      case memalign ops (heap u) pagesize len of
        None \<Rightarrow> (Fail ERRNO_UNSET, u)
      | Some a \<Rightarrow> (Ok (a, len), u\<lparr>heap := insert a (heap u)\<rparr>))"

definition unvmed_pgmap ::
  "'m dma_ops \<Rightarrow> u64 \<Rightarrow> ('m, 'z) unvme_dma_scheme
   \<Rightarrow> (nat \<times> u64) outcome \<times> ('m, 'z) unvme_dma_scheme" where
  "unvmed_pgmap ops sz u = unvmed_pgmap_aligned ops sz (unvmed_pagesize ops u) u"

text \<open>\<open>unvmed_pgunmap()\<close> is \<open>free()\<close>.\<close>

definition unvmed_pgunmap ::
  "nat \<Rightarrow> ('m, 'z) unvme_dma_scheme \<Rightarrow> unit outcome \<times> ('m, 'z) unvme_dma_scheme" where
  "unvmed_pgunmap a u =
     (if a = 0 then (Ok (), u)
      else if a \<notin> heap u then (Fault, u)
      else (Ok (), u\<lparr>heap := heap u - {a}\<rparr>))"

definition unvmed_to_iova :: "'m dma_ops \<Rightarrow> nat \<Rightarrow> ('m, 'z) unvme_dma_scheme \<Rightarrow> u64 option" where
  "unvmed_to_iova ops buf u = iommu_translate_vaddr ops (iommu u) buf"

definition unvmed_to_vaddr ::
  "'m dma_ops \<Rightarrow> u64 \<Rightarrow> ('m, 'z) unvme_dma_scheme \<Rightarrow> (nat \<times> u64) option" where
  "unvmed_to_vaddr ops iova u = iommu_translate_iova ops (iommu u) iova"

definition unvmed_map_vaddr ::
  "'m dma_ops \<Rightarrow> nat \<Rightarrow> u64 \<Rightarrow> u64 \<Rightarrow> ('m, 'z) unvme_dma_scheme
   \<Rightarrow> u64 outcome \<times> ('m, 'z) unvme_dma_scheme" where
  "unvmed_map_vaddr ops buf len flags u =
     (if bdf u = None then (Fail ENODEV, u)
      else case iommu_map_vaddr ops (iommu u) buf len (unvmed_pagesize ops u) flags of
             Inl e \<Rightarrow> (Fail e, u)
           | Inr (iova, m) \<Rightarrow> (Ok iova, u\<lparr>iommu := m\<rparr>))"

definition unvmed_unmap_vaddr ::
  "'m dma_ops \<Rightarrow> nat \<Rightarrow> ('m, 'z) unvme_dma_scheme
   \<Rightarrow> unit outcome \<times> ('m, 'z) unvme_dma_scheme" where
  "unvmed_unmap_vaddr ops buf u =
     (if bdf u = None then (Fail ENODEV, u)
      else case iommu_unmap_vaddr ops (iommu u) buf of
             Inl e \<Rightarrow> (Fail e, u)
           | Inr m \<Rightarrow> (Ok (), u\<lparr>iommu := m\<rparr>))"

text \<open>A call whose result the source ignores.\<close>

definition ignore :: "'a outcome \<times> 's \<Rightarrow> 's" where
  "ignore r = snd r"

text \<open>The two calls that release a mapped buffer, in the order the sources make them.\<close>

definition unmap_and_free ::
  "'m dma_ops \<Rightarrow> nat \<Rightarrow> ('m, 'z) unvme_dma_scheme
   \<Rightarrow> unit outcome \<times> ('m, 'z) unvme_dma_scheme" where
  "unmap_and_free ops a u = unvmed_pgunmap a (ignore (unvmed_unmap_vaddr ops a u))"

subsection \<open>Buffers of a command\<close>

record unvme_buf =
  buf_va :: nat
  buf_len :: u64
  buf_flags :: u32
  iov_base :: nat
  iov_len :: u64

definition zero_buf :: unvme_buf where
  "zero_buf = \<lparr>buf_va = 0, buf_len = 0, buf_flags = 0, iov_base = 0, iov_len = 0\<rparr>"

definition UNVME_CMD_BUF_F_VA_UNMAP :: u32 where
  "UNVME_CMD_BUF_F_VA_UNMAP = push_bit 0 1"

definition UNVME_CMD_BUF_F_IOVA_UNMAP :: u32 where
  "UNVME_CMD_BUF_F_IOVA_UNMAP = push_bit 1 1"

definition unvmed_buf_free ::
  "'m dma_ops \<Rightarrow> unvme_buf \<Rightarrow> ('m, 'z) unvme_dma_scheme
   \<Rightarrow> unit outcome \<times> ('m, 'z) unvme_dma_scheme" where
  "unvmed_buf_free ops buf u =
     (let u1 = (if buf_flags buf AND UNVME_CMD_BUF_F_IOVA_UNMAP \<noteq> 0
                then ignore (unvmed_unmap_vaddr ops (buf_va buf) u) else u) in
      if buf_flags buf AND UNVME_CMD_BUF_F_VA_UNMAP \<noteq> 0 then unvmed_pgunmap (buf_va buf) u1
      else (Ok (), u1))"

text \<open>
  \<open>unvmed_buf_init()\<close> takes its length as a \<open>uint32_t\<close>. Its first part allocates a buffer when
  the caller gives none: the result is the buffer, its length and the flags so far.
\<close>

definition buf_init_alloc ::
  "'m dma_ops \<Rightarrow> nat \<Rightarrow> u32 \<Rightarrow> ('m, 'z) unvme_dma_scheme
   \<Rightarrow> (nat \<times> u32 \<times> u32) outcome \<times> ('m, 'z) unvme_dma_scheme" where
  "buf_init_alloc ops buf len u =
     (if buf = 0 \<and> len \<noteq> 0
      then (case unvmed_pgmap ops (ucast len) u of
              (Ok (a, l), u1) \<Rightarrow> (Ok (a, ucast l, UNVME_CMD_BUF_F_VA_UNMAP), u1)
            | (Fail e, u1) \<Rightarrow> (Fail e, u1)
            | (Fault, u1) \<Rightarrow> (Fault, u1))
      else (Ok (buf, len, 0), u))"

definition unvmed_buf_init ::
  "'m dma_ops \<Rightarrow> nat \<Rightarrow> u32 \<Rightarrow> ('m, 'z) unvme_dma_scheme
   \<Rightarrow> unvme_buf outcome \<times> ('m, 'z) unvme_dma_scheme" where
  "unvmed_buf_init ops buf0 len0 u =
     (case buf_init_alloc ops buf0 len0 u of
        (Fail e, u1) \<Rightarrow> (Fail e, u1)
      | (Fault, u1) \<Rightarrow> (Fault, u1)
      | (Ok (buf, len, fl), u1) \<Rightarrow>
          (let done = (\<lambda>fl. \<lparr>buf_va = buf, buf_len = ucast len, buf_flags = fl,
                             iov_base = buf, iov_len = ucast len\<rparr>) in
           if buf \<noteq> 0 \<and> len \<noteq> 0 \<and> unvmed_to_iova ops buf u1 = None
           then (case unvmed_map_vaddr ops buf (ucast len) 0 u1 of
                   (Ok iova, u2) \<Rightarrow> (Ok (done (fl OR UNVME_CMD_BUF_F_IOVA_UNMAP)), u2)
                 | (Fail e, u2) \<Rightarrow>
                     if fl AND UNVME_CMD_BUF_F_VA_UNMAP \<noteq> 0
                     then (case unvmed_pgunmap buf u2 of
                             (Fault, u3) \<Rightarrow> (Fault, u3)
                           | (_, u3) \<Rightarrow> (Fail e, u3))
                     else (Fail e, u2)
                 | (Fault, u2) \<Rightarrow> (Fault, u2))
           else (Ok (done fl), u1)))"

subsection \<open>Shared buffers\<close>

definition unvmed_mem_alloc_u2 ::
  "'m dma_ops \<Rightarrow> u64 \<Rightarrow> u64 \<Rightarrow> ('m, 'z) unvme_dma_scheme
   \<Rightarrow> iommu_dmabuf outcome \<times> ('m, 'z) unvme_dma_scheme" where
  "unvmed_mem_alloc_u2 ops sz pagesize u =
     (if bdf u = None then (Fail ENODEV, u)
      else case unvmed_pgmap_aligned ops sz pagesize u of
        (Fail e, u1) \<Rightarrow> (Fail e, u1)
      | (Fault, u1) \<Rightarrow> (Fault, u1)
      | (Ok (va, len), u1) \<Rightarrow>
          (case iommu_map_vaddr ops (iommu u1) va len (unvmed_pagesize ops u1) 0 of
             Inl e \<Rightarrow> (case unvmed_pgunmap va u1 of
                         (Fault, u2) \<Rightarrow> (Fault, u2)
                       | (_, u2) \<Rightarrow> (Fail e, u2))
           | Inr (iova, m) \<Rightarrow>
               (Ok \<lparr>db_vaddr = va, db_iova = iova, db_len = len\<rparr>, u1\<lparr>iommu := m\<rparr>)))"

text \<open>\<open>unvmed_mem_add()\<close>; \<open>room\<close> says whether \<open>calloc()\<close> of the list entry succeeds.\<close>

definition unvmed_mem_add ::
  "bool \<Rightarrow> iommu_dmabuf \<Rightarrow> ('m, 'z) unvme_dma_scheme
   \<Rightarrow> unit outcome \<times> ('m, 'z) unvme_dma_scheme" where
  "unvmed_mem_add room buf u =
     (if \<not> room then (Fail ENOMEM, u) else (Ok (), u\<lparr>mem_list := mem_list u @ [buf]\<rparr>))"

definition unvmed_mem_alloc ::
  "'m dma_ops \<Rightarrow> bool \<Rightarrow> u64 \<Rightarrow> u64 \<Rightarrow> ('m, 'z) unvme_dma_scheme
   \<Rightarrow> iommu_dmabuf outcome \<times> ('m, 'z) unvme_dma_scheme" where
  "unvmed_mem_alloc ops room sz pagesize u =
     (case unvmed_mem_alloc_u2 ops sz pagesize u of
        (Ok buf, u1) \<Rightarrow>
          (case unvmed_mem_add room buf u1 of
             (Ok _, u2) \<Rightarrow> (Ok buf, u2)
           | (Fault, u2) \<Rightarrow> (Fault, u2)
           | (Fail e, u2) \<Rightarrow>
               (case unmap_and_free ops (db_vaddr buf) u2 of
                  (Fault, u3) \<Rightarrow> (Fault, u3)
                | (_, u3) \<Rightarrow> (Fail e, u3)))
      | r \<Rightarrow> r)"

text \<open>The test that an I/O address lies in a buffer; the end address wraps at 64 bits.\<close>

definition in_dmabuf :: "u64 \<Rightarrow> iommu_dmabuf \<Rightarrow> bool" where
  "in_dmabuf iova buf \<longleftrightarrow> db_iova buf \<le> iova \<and> iova < db_iova buf + db_len buf"

definition unvmed_mem_get ::
  "u64 \<Rightarrow> ('m, 'z) unvme_dma_scheme \<Rightarrow> iommu_dmabuf outcome" where
  "unvmed_mem_get iova u =
     (case find (in_dmabuf iova) (mem_list u) of None \<Rightarrow> Fail EINVAL | Some b \<Rightarrow> Ok b)"

text \<open>Unlinking the first element that satisfies a test.\<close>

fun remove_first :: "('a \<Rightarrow> bool) \<Rightarrow> 'a list \<Rightarrow> 'a list" where
  "remove_first P [] = []"
| "remove_first P (x # xs) = (if P x then xs else x # remove_first P xs)"

text \<open>\<open>__unvmed_mem_free()\<close> and \<open>unvmed_mem_free()\<close>, which only calls it.\<close>

definition unvmed_mem_free ::
  "'m dma_ops \<Rightarrow> u64 \<Rightarrow> ('m, 'z) unvme_dma_scheme
   \<Rightarrow> unit outcome \<times> ('m, 'z) unvme_dma_scheme" where
  "unvmed_mem_free ops iova u =
     (case find (in_dmabuf iova) (mem_list u) of
        None \<Rightarrow> (Fail EINVAL, u)
      | Some b \<Rightarrow>
          (let u1 = u\<lparr>mem_list := remove_first (in_dmabuf iova) (mem_list u)\<rparr> in
           unmap_and_free ops (db_vaddr b) u1))"

text \<open>\<open>unvmed_free_mem_all()\<close>: its loop takes the first element until the list is empty.\<close>

fun free_mem_loop ::
  "'m dma_ops \<Rightarrow> iommu_dmabuf list \<Rightarrow> ('m, 'z) unvme_dma_scheme
   \<Rightarrow> unit outcome \<times> ('m, 'z) unvme_dma_scheme" where
  "free_mem_loop ops [] u = (Ok (), u\<lparr>mem_list := []\<rparr>)"
| "free_mem_loop ops (b # bs) u =
     (case unmap_and_free ops (db_vaddr b) (u\<lparr>mem_list := bs\<rparr>) of
        (Ok _, u1) \<Rightarrow> free_mem_loop ops bs u1
      | r \<Rightarrow> r)"

definition unvmed_free_mem_all ::
  "'m dma_ops \<Rightarrow> ('m, 'z) unvme_dma_scheme \<Rightarrow> unit outcome \<times> ('m, 'z) unvme_dma_scheme" where
  "unvmed_free_mem_all ops u = free_mem_loop ops (mem_list u) u"

subsection \<open>The controller memory buffer\<close>

definition unvmed_cmb_get_region :: "('m, 'z) unvme_dma_scheme \<Rightarrow> (nat \<times> u64) outcome" where
  "unvmed_cmb_get_region u =
     (if cmb_bar (cmb u) = 0 then Fail EINVAL else Ok (cmb_vaddr (cmb u), cmb_size (cmb u)))"

text \<open>Both sums are 64-bit and wrap.\<close>

definition unvmed_iova_in_cmb :: "u64 \<Rightarrow> u64 \<Rightarrow> ('m, 'z) unvme_dma_scheme \<Rightarrow> bool" where
  "unvmed_iova_in_cmb iova sz u =
     (if cmb_vaddr (cmb u) = 0 then False
      else let cmb_start = cmb_iova (cmb u); cmb_end = cmb_iova (cmb u) + cmb_size (cmb u) in
           iova \<ge> cmb_start \<and> iova + sz \<le> cmb_end)"

definition unvmed_map_iova_to_mem ::
  "'m dma_ops \<Rightarrow> u64 \<Rightarrow> u64 \<Rightarrow> ('m, 'z) unvme_dma_scheme \<Rightarrow> iommu_dmabuf outcome" where
  "unvmed_map_iova_to_mem ops iova sz u =
     (if unvmed_iova_in_cmb iova sz u
      then Ok \<lparr>db_vaddr = cmb_vaddr (cmb u) + unat (iova - cmb_iova (cmb u)),
               db_iova = iova, db_len = sz\<rparr>
      else case unvmed_to_vaddr ops iova u of
             None \<Rightarrow> Fail EINVAL
           | Some (va, len) \<Rightarrow>
               if 0 <s len then Ok \<lparr>db_vaddr = va, db_iova = iova, db_len = sz\<rparr>
               else Fail EINVAL)"

subsection \<open>What the environment promises\<close>

text \<open>
  The documented behaviour of the allocator and of libvfn's IOMMU calls: an allocated block is
  fresh and not \<open>NULL\<close>; a map that succeeds adds the address to \<open>mapped\<close>, the addresses mapped so
  far; exactly a mapped buffer can be unmapped. The laws are about runs in which no address is mapped
  while it is mapped already: libvfn answers such a call with the mapping that exists, which then is
  shared by two users, and what the theorems say about mappings does not extend to that.
\<close>

definition dma_laws :: "'m dma_ops \<Rightarrow> ('m \<Rightarrow> nat set) \<Rightarrow> bool" where
  "dma_laws ops mapped \<longleftrightarrow>
     (\<forall>h p l a. memalign ops h p l = Some a \<longrightarrow> a \<noteq> 0 \<and> a \<notin> h)
     \<and> (\<forall>h l a. calloc ops h l = Some a \<longrightarrow> a \<noteq> 0 \<and> a \<notin> h)
     \<and> (\<forall>m a l p f i m'. iommu_map_vaddr ops m a l p f = Inr (i, m') \<longrightarrow>
           a \<notin> mapped m \<and> mapped m' = insert a (mapped m))
     \<and> (\<forall>m a. a \<in> mapped m \<longrightarrow>
           (\<exists>m'. iommu_unmap_vaddr ops m a = Inr m' \<and> mapped m' = mapped m - {a}))
     \<and> (\<forall>m a. a \<notin> mapped m \<longrightarrow> (\<exists>e. iommu_unmap_vaddr ops m a = Inl e))"

lemma memalign_fresh:
  "dma_laws ops mapped \<Longrightarrow> memalign ops h p l = Some a \<Longrightarrow> a \<noteq> 0 \<and> a \<notin> h"
  by (simp add: dma_laws_def)

lemma calloc_fresh:
  "dma_laws ops mapped \<Longrightarrow> calloc ops h l = Some a \<Longrightarrow> a \<noteq> 0 \<and> a \<notin> h"
  by (simp add: dma_laws_def)

lemma iommu_map_fresh:
  "dma_laws ops mapped \<Longrightarrow> iommu_map_vaddr ops m a l p f = Inr (i, m') \<Longrightarrow>
   a \<notin> mapped m \<and> mapped m' = insert a (mapped m)"
  by (simp add: dma_laws_def)

lemma iommu_unmap_mapped:
  "dma_laws ops mapped \<Longrightarrow> a \<in> mapped m \<Longrightarrow>
   \<exists>m'. iommu_unmap_vaddr ops m a = Inr m' \<and> mapped m' = mapped m - {a}"
  by (simp add: dma_laws_def)

lemma iommu_unmap_unmapped:
  "dma_laws ops mapped \<Longrightarrow> a \<notin> mapped m \<Longrightarrow> \<exists>e. iommu_unmap_vaddr ops m a = Inl e"
  by (simp add: dma_laws_def)

text \<open>The ledger: the blocks allocated and the buffers mapped.\<close>

datatype item = Block nat | Mapping nat

definition ledger :: "('m \<Rightarrow> nat set) \<Rightarrow> ('m, 'z) unvme_dma_scheme \<Rightarrow> item set" where
  "ledger mapped u = Block ` heap u \<union> Mapping ` mapped (iommu u)"

lemma Block_image [simp]: "Block a \<in> Block ` A \<longleftrightarrow> a \<in> A" "Block a \<notin> Mapping ` A"
  by auto

lemma Mapping_image [simp]: "Mapping a \<in> Mapping ` A \<longleftrightarrow> a \<in> A" "Mapping a \<notin> Block ` A"
  by auto

text \<open>Two controllers that differ in the heap and the IOMMU only.\<close>

definition dma_frame ::
  "('m, 'z) unvme_dma_scheme \<Rightarrow> ('m, 'z) unvme_dma_scheme \<Rightarrow> bool" where
  "dma_frame u u' \<longleftrightarrow> u' = u\<lparr>heap := heap u', iommu := iommu u'\<rparr>"

lemma dma_same [simp]: "u\<lparr>heap := heap u\<rparr> = u" "u\<lparr>iommu := iommu u\<rparr> = u"
  by (cases u, simp)+

lemma dma_frame_upd [simp]:
  "dma_frame u u" "dma_frame u (u\<lparr>heap := h\<rparr>)" "dma_frame u (u\<lparr>iommu := m\<rparr>)"
  "dma_frame u (u\<lparr>heap := h, iommu := m\<rparr>)" "dma_frame u (u\<lparr>iommu := m, heap := h\<rparr>)"
  by (cases u, simp add: dma_frame_def)+

lemma dma_frame_fields:
  "dma_frame u u' \<Longrightarrow> bdf u' = bdf u \<and> mps u' = mps u \<and> cmb u' = cmb u \<and> mem_list u' = mem_list u
     \<and> hmb u' = hmb u \<and> unvme_dma.more u' = unvme_dma.more u"
  by (cases u; cases u') (simp add: dma_frame_def)

lemma dma_frame_trans: "dma_frame u v \<Longrightarrow> dma_frame v w \<Longrightarrow> dma_frame u w"
  by (cases u; cases v; cases w) (simp add: dma_frame_def)

text \<open>The steps that the operations are made of.\<close>

lemma pgmap_aligned_ok:
  assumes "dma_laws ops mapped" and "unvmed_pgmap_aligned ops sz ps u = (Ok (a, len), u')"
  shows "a \<noteq> 0 \<and> Block a \<notin> ledger mapped u \<and> ledger mapped u' = insert (Block a) (ledger mapped u)
    \<and> len = align_up ops sz ps \<and> u' = u\<lparr>heap := insert a (heap u)\<rparr>"
  using assms
  by (auto simp: unvmed_pgmap_aligned_def Let_def ledger_def dest: memalign_fresh
        split: option.splits)

lemma pgmap_aligned_cases:
  obtains e where "unvmed_pgmap_aligned ops sz ps u = (Fail e, u)"
  | a l u' where "unvmed_pgmap_aligned ops sz ps u = (Ok (a, l), u')"
  by (cases "memalign ops (heap u) ps (align_up ops sz ps)")
     (auto simp: unvmed_pgmap_aligned_def Let_def)

lemma pgunmap_ok:
  assumes "Block a \<in> ledger mapped u" and "a \<noteq> 0"
  shows "unvmed_pgunmap a u = (Ok (), u\<lparr>heap := heap u - {a}\<rparr>)
    \<and> ledger mapped (u\<lparr>heap := heap u - {a}\<rparr>) = ledger mapped u - {Block a}"
  using assms by (auto simp: unvmed_pgunmap_def ledger_def)

lemma map_vaddr_cases:
  assumes "dma_laws ops mapped"
  obtains e where "unvmed_map_vaddr ops a len fl u = (Fail e, u)"
  | i m where "unvmed_map_vaddr ops a len fl u = (Ok i, u\<lparr>iommu := m\<rparr>)"
      and "Mapping a \<notin> ledger mapped u"
      and "ledger mapped (u\<lparr>iommu := m\<rparr>) = insert (Mapping a) (ledger mapped u)"
proof (cases "bdf u = None")
  case False
  show ?thesis
  proof (cases "iommu_map_vaddr ops (iommu u) a len (unvmed_pagesize ops u) fl")
    case (Inr im)
    then obtain i m where im: "im = (i, m)" by fastforce
    with Inr iommu_map_fresh [OF assms, of "iommu u" a] have "a \<notin> mapped (iommu u)"
      "mapped m = insert a (mapped (iommu u))" by auto
    with Inr im False that(2) [of i m] show ?thesis
      by (auto simp: unvmed_map_vaddr_def ledger_def)
  next
    case (Inl e)
    with False have "unvmed_map_vaddr ops a len fl u = (Fail e, u)"
      by (auto simp: unvmed_map_vaddr_def)
    then show ?thesis by (rule that(1))
  qed
next
  case True
  then have "unvmed_map_vaddr ops a len fl u = (Fail ENODEV, u)"
    by (simp add: unvmed_map_vaddr_def)
  then show ?thesis by (rule that(1))
qed

lemma unmap_vaddr_ok:
  assumes "dma_laws ops mapped" and "bdf u \<noteq> None" and "Mapping a \<in> ledger mapped u"
  shows "\<exists>m. unvmed_unmap_vaddr ops a u = (Ok (), u\<lparr>iommu := m\<rparr>)
    \<and> ledger mapped (u\<lparr>iommu := m\<rparr>) = ledger mapped u - {Mapping a}"
proof -
  have "a \<in> mapped (iommu u)" using assms(3) by (simp add: ledger_def)
  then obtain m where "iommu_unmap_vaddr ops (iommu u) a = Inr m"
    "mapped m = mapped (iommu u) - {a}"
    using iommu_unmap_mapped [OF assms(1)] by blast
  with assms(2) show ?thesis by (auto simp: unvmed_unmap_vaddr_def ledger_def)
qed

lemma unmap_and_free_ok:
  assumes "dma_laws ops mapped" and "bdf u \<noteq> None" and "a \<noteq> 0"
    and "Mapping a \<in> ledger mapped u" and "Block a \<in> ledger mapped u"
  shows "\<exists>u'. unmap_and_free ops a u = (Ok (), u') \<and> dma_frame u u'
    \<and> ledger mapped u' = ledger mapped u - {Mapping a, Block a}"
proof -
  obtain m where m: "unvmed_unmap_vaddr ops a u = (Ok (), u\<lparr>iommu := m\<rparr>)"
    "ledger mapped (u\<lparr>iommu := m\<rparr>) = ledger mapped u - {Mapping a}"
    using unmap_vaddr_ok [OF assms(1,2,4)] by blast
  with pgunmap_ok [of a mapped "u\<lparr>iommu := m\<rparr>"] assms(3,5) show ?thesis
    by (auto simp: ignore_def unmap_and_free_def)
qed

subsection \<open>Buffers as resources\<close>

text \<open>
  The state of the interface is the environment together with the controller: a controller that
  is attached, in an environment that keeps its promises.
\<close>

type_synonym ('m, 'z) dma_state =
  "'m dma_ops \<times> ('m \<Rightarrow> nat set) \<times> ('m, 'z) unvme_dma_scheme"

definition dma_wf :: "('m, 'z) dma_state \<Rightarrow> bool" where
  "dma_wf = (\<lambda>(ops, mapped, u). dma_laws ops mapped \<and> bdf u \<noteq> None \<and> 0 \<notin> heap u)"

definition dma_live :: "('m, 'z) dma_state \<Rightarrow> item set" where
  "dma_live = (\<lambda>(ops, mapped, u). ledger mapped u)"

definition with_dma ::
  "('m dma_ops \<Rightarrow> ('m, 'z) unvme_dma_scheme \<Rightarrow> 'a outcome \<times> ('m, 'z) unvme_dma_scheme)
   \<Rightarrow> ('m, 'z) dma_state \<Rightarrow> 'a outcome \<times> ('m, 'z) dma_state" where
  "with_dma f = (\<lambda>(ops, mapped, u). case f ops u of (r, u') \<Rightarrow> (r, ops, mapped, u'))"

text \<open>What a command buffer owns, by its flags.\<close>

definition buf_owns :: "unvme_buf \<Rightarrow> item set" where
  "buf_owns b =
     (if buf_flags b AND UNVME_CMD_BUF_F_VA_UNMAP \<noteq> 0 then {Block (buf_va b)} else {})
     \<union> (if buf_flags b AND UNVME_CMD_BUF_F_IOVA_UNMAP \<noteq> 0 then {Mapping (buf_va b)} else {})"

definition buf_ok :: "unvme_buf \<Rightarrow> bool" where
  "buf_ok b \<longleftrightarrow> (buf_flags b AND UNVME_CMD_BUF_F_VA_UNMAP \<noteq> 0 \<longrightarrow> buf_va b \<noteq> 0)"

lemma buf_flag_simps [simp]:
  "UNVME_CMD_BUF_F_VA_UNMAP \<noteq> 0" "UNVME_CMD_BUF_F_IOVA_UNMAP \<noteq> 0"
  "UNVME_CMD_BUF_F_VA_UNMAP AND UNVME_CMD_BUF_F_VA_UNMAP \<noteq> 0"
  "UNVME_CMD_BUF_F_VA_UNMAP AND UNVME_CMD_BUF_F_IOVA_UNMAP = 0"
  "UNVME_CMD_BUF_F_IOVA_UNMAP AND UNVME_CMD_BUF_F_VA_UNMAP = 0"
  "UNVME_CMD_BUF_F_IOVA_UNMAP AND UNVME_CMD_BUF_F_IOVA_UNMAP \<noteq> 0"
  "(UNVME_CMD_BUF_F_VA_UNMAP OR UNVME_CMD_BUF_F_IOVA_UNMAP) AND UNVME_CMD_BUF_F_VA_UNMAP \<noteq> 0"
  "(UNVME_CMD_BUF_F_VA_UNMAP OR UNVME_CMD_BUF_F_IOVA_UNMAP) AND UNVME_CMD_BUF_F_IOVA_UNMAP \<noteq> 0"
  by (simp_all add: UNVME_CMD_BUF_F_VA_UNMAP_def UNVME_CMD_BUF_F_IOVA_UNMAP_def)

lemma buf_init_alloc_ok:
  assumes "dma_laws ops mapped" and "buf_init_alloc ops b l u = (Ok (a, n, fl), u')"
  shows "fl = 0 \<and> u' = u \<or>
    fl = UNVME_CMD_BUF_F_VA_UNMAP \<and> a \<noteq> 0 \<and> Block a \<notin> ledger mapped u
      \<and> u' = u\<lparr>heap := insert a (heap u)\<rparr>
      \<and> ledger mapped u' = insert (Block a) (ledger mapped u)"
proof (cases "b = 0 \<and> l \<noteq> 0")
  case True
  with assms(2) obtain k where
    "unvmed_pgmap_aligned ops (ucast l) (unvmed_pagesize ops u) u = (Ok (a, k), u')"
    and "fl = UNVME_CMD_BUF_F_VA_UNMAP"
    by (auto simp: buf_init_alloc_def unvmed_pgmap_def split: prod.splits outcome.splits)
  with pgmap_aligned_ok [OF assms(1)] show ?thesis by blast
qed (use assms(2) in \<open>auto simp: buf_init_alloc_def\<close>)

lemma buf_init_alloc_fail:
  "buf_init_alloc ops b l u = (Fail e, u') \<Longrightarrow> u' = u"
  "fst (buf_init_alloc ops b l u) \<noteq> Fault"
  by (auto simp: buf_init_alloc_def unvmed_pgmap_def unvmed_pgmap_aligned_def Let_def
        split: if_splits option.splits)

text \<open>
  The outcome of \<open>unvmed_buf_init()\<close>: it fails and leaves the controller as it was, or the
  ledger gains exactly what the new buffer owns.
\<close>

lemma buf_init_spec:
  assumes "dma_laws ops mapped"
  shows "case unvmed_buf_init ops b l u of
      (Ok ub, u') \<Rightarrow> buf_ok ub \<and> buf_owns ub \<inter> ledger mapped u = {}
        \<and> ledger mapped u' = ledger mapped u \<union> buf_owns ub
        \<and> dma_frame u u'
    | (Fail e, u') \<Rightarrow> u' = u
    | (Fault, _) \<Rightarrow> False"
proof -
  obtain out u1 where alloc: "buf_init_alloc ops b l u = (out, u1)" by fastforce
  show ?thesis
  proof (cases out)
    case (Fail e)
    with alloc buf_init_alloc_fail(1) [of ops b l u] show ?thesis by (simp add: unvmed_buf_init_def)
  next
    case Fault
    with alloc buf_init_alloc_fail(2) [of ops b l u] show ?thesis by simp
  next
    case (Ok r)
    then obtain a n fl where r: "out = Ok (a, n, fl)" by (cases r) auto
    note got = buf_init_alloc_ok [OF assms, of b l u a n fl u1]
    from alloc r got consider
        (given) "fl = 0" "u1 = u"
      | (fresh) "fl = UNVME_CMD_BUF_F_VA_UNMAP" "a \<noteq> 0" "Block a \<notin> ledger mapped u"
          "u1 = u\<lparr>heap := insert a (heap u)\<rparr>"
          "ledger mapped u1 = insert (Block a) (ledger mapped u)" by auto
    then show ?thesis
    proof cases
      case given
      show ?thesis
        by (rule map_vaddr_cases [OF assms, of a "ucast n" 0 u])
           (use alloc r given in \<open>auto simp: unvmed_buf_init_def Let_def buf_ok_def buf_owns_def\<close>)
    next
      case fresh
      show ?thesis
        by (rule map_vaddr_cases [OF assms, of a "ucast n" 0 u1])
           (use alloc r fresh in \<open>auto simp: unvmed_buf_init_def Let_def buf_ok_def buf_owns_def
              unvmed_pgunmap_def ledger_def\<close>)
    qed
  qed
qed

lemma buf_free_spec:
  assumes "dma_laws ops mapped" and "bdf u \<noteq> None" and "buf_ok b"
    and "buf_owns b \<subseteq> ledger mapped u"
  shows "\<exists>u'. unvmed_buf_free ops b u = (Ok (), u') \<and> dma_frame u u'
    \<and> ledger mapped u' = ledger mapped u - buf_owns b"
proof -
  obtain m where m: "(if buf_flags b AND UNVME_CMD_BUF_F_IOVA_UNMAP \<noteq> 0
      then ignore (unvmed_unmap_vaddr ops (buf_va b) u) else u) = u\<lparr>iommu := m\<rparr>"
    and led: "ledger mapped (u\<lparr>iommu := m\<rparr>) = ledger mapped u -
      (if buf_flags b AND UNVME_CMD_BUF_F_IOVA_UNMAP \<noteq> 0 then {Mapping (buf_va b)} else {})"
  proof (cases "buf_flags b AND UNVME_CMD_BUF_F_IOVA_UNMAP \<noteq> 0")
    case True
    then have "Mapping (buf_va b) \<in> ledger mapped u" using assms(4) by (auto simp: buf_owns_def)
    from unmap_vaddr_ok [OF assms(1,2) this] True that show ?thesis by (auto simp: ignore_def)
  qed (use that [of "iommu u"] in simp)
  show ?thesis
  proof (cases "buf_flags b AND UNVME_CMD_BUF_F_VA_UNMAP \<noteq> 0")
    case True
    then have "Block (buf_va b) \<in> ledger mapped (u\<lparr>iommu := m\<rparr>)" "buf_va b \<noteq> 0"
      using assms(3,4) led by (auto simp: buf_owns_def buf_ok_def)
    from pgunmap_ok [OF this] True m led show ?thesis
      by (auto simp: unvmed_buf_free_def Let_def buf_owns_def)
  next
    case False
    with m led show ?thesis
      by (auto simp: unvmed_buf_free_def Let_def buf_owns_def)
  qed
qed

lemma Block_0_ledger: "Block 0 \<in> ledger mapped u \<longleftrightarrow> 0 \<in> heap u"
  by (simp add: ledger_def)

lemma buf_ok_owned: "buf_owns b \<subseteq> ledger mapped u \<Longrightarrow> 0 \<notin> heap u \<Longrightarrow> buf_ok b"
  by (cases "buf_va b = 0") (auto simp: buf_owns_def buf_ok_def ledger_def split: if_splits)

lemma buf_ok_zero: "buf_ok b \<Longrightarrow> Block 0 \<notin> buf_owns b"
  by (auto simp: buf_ok_def buf_owns_def)

definition buf_acquire ::
  "nat \<times> u32 \<Rightarrow> ('m, 'z) dma_state \<Rightarrow> unvme_buf outcome \<times> ('m, 'z) dma_state" where
  "buf_acquire = (\<lambda>(b, l). with_dma (\<lambda>ops. unvmed_buf_init ops b l))"

definition buf_release :: "unvme_buf \<Rightarrow> ('m, 'z) dma_state \<Rightarrow> unit outcome \<times> ('m, 'z) dma_state"
  where "buf_release b = with_dma (\<lambda>ops. unvmed_buf_free ops b)"

lemma dma_wfE:
  assumes "dma_wf s"
  obtains ops mapped u where "s = (ops, mapped, u)" and "dma_laws ops mapped" and "bdf u \<noteq> None"
    and "0 \<notin> heap u"
  using assms by (cases s) (auto simp: dma_wf_def)

lemma dma_wf_frame:
  "dma_wf (ops, mapped, u) \<Longrightarrow> dma_frame u u' \<Longrightarrow> Block 0 \<notin> ledger mapped u' \<Longrightarrow>
   dma_wf (ops, mapped, u')"
  by (auto simp: dma_wf_def ledger_def dest: dma_frame_fields)

lemma buf_acquire_spec:
  assumes "dma_wf s"
  shows "case buf_acquire a s of
      (Ok r, s') \<Rightarrow> dma_wf s' \<and> buf_owns r \<inter> dma_live s = {} \<and> dma_live s' = dma_live s \<union> buf_owns r
    | (Fail e, s') \<Rightarrow> s' = s
    | (Fault, _) \<Rightarrow> False"
proof -
  from assms obtain ops mapped u where s: "s = (ops, mapped, u)" and laws: "dma_laws ops mapped"
    and "0 \<notin> heap u" by (elim dma_wfE)
  obtain b l where a: "a = (b, l)" by fastforce
  obtain out u' where out: "unvmed_buf_init ops b l u = (out, u')" by fastforce
  note spec = buf_init_spec [OF laws, where b = b and l = l and u = u, unfolded out]
  have zero: "Block 0 \<notin> ledger mapped u" using \<open>0 \<notin> heap u\<close> by (simp add: Block_0_ledger)
  show ?thesis
    using spec out zero dma_wf_frame [OF assms [unfolded s], of u']
    by (cases out) (auto simp: s a buf_acquire_def with_dma_def dma_live_def dest: buf_ok_zero)
qed

lemma buf_release_spec:
  assumes "dma_wf s" and "buf_owns r \<subseteq> dma_live s"
  shows "\<exists>s'. buf_release r s = (Ok (), s') \<and> dma_wf s' \<and> dma_live s' = dma_live s - buf_owns r"
proof -
  from assms(1) obtain ops mapped u where s: "s = (ops, mapped, u)" and laws: "dma_laws ops mapped"
    and "bdf u \<noteq> None" and "0 \<notin> heap u" by (elim dma_wfE)
  have own: "buf_owns r \<subseteq> ledger mapped u" using assms(2) by (simp add: s dma_live_def)
  obtain u' where u': "unvmed_buf_free ops r u = (Ok (), u')" "dma_frame u u'"
    "ledger mapped u' = ledger mapped u - buf_owns r"
    using buf_free_spec [OF laws \<open>bdf u \<noteq> None\<close> buf_ok_owned [OF own \<open>0 \<notin> heap u\<close>] own] by blast
  have "Block 0 \<notin> ledger mapped u'" using u'(3) \<open>0 \<notin> heap u\<close> by (simp add: Block_0_ledger)
  with dma_wf_frame [OF assms(1) [unfolded s] u'(2)] u' show ?thesis
    by (auto simp: s buf_release_def with_dma_def dma_live_def)
qed

interpretation bufs: resource buf_acquire buf_release buf_owns dma_live dma_wf
proof
  show "fst (buf_acquire a s) \<noteq> Fault" if "dma_wf s" for a s
    using buf_acquire_spec [OF that, of a] by (auto split: prod.splits)
  show "dma_wf s' \<and> buf_owns r \<inter> dma_live s = {} \<and> dma_live s' = dma_live s \<union> buf_owns r"
    if "dma_wf s" "buf_acquire a s = (Ok r, s')" for a s r s'
    using buf_acquire_spec [OF that(1), of a] that(2) by simp
  show "dma_wf s' \<and> dma_live s' = dma_live s"
    if "dma_wf s" "buf_acquire a s = (Fail e, s')" for a s e s'
    using buf_acquire_spec [OF that(1), of a] that by simp
qed (rule buf_release_spec)

text \<open>A shared buffer owns its block and its mapping.\<close>

definition dmabuf_owns :: "iommu_dmabuf \<Rightarrow> item set" where
  "dmabuf_owns b = {Block (db_vaddr b), Mapping (db_vaddr b)}"

lemma mem_alloc_u2_spec:
  assumes "dma_laws ops mapped"
  shows "case unvmed_mem_alloc_u2 ops sz ps u of
      (Ok b, u') \<Rightarrow> db_vaddr b \<noteq> 0 \<and> dmabuf_owns b \<inter> ledger mapped u = {}
        \<and> ledger mapped u' = ledger mapped u \<union> dmabuf_owns b \<and> dma_frame u u'
        \<and> db_len b = align_up ops sz ps
    | (Fail e, u') \<Rightarrow> u' = u
    | (Fault, _) \<Rightarrow> False"
proof (cases "bdf u")
  case (Some x)
  show ?thesis
  proof (cases rule: pgmap_aligned_cases [of ops sz ps u])
    case (2 a l u1)
    note got = pgmap_aligned_ok [OF assms 2]
    show ?thesis
    proof (cases "iommu_map_vaddr ops (iommu u1) a l (unvmed_pagesize ops u1) 0")
      case (Inl e)
      with 2 Some got show ?thesis
        by (auto simp: unvmed_mem_alloc_u2_def unvmed_pgunmap_def ledger_def)
    next
      case (Inr im)
      then obtain i m where im: "im = (i, m)" by fastforce
      with Inr iommu_map_fresh [OF assms, of "iommu u1" a] have "a \<notin> mapped (iommu u1)"
        "mapped m = insert a (mapped (iommu u1))" by auto
      with Inr im 2 Some got show ?thesis
        by (auto simp: unvmed_mem_alloc_u2_def ledger_def dmabuf_owns_def)
    qed
  qed (simp add: unvmed_mem_alloc_u2_def Some)
qed (simp add: unvmed_mem_alloc_u2_def)

definition dmabuf_acquire ::
  "u64 \<times> u64 \<Rightarrow> ('m, 'z) dma_state \<Rightarrow> iommu_dmabuf outcome \<times> ('m, 'z) dma_state" where
  "dmabuf_acquire = (\<lambda>(sz, ps). with_dma (\<lambda>ops. unvmed_mem_alloc_u2 ops sz ps))"

definition dmabuf_release ::
  "iommu_dmabuf \<Rightarrow> ('m, 'z) dma_state \<Rightarrow> unit outcome \<times> ('m, 'z) dma_state" where
  "dmabuf_release b = with_dma (\<lambda>ops. unmap_and_free ops (db_vaddr b))"

lemma dmabuf_acquire_spec:
  assumes "dma_wf s"
  shows "case dmabuf_acquire a s of
      (Ok r, s') \<Rightarrow> dma_wf s' \<and> dmabuf_owns r \<inter> dma_live s = {}
        \<and> dma_live s' = dma_live s \<union> dmabuf_owns r
    | (Fail e, s') \<Rightarrow> s' = s
    | (Fault, _) \<Rightarrow> False"
proof -
  from assms obtain ops mapped u where s: "s = (ops, mapped, u)" and laws: "dma_laws ops mapped"
    and "0 \<notin> heap u" by (elim dma_wfE)
  obtain sz ps where a: "a = (sz, ps)" by fastforce
  obtain out u' where out: "unvmed_mem_alloc_u2 ops sz ps u = (out, u')" by fastforce
  note spec = mem_alloc_u2_spec [OF laws, where sz = sz and ps = ps and u = u, unfolded out]
  have zero: "Block 0 \<notin> ledger mapped u" using \<open>0 \<notin> heap u\<close> by (simp add: Block_0_ledger)
  show ?thesis
    using spec out zero dma_wf_frame [OF assms [unfolded s], of u']
    by (cases out) (auto simp: s a dmabuf_acquire_def with_dma_def dma_live_def dmabuf_owns_def)
qed

lemma dmabuf_release_spec:
  assumes "dma_wf s" and "dmabuf_owns r \<subseteq> dma_live s"
  shows "\<exists>s'. dmabuf_release r s = (Ok (), s') \<and> dma_wf s'
    \<and> dma_live s' = dma_live s - dmabuf_owns r"
proof -
  from assms(1) obtain ops mapped u where s: "s = (ops, mapped, u)" and laws: "dma_laws ops mapped"
    and "bdf u \<noteq> None" and "0 \<notin> heap u" by (elim dma_wfE)
  have own: "Mapping (db_vaddr r) \<in> ledger mapped u" "Block (db_vaddr r) \<in> ledger mapped u"
    using assms(2) by (auto simp: s dma_live_def dmabuf_owns_def)
  have "db_vaddr r \<noteq> 0" using own(2) \<open>0 \<notin> heap u\<close> by (metis Block_0_ledger)
  then obtain u' where u': "unmap_and_free ops (db_vaddr r) u = (Ok (), u')" "dma_frame u u'"
    "ledger mapped u' = ledger mapped u - {Mapping (db_vaddr r), Block (db_vaddr r)}"
    using unmap_and_free_ok [OF laws \<open>bdf u \<noteq> None\<close> _ own] by blast
  have "Block 0 \<notin> ledger mapped u'" using u'(3) \<open>0 \<notin> heap u\<close> by (simp add: Block_0_ledger)
  with dma_wf_frame [OF assms(1) [unfolded s] u'(2)] u' show ?thesis
    by (auto simp: s dmabuf_release_def with_dma_def dma_live_def dmabuf_owns_def)
qed

interpretation dmabufs: resource dmabuf_acquire dmabuf_release dmabuf_owns dma_live dma_wf
proof
  show "fst (dmabuf_acquire a s) \<noteq> Fault" if "dma_wf s" for a s
    using dmabuf_acquire_spec [OF that, of a] by (auto split: prod.splits)
  show "dma_wf s' \<and> dmabuf_owns r \<inter> dma_live s = {} \<and> dma_live s' = dma_live s \<union> dmabuf_owns r"
    if "dma_wf s" "dmabuf_acquire a s = (Ok r, s')" for a s r s'
    using dmabuf_acquire_spec [OF that(1), of a] that(2) by simp
  show "dma_wf s' \<and> dma_live s' = dma_live s"
    if "dma_wf s" "dmabuf_acquire a s = (Fail e, s')" for a s e s'
    using dmabuf_acquire_spec [OF that(1), of a] that by simp
qed (rule dmabuf_release_spec)

subsection \<open>Properties\<close>

text \<open>
  A concrete environment: pages of 4096 bytes, at most three blocks, and an IOMMU that maps the
  address of a buffer to itself.
\<close>

definition sample_ops :: "nat set dma_ops" where
  "sample_ops = \<lparr>
     mps_to_pagesize = (\<lambda>mps. push_bit (12 + unat mps) 1),
     align_up = (\<lambda>x a. (x + a - 1) div a * a),
     memalign = (\<lambda>h p l. if 4096 \<notin> h then Some 4096 else if 8192 \<notin> h then Some 8192 else None),
     calloc = (\<lambda>h l. if 64 \<notin> h then Some 64 else None),
     iommu_translate_vaddr = (\<lambda>m a. if a \<in> m then Some (word_of_nat a) else None),
     iommu_translate_iova = (\<lambda>m i. if unat i \<in> m then Some (unat i, 4096) else None),
     iommu_map_vaddr = (\<lambda>m a l p f. if a \<in> m then Inl EEXIST else Inr (word_of_nat a, insert a m)),
     iommu_unmap_vaddr = (\<lambda>m a. if a \<in> m then Inr (m - {a}) else Inl ENOENT)\<rparr>"

definition sample_dma :: "nat set unvme_dma" where
  "sample_dma = \<lparr>bdf = Some ''0000:01:00.0'', mps = 0, heap = {}, iommu = {},
     cmb = \<lparr>cmb_bar = 2, cmb_vaddr = 65536, cmb_iova = 0x1000, cmb_size = 0x1000\<rparr>,
     mem_list = [], hmb = zero_hmb\<rparr>"

lemma sample_ops_laws: "dma_laws sample_ops id"
  by (auto simp: dma_laws_def sample_ops_def split: if_splits)

text \<open>C3. Whatever sequence of buffer initialisations and releases the commands of an attached
  controller make, no release frees or unmaps something twice, every buffer owns its memory and
  its mapping alone, and the memory and mappings in use are those at the start and those of the
  buffers not yet released: nothing leaks, on the error paths included.
\<close>

theorem command_buffers_balanced:
  assumes "dma_wf (ops, mapped, u)"
  shows "\<exists>s held. res_run buf_acquire buf_release script ((ops, mapped, u), []) = Some (s, held)
    \<and> dma_live s = ledger mapped u \<union> (\<Union>b\<in>set held. buf_owns b)
    \<and> ledger mapped u \<inter> (\<Union>b\<in>set held. buf_owns b) = {}"
  using bufs.run_balanced [OF assms, of script] by (force simp: dma_live_def bufs.owned_def)

theorem command_buffers_balanced_witness:
  "\<exists>s held. res_run buf_acquire buf_release [Get (0, 512), Get (8192, 512), Put 1, Put 0]
       ((sample_ops, id, sample_dma), []) = Some (s, held)
    \<and> dma_live s = ledger id sample_dma \<union> (\<Union>b\<in>set held. buf_owns b)"
proof -
  have "dma_wf (sample_ops, id, sample_dma)"
    using sample_ops_laws by (simp add: dma_wf_def sample_dma_def)
  from command_buffers_balanced [OF this, of "[Get (0, 512), Get (8192, 512), Put 1, Put 0]"]
  show ?thesis by blast
qed

lemma find_append_none: "(\<forall>x\<in>set xs. \<not> P x) \<Longrightarrow> find P (xs @ ys) = find P ys"
  by (induction xs) auto

lemma remove_first_append:
  "(\<forall>x\<in>set xs. \<not> P x) \<Longrightarrow> remove_first P (xs @ ys) = xs @ remove_first P ys"
  by (induction xs) auto

text \<open>A shared buffer that was allocated is found by every I/O address inside it, and freeing
  it by such an address gives back its memory and its mapping and restores the list, as long as
  no older buffer covers the address.
\<close>

theorem mem_alloc_free_roundtrip:
  assumes "dma_laws ops mapped" and "bdf u \<noteq> None"
    and "unvmed_mem_alloc ops True sz ps u = (Ok b, u1)"
    and "in_dmabuf i b" and "\<forall>c\<in>set (mem_list u). \<not> in_dmabuf i c"
  shows "unvmed_mem_get i u1 = Ok b
    \<and> (\<exists>u2. unvmed_mem_free ops i u1 = (Ok (), u2) \<and> mem_list u2 = mem_list u
         \<and> ledger mapped u2 = ledger mapped u)"
proof -
  obtain v where v: "unvmed_mem_alloc_u2 ops sz ps u = (Ok b, v)"
    and u1: "u1 = v\<lparr>mem_list := mem_list v @ [b]\<rparr>"
    using assms(3) by (auto simp: unvmed_mem_alloc_def unvmed_mem_add_def split: prod.splits outcome.splits)
  have fresh: "db_vaddr b \<noteq> 0" "dmabuf_owns b \<inter> ledger mapped u = {}"
    "ledger mapped v = ledger mapped u \<union> dmabuf_owns b" "dma_frame u v"
    using mem_alloc_u2_spec [OF assms(1), where u = u and sz = sz and ps = ps] v by auto
  have list: "mem_list v = mem_list u" "bdf v = bdf u" using dma_frame_fields [OF fresh(4)] by auto
  let ?w = "v\<lparr>mem_list := mem_list u\<rparr>"
  have led: "ledger mapped ?w = ledger mapped v" by (simp add: ledger_def)
  then obtain u2 where u2: "unmap_and_free ops (db_vaddr b) ?w = (Ok (), u2)" "dma_frame ?w u2"
    "ledger mapped u2 = ledger mapped ?w - {Mapping (db_vaddr b), Block (db_vaddr b)}"
    using unmap_and_free_ok [OF assms(1), of ?w "db_vaddr b"] assms(2) list fresh(1,3)
    by (auto simp: dmabuf_owns_def)
  have "mem_list u2 = mem_list u" using dma_frame_fields [OF u2(2)] by simp
  moreover have "ledger mapped u2 = ledger mapped u"
    using u2(3) led fresh(2,3) by (auto simp: dmabuf_owns_def)
  ultimately show ?thesis
    using assms(4,5) u1 u2(1) list
    by (simp add: unvmed_mem_get_def unvmed_mem_free_def find_append_none remove_first_append)
qed

lemma sample_mem_alloc:
  "\<exists>b u1. unvmed_mem_alloc sample_ops True 100 4096 sample_dma = (Ok b, u1) \<and> in_dmabuf 5000 b"
  by (simp add: unvmed_mem_alloc_def unvmed_mem_alloc_u2_def unvmed_pgmap_aligned_def
      sample_ops_def sample_dma_def unvmed_mem_add_def in_dmabuf_def)

theorem mem_alloc_free_roundtrip_witness:
  "\<exists>b u1 u2. unvmed_mem_alloc sample_ops True 100 4096 sample_dma = (Ok b, u1)
     \<and> unvmed_mem_get 5000 u1 = Ok b \<and> unvmed_mem_free sample_ops 5000 u1 = (Ok (), u2)
     \<and> ledger id u2 = ledger id sample_dma"
proof -
  obtain b u1 where b: "unvmed_mem_alloc sample_ops True 100 4096 sample_dma = (Ok b, u1)"
    "in_dmabuf 5000 b" using sample_mem_alloc by blast
  have "bdf sample_dma \<noteq> None" "\<forall>c\<in>set (mem_list sample_dma). \<not> in_dmabuf 5000 c"
    by (simp_all add: sample_dma_def)
  from mem_alloc_free_roundtrip [OF sample_ops_laws this(1) b this(2)] b show ?thesis by blast
qed

text \<open>The buffers of the list own what they hold, each its own.\<close>

definition mem_list_wf :: "('m \<Rightarrow> nat set) \<Rightarrow> ('m, 'z) unvme_dma_scheme \<Rightarrow> bool" where
  "mem_list_wf mapped u \<longleftrightarrow> distinct (map db_vaddr (mem_list u))
     \<and> (\<forall>b\<in>set (mem_list u). db_vaddr b \<noteq> 0 \<and> dmabuf_owns b \<subseteq> ledger mapped u)"

lemma free_mem_loop_ok:
  assumes "dma_laws ops mapped" and "bdf u \<noteq> None" and "distinct (map db_vaddr bs)"
    and "\<forall>b\<in>set bs. db_vaddr b \<noteq> 0 \<and> dmabuf_owns b \<subseteq> ledger mapped u"
  shows "\<exists>u'. free_mem_loop ops bs u = (Ok (), u') \<and> mem_list u' = []
    \<and> ledger mapped u' = ledger mapped u - (\<Union>b\<in>set bs. dmabuf_owns b)"
  using assms(2-)
proof (induction bs arbitrary: u)
  case Nil
  then show ?case by (simp add: ledger_def)
next
  case (Cons b bs)
  let ?u = "u\<lparr>mem_list := bs\<rparr>"
  have led: "ledger mapped ?u = ledger mapped u" by (simp add: ledger_def)
  with Cons.prems obtain u1 where u1: "unmap_and_free ops (db_vaddr b) ?u = (Ok (), u1)"
    "dma_frame ?u u1" "ledger mapped u1 = ledger mapped u - dmabuf_owns b"
    using unmap_and_free_ok [OF assms(1), of ?u "db_vaddr b"]
    by (auto simp: dmabuf_owns_def insert_commute)
  have "bdf u1 \<noteq> None" using dma_frame_fields [OF u1(2)] Cons.prems(1) by simp
  moreover have "\<forall>c\<in>set bs. db_vaddr c \<noteq> 0 \<and> dmabuf_owns c \<subseteq> ledger mapped u1"
  proof
    fix c assume c: "c \<in> set bs"
    then have "db_vaddr c \<noteq> db_vaddr b" using Cons.prems(2) by (auto simp: image_iff)
    then show "db_vaddr c \<noteq> 0 \<and> dmabuf_owns c \<subseteq> ledger mapped u1"
      using c Cons.prems(3) u1(3) by (auto simp: dmabuf_owns_def)
  qed
  ultimately obtain u' where "free_mem_loop ops bs u1 = (Ok (), u')" "mem_list u' = []"
    "ledger mapped u' = ledger mapped u1 - (\<Union>b\<in>set bs. dmabuf_owns b)"
    using Cons.IH [of u1] Cons.prems(2) by auto
  with u1 show ?case by auto
qed

text \<open>
  Releasing all shared buffers at teardown gives back exactly what they own and empties the list.
\<close>

lemma free_mem_all_ok:
  assumes "dma_laws ops mapped" and "bdf u \<noteq> None" and "mem_list_wf mapped u"
  shows "\<exists>u'. unvmed_free_mem_all ops u = (Ok (), u') \<and> mem_list u' = []
    \<and> ledger mapped u' = ledger mapped u - (\<Union>b\<in>set (mem_list u). dmabuf_owns b)"
  using free_mem_loop_ok [OF assms(1,2)] assms(3)
  by (auto simp: unvmed_free_mem_all_def mem_list_wf_def)

text \<open>The range test for the controller memory buffer accepts a range that is not inside it:
  the end of the range is computed in 64 bits, so a range that wraps around the address space
  passes, and the queue memory built from it starts outside the buffer.
\<close>

theorem iova_in_cmb_overflow:
  "\<exists>iova sz. unvmed_iova_in_cmb iova sz sample_dma
     \<and> unat (cmb_iova (cmb sample_dma)) + unat (cmb_size (cmb sample_dma)) \<le> unat iova"
  by (rule exI [of _ "0xFFFFFFFFFFFFF000"], rule exI [of _ "0x2000"])
     (simp add: unvmed_iova_in_cmb_def sample_dma_def)

text \<open>Without wrap-around the test is exact.\<close>

lemma iova_in_cmb_exact:
  assumes "unat iova + unat sz < 2 ^ 64"
    and "unat (cmb_iova (cmb u)) + unat (cmb_size (cmb u)) < 2 ^ 64"
  shows "unvmed_iova_in_cmb iova sz u \<longleftrightarrow> cmb_vaddr (cmb u) \<noteq> 0
    \<and> unat (cmb_iova (cmb u)) \<le> unat iova
    \<and> unat iova + unat sz \<le> unat (cmb_iova (cmb u)) + unat (cmb_size (cmb u))"
  using assms by (simp add: unvmed_iova_in_cmb_def Let_def word_le_nat_alt unat_word_ariths)

end
