(* ===== verification/Hmb.thy ===== *)
theory Hmb
  imports Dma
begin

text \<open>
  The host memory buffer of \<open>lib/libunvmed.c\<close>: \<open>unvmed_hmb_init()\<close> allocates and maps a
  descriptor array and one buffer per descriptor, \<open>unvmed_hmb_free()\<close> releases them.
\<close>

subsection \<open>The host memory buffer\<close>

text \<open>
  The loop of \<open>unvmed_hmb_init()\<close> over the buffer sizes that remain, from index \<open>i\<close>; the
  product of a size and the page size and the running sum are 64-bit.
\<close>

fun hmb_fill ::
  "'m dma_ops \<Rightarrow> u32 list \<Rightarrow> nat \<Rightarrow> u64 \<Rightarrow> ('m, 'z) unvme_dma_scheme
   \<Rightarrow> u64 outcome \<times> ('m, 'z) unvme_dma_scheme" where
  "hmb_fill ops [] i hsize u = (Ok hsize, u)"
| "hmb_fill ops (b # bs) i hsize u =
     (case unvmed_pgmap ops (ucast b * unvmed_pagesize ops u) u of
        (Fail e, u1) \<Rightarrow> (Fail e, u1)
      | (Fault, u1) \<Rightarrow> (Fault, u1)
      | (Ok (buf, ret), u1) \<Rightarrow>
          (case unvmed_map_vaddr ops buf ret 0 u1 of
             (Fail e, u2) \<Rightarrow> (Fail e, u2)
           | (Fault, u2) \<Rightarrow> (Fault, u2)
           | (Ok iova, u2) \<Rightarrow>
               hmb_fill ops bs (Suc i) (hsize + ucast b)
                 (u2\<lparr>hmb := (hmb u2)\<lparr>hmb_vaddrs := (hmb_vaddrs (hmb u2))[i := buf],
                                   hmb_descs := (hmb_descs (hmb u2))[i := (iova, b)]\<rparr>\<rparr>)))"

text \<open>The loop that releases the buffers whose descriptor has an address.\<close>

fun hmb_release ::
  "'m dma_ops \<Rightarrow> ((u64 \<times> u32) \<times> nat) list \<Rightarrow> ('m, 'z) unvme_dma_scheme
   \<Rightarrow> unit outcome \<times> ('m, 'z) unvme_dma_scheme" where
  "hmb_release ops [] u = (Ok (), u)"
| "hmb_release ops (((badd, _), va) # rest) u =
     (if badd = 0 then hmb_release ops rest u
      else case unmap_and_free ops va u of
             (Ok _, u1) \<Rightarrow> hmb_release ops rest u1
           | r \<Rightarrow> r)"

text \<open>The error exit of \<open>unvmed_hmb_init()\<close>; \<open>descs\<close> is its local variable.\<close>

definition hmb_undo ::
  "'m dma_ops \<Rightarrow> nat \<Rightarrow> ('m, 'z) unvme_dma_scheme
   \<Rightarrow> unit outcome \<times> ('m, 'z) unvme_dma_scheme" where
  "hmb_undo ops descs u =
     andthen (if hmb_descs_ptr (hmb u) \<noteq> 0
              then hmb_release ops (zip (hmb_descs (hmb u)) (hmb_vaddrs (hmb u))) u
              else (Ok (), u))
       (\<lambda>_ u1. andthen (if hmb_vaddr_ptr (hmb u1) \<noteq> 0
                        then unvmed_pgunmap (hmb_vaddr_ptr (hmb u1)) u1 else (Ok (), u1))
       (\<lambda>_ u2. andthen (unmap_and_free ops descs u2)
       (\<lambda>_ u3. (Fail ENOMEM, u3\<lparr>hmb := zero_hmb\<rparr>))))"

definition unvmed_hmb_init ::
  "'m dma_ops \<Rightarrow> u32 list \<Rightarrow> ('m, 'z) unvme_dma_scheme
   \<Rightarrow> unit outcome \<times> ('m, 'z) unvme_dma_scheme" where
  "unvmed_hmb_init ops bsize u =
     (if hmb_descs_ptr (hmb u) \<noteq> 0 then (Fail EEXIST, u)
      else case unvmed_pgmap ops (word_of_nat (length bsize) * 16) u of
        (Fail e, u1) \<Rightarrow> (Fail e, u1)
      | (Fault, u1) \<Rightarrow> (Fault, u1)
      | (Ok (descs, ret), u1) \<Rightarrow>
          (case unvmed_map_vaddr ops descs ret 0 u1 of
             (Fail e, u2) \<Rightarrow> hmb_undo ops descs u2
           | (Fault, u2) \<Rightarrow> (Fault, u2)
           | (Ok iova, u2) \<Rightarrow>
               (case calloc ops (heap u2) (word_of_nat (length bsize) * 8) of
                  None \<Rightarrow> hmb_undo ops descs (u2\<lparr>hmb := (hmb u2)\<lparr>hmb_vaddr_ptr := 0\<rparr>\<rparr>)
                | Some arr \<Rightarrow>
                    (case hmb_fill ops bsize 0 0
                            (u2\<lparr>heap := insert arr (heap u2),
                                hmb := (hmb u2)\<lparr>hmb_vaddr_ptr := arr,
                                  hmb_vaddrs := replicate (length bsize) 0,
                                  hmb_descs_ptr := descs,
                                  hmb_descs := replicate (length bsize) (0, 0),
                                  hmb_descs_iova := iova, hmb_descs_size := ret,
                                  hmb_nr_descs := length bsize\<rparr>\<rparr>) of
                       (Ok hsize, u3) \<Rightarrow>
                         (Ok (), u3\<lparr>hmb := (hmb u3)\<lparr>hmb_hsize := ucast hsize\<rparr>\<rparr>)
                     | (Fail e, u3) \<Rightarrow> hmb_undo ops descs u3
                     | (Fault, u3) \<Rightarrow> (Fault, u3)))))"

definition unvmed_hmb_free ::
  "'m dma_ops \<Rightarrow> ('m, 'z) unvme_dma_scheme \<Rightarrow> unit outcome \<times> ('m, 'z) unvme_dma_scheme" where
  "unvmed_hmb_free ops u =
     (if hmb_descs_ptr (hmb u) = 0 then (Fail ENOMEM, u)
      else andthen (hmb_release ops (take (hmb_nr_descs (hmb u))
                      (zip (hmb_descs (hmb u)) (hmb_vaddrs (hmb u)))) u)
        (\<lambda>_ u1. andthen (unmap_and_free ops (hmb_descs_ptr (hmb u1)) u1)
        (\<lambda>_ u2. (Ok (), u2\<lparr>hmb := zero_hmb\<rparr>))))"

subsection \<open>The loops\<close>

definition block_and_mapping :: "nat list \<Rightarrow> item set" where
  "block_and_mapping vs = Block ` set vs \<union> Mapping ` set vs"

lemma block_and_mapping_simps [simp]:
  "block_and_mapping [] = {}"
  "block_and_mapping (v # vs) = insert (Block v) (insert (Mapping v) (block_and_mapping vs))"
  by (auto simp: block_and_mapping_def)

lemma block_and_mapping_mem [simp]:
  "Block v \<in> block_and_mapping vs \<longleftrightarrow> v \<in> set vs" "Mapping v \<in> block_and_mapping vs \<longleftrightarrow> v \<in> set vs"
  by (auto simp: block_and_mapping_def)

text \<open>The descriptors of a host memory buffer without the entries the loop fills.\<close>

definition hmb_frame :: "unvme_hmb \<Rightarrow> unvme_hmb \<Rightarrow> bool" where
  "hmb_frame h h' \<longleftrightarrow> hmb_descs_ptr h' = hmb_descs_ptr h \<and> hmb_vaddr_ptr h' = hmb_vaddr_ptr h
     \<and> hmb_nr_descs h' = hmb_nr_descs h \<and> hmb_descs_iova h' = hmb_descs_iova h
     \<and> hmb_descs_size h' = hmb_descs_size h"

lemma hmb_fill_step:
  assumes "dma_laws ops mapped" and "hmb_fill ops (b # bs) i hs u = (Ok hs', u')"
  obtains buf iova v where
    "hmb_fill ops bs (Suc i) (hs + ucast b)
       (v\<lparr>hmb := (hmb v)\<lparr>hmb_vaddrs := (hmb_vaddrs (hmb v))[i := buf],
                       hmb_descs := (hmb_descs (hmb v))[i := (iova, b)]\<rparr>\<rparr>) = (Ok hs', u')"
    and "dma_frame u v" and "buf \<noteq> 0"
    and "block_and_mapping [buf] \<inter> ledger mapped u = {}"
    and "ledger mapped v = ledger mapped u \<union> block_and_mapping [buf]"
proof -
  let ?sz = "ucast b * unvmed_pagesize ops u"
  show ?thesis
  proof (cases rule: pgmap_aligned_cases [of ops ?sz "unvmed_pagesize ops u" u])
    case (2 buf ret u1)
    note got = pgmap_aligned_ok [OF assms(1) 2]
    show ?thesis
    proof (cases rule: map_vaddr_cases [OF assms(1), of buf ret 0 u1])
      case (1 e)
      with assms(2) 2 show ?thesis by (simp add: unvmed_pgmap_def)
    next
      case step: (2 iova m)
      show ?thesis
      proof (rule that)
        show "hmb_fill ops bs (Suc i) (hs + ucast b)
            (u1\<lparr>iommu := m, hmb := (hmb (u1\<lparr>iommu := m\<rparr>))\<lparr>
               hmb_vaddrs := (hmb_vaddrs (hmb (u1\<lparr>iommu := m\<rparr>)))[i := buf],
               hmb_descs := (hmb_descs (hmb (u1\<lparr>iommu := m\<rparr>)))[i := (iova, b)]\<rparr>\<rparr>) = (Ok hs', u')"
          using assms(2) 2 step by (simp add: unvmed_pgmap_def)
        show "dma_frame u (u1\<lparr>iommu := m\<rparr>)" using got by simp
        show "buf \<noteq> 0" using got by simp
        show "block_and_mapping [buf] \<inter> ledger mapped u = {}" using got step by auto
        show "ledger mapped (u1\<lparr>iommu := m\<rparr>) = ledger mapped u \<union> block_and_mapping [buf]"
          using got step by auto
      qed
    qed
  qed (use assms(2) in \<open>simp add: unvmed_pgmap_def\<close>)
qed

text \<open>
  What the loop leaves: from index \<open>i\<close> on, one fresh buffer per size, and a descriptor with
  that size.
\<close>

lemma hmb_fill_ok:
  assumes "dma_laws ops mapped" and "hmb_fill ops bs i hs u = (Ok hs', u')"
    and "length (hmb_vaddrs (hmb u)) = i + length bs" and "length (hmb_descs (hmb u)) = i + length bs"
  shows "\<exists>vs ds. length vs = length bs \<and> map snd ds = bs
    \<and> hmb_vaddrs (hmb u') = take i (hmb_vaddrs (hmb u)) @ vs
    \<and> hmb_descs (hmb u') = take i (hmb_descs (hmb u)) @ ds
    \<and> distinct vs \<and> 0 \<notin> set vs \<and> block_and_mapping vs \<inter> ledger mapped u = {}
    \<and> ledger mapped u' = ledger mapped u \<union> block_and_mapping vs
    \<and> bdf u' = bdf u \<and> hmb_frame (hmb u) (hmb u')
    \<and> hs' = hs + sum_list (map ucast bs)"
  using assms(2-)
proof (induction bs arbitrary: i hs u)
  case Nil
  then show ?case by (simp add: hmb_frame_def)
next
  case (Cons b bs)
  from Cons.prems(1) obtain buf iova v where
    rec: "hmb_fill ops bs (Suc i) (hs + ucast b)
       (v\<lparr>hmb := (hmb v)\<lparr>hmb_vaddrs := (hmb_vaddrs (hmb v))[i := buf],
                       hmb_descs := (hmb_descs (hmb v))[i := (iova, b)]\<rparr>\<rparr>) = (Ok hs', u')"
    and frame: "dma_frame u v" and "buf \<noteq> 0"
    and fresh: "block_and_mapping [buf] \<inter> ledger mapped u = {}"
      "ledger mapped v = ledger mapped u \<union> block_and_mapping [buf]"
    by (rule hmb_fill_step [OF assms(1)])
  let ?w = "v\<lparr>hmb := (hmb v)\<lparr>hmb_vaddrs := (hmb_vaddrs (hmb v))[i := buf],
                            hmb_descs := (hmb_descs (hmb v))[i := (iova, b)]\<rparr>\<rparr>"
  have v: "hmb v = hmb u" "bdf v = bdf u" using dma_frame_fields [OF frame] by auto
  have led: "ledger mapped ?w = ledger mapped v" by (simp add: ledger_def)
  have len: "i < length (hmb_vaddrs (hmb u))" "i < length (hmb_descs (hmb u))"
    using Cons.prems(2,3) by simp_all
  then have pre: "take (Suc i) (hmb_vaddrs (hmb ?w)) = take i (hmb_vaddrs (hmb u)) @ [buf]"
    "take (Suc i) (hmb_descs (hmb ?w)) = take i (hmb_descs (hmb u)) @ [(iova, b)]"
    by (simp_all add: v take_Suc_conv_app_nth)
  from Cons.IH [OF rec] Cons.prems(2,3) obtain vs ds where IH: "length vs = length bs"
    "map snd ds = bs" "hmb_vaddrs (hmb u') = take (Suc i) (hmb_vaddrs (hmb ?w)) @ vs"
    "hmb_descs (hmb u') = take (Suc i) (hmb_descs (hmb ?w)) @ ds" "distinct vs" "0 \<notin> set vs"
    "block_and_mapping vs \<inter> ledger mapped ?w = {}"
    "ledger mapped u' = ledger mapped ?w \<union> block_and_mapping vs" "bdf u' = bdf ?w"
    "hmb_frame (hmb ?w) (hmb u')" "hs' = hs + ucast b + sum_list (map ucast bs)"
    by (auto simp: v)
  have "buf \<notin> set vs" using IH(7) led fresh(2) by (auto simp: block_and_mapping_def)
  with IH pre led fresh \<open>buf \<noteq> 0\<close> v show ?case
    by (intro exI [of _ "buf # vs"] exI [of _ "(iova, b) # ds"])
       (auto simp: hmb_frame_def algebra_simps)
qed

lemma hmb_release_ok:
  assumes "dma_laws ops mapped" and "bdf u \<noteq> None" and "length ds = length vs"
    and "\<forall>d\<in>set ds. fst d \<noteq> 0" and "distinct vs" and "0 \<notin> set vs"
    and "block_and_mapping vs \<subseteq> ledger mapped u"
  shows "\<exists>u'. hmb_release ops (zip ds vs) u = (Ok (), u') \<and> dma_frame u u'
    \<and> ledger mapped u' = ledger mapped u - block_and_mapping vs"
  using assms(3,2,4-)
proof (induction ds vs arbitrary: u rule: list_induct2)
  case (Cons d ds v vs)
  obtain badd sz where d: "d = (badd, sz)" "badd \<noteq> 0" using Cons.prems(2) by (cases d) auto
  from Cons.prems obtain u1 where u1: "unmap_and_free ops v u = (Ok (), u1)" "dma_frame u u1"
    "ledger mapped u1 = ledger mapped u - {Mapping v, Block v}"
    using unmap_and_free_ok [OF assms(1), of u v] by auto
  have "block_and_mapping vs \<subseteq> ledger mapped u1"
    using Cons.prems u1(3) by (auto simp: block_and_mapping_def)
  with Cons.IH [of u1] Cons.prems dma_frame_fields [OF u1(2)] obtain u' where
    "hmb_release ops (zip ds vs) u1 = (Ok (), u')" "dma_frame u1 u'"
    "ledger mapped u' = ledger mapped u1 - block_and_mapping vs" by auto
  with u1 d show ?case by (auto intro: dma_frame_trans)
qed simp

lemma hmb_undo_not_ok: "hmb_undo ops descs u \<noteq> (Ok x, u')"
  by (auto simp: hmb_undo_def andthen_Ok)

text \<open>The controller at the start of the loop.\<close>

definition hmb_start :: "nat \<Rightarrow> nat \<Rightarrow> nat \<Rightarrow> u64 \<Rightarrow> u64 \<Rightarrow> ('m, 'z) unvme_dma_scheme
    \<Rightarrow> ('m, 'z) unvme_dma_scheme" where
  "hmb_start n descs arr iova ret v =
     v\<lparr>heap := insert arr (heap v),
       hmb := (hmb v)\<lparr>hmb_vaddr_ptr := arr, hmb_vaddrs := replicate n 0,
         hmb_descs_ptr := descs, hmb_descs := replicate n (0, 0),
         hmb_descs_iova := iova, hmb_descs_size := ret, hmb_nr_descs := n\<rparr>\<rparr>"

lemma hmb_init_ok:
  assumes "dma_laws ops mapped" and "unvmed_hmb_init ops bsize u = (Ok (), u1)"
  obtains descs arr iova ret v hs u3 where
    "hmb_fill ops bsize 0 0 (hmb_start (length bsize) descs arr iova ret v) = (Ok hs, u3)"
    and "u1 = u3\<lparr>hmb := (hmb u3)\<lparr>hmb_hsize := ucast hs\<rparr>\<rparr>"
    and "dma_frame u v" and "descs \<noteq> 0" and "arr \<noteq> 0"
    and "Block descs \<notin> ledger mapped u" and "Mapping descs \<notin> ledger mapped u"
    and "Block arr \<notin> ledger mapped v"
    and "ledger mapped v = ledger mapped u \<union> block_and_mapping [descs]"
proof -
  let ?sz = "word_of_nat (length bsize) * 16" and ?ps = "unvmed_pagesize ops u"
  show ?thesis
  proof (cases rule: pgmap_aligned_cases [of ops ?sz ?ps u])
    case (1 e)
    with assms(2) show ?thesis by (simp add: unvmed_hmb_init_def unvmed_pgmap_def split: if_splits)
  next
    case (2 descs ret v1)
    note got = pgmap_aligned_ok [OF assms(1) 2]
    show ?thesis
    proof (cases rule: map_vaddr_cases [OF assms(1), of descs ret 0 v1])
      case (1 e)
      with assms(2) 2 hmb_undo_not_ok [of ops descs v1 "()" u1] show ?thesis
        by (auto simp: unvmed_hmb_init_def unvmed_pgmap_def split: if_splits)
    next
      case step: (2 iova m)
      let ?v = "v1\<lparr>iommu := m\<rparr>"
      obtain arr where arr: "calloc ops (heap ?v) (word_of_nat (length bsize) * 8) = Some arr"
        using assms(2) 2 step
          hmb_undo_not_ok [of ops descs "?v\<lparr>hmb := (hmb ?v)\<lparr>hmb_vaddr_ptr := 0\<rparr>\<rparr>" "()" u1]
        by (auto simp: unvmed_hmb_init_def unvmed_pgmap_def split: if_splits option.splits)
      obtain out u3 where out: "hmb_fill ops bsize 0 0
          (hmb_start (length bsize) descs arr iova ret ?v) = (out, u3)" by fastforce
      have run: "unvmed_hmb_init ops bsize u =
         (case out of Ok hs \<Rightarrow> (Ok (), u3\<lparr>hmb := (hmb u3)\<lparr>hmb_hsize := ucast hs\<rparr>\<rparr>)
                    | Fail e \<Rightarrow> hmb_undo ops descs u3 | Fault \<Rightarrow> (Fault, u3))"
        using assms(2) 2 step arr out
        by (auto simp: unvmed_hmb_init_def unvmed_pgmap_def hmb_start_def split: if_splits)
      then obtain hs where "out = Ok hs" and "u1 = u3\<lparr>hmb := (hmb u3)\<lparr>hmb_hsize := ucast hs\<rparr>\<rparr>"
        using assms(2) hmb_undo_not_ok [of ops descs u3 "()" u1] by (cases out) auto
      note ok = this
      show ?thesis
      proof (rule that)
        show "hmb_fill ops bsize 0 0 (hmb_start (length bsize) descs arr iova ret ?v) = (Ok hs, u3)"
          using out ok(1) by simp
        show "Block arr \<notin> ledger mapped ?v"
          using calloc_fresh [OF assms(1) arr] by (simp add: ledger_def)
        show "Mapping descs \<notin> ledger mapped u" using step(2) got by (auto simp: ledger_def)
        show "ledger mapped ?v = ledger mapped u \<union> block_and_mapping [descs]"
          using step(3) got by auto
      qed (use ok got calloc_fresh [OF assms(1) arr] in auto)
    qed
  qed
qed

text \<open>A host memory buffer that was initialised describes one fresh, mapped buffer per
  requested size, and its total is their sum. Freeing it gives every buffer and the descriptor
  array back, but not the array of buffer addresses: its block stays allocated for good.
\<close>

theorem hmb_init_free_leak:
  assumes "dma_laws ops mapped" and "bdf u \<noteq> None"
    and "unvmed_hmb_init ops bsize u = (Ok (), u1)"
    and "\<forall>d\<in>set (hmb_descs (hmb u1)). fst d \<noteq> 0"
  shows "map snd (hmb_descs (hmb u1)) = bsize
    \<and> hmb_hsize (hmb u1) = ucast (sum_list (map ucast bsize) :: u64)
    \<and> Block (hmb_vaddr_ptr (hmb u1)) \<notin> ledger mapped u
    \<and> (\<exists>u2. unvmed_hmb_free ops u1 = (Ok (), u2) \<and> hmb u2 = zero_hmb
         \<and> ledger mapped u2 = insert (Block (hmb_vaddr_ptr (hmb u1))) (ledger mapped u))"
proof -
  obtain descs arr iova ret v hs u3 where
    fill: "hmb_fill ops bsize 0 0 (hmb_start (length bsize) descs arr iova ret v) = (Ok hs, u3)"
    and u1: "u1 = u3\<lparr>hmb := (hmb u3)\<lparr>hmb_hsize := ucast hs\<rparr>\<rparr>" and "dma_frame u v"
    and "descs \<noteq> 0" "arr \<noteq> 0" and descs: "Block descs \<notin> ledger mapped u"
      "Mapping descs \<notin> ledger mapped u" and arr: "Block arr \<notin> ledger mapped v"
    and led: "ledger mapped v = ledger mapped u \<union> block_and_mapping [descs]"
    by (rule hmb_init_ok [OF assms(1,3)])
  let ?v = "hmb_start (length bsize) descs arr iova ret v"
  have led': "ledger mapped ?v = insert (Block arr) (ledger mapped v)"
    by (auto simp: hmb_start_def ledger_def)
  obtain vs ds where vs: "length vs = length bsize" "map snd ds = bsize"
    "hmb_vaddrs (hmb u3) = vs" "hmb_descs (hmb u3) = ds" "distinct vs" "0 \<notin> set vs"
    "block_and_mapping vs \<inter> ledger mapped ?v = {}"
    "ledger mapped u3 = ledger mapped ?v \<union> block_and_mapping vs" "bdf u3 = bdf ?v"
    "hmb_frame (hmb ?v) (hmb u3)" "hs = sum_list (map ucast bsize)"
    using hmb_fill_ok [OF assms(1) fill] by (auto simp: hmb_start_def)
  have ptr: "hmb_vaddr_ptr (hmb u3) = arr" "hmb_descs_ptr (hmb u3) = descs"
    "hmb_nr_descs (hmb u3) = length bsize"
    using vs(10) by (auto simp: hmb_frame_def hmb_start_def)
  have bdf: "bdf u1 \<noteq> None"
    using assms(2) vs(9) u1 dma_frame_fields [OF \<open>dma_frame u v\<close>] by (simp add: hmb_start_def)
  have led1: "ledger mapped u1 = ledger mapped u3" by (simp add: u1 ledger_def)
  have len: "length ds = length vs" using vs(1,2) by (metis length_map)
  obtain w where w: "hmb_release ops (zip ds vs) u1 = (Ok (), w)" "dma_frame u1 w"
    "ledger mapped w = ledger mapped u1 - block_and_mapping vs"
    using hmb_release_ok [OF assms(1) bdf len _ vs(5,6)] assms(4) vs(4,8) led1 u1 by auto
  have "ledger mapped w = ledger mapped ?v" using w(3) led1 vs(7,8) by auto
  then have w_led: "ledger mapped w = insert (Block arr) (ledger mapped v)" using led' by simp
  have w_hmb: "hmb w = hmb u1" "bdf w \<noteq> None" using dma_frame_fields [OF w(2)] bdf by auto
  obtain x where x: "unmap_and_free ops descs w = (Ok (), x)" "dma_frame w x"
    "ledger mapped x = ledger mapped w - {Mapping descs, Block descs}"
    using unmap_and_free_ok [OF assms(1) w_hmb(2) \<open>descs \<noteq> 0\<close>] w_led led by auto
  have "unvmed_hmb_free ops u1 = (Ok (), x\<lparr>hmb := zero_hmb\<rparr>)"
    using w(1) x(1) w_hmb(1) ptr u1 vs(1,3,4) len \<open>descs \<noteq> 0\<close>
    by (simp add: unvmed_hmb_free_def)
  moreover have "ledger mapped (x\<lparr>hmb := zero_hmb\<rparr>) = insert (Block arr) (ledger mapped u)"
    using x(3) w_led led descs arr by (auto simp: ledger_def)
  ultimately show ?thesis
    using vs(2,4,11) u1 ptr arr led by auto
qed

lemma sample_hmb_init:
  "\<exists>u1. unvmed_hmb_init sample_ops [1] sample_dma = (Ok (), u1) \<and> hmb_descs (hmb u1) = [(8192, 1)]
     \<and> hmb_vaddr_ptr (hmb u1) = 64"
  by (simp add: unvmed_hmb_init_def unvmed_pgmap_def unvmed_pgmap_aligned_def unvmed_map_vaddr_def
      sample_ops_def sample_dma_def zero_hmb_def unvmed_pagesize_def)

theorem hmb_init_free_leak_witness:
  "\<exists>u1 u2. unvmed_hmb_init sample_ops [1] sample_dma = (Ok (), u1)
     \<and> unvmed_hmb_free sample_ops u1 = (Ok (), u2)
     \<and> ledger id u2 = insert (Block 64) (ledger id sample_dma)"
proof -
  obtain u1 where u1: "unvmed_hmb_init sample_ops [1] sample_dma = (Ok (), u1)"
    "hmb_descs (hmb u1) = [(8192, 1)]" "hmb_vaddr_ptr (hmb u1) = 64"
    using sample_hmb_init by blast
  have "bdf sample_dma \<noteq> None" by (simp add: sample_dma_def)
  moreover have "\<forall>d\<in>set (hmb_descs (hmb u1)). fst d \<noteq> 0" using u1(2) by simp
  ultimately show ?thesis using hmb_init_free_leak [OF sample_ops_laws _ u1(1)] u1 by auto
qed

end
