(* ===== verification/Refcount.thy ===== *)
theory Refcount
  imports Prelude
begin

text \<open>
  The contract of the reference-counted objects of the library (namespaces, queues, commands): a
  get succeeds exactly on an object that has references and adds one, a put drops one, and an
  object without references does not exist. \<open>ref_run\<close> is a client that takes references and
  drops only those it holds; the locale proves once that an object keeps its other references
  whatever the client does, and that dropping everything restores every count.
\<close>

datatype 'k ref_op = Ref 'k | Unref 'k

fun ref_run ::
  "('k \<Rightarrow> 's \<Rightarrow> 's option) \<Rightarrow> ('k \<Rightarrow> 's \<Rightarrow> int \<times> 's) \<Rightarrow> 'k ref_op list \<Rightarrow> 's \<times> 'k list
   \<Rightarrow> 's \<times> 'k list" where
  "ref_run get put [] (s, held) = (s, held)"
| "ref_run get put (Ref k # ops) (s, held) =
     (case get k s of
        None \<Rightarrow> ref_run get put ops (s, held)
      | Some s' \<Rightarrow> ref_run get put ops (s', k # held))"
| "ref_run get put (Unref k # ops) (s, held) =
     (if k \<in> set held then ref_run get put ops (snd (put k s), remove1 k held)
      else ref_run get put ops (s, held))"

locale refcount =
  fixes get :: "'k \<Rightarrow> 's \<Rightarrow> 's option"
    and put :: "'k \<Rightarrow> 's \<Rightarrow> int \<times> 's"
    and cnt :: "'s \<Rightarrow> 'k \<Rightarrow> int"
    and wf :: "'s \<Rightarrow> bool"
  assumes cnt_nonneg: "wf s \<Longrightarrow> 0 \<le> cnt s k"
    and get_none: "wf s \<Longrightarrow> get k s = None \<longleftrightarrow> cnt s k = 0"
    and get_some: "wf s \<Longrightarrow> get k s = Some s' \<Longrightarrow> wf s' \<and> cnt s' = (cnt s)(k := cnt s k + 1)"
    and put_live: "wf s \<Longrightarrow> 0 < cnt s k \<Longrightarrow>
          wf (snd (put k s)) \<and> fst (put k s) = cnt s k - 1
          \<and> cnt (snd (put k s)) = (cnt s)(k := cnt s k - 1)"
begin

text \<open>Every count is what it was without the client and what the client holds.\<close>

definition shared :: "('k \<Rightarrow> int) \<Rightarrow> 's \<Rightarrow> 'k list \<Rightarrow> bool" where
  "shared base s held \<longleftrightarrow> wf s \<and> (\<forall>k. 0 \<le> base k \<and> cnt s k = base k + int (count_list held k))"

lemma count_remove1:
  "k \<in> set held \<Longrightarrow> int (count_list (remove1 k held) j) = int (count_list held j) - (if j = k then 1 else 0)"
proof (induction held)
  case (Cons x held)
  show ?case
  proof (cases "x = k")
    case False
    with Cons show ?thesis by auto
  qed auto
qed simp

lemma shared_run:
  "shared base s held \<Longrightarrow> ref_run get put ops (s, held) = (s', held') \<Longrightarrow> shared base s' held'"
proof (induction ops arbitrary: s held)
  case (Cons op ops)
  have wf: "wf s" and cnt: "\<And>k. 0 \<le> base k \<and> cnt s k = base k + int (count_list held k)"
    using Cons.prems(1) by (auto simp: shared_def)
  show ?case
  proof (cases op)
    case (Ref k)
    show ?thesis
    proof (cases "get k s")
      case None
      with Cons Ref show ?thesis by simp
    next
      case (Some t)
      have "shared base t (k # held)"
        using get_some [OF wf Some] cnt by (auto simp: shared_def)
      with Cons.IH Cons.prems(2) Ref Some show ?thesis by simp
    qed
  next
    case (Unref k)
    show ?thesis
    proof (cases "k \<in> set held")
      case True
      then have "0 < count_list held k" by (metis count_list_0_iff gr0I)
      then have "0 < cnt s k" using cnt [of k] by linarith
      then have "shared base (snd (put k s)) (remove1 k held)"
        using put_live [OF wf] cnt count_remove1 [OF True] by (auto simp: shared_def)
      with Cons.IH Cons.prems(2) Unref True show ?thesis by simp
    next
      case False
      with Cons Unref show ?thesis by simp
    qed
  qed
qed simp

lemma run_counts:
  assumes "wf s" and "ref_run get put ops (s, []) = (s', held)"
  shows "wf s' \<and> cnt s' k = cnt s k + int (count_list held k)
    \<and> (0 < cnt s k \<longrightarrow> get k s' \<noteq> None)"
proof -
  have "shared (cnt s) s []" using assms(1) by (simp add: shared_def cnt_nonneg)
  then have "shared (cnt s) s' held" using assms(2) by (rule shared_run)
  then show ?thesis using get_none [of s' k] by (auto simp: shared_def)
qed

end

end
