(* ===== verification/Ns.thy ===== *)
theory Ns
  imports Dma Refcount
begin

unbundle bit_operations_syntax

text \<open>
  Namespaces, \<open>lib/libunvmed.c\<close>: the list of namespaces of a controller with their reference
  counts, their initialisation from the Identify data (\<open>unvmed_init_ns()\<close>) and from the
  NVM-command-set Identify data (\<open>unvmed_init_meta_ns()\<close>). A namespace pointer is the
  identifier of the namespace, which is unique in the list.
\<close>

record unvme_ns =
  nsid :: u32
  ns_refcnt :: int
  ns_enabled :: bool
  format_idx :: u8
  lba_size :: u32
  nr_lbas :: u64
  ns_ms :: u16
  ns_mset :: u8
  ns_pif :: u8
  ns_dps :: u8
  ns_sts :: u8
  ns_lbstm :: u64

definition zero_ns :: unvme_ns where
  "zero_ns = \<lparr>nsid = 0, ns_refcnt = 0, ns_enabled = False, format_idx = 0, lba_size = 0,
     nr_lbas = 0, ns_ms = 0, ns_mset = 0, ns_pif = 0, ns_dps = 0, ns_sts = 0, ns_lbstm = 0\<rparr>"

text \<open>
  The fields of the Identify data structures (libnvme) that the sources read: an LBA format is
  its data size exponent and its metadata size.
\<close>

record nvme_id_ns =
  id_nsze :: u64
  id_nlbaf :: u8
  id_flbas :: u8
  id_dps :: u8
  id_lbaf :: "(u8 \<times> u16) list"

record nvme_nvm_id_ns =
  nvm_lbstm :: u64
  nvm_pic :: u8
  nvm_elbaf :: "u32 list"

record nvme_id_ctrl =
  id_mdts :: u8
  id_ctratt :: u32

record 'm unvme_nss = "'m unvme_dma" +
  ns_list :: "unvme_ns list"
  nr_ns :: int
  id_ctrl :: "nvme_id_ctrl option"

subsection \<open>The list and its reference counts\<close>

text \<open>The position of the first namespace with an identifier.\<close>

fun ns_index :: "u32 \<Rightarrow> unvme_ns list \<Rightarrow> nat option" where
  "ns_index i [] = None"
| "ns_index i (ns # rest) = (if nsid ns = i then Some 0 else map_option Suc (ns_index i rest))"

definition unvmed_ns_find :: "u32 \<Rightarrow> ('m, 'z) unvme_nss_scheme \<Rightarrow> unvme_ns option" where
  "unvmed_ns_find i u = map_option ((!) (ns_list u)) (ns_index i (ns_list u))"

definition ns_update ::
  "u32 \<Rightarrow> (unvme_ns \<Rightarrow> unvme_ns) \<Rightarrow> ('m, 'z) unvme_nss_scheme \<Rightarrow> ('m, 'z) unvme_nss_scheme" where
  "ns_update i f u =
     (case ns_index i (ns_list u) of
        None \<Rightarrow> u
      | Some k \<Rightarrow> u\<lparr>ns_list := (ns_list u)[k := f (ns_list u ! k)]\<rparr>)"

text \<open>\<open>unvmed_ns_get()\<close>: \<open>None\<close> is \<open>NULL\<close>.\<close>

definition unvmed_ns_get ::
  "u32 \<Rightarrow> ('m, 'z) unvme_nss_scheme \<Rightarrow> ('m, 'z) unvme_nss_scheme option" where
  "unvmed_ns_get i u =
     (case ns_index i (ns_list u) of
        None \<Rightarrow> None
      | Some k \<Rightarrow> Some (ns_update i (\<lambda>ns. ns\<lparr>ns_refcnt := ns_refcnt ns + 1\<rparr>) u))"

text \<open>
  \<open>unvmed_ns_put()\<close> with \<open>__unvmed_ns_put()\<close> and \<open>__unvmed_free_ns()\<close>: the count after the
  put; a namespace without references leaves the list.
\<close>

definition unvmed_ns_put ::
  "u32 \<Rightarrow> ('m, 'z) unvme_nss_scheme \<Rightarrow> int \<times> ('m, 'z) unvme_nss_scheme" where
  "unvmed_ns_put i u =
     (case ns_index i (ns_list u) of
        None \<Rightarrow> (0, u)
      | Some k \<Rightarrow>
          (let refcnt = ns_refcnt (ns_list u ! k) - 1 in
           if refcnt = 0 then (refcnt, u\<lparr>ns_list := delete_at k (ns_list u)\<rparr>)
           else (refcnt, ns_update i (\<lambda>ns. ns\<lparr>ns_refcnt := refcnt\<rparr>) u)))"

definition unvmed_get_nslist :: "bool \<Rightarrow> ('m, 'z) unvme_nss_scheme \<Rightarrow> unvme_ns list outcome" where
  "unvmed_get_nslist room u =
     (if nr_ns u = 0 then Ok []
      else if \<not> room then Fail ENOMEM
      else if nr_ns u < int (length (ns_list u)) then Fault
      else Ok (ns_list u))"

text \<open>\<open>unvmed_free_ns_all()\<close> drops one reference of every namespace of the list.\<close>

definition unvmed_free_ns_all ::
  "('m, 'z) unvme_nss_scheme \<Rightarrow> ('m, 'z) unvme_nss_scheme" where
  "unvmed_free_ns_all u = fold (\<lambda>i u. snd (unvmed_ns_put i u)) (map nsid (ns_list u)) u"

definition unvmed_disable_ns_all ::
  "('m, 'z) unvme_nss_scheme \<Rightarrow> ('m, 'z) unvme_nss_scheme" where
  "unvmed_disable_ns_all u =
     u\<lparr>ns_list := map (\<lambda>ns. ns\<lparr>ns_enabled := False\<rparr>) (ns_list u)\<rparr>"

subsection \<open>Initialisation\<close>

text \<open>The format index of \<open>flbas\<close>, an \<open>int\<close> expression stored into a \<open>uint8_t\<close>.\<close>

definition ns_format_idx :: "nvme_id_ns \<Rightarrow> u8" where
  "ns_format_idx id_ns =
     (if id_nlbaf id_ns < 16 then id_flbas id_ns AND 0xf
      else (id_flbas id_ns AND 0xf) + push_bit 4 (drop_bit 5 (id_flbas id_ns) AND 0x3))"

text \<open>
  The fields that are refreshed. \<open>1 << ds\<close> is an \<open>int\<close> shift, undefined for 31 and above;
  the LBA format array has 64 entries.
\<close>

definition ns_refresh :: "u32 \<Rightarrow> nvme_id_ns \<Rightarrow> unvme_ns \<Rightarrow> unvme_ns outcome" where
  "ns_refresh i id_ns ns =
     (let idx = ns_format_idx id_ns in
      case nth_opt (id_lbaf id_ns) (unat idx) of
        None \<Rightarrow> Fault
      | Some (ds, ms) \<Rightarrow>
          if 31 \<le> unat ds then Fault
          else Ok (ns\<lparr>nsid := i, lba_size := push_bit (unat ds) 1, nr_lbas := id_nsze id_ns,
                      format_idx := idx, ns_mset := drop_bit 4 (id_flbas id_ns) AND 0x1,
                      ns_ms := ms, ns_dps := id_dps id_ns\<rparr>))"

text \<open>
  \<open>unvmed_init_ns()\<close> after the Identify data is at hand; \<open>room\<close> says whether \<open>zmalloc()\<close>
  succeeds.
\<close>

definition init_ns_from ::
  "bool \<Rightarrow> u32 \<Rightarrow> nvme_id_ns \<Rightarrow> ('m, 'z) unvme_nss_scheme
   \<Rightarrow> unit outcome \<times> ('m, 'z) unvme_nss_scheme" where
  "init_ns_from room i id_ns u =
     (case unvmed_ns_get i u of
        None \<Rightarrow>
          if \<not> room then (Fail ENOMEM, u)
          else (case ns_refresh i id_ns zero_ns of
                  Ok ns \<Rightarrow> (Ok (), u\<lparr>ns_list := ns_list u @ [ns\<lparr>ns_refcnt := 1, ns_enabled := True\<rparr>],
                                    nr_ns := nr_ns u + 1\<rparr>)
                | Fail e \<Rightarrow> (Fail e, u)
                | Fault \<Rightarrow> (Fault, u))
      | Some u1 \<Rightarrow>
          (case unvmed_ns_put i u1 of
             (refcnt, u2) \<Rightarrow>
               if \<not> 0 < refcnt then (Fault, u2)
               else (case unvmed_ns_find i u2 of
                       None \<Rightarrow> (Fault, u2)
                     | Some prev \<Rightarrow>
                         (case ns_refresh i id_ns prev of
                            Ok ns \<Rightarrow> (Ok (), ns_update i (\<lambda>_. ns\<lparr>ns_enabled := True\<rparr>) u2)
                          | Fail e \<Rightarrow> (Fail e, u2)
                          | Fault \<Rightarrow> (Fault, u2)))))"

text \<open>
  \<open>unvmed_init_ns()\<close>. Without Identify data of the caller it allocates a buffer and issues the
  Identify command, \<open>id_cmd\<close>, which is \<open>__unvmed_id_ns()\<close>; the buffer is freed on every path.
\<close>

definition unvmed_init_ns ::
  "'m dma_ops \<Rightarrow> (u32 \<Rightarrow> ('m, 'z) unvme_nss_scheme \<Rightarrow> nvme_id_ns outcome \<times> ('m, 'z) unvme_nss_scheme)
   \<Rightarrow> bool \<Rightarrow> u64 \<Rightarrow> u32 \<Rightarrow> nvme_id_ns option \<Rightarrow> ('m, 'z) unvme_nss_scheme
   \<Rightarrow> unit outcome \<times> ('m, 'z) unvme_nss_scheme" where
  "unvmed_init_ns ops id_cmd room sizeof_id_ns i identify u =
     (case identify of
        Some id_ns \<Rightarrow> init_ns_from room i id_ns u
      | None \<Rightarrow>
          andthen (unvmed_pgmap ops sizeof_id_ns u) (\<lambda>(buf, _) u1.
            case id_cmd i u1 of
              (Fault, u2) \<Rightarrow> (Fault, u2)
            | (Fail e, u2) \<Rightarrow> (case unvmed_pgunmap buf u2 of
                                (Fault, u3) \<Rightarrow> (Fault, u3) | (_, u3) \<Rightarrow> (Fail e, u3))
            | (Ok id_ns, u2) \<Rightarrow>
                (case init_ns_from room i id_ns u2 of
                   (Fault, u3) \<Rightarrow> (Fault, u3)
                 | (r, u3) \<Rightarrow> (case unvmed_pgunmap buf u3 of
                                (Fault, u4) \<Rightarrow> (Fault, u4) | (_, u4) \<Rightarrow> (r, u4)))))"

text \<open>
  The constants of the NVMe headers that \<open>unvmed_init_meta_ns()\<close> uses, and the decoding of an
  extended LBA format into the storage tag size and the protection information format.
\<close>

record elbaf_defs =
  CTRATT_ELBAS :: u32
  ELBAF_STS_MASK :: u32
  ELBAF_PIF_MASK :: u32
  ELBAF_QPIF_MASK :: u32
  PIF_QTYPE :: u8

definition elbaf_sts :: "elbaf_defs \<Rightarrow> u32 \<Rightarrow> u8" where
  "elbaf_sts d elbaf = ucast (elbaf AND ELBAF_STS_MASK d)"

definition elbaf_pif :: "elbaf_defs \<Rightarrow> u8 \<Rightarrow> u32 \<Rightarrow> u8" where
  "elbaf_pif d pic elbaf =
     (let pif = ucast (drop_bit 7 (elbaf AND ELBAF_PIF_MASK d)) in
      if pif = PIF_QTYPE d \<and> pic AND 0x8 \<noteq> 0
      then ucast (drop_bit 9 (elbaf AND ELBAF_QPIF_MASK d)) else pif)"

definition unvmed_init_id_ctrl ::
  "bool \<Rightarrow> nvme_id_ctrl option \<Rightarrow> ('m, 'z) unvme_nss_scheme
   \<Rightarrow> unit outcome \<times> ('m, 'z) unvme_nss_scheme" where
  "unvmed_init_id_ctrl room data u =
     (case data of
        None \<Rightarrow> (Fail EINVAL, u)
      | Some d \<Rightarrow>
          if id_ctrl u = None \<and> \<not> room then (Fail ENOMEM, u)
          else (Ok (), u\<lparr>id_ctrl := Some d\<rparr>))"

definition unvmed_get_max_xfer_size ::
  "'m dma_ops \<Rightarrow> ('m, 'z) unvme_nss_scheme \<Rightarrow> u64 outcome" where
  "unvmed_get_max_xfer_size ops u =
     (case id_ctrl u of
        None \<Rightarrow> Fail EINVAL
      | Some d \<Rightarrow> if 64 \<le> unat (id_mdts d) then Fault
                  else Ok (push_bit (unat (id_mdts d)) 1 * unvmed_pagesize ops u))"

text \<open>The last part of \<open>unvmed_init_meta_ns()\<close>, from the NVM Identify data.\<close>

definition meta_from ::
  "elbaf_defs \<Rightarrow> u32 \<Rightarrow> nvme_nvm_id_ns \<Rightarrow> ('m, 'z) unvme_nss_scheme
   \<Rightarrow> unit outcome \<times> ('m, 'z) unvme_nss_scheme" where
  "meta_from d i nvm u =
     (case unvmed_ns_find i u of
        None \<Rightarrow> (Fault, u)
      | Some ns \<Rightarrow>
          (case nth_opt (nvm_elbaf nvm) (unat (format_idx ns)) of
             None \<Rightarrow> (Fault, u)
           | Some elbaf \<Rightarrow>
               (Ok (), ns_update i (\<lambda>ns. ns\<lparr>ns_lbstm := nvm_lbstm nvm, ns_sts := elbaf_sts d elbaf,
                                         ns_pif := elbaf_pif d (nvm_pic nvm) elbaf\<rparr>) u)))"

text \<open>
  Its first part: the Identify Controller data is fetched when there is none yet. The result of
  \<open>unvmed_init_id_ctrl()\<close> is ignored.
\<close>

definition meta_id_ctrl ::
  "'m dma_ops \<Rightarrow> (('m, 'z) unvme_nss_scheme \<Rightarrow> nvme_id_ctrl outcome \<times> ('m, 'z) unvme_nss_scheme)
   \<Rightarrow> bool \<Rightarrow> u64 \<Rightarrow> ('m, 'z) unvme_nss_scheme \<Rightarrow> unit outcome \<times> ('m, 'z) unvme_nss_scheme" where
  "meta_id_ctrl ops id_cmd room sizeof_id_ctrl u =
     (if id_ctrl u \<noteq> None then (Ok (), u)
      else andthen (unvmed_pgmap ops sizeof_id_ctrl u) (\<lambda>(buf, _) u1.
        case id_cmd u1 of
          (Fault, u2) \<Rightarrow> (Fault, u2)
        | (Fail e, u2) \<Rightarrow> (case unvmed_pgunmap buf u2 of
                            (Fault, u3) \<Rightarrow> (Fault, u3) | (_, u3) \<Rightarrow> (Fail e, u3))
        | (Ok data, u2) \<Rightarrow>
            unvmed_pgunmap buf (ignore (unvmed_init_id_ctrl room (Some data) u2))))"

text \<open>Its middle part; the second result is the buffer it allocated, 0 when there is none.\<close>

definition meta_body ::
  "'m dma_ops \<Rightarrow> elbaf_defs
   \<Rightarrow> (u32 \<Rightarrow> ('m, 'z) unvme_nss_scheme \<Rightarrow> nvme_nvm_id_ns outcome \<times> ('m, 'z) unvme_nss_scheme)
   \<Rightarrow> u64 \<Rightarrow> u32 \<Rightarrow> nvme_nvm_id_ns option \<Rightarrow> ('m, 'z) unvme_nss_scheme
   \<Rightarrow> unit outcome \<times> nat \<times> ('m, 'z) unvme_nss_scheme" where
  "meta_body ops d nvm_cmd sizeof_nvm i nvm u =
     (case id_ctrl u of
        None \<Rightarrow> (Fault, 0, u)
      | Some c \<Rightarrow>
          if id_ctratt c AND CTRATT_ELBAS d = 0 then (Ok (), 0, u)
          else (case nvm of
             Some data \<Rightarrow> (case meta_from d i data u of (r, u1) \<Rightarrow> (r, 0, u1))
           | None \<Rightarrow>
               (case unvmed_pgmap ops sizeof_nvm u of
                  (Ok (buf, _), u1) \<Rightarrow>
                    (case nvm_cmd i u1 of
                       (Ok data, u2) \<Rightarrow> (case meta_from d i data u2 of (r, u3) \<Rightarrow> (r, buf, u3))
                     | (Fail e, u2) \<Rightarrow> (Fail e, buf, u2)
                     | (Fault, u2) \<Rightarrow> (Fault, buf, u2))
                | (Fail e, u1) \<Rightarrow> (Fail e, 0, u1)
                | (Fault, u1) \<Rightarrow> (Fault, 0, u1))))"

definition unvmed_init_meta_ns ::
  "'m dma_ops \<Rightarrow> elbaf_defs
   \<Rightarrow> (('m, 'z) unvme_nss_scheme \<Rightarrow> nvme_id_ctrl outcome \<times> ('m, 'z) unvme_nss_scheme)
   \<Rightarrow> (u32 \<Rightarrow> ('m, 'z) unvme_nss_scheme \<Rightarrow> nvme_nvm_id_ns outcome \<times> ('m, 'z) unvme_nss_scheme)
   \<Rightarrow> bool \<Rightarrow> u64 \<Rightarrow> u64 \<Rightarrow> u32 \<Rightarrow> nvme_nvm_id_ns option \<Rightarrow> ('m, 'z) unvme_nss_scheme
   \<Rightarrow> unit outcome \<times> ('m, 'z) unvme_nss_scheme" where
  "unvmed_init_meta_ns ops d id_cmd nvm_cmd room sizeof_id_ctrl sizeof_nvm i nvm u =
     (case unvmed_ns_get i u of
        None \<Rightarrow> (Fail EINVAL, u)
      | Some u1 \<Rightarrow>
          (case (case meta_id_ctrl ops id_cmd room sizeof_id_ctrl u1 of
                   (Ok _, u2) \<Rightarrow> meta_body ops d nvm_cmd sizeof_nvm i nvm u2
                 | (Fail e, u2) \<Rightarrow> (Fail e, 0, u2)
                 | (Fault, u2) \<Rightarrow> (Fault, 0, u2)) of
             (r, buf, u3) \<Rightarrow>
               (case unvmed_ns_put i u3 of
                  (refcnt, u4) \<Rightarrow>
                    if r = Fault \<or> \<not> 0 < refcnt then (Fault, u4)
                    else andthen (unvmed_pgunmap buf u4) (\<lambda>_ u5. (r, u5)))))"

subsection \<open>The list as a map\<close>

lemma ns_index_find:
  "find (\<lambda>ns. nsid ns = i) xs = map_option ((!) xs) (ns_index i xs)"
  by (induction xs) (auto simp: option.map_comp comp_def)

lemma ns_find_list: "unvmed_ns_find i u = find (\<lambda>ns. nsid ns = i) (ns_list u)"
  by (simp add: unvmed_ns_find_def ns_index_find)

lemma ns_index_Some: "ns_index i xs = Some k \<Longrightarrow> k < length xs \<and> nsid (xs ! k) = i"
  by (induction xs arbitrary: k) (auto split: if_splits)

lemma ns_index_None: "ns_index i xs = None \<longleftrightarrow> i \<notin> nsid ` set xs"
  by (induction xs) auto

lemma find_ns_update:
  assumes "ns_index i xs = Some k" and "nsid y = i"
  shows "find (\<lambda>ns. nsid ns = j) (xs[k := y])
    = (if j = i then Some y else find (\<lambda>ns. nsid ns = j) xs)"
  using assms by (induction xs arbitrary: k) (auto split: if_splits)

lemma find_ns_delete:
  assumes "ns_index i xs = Some k" and "distinct (map nsid xs)"
  shows "find (\<lambda>ns. nsid ns = j) (delete_at k xs)
    = (if j = i then None else find (\<lambda>ns. nsid ns = j) xs)"
  using assms
proof (induction xs arbitrary: k)
  case (Cons x xs)
  show ?case
  proof (cases "nsid x = i")
    case True
    with Cons.prems show ?thesis
      by (auto simp: delete_at_def find_None_iff image_iff)
  next
    case False
    with Cons.prems(1) obtain l where "ns_index i xs = Some l" "k = Suc l" by auto
    with Cons False show ?thesis by (auto simp: delete_at_def)
  qed
qed simp

lemma find_append_other: "find P (xs @ [y]) = (case find P xs of None \<Rightarrow> if P y then Some y else None | r \<Rightarrow> r)"
  by (induction xs) auto

lemma find_ns_in: "find P xs = Some x \<Longrightarrow> x \<in> set xs \<and> P x"
  by (auto simp: find_Some_iff)

definition ns_wf :: "('m, 'z) unvme_nss_scheme \<Rightarrow> bool" where
  "ns_wf u \<longleftrightarrow> distinct (map nsid (ns_list u)) \<and> (\<forall>ns\<in>set (ns_list u). 0 < ns_refcnt ns)"

definition ns_cnt :: "('m, 'z) unvme_nss_scheme \<Rightarrow> u32 \<Rightarrow> int" where
  "ns_cnt u i = (case unvmed_ns_find i u of None \<Rightarrow> 0 | Some ns \<Rightarrow> ns_refcnt ns)"

lemma ns_cnt_pos: "ns_wf u \<Longrightarrow> unvmed_ns_find i u \<noteq> None \<longleftrightarrow> 0 < ns_cnt u i"
  by (auto simp: ns_cnt_def ns_find_list ns_wf_def dest: find_ns_in split: option.splits)

lemma ns_update_find:
  assumes "ns_index i (ns_list u) = Some k" and "nsid (f (ns_list u ! k)) = i"
  shows "unvmed_ns_find j (ns_update i f u)
    = (if j = i then Some (f (ns_list u ! k)) else unvmed_ns_find j u)"
  using assms by (simp add: ns_update_def ns_find_list find_ns_update)

lemma distinct_map_update_same:
  "distinct (map f xs) \<Longrightarrow> k < length xs \<Longrightarrow> f y = f (xs ! k) \<Longrightarrow> distinct (map f (xs[k := y]))"
  by (metis list_update_id map_update)

lemma ns_update_wf:
  assumes "ns_wf u" and "ns_index i (ns_list u) = Some k" and "nsid (f (ns_list u ! k)) = i"
    and "0 < ns_refcnt (f (ns_list u ! k))"
  shows "ns_wf (ns_update i f u)"
  using assms ns_index_Some [OF assms(2)]
  by (auto simp: ns_wf_def ns_update_def distinct_map_update_same dest: in_set_butlastD
        dest!: set_update_subset_insert [THEN subsetD])

lemma delete_at_wf: "ns_wf u \<Longrightarrow> ns_wf (u\<lparr>ns_list := delete_at k (ns_list u)\<rparr>)"
  using set_delete_at [of k "ns_list u"] by (auto simp: ns_wf_def distinct_delete_at)

lemma ns_get_some:
  assumes "ns_wf u" and "unvmed_ns_get i u = Some u'"
  shows "ns_wf u' \<and> ns_cnt u' = (ns_cnt u)(i := ns_cnt u i + 1)"
proof -
  let ?f = "\<lambda>ns. ns\<lparr>ns_refcnt := ns_refcnt ns + 1\<rparr>"
  obtain k where k: "ns_index i (ns_list u) = Some k" "u' = ns_update i ?f u"
    using assms(2) by (auto simp: unvmed_ns_get_def split: option.splits)
  have at: "k < length (ns_list u)" "nsid (ns_list u ! k) = i"
    using ns_index_Some [OF k(1)] by auto
  then have "0 < ns_refcnt (ns_list u ! k)" using assms(1) by (auto simp: ns_wf_def)
  then have "ns_wf u'" using ns_update_wf [OF assms(1) k(1), of ?f] at k(2) by simp
  moreover have "ns_cnt u' = (ns_cnt u)(i := ns_cnt u i + 1)"
    using k at ns_update_find [OF k(1), of ?f]
    by (auto simp: fun_eq_iff ns_cnt_def unvmed_ns_find_def)
  ultimately show ?thesis by simp
qed

lemma ns_put_live:
  assumes "ns_wf u" and "0 < ns_cnt u i"
  shows "ns_wf (snd (unvmed_ns_put i u)) \<and> fst (unvmed_ns_put i u) = ns_cnt u i - 1
    \<and> ns_cnt (snd (unvmed_ns_put i u)) = (ns_cnt u)(i := ns_cnt u i - 1)"
proof -
  obtain k where k: "ns_index i (ns_list u) = Some k"
    using assms(2) by (auto simp: ns_cnt_def unvmed_ns_find_def split: option.splits)
  have at: "k < length (ns_list u)" "nsid (ns_list u ! k) = i" using ns_index_Some [OF k] by auto
  have cnt: "ns_cnt u i = ns_refcnt (ns_list u ! k)"
    using k by (simp add: ns_cnt_def unvmed_ns_find_def)
  show ?thesis
  proof (cases "ns_refcnt (ns_list u ! k) = 1")
    case True
    then have put: "unvmed_ns_put i u = (0, u\<lparr>ns_list := delete_at k (ns_list u)\<rparr>)"
      using k by (simp add: unvmed_ns_put_def)
    have "ns_cnt (u\<lparr>ns_list := delete_at k (ns_list u)\<rparr>) j = ((ns_cnt u)(i := 0)) j" for j
      using find_ns_delete [OF k, of j] assms(1) by (simp add: ns_cnt_def ns_find_list ns_wf_def)
    then show ?thesis using True put cnt delete_at_wf [OF assms(1)] by auto
  next
    case False
    let ?f = "\<lambda>ns. ns\<lparr>ns_refcnt := ns_refcnt (ns_list u ! k) - 1\<rparr>"
    have put: "unvmed_ns_put i u = (ns_refcnt (ns_list u ! k) - 1, ns_update i ?f u)"
      using k False by (simp add: unvmed_ns_put_def Let_def)
    have "0 < ns_refcnt (ns_list u ! k) - 1" using assms(2) cnt False by simp
    then show ?thesis
      using put cnt at ns_update_wf [OF assms(1) k, of ?f] ns_update_find [OF k, of ?f]
      by (auto simp: ns_cnt_def)
  qed
qed

interpretation nss: refcount unvmed_ns_get unvmed_ns_put ns_cnt ns_wf
proof
  show "0 \<le> ns_cnt u i" if "ns_wf u" for u i
    using ns_cnt_pos [OF that, of i] by (force simp: ns_cnt_def split: option.splits)
  show "unvmed_ns_get i u = None \<longleftrightarrow> ns_cnt u i = 0" if "ns_wf u" for u i
    using ns_cnt_pos [OF that, of i]
    by (auto simp: unvmed_ns_get_def ns_cnt_def unvmed_ns_find_def split: option.splits)
qed (rule ns_get_some ns_put_live; assumption)+

subsection \<open>Initialisation of a namespace\<close>

text \<open>
  A namespace that exists is refreshed in place and keeps its references; a new one starts with
  one reference. Either way it can be found, enabled, with the geometry of its LBA format.
\<close>

lemma ns_refresh_Ok:
  "ns_refresh i id_ns ns = Ok ns' \<Longrightarrow>
   nsid ns' = i \<and> ns_refcnt ns' = ns_refcnt ns
   \<and> lba_size ns' = push_bit (unat (fst (id_lbaf id_ns ! unat (ns_format_idx id_ns)))) 1
   \<and> ns_ms ns' = snd (id_lbaf id_ns ! unat (ns_format_idx id_ns))
   \<and> nr_lbas ns' = id_nsze id_ns \<and> format_idx ns' = ns_format_idx id_ns"
  by (auto simp: ns_refresh_def Let_def split: option.splits if_splits prod.splits)

lemma init_ns_existing:
  assumes "ns_wf u" and "ns_cnt u i \<noteq> 0" and "init_ns_from room i id_ns u = (Ok (), u')"
  obtains u2 prev ns where "ns_wf u2" "ns_cnt u2 = ns_cnt u" "unvmed_ns_find i u2 = Some prev"
    "ns_refresh i id_ns prev = Ok ns" "u' = ns_update i (\<lambda>_. ns\<lparr>ns_enabled := True\<rparr>) u2"
proof -
  obtain u1 where u1: "unvmed_ns_get i u = Some u1"
    using assms(2) nss.get_none [OF assms(1)] by fastforce
  note get = ns_get_some [OF assms(1) u1]
  have "0 < ns_cnt u1 i" using get nss.cnt_nonneg [OF assms(1), of i] by simp
  note put = ns_put_live [OF conjunct1 [OF get] this]
  obtain r u2 where u2: "unvmed_ns_put i u1 = (r, u2)" by fastforce
  have "ns_wf u2" "ns_cnt u2 = ns_cnt u" using put get u2 by auto
  then show thesis
    using assms(3) u1 u2 that [of u2]
    by (auto simp: init_ns_from_def split: option.splits outcome.splits if_splits)
qed

text \<open>C27. Initialising a namespace from its Identify data leaves it enabled in the list, with the
  block size, metadata size and capacity of the format in use. A namespace that was there already
  keeps exactly the references it had, a new one gets one, and no other namespace changes its
  count.
\<close>

theorem init_ns_outcome:
  assumes "ns_wf u" and "init_ns_from room i id_ns u = (Ok (), u')"
  shows "ns_wf u' \<and> ns_cnt u' = (ns_cnt u)(i := max 1 (ns_cnt u i))
    \<and> (\<exists>ns. unvmed_ns_find i u' = Some ns \<and> ns_enabled ns
         \<and> lba_size ns = push_bit (unat (fst (id_lbaf id_ns ! unat (ns_format_idx id_ns)))) 1
         \<and> ns_ms ns = snd (id_lbaf id_ns ! unat (ns_format_idx id_ns))
         \<and> nr_lbas ns = id_nsze id_ns)"
proof (cases "ns_cnt u i = 0")
  case True
  then have none: "unvmed_ns_get i u = None" using nss.get_none [OF assms(1)] by simp
  then obtain ns where ns: "ns_refresh i id_ns zero_ns = Ok ns"
    and u': "u' = u\<lparr>ns_list := ns_list u @ [ns\<lparr>ns_refcnt := 1, ns_enabled := True\<rparr>],
                    nr_ns := nr_ns u + 1\<rparr>"
    using assms(2) by (auto simp: init_ns_from_def split: if_splits outcome.splits)
  have absent: "i \<notin> nsid ` set (ns_list u)"
    using none by (auto simp: unvmed_ns_get_def ns_index_None [symmetric] split: option.splits)
  have find: "unvmed_ns_find j u' = (if j = i then Some (ns\<lparr>ns_refcnt := 1, ns_enabled := True\<rparr>)
      else unvmed_ns_find j u)" for j
    using absent ns_refresh_Ok [OF ns]
    by (auto simp: u' ns_find_list find_append_other image_iff dest!: find_ns_in split: option.splits)
  have "ns_wf u'" using assms(1) absent ns_refresh_Ok [OF ns] by (auto simp: ns_wf_def u')
  with find True ns_refresh_Ok [OF ns] show ?thesis by (auto simp: ns_cnt_def fun_eq_iff)
next
  case False
  obtain u2 prev ns where u2: "ns_wf u2" "ns_cnt u2 = ns_cnt u" "unvmed_ns_find i u2 = Some prev"
    and ns: "ns_refresh i id_ns prev = Ok ns"
    and u': "u' = ns_update i (\<lambda>_. ns\<lparr>ns_enabled := True\<rparr>) u2"
    by (rule init_ns_existing [OF assms(1) False assms(2)])
  let ?f = "\<lambda>_ :: unvme_ns. ns\<lparr>ns_enabled := True\<rparr>"
  from u2(3) obtain k where k: "ns_index i (ns_list u2) = Some k" "prev = ns_list u2 ! k"
    by (auto simp: unvmed_ns_find_def)
  have cnt: "0 < ns_refcnt prev" "ns_refcnt prev = ns_cnt u i"
  proof -
    have "ns_cnt u2 i = ns_refcnt prev" using u2(3) by (simp add: ns_cnt_def)
    then show "0 < ns_refcnt prev" "ns_refcnt prev = ns_cnt u i"
      using u2 ns_cnt_pos [OF u2(1), of i] by simp_all
  qed
  have "ns_wf u'" using ns_update_wf [OF u2(1) k(1), of ?f] ns_refresh_Ok [OF ns] cnt u' by simp
  moreover have "unvmed_ns_find j u' = (if j = i then Some (ns\<lparr>ns_enabled := True\<rparr>)
      else unvmed_ns_find j u2)" for j
    using ns_update_find [OF k(1), of ?f] ns_refresh_Ok [OF ns] u' by simp
  moreover have "ns_cnt u' = ns_cnt u"
    using calculation(2) ns_refresh_Ok [OF ns] u2 cnt by (auto simp: ns_cnt_def fun_eq_iff)
  ultimately show ?thesis
    using ns_refresh_Ok [OF ns] cnt by (auto simp: fun_eq_iff max_def)
qed

definition sample_id_ns :: nvme_id_ns where
  "sample_id_ns = \<lparr>id_nsze = 1000, id_nlbaf = 1, id_flbas = 0x11, id_dps = 0,
                   id_lbaf = [(9, 0), (12, 8)]\<rparr>"

definition sample_nss :: "nat set unvme_nss" where
  "sample_nss = unvme_dma.extend sample_dma \<lparr>ns_list = [], nr_ns = 0, id_ctrl = None\<rparr>"

theorem init_ns_outcome_witness:
  "\<exists>u' ns. init_ns_from True 1 sample_id_ns sample_nss = (Ok (), u')
     \<and> unvmed_ns_find 1 u' = Some ns \<and> lba_size ns = 4096 \<and> ns_ms ns = 8 \<and> ns_cnt u' 1 = 1"
proof -
  have wf: "ns_wf sample_nss"
    by (simp add: ns_wf_def sample_nss_def unvme_dma.extend_def sample_dma_def)
  obtain u' where run: "init_ns_from True 1 sample_id_ns sample_nss = (Ok (), u')"
    by (simp add: init_ns_from_def unvmed_ns_get_def ns_refresh_def nth_opt_def ns_format_idx_def
        sample_id_ns_def sample_nss_def unvme_dma.extend_def)
  have idx: "ns_format_idx sample_id_ns = 1" by (simp add: ns_format_idx_def sample_id_ns_def)
  have "ns_cnt sample_nss 1 = 0"
    by (simp add: ns_cnt_def ns_find_list sample_nss_def unvme_dma.extend_def)
  with init_ns_outcome [OF wf run] run idx show ?thesis by (auto simp: sample_id_ns_def)
qed

text \<open>C28. However a user of namespaces takes and drops references, a namespace that others hold
  stays in the list, and every count is what the others hold and what this user still holds.
\<close>

theorem ns_references:
  assumes "ns_wf u" and "ref_run unvmed_ns_get unvmed_ns_put script (u, []) = (u', held)"
  shows "ns_wf u' \<and> ns_cnt u' i = ns_cnt u i + int (count_list held i)
    \<and> (0 < ns_cnt u i \<longrightarrow> unvmed_ns_get i u' \<noteq> None)"
  by (rule nss.run_counts [OF assms])

definition sample_ns1 :: "nat set unvme_nss" where
  "sample_ns1 = sample_nss\<lparr>ns_list := [zero_ns\<lparr>nsid := 1, ns_refcnt := 1\<rparr>], nr_ns := 1\<rparr>"

theorem ns_references_witness:
  "\<exists>u'. ref_run unvmed_ns_get unvmed_ns_put [Ref 1, Ref 2, Ref 1, Unref 1] (sample_ns1, []) = (u', [1])
     \<and> ns_cnt u' 1 = 2"
proof -
  have wf: "ns_wf sample_ns1"
    by (simp add: ns_wf_def sample_ns1_def zero_ns_def)
  obtain u' where run: "ref_run unvmed_ns_get unvmed_ns_put [Ref 1, Ref 2, Ref 1, Unref 1]
      (sample_ns1, []) = (u', [1])"
    by (simp add: sample_ns1_def unvmed_ns_get_def unvmed_ns_put_def ns_update_def zero_ns_def)
  have "ns_cnt sample_ns1 1 = 1"
    by (simp add: ns_cnt_def ns_find_list sample_ns1_def)
  with ns_references [OF wf run, of 1] run show ?thesis by auto
qed

end
