(* ===== verification/Sqe.thy ===== *)
theory Sqe
  imports Cid_Bitmap Vcq Dma
begin

unbundle bit_operations_syntax

text \<open>
  The data of a command: the submission queue entry (\<open>union nvme_cmd\<close> of libvfn),
  \<open>struct unvme_cmd\<close>, and \<open>struct unvme_sq\<close> of \<open>lib/libunvmed.h\<close> with the part of libvfn's
  \<open>struct nvme_sq\<close> that the sources read.
\<close>

text \<open>
  A submission queue entry has the fields of the generic view and those of the views that the
  sources write (identify, features, log page, read and write, create and delete queue). The
  views overlay the same 64 bytes; a command is prepared through one of them, so each has its
  own components here. The byte order is that of the host (little-endian).
\<close>

record nvme_cmd =
  sqe_opcode :: u8
  sqe_flags :: u8
  sqe_cid :: u16
  sqe_nsid :: u32
  sqe_cdw2 :: u32
  sqe_cdw3 :: u32
  sqe_mptr :: u64
  sqe_prp1 :: u64
  sqe_prp2 :: u64
  sqe_cdw10 :: u32
  sqe_cdw11 :: u32
  sqe_cdw12 :: u32
  sqe_cdw13 :: u32
  sqe_cdw14 :: u32
  sqe_cdw15 :: u32
  sqe_cns :: u8
  sqe_ctrlid :: u16
  sqe_fid :: u8
  sqe_sel :: u8
  sqe_rsvd42 :: u16
  sqe_lid :: u8
  sqe_numdl :: u16
  sqe_numdu :: u16
  sqe_slba :: u64
  sqe_nlb :: u16
  sqe_control :: u16
  sqe_reftag :: u32
  sqe_apptag :: u16
  sqe_appmask :: u16
  sqe_qid :: u16
  sqe_qsize :: u16
  sqe_qflags :: u16
  sqe_cqid :: u16
  sqe_iv :: u16

definition zero_sqe :: nvme_cmd where
  "zero_sqe = \<lparr>sqe_opcode = 0, sqe_flags = 0, sqe_cid = 0, sqe_nsid = 0, sqe_cdw2 = 0,
     sqe_cdw3 = 0, sqe_mptr = 0, sqe_prp1 = 0, sqe_prp2 = 0, sqe_cdw10 = 0, sqe_cdw11 = 0,
     sqe_cdw12 = 0, sqe_cdw13 = 0, sqe_cdw14 = 0, sqe_cdw15 = 0, sqe_cns = 0, sqe_ctrlid = 0,
     sqe_fid = 0, sqe_sel = 0, sqe_rsvd42 = 0, sqe_lid = 0, sqe_numdl = 0, sqe_numdu = 0,
     sqe_slba = 0, sqe_nlb = 0, sqe_control = 0, sqe_reftag = 0, sqe_apptag = 0,
     sqe_appmask = 0, sqe_qid = 0, sqe_qsize = 0, sqe_qflags = 0, sqe_cqid = 0, sqe_iv = 0\<rparr>"

definition zero_cqe :: nvme_cqe where
  "zero_cqe = \<lparr>qw0 = 0, sqhd = 0, sqid = 0, cqe_cid = 0, sfp = 0\<rparr>"

record timespec =
  tv_sec :: int
  tv_nsec :: int

definition zero_timespec :: timespec where
  "zero_timespec = \<lparr>tv_sec = 0, tv_nsec = 0\<rparr>"

datatype unvme_cmd_state =
    UNVME_CMD_S_INIT | UNVME_CMD_S_ALLOCATED | UNVME_CMD_S_SUBMITTED | UNVME_CMD_S_COMPLETED
  | UNVME_CMD_S_TO_BE_COMPLETED

datatype unvmed_cmd_inject = UNVMED_CMD_INJECT_NONE | UNVMED_CMD_INJECT_CONFLICT

text \<open>The bits of \<open>enum unvmed_cmd_flags\<close> and \<open>enum unvme_sq_flags\<close>.\<close>

definition UNVMED_CMD_F_NODB :: u64 where
  "UNVMED_CMD_F_NODB = push_bit 0 1"

definition UNVMED_CMD_F_SGL :: u64 where
  "UNVMED_CMD_F_SGL = push_bit 1 1"

definition UNVMED_CMD_F_WAKEUP_ON_CQE :: u64 where
  "UNVMED_CMD_F_WAKEUP_ON_CQE = push_bit 2 1"

definition UNVMED_CMD_F_TIMEDOUT :: u64 where
  "UNVMED_CMD_F_TIMEDOUT = push_bit 3 1"

definition UNVMED_SQ_F_FROZEN :: u32 where
  "UNVMED_SQ_F_FROZEN = push_bit 0 1"

text \<open>
  \<open>struct unvme_cmd\<close>. The pointers \<open>u\<close> and \<open>usq\<close> are set and cleared together: \<open>c_bound\<close>
  says that they are set. \<open>c_rq\<close> is libvfn's request.
\<close>

record unvme_cmd =
  c_bound :: bool
  c_refcnt :: int
  c_state :: unvme_cmd_state
  c_flags :: u64
  c_vcq :: u32
  c_cid :: u16
  c_rq :: "nat option"
  c_buf :: unvme_buf
  c_mbuf :: unvme_buf
  c_opaque :: nat
  c_completed :: bool
  c_timeout :: timespec
  c_sqe :: nvme_cmd
  c_cqe :: nvme_cqe
  c_injected :: unvmed_cmd_inject

text \<open>A command after \<open>memset()\<close>.\<close>

definition zero_cmd :: unvme_cmd where
  "zero_cmd = \<lparr>c_bound = False, c_refcnt = 0, c_state = UNVME_CMD_S_INIT, c_flags = 0, c_vcq = 0,
     c_cid = 0, c_rq = None, c_buf = zero_buf, c_mbuf = zero_buf, c_opaque = 0,
     c_completed = False, c_timeout = zero_timespec, c_sqe = zero_sqe, c_cqe = zero_cqe,
     c_injected = UNVMED_CMD_INJECT_NONE\<rparr>"

text \<open>
  libvfn's \<open>struct nvme_sq\<close>: the ring of entries with its tail and the tail last written to the
  doorbell, the I/O address of its memory, and the pool of requests \<open>'r\<close>.
\<close>

record 'r nvme_sq =
  nsq_id :: nat
  nsq_qsize :: nat
  nsq_tail :: u16
  nsq_ptail :: u16
  nsq_entries :: "nvme_cmd list"
  nsq_iova :: u64
  nsq_rqs :: 'r

text \<open>
  \<open>struct unvme_timer\<close>; \<open>timer_t\<close> is the number of seconds the POSIX timer \<open>t\<close> is armed for, 0
  when it is not armed.
\<close>

record unvme_timer =
  timer_t :: int
  timer_expire :: timespec
  timer_active :: bool

text \<open>
  \<open>struct unvme_sq\<close>. \<open>sq_q\<close> is \<open>None\<close> when the pointer \<open>q\<close> is \<open>NULL\<close>; \<open>sq_ucq\<close> is the
  identifier of the completion queue.
\<close>

record 'r unvme_sq =
  sq_id :: nat
  sq_qsize :: nat
  sq_qprio :: u32
  sq_pc :: u32
  sq_nvmsetid :: u32
  sq_flags :: u32
  sq_q :: "'r nvme_sq option"
  sq_ucq :: nat
  sq_cmds :: "unvme_cmd list"
  sq_timer :: unvme_timer
  sq_cids :: unvme_bitmap
  sq_nr_cmds :: int
  sq_cmd_count :: "u64 list"
  sq_enabled :: bool
  sq_refcnt :: int
  sq_conflict :: unvme_cmd

text \<open>libvfn's operations on a queue: the request pool, posting an entry, the doorbell.\<close>

record 'r sq_ops =
  rq_acquire :: "'r \<Rightarrow> errno + nat \<times> 'r"
  rq_release :: "'r \<Rightarrow> nat \<Rightarrow> 'r"
  sq_post :: "'r nvme_sq \<Rightarrow> nvme_cmd \<Rightarrow> 'r nvme_sq"
  sq_ring :: "'r nvme_sq \<Rightarrow> 'r nvme_sq"

text \<open>
  A pointer to a command of a queue: an element of \<open>usq->cmds\<close> or the shared
  \<open>usq->conflict_cmds\<close>. Dereferencing outside the array is a fault.
\<close>

datatype cmd_ref = Slot nat | Conflict

fun cmd_at :: "('r, 'z) unvme_sq_scheme \<Rightarrow> cmd_ref \<Rightarrow> unvme_cmd option" where
  "cmd_at usq (Slot i) = nth_opt (sq_cmds usq) i"
| "cmd_at usq Conflict = Some (sq_conflict usq)"

fun cmd_set :: "('r, 'z) unvme_sq_scheme \<Rightarrow> cmd_ref \<Rightarrow> unvme_cmd \<Rightarrow> ('r, 'z) unvme_sq_scheme" where
  "cmd_set usq (Slot i) c = usq\<lparr>sq_cmds := (sq_cmds usq)[i := c]\<rparr>"
| "cmd_set usq Conflict c = usq\<lparr>sq_conflict := c\<rparr>"

lemma cmd_at_set:
  assumes "cmd_at usq r = Some d"
  shows "cmd_at (cmd_set usq r c) r' = (if r' = r then Some c else cmd_at usq r')"
  using assms by (cases r; cases r') (auto simp: nth_opt_def)

lemma cmd_set_fields [simp]:
  "sq_q (cmd_set usq r c) = sq_q usq" "sq_cids (cmd_set usq r c) = sq_cids usq"
  "sq_nr_cmds (cmd_set usq r c) = sq_nr_cmds usq" "sq_qsize (cmd_set usq r c) = sq_qsize usq"
  "length (sq_cmds (cmd_set usq r c)) = length (sq_cmds usq)"
  by (cases r; simp)+

end
