(* ===== verification/Cmd.thy ===== *)
theory Cmd
  imports Sqe
begin

unbundle bit_operations_syntax

text \<open>
  The life of a command, \<open>lib/libunvmed-cmds.c\<close>: allocation from the queue's slots or from the
  conflict slot, its buffers, reference counting and release. The state of an operation is the
  submission queue and the controller.
\<close>

subsection \<open>Allocation\<close>

text \<open>A command as the allocators leave it.\<close>

definition fresh_cmd :: "u16 \<Rightarrow> u32 \<Rightarrow> nat \<Rightarrow> unvmed_cmd_inject \<Rightarrow> unvme_cmd" where
  "fresh_cmd cid vcq_id rq injected =
     zero_cmd\<lparr>c_bound := True, c_refcnt := 1, c_state := UNVME_CMD_S_ALLOCATED, c_vcq := vcq_id,
              c_cid := cid, c_rq := Some rq, c_injected := injected\<rparr>"

definition sq_take_rq ::
  "'r sq_ops \<Rightarrow> ('r, 'z) unvme_sq_scheme \<Rightarrow> nat outcome \<times> ('r, 'z) unvme_sq_scheme" where
  "sq_take_rq sops usq =
     (case sq_q usq of
        None \<Rightarrow> (Fault, usq)
      | Some q \<Rightarrow>
          (case rq_acquire sops (nsq_rqs q) of
             Inl e \<Rightarrow> (Fail e, usq)
           | Inr (rq, rqs) \<Rightarrow> (Ok rq, usq\<lparr>sq_q := Some (q\<lparr>nsq_rqs := rqs\<rparr>)\<rparr>)))"

text \<open>
  \<open>__unvmed_conflict_cmd_alloc()\<close>: the conflict slot is claimed by the compare-and-swap of its
  state from \<open>INIT\<close>; when no request is left the state is stored back.
\<close>

definition unvmed_conflict_cmd_alloc_u2 ::
  "'r sq_ops \<Rightarrow> u16 \<Rightarrow> u32 \<Rightarrow> ('r, 'z) unvme_sq_scheme
   \<Rightarrow> cmd_ref outcome \<times> ('r, 'z) unvme_sq_scheme" where
  "unvmed_conflict_cmd_alloc_u2 sops cid vcq_id usq =
     (if c_state (sq_conflict usq) \<noteq> UNVME_CMD_S_INIT then (Fail EBUSY, usq)
      else andthen (sq_take_rq sops usq) (\<lambda>rq usq1.
        (Ok Conflict, usq1\<lparr>sq_nr_cmds := sq_nr_cmds usq1 + 1,
           sq_conflict := fresh_cmd cid vcq_id rq UNVMED_CMD_INJECT_CONFLICT\<rparr>)))"

text \<open>
  The part of \<open>__unvmed_cmd_alloc()\<close> after an identifier was taken: a failure to get a request
  gives the identifier back.
\<close>

definition cmd_alloc_finish ::
  "'r sq_ops \<Rightarrow> u16 \<Rightarrow> u32 \<Rightarrow> ('r, 'z) unvme_sq_scheme
   \<Rightarrow> cmd_ref outcome \<times> ('r, 'z) unvme_sq_scheme" where
  "cmd_alloc_finish sops cid vcq_id usq =
     (case sq_take_rq sops usq of
        (Fault, usq1) \<Rightarrow> (Fault, usq1)
      | (Fail e, usq1) \<Rightarrow>
          (case unvmed_cid_free (sq_cids usq1) cid of
             Ok b \<Rightarrow> (Fail e, usq1\<lparr>sq_cids := b\<rparr>)
           | Fail _ \<Rightarrow> (Fail e, usq1)
           | Fault \<Rightarrow> (Fault, usq1))
      | (Ok rq, usq1) \<Rightarrow>
          if length (sq_cmds usq1) \<le> unat cid then (Fault, usq1)
          else (Ok (Slot (unat cid)),
                cmd_set (usq1\<lparr>sq_nr_cmds := sq_nr_cmds usq1 + 1\<rparr>) (Slot (unat cid))
                  (fresh_cmd cid vcq_id rq UNVMED_CMD_INJECT_NONE)))"

definition unvmed_cmd_alloc_u2 ::
  "'r sq_ops \<Rightarrow> u16 option \<Rightarrow> u32 \<Rightarrow> ('r, 'z) unvme_sq_scheme
   \<Rightarrow> cmd_ref outcome \<times> ('r, 'z) unvme_sq_scheme" where
  "unvmed_cmd_alloc_u2 sops cid vcq_id usq =
     (case cid of
        Some c \<Rightarrow>
          (case unvmed_cid_alloc_n (sq_cids usq) c of
             Ok b \<Rightarrow> cmd_alloc_finish sops c vcq_id (usq\<lparr>sq_cids := b\<rparr>)
           | Fail e \<Rightarrow>
               if e = EEXIST then unvmed_conflict_cmd_alloc_u2 sops c vcq_id usq
               else (Fail e, usq)
           | Fault \<Rightarrow> (Fault, usq))
      | None \<Rightarrow>
          (case unvmed_cid_alloc (sq_cids usq) of
             Ok (c, b) \<Rightarrow> cmd_alloc_finish sops c vcq_id (usq\<lparr>sq_cids := b\<rparr>)
           | Fail e \<Rightarrow> (Fail e, usq)
           | Fault \<Rightarrow> (Fault, usq)))"

subsection \<open>Release and reference counts\<close>

text \<open>\<open>__unvmed_cmd_free()\<close>: a conflict command does not own its identifier.\<close>

definition unvmed_cmd_free_u2 ::
  "'r sq_ops \<Rightarrow> cmd_ref \<Rightarrow> ('r, 'z) unvme_sq_scheme
   \<Rightarrow> unit outcome \<times> ('r, 'z) unvme_sq_scheme" where
  "unvmed_cmd_free_u2 sops r usq =
     (case cmd_at usq r of
        None \<Rightarrow> (Fault, usq)
      | Some c \<Rightarrow>
          (case (sq_q usq, c_rq c) of
             (Some q, Some rq) \<Rightarrow>
               (let usq1 = (cmd_set usq r zero_cmd)\<lparr>sq_nr_cmds := sq_nr_cmds usq - 1,
                             sq_q := Some (q\<lparr>nsq_rqs := rq_release sops (nsq_rqs q) rq\<rparr>)\<rparr> in
                if c_injected c = UNVMED_CMD_INJECT_CONFLICT then (Ok (), usq1)
                else (case unvmed_cid_free (sq_cids usq1) (c_cid c) of
                        Ok b \<Rightarrow> (Ok (), usq1\<lparr>sq_cids := b\<rparr>)
                      | Fail _ \<Rightarrow> (Ok (), usq1)
                      | Fault \<Rightarrow> (Fault, usq1)))
           | _ \<Rightarrow> (Fault, usq)))"

definition unvmed_cmd_free ::
  "'m dma_ops \<Rightarrow> 'r sq_ops \<Rightarrow> cmd_ref
   \<Rightarrow> ('r, 'y) unvme_sq_scheme \<times> ('m, 'z) unvme_dma_scheme
   \<Rightarrow> unit outcome \<times> ('r, 'y) unvme_sq_scheme \<times> ('m, 'z) unvme_dma_scheme" where
  "unvmed_cmd_free ops sops r = (\<lambda>(usq, u).
     case cmd_at usq r of
       None \<Rightarrow> (Fault, usq, u)
     | Some c \<Rightarrow>
         (case andthen (unvmed_buf_free ops (c_buf c) u)
                 (\<lambda>_ u1. unvmed_buf_free ops (c_mbuf c) u1) of
            (Ok _, u2) \<Rightarrow>
              (case unvmed_cmd_free_u2 sops r usq of (res, usq1) \<Rightarrow> (res, usq1, u2))
          | (Fail e, u2) \<Rightarrow> (Fail e, usq, u2)
          | (Fault, u2) \<Rightarrow> (Fault, usq, u2)))"

text \<open>
  \<open>unvmed_cmd_get()\<close> for an identifier: \<open>Ok None\<close> is \<open>NULL\<close>, for a slot without references.
\<close>

definition unvmed_cmd_get ::
  "u16 \<Rightarrow> ('r, 'z) unvme_sq_scheme \<Rightarrow> cmd_ref option outcome \<times> ('r, 'z) unvme_sq_scheme" where
  "unvmed_cmd_get cid usq =
     (case cmd_at usq (Slot (unat cid)) of
        None \<Rightarrow> (Fault, usq)
      | Some c \<Rightarrow>
          if c_refcnt c = 0 then (Ok None, usq)
          else if 0 < c_refcnt c
          then (Ok (Some (Slot (unat cid))),
                cmd_set usq (Slot (unat cid)) (c\<lparr>c_refcnt := c_refcnt c + 1\<rparr>))
          else (Ok (Some (Slot (unat cid))), usq))"

text \<open>\<open>unvmed_cmd_put()\<close> returns the count after the put.\<close>

definition unvmed_cmd_put ::
  "'m dma_ops \<Rightarrow> 'r sq_ops \<Rightarrow> cmd_ref
   \<Rightarrow> ('r, 'y) unvme_sq_scheme \<times> ('m, 'z) unvme_dma_scheme
   \<Rightarrow> int outcome \<times> ('r, 'y) unvme_sq_scheme \<times> ('m, 'z) unvme_dma_scheme" where
  "unvmed_cmd_put ops sops r = (\<lambda>(usq, u).
     case cmd_at usq r of
       None \<Rightarrow> (Fault, usq, u)
     | Some c \<Rightarrow>
         (let refcnt = c_refcnt c - 1; usq1 = cmd_set usq r (c\<lparr>c_refcnt := refcnt\<rparr>) in
          if refcnt = 0
          then andthen (unvmed_cmd_free ops sops r (usq1, u)) (\<lambda>_ s. (Ok refcnt, s))
          else (Ok refcnt, usq1, u)))"

subsection \<open>Initialisation\<close>

text \<open>The failure of a call after a cleanup call whose result is ignored, unless that faults.\<close>

definition fail_after :: "errno \<Rightarrow> 'a outcome \<times> 's \<Rightarrow> 'b outcome \<times> 's" where
  "fail_after e r = (case r of (Fault, s) \<Rightarrow> (Fault, s) | (_, s) \<Rightarrow> (Fail e, s))"

text \<open>
  \<open>__unvmed_cmd_init()\<close>. The two lengths are \<open>size_t\<close> and are narrowed to the \<open>uint32_t\<close>
  parameter of \<open>unvmed_buf_init()\<close>. Its second half initialises the metadata buffer of the
  command \<open>c\<close> at \<open>r\<close>, whose data buffer is set.
\<close>

definition cmd_init_meta ::
  "'m dma_ops \<Rightarrow> 'r sq_ops \<Rightarrow> cmd_ref \<Rightarrow> unvme_cmd \<Rightarrow> nat \<Rightarrow> u64
   \<Rightarrow> ('r, 'y) unvme_sq_scheme \<times> ('m, 'z) unvme_dma_scheme
   \<Rightarrow> cmd_ref outcome \<times> ('r, 'y) unvme_sq_scheme \<times> ('m, 'z) unvme_dma_scheme" where
  "cmd_init_meta ops sops r c mbuf mlen = (\<lambda>(usq, u).
     case unvmed_buf_init ops mbuf (ucast mlen) u of
       (Fault, u1) \<Rightarrow> (Fault, usq, u1)
     | (Fail e, u1) \<Rightarrow>
         (case unvmed_buf_free ops (c_buf c) u1 of
            (Fault, u2) \<Rightarrow> (Fault, usq, u2)
          | (_, u2) \<Rightarrow> fail_after e (unvmed_cmd_put ops sops r (usq, u2)))
     | (Ok mb, u1) \<Rightarrow> (Ok r, cmd_set usq r (c\<lparr>c_mbuf := mb\<rparr>), u1))"

definition unvmed_cmd_init_u2 ::
  "'m dma_ops \<Rightarrow> 'r sq_ops \<Rightarrow> u16 option \<Rightarrow> nat \<Rightarrow> u64 \<Rightarrow> nat \<Rightarrow> u64 \<Rightarrow> u32
   \<Rightarrow> ('r, 'y) unvme_sq_scheme \<times> ('m, 'z) unvme_dma_scheme
   \<Rightarrow> cmd_ref outcome \<times> ('r, 'y) unvme_sq_scheme \<times> ('m, 'z) unvme_dma_scheme" where
  "unvmed_cmd_init_u2 ops sops cid buf len mbuf mlen vcq_id = (\<lambda>(usq, u).
     case unvmed_cmd_alloc_u2 sops cid vcq_id usq of
       (Fail e, usq1) \<Rightarrow> (Fail e, usq1, u)
     | (Fault, usq1) \<Rightarrow> (Fault, usq1, u)
     | (Ok r, usq1) \<Rightarrow>
         (case cmd_at usq1 r of
            None \<Rightarrow> (Fault, usq1, u)
          | Some c \<Rightarrow>
              (case unvmed_buf_init ops buf (ucast len) u of
                 (Fault, u1) \<Rightarrow> (Fault, usq1, u1)
               | (Fail e, u1) \<Rightarrow> fail_after e (unvmed_cmd_put ops sops r (usq1, u1))
               | (Ok b, u1) \<Rightarrow>
                   cmd_init_meta ops sops r (c\<lparr>c_buf := b\<rparr>) mbuf mlen
                     (cmd_set usq1 r (c\<lparr>c_buf := b\<rparr>), u1))))"

text \<open>The four entry points.\<close>

definition unvmed_alloc_cmd ::
  "'m dma_ops \<Rightarrow> 'r sq_ops \<Rightarrow> u16 option \<Rightarrow> nat \<Rightarrow> u64
   \<Rightarrow> ('r, 'y) unvme_sq_scheme \<times> ('m, 'z) unvme_dma_scheme
   \<Rightarrow> cmd_ref outcome \<times> ('r, 'y) unvme_sq_scheme \<times> ('m, 'z) unvme_dma_scheme" where
  "unvmed_alloc_cmd ops sops cid buf len s =
     (if buf = 0 \<or> len = 0 then (Fail EINVAL, s)
      else unvmed_cmd_init_u2 ops sops cid buf len 0 0 0 s)"

definition unvmed_alloc_cmd_nodata ::
  "'m dma_ops \<Rightarrow> 'r sq_ops \<Rightarrow> u16 option
   \<Rightarrow> ('r, 'y) unvme_sq_scheme \<times> ('m, 'z) unvme_dma_scheme
   \<Rightarrow> cmd_ref outcome \<times> ('r, 'y) unvme_sq_scheme \<times> ('m, 'z) unvme_dma_scheme" where
  "unvmed_alloc_cmd_nodata ops sops cid s = unvmed_cmd_init_u2 ops sops cid 0 0 0 0 0 s"

definition unvmed_alloc_cmd_cid ::
  "'m dma_ops \<Rightarrow> 'r sq_ops \<Rightarrow> u16 option \<Rightarrow> u32
   \<Rightarrow> ('r, 'y) unvme_sq_scheme \<times> ('m, 'z) unvme_dma_scheme
   \<Rightarrow> cmd_ref outcome \<times> ('r, 'y) unvme_sq_scheme \<times> ('m, 'z) unvme_dma_scheme" where
  "unvmed_alloc_cmd_cid ops sops cid vcq_id s = unvmed_cmd_init_u2 ops sops cid 0 0 0 0 vcq_id s"

definition unvmed_alloc_cmd_meta ::
  "'m dma_ops \<Rightarrow> 'r sq_ops \<Rightarrow> u16 option \<Rightarrow> nat \<Rightarrow> u64 \<Rightarrow> nat \<Rightarrow> u64
   \<Rightarrow> ('r, 'y) unvme_sq_scheme \<times> ('m, 'z) unvme_dma_scheme
   \<Rightarrow> cmd_ref outcome \<times> ('r, 'y) unvme_sq_scheme \<times> ('m, 'z) unvme_dma_scheme" where
  "unvmed_alloc_cmd_meta ops sops cid buf len mbuf mlen s =
     (if buf = 0 \<or> len = 0 then (Fail EINVAL, s)
      else unvmed_cmd_init_u2 ops sops cid buf len mbuf mlen 0 s)"

text \<open>\<open>unvmed_get_conflict_cmd()\<close> and \<open>unvmed_get_cmd()\<close>: a command that is not in \<open>INIT\<close>.\<close>

definition unvmed_get_conflict_cmd :: "('r, 'z) unvme_sq_scheme \<Rightarrow> cmd_ref option" where
  "unvmed_get_conflict_cmd usq =
     (if c_state (sq_conflict usq) = UNVME_CMD_S_INIT then None else Some Conflict)"

definition unvmed_get_cmd :: "u16 \<Rightarrow> ('r, 'z) unvme_sq_scheme \<Rightarrow> cmd_ref option outcome" where
  "unvmed_get_cmd cid usq =
     (case cmd_at usq (Slot (unat cid)) of
        None \<Rightarrow> Fault
      | Some c \<Rightarrow> Ok (if c_state c = UNVME_CMD_S_INIT then None else Some (Slot (unat cid))))"

subsection \<open>The invariant of a queue\<close>

text \<open>The commands in use: the slots whose identifier is taken, and the conflict slot.\<close>

definition live_refs :: "('r, 'z) unvme_sq_scheme \<Rightarrow> cmd_ref set" where
  "live_refs usq = Slot ` used_cids (sq_cids usq)
     \<union> (if c_state (sq_conflict usq) = UNVME_CMD_S_INIT then {} else {Conflict})"

fun cmd_owned :: "cmd_ref \<Rightarrow> unvme_cmd \<Rightarrow> bool" where
  "cmd_owned (Slot i) c \<longleftrightarrow> c_injected c = UNVMED_CMD_INJECT_NONE \<and> unat (c_cid c) = i"
| "cmd_owned Conflict c \<longleftrightarrow> c_injected c = UNVMED_CMD_INJECT_CONFLICT"

definition cmd_live :: "cmd_ref \<Rightarrow> unvme_cmd \<Rightarrow> bool" where
  "cmd_live r c \<longleftrightarrow> c_state c \<noteq> UNVME_CMD_S_INIT \<and> 0 < c_refcnt c \<and> c_rq c \<noteq> None \<and> cmd_owned r c"

definition cmd_idle :: "unvme_cmd \<Rightarrow> bool" where
  "cmd_idle c \<longleftrightarrow> c_state c = UNVME_CMD_S_INIT \<and> c_refcnt c = 0"

definition sq_inv :: "('r, 'z) unvme_sq_scheme \<Rightarrow> bool" where
  "sq_inv usq \<longleftrightarrow> bitmap_wf (sq_cids usq) \<and> bm_size (sq_cids usq) \<le> length (sq_cmds usq)
     \<and> sq_q usq \<noteq> None
     \<and> (\<forall>r c. cmd_at usq r = Some c \<longrightarrow> (if r \<in> live_refs usq then cmd_live r c else cmd_idle c))
     \<and> sq_nr_cmds usq = int (card (live_refs usq))"

definition sq_rqs :: "('r, 'z) unvme_sq_scheme \<Rightarrow> 'r" where
  "sq_rqs usq = nsq_rqs (the (sq_q usq))"

lemma sq_inv_cmd:
  "sq_inv usq \<Longrightarrow> cmd_at usq r = Some c \<Longrightarrow>
   (r \<in> live_refs usq \<longrightarrow> cmd_live r c) \<and> (r \<notin> live_refs usq \<longrightarrow> cmd_idle c)"
  by (auto simp: sq_inv_def split: if_splits)

lemma finite_live_refs: "finite (live_refs usq)"
  by (simp add: live_refs_def used_cids_def)

lemma live_slot_iff [simp]: "Slot i \<in> live_refs usq \<longleftrightarrow> i \<in> used_cids (sq_cids usq)"
  by (auto simp: live_refs_def)

lemma live_conflict_iff [simp]:
  "Conflict \<in> live_refs usq \<longleftrightarrow> c_state (sq_conflict usq) \<noteq> UNVME_CMD_S_INIT"
  by (auto simp: live_refs_def)

lemma live_ref_at:
  assumes "sq_inv usq" and "r \<in> live_refs usq"
  obtains c where "cmd_at usq r = Some c" and "cmd_live r c"
proof (cases r)
  case (Slot i)
  then have "i < length (sq_cmds usq)" using assms by (auto simp: sq_inv_def used_cids_def)
  with Slot that sq_inv_cmd [OF assms(1), of r "sq_cmds usq ! i"] assms(2) show ?thesis
    by (auto simp: nth_opt_def)
next
  case Conflict
  with that sq_inv_cmd [OF assms(1), of r "sq_conflict usq"] assms(2) show ?thesis by auto
qed

text \<open>Adding one command to, and removing one from, the commands in use.\<close>

lemma sq_inv_add:
  assumes "sq_inv usq" and "r \<notin> live_refs usq" and "cmd_live r c"
    and "\<And>r'. cmd_at usq' r' = (if r' = r then Some c else cmd_at usq r')"
    and "live_refs usq' = insert r (live_refs usq)"
    and "bitmap_wf (sq_cids usq')" and "bm_size (sq_cids usq') \<le> length (sq_cmds usq')"
    and "sq_q usq' \<noteq> None" and "sq_nr_cmds usq' = sq_nr_cmds usq + 1"
  shows "sq_inv usq'"
proof -
  have "sq_nr_cmds usq' = int (card (live_refs usq'))"
    using assms(1,2,5,9) finite_live_refs [of usq] by (simp add: sq_inv_def)
  with assms sq_inv_cmd [OF assms(1)] show ?thesis
    unfolding sq_inv_def by (auto split: if_splits)
qed

lemma sq_inv_remove:
  assumes "sq_inv usq" and "r \<in> live_refs usq" and "cmd_idle c"
    and "\<And>r'. cmd_at usq' r' = (if r' = r then Some c else cmd_at usq r')"
    and "live_refs usq' = live_refs usq - {r}"
    and "bitmap_wf (sq_cids usq')" and "bm_size (sq_cids usq') \<le> length (sq_cmds usq')"
    and "sq_q usq' \<noteq> None" and "sq_nr_cmds usq' = sq_nr_cmds usq - 1"
  shows "sq_inv usq'"
proof -
  have pos: "0 < card (live_refs usq)"
    using assms(2) finite_live_refs [of usq] by (auto simp: card_gt_0_iff)
  have "card (live_refs usq') = card (live_refs usq) - 1"
    using assms(2,5) finite_live_refs [of usq] by simp
  then have "sq_nr_cmds usq' = int (card (live_refs usq'))"
    using assms(1,9) pos by (simp add: sq_inv_def)
  with assms sq_inv_cmd [OF assms(1)] show ?thesis
    unfolding sq_inv_def by (auto split: if_splits)
qed

lemma take_rq_cases:
  assumes "sq_q usq \<noteq> None"
  obtains e where "rq_acquire sops (sq_rqs usq) = Inl e" and "sq_take_rq sops usq = (Fail e, usq)"
  | rq rqs where "rq_acquire sops (sq_rqs usq) = Inr (rq, rqs)"
      and "sq_take_rq sops usq = (Ok rq, usq\<lparr>sq_q := Some ((the (sq_q usq))\<lparr>nsq_rqs := rqs\<rparr>)\<rparr>)"
  using assms
  by (cases "rq_acquire sops (sq_rqs usq)") (auto simp: sq_take_rq_def sq_rqs_def)

lemma fresh_cmd_live [simp]:
  "cmd_live Conflict (fresh_cmd cid vcq_id rq UNVMED_CMD_INJECT_CONFLICT)"
  "cmd_live (Slot (unat cid)) (fresh_cmd cid vcq_id rq UNVMED_CMD_INJECT_NONE)"
  by (simp_all add: cmd_live_def fresh_cmd_def)

lemma zero_cmd_idle [simp]: "cmd_idle zero_cmd"
  by (simp add: cmd_idle_def zero_cmd_def)

text \<open>
  What an allocation does: it takes one request and adds one command that was not in use, or it
  leaves the commands in use, the requests and the count as they were.
\<close>

definition alloc_ok ::
  "'r sq_ops \<Rightarrow> u32 \<Rightarrow> ('r, 'z) unvme_sq_scheme \<Rightarrow> cmd_ref \<Rightarrow> ('r, 'z) unvme_sq_scheme \<Rightarrow> bool" where
  "alloc_ok sops vcq_id usq r usq' \<longleftrightarrow>
     sq_inv usq' \<and> r \<notin> live_refs usq \<and> live_refs usq' = insert r (live_refs usq)
     \<and> (\<exists>cid rq injected. rq_acquire sops (sq_rqs usq) = Inr (rq, sq_rqs usq')
          \<and> (\<forall>r'. cmd_at usq' r' = (if r' = r then Some (fresh_cmd cid vcq_id rq injected)
                                    else cmd_at usq r')))"

definition same_cmds :: "('r, 'z) unvme_sq_scheme \<Rightarrow> ('r, 'z) unvme_sq_scheme \<Rightarrow> bool" where
  "same_cmds usq usq' \<longleftrightarrow> sq_inv usq' \<and> live_refs usq' = live_refs usq \<and> sq_q usq' = sq_q usq
     \<and> (\<forall>r. cmd_at usq' r = cmd_at usq r)"

lemma conflict_alloc_spec:
  assumes "sq_inv usq"
  shows "case unvmed_conflict_cmd_alloc_u2 sops cid vcq_id usq of
      (Ok r, usq') \<Rightarrow> alloc_ok sops vcq_id usq r usq' \<and> r = Conflict
    | (Fail e, usq') \<Rightarrow> usq' = usq
    | (Fault, _) \<Rightarrow> False"
proof (cases "c_state (sq_conflict usq) = UNVME_CMD_S_INIT")
  case True
  have q: "sq_q usq \<noteq> None" using assms by (simp add: sq_inv_def)
  show ?thesis
  proof (cases rule: take_rq_cases [OF q, of sops])
    case (1 e)
    with True show ?thesis by (simp add: unvmed_conflict_cmd_alloc_u2_def)
  next
    case (2 rq rqs)
    let ?c = "fresh_cmd cid vcq_id rq UNVMED_CMD_INJECT_CONFLICT"
    let ?usq = "usq\<lparr>sq_q := Some ((the (sq_q usq))\<lparr>nsq_rqs := rqs\<rparr>),
                    sq_nr_cmds := sq_nr_cmds usq + 1, sq_conflict := ?c\<rparr>"
    have run: "unvmed_conflict_cmd_alloc_u2 sops cid vcq_id usq = (Ok Conflict, ?usq)"
      using True 2 by (simp add: unvmed_conflict_cmd_alloc_u2_def)
    have at: "cmd_at ?usq r' = (if r' = Conflict then Some ?c else cmd_at usq r')" for r'
      by (cases r') auto
    have live: "live_refs ?usq = insert Conflict (live_refs usq)"
      using True by (simp add: live_refs_def fresh_cmd_def)
    have "sq_inv ?usq"
      by (rule sq_inv_add [OF assms _ _ at live]) (use assms True in \<open>auto simp: sq_inv_def\<close>)
    then show ?thesis
      using run at live 2 True by (auto simp: alloc_ok_def sq_rqs_def)
  qed
qed (simp add: unvmed_conflict_cmd_alloc_u2_def)

text \<open>The identifier bitmap \<open>b'\<close> is \<open>b\<close> with one more identifier taken.\<close>

definition cid_taken :: "unvme_bitmap \<Rightarrow> u16 \<Rightarrow> unvme_bitmap \<Rightarrow> bool" where
  "cid_taken b cid b' \<longleftrightarrow> bitmap_wf b' \<and> bm_size b' = bm_size b \<and> unat cid < bm_size b
     \<and> unat cid \<notin> used_cids b \<and> used_cids b' = insert (unat cid) (used_cids b)"

lemma sq_inv_same_cids:
  assumes "sq_inv usq" and "bitmap_wf b" and "bm_size b = bm_size (sq_cids usq)"
    and "used_cids b = used_cids (sq_cids usq)"
  shows "same_cmds usq (usq\<lparr>sq_cids := b\<rparr>)"
proof -
  have at: "cmd_at (usq\<lparr>sq_cids := b\<rparr>) r = cmd_at usq r" for r by (cases r) simp_all
  have "live_refs (usq\<lparr>sq_cids := b\<rparr>) = live_refs usq" using assms(4) by (simp add: live_refs_def)
  with assms at show ?thesis by (simp add: same_cmds_def sq_inv_def)
qed

lemma alloc_finish_spec:
  assumes "sq_inv usq" and "cid_taken (sq_cids usq) cid b"
  shows "case cmd_alloc_finish sops cid vcq_id (usq\<lparr>sq_cids := b\<rparr>) of
      (Ok r, usq') \<Rightarrow> alloc_ok sops vcq_id usq r usq' \<and> r = Slot (unat cid)
    | (Fail e, usq') \<Rightarrow> same_cmds usq usq'
    | (Fault, _) \<Rightarrow> False"
proof -
  let ?usq1 = "usq\<lparr>sq_cids := b\<rparr>"
  have q: "sq_q ?usq1 \<noteq> None" using assms(1) by (simp add: sq_inv_def)
  have taken: "bitmap_wf b" "bm_size b = bm_size (sq_cids usq)" "unat cid < bm_size b"
    "unat cid \<notin> used_cids (sq_cids usq)" "used_cids b = insert (unat cid) (used_cids (sq_cids usq))"
    using assms(2) by (auto simp: cid_taken_def)
  have len: "unat cid < length (sq_cmds usq)"
    using assms(1) taken(2,3) by (simp add: sq_inv_def)
  show ?thesis
  proof (cases rule: take_rq_cases [OF q, of sops])
    case (1 e)
    obtain b' where b': "unvmed_cid_free b cid = Ok b'" "used_cids b' = used_cids b - {unat cid}"
      "bitmap_wf b'" "bm_size b' = bm_size b"
      using cid_free_spec [OF taken(1), of cid] taken(3) by auto
    then have "same_cmds usq (usq\<lparr>sq_cids := b'\<rparr>)"
      using sq_inv_same_cids [OF assms(1) b'(3)] taken by auto
    with 1 b'(1) show ?thesis by (simp add: cmd_alloc_finish_def)
  next
    case (2 rq rqs)
    let ?c = "fresh_cmd cid vcq_id rq UNVMED_CMD_INJECT_NONE"
    let ?usq = "cmd_set (usq\<lparr>sq_cids := b, sq_q := Some ((the (sq_q usq))\<lparr>nsq_rqs := rqs\<rparr>),
                    sq_nr_cmds := sq_nr_cmds usq + 1\<rparr>) (Slot (unat cid)) ?c"
    have run: "cmd_alloc_finish sops cid vcq_id ?usq1 = (Ok (Slot (unat cid)), ?usq)"
      using 2 len by (simp add: cmd_alloc_finish_def)
    have at: "cmd_at ?usq r' = (if r' = Slot (unat cid) then Some ?c else cmd_at usq r')" for r'
      using len by (cases r') (auto simp: nth_opt_def)
    have live: "live_refs ?usq = insert (Slot (unat cid)) (live_refs usq)"
      using taken by (simp add: live_refs_def)
    have "sq_inv ?usq"
      by (rule sq_inv_add [OF assms(1) _ _ at live])
         (use assms(1) taken in \<open>auto simp: sq_inv_def\<close>)
    moreover have "sq_rqs ?usq = rqs" "sq_rqs ?usq1 = sq_rqs usq" by (simp_all add: sq_rqs_def)
    ultimately show ?thesis
      using run at live 2(1) taken(4) unfolding alloc_ok_def by auto
  qed
qed

lemma cmd_alloc_spec:
  assumes "sq_inv usq"
  shows "case unvmed_cmd_alloc_u2 sops cid vcq_id usq of
      (Ok r, usq') \<Rightarrow> alloc_ok sops vcq_id usq r usq'
    | (Fail e, usq') \<Rightarrow> same_cmds usq usq'
    | (Fault, _) \<Rightarrow> False"
proof -
  have wf: "bitmap_wf (sq_cids usq)" using assms by (simp add: sq_inv_def)
  have same: "same_cmds usq usq" using assms by (simp add: same_cmds_def)
  show ?thesis
  proof (cases cid)
    case None
    show ?thesis
    proof (cases rule: cid_alloc_cases [OF wf])
      case 1
      with None same show ?thesis by (simp add: unvmed_cmd_alloc_u2_def)
    next
      case (2 c b)
      then have "cid_taken (sq_cids usq) c b" by (simp add: cid_taken_def)
      from alloc_finish_spec [OF assms this, where sops = sops and vcq_id = vcq_id] 2(1) None show ?thesis
        by (auto simp: unvmed_cmd_alloc_u2_def split: outcome.splits prod.splits)
    qed
  next
    case (Some c)
    note alloc_n = cid_alloc_n_spec [OF wf, of c]
    show ?thesis
    proof (cases "unvmed_cid_alloc_n (sq_cids usq) c")
      case (Ok b)
      with alloc_n have "cid_taken (sq_cids usq) c b"
        by (auto simp: cid_taken_def split: if_splits)
      from alloc_finish_spec [OF assms this, where sops = sops and vcq_id = vcq_id] Ok Some show ?thesis
        by (auto simp: unvmed_cmd_alloc_u2_def split: outcome.splits prod.splits)
    next
      case (Fail e)
      with Some same conflict_alloc_spec [OF assms, where sops = sops and cid = c and vcq_id = vcq_id] show ?thesis
        by (auto simp: unvmed_cmd_alloc_u2_def split: outcome.splits prod.splits)
    next
      case Fault
      with alloc_n show ?thesis by (auto split: if_splits)
    qed
  qed
qed

text \<open>What releasing the last reference of a command does to the queue.\<close>

definition free_ok ::
  "'r sq_ops \<Rightarrow> ('r, 'z) unvme_sq_scheme \<Rightarrow> cmd_ref \<Rightarrow> nat \<Rightarrow> ('r, 'z) unvme_sq_scheme \<Rightarrow> bool" where
  "free_ok sops usq r rq usq' \<longleftrightarrow>
     sq_inv usq' \<and> live_refs usq' = live_refs usq - {r}
     \<and> sq_rqs usq' = rq_release sops (sq_rqs usq) rq
     \<and> (\<forall>r'. cmd_at usq' r' = (if r' = r then Some zero_cmd else cmd_at usq r'))"

lemma cmd_free_u2_spec:
  assumes "sq_inv usq" and "cmd_at usq r = Some c" and "r \<in> live_refs usq"
  shows "\<exists>usq'. unvmed_cmd_free_u2 sops r (cmd_set usq r (c\<lparr>c_refcnt := n\<rparr>)) = (Ok (), usq')
    \<and> free_ok sops usq r (the (c_rq c)) usq'"
proof -
  have live: "cmd_live r c" using sq_inv_cmd [OF assms(1,2)] assms(3) by simp
  obtain q where q: "sq_q usq = Some q" using assms(1) by (auto simp: sq_inv_def)
  obtain rq where rq: "c_rq c = Some rq" using live by (auto simp: cmd_live_def)
  let ?d = "c\<lparr>c_refcnt := n\<rparr>"
  let ?usq1 = "(cmd_set usq r zero_cmd)\<lparr>sq_nr_cmds := sq_nr_cmds usq - 1,
                 sq_q := Some (q\<lparr>nsq_rqs := rq_release sops (nsq_rqs q) rq\<rparr>)\<rparr>"
  have at0: "cmd_at (cmd_set usq r ?d) r = Some ?d" using cmd_at_set [OF assms(2)] by simp
  have set2: "cmd_set (cmd_set usq r ?d) r zero_cmd = cmd_set usq r zero_cmd" by (cases r) simp_all
  have at: "cmd_at (?usq1\<lparr>sq_cids := b\<rparr>) r' = (if r' = r then Some zero_cmd else cmd_at usq r')" for b r'
    using cmd_at_set [OF assms(2), of zero_cmd r'] by (cases r'; cases r) auto
  have rqs: "sq_rqs (?usq1\<lparr>sq_cids := b\<rparr>) = rq_release sops (sq_rqs usq) rq" for b
    using q by (simp add: sq_rqs_def)
  have run: "unvmed_cmd_free_u2 sops r (cmd_set usq r ?d) =
     (if c_injected c = UNVMED_CMD_INJECT_CONFLICT then (Ok (), ?usq1)
      else (case unvmed_cid_free (sq_cids usq) (c_cid c) of
              Ok b \<Rightarrow> (Ok (), ?usq1\<lparr>sq_cids := b\<rparr>) | Fail _ \<Rightarrow> (Ok (), ?usq1)
            | Fault \<Rightarrow> (Fault, ?usq1)))"
    using at0 q rq set2 by (simp add: unvmed_cmd_free_u2_def Let_def)
  show ?thesis
  proof (cases r)
    case Conflict
    have eq: "?usq1\<lparr>sq_cids := sq_cids usq\<rparr> = ?usq1" using Conflict by simp
    have "live_refs ?usq1 = live_refs usq - {r}"
      using Conflict by (auto simp: live_refs_def zero_cmd_def)
    then have "sq_inv ?usq1"
      using at [of "sq_cids usq", unfolded eq] assms(1,3)
      by (intro sq_inv_remove [OF assms(1,3) zero_cmd_idle]) (auto simp: sq_inv_def)
    moreover have "c_injected c = UNVMED_CMD_INJECT_CONFLICT"
      using live Conflict by (simp add: cmd_live_def)
    ultimately show ?thesis
      using run at [of "sq_cids usq", unfolded eq] rqs [of "sq_cids usq", unfolded eq] rq
        \<open>live_refs ?usq1 = live_refs usq - {r}\<close> by (simp add: free_ok_def)
  next
    case (Slot i)
    have cid: "unat (c_cid c) = i" "c_injected c = UNVMED_CMD_INJECT_NONE"
      using live Slot by (auto simp: cmd_live_def)
    have "i \<in> used_cids (sq_cids usq)" using assms(3) Slot by simp
    then have "i < bm_size (sq_cids usq)" by (simp add: used_cids_def)
    moreover have "bitmap_wf (sq_cids usq)" using assms(1) by (simp add: sq_inv_def)
    ultimately obtain b where b: "unvmed_cid_free (sq_cids usq) (c_cid c) = Ok b"
      "used_cids b = used_cids (sq_cids usq) - {i}" "bitmap_wf b" "bm_size b = bm_size (sq_cids usq)"
      using cid_free_spec [of "sq_cids usq" "c_cid c"] cid by auto
    let ?usq2 = "?usq1\<lparr>sq_cids := b\<rparr>"
    have live': "live_refs ?usq2 = live_refs usq - {r}"
      using Slot b(2) by (auto simp: live_refs_def)
    have "sq_inv ?usq2"
      by (rule sq_inv_remove [OF assms(1,3) zero_cmd_idle at live'])
         (use assms(1) b in \<open>auto simp: sq_inv_def\<close>)
    then show ?thesis
      using run b(1) cid(2) live' at rqs rq by (simp add: free_ok_def)
  qed
qed

end
