(* ===== verification/Cmd_Life.thy ===== *)
theory Cmd_Life
  imports Cmd
begin

unbundle bit_operations_syntax

text \<open>
  Commands as resources: every entry point that allocates a command takes one slot, one request
  and the buffers it says, and putting the command gives exactly these back. The resource
  contract then covers every sequence of allocations and releases.
\<close>

subsection \<open>Putting the last reference\<close>

lemma buf_free_zero [simp]: "unvmed_buf_free ops zero_buf u = (Ok (), u)"
  by (simp add: unvmed_buf_free_def zero_buf_def)

lemma buf_owns_zero [simp]: "buf_owns zero_buf = {}"
  by (simp add: buf_owns_def zero_buf_def)

text \<open>Releasing a buffer of the caller whose mapping is gone already changes nothing.\<close>

lemma buf_free_again:
  assumes "dma_laws ops mapped" and "buf_flags b AND UNVME_CMD_BUF_F_VA_UNMAP = 0"
    and "buf_owns b \<inter> ledger mapped u = {}"
  shows "unvmed_buf_free ops b u = (Ok (), u)"
proof (cases "buf_flags b AND UNVME_CMD_BUF_F_IOVA_UNMAP = 0")
  case False
  then have "buf_va b \<notin> mapped (iommu u)" using assms(3) by (auto simp: buf_owns_def ledger_def)
  then obtain e where "iommu_unmap_vaddr ops (iommu u) (buf_va b) = Inl e"
    using iommu_unmap_unmapped [OF assms(1)] by blast
  then have "ignore (unvmed_unmap_vaddr ops (buf_va b) u) = u"
    by (simp add: unvmed_unmap_vaddr_def ignore_def)
  with assms(2) show ?thesis by (simp add: unvmed_buf_free_def)
qed (use assms(2) in \<open>simp add: unvmed_buf_free_def\<close>)

lemma cmd_put_last:
  assumes "sq_inv usq" and "cmd_at usq r = Some c" and "r \<in> live_refs usq" and "c_refcnt c = 1"
    and "andthen (unvmed_buf_free ops (c_buf c) u) (\<lambda>_ u1. unvmed_buf_free ops (c_mbuf c) u1)
           = (Ok (), u')"
  shows "\<exists>usq'. unvmed_cmd_put ops sops r (usq, u) = (Ok 0, usq', u')
    \<and> free_ok sops usq r (the (c_rq c)) usq'"
proof -
  obtain usq' where "unvmed_cmd_free_u2 sops r (cmd_set usq r (c\<lparr>c_refcnt := 0\<rparr>)) = (Ok (), usq')"
    and "free_ok sops usq r (the (c_rq c)) usq'"
    using cmd_free_u2_spec [OF assms(1-3), of sops 0] by blast
  moreover have "cmd_at (cmd_set usq r (c\<lparr>c_refcnt := 0\<rparr>)) r = Some (c\<lparr>c_refcnt := 0\<rparr>)"
    using cmd_at_set [OF assms(2)] by simp
  ultimately show ?thesis
    using assms(2,4,5) by (simp add: unvmed_cmd_put_def unvmed_cmd_free_def)
qed

text \<open>Two buffers that own different things are released one after the other.\<close>

lemma buf_free_two:
  assumes "dma_laws ops mapped" and "bdf u \<noteq> None" and "0 \<notin> heap u"
    and "buf_owns b \<union> buf_owns mb \<subseteq> ledger mapped u" and "buf_owns b \<inter> buf_owns mb = {}"
  shows "\<exists>u'. andthen (unvmed_buf_free ops b u) (\<lambda>_ u1. unvmed_buf_free ops mb u1) = (Ok (), u')
    \<and> dma_frame u u' \<and> ledger mapped u' = ledger mapped u - (buf_owns b \<union> buf_owns mb)"
proof -
  have ok: "buf_ok b" "buf_ok mb" using assms(3,4) by (auto intro: buf_ok_owned)
  obtain u1 where u1: "unvmed_buf_free ops b u = (Ok (), u1)" "dma_frame u u1"
    "ledger mapped u1 = ledger mapped u - buf_owns b"
    using buf_free_spec [OF assms(1,2) ok(1)] assms(4) by blast
  have "bdf u1 \<noteq> None" "buf_owns mb \<subseteq> ledger mapped u1"
    using dma_frame_fields [OF u1(2)] assms(2,4,5) u1(3) by auto
  then obtain u2 where "unvmed_buf_free ops mb u1 = (Ok (), u2)" "dma_frame u1 u2"
    "ledger mapped u2 = ledger mapped u1 - buf_owns mb"
    using buf_free_spec [OF assms(1) _ ok(2)] by blast
  with u1 show ?thesis by (auto intro: dma_frame_trans)
qed

subsection \<open>Initialising a command\<close>

text \<open>
  The queue has one more command \<open>r\<close>, with the buffers \<open>b\<close> and \<open>mb\<close> and the request \<open>rq\<close>,
  and is otherwise as before.
\<close>

definition init_ok ::
  "'r sq_ops \<Rightarrow> ('r, 'z) unvme_sq_scheme \<Rightarrow> cmd_ref \<Rightarrow> unvme_buf \<Rightarrow> unvme_buf \<Rightarrow> nat
   \<Rightarrow> ('r, 'z) unvme_sq_scheme \<Rightarrow> bool" where
  "init_ok sops usq r b mb rq usq' \<longleftrightarrow>
     sq_inv usq' \<and> r \<notin> live_refs usq \<and> live_refs usq' = insert r (live_refs usq)
     \<and> rq_acquire sops (sq_rqs usq) = Inr (rq, sq_rqs usq')
     \<and> (\<exists>c. cmd_at usq' r = Some c \<and> c_buf c = b \<and> c_mbuf c = mb \<and> c_rq c = Some rq \<and> c_refcnt c = 1)
     \<and> (\<forall>r'. r' \<noteq> r \<longrightarrow> cmd_at usq' r' = cmd_at usq r')"

lemma alloc_ok_init:
  "alloc_ok sops vcq_id usq r usq' \<Longrightarrow> \<exists>rq. init_ok sops usq r zero_buf zero_buf rq usq'"
  by (auto simp: alloc_ok_def init_ok_def fresh_cmd_def zero_cmd_def)

lemma cmd_set_live_refs:
  assumes "cmd_at usq r = Some c" and "c_state d = c_state c"
  shows "live_refs (cmd_set usq r d) = live_refs usq"
  using assms by (cases r) (auto simp: live_refs_def)

lemma sq_inv_set:
  assumes "sq_inv usq" and "cmd_at usq r = Some c" and "c_state d = c_state c"
    and "c_refcnt d = c_refcnt c" and "c_rq d = c_rq c" and "c_injected d = c_injected c"
    and "c_cid d = c_cid c"
  shows "sq_inv (cmd_set usq r d)"
proof -
  have live: "live_refs (cmd_set usq r d) = live_refs usq"
    by (rule cmd_set_live_refs [OF assms(2,3)])
  have "cmd_owned r' d \<longleftrightarrow> cmd_owned r' c" for r' using assms(6,7) by (cases r') simp_all
  then have "cmd_live r' d \<longleftrightarrow> cmd_live r' c" "cmd_idle d \<longleftrightarrow> cmd_idle c" for r'
    using assms by (auto simp: cmd_live_def cmd_idle_def)
  then show ?thesis
    using assms(1,2) live cmd_at_set [OF assms(2), of d] by (auto simp: sq_inv_def)
qed

lemma init_ok_set:
  assumes "init_ok sops usq r b mb rq usq'" and "cmd_at usq' r = Some c"
  shows "init_ok sops usq r b' mb' rq (cmd_set usq' r (c\<lparr>c_buf := b', c_mbuf := mb'\<rparr>))"
proof -
  let ?d = "c\<lparr>c_buf := b', c_mbuf := mb'\<rparr>"
  have "sq_inv (cmd_set usq' r ?d)"
    using sq_inv_set [OF _ assms(2), of ?d] assms(1) by (simp add: init_ok_def)
  moreover have "live_refs (cmd_set usq' r ?d) = live_refs usq'"
    by (rule cmd_set_live_refs [OF assms(2)]) simp
  moreover have "sq_rqs (cmd_set usq' r ?d) = sq_rqs usq'" by (simp add: sq_rqs_def)
  ultimately show ?thesis
    using assms cmd_at_set [OF assms(2), of ?d] by (auto simp: init_ok_def)
qed

text \<open>
  Freeing a command that was just initialised leaves the commands in use as they were before,
  and its request is back in the pool.
\<close>

definition undo_ok ::
  "'r sq_ops \<Rightarrow> ('r, 'z) unvme_sq_scheme \<Rightarrow> ('r, 'z) unvme_sq_scheme \<Rightarrow> bool" where
  "undo_ok sops usq usq' \<longleftrightarrow> sq_inv usq' \<and> live_refs usq' = live_refs usq
     \<and> (\<forall>r\<in>live_refs usq. cmd_at usq' r = cmd_at usq r)
     \<and> (sq_rqs usq' = sq_rqs usq \<or>
        (\<exists>rq rqs. rq_acquire sops (sq_rqs usq) = Inr (rq, rqs) \<and> sq_rqs usq' = rq_release sops rqs rq))"

lemma init_free_undo:
  assumes "init_ok sops usq r b mb rq usq1" and "free_ok sops usq1 r rq usq2"
  shows "undo_ok sops usq usq2"
  using assms by (auto simp: init_ok_def free_ok_def undo_ok_def)

lemma same_cmds_undo: "same_cmds usq usq' \<Longrightarrow> undo_ok sops usq usq'"
  by (auto simp: same_cmds_def undo_ok_def sq_rqs_def)

lemma buf_init_none: "unvmed_buf_init ops 0 0 u = (Ok zero_buf, u)"
  by (simp add: unvmed_buf_init_def buf_init_alloc_def zero_buf_def Let_def)

lemma buf_init_given_flags:
  "unvmed_buf_init ops buf len u = (Ok b, u') \<Longrightarrow> buf \<noteq> 0 \<Longrightarrow>
   buf_flags b AND UNVME_CMD_BUF_F_VA_UNMAP = 0"
  by (auto simp: unvmed_buf_init_def buf_init_alloc_def Let_def
        split: if_splits outcome.splits prod.splits)

text \<open>
  The outcomes that an initialisation may have, relative to the queue and controller it started
  from: the command is there and owns what the ledger gained, or everything is as before.
\<close>

definition init_outcome ::
  "('m \<Rightarrow> nat set) \<Rightarrow> 'r sq_ops \<Rightarrow> ('r, 'y) unvme_sq_scheme \<Rightarrow> ('m, 'z) unvme_dma_scheme
   \<Rightarrow> cmd_ref outcome \<times> ('r, 'y) unvme_sq_scheme \<times> ('m, 'z) unvme_dma_scheme \<Rightarrow> bool" where
  "init_outcome mapped sops usq u res \<longleftrightarrow> (case res of
      (Ok r, usq', u') \<Rightarrow> \<exists>b mb rq. init_ok sops usq r b mb rq usq' \<and> dma_frame u u'
        \<and> (buf_owns b \<union> buf_owns mb) \<inter> ledger mapped u = {} \<and> buf_owns b \<inter> buf_owns mb = {}
        \<and> ledger mapped u' = ledger mapped u \<union> (buf_owns b \<union> buf_owns mb)
        \<and> buf_ok b \<and> buf_ok mb
    | (Fail e, usq', u') \<Rightarrow> undo_ok sops usq usq' \<and> dma_frame u u' \<and> ledger mapped u' = ledger mapped u
    | (Fault, _) \<Rightarrow> False)"

text \<open>
  The second half: \<open>usq1\<close> and \<open>u1\<close> are \<open>usq\<close> and \<open>u\<close> with the command and its data buffer
  \<open>b\<close>. When the metadata buffer fails, the data buffer must not be one that was allocated here.
\<close>

lemma cmd_init_meta_spec:
  assumes laws: "dma_laws ops mapped" and "bdf u1 \<noteq> None"
    and init: "init_ok sops usq r b zero_buf rq usq1" and at: "cmd_at usq1 r = Some c"
    and b: "buf_ok b" "buf_owns b \<inter> ledger mapped u = {}"
      "ledger mapped u1 = ledger mapped u \<union> buf_owns b" "dma_frame u u1"
    and given: "buf_flags b AND UNVME_CMD_BUF_F_VA_UNMAP = 0 \<or> (mbuf = 0 \<and> mlen = 0)"
  shows "init_outcome mapped sops usq u (cmd_init_meta ops sops r c mbuf mlen (usq1, u1))"
proof -
  have c: "c_buf c = b" "c_mbuf c = zero_buf" "c_rq c = Some rq" "c_refcnt c = 1"
    and inv: "sq_inv usq1" "r \<in> live_refs usq1"
    using init at by (auto simp: init_ok_def)
  obtain out u2 where mb: "unvmed_buf_init ops mbuf (ucast mlen) u1 = (out, u2)" by fastforce
  note spec = buf_init_spec [OF laws, where b = mbuf and l = "ucast mlen" and u = u1, unfolded mb]
  show ?thesis
  proof (cases out)
    case Fault
    with spec show ?thesis by simp
  next
    case (Fail e)
    then have "\<not> (mbuf = 0 \<and> mlen = 0)" using mb by (auto simp: buf_init_none)
    with given have flag: "buf_flags b AND UNVME_CMD_BUF_F_VA_UNMAP = 0" by blast
    have u2: "u2 = u1" using spec Fail by simp
    obtain u3 where u3: "unvmed_buf_free ops b u1 = (Ok (), u3)" "dma_frame u1 u3"
      "ledger mapped u3 = ledger mapped u1 - buf_owns b"
      using buf_free_spec [OF laws assms(2) b(1)] b(3) by blast
    have led: "ledger mapped u3 = ledger mapped u" using u3(3) b(2,3) by auto
    have "unvmed_buf_free ops b u3 = (Ok (), u3)"
      using buf_free_again [OF laws flag, of u3] b(2) led by simp
    then obtain usq2 where put: "unvmed_cmd_put ops sops r (usq1, u3) = (Ok 0, usq2, u3)"
      "free_ok sops usq1 r rq usq2"
      using cmd_put_last [OF inv(1) at inv(2), of ops u3 u3 sops] c by auto
    have "dma_frame u u3" using b(4) u3(2) by (rule dma_frame_trans)
    with put init_free_undo [OF init put(2)] mb Fail u2 u3(1) led c(1) show ?thesis
      by (simp add: init_outcome_def cmd_init_meta_def fail_after_def)
  next
    case (Ok m)
    have m: "buf_ok m" "buf_owns m \<inter> ledger mapped u1 = {}"
      "ledger mapped u2 = ledger mapped u1 \<union> buf_owns m" "dma_frame u1 u2"
      using spec Ok by auto
    have "c\<lparr>c_mbuf := m\<rparr> = c\<lparr>c_buf := b, c_mbuf := m\<rparr>" using c(1) by simp
    then have "init_ok sops usq r b m rq (cmd_set usq1 r (c\<lparr>c_mbuf := m\<rparr>))"
      using init_ok_set [OF init at, of b m] by simp
    moreover have "dma_frame u u2" using b(4) m(4) by (rule dma_frame_trans)
    moreover have "(buf_owns b \<union> buf_owns m) \<inter> ledger mapped u = {}" "buf_owns b \<inter> buf_owns m = {}"
      "ledger mapped u2 = ledger mapped u \<union> (buf_owns b \<union> buf_owns m)"
      using b(2,3) m(2,3) by auto
    ultimately show ?thesis
      using mb Ok b(1) m(1) by (auto simp: init_outcome_def cmd_init_meta_def)
  qed
qed

text \<open>
  The outcome of \<open>__unvmed_cmd_init()\<close> as the entry points call it: with a buffer of the
  caller, or without metadata.
\<close>

lemma cmd_init_spec:
  assumes laws: "dma_laws ops mapped" and bdf: "bdf u \<noteq> None" and inv: "sq_inv usq"
    and given: "buf \<noteq> 0 \<or> (mbuf = 0 \<and> mlen = 0)"
  shows "init_outcome mapped sops usq u
    (unvmed_cmd_init_u2 ops sops cid buf len mbuf mlen vcq_id (usq, u))"
proof -
  obtain out usq1 where alloc: "unvmed_cmd_alloc_u2 sops cid vcq_id usq = (out, usq1)" by fastforce
  note spec = cmd_alloc_spec [OF inv, where sops = sops and cid = cid and vcq_id = vcq_id, unfolded alloc]
  show ?thesis
  proof (cases out)
    case (Fail e)
    with alloc spec same_cmds_undo show ?thesis
      by (auto simp: unvmed_cmd_init_u2_def init_outcome_def)
  next
    case (Ok r)
    with spec obtain rq where init: "init_ok sops usq r zero_buf zero_buf rq usq1"
      using alloc_ok_init by fastforce
    then obtain c where c: "cmd_at usq1 r = Some c" "c_buf c = zero_buf" "c_mbuf c = zero_buf"
      "c_rq c = Some rq" "c_refcnt c = 1" and inv1: "sq_inv usq1" "r \<in> live_refs usq1"
      by (auto simp: init_ok_def)
    obtain bout u1 where buf: "unvmed_buf_init ops buf (ucast len) u = (bout, u1)" by fastforce
    note bspec = buf_init_spec [OF laws, where b = buf and l = "ucast len" and u = u, unfolded buf]
    show ?thesis
    proof (cases bout)
      case (Fail e)
      obtain usq2 where put: "unvmed_cmd_put ops sops r (usq1, u) = (Ok 0, usq2, u)"
        "free_ok sops usq1 r rq usq2"
        using cmd_put_last [OF inv1(1) c(1) inv1(2) c(5), of ops u u sops] c by auto
      with Fail buf bspec alloc Ok c init_free_undo [OF init put(2)] show ?thesis
        by (simp add: unvmed_cmd_init_u2_def fail_after_def init_outcome_def)
    next
      case okb: (Ok b)
      have b: "buf_ok b" "buf_owns b \<inter> ledger mapped u = {}"
        "ledger mapped u1 = ledger mapped u \<union> buf_owns b" "dma_frame u u1"
        using bspec okb by auto
      let ?c = "c\<lparr>c_buf := b\<rparr>"
      have "?c = c\<lparr>c_buf := b, c_mbuf := zero_buf\<rparr>" using c(3) by simp
      then have init1: "init_ok sops usq r b zero_buf rq (cmd_set usq1 r ?c)"
        using init_ok_set [OF init c(1), of b zero_buf] by simp
      have "bdf u1 \<noteq> None" using dma_frame_fields [OF b(4)] bdf by simp
      moreover have "cmd_at (cmd_set usq1 r ?c) r = Some ?c" using cmd_at_set [OF c(1)] by simp
      moreover have "buf_flags b AND UNVME_CMD_BUF_F_VA_UNMAP = 0 \<or> (mbuf = 0 \<and> mlen = 0)"
        using buf_init_given_flags buf okb given by blast
      ultimately have "init_outcome mapped sops usq u
          (cmd_init_meta ops sops r ?c mbuf mlen (cmd_set usq1 r ?c, u1))"
        using cmd_init_meta_spec [OF laws _ init1 _ b] by blast
      with alloc Ok c(1) buf okb show ?thesis by (simp add: unvmed_cmd_init_u2_def)
    qed (use bspec in simp)
  qed (use spec in simp)
qed

subsection \<open>Commands as resources\<close>

text \<open>
  The environment of a queue: the DMA calls and the mappings they keep, and libvfn's queue calls
  with the identifiers of its requests, those that are free, and the invariant of its pool.
\<close>

record ('m, 'r) cmd_env =
  e_dma :: "'m dma_ops"
  e_mapped :: "'m \<Rightarrow> nat set"
  e_sq :: "'r sq_ops"
  e_ids :: "'r \<Rightarrow> nat set"
  e_free :: "'r \<Rightarrow> nat set"
  e_rqinv :: "'r \<Rightarrow> bool"

definition rq_get :: "'r sq_ops \<Rightarrow> 'r \<Rightarrow> (nat \<times> 'r) option" where
  "rq_get sops r = (case rq_acquire sops r of Inl _ \<Rightarrow> None | Inr x \<Rightarrow> Some x)"

text \<open>What the environment promises: the request pool of libvfn is an identifier pool.\<close>

definition cmd_env_laws :: "('m, 'r) cmd_env \<Rightarrow> bool" where
  "cmd_env_laws env \<longleftrightarrow> dma_laws (e_dma env) (e_mapped env)
     \<and> id_pool (rq_get (e_sq env)) (rq_release (e_sq env)) (e_ids env) (e_free env) (e_rqinv env)"

type_synonym ('m, 'r, 'y, 'z) cmd_sys =
  "('m, 'r) cmd_env \<times> ('r, 'y) unvme_sq_scheme \<times> ('m, 'z) unvme_dma_scheme"

text \<open>
  What is in use: the commands with their buffers and requests, the requests taken out of the
  pool, and the ledger of blocks and mappings.
\<close>

datatype cmd_item = ItemCmd cmd_ref unvme_buf unvme_buf nat | ItemRq nat | ItemDma item

definition held_rqs :: "('m, 'r) cmd_env \<Rightarrow> 'r \<Rightarrow> nat set" where
  "held_rqs env r = e_ids env r - e_free env r"

definition cmd_item :: "('r, 'y) unvme_sq_scheme \<Rightarrow> cmd_ref \<Rightarrow> cmd_item" where
  "cmd_item usq r =
     (let c = the (cmd_at usq r) in ItemCmd r (c_buf c) (c_mbuf c) (the (c_rq c)))"

definition cmd_items :: "('r, 'y) unvme_sq_scheme \<Rightarrow> cmd_item set" where
  "cmd_items usq = cmd_item usq ` live_refs usq"

definition cmd_sys_live :: "('m, 'r, 'y, 'z) cmd_sys \<Rightarrow> cmd_item set" where
  "cmd_sys_live = (\<lambda>(env, usq, u). cmd_items usq \<union> ItemRq ` held_rqs env (sq_rqs usq)
     \<union> ItemDma ` ledger (e_mapped env) u)"

text \<open>Every command in use has one reference, and its two buffers own different things.\<close>

definition single_refs :: "('r, 'y) unvme_sq_scheme \<Rightarrow> bool" where
  "single_refs usq \<longleftrightarrow> (\<forall>r c. r \<in> live_refs usq \<longrightarrow> cmd_at usq r = Some c \<longrightarrow>
     c_refcnt c = 1 \<and> buf_owns (c_buf c) \<inter> buf_owns (c_mbuf c) = {})"

definition cmd_sys_wf :: "('m, 'r, 'y, 'z) cmd_sys \<Rightarrow> bool" where
  "cmd_sys_wf = (\<lambda>(env, usq, u). cmd_env_laws env \<and> bdf u \<noteq> None \<and> 0 \<notin> heap u \<and> sq_inv usq
     \<and> e_rqinv env (sq_rqs usq) \<and> single_refs usq)"

text \<open>The requests of the entry points, and the calls that serve them.\<close>

datatype alloc_req =
    ReqBuf "u16 option" nat u64
  | ReqNodata "u16 option"
  | ReqCid "u16 option" u32
  | ReqMeta "u16 option" nat u64 nat u64

fun serve_req ::
  "'m dma_ops \<Rightarrow> 'r sq_ops \<Rightarrow> alloc_req \<Rightarrow> ('r, 'y) unvme_sq_scheme \<times> ('m, 'z) unvme_dma_scheme
   \<Rightarrow> cmd_ref outcome \<times> ('r, 'y) unvme_sq_scheme \<times> ('m, 'z) unvme_dma_scheme" where
  "serve_req ops sops (ReqBuf cid buf len) s = unvmed_alloc_cmd ops sops cid buf len s"
| "serve_req ops sops (ReqNodata cid) s = unvmed_alloc_cmd_nodata ops sops cid s"
| "serve_req ops sops (ReqCid cid vcq_id) s = unvmed_alloc_cmd_cid ops sops cid vcq_id s"
| "serve_req ops sops (ReqMeta cid buf len mbuf mlen) s =
     unvmed_alloc_cmd_meta ops sops cid buf len mbuf mlen s"

text \<open>A command that was handed out: where it is, its buffers and its request.\<close>

type_synonym cmd_handle = "cmd_ref \<times> unvme_buf \<times> unvme_buf \<times> nat"

definition cmd_owns :: "cmd_handle \<Rightarrow> cmd_item set" where
  "cmd_owns = (\<lambda>(r, b, mb, rq).
     {ItemCmd r b mb rq, ItemRq rq} \<union> ItemDma ` (buf_owns b \<union> buf_owns mb))"

definition cmd_acquire ::
  "alloc_req \<Rightarrow> ('m, 'r, 'y, 'z) cmd_sys \<Rightarrow> cmd_handle outcome \<times> ('m, 'r, 'y, 'z) cmd_sys" where
  "cmd_acquire req = (\<lambda>(env, usq, u).
     case serve_req (e_dma env) (e_sq env) req (usq, u) of
       (Ok r, usq', u') \<Rightarrow>
         (case cmd_at usq' r of
            None \<Rightarrow> (Fault, env, usq', u')
          | Some c \<Rightarrow> (Ok (r, c_buf c, c_mbuf c, the (c_rq c)), env, usq', u'))
     | (Fail e, usq', u') \<Rightarrow> (Fail e, env, usq', u')
     | (Fault, usq', u') \<Rightarrow> (Fault, env, usq', u'))"

definition cmd_release ::
  "cmd_handle \<Rightarrow> ('m, 'r, 'y, 'z) cmd_sys \<Rightarrow> unit outcome \<times> ('m, 'r, 'y, 'z) cmd_sys" where
  "cmd_release = (\<lambda>(r, _, _, _) (env, usq, u).
     case unvmed_cmd_put (e_dma env) (e_sq env) r (usq, u) of
       (Ok n, usq', u') \<Rightarrow> (Ok (), env, usq', u')
     | (Fail e, usq', u') \<Rightarrow> (Fail e, env, usq', u')
     | (Fault, usq', u') \<Rightarrow> (Fault, env, usq', u'))"

lemma init_outcome_refused: "sq_inv usq \<Longrightarrow> init_outcome mapped sops usq u (Fail e, usq, u)"
  by (simp add: init_outcome_def undo_ok_def)

lemma serve_req_spec:
  assumes "dma_laws ops mapped" and "bdf u \<noteq> None" and "sq_inv usq"
  shows "init_outcome mapped sops usq u (serve_req ops sops req (usq, u))"
  by (cases req) (auto simp: unvmed_alloc_cmd_def unvmed_alloc_cmd_nodata_def
        unvmed_alloc_cmd_cid_def unvmed_alloc_cmd_meta_def
        intro!: cmd_init_spec [OF assms] init_outcome_refused [OF assms(3)])

text \<open>The requests held, after an acquire, an acquire and release, and a release.\<close>

lemma rq_laws_get:
  assumes "cmd_env_laws env" and "e_rqinv env p" and "rq_acquire (e_sq env) p = Inr (rq, p')"
  shows "e_rqinv env p' \<and> rq \<notin> held_rqs env p \<and> held_rqs env p' = insert rq (held_rqs env p)
    \<and> rq \<in> e_ids env p' \<and> rq \<notin> e_free env p'"
proof -
  have pool: "id_pool (rq_get (e_sq env)) (rq_release (e_sq env)) (e_ids env) (e_free env) (e_rqinv env)"
    using assms(1) by (simp add: cmd_env_laws_def)
  have "rq_get (e_sq env) p = Some (rq, p')" using assms(3) by (simp add: rq_get_def)
  from id_pool.acq_some [OF pool assms(2) this] id_pool.free_ids [OF pool assms(2)]
  show ?thesis by (auto simp: held_rqs_def)
qed

lemma rq_laws_put:
  assumes "cmd_env_laws env" and "e_rqinv env p" and "rq \<in> held_rqs env p"
  shows "e_rqinv env (rq_release (e_sq env) p rq)
    \<and> held_rqs env (rq_release (e_sq env) p rq) = held_rqs env p - {rq}"
proof -
  have pool: "id_pool (rq_get (e_sq env)) (rq_release (e_sq env)) (e_ids env) (e_free env) (e_rqinv env)"
    using assms(1) by (simp add: cmd_env_laws_def)
  from id_pool.rel_held [OF pool assms(2), of rq] assms(3) show ?thesis
    by (auto simp: held_rqs_def)
qed

lemma undo_rqs:
  assumes "cmd_env_laws env" and "e_rqinv env (sq_rqs usq)" and "undo_ok (e_sq env) usq usq'"
  shows "e_rqinv env (sq_rqs usq') \<and> held_rqs env (sq_rqs usq') = held_rqs env (sq_rqs usq)"
proof (cases "sq_rqs usq' = sq_rqs usq")
  case False
  then obtain rq p where p: "rq_acquire (e_sq env) (sq_rqs usq) = Inr (rq, p)"
    "sq_rqs usq' = rq_release (e_sq env) p rq" using assms(3) by (auto simp: undo_ok_def)
  note got = rq_laws_get [OF assms(1,2) p(1)]
  have "rq \<in> held_rqs env p" using got by simp
  with rq_laws_put [OF assms(1) _ this] got p(2) show ?thesis by auto
qed (use assms(2) in simp)

text \<open>The commands in use, likewise.\<close>

lemma cmd_item_inj: "inj (cmd_item usq)"
  by (auto simp: inj_def cmd_item_def Let_def)

lemma cmd_item_cong: "cmd_at usq' r = cmd_at usq r \<Longrightarrow> cmd_item usq' r = cmd_item usq r"
  by (simp add: cmd_item_def)

lemma init_items:
  assumes "init_ok sops usq r b mb rq usq'"
  shows "cmd_items usq' = insert (ItemCmd r b mb rq) (cmd_items usq)
    \<and> ItemCmd r b' mb' rq' \<notin> cmd_items usq"
proof -
  have live: "r \<notin> live_refs usq" "live_refs usq' = insert r (live_refs usq)"
    and same: "\<And>r'. r' \<noteq> r \<Longrightarrow> cmd_at usq' r' = cmd_at usq r'"
    using assms by (auto simp: init_ok_def)
  have "cmd_item usq' ` live_refs usq = cmd_item usq ` live_refs usq"
    by (intro image_cong refl) (metis cmd_item_cong same live(1))
  moreover have "cmd_item usq' r = ItemCmd r b mb rq"
    using assms by (auto simp: init_ok_def cmd_item_def)
  ultimately show ?thesis
    using live by (auto simp: cmd_items_def) (auto simp: cmd_item_def Let_def)
qed

lemma undo_items: "undo_ok sops usq usq' \<Longrightarrow> cmd_items usq' = cmd_items usq"
  by (auto simp: undo_ok_def cmd_items_def image_iff intro: cmd_item_cong)
     (metis cmd_item_cong)+

lemma free_items:
  assumes "free_ok sops usq r rq usq'"
  shows "cmd_items usq' = cmd_items usq - {cmd_item usq r}"
proof -
  have "cmd_item usq' ` (live_refs usq - {r}) = cmd_item usq ` (live_refs usq - {r})"
    using assms by (intro image_cong) (auto simp: free_ok_def intro: cmd_item_cong)
  also have "\<dots> = cmd_items usq - {cmd_item usq r}"
    using image_set_diff [OF cmd_item_inj, of usq "live_refs usq" "{r}"] by (simp add: cmd_items_def)
  finally show ?thesis using assms by (simp add: free_ok_def cmd_items_def)
qed

lemma init_single:
  assumes "single_refs usq" and "init_ok sops usq r b mb rq usq'" and "buf_owns b \<inter> buf_owns mb = {}"
  shows "single_refs usq'"
  unfolding single_refs_def
proof (intro allI impI)
  fix r' c assume r': "r' \<in> live_refs usq'" "cmd_at usq' r' = Some c"
  show "c_refcnt c = 1 \<and> buf_owns (c_buf c) \<inter> buf_owns (c_mbuf c) = {}"
  proof (cases "r' = r")
    case True
    with r' assms(2,3) show ?thesis by (auto simp: init_ok_def)
  next
    case False
    with r' assms(1,2) show ?thesis by (auto simp: init_ok_def single_refs_def)
  qed
qed

lemma undo_single: "single_refs usq \<Longrightarrow> undo_ok sops usq usq' \<Longrightarrow> single_refs usq'"
  by (simp add: single_refs_def undo_ok_def)

lemma free_single: "single_refs usq \<Longrightarrow> free_ok sops usq r rq usq' \<Longrightarrow> single_refs usq'"
  unfolding single_refs_def free_ok_def by (metis DiffD1 DiffD2 singletonI)

lemma items_only_cmds [simp]:
  "ItemRq q \<notin> cmd_items usq" "ItemDma i \<notin> cmd_items usq"
  by (auto simp: cmd_items_def cmd_item_def Let_def)

lemma cmd_sys_wfE:
  assumes "cmd_sys_wf s"
  obtains env usq u where "s = (env, usq, u)" and "cmd_env_laws env" and "bdf u \<noteq> None"
    and "0 \<notin> heap u" and "sq_inv usq" and "e_rqinv env (sq_rqs usq)" and "single_refs usq"
  using assms by (cases s) (auto simp: cmd_sys_wf_def)

lemma cmd_acquire_spec:
  assumes "cmd_sys_wf s"
  shows "case cmd_acquire req s of
      (Ok h, s') \<Rightarrow> cmd_sys_wf s' \<and> cmd_owns h \<inter> cmd_sys_live s = {}
        \<and> cmd_sys_live s' = cmd_sys_live s \<union> cmd_owns h
    | (Fail e, s') \<Rightarrow> cmd_sys_wf s' \<and> cmd_sys_live s' = cmd_sys_live s
    | (Fault, _) \<Rightarrow> False"
proof -
  from assms obtain env usq u where s: "s = (env, usq, u)" and laws: "cmd_env_laws env"
    and bdf: "bdf u \<noteq> None" and heap: "0 \<notin> heap u" and inv: "sq_inv usq"
    and rqinv: "e_rqinv env (sq_rqs usq)" and one: "single_refs usq"
    by (elim cmd_sys_wfE)
  have dma: "dma_laws (e_dma env) (e_mapped env)" using laws by (simp add: cmd_env_laws_def)
  obtain out usq' u' where run: "serve_req (e_dma env) (e_sq env) req (usq, u) = (out, usq', u')"
    by (cases "serve_req (e_dma env) (e_sq env) req (usq, u)") auto
  note spec = serve_req_spec [OF dma bdf inv, where sops = "e_sq env" and req = req, unfolded run]
  show ?thesis
  proof (cases out)
    case (Ok r)
    with spec obtain b mb rq where init: "init_ok (e_sq env) usq r b mb rq usq'"
      and led: "dma_frame u u'" "(buf_owns b \<union> buf_owns mb) \<inter> ledger (e_mapped env) u = {}"
        "buf_owns b \<inter> buf_owns mb = {}" "buf_ok b" "buf_ok mb"
        "ledger (e_mapped env) u' = ledger (e_mapped env) u \<union> (buf_owns b \<union> buf_owns mb)"
      by (auto simp: init_outcome_def)
    from init obtain c where c: "cmd_at usq' r = Some c" "c_buf c = b" "c_mbuf c = mb"
      "c_rq c = Some rq" "c_refcnt c = 1" and inv': "sq_inv usq'"
      and acq: "rq_acquire (e_sq env) (sq_rqs usq) = Inr (rq, sq_rqs usq')" by (auto simp: init_ok_def)
    note rqs = rq_laws_get [OF laws rqinv acq]
    have items: "cmd_items usq' = insert (ItemCmd r b mb rq) (cmd_items usq)"
      "ItemCmd r b mb rq \<notin> cmd_items usq" using init_items [OF init] by simp_all
    have "Block 0 \<notin> ledger (e_mapped env) u'"
      using led heap buf_ok_zero Block_0_ledger by (metis Un_iff)
    then have "cmd_sys_wf (env, usq', u')"
      using laws bdf dma_frame_fields [OF led(1)] inv' rqs init_single [OF one init led(3)]
      by (simp add: cmd_sys_wf_def Block_0_ledger)
    with run Ok c rqs items led show ?thesis
      by (auto simp: s cmd_acquire_def cmd_owns_def cmd_sys_live_def)
  next
    case (Fail e)
    with spec have undo: "undo_ok (e_sq env) usq usq'" and led: "dma_frame u u'"
      "ledger (e_mapped env) u' = ledger (e_mapped env) u" by (auto simp: init_outcome_def)
    note rqs = undo_rqs [OF laws rqinv undo] and items = undo_items [OF undo]
    have "0 \<notin> heap u'" using led(2) heap Block_0_ledger by metis
    then have "cmd_sys_wf (env, usq', u')"
      using laws bdf dma_frame_fields [OF led(1)] rqs undo_single [OF one undo] undo
      by (simp add: cmd_sys_wf_def undo_ok_def)
    with run Fail rqs items led show ?thesis by (auto simp: s cmd_acquire_def cmd_sys_live_def)
  qed (use spec in \<open>simp add: init_outcome_def\<close>)
qed

lemma cmd_release_spec:
  assumes "cmd_sys_wf s" and "cmd_owns h \<subseteq> cmd_sys_live s"
  shows "\<exists>s'. cmd_release h s = (Ok (), s') \<and> cmd_sys_wf s'
    \<and> cmd_sys_live s' = cmd_sys_live s - cmd_owns h"
proof -
  from assms(1) obtain env usq u where s: "s = (env, usq, u)" and laws: "cmd_env_laws env"
    and bdf: "bdf u \<noteq> None" and heap: "0 \<notin> heap u" and inv: "sq_inv usq"
    and rqinv: "e_rqinv env (sq_rqs usq)" and one: "single_refs usq"
    by (elim cmd_sys_wfE)
  have dma: "dma_laws (e_dma env) (e_mapped env)" using laws by (simp add: cmd_env_laws_def)
  obtain r b mb rq where h: "h = (r, b, mb, rq)" by (cases h)
  have own: "ItemCmd r b mb rq \<in> cmd_items usq" "rq \<in> held_rqs env (sq_rqs usq)"
    "buf_owns b \<union> buf_owns mb \<subseteq> ledger (e_mapped env) u"
    using assms(2) by (auto simp: s h cmd_owns_def cmd_sys_live_def cmd_items_def cmd_item_def Let_def)
  then have r: "r \<in> live_refs usq" "cmd_item usq r = ItemCmd r b mb rq"
    by (auto simp: cmd_items_def cmd_item_def Let_def)
  obtain c where c: "cmd_at usq r = Some c" using live_ref_at [OF inv r(1)] by blast
  with r have cb: "c_buf c = b" "c_mbuf c = mb" "the (c_rq c) = rq" by (auto simp: cmd_item_def)
  obtain u' where u': "andthen (unvmed_buf_free (e_dma env) b u) (\<lambda>_ u1. unvmed_buf_free (e_dma env) mb u1)
      = (Ok (), u')" "dma_frame u u'"
    "ledger (e_mapped env) u' = ledger (e_mapped env) u - (buf_owns b \<union> buf_owns mb)"
    using buf_free_two [OF dma bdf heap own(3)] one r(1) c cb by (auto simp: single_refs_def)
  have ref: "c_refcnt c = 1" using one r(1) c by (simp add: single_refs_def)
  obtain usq' where put: "unvmed_cmd_put (e_dma env) (e_sq env) r (usq, u) = (Ok 0, usq', u')"
    and free: "free_ok (e_sq env) usq r rq usq'"
    using cmd_put_last [OF inv c r(1) ref, where ops = "e_dma env" and sops = "e_sq env"
        and u = u and u' = u'] u'(1) cb by auto
  have rqs: "sq_rqs usq' = rq_release (e_sq env) (sq_rqs usq) rq"
    using free by (simp add: free_ok_def)
  note held = rq_laws_put [OF laws rqinv own(2)] and items = free_items [OF free]
  have "Block 0 \<notin> ledger (e_mapped env) u'" using u'(3) heap by (simp add: Block_0_ledger)
  then have "cmd_sys_wf (env, usq', u')"
    using laws bdf dma_frame_fields [OF u'(2)] held rqs free_single [OF one free] free
    by (simp add: cmd_sys_wf_def Block_0_ledger free_ok_def)
  moreover have "cmd_sys_live (env, usq', u') = cmd_sys_live s - cmd_owns h"
    using items held rqs u'(3) r(2)
    by (auto simp: s h cmd_sys_live_def cmd_owns_def cmd_items_def cmd_item_def Let_def)
  ultimately show ?thesis using put by (simp add: s h cmd_release_def)
qed

interpretation cmds: resource cmd_acquire cmd_release cmd_owns cmd_sys_live cmd_sys_wf
proof
  show "fst (cmd_acquire a s) \<noteq> Fault" if "cmd_sys_wf s" for a s
    using cmd_acquire_spec [OF that, of a] by (auto split: prod.splits)
  show "cmd_sys_wf s' \<and> cmd_owns r \<inter> cmd_sys_live s = {} \<and> cmd_sys_live s' = cmd_sys_live s \<union> cmd_owns r"
    if "cmd_sys_wf s" "cmd_acquire a s = (Ok r, s')" for a s r s'
    using cmd_acquire_spec [OF that(1), of a] that(2) by simp
  show "cmd_sys_wf s' \<and> cmd_sys_live s' = cmd_sys_live s"
    if "cmd_sys_wf s" "cmd_acquire a s = (Fail e, s')" for a s e s'
    using cmd_acquire_spec [OF that(1), of a] that by simp
qed (rule cmd_release_spec)

subsection \<open>A concrete queue\<close>

text \<open>Three identifiers, the requests 1, 2 and 3, and the DMA environment of the samples.\<close>

definition sample_sq_ops :: "nat list sq_ops" where
  "sample_sq_ops = \<lparr>
     rq_acquire = (\<lambda>free. case free of [] \<Rightarrow> Inl EBUSY | rq # rest \<Rightarrow> Inr (rq, rest)),
     rq_release = (\<lambda>free rq. rq # free),
     sq_post = (\<lambda>q sqe. q), sq_ring = (\<lambda>q. q)\<rparr>"

definition sample_env :: "(nat set, nat list) cmd_env" where
  "sample_env = \<lparr>e_dma = sample_ops, e_mapped = id, e_sq = sample_sq_ops,
     e_ids = (\<lambda>_. {1, 2, 3}), e_free = set,
     e_rqinv = (\<lambda>free. distinct free \<and> set free \<subseteq> {1, 2, 3})\<rparr>"

definition sample_usq :: "nat list unvme_sq" where
  "sample_usq = \<lparr>sq_id = 1, sq_qsize = 4, sq_qprio = 0, sq_pc = 1, sq_nvmsetid = 0, sq_flags = 0,
     sq_q = Some \<lparr>nsq_id = 1, nsq_qsize = 4, nsq_tail = 0, nsq_ptail = 0,
       nsq_entries = replicate 4 zero_sqe, nsq_iova = 0, nsq_rqs = [1, 2, 3]\<rparr>,
     sq_ucq = 1, sq_cmds = replicate 3 zero_cmd,
     sq_timer = \<lparr>timer_t = 0, timer_expire = zero_timespec, timer_active = False\<rparr>,
     sq_cids = \<lparr>bm_size = 3, nr_bytes = 1, bm_bits = [0xF8], bm_top = 0\<rparr>,
     sq_nr_cmds = 0, sq_cmd_count = replicate 255 0, sq_enabled = True, sq_refcnt = 1,
     sq_conflict = zero_cmd\<rparr>"

lemma sample_env_laws: "cmd_env_laws sample_env"
proof -
  have "id_pool (rq_get sample_sq_ops) (rq_release sample_sq_ops) (\<lambda>_. {1, 2, 3}) set
     (\<lambda>free. distinct free \<and> set free \<subseteq> {1, 2, 3 :: nat})"
    by unfold_locales (auto simp: rq_get_def sample_sq_ops_def split: list.splits sum.splits)
  then show ?thesis by (simp add: cmd_env_laws_def sample_env_def sample_ops_laws)
qed

lemma sample_bits:
  assumes "c < 8"
  shows "cid_bit (sq_cids sample_usq) c \<longleftrightarrow> 3 \<le> c"
proof -
  have "\<forall>c\<in>set [0..<8]. bit (0xF8 :: u8) c \<longleftrightarrow> 3 \<le> c" by code_simp
  then show ?thesis using assms by (simp add: cid_bit_def sample_usq_def)
qed

lemma sample_idle: "live_refs sample_usq = {}"
  using sample_bits by (auto simp: live_refs_def used_cids_def sample_usq_def zero_cmd_def)

lemma sample_sys_wf: "cmd_sys_wf (sample_env, sample_usq, sample_dma)"
proof -
  have "bitmap_wf (sq_cids sample_usq)"
    using sample_bits by (simp add: bitmap_wf_def sample_usq_def)
  moreover have "cmd_at sample_usq r = Some c \<Longrightarrow> cmd_idle c" for r c
    by (cases r) (auto simp: cmd_idle_def sample_usq_def zero_cmd_def nth_opt_def split: if_splits)
  moreover have "bm_size (sq_cids sample_usq) \<le> length (sq_cmds sample_usq)" "sq_q sample_usq \<noteq> None"
    "sq_nr_cmds sample_usq = 0" by (simp_all add: sample_usq_def)
  ultimately have "sq_inv sample_usq" by (simp add: sq_inv_def sample_idle)
  moreover have "single_refs sample_usq" by (simp add: single_refs_def sample_idle)
  ultimately show ?thesis
    using sample_env_laws
    by (simp add: cmd_sys_wf_def sample_dma_def sq_rqs_def sample_env_def sample_usq_def)
qed

text \<open>C2. Whatever sequence of command allocations (with data, without, with a chosen identifier
  that may conflict, with metadata) and last puts runs on a queue, no call faults or frees
  something twice; each command owns its slot, its request of the driver, its memory and its
  mappings alone; what is in use is what was in use at the start and what the commands not yet
  put own, after failures at every stage of an allocation too; and the queue's count of commands
  stays the number of commands in use.
\<close>

theorem command_lifecycle_balanced:
  assumes "cmd_sys_wf s0"
  shows "\<exists>env usq u held. res_run cmd_acquire cmd_release script (s0, []) = Some ((env, usq, u), held)
    \<and> cmd_sys_live (env, usq, u) = cmd_sys_live s0 \<union> (\<Union>h\<in>set held. cmd_owns h)
    \<and> cmd_sys_live s0 \<inter> (\<Union>h\<in>set held. cmd_owns h) = {}
    \<and> (\<forall>i j. i < j \<and> j < length held \<longrightarrow> cmd_owns (held ! i) \<inter> cmd_owns (held ! j) = {})
    \<and> sq_nr_cmds usq = int (card (live_refs usq))"
proof -
  obtain env usq u held where "res_run cmd_acquire cmd_release script (s0, []) = Some ((env, usq, u), held)"
    "cmd_sys_wf (env, usq, u)" "cmd_sys_live s0 \<inter> cmds.owned held = {}"
    "cmd_sys_live (env, usq, u) = cmd_sys_live s0 \<union> cmds.owned held" "cmds.apart held"
    using cmds.run_balanced [OF assms, of script] by (metis prod_cases3)
  moreover from this(5) have "\<forall>i j. i < j \<and> j < length held \<longrightarrow> cmd_owns (held ! i) \<inter> cmd_owns (held ! j) = {}"
    using cmds.apart_nth by blast
  ultimately show ?thesis by (simp add: cmds.owned_def cmd_sys_wf_def sq_inv_def)
qed

theorem command_lifecycle_balanced_witness:
  "\<exists>env usq u held. res_run cmd_acquire cmd_release
       [Get (ReqNodata None), Get (ReqCid (Some 0) 1), Get (ReqBuf None 4096 512), Put 2, Put 0]
       ((sample_env, sample_usq, sample_dma), []) = Some ((env, usq, u), held)
    \<and> sq_nr_cmds usq = int (card (live_refs usq))"
  using command_lifecycle_balanced [OF sample_sys_wf] by meson

end
