(* ===== verification/Prep.thy ===== *)
theory Prep
  imports Cmd Ns
begin

unbundle bit_operations_syntax

text \<open>
  Building submission queue entries, \<open>lib/libunvmed-cmds.c\<close>: the \<open>unvmed_cmd_prep_*()\<close>
  functions, the data pointer mappings they call, and the placement of the protection
  information tags of reads and writes (\<open>unvmed_sqe_set_tags()\<close>). A function that prepares a
  command maps the command to the command with its entry written.
\<close>

subsection \<open>The NVMe headers and libvfn\<close>

text \<open>
  The constants of the NVMe headers that the functions store: opcodes, identify selectors, feature
  identifiers, protection information formats, and the flags of an entry and of a queue.
  \<open>d_ns_mgmt_size n\<close> is the size of the Create Namespace data with \<open>n\<close> placement handles.
\<close>

record nvme_defs =
  d_identify :: u8
  d_set_features :: u8
  d_get_features :: u8
  d_get_log_page :: u8
  d_abort :: u8
  d_read :: u8
  d_write :: u8
  d_format :: u8
  d_virt_mgmt :: u8
  d_ns_mgmt :: u8
  d_ns_attach :: u8
  d_create_sq :: u8
  d_delete_sq :: u8
  d_create_cq :: u8
  d_delete_cq :: u8
  d_cns_ctrl :: u8
  d_cns_csi_ns :: u8
  d_cns_primary :: u8
  d_cns_secondary :: u8
  d_fid_hmb :: u8
  d_pif_16b :: u8
  d_pif_32b :: u8
  d_pif_64b :: u8
  d_psdt_sgl :: u8
  d_psdt_shift :: nat
  d_io_stc :: u16
  d_ns_create :: u32
  d_ns_delete :: u32
  d_ns_ctrl_attach :: u32
  d_ns_ctrl_detach :: u32
  d_q_pc :: u16
  d_cq_ien :: u16
  d_ns_mgmt_size :: "nat \<Rightarrow> nat"

text \<open>
  libvfn's mappings of an I/O vector into the data pointer of an entry, for the request of a
  command: the error they report, if any, and the entry. \<open>rq_page\<close> is the address of the page
  that belongs to a request.
\<close>

type_synonym iovecs = "(nat \<times> u64) list"

record 'm map_ops =
  rq_mapv_prp :: "'m \<Rightarrow> nat \<Rightarrow> nvme_cmd \<Rightarrow> iovecs \<Rightarrow> int \<Rightarrow> errno option \<times> nvme_cmd"
  rq_mapv_sgl :: "'m \<Rightarrow> nat \<Rightarrow> nvme_cmd \<Rightarrow> iovecs \<Rightarrow> int \<Rightarrow> errno option \<times> nvme_cmd"
  mapv_prp_at :: "'m \<Rightarrow> nat \<Rightarrow> int \<Rightarrow> nvme_cmd \<Rightarrow> iovecs \<Rightarrow> int \<Rightarrow> errno option \<times> nvme_cmd"
  mapv_sgl_at :: "'m \<Rightarrow> nat \<Rightarrow> u64 \<Rightarrow> nvme_cmd \<Rightarrow> iovecs \<Rightarrow> int \<Rightarrow> errno option \<times> nvme_cmd"
  rq_page :: "nat \<Rightarrow> nat"

subsection \<open>Data pointers\<close>

text \<open>The entry that a mapping call leaves is stored in the command, on failure too.\<close>

definition sqe_result :: "unvme_cmd \<Rightarrow> errno option \<times> nvme_cmd \<Rightarrow> unit outcome \<times> unvme_cmd" where
  "sqe_result c r =
     (case r of (None, sqe) \<Rightarrow> (Ok (), c\<lparr>c_sqe := sqe\<rparr>) | (Some e, sqe) \<Rightarrow> (Fail e, c\<lparr>c_sqe := sqe\<rparr>))"

definition with_rq ::
  "unvme_cmd \<Rightarrow> (nat \<Rightarrow> unit outcome \<times> unvme_cmd) \<Rightarrow> unit outcome \<times> unvme_cmd" where
  "with_rq c f = (case c_rq c of None \<Rightarrow> (Fault, c) | Some rq \<Rightarrow> f rq)"

definition unvmed_mapv_prp_u2 ::
  "'m map_ops \<Rightarrow> 'm \<Rightarrow> iovecs \<Rightarrow> int \<Rightarrow> unvme_cmd \<Rightarrow> unit outcome \<times> unvme_cmd" where
  "unvmed_mapv_prp_u2 mops m iov nr_iov c =
     (if nr_iov \<le> 0 then (Ok (), c)
      else with_rq c (\<lambda>rq. sqe_result c (rq_mapv_prp mops m rq (c_sqe c) iov nr_iov)))"

definition unvmed_mapv_prp_list_u2 ::
  "'m map_ops \<Rightarrow> 'm \<Rightarrow> nat \<Rightarrow> int \<Rightarrow> iovecs \<Rightarrow> int \<Rightarrow> unvme_cmd \<Rightarrow> unit outcome \<times> unvme_cmd" where
  "unvmed_mapv_prp_list_u2 mops m prplist nprplists iov nr_iov c =
     (if prplist = 0
      then with_rq c (\<lambda>rq. sqe_result c (mapv_prp_at mops m (rq_page mops rq) 1 (c_sqe c) iov nr_iov))
      else sqe_result c (mapv_prp_at mops m prplist nprplists (c_sqe c) iov nr_iov))"

definition unvmed_mapv_sgl_u2 ::
  "'m map_ops \<Rightarrow> 'm \<Rightarrow> iovecs \<Rightarrow> int \<Rightarrow> unvme_cmd \<Rightarrow> unit outcome \<times> unvme_cmd" where
  "unvmed_mapv_sgl_u2 mops m iov nr_iov c =
     with_rq c (\<lambda>rq. sqe_result c (rq_mapv_sgl mops m rq (c_sqe c) iov nr_iov))"

definition unvmed_mapv_sgl_seg_u2 ::
  "'m map_ops \<Rightarrow> 'm \<Rightarrow> nat \<Rightarrow> u64 \<Rightarrow> iovecs \<Rightarrow> int \<Rightarrow> unvme_cmd \<Rightarrow> unit outcome \<times> unvme_cmd" where
  "unvmed_mapv_sgl_seg_u2 mops m seg seg_iova iov nr_iov c =
     sqe_result c (mapv_sgl_at mops m seg seg_iova (c_sqe c) iov nr_iov)"

definition buf_iov :: "unvme_cmd \<Rightarrow> iovecs" where
  "buf_iov c = [(iov_base (c_buf c), iov_len (c_buf c))]"

definition unvmed_mapv_prp :: "'m map_ops \<Rightarrow> 'm \<Rightarrow> unvme_cmd \<Rightarrow> unit outcome \<times> unvme_cmd" where
  "unvmed_mapv_prp mops m c = unvmed_mapv_prp_u2 mops m (buf_iov c) 1 c"

definition unvmed_mapv_sgl :: "'m map_ops \<Rightarrow> 'm \<Rightarrow> unvme_cmd \<Rightarrow> unit outcome \<times> unvme_cmd" where
  "unvmed_mapv_sgl mops m c = unvmed_mapv_sgl_u2 mops m (buf_iov c) 1 c"

text \<open>Writing fields of the entry; every function stores the identifier of the command.\<close>

definition put_sqe :: "(nvme_cmd \<Rightarrow> nvme_cmd) \<Rightarrow> unvme_cmd \<Rightarrow> unvme_cmd" where
  "put_sqe f c = c\<lparr>c_sqe := (f (c_sqe c))\<lparr>sqe_cid := c_cid c\<rparr>\<rparr>"

definition unvmed_cmd_prep ::
  "'m map_ops \<Rightarrow> 'm \<Rightarrow> nvme_cmd \<Rightarrow> iovecs \<Rightarrow> int \<Rightarrow> unvme_cmd \<Rightarrow> unit outcome \<times> unvme_cmd" where
  "unvmed_cmd_prep mops m sqe iov nr_iov c =
     (let c1 = put_sqe (\<lambda>_. sqe) c in
      if sqe_prp1 sqe = 0 \<and> sqe_prp2 sqe = 0 then unvmed_mapv_prp_u2 mops m iov nr_iov c1
      else (Ok (), c1))"

subsection \<open>Identify\<close>

definition unvmed_cmd_prep_id_ns ::
  "nvme_defs \<Rightarrow> 'm map_ops \<Rightarrow> 'm \<Rightarrow> u32 \<Rightarrow> iovecs \<Rightarrow> int \<Rightarrow> unvme_cmd \<Rightarrow> unit outcome \<times> unvme_cmd" where
  "unvmed_cmd_prep_id_ns d mops m nsid' iov nr_iov c =
     unvmed_mapv_prp_u2 mops m iov nr_iov
       (put_sqe (\<lambda>sqe. sqe\<lparr>sqe_opcode := d_identify d, sqe_nsid := nsid', sqe_cns := 0\<rparr>) c)"

definition unvmed_cmd_prep_id_ctrl ::
  "nvme_defs \<Rightarrow> 'm map_ops \<Rightarrow> 'm \<Rightarrow> iovecs \<Rightarrow> int \<Rightarrow> unvme_cmd \<Rightarrow> unit outcome \<times> unvme_cmd" where
  "unvmed_cmd_prep_id_ctrl d mops m iov nr_iov c =
     unvmed_mapv_prp_u2 mops m iov nr_iov
       (put_sqe (\<lambda>sqe. sqe\<lparr>sqe_opcode := d_identify d, sqe_cns := d_cns_ctrl d\<rparr>) c)"

definition unvmed_cmd_prep_id_active_nslist ::
  "nvme_defs \<Rightarrow> 'm map_ops \<Rightarrow> 'm \<Rightarrow> u32 \<Rightarrow> iovecs \<Rightarrow> int \<Rightarrow> unvme_cmd \<Rightarrow> unit outcome \<times> unvme_cmd" where
  "unvmed_cmd_prep_id_active_nslist d mops m nsid' iov nr_iov c =
     unvmed_mapv_prp_u2 mops m iov nr_iov
       (put_sqe (\<lambda>sqe. sqe\<lparr>sqe_opcode := d_identify d, sqe_nsid := nsid', sqe_cns := 2\<rparr>) c)"

definition unvmed_cmd_prep_nvm_id_ns ::
  "nvme_defs \<Rightarrow> 'm map_ops \<Rightarrow> 'm \<Rightarrow> u32 \<Rightarrow> iovecs \<Rightarrow> int \<Rightarrow> unvme_cmd \<Rightarrow> unit outcome \<times> unvme_cmd" where
  "unvmed_cmd_prep_nvm_id_ns d mops m nsid' iov nr_iov c =
     unvmed_mapv_prp_u2 mops m iov nr_iov
       (put_sqe (\<lambda>sqe. sqe\<lparr>sqe_opcode := d_identify d, sqe_nsid := nsid', sqe_cns := d_cns_csi_ns d\<rparr>) c)"

text \<open>The controller identifier is a \<open>uint32_t\<close> stored into 16 bits.\<close>

definition unvmed_cmd_prep_id_primary_ctrl_caps ::
  "nvme_defs \<Rightarrow> 'm map_ops \<Rightarrow> 'm \<Rightarrow> iovecs \<Rightarrow> int \<Rightarrow> u32 \<Rightarrow> unvme_cmd \<Rightarrow> unit outcome \<times> unvme_cmd" where
  "unvmed_cmd_prep_id_primary_ctrl_caps d mops m iov nr_iov cntlid c =
     unvmed_mapv_prp_u2 mops m iov nr_iov
       (put_sqe (\<lambda>sqe. sqe\<lparr>sqe_opcode := d_identify d, sqe_ctrlid := ucast cntlid,
                           sqe_cns := d_cns_primary d\<rparr>) c)"

definition unvmed_cmd_prep_id_secondary_ctrl_list ::
  "nvme_defs \<Rightarrow> 'm map_ops \<Rightarrow> 'm \<Rightarrow> iovecs \<Rightarrow> int \<Rightarrow> u32 \<Rightarrow> unvme_cmd \<Rightarrow> unit outcome \<times> unvme_cmd" where
  "unvmed_cmd_prep_id_secondary_ctrl_list d mops m iov nr_iov cntlid c =
     unvmed_mapv_prp_u2 mops m iov nr_iov
       (put_sqe (\<lambda>sqe. sqe\<lparr>sqe_opcode := d_identify d, sqe_ctrlid := ucast cntlid,
                           sqe_cns := d_cns_secondary d\<rparr>) c)"

subsection \<open>Features and log pages\<close>

definition unvmed_cmd_prep_set_features ::
  "nvme_defs \<Rightarrow> 'm map_ops \<Rightarrow> 'm \<Rightarrow> u32 \<Rightarrow> u8 \<Rightarrow> bool \<Rightarrow> u32 \<Rightarrow> u32 \<Rightarrow> iovecs \<Rightarrow> int
   \<Rightarrow> unvme_cmd \<Rightarrow> unit outcome \<times> unvme_cmd" where
  "unvmed_cmd_prep_set_features d mops m nsid' fid save cdw11 cdw12 iov nr_iov c =
     unvmed_mapv_prp_u2 mops m iov nr_iov
       (put_sqe (\<lambda>sqe. sqe\<lparr>sqe_opcode := d_set_features d, sqe_nsid := nsid', sqe_fid := fid,
          sqe_rsvd42 := push_bit 15 (of_bool save), sqe_cdw11 := cdw11, sqe_cdw12 := cdw12\<rparr>) c)"

definition unvmed_cmd_prep_set_features_hmb ::
  "nvme_defs \<Rightarrow> u32 \<Rightarrow> u64 \<Rightarrow> u32 \<Rightarrow> bool \<Rightarrow> bool \<Rightarrow> unvme_cmd \<Rightarrow> unvme_cmd" where
  "unvmed_cmd_prep_set_features_hmb d hsize descs_addr nr_descs mr enable c =
     put_sqe (\<lambda>sqe. sqe\<lparr>sqe_opcode := d_set_features d, sqe_fid := d_fid_hmb d,
       sqe_cdw11 := push_bit 1 (of_bool mr) OR of_bool enable, sqe_cdw12 := hsize,
       sqe_cdw13 := ucast (descs_addr AND 0xffffffff), sqe_cdw14 := ucast (drop_bit 32 descs_addr),
       sqe_cdw15 := nr_descs\<rparr>) c"

definition unvmed_cmd_prep_get_features ::
  "nvme_defs \<Rightarrow> 'm map_ops \<Rightarrow> 'm \<Rightarrow> u32 \<Rightarrow> u8 \<Rightarrow> u8 \<Rightarrow> u32 \<Rightarrow> u32 \<Rightarrow> iovecs \<Rightarrow> int
   \<Rightarrow> unvme_cmd \<Rightarrow> unit outcome \<times> unvme_cmd" where
  "unvmed_cmd_prep_get_features d mops m nsid' fid sel cdw11 cdw14 iov nr_iov c =
     unvmed_mapv_prp_u2 mops m iov nr_iov
       (put_sqe (\<lambda>sqe. sqe\<lparr>sqe_opcode := d_get_features d, sqe_nsid := nsid', sqe_fid := fid,
          sqe_sel := sel, sqe_cdw11 := cdw11, sqe_cdw14 := cdw14\<rparr>) c)"

definition unvmed_cmd_prep_get_log_page ::
  "nvme_defs \<Rightarrow> 'm map_ops \<Rightarrow> 'm \<Rightarrow> u32 \<Rightarrow> u8 \<Rightarrow> u32 \<Rightarrow> iovecs \<Rightarrow> int
   \<Rightarrow> unvme_cmd \<Rightarrow> unit outcome \<times> unvme_cmd" where
  "unvmed_cmd_prep_get_log_page d mops m nsid' lid len iov nr_iov c =
     (let numd = drop_bit 2 len - 1 in
      unvmed_mapv_prp_u2 mops m iov nr_iov
        (put_sqe (\<lambda>sqe. sqe\<lparr>sqe_opcode := d_get_log_page d, sqe_nsid := nsid', sqe_lid := lid,
           sqe_numdl := ucast (numd AND 0xffff), sqe_numdu := ucast (drop_bit 16 numd)\<rparr>) c))"

definition unvmed_cmd_prep_abort :: "nvme_defs \<Rightarrow> u16 \<Rightarrow> u16 \<Rightarrow> unvme_cmd \<Rightarrow> unvme_cmd" where
  "unvmed_cmd_prep_abort d sqid' cid c =
     put_sqe (\<lambda>sqe. sqe\<lparr>sqe_opcode := d_abort d,
       sqe_cdw10 := push_bit 16 (ucast cid) OR ucast sqid'\<rparr>) c"

subsection \<open>Protection information tags\<close>

text \<open>
  A shift of a \<open>uint64_t\<close> by an \<open>int\<close>: the C operators are undefined outside the width.
\<close>

definition shl64 :: "u64 \<Rightarrow> int \<Rightarrow> u64 option" where
  "shl64 x n = (if 0 \<le> n \<and> n < 64 then Some (push_bit (nat n) x) else None)"

definition shr64 :: "u64 \<Rightarrow> int \<Rightarrow> u64 option" where
  "shr64 x n = (if 0 \<le> n \<and> n < 64 then Some (drop_bit (nat n) x) else None)"

text \<open>The switch of \<open>unvmed_sqe_set_tags()\<close>: dwords 2, 3 and 14.\<close>

definition tag_words ::
  "nvme_defs \<Rightarrow> u8 \<Rightarrow> u8 \<Rightarrow> u64 \<Rightarrow> u64 \<Rightarrow> (u32 \<times> u32 \<times> u32) outcome" where
  "tag_words d pif sts rtag stag =
     (let n = uint sts in
      if pif = d_pif_16b d then
        (case shl64 stag (32 - n) of
           None \<Rightarrow> Fault
         | Some s \<Rightarrow> Ok (0, 0, ucast (rtag AND 0xffffffff) OR ucast (s AND 0xffffffff)))
      else if pif = d_pif_32b d then
        (case (shr64 stag (n - 16), shl64 stag (80 - n),
               if 48 \<le> n then shr64 stag (n - 48) else shl64 stag (48 - n)) of
           (Some hi, Some lo, Some mid) \<Rightarrow>
             Ok (ucast (hi AND 0xffff),
                 ucast (drop_bit 32 rtag AND 0xffffffff) OR ucast (mid AND 0xffffffff),
                 ucast (rtag AND 0xffffffff) OR ucast (lo AND 0xffff0000))
         | _ \<Rightarrow> Fault)
      else if pif = d_pif_64b d then
        (case (shl64 stag (48 - n), if 16 \<le> n then shr64 stag (n - 16) else shl64 stag (16 - n)) of
           (Some lo, Some hi) \<Rightarrow>
             Ok (0, ucast (drop_bit 32 rtag AND 0xffff) OR ucast (hi AND 0xffff),
                 ucast (rtag AND 0xffffffff) OR ucast (lo AND 0xffffffff))
         | _ \<Rightarrow> Fault)
      else Fail ERRNO_UNSET)"

definition unvmed_sqe_set_tags ::
  "nvme_defs \<Rightarrow> u32 \<Rightarrow> u16 \<Rightarrow> u16 \<Rightarrow> u64 \<Rightarrow> u64 \<Rightarrow> nvme_cmd \<Rightarrow> ('m, 'z) unvme_nss_scheme
   \<Rightarrow> unit outcome \<times> nvme_cmd \<times> ('m, 'z) unvme_nss_scheme" where
  "unvmed_sqe_set_tags d nsid' atag atag_mask rtag stag sqe u =
     (case unvmed_ns_get nsid' u of
        None \<Rightarrow> (Fail EINVAL, sqe, u)
      | Some u1 \<Rightarrow>
          (case (unvmed_ns_find nsid' u1, unvmed_ns_put nsid' u1) of
             (None, _) \<Rightarrow> (Fault, sqe, u1)
           | (Some ns, refcnt, u2) \<Rightarrow>
               if refcnt \<le> 0 then (Fault, sqe, u2)
               else (case tag_words d (ns_pif ns) (ns_sts ns) rtag stag of
                       Fault \<Rightarrow> (Fault, sqe, u2)
                     | Fail e \<Rightarrow> (Fail e, sqe, u2)
                     | Ok (cdw2, cdw3, cdw14) \<Rightarrow>
                         (Ok (), sqe\<lparr>sqe_apptag := atag, sqe_appmask := atag_mask, sqe_cdw2 := cdw2,
                                     sqe_cdw3 := cdw3, sqe_reftag := cdw14\<rparr>, u2))))"

subsection \<open>Read and write\<close>

text \<open>The arguments that reads and writes share.\<close>

record rw_args =
  rw_nsid :: u32
  rw_slba :: u64
  rw_nlb :: u16
  rw_prinfo :: u8
  rw_atag :: u16
  rw_atag_mask :: u16
  rw_rtag :: u64
  rw_stag :: u64
  rw_stag_check :: bool
  rw_iov :: iovecs
  rw_nr_iov :: int
  rw_mbuf :: nat
  rw_opaque :: nat

text \<open>
  The metadata pointer: the caller's buffer, or the one the command was created with.
\<close>

definition rw_mptr ::
  "'m dma_ops \<Rightarrow> nat \<Rightarrow> unvme_cmd \<Rightarrow> ('m, 'z) unvme_nss_scheme \<Rightarrow> unit outcome \<times> unvme_cmd" where
  "rw_mptr ops mbuf c u =
     (let buf = (if mbuf = 0 then buf_va (c_mbuf c) else mbuf) in
      if buf = 0 then (Ok (), c)
      else case unvmed_to_iova ops buf u of
             None \<Rightarrow> (Fail EFAULT, c)
           | Some iova \<Rightarrow> (Ok (), c\<lparr>c_sqe := (c_sqe c)\<lparr>sqe_mptr := iova\<rparr>\<rparr>))"

text \<open>The tags, whose result the sources ignore, the protection flags and the user's pointer.\<close>

definition rw_finish ::
  "nvme_defs \<Rightarrow> rw_args \<Rightarrow> unvme_cmd \<Rightarrow> ('m, 'z) unvme_nss_scheme
   \<Rightarrow> unit outcome \<times> unvme_cmd \<times> ('m, 'z) unvme_nss_scheme" where
  "rw_finish d a c u =
     (case unvmed_sqe_set_tags d (rw_nsid a) (rw_atag a) (rw_atag_mask a) (rw_rtag a) (rw_stag a)
             (c_sqe c) u of
        (Fault, sqe, u1) \<Rightarrow> (Fault, c\<lparr>c_sqe := sqe\<rparr>, u1)
      | (_, sqe, u1) \<Rightarrow>
          (let control = sqe_control sqe OR push_bit 10 (ucast (rw_prinfo a));
               control' = (if rw_stag_check a then control OR d_io_stc d else control) in
           (Ok (), c\<lparr>c_sqe := sqe\<lparr>sqe_control := control'\<rparr>, c_opaque := rw_opaque a\<rparr>, u1)))"

text \<open>The body that \<open>unvmed_cmd_prep_read()\<close> and \<open>unvmed_cmd_prep_write()\<close> repeat.\<close>

definition cmd_prep_rw ::
  "nvme_defs \<Rightarrow> 'm dma_ops \<Rightarrow> 'm map_ops \<Rightarrow> u8 \<Rightarrow> rw_args \<Rightarrow> unvme_cmd \<Rightarrow> ('m, 'z) unvme_nss_scheme
   \<Rightarrow> unit outcome \<times> unvme_cmd \<times> ('m, 'z) unvme_nss_scheme" where
  "cmd_prep_rw d ops mops opcode a c u =
     (let c1 = put_sqe (\<lambda>sqe. sqe\<lparr>sqe_opcode := opcode, sqe_nsid := rw_nsid a,
                                 sqe_slba := rw_slba a, sqe_nlb := rw_nlb a\<rparr>) c;
          sgl = c_flags c AND UNVMED_CMD_F_SGL \<noteq> 0;
          mapped = (if sgl then unvmed_mapv_sgl_u2 mops (iommu u) (rw_iov a) (rw_nr_iov a) c1
                    else unvmed_mapv_prp_u2 mops (iommu u) (rw_iov a) (rw_nr_iov a) c1) in
      case andthen mapped (\<lambda>_ c2.
             rw_mptr ops (rw_mbuf a)
               (if sgl then c2\<lparr>c_sqe := (c_sqe c2)\<lparr>sqe_flags :=
                          sqe_flags (c_sqe c2) OR push_bit (d_psdt_shift d) (d_psdt_sgl d)\<rparr>\<rparr>
                else c2) u) of
        (Ok _, c3) \<Rightarrow> rw_finish d a c3 u
      | (Fail e, c3) \<Rightarrow> (Fail e, c3, u)
      | (Fault, c3) \<Rightarrow> (Fault, c3, u))"

definition unvmed_cmd_prep_read ::
  "nvme_defs \<Rightarrow> 'm dma_ops \<Rightarrow> 'm map_ops \<Rightarrow> rw_args \<Rightarrow> unvme_cmd \<Rightarrow> ('m, 'z) unvme_nss_scheme
   \<Rightarrow> unit outcome \<times> unvme_cmd \<times> ('m, 'z) unvme_nss_scheme" where
  "unvmed_cmd_prep_read d ops mops a c u = cmd_prep_rw d ops mops (d_read d) a c u"

definition unvmed_cmd_prep_write ::
  "nvme_defs \<Rightarrow> 'm dma_ops \<Rightarrow> 'm map_ops \<Rightarrow> rw_args \<Rightarrow> unvme_cmd \<Rightarrow> ('m, 'z) unvme_nss_scheme
   \<Rightarrow> unit outcome \<times> unvme_cmd \<times> ('m, 'z) unvme_nss_scheme" where
  "unvmed_cmd_prep_write d ops mops a c u = cmd_prep_rw d ops mops (d_write d) a c u"

subsection \<open>Namespace management, virtualization, queues\<close>

text \<open>The arguments of type \<open>uint8_t\<close> are promoted, so the shifts do not lose bits.\<close>

definition unvmed_cmd_prep_format ::
  "nvme_defs \<Rightarrow> u32 \<Rightarrow> u8 \<Rightarrow> u8 \<Rightarrow> u8 \<Rightarrow> u8 \<Rightarrow> u8 \<Rightarrow> unvme_cmd \<Rightarrow> unvme_cmd" where
  "unvmed_cmd_prep_format d nsid' lbaf ses pil pi' mset c =
     put_sqe (\<lambda>sqe. sqe\<lparr>sqe_opcode := d_format d, sqe_nsid := nsid',
       sqe_cdw10 := push_bit 12 (ucast (drop_bit 4 lbaf AND 3)) OR push_bit 9 (ucast (ses AND 7))
         OR push_bit 8 (ucast (pil AND 1)) OR push_bit 5 (ucast (pi' AND 7))
         OR push_bit 4 (ucast (mset AND 1)) OR ucast (lbaf AND 0xf)\<rparr>) c"

definition unvmed_cmd_prep_virt_mgmt ::
  "nvme_defs \<Rightarrow> u32 \<Rightarrow> u32 \<Rightarrow> u32 \<Rightarrow> u32 \<Rightarrow> unvme_cmd \<Rightarrow> unvme_cmd" where
  "unvmed_cmd_prep_virt_mgmt d cntlid rt act nr c =
     put_sqe (\<lambda>sqe. sqe\<lparr>sqe_opcode := d_virt_mgmt d,
       sqe_cdw10 := (act AND 0xf) OR push_bit 8 (rt AND 7) OR push_bit 16 (cntlid AND 0xffff),
       sqe_cdw11 := nr AND 0xffff\<rparr>) c"

text \<open>The data of Create Namespace; byte order is that of the host.\<close>

record ns_mgmt_data =
  nm_nsze :: u64
  nm_ncap :: u64
  nm_flbas :: u8
  nm_dps :: u8
  nm_nmic :: u8
  nm_anagrpid :: u32
  nm_nvmsetid :: u16
  nm_endgid :: u16
  nm_lbstm :: u64
  nm_nphndls :: u16
  nm_phndl :: "u16 list"

text \<open>
  \<open>unvmed_cmd_prep_create_ns()\<close> writes the data into the buffer of the command. \<open>nphndls\<close> handles
  are read from the caller's array. The result is the data written.
\<close>

definition unvmed_cmd_prep_create_ns ::
  "nvme_defs \<Rightarrow> 'm map_ops \<Rightarrow> 'm \<Rightarrow> ns_mgmt_data \<Rightarrow> u8 \<Rightarrow> iovecs \<Rightarrow> int \<Rightarrow> unvme_cmd
   \<Rightarrow> ns_mgmt_data outcome \<times> unvme_cmd" where
  "unvmed_cmd_prep_create_ns d mops m a csi iov nr_iov c =
     (if buf_va (c_buf c) = 0 \<or> unat (buf_len (c_buf c)) < d_ns_mgmt_size d (unat (nm_nphndls a))
         \<or> length (nm_phndl a) < unat (nm_nphndls a) then (Fault, c)
      else
        let c1 = put_sqe (\<lambda>sqe. sqe\<lparr>sqe_opcode := d_ns_mgmt d, sqe_cdw10 := d_ns_create d,
                                   sqe_cdw11 := push_bit 24 (ucast csi)\<rparr>) c in
        andthen (unvmed_mapv_prp_u2 mops m iov nr_iov c1)
          (\<lambda>_ c2. (Ok (a\<lparr>nm_phndl := take (unat (nm_nphndls a)) (nm_phndl a)\<rparr>), c2)))"

definition unvmed_cmd_prep_delete_ns :: "nvme_defs \<Rightarrow> u32 \<Rightarrow> unvme_cmd \<Rightarrow> unvme_cmd" where
  "unvmed_cmd_prep_delete_ns d nsid' c =
     put_sqe (\<lambda>sqe. sqe\<lparr>sqe_opcode := d_ns_mgmt d, sqe_cdw10 := d_ns_delete d, sqe_nsid := nsid'\<rparr>) c"

text \<open>
  The controller list that attach and detach write: the number of controllers, truncated to 16
  bits, and their identifiers. Nothing checks the list against the length of the buffer.
\<close>

definition ctrl_list :: "int \<Rightarrow> u16 list \<Rightarrow> unvme_cmd \<Rightarrow> u16 list outcome" where
  "ctrl_list nr_ctrlids ctrlids c =
     (let n = nat nr_ctrlids in
      if buf_va (c_buf c) = 0 \<or> unat (buf_len (c_buf c)) < 2 * (n + 1) \<or> length ctrlids < n then Fault
      else Ok (word_of_int nr_ctrlids # take n ctrlids))"

definition cmd_prep_ns_attach ::
  "nvme_defs \<Rightarrow> u32 \<Rightarrow> 'm map_ops \<Rightarrow> 'm \<Rightarrow> u32 \<Rightarrow> int \<Rightarrow> u16 list \<Rightarrow> iovecs \<Rightarrow> int \<Rightarrow> unvme_cmd
   \<Rightarrow> u16 list outcome \<times> unvme_cmd" where
  "cmd_prep_ns_attach d sel mops m nsid' nr_ctrlids ctrlids iov nr_iov c =
     (case ctrl_list nr_ctrlids ctrlids c of
        Ok data \<Rightarrow>
          andthen (unvmed_mapv_prp_u2 mops m iov nr_iov
                     (put_sqe (\<lambda>sqe. sqe\<lparr>sqe_opcode := d_ns_attach d, sqe_nsid := nsid',
                                         sqe_cdw10 := sel\<rparr>) c))
            (\<lambda>_ c2. (Ok data, c2))
      | _ \<Rightarrow> (Fault, c))"

definition unvmed_cmd_prep_attach_ns ::
  "nvme_defs \<Rightarrow> 'm map_ops \<Rightarrow> 'm \<Rightarrow> u32 \<Rightarrow> int \<Rightarrow> u16 list \<Rightarrow> iovecs \<Rightarrow> int \<Rightarrow> unvme_cmd
   \<Rightarrow> u16 list outcome \<times> unvme_cmd" where
  "unvmed_cmd_prep_attach_ns d = cmd_prep_ns_attach d (d_ns_ctrl_attach d)"

definition unvmed_cmd_prep_detach_ns ::
  "nvme_defs \<Rightarrow> 'm map_ops \<Rightarrow> 'm \<Rightarrow> u32 \<Rightarrow> int \<Rightarrow> u16 list \<Rightarrow> iovecs \<Rightarrow> int \<Rightarrow> unvme_cmd
   \<Rightarrow> u16 list outcome \<times> unvme_cmd" where
  "unvmed_cmd_prep_detach_ns d = cmd_prep_ns_attach d (d_ns_ctrl_detach d)"

text \<open>
  The queue commands; \<open>mem_iova\<close> is the address of the memory that libvfn configured for the
  queue. The first reserved dword of Create SQ is dword 12.
\<close>

definition sq_qflags :: "nvme_defs \<Rightarrow> u32 \<Rightarrow> u32 \<Rightarrow> u16" where
  "sq_qflags d qprio pc =
     (let qflags = ucast (push_bit 1 (qprio AND 3)) in if pc \<noteq> 0 then qflags OR d_q_pc d else qflags)"

definition unvmed_cmd_prep_create_sq ::
  "nvme_defs \<Rightarrow> u64 \<Rightarrow> u32 \<Rightarrow> u32 \<Rightarrow> u32 \<Rightarrow> u32 \<Rightarrow> u32 \<Rightarrow> u32 \<Rightarrow> unvme_cmd \<Rightarrow> unvme_cmd" where
  "unvmed_cmd_prep_create_sq d mem_iova qid qsize cqid qprio pc nvmsetid c =
     put_sqe (\<lambda>sqe. sqe\<lparr>sqe_opcode := d_create_sq d, sqe_qid := ucast qid, sqe_prp1 := mem_iova,
       sqe_qsize := ucast (qsize - 1), sqe_qflags := sq_qflags d qprio pc, sqe_cdw12 := nvmsetid,
       sqe_cqid := ucast cqid\<rparr>) c"

definition unvmed_cmd_prep_delete_sq :: "nvme_defs \<Rightarrow> u32 \<Rightarrow> unvme_cmd \<Rightarrow> unvme_cmd" where
  "unvmed_cmd_prep_delete_sq d qid c =
     put_sqe (\<lambda>sqe. sqe\<lparr>sqe_opcode := d_delete_sq d, sqe_qid := ucast qid\<rparr>) c"

definition cq_qflags :: "nvme_defs \<Rightarrow> int \<Rightarrow> u32 \<Rightarrow> u16" where
  "cq_qflags d vector pc =
     (if pc \<noteq> 0 then d_q_pc d else 0) OR (if 0 \<le> vector then d_cq_ien d else 0)"

definition unvmed_cmd_prep_create_cq ::
  "nvme_defs \<Rightarrow> u64 \<Rightarrow> u32 \<Rightarrow> u32 \<Rightarrow> int \<Rightarrow> u32 \<Rightarrow> unvme_cmd \<Rightarrow> unvme_cmd" where
  "unvmed_cmd_prep_create_cq d mem_iova qid qsize vector pc c =
     put_sqe (\<lambda>sqe. sqe\<lparr>sqe_opcode := d_create_cq d, sqe_qid := ucast qid, sqe_prp1 := mem_iova,
       sqe_qsize := ucast (qsize - 1), sqe_qflags := cq_qflags d vector pc,
       sqe_iv := (if 0 \<le> vector then word_of_int vector else 0)\<rparr>) c"

definition unvmed_cmd_prep_delete_cq :: "nvme_defs \<Rightarrow> u32 \<Rightarrow> unvme_cmd \<Rightarrow> unvme_cmd" where
  "unvmed_cmd_prep_delete_cq d qid c =
     put_sqe (\<lambda>sqe. sqe\<lparr>sqe_opcode := d_delete_cq d, sqe_qid := ucast qid\<rparr>) c"

end
