(* ===== verification/Prep_Facts.thy ===== *)
theory Prep_Facts
  imports Prep
begin

unbundle bit_operations_syntax

text \<open>
  What the prepared entries contain: the packing of the storage tag and the reference tag into
  the dwords of a read or write, the fields of reads, writes, Format NVM and Get Log Page.
\<close>

subsection \<open>Bits\<close>

lemma bit_bound: "(n::nat) < 2 ^ m \<Longrightarrow> bit n k \<Longrightarrow> k < m"
  by (metis bit_take_bit_iff take_bit_nat_eq_self)

lemma shift_add_or: "(b::nat) < 2 ^ m \<Longrightarrow> a * 2 ^ m + b = push_bit m a OR b"
proof -
  assume "b < 2 ^ m"
  then have "push_bit m a AND b = 0"
    by (auto simp: bit_eq_iff bit_simps dest: bit_bound)
  then show ?thesis by (simp add: push_bit_eq_mult disjunctive_add_eq_or)
qed

subsection \<open>Tags\<close>

text \<open>The tag field of an entry as one number: 80 bits over dwords 2, 3 and 14.\<close>

definition tag_value :: "u32 \<times> u32 \<times> u32 \<Rightarrow> nat" where
  "tag_value = (\<lambda>(cdw2, cdw3, cdw14). (unat cdw2 * 2 ^ 32 + unat cdw3) * 2 ^ 32 + unat cdw14)"

lemma bit_tag_value:
  "bit (tag_value (cdw2, cdw3, cdw14)) k =
     (if k < 32 then bit cdw14 k else if k < 64 then bit cdw3 (k - 32) else bit cdw2 (k - 64))"
proof -
  have lt: "unat w < 2 ^ 32" for w :: u32 using unsigned_less [of w] by simp
  have "tag_value (cdw2, cdw3, cdw14) = push_bit 32 (push_bit 32 (unat cdw2) OR unat cdw3) OR unat cdw14"
    unfolding tag_value_def prod.case shift_add_or [OF lt] ..
  moreover have "\<not> bit w j" if "32 \<le> j" for w :: u32 and j
    using that bit_bound [OF lt [of w], of j] by (auto simp: bit_unsigned_iff)
  ultimately show ?thesis by (simp add: bit_simps bit_unsigned_iff)
qed

lemma word_masks:
  "x AND 0xffff = take_bit 16 (x :: u64)"  "x AND 0xffffffff = take_bit 32 x"
  "x AND 0xffff0000 = push_bit 16 (take_bit 16 (drop_bit 16 x))"
proof -
  have "(0xffff :: u64) = mask 16" "(0xffffffff :: u64) = mask 32" "(0xffff0000 :: u64) = push_bit 16 (mask 16)"
    by (simp_all add: mask_eq_exp_minus_1 push_bit_eq_mult)
  then show "x AND 0xffff = take_bit 16 x"  "x AND 0xffffffff = take_bit 32 x"
    "x AND 0xffff0000 = push_bit 16 (take_bit 16 (drop_bit 16 x))"
    by (simp_all only: take_bit_eq_mask) (auto simp: bit_eq_iff bit_simps)
qed

text \<open>
  The number of bits that the storage tag and the reference tag share, and the storage tag sizes
  for which the code computes with defined shifts.
\<close>

definition tag_width :: "nvme_defs \<Rightarrow> u8 \<Rightarrow> nat" where
  "tag_width d pif = (if pif = d_pif_16b d then 32 else if pif = d_pif_32b d then 80 else 48)"

definition sts_valid :: "nvme_defs \<Rightarrow> u8 \<Rightarrow> u8 \<Rightarrow> bool" where
  "sts_valid d pif sts \<longleftrightarrow>
     (if pif = d_pif_16b d then unat sts \<le> 32
      else if pif = d_pif_32b d then 16 < unat sts \<and> unat sts \<le> 64
      else pif = d_pif_64b d \<and> unat sts \<le> 48)"

lemma word_bit_bound: "unat (w :: u64) < 2 ^ m \<Longrightarrow> bit w k \<Longrightarrow> k < m \<and> k < 64"
  using bit_bound [of "unat w" m k] bit_imp_le_length [of w k] by (simp add: bit_unsigned_iff)

lemma tags_packed16:
  fixes stag rtag :: u64
  assumes "unat stag < 2 ^ n" and "unat rtag < 2 ^ (32 - n)" and "n \<le> 32"
  shows "tag_value (0, 0, ucast (rtag AND 0xffffffff) OR ucast (push_bit (32 - n) stag AND 0xffffffff))
    = unat stag * 2 ^ (32 - n) + unat (rtag :: u64)"
  unfolding shift_add_or [OF assms(2)]
  using word_bit_bound [OF assms(1)] word_bit_bound [OF assms(2)] assms(3)
  by (intro bit_eqI) (force simp: bit_tag_value word_masks bit_simps bit_unsigned_iff)


lemma tags_packed64:
  fixes stag rtag :: u64
  assumes "unat stag < 2 ^ n" and "unat rtag < 2 ^ (48 - n)" and "n \<le> 48"
  shows "tag_value (0, ucast (drop_bit 32 rtag AND 0xffff)
       OR ucast ((if 16 \<le> n then drop_bit (n - 16) stag else push_bit (16 - n) stag) AND 0xffff),
      ucast (rtag AND 0xffffffff) OR ucast (push_bit (48 - n) stag AND 0xffffffff))
    = unat stag * 2 ^ (48 - n) + unat rtag" (is "?l = _")
  unfolding shift_add_or [OF assms(2)]
proof (rule bit_eqI)
  fix k
  note s = word_bit_bound [OF assms(1)] and r = word_bit_bound [OF assms(2)]
  have i: "16 \<le> n \<Longrightarrow> 32 \<le> k \<Longrightarrow> n - 16 + (k - 32) = k - (48 - n)"
     "\<not> 16 \<le> n \<Longrightarrow> 32 \<le> k \<Longrightarrow> k - 32 - (16 - n) = k - (48 - n)"
     "32 \<le> k \<Longrightarrow> (16 - n \<le> k - 32) = (48 - n \<le> k)"
    using assms(3) by auto
  have "bit ?l k = (48 - n \<le> k \<and> bit stag (k - (48 - n)) \<and> k < 48 \<or> bit rtag k \<and> k < 48)"
    using i by (auto simp: bit_tag_value word_masks bit_simps bit_unsigned_iff)
  also have "\<dots> = bit (push_bit (48 - n) (unat stag) OR unat rtag) k"
    using s [of "k - (48 - n)"] r [of k] assms(3) by (auto simp: bit_simps bit_unsigned_iff)
  finally show "bit ?l k = bit (push_bit (48 - n) (unat stag) OR unat rtag) k" .
qed

lemma tags_packed32:
  fixes stag rtag :: u64
  assumes "unat stag < 2 ^ n" and "unat rtag < 2 ^ (80 - n)" and "16 < n" and "n \<le> 64"
  shows "tag_value (ucast (drop_bit (n - 16) stag AND 0xffff),
      ucast (drop_bit 32 rtag AND 0xffffffff)
       OR ucast ((if 48 \<le> n then drop_bit (n - 48) stag else push_bit (48 - n) stag) AND 0xffffffff),
      ucast (rtag AND 0xffffffff) OR ucast (push_bit (80 - n) stag AND 0xffff0000))
    = unat stag * 2 ^ (80 - n) + unat rtag" (is "?l = _")
  unfolding shift_add_or [OF assms(2)]
proof (rule bit_eqI)
  fix k
  note s = word_bit_bound [OF assms(1)] and r = word_bit_bound [OF assms(2)]
  have i: "48 \<le> n \<Longrightarrow> 32 \<le> k \<Longrightarrow> n - 48 + (k - 32) = k - (80 - n)"
     "\<not> 48 \<le> n \<Longrightarrow> 32 \<le> k \<Longrightarrow> k - 32 - (48 - n) = k - (80 - n)"
     "32 \<le> k \<Longrightarrow> (48 - n \<le> k - 32) = (80 - n \<le> k)"
     "64 \<le> k \<Longrightarrow> n - 16 + (k - 64) = k - (80 - n)"
    using assms(3,4) by auto
  have "bit ?l k = (80 - n \<le> k \<and> bit stag (k - (80 - n)) \<and> k < 80 \<or> bit rtag k \<and> k < 64)"
    using i assms(3,4) by (auto simp: bit_tag_value word_masks bit_simps bit_unsigned_iff)
  also have "\<dots> = bit (push_bit (80 - n) (unat stag) OR unat rtag) k"
    using s [of "k - (80 - n)"] r [of k] assms(3,4) by (auto simp: bit_simps bit_unsigned_iff)
  finally show "bit ?l k = bit (push_bit (80 - n) (unat stag) OR unat rtag) k" .
qed

text \<open>C29. For each protection information format and each storage tag size with defined shifts,
  the entry of a read or write holds the storage tag in the upper bits of the tag field and the
  reference tag in the rest, without losing a bit of either.
\<close>

theorem tags_packed:
  assumes "sts_valid d pif sts" and "unat stag < 2 ^ unat sts"
    and "unat rtag < 2 ^ (tag_width d pif - unat sts)"
  shows "\<exists>ws. tag_words d pif sts rtag stag = Ok ws
    \<and> tag_value ws = unat stag * 2 ^ (tag_width d pif - unat sts) + unat rtag"
proof -
  define n where "n = unat sts"
  have n: "uint sts = int n" by (simp add: n_def)
  note nats = nat_diff_distrib n_def [symmetric] n
  have stag: "unat stag < 2 ^ n" using assms(2) by (simp add: n_def)
  consider "pif = d_pif_16b d" | "pif \<noteq> d_pif_16b d" "pif = d_pif_32b d"
    | "pif \<noteq> d_pif_16b d" "pif \<noteq> d_pif_32b d" "pif = d_pif_64b d"
    using assms(1) unfolding sts_valid_def by meson
  then show ?thesis
  proof cases
    case 1
    with assms have "n \<le> 32" "unat rtag < 2 ^ (32 - n)"
      by (simp_all add: sts_valid_def tag_width_def nats)
    with tags_packed16 [OF stag this(2,1)] 1 show ?thesis
      by (simp add: tag_words_def shl64_def tag_width_def nats)
  next
    case 2
    with assms have "16 < n" "n \<le> 64" "unat rtag < 2 ^ (80 - n)"
      by (simp_all add: sts_valid_def tag_width_def nats)
    with tags_packed32 [OF stag this(3,1,2)] 2 show ?thesis
      by (cases "48 \<le> n") (simp_all add: tag_words_def shl64_def shr64_def tag_width_def nats Let_def)
  next
    case 3
    with assms have "n \<le> 48" "unat rtag < 2 ^ (48 - n)"
      by (simp_all add: sts_valid_def tag_width_def nats)
    with tags_packed64 [OF stag this(2,1)] 3 show ?thesis
      by (cases "16 \<le> n") (simp_all add: tag_words_def shl64_def shr64_def tag_width_def nats Let_def)
  qed
qed

text \<open>The values of the NVMe specification, for the witnesses.\<close>

definition sample_defs :: nvme_defs where
  "sample_defs = \<lparr>d_identify = 6, d_set_features = 9, d_get_features = 10, d_get_log_page = 2,
     d_abort = 8, d_read = 2, d_write = 1, d_format = 0x80, d_virt_mgmt = 0x1c, d_ns_mgmt = 0xd,
     d_ns_attach = 0x15, d_create_sq = 1, d_delete_sq = 0, d_create_cq = 5, d_delete_cq = 4,
     d_cns_ctrl = 1, d_cns_csi_ns = 5, d_cns_primary = 0x14, d_cns_secondary = 0x15,
     d_fid_hmb = 0xd, d_pif_16b = 0, d_pif_32b = 1, d_pif_64b = 2, d_psdt_sgl = 1,
     d_psdt_shift = 6, d_io_stc = 0x100, d_ns_create = 0, d_ns_delete = 1, d_ns_ctrl_attach = 0,
     d_ns_ctrl_detach = 1, d_q_pc = 1, d_cq_ien = 2, d_ns_mgmt_size = (\<lambda>n. 512 + 2 * n)\<rparr>"

theorem tags_packed_witness:
  "\<exists>ws. tag_words sample_defs 1 20 0x123456789ab 0xcdef5 = Ok ws
     \<and> tag_value ws = 0xcdef5 * 2 ^ 60 + 0x123456789ab"
  using tags_packed [of sample_defs 1 20 "0xcdef5" "0x123456789ab"]
  by (simp add: sts_valid_def tag_width_def sample_defs_def)

text \<open>With 32-bit guards a 16-bit storage tag, which the NVM command set allows, makes
  \<open>unvmed_sqe_set_tags()\<close> shift a 64-bit value by 64, which C leaves undefined.
\<close>

theorem tag_shift_undefined:
  assumes "d_pif_32b d \<noteq> d_pif_16b d"
  shows "tag_words d (d_pif_32b d) 16 rtag stag = Fault"
  using assms by (simp add: tag_words_def Let_def shl64_def shr64_def)

theorem tag_shift_undefined_witness: "tag_words sample_defs 1 16 5 7 = Fault"
  using tag_shift_undefined [of sample_defs 5 7] by (simp add: sample_defs_def)

subsection \<open>Format NVM\<close>

lemma byte_masks:
  "x AND 0xf = take_bit 4 x" "x AND 7 = take_bit 3 x" "x AND 3 = take_bit 2 x" "x AND 1 = take_bit 1 x"
  for x :: u8
  by (simp_all add: take_bit_eq_mask mask_eq_exp_minus_1)

text \<open>Every bit of dword 10 of Format NVM: the format index split into its lower four and upper
  two bits, the metadata setting, the protection information and its location, and the secure
  erase setting, each in its place, and the other bits clear.
\<close>

theorem format_dword:
  "bit (sqe_cdw10 (c_sqe (unvmed_cmd_prep_format d nsid' lbaf ses pil pi' mset c))) i \<longleftrightarrow>
     (if i < 4 then bit lbaf i else if i = 4 then bit mset 0 else if i < 8 then bit pi' (i - 5)
      else if i = 8 then bit pil 0 else if i < 12 then bit ses (i - 9)
      else i < 14 \<and> bit lbaf (i - 8))"
proof -
  have p: "bit (push_bit k (ucast (take_bit n x)) :: u32) i \<longleftrightarrow> k \<le> i \<and> i < 32 \<and> i < k + n \<and> bit x (i - k)"
    for k n and x :: u8 by (auto simp: bit_simps bit_unsigned_iff)
  have q: "bit (ucast (take_bit n x) :: u32) i \<longleftrightarrow> i < 32 \<and> i < n \<and> bit x i" for n and x :: u8
    by (auto simp: bit_simps bit_unsigned_iff)
  have "sqe_cdw10 (c_sqe (unvmed_cmd_prep_format d nsid' lbaf ses pil pi' mset c)) =
      push_bit 12 (ucast (take_bit 2 (drop_bit 4 lbaf))) OR push_bit 9 (ucast (take_bit 3 ses))
      OR push_bit 8 (ucast (take_bit 1 pil)) OR push_bit 5 (ucast (take_bit 3 pi'))
      OR push_bit 4 (ucast (take_bit 1 mset)) OR ucast (take_bit 4 lbaf)"
    by (simp add: unvmed_cmd_prep_format_def put_sqe_def byte_masks)
  note word = arg_cong [OF this, of "\<lambda>w. bit w i", unfolded bit_or_iff p q]
  consider "i < 4" | "i = 4" | "5 \<le> i" "i < 8" | "i = 8" | "9 \<le> i" "i < 12" | "12 \<le> i"
    by linarith
  moreover have "12 \<le> i \<Longrightarrow> 4 + (i - 12) = i - 8" by simp
  ultimately show ?thesis unfolding word by cases (simp_all add: bit_drop_bit_eq, auto)
qed
subsection \<open>Read and write\<close>

text \<open>What libvfn's mappings leave of an entry: all but the data pointer and the flags.\<close>

definition same_but_dptr :: "nvme_cmd \<Rightarrow> nvme_cmd \<Rightarrow> bool" where
  "same_but_dptr s t \<longleftrightarrow>
     t = s\<lparr>sqe_flags := sqe_flags t, sqe_prp1 := sqe_prp1 t, sqe_prp2 := sqe_prp2 t\<rparr>"

definition map_laws :: "'m map_ops \<Rightarrow> bool" where
  "map_laws mops \<longleftrightarrow> (\<forall>m rq sqe iov n. same_but_dptr sqe (snd (rq_mapv_prp mops m rq sqe iov n))
     \<and> same_but_dptr sqe (snd (rq_mapv_sgl mops m rq sqe iov n)))"

lemma mapv_frame:
  assumes "map_laws mops"
  shows "unvmed_mapv_prp_u2 mops m iov n c = (out, c') \<Longrightarrow>
      same_but_dptr (c_sqe c) (c_sqe c') \<and> c' = c\<lparr>c_sqe := c_sqe c'\<rparr>"
    and "unvmed_mapv_sgl_u2 mops m iov n c = (out, c') \<Longrightarrow>
      same_but_dptr (c_sqe c) (c_sqe c') \<and> c' = c\<lparr>c_sqe := c_sqe c'\<rparr>"
proof -
  have prp: "same_but_dptr sqe (snd (rq_mapv_prp mops m rq sqe iov n))"
    and sgl: "same_but_dptr sqe (snd (rq_mapv_sgl mops m rq sqe iov n))" for rq sqe
    using assms by (auto simp: map_laws_def)
  show "same_but_dptr (c_sqe c) (c_sqe c') \<and> c' = c\<lparr>c_sqe := c_sqe c'\<rparr>"
    if "unvmed_mapv_prp_u2 mops m iov n c = (out, c')"
    using that prp [of "c_sqe c"]
    by (auto simp: unvmed_mapv_prp_u2_def with_rq_def sqe_result_def same_but_dptr_def
        split: if_splits option.splits prod.splits) (metis snd_conv)+
  show "same_but_dptr (c_sqe c) (c_sqe c') \<and> c' = c\<lparr>c_sqe := c_sqe c'\<rparr>"
    if "unvmed_mapv_sgl_u2 mops m iov n c = (out, c')"
    using that sgl [of "c_sqe c"]
    by (auto simp: unvmed_mapv_sgl_u2_def with_rq_def sqe_result_def same_but_dptr_def
        split: if_splits option.splits prod.splits) (metis snd_conv)+
qed

lemma set_tags_frame:
  "unvmed_sqe_set_tags d i atag mask' rtag stag sqe u = (out, sqe', u') \<Longrightarrow>
   sqe' = sqe\<lparr>sqe_apptag := sqe_apptag sqe', sqe_appmask := sqe_appmask sqe', sqe_cdw2 := sqe_cdw2 sqe',
              sqe_cdw3 := sqe_cdw3 sqe', sqe_reftag := sqe_reftag sqe'\<rparr>"
  by (auto simp: unvmed_sqe_set_tags_def split: option.splits prod.splits if_splits outcome.splits)


text \<open>The fields that identify a read or write.\<close>

definition rw_key :: "nvme_cmd \<Rightarrow> u8 \<times> u32 \<times> u64 \<times> u16 \<times> u16" where
  "rw_key s = (sqe_opcode s, sqe_nsid s, sqe_slba s, sqe_nlb s, sqe_cid s)"

lemma rw_mptr_ok:
  assumes "rw_mptr ops mbuf c u = (Ok x, c')"
  shows "rw_key (c_sqe c') = rw_key (c_sqe c)
    \<and> (let buf = if mbuf = 0 then buf_va (c_mbuf c) else mbuf in
       buf \<noteq> 0 \<longrightarrow> unvmed_to_iova ops buf u = Some (sqe_mptr (c_sqe c')))"
  using assms by (auto simp: rw_mptr_def rw_key_def Let_def split: if_splits option.splits)

lemma rw_finish_ok:
  assumes "rw_finish d a c u = (Ok x, c', u')"
  shows "rw_key (c_sqe c') = rw_key (c_sqe c) \<and> sqe_mptr (c_sqe c') = sqe_mptr (c_sqe c)
    \<and> c_opaque c' = rw_opaque a"
proof -
  obtain out sqe u1 where tags: "unvmed_sqe_set_tags d (rw_nsid a) (rw_atag a) (rw_atag_mask a)
      (rw_rtag a) (rw_stag a) (c_sqe c) u = (out, sqe, u1)"
    by (cases "unvmed_sqe_set_tags d (rw_nsid a) (rw_atag a) (rw_atag_mask a)
      (rw_rtag a) (rw_stag a) (c_sqe c) u") auto
  have key: "rw_key sqe = rw_key (c_sqe c) \<and> sqe_mptr sqe = sqe_mptr (c_sqe c)"
    by (subst (1 2) set_tags_frame [OF tags]) (simp add: rw_key_def)
  have "\<exists>ctl. c' = c\<lparr>c_sqe := sqe\<lparr>sqe_control := ctl\<rparr>, c_opaque := rw_opaque a\<rparr>"
    using assms tags by (cases out) (auto simp: rw_finish_def Let_def)
  with key show ?thesis by (auto simp: rw_key_def)
qed

lemma prep_rw_ok:
  assumes "map_laws mops" and "cmd_prep_rw d ops mops opcode a c u = (Ok (), c', u')"
  shows "rw_key (c_sqe c') = (opcode, rw_nsid a, rw_slba a, rw_nlb a, c_cid c)
    \<and> c_opaque c' = rw_opaque a
    \<and> (let buf = if rw_mbuf a = 0 then buf_va (c_mbuf c) else rw_mbuf a in
       buf \<noteq> 0 \<longrightarrow> unvmed_to_iova ops buf u = Some (sqe_mptr (c_sqe c')))"
proof -
  let ?c1 = "put_sqe (\<lambda>sqe. sqe\<lparr>sqe_opcode := opcode, sqe_nsid := rw_nsid a,
                                 sqe_slba := rw_slba a, sqe_nlb := rw_nlb a\<rparr>) c"
  let ?sgl = "c_flags c AND UNVMED_CMD_F_SGL \<noteq> 0"
  let ?mapped = "if ?sgl then unvmed_mapv_sgl_u2 mops (iommu u) (rw_iov a) (rw_nr_iov a) ?c1
                 else unvmed_mapv_prp_u2 mops (iommu u) (rw_iov a) (rw_nr_iov a) ?c1"
  let ?c2 = "\<lambda>c2. if ?sgl then c2\<lparr>c_sqe := (c_sqe c2)\<lparr>sqe_flags :=
                 sqe_flags (c_sqe c2) OR push_bit (d_psdt_shift d) (d_psdt_sgl d)\<rparr>\<rparr> else c2"
  obtain c3 where body: "andthen ?mapped (\<lambda>_ c2. rw_mptr ops (rw_mbuf a) (?c2 c2) u) = (Ok (), c3)"
    and fin: "rw_finish d a c3 u = (Ok (), c', u')"
    using assms(2) by (auto simp: cmd_prep_rw_def Let_def split: prod.splits outcome.splits)
  from body [unfolded andthen_Ok] obtain y c2 where c2: "?mapped = (Ok y, c2)"
    and c3: "rw_mptr ops (rw_mbuf a) (?c2 c2) u = (Ok (), c3)" by (elim exE conjE)
  have frame: "same_but_dptr (c_sqe ?c1) (c_sqe c2) \<and> c2 = ?c1\<lparr>c_sqe := c_sqe c2\<rparr>"
    using c2 mapv_frame [OF assms(1)] by (cases ?sgl) auto
  have "rw_key (c_sqe c2) = rw_key (c_sqe ?c1)"
    by (subst same_but_dptr_def [THEN iffD1, OF conjunct1 [OF frame]]) (simp add: rw_key_def)
  then have key: "rw_key (c_sqe (?c2 c2)) = (opcode, rw_nsid a, rw_slba a, rw_nlb a, c_cid c)"
    by (simp add: rw_key_def put_sqe_def)
  have mbuf: "c_mbuf (?c2 c2) = c_mbuf c"
    by (subst (1 2) conjunct2 [OF frame]) (simp add: put_sqe_def)
  show ?thesis
    using rw_mptr_ok [OF c3] rw_finish_ok [OF fin] unfolding key mbuf Let_def by metis
qed

text \<open>C30. A read or write that was prepared has the opcode, namespace, start, length and command
  identifier asked for, carries the caller's pointer, and its metadata pointer is the I/O address
  of the caller's metadata buffer or else of the one the command was created with.
\<close>

theorem read_write_prepared:
  assumes "map_laws mops"
    and "(if wr then unvmed_cmd_prep_write else unvmed_cmd_prep_read) d ops mops a c u = (Ok (), c', u')"
  shows "sqe_opcode (c_sqe c') = (if wr then d_write d else d_read d)
    \<and> sqe_nsid (c_sqe c') = rw_nsid a \<and> sqe_slba (c_sqe c') = rw_slba a
    \<and> sqe_nlb (c_sqe c') = rw_nlb a \<and> sqe_cid (c_sqe c') = c_cid c \<and> c_opaque c' = rw_opaque a
    \<and> (let mbuf = if rw_mbuf a = 0 then buf_va (c_mbuf c) else rw_mbuf a in
       mbuf \<noteq> 0 \<longrightarrow> unvmed_to_iova ops mbuf u = Some (sqe_mptr (c_sqe c')))"
proof -
  have "cmd_prep_rw d ops mops (if wr then d_write d else d_read d) a c u = (Ok (), c', u')"
    using assms(2) by (simp add: unvmed_cmd_prep_read_def unvmed_cmd_prep_write_def split: if_splits)
  from prep_rw_ok [OF assms(1) this] show ?thesis by (simp add: rw_key_def)
qed

definition sample_map :: "nat set map_ops" where
  "sample_map = \<lparr>rq_mapv_prp = (\<lambda>m rq sqe iov n. (None, sqe\<lparr>sqe_prp1 := word_of_nat (fst (hd iov))\<rparr>)),
     rq_mapv_sgl = (\<lambda>m rq sqe iov n. (Some EINVAL, sqe)), mapv_prp_at = (\<lambda>m l k sqe iov n. (None, sqe)),
     mapv_sgl_at = (\<lambda>m s i sqe iov n. (None, sqe)), rq_page = (\<lambda>rq. 4096 * rq)\<rparr>"

definition sample_rw :: rw_args where
  "sample_rw = \<lparr>rw_nsid = 1, rw_slba = 0x10, rw_nlb = 7, rw_prinfo = 0, rw_atag = 0, rw_atag_mask = 0,
     rw_rtag = 0x10, rw_stag = 0, rw_stag_check = False, rw_iov = [(4096, 4096)], rw_nr_iov = 1,
     rw_mbuf = 8192, rw_opaque = 0\<rparr>"

theorem read_write_prepared_witness:
  "\<exists>c' u'. unvmed_cmd_prep_read sample_defs sample_ops sample_map sample_rw
          (fresh_cmd 3 0 1 UNVMED_CMD_INJECT_NONE) (sample_ns1\<lparr>iommu := {8192}\<rparr>) = (Ok (), c', u')
     \<and> sqe_cid (c_sqe c') = 3 \<and> sqe_mptr (c_sqe c') = 8192"
proof -
  let ?c = "fresh_cmd 3 0 1 UNVMED_CMD_INJECT_NONE" and ?u = "sample_ns1\<lparr>iommu := {8192}\<rparr>"
  let ?r = "unvmed_cmd_prep_read sample_defs sample_ops sample_map sample_rw ?c ?u"
  have laws: "map_laws sample_map" by (simp add: map_laws_def sample_map_def same_but_dptr_def)
  have ns: "\<exists>u1 ns u2. unvmed_ns_get 1 ?u = Some u1 \<and> unvmed_ns_find 1 u1 = Some ns
      \<and> unvmed_ns_put 1 u1 = (1, u2) \<and> ns_pif ns = 0 \<and> ns_sts ns = 0"
    by (simp add: unvmed_ns_get_def unvmed_ns_find_def unvmed_ns_put_def ns_update_def sample_ns1_def zero_ns_def)
  have iova: "unvmed_to_iova sample_ops 8192 ?u = Some 8192"
    by (simp add: unvmed_to_iova_def sample_ops_def)
  obtain c' u' where r: "?r = (Ok (), c', u')"
    using ns iova by (auto simp: unvmed_cmd_prep_read_def cmd_prep_rw_def put_sqe_def fresh_cmd_def zero_cmd_def
      sample_rw_def unvmed_mapv_prp_u2_def with_rq_def sqe_result_def sample_map_def rw_mptr_def
      rw_finish_def unvmed_sqe_set_tags_def tag_words_def sample_defs_def shl64_def Let_def)
  with read_write_prepared [OF laws, of False sample_defs sample_ops sample_rw ?c ?u c' u'] iova show ?thesis
    by (simp add: sample_rw_def fresh_cmd_def Let_def)
qed

subsection \<open>Get Log Page\<close>

text \<open>The number of dwords of a log page.\<close>

definition log_page_dwords :: "nvme_cmd \<Rightarrow> nat" where
  "log_page_dwords sqe = unat (sqe_numdu sqe) * 2 ^ 16 + unat (sqe_numdl sqe) + 1"

lemma halves: "unat (ucast (drop_bit 16 w) :: u16) * 2 ^ 16 + unat (ucast (w AND 0xffff) :: u16) = unat (w :: u32)"
proof -
  have "(w AND 0xffff) = take_bit 16 w" by (simp add: take_bit_eq_mask mask_eq_exp_minus_1)
  moreover have "unat w div 2 ^ 16 < 2 ^ 16" using unsigned_less [of w] by (simp add: div_less_iff_less_mult)
  ultimately show ?thesis
    by (simp add: unsigned_ucast_eq unsigned_drop_bit_eq unsigned_take_bit_eq take_bit_eq_mod drop_bit_eq_div
        unat_div unat_mod)
qed

lemma same_but_dptr_numd:
  assumes "same_but_dptr s t"
  shows "sqe_numdu t = sqe_numdu s" "sqe_numdl t = sqe_numdl s"
  by (subst assms [unfolded same_but_dptr_def], simp)+

text \<open>Get Log Page asks for the length in dwords, rounded down; for a length under four bytes the
  zero-based count wraps around and it asks for 16 GiB.
\<close>

theorem log_page_length:
  assumes "map_laws mops" and "unvmed_cmd_prep_get_log_page d mops m nsid' lid len iov nr_iov c = (out, c')"
  shows "log_page_dwords (c_sqe c') = (if len < 4 then 2 ^ 32 else unat len div 4)"
proof -
  let ?numd = "drop_bit 2 len - 1"
  note frame = mapv_frame(1) [OF assms(1) assms(2) [unfolded unvmed_cmd_prep_get_log_page_def Let_def]]
  have "sqe_numdu (c_sqe c') = ucast (drop_bit 16 ?numd)" "sqe_numdl (c_sqe c') = ucast (?numd AND 0xffff)"
    by (simp_all add: same_but_dptr_numd [OF conjunct1 [OF frame]] put_sqe_def)
  then have "log_page_dwords (c_sqe c') = unat ?numd + 1"
    using halves [of ?numd] by (simp add: log_page_dwords_def)
  moreover have "unat (drop_bit 2 len) = unat len div 4" by (simp add: drop_bit_eq_div unat_div)
  ultimately show ?thesis
    by (auto simp: word_less_nat_alt unat_sub_if_size word_size)
qed

theorem log_page_length_witness:
  "\<exists>out c'. unvmed_cmd_prep_get_log_page sample_defs sample_map {} 1 2 4096 [] 0
       (fresh_cmd 3 0 1 UNVMED_CMD_INJECT_NONE) = (out, c') \<and> log_page_dwords (c_sqe c') = 1024"
proof -
  have laws: "map_laws sample_map" by (simp add: map_laws_def sample_map_def same_but_dptr_def)
  obtain out c' where r: "unvmed_cmd_prep_get_log_page sample_defs sample_map {} 1 2 4096 [] 0
       (fresh_cmd 3 0 1 UNVMED_CMD_INJECT_NONE) = (out, c')" by fastforce
  from log_page_length [OF laws r] r show ?thesis by simp
qed
end
