(* ===== verification/Queues.thy ===== *)
theory Queues
  imports Cmd Ns Ctrl_State
begin

unbundle bit_operations_syntax

text \<open>
  The queues of a controller, \<open>lib/libunvmed.c\<close>: the tables \<open>u->sqs\<close> and \<open>u->cqs\<close> with their
  reference counts, creation and release of the instances (\<open>unvmed_init_usq()\<close>,
  \<open>__unvmed_free_usq()\<close> and their completion queue counterparts), enabling, quiescing and
  discarding. A queue pointer is its index in the table. A critical section under a table or
  queue lock is one step; the queue locks that stay held after a function returns
  (\<open>unvmed_quiesce_sq_all()\<close>) are a component of the state.
\<close>

subsection \<open>State\<close>

text \<open>
  libvfn's \<open>struct nvme_cq\<close>: the ring of entries with its head and phase. \<open>unvmed_get_cqe()\<close>
  reads the ring directly.
\<close>

record nvme_cq =
  ncq_qsize :: nat
  ncq_head :: nat
  ncq_phase :: u8
  ncq_entries :: "nvme_cqe list"
  ncq_iova :: u64
  ncq_vector :: int

record unvme_cq =
  cq_id :: nat
  cq_qsize :: nat
  cq_vector :: int
  cq_pc :: int
  cq_q :: "nvme_cq option"
  cq_usq :: "nat option"
  cq_enabled :: bool
  cq_refcnt :: int

text \<open>
  The part of \<open>struct unvme\<close> that belongs to queues. The arrays \<open>u->ctrl.sq\<close> and
  \<open>u->ctrl.cq\<close> of libvfn hold the queue memory; while an instance is bound
  (\<open>usq->q == &u->ctrl.sq[qid]\<close>) the queue is kept in the instance. \<open>sq_locked\<close> is the set of
  submission queues whose lock is held. \<open>vcqs\<close> is the global table of virtual completion queues.
\<close>

record ('m, 'r) unvme = "'m unvme_nss" +
  sqs :: "'r unvme_sq option list"
  cqs :: "unvme_cq option list"
  ctrl_sq :: "nat \<Rightarrow> 'r nvme_sq"
  ctrl_cq :: "nat \<Rightarrow> nvme_cq"
  sq_locked :: "nat set"
  nr_cmds :: int
  timeout :: int
  u_bdf :: u32
  u_state :: unvme_state
  vcqs :: "nat \<Rightarrow> unvme_vcq option"

subsection \<open>Lookup and reference counts\<close>

text \<open>\<open>__unvmed_find_and_get_sq()\<close>; an instance without references is not found.\<close>

definition unvmed_sq_find :: "nat \<Rightarrow> ('m, 'r, 'z) unvme_scheme \<Rightarrow> 'r unvme_sq option" where
  "unvmed_sq_find qid u =
     (case nth_opt (sqs u) qid of
        Some (Some usq) \<Rightarrow> if sq_refcnt usq = 0 then None else Some usq
      | _ \<Rightarrow> None)"

definition unvmed_cq_find :: "nat \<Rightarrow> ('m, 'r, 'z) unvme_scheme \<Rightarrow> unvme_cq option" where
  "unvmed_cq_find qid u =
     (case nth_opt (cqs u) qid of
        Some (Some ucq) \<Rightarrow> if cq_refcnt ucq = 0 then None else Some ucq
      | _ \<Rightarrow> None)"

definition sq_store ::
  "nat \<Rightarrow> 'r unvme_sq \<Rightarrow> ('m, 'r, 'z) unvme_scheme \<Rightarrow> ('m, 'r, 'z) unvme_scheme" where
  "sq_store qid usq u = u\<lparr>sqs := (sqs u)[qid := Some usq]\<rparr>"

definition cq_store ::
  "nat \<Rightarrow> unvme_cq \<Rightarrow> ('m, 'r, 'z) unvme_scheme \<Rightarrow> ('m, 'r, 'z) unvme_scheme" where
  "cq_store qid ucq u = u\<lparr>cqs := (cqs u)[qid := Some ucq]\<rparr>"

definition unvmed_sq_get ::
  "nat \<Rightarrow> ('m, 'r, 'z) unvme_scheme \<Rightarrow> ('m, 'r, 'z) unvme_scheme option" where
  "unvmed_sq_get qid u =
     (case unvmed_sq_find qid u of
        None \<Rightarrow> None
      | Some usq \<Rightarrow>
          Some (if 0 < sq_refcnt usq then sq_store qid (usq\<lparr>sq_refcnt := sq_refcnt usq + 1\<rparr>) u else u))"

definition unvmed_cq_get ::
  "nat \<Rightarrow> ('m, 'r, 'z) unvme_scheme \<Rightarrow> ('m, 'r, 'z) unvme_scheme option" where
  "unvmed_cq_get qid u =
     (case unvmed_cq_find qid u of
        None \<Rightarrow> None
      | Some ucq \<Rightarrow>
          Some (if 0 < cq_refcnt ucq then cq_store qid (ucq\<lparr>cq_refcnt := cq_refcnt ucq + 1\<rparr>) u else u))"

text \<open>
  \<open>__unvmed_free_usq()\<close> and \<open>__unvmed_free_ucq()\<close>. The memory that libvfn configured for the
  queue stays in libvfn's array.
\<close>

definition unvmed_free_usq_u2 ::
  "nat \<Rightarrow> ('m, 'r, 'z) unvme_scheme \<Rightarrow> ('m, 'r, 'z) unvme_scheme" where
  "unvmed_free_usq_u2 qid u =
     (case nth_opt (sqs u) qid of
        Some (Some usq) \<Rightarrow>
          u\<lparr>sqs := (sqs u)[qid := None],
            ctrl_sq := (case sq_q usq of None \<Rightarrow> ctrl_sq u | Some q \<Rightarrow> (ctrl_sq u)(qid := q))\<rparr>
      | _ \<Rightarrow> u)"

definition unvmed_free_ucq_u2 ::
  "nat \<Rightarrow> ('m, 'r, 'z) unvme_scheme \<Rightarrow> ('m, 'r, 'z) unvme_scheme" where
  "unvmed_free_ucq_u2 qid u =
     (case nth_opt (cqs u) qid of
        Some (Some ucq) \<Rightarrow>
          u\<lparr>cqs := (cqs u)[qid := None],
            ctrl_cq := (case cq_q ucq of None \<Rightarrow> ctrl_cq u | Some q \<Rightarrow> (ctrl_cq u)(qid := q))\<rparr>
      | _ \<Rightarrow> u)"

definition unvmed_sq_put ::
  "nat \<Rightarrow> ('m, 'r, 'z) unvme_scheme \<Rightarrow> int \<times> ('m, 'r, 'z) unvme_scheme" where
  "unvmed_sq_put qid u =
     (case nth_opt (sqs u) qid of
        Some (Some usq) \<Rightarrow>
          (let refcnt = sq_refcnt usq - 1; u1 = sq_store qid (usq\<lparr>sq_refcnt := refcnt\<rparr>) u in
           (refcnt, if refcnt = 0 then unvmed_free_usq_u2 qid u1 else u1))
      | _ \<Rightarrow> (0, u))"

definition unvmed_cq_put ::
  "nat \<Rightarrow> ('m, 'r, 'z) unvme_scheme \<Rightarrow> int \<times> ('m, 'r, 'z) unvme_scheme" where
  "unvmed_cq_put qid u =
     (case nth_opt (cqs u) qid of
        Some (Some ucq) \<Rightarrow>
          (let refcnt = cq_refcnt ucq - 1; u1 = cq_store qid (ucq\<lparr>cq_refcnt := refcnt\<rparr>) u in
           (refcnt, if refcnt = 0 then unvmed_free_ucq_u2 qid u1 else u1))
      | _ \<Rightarrow> (0, u))"

text \<open>The lists of usable queues; \<open>mem\<close> says whether the array can be allocated.\<close>

fun collect_sqs :: "nat list \<Rightarrow> ('m, 'r, 'z) unvme_scheme \<Rightarrow> 'r unvme_sq list" where
  "collect_sqs [] u = []"
| "collect_sqs (qid # qids) u =
     (case unvmed_sq_find qid u of
        None \<Rightarrow> collect_sqs qids u
      | Some usq \<Rightarrow> if \<not> sq_enabled usq \<or> sq_q usq = None then collect_sqs qids u
                     else usq # collect_sqs qids u)"

definition unvmed_get_sqs :: "bool \<Rightarrow> ('m, 'r, 'z) unvme_scheme \<Rightarrow> 'r unvme_sq list outcome" where
  "unvmed_get_sqs mem u =
     (if \<not> mem then Fail ENOMEM else Ok (collect_sqs [0..<length (sqs u)] u))"

fun collect_cqs :: "nat list \<Rightarrow> ('m, 'r, 'z) unvme_scheme \<Rightarrow> unvme_cq list" where
  "collect_cqs [] u = []"
| "collect_cqs (qid # qids) u =
     (case unvmed_cq_find qid u of
        None \<Rightarrow> collect_cqs qids u
      | Some ucq \<Rightarrow> if \<not> cq_enabled ucq \<or> cq_q ucq = None then collect_cqs qids u
                     else ucq # collect_cqs qids u)"

definition unvmed_get_cqs :: "bool \<Rightarrow> ('m, 'r, 'z) unvme_scheme \<Rightarrow> unvme_cq list outcome" where
  "unvmed_get_cqs mem u =
     (if \<not> mem then Fail ENOMEM else Ok (collect_cqs [0..<length (cqs u)] u))"

definition unvmed_sq_ready :: "('r, 'z) unvme_sq_scheme option \<Rightarrow> bool" where
  "unvmed_sq_ready usq =
     (case usq of
        None \<Rightarrow> False
      | Some q \<Rightarrow> sq_enabled q \<and> sq_flags q AND UNVMED_SQ_F_FROZEN = 0)"

definition unvmed_cq_enabled :: "nat \<Rightarrow> ('m, 'r, 'z) unvme_scheme \<Rightarrow> bool" where
  "unvmed_cq_enabled qid u =
     (case unvmed_cq_find qid u of None \<Rightarrow> False | Some ucq \<Rightarrow> cq_enabled ucq)"

definition unvmed_cq_irq_enabled :: "unvme_cq \<Rightarrow> bool" where
  "unvmed_cq_irq_enabled ucq \<longleftrightarrow> 0 \<le> cq_vector ucq"

subsection \<open>Instances\<close>

text \<open>
  \<open>unvmed_init_usq()\<close>. \<open>usq_mem\<close> and \<open>cids_mem\<close> say whether the instance and the bitmap
  can be had, \<open>timer_err\<close> is the error of \<open>timer_create()\<close>, if any; the size is a \<open>uint32_t\<close>; the command arrays, whose allocation the source does not
  check, are there. Binding takes the queue of libvfn's array; the completion queue \<open>cqid\<close> gets
  its back pointer. A table index outside the table is a fault.
\<close>

definition new_usq :: "nat \<Rightarrow> nat \<Rightarrow> unvme_bitmap \<Rightarrow> 'r unvme_sq" where
  "new_usq qid qsize cids =
     \<lparr>sq_id = qid, sq_qsize = 0, sq_qprio = 0, sq_pc = 0, sq_nvmsetid = 0, sq_flags = 0, sq_q = None,
      sq_ucq = 0, sq_cmds = replicate qsize zero_cmd,
      sq_timer = \<lparr>timer_t = 0, timer_expire = zero_timespec, timer_active = True\<rparr>, sq_cids = cids,
      sq_nr_cmds = 0, sq_cmd_count = replicate 255 0, sq_enabled = False, sq_refcnt = 1,
      sq_conflict = zero_cmd\<rparr>"

definition bound_sq :: "nat \<Rightarrow> ('m, 'r, 'z) unvme_scheme \<Rightarrow> 'r unvme_sq \<Rightarrow> 'r nvme_sq" where
  "bound_sq qid u usq = (case sq_q usq of Some q \<Rightarrow> q | None \<Rightarrow> ctrl_sq u qid)"

definition usq_setup ::
  "nat \<Rightarrow> nat \<Rightarrow> nat \<Rightarrow> u32 \<Rightarrow> u32 \<Rightarrow> u32 \<Rightarrow> 'r unvme_sq \<Rightarrow> ('m, 'r, 'z) unvme_scheme
   \<Rightarrow> ('m, 'r, 'z) unvme_scheme" where
  "usq_setup qid qsize cqid qprio pc nvmsetid usq u =
     (let u1 = sq_store qid (usq\<lparr>sq_q := Some (bound_sq qid u usq), sq_nr_cmds := 0, sq_qsize := qsize,
                 sq_qprio := qprio, sq_pc := pc, sq_nvmsetid := nvmsetid, sq_ucq := cqid,
                 sq_flags := 0\<rparr>) u in
      case nth_opt (cqs u1) cqid of
        Some (Some ucq) \<Rightarrow> cq_store cqid (ucq\<lparr>cq_usq := Some qid\<rparr>) u1
      | _ \<Rightarrow> u1)"

definition unvmed_init_usq ::
  "bool \<Rightarrow> bool \<Rightarrow> errno option \<Rightarrow> nat \<Rightarrow> nat \<Rightarrow> nat \<Rightarrow> u32 \<Rightarrow> u32 \<Rightarrow> u32 \<Rightarrow> ('m, 'r, 'z) unvme_scheme
   \<Rightarrow> unit outcome \<times> ('m, 'r, 'z) unvme_scheme" where
  "unvmed_init_usq usq_mem cids_mem timer_err qid qsize cqid qprio pc nvmsetid u =
     (case unvmed_sq_get qid u of
        Some u1 \<Rightarrow>
          (case unvmed_sq_find qid u1 of
             None \<Rightarrow> (Fault, u1)
           | Some usq \<Rightarrow>
               if sq_enabled usq then (Fail ERRNO_UNSET, snd (unvmed_sq_put qid u1))
               else (Ok (), usq_setup qid qsize cqid qprio pc nvmsetid usq u1))
      | None \<Rightarrow>
          if \<not> usq_mem then (Fail ENOMEM, u)
          else (case unvmed_cid_init cids_mem (unat (word_of_nat qsize - 1 :: u32)) of
                  Ok cids \<Rightarrow>
                    (case timer_err of
                       Some e \<Rightarrow> (Fail e, u)
                     | None \<Rightarrow>
                         if length (sqs u) \<le> qid then (Fault, u)
                         else (Ok (), usq_setup qid qsize cqid qprio pc nvmsetid
                                        (new_usq qid qsize cids) u))
                | Fail e \<Rightarrow> (Fail e, u)
                | Fault \<Rightarrow> (Fault, u)))"

definition new_ucq :: "nat \<Rightarrow> unvme_cq" where
  "new_ucq qid = \<lparr>cq_id = qid, cq_qsize = 0, cq_vector = 0, cq_pc = 0, cq_q = None, cq_usq = None,
     cq_enabled = False, cq_refcnt = 1\<rparr>"

definition bound_cq :: "nat \<Rightarrow> ('m, 'r, 'z) unvme_scheme \<Rightarrow> unvme_cq \<Rightarrow> nvme_cq" where
  "bound_cq qid u ucq = (case cq_q ucq of Some q \<Rightarrow> q | None \<Rightarrow> ctrl_cq u qid)"

definition ucq_setup ::
  "nat \<Rightarrow> nat \<Rightarrow> int \<Rightarrow> int \<Rightarrow> unvme_cq \<Rightarrow> ('m, 'r, 'z) unvme_scheme \<Rightarrow> ('m, 'r, 'z) unvme_scheme" where
  "ucq_setup qid qsize vector pc ucq u =
     cq_store qid (ucq\<lparr>cq_q := Some (bound_cq qid u ucq), cq_qsize := qsize, cq_vector := vector,
                       cq_pc := pc\<rparr>) u"

definition unvmed_init_ucq ::
  "bool \<Rightarrow> nat \<Rightarrow> nat \<Rightarrow> int \<Rightarrow> int \<Rightarrow> ('m, 'r, 'z) unvme_scheme
   \<Rightarrow> unit outcome \<times> ('m, 'r, 'z) unvme_scheme" where
  "unvmed_init_ucq ucq_mem qid qsize vector pc u =
     (case unvmed_cq_get qid u of
        Some u1 \<Rightarrow>
          (case unvmed_cq_find qid u1 of
             None \<Rightarrow> (Fault, u1)
           | Some ucq \<Rightarrow>
               if cq_enabled ucq then (Fail ERRNO_UNSET, snd (unvmed_cq_put qid u1))
               else (Ok (), ucq_setup qid qsize vector pc ucq u1))
      | None \<Rightarrow>
          if \<not> ucq_mem then (Fail ENOMEM, u)
          else if length (cqs u) \<le> qid then (Fault, u)
          else (Ok (), ucq_setup qid qsize vector pc (new_ucq qid) u))"

text \<open>The enabled flags.\<close>

definition sq_modify ::
  "nat \<Rightarrow> ('r unvme_sq \<Rightarrow> 'r unvme_sq) \<Rightarrow> ('m, 'r, 'z) unvme_scheme \<Rightarrow> ('m, 'r, 'z) unvme_scheme" where
  "sq_modify qid f u =
     (case nth_opt (sqs u) qid of Some (Some usq) \<Rightarrow> sq_store qid (f usq) u | _ \<Rightarrow> u)"

definition cq_modify ::
  "nat \<Rightarrow> (unvme_cq \<Rightarrow> unvme_cq) \<Rightarrow> ('m, 'r, 'z) unvme_scheme \<Rightarrow> ('m, 'r, 'z) unvme_scheme" where
  "cq_modify qid f u =
     (case nth_opt (cqs u) qid of Some (Some ucq) \<Rightarrow> cq_store qid (f ucq) u | _ \<Rightarrow> u)"

definition unvmed_enable_sq :: "nat \<Rightarrow> ('m, 'r, 'z) unvme_scheme \<Rightarrow> ('m, 'r, 'z) unvme_scheme" where
  "unvmed_enable_sq qid = sq_modify qid (\<lambda>q. q\<lparr>sq_enabled := True\<rparr>)"

definition unvmed_disable_sq :: "nat \<Rightarrow> ('m, 'r, 'z) unvme_scheme \<Rightarrow> ('m, 'r, 'z) unvme_scheme" where
  "unvmed_disable_sq qid = sq_modify qid (\<lambda>q. q\<lparr>sq_enabled := False\<rparr>)"

definition unvmed_enable_cq :: "nat \<Rightarrow> ('m, 'r, 'z) unvme_scheme \<Rightarrow> ('m, 'r, 'z) unvme_scheme" where
  "unvmed_enable_cq qid = cq_modify qid (\<lambda>q. q\<lparr>cq_enabled := True\<rparr>)"

definition unvmed_disable_cq :: "nat \<Rightarrow> ('m, 'r, 'z) unvme_scheme \<Rightarrow> ('m, 'r, 'z) unvme_scheme" where
  "unvmed_disable_cq qid = cq_modify qid (\<lambda>q. q\<lparr>cq_enabled := False\<rparr>)"

text \<open>The loops over all queues take a reference, work, and drop it.\<close>

definition with_sq ::
  "(nat \<Rightarrow> ('m, 'r, 'z) unvme_scheme \<Rightarrow> ('m, 'r, 'z) unvme_scheme) \<Rightarrow> nat \<Rightarrow> ('m, 'r, 'z) unvme_scheme
   \<Rightarrow> ('m, 'r, 'z) unvme_scheme" where
  "with_sq f qid u =
     (case unvmed_sq_get qid u of None \<Rightarrow> u | Some u1 \<Rightarrow> snd (unvmed_sq_put qid (f qid u1)))"

definition with_cq ::
  "(nat \<Rightarrow> ('m, 'r, 'z) unvme_scheme \<Rightarrow> ('m, 'r, 'z) unvme_scheme) \<Rightarrow> nat \<Rightarrow> ('m, 'r, 'z) unvme_scheme
   \<Rightarrow> ('m, 'r, 'z) unvme_scheme" where
  "with_cq f qid u =
     (case unvmed_cq_get qid u of None \<Rightarrow> u | Some u1 \<Rightarrow> snd (unvmed_cq_put qid (f qid u1)))"

definition unvmed_disable_sq_all :: "('m, 'r, 'z) unvme_scheme \<Rightarrow> ('m, 'r, 'z) unvme_scheme" where
  "unvmed_disable_sq_all u = fold (with_sq unvmed_disable_sq) [0..<length (sqs u)] u"

definition unvmed_disable_cq_all :: "('m, 'r, 'z) unvme_scheme \<Rightarrow> ('m, 'r, 'z) unvme_scheme" where
  "unvmed_disable_cq_all u = fold (with_cq unvmed_disable_cq) [0..<length (cqs u)] u"

definition unvmed_disable_ctx :: "('m, 'r, 'z) unvme_scheme \<Rightarrow> ('m, 'r, 'z) unvme_scheme" where
  "unvmed_disable_ctx u = unvmed_disable_ns_all (unvmed_disable_cq_all (unvmed_disable_sq_all u))"

subsection \<open>Quiescing\<close>

text \<open>Taking the lock of a queue: \<open>None\<close> while somebody holds it.\<close>

definition unvmed_sq_enter ::
  "nat \<Rightarrow> ('m, 'r, 'z) unvme_scheme \<Rightarrow> ('m, 'r, 'z) unvme_scheme option" where
  "unvmed_sq_enter qid u =
     (if qid \<in> sq_locked u then None else Some (u\<lparr>sq_locked := insert qid (sq_locked u)\<rparr>))"

definition unvmed_sq_try_enter ::
  "nat \<Rightarrow> ('m, 'r, 'z) unvme_scheme \<Rightarrow> bool \<times> ('m, 'r, 'z) unvme_scheme" where
  "unvmed_sq_try_enter qid u =
     (if qid \<in> sq_locked u then (False, u) else (True, u\<lparr>sq_locked := insert qid (sq_locked u)\<rparr>))"

definition unvmed_sq_exit :: "nat \<Rightarrow> ('m, 'r, 'z) unvme_scheme \<Rightarrow> ('m, 'r, 'z) unvme_scheme" where
  "unvmed_sq_exit qid u = u\<lparr>sq_locked := sq_locked u - {qid}\<rparr>"

definition unvmed_quiesce_sq ::
  "nat \<Rightarrow> ('m, 'r, 'z) unvme_scheme \<Rightarrow> (unit outcome \<times> ('m, 'r, 'z) unvme_scheme) option" where
  "unvmed_quiesce_sq qid u =
     (case unvmed_sq_get qid u of
        None \<Rightarrow> Some (Fail ERRNO_UNSET, u)
      | Some u1 \<Rightarrow> map_option (\<lambda>u2. (Ok (), snd (unvmed_sq_put qid u2))) (unvmed_sq_enter qid u1))"

definition unvmed_unquiesce_sq ::
  "nat \<Rightarrow> ('m, 'r, 'z) unvme_scheme \<Rightarrow> unit outcome \<times> ('m, 'r, 'z) unvme_scheme" where
  "unvmed_unquiesce_sq qid u =
     (case unvmed_sq_get qid u of
        None \<Rightarrow> (Fail ERRNO_UNSET, u)
      | Some u1 \<Rightarrow> (Ok (), snd (unvmed_sq_put qid (unvmed_sq_exit qid u1))))"

fun quiesce_sqs ::
  "nat list \<Rightarrow> ('m, 'r, 'z) unvme_scheme \<Rightarrow> ('m, 'r, 'z) unvme_scheme option" where
  "quiesce_sqs [] u = Some u"
| "quiesce_sqs (qid # qids) u =
     (case unvmed_quiesce_sq qid u of None \<Rightarrow> None | Some (_, u1) \<Rightarrow> quiesce_sqs qids u1)"

definition unvmed_quiesce_sq_all ::
  "('m, 'r, 'z) unvme_scheme \<Rightarrow> ('m, 'r, 'z) unvme_scheme option" where
  "unvmed_quiesce_sq_all u = quiesce_sqs [0..<length (sqs u)] u"

definition unvmed_unquiesce_sq_all ::
  "('m, 'r, 'z) unvme_scheme \<Rightarrow> ('m, 'r, 'z) unvme_scheme" where
  "unvmed_unquiesce_sq_all u = fold (\<lambda>qid u. snd (unvmed_unquiesce_sq qid u)) [0..<length (sqs u)] u"

subsection \<open>Discarding and deleting\<close>

text \<open>
  \<open>unvmed_discard_sq()\<close> hands the queue of a bound instance back to libvfn, which leaves the entry
  of its array as \<open>gone\<close>, and unbinds the instance. An index outside the table is a fault.
\<close>

definition unvmed_discard_sq ::
  "'r nvme_sq \<Rightarrow> nat \<Rightarrow> ('m, 'r, 'z) unvme_scheme \<Rightarrow> unit outcome \<times> ('m, 'r, 'z) unvme_scheme" where
  "unvmed_discard_sq gone qid u =
     (case nth_opt (sqs u) qid of
        None \<Rightarrow> (Fault, u)
      | Some None \<Rightarrow> (Ok (), u)
      | Some (Some usq) \<Rightarrow>
          if sq_q usq = None then (Ok (), u)
          else (Ok (), sq_store qid (usq\<lparr>sq_q := None\<rparr>) (u\<lparr>ctrl_sq := (ctrl_sq u)(qid := gone)\<rparr>)))"

definition unvmed_discard_cq ::
  "nvme_cq \<Rightarrow> nat \<Rightarrow> ('m, 'r, 'z) unvme_scheme \<Rightarrow> unit outcome \<times> ('m, 'r, 'z) unvme_scheme" where
  "unvmed_discard_cq gone qid u =
     (case nth_opt (cqs u) qid of
        None \<Rightarrow> (Fault, u)
      | Some None \<Rightarrow> (Ok (), u)
      | Some (Some ucq) \<Rightarrow>
          if cq_q ucq = None then (Ok (), u)
          else (Ok (), cq_store qid (ucq\<lparr>cq_q := None\<rparr>) (u\<lparr>ctrl_cq := (ctrl_cq u)(qid := gone)\<rparr>)))"

definition unvmed_delete_sq_u2 ::
  "'r nvme_sq \<Rightarrow> nat \<Rightarrow> ('m, 'r, 'z) unvme_scheme \<Rightarrow> unit outcome \<times> ('m, 'r, 'z) unvme_scheme" where
  "unvmed_delete_sq_u2 gone qid u =
     andthen (unvmed_discard_sq gone qid u) (\<lambda>_ u1. (Ok (), snd (unvmed_sq_put qid u1)))"

definition unvmed_del_sq ::
  "'r nvme_sq \<Rightarrow> nat \<Rightarrow> ('m, 'r, 'z) unvme_scheme \<Rightarrow> unit outcome \<times> ('m, 'r, 'z) unvme_scheme" where
  "unvmed_del_sq gone qid u =
     (case unvmed_sq_find qid u of None \<Rightarrow> (Ok (), u) | Some _ \<Rightarrow> unvmed_delete_sq_u2 gone qid u)"

text \<open>
  \<open>__unvmed_delete_sq_all()\<close>: the reference taken is dropped at once, which must not be the last
  one (an \<open>assert\<close>), and then the queue's own reference.
\<close>

fun delete_sqs ::
  "'r nvme_sq \<Rightarrow> nat list \<Rightarrow> ('m, 'r, 'z) unvme_scheme \<Rightarrow> unit outcome \<times> ('m, 'r, 'z) unvme_scheme" where
  "delete_sqs gone [] u = (Ok (), u)"
| "delete_sqs gone (qid # qids) u =
     (case unvmed_sq_get qid u of
        None \<Rightarrow> delete_sqs gone qids u
      | Some u1 \<Rightarrow>
          (case unvmed_sq_put qid u1 of
             (refcnt, u2) \<Rightarrow>
               if refcnt \<le> 0 then (Fault, u2)
               else andthen (unvmed_delete_sq_u2 gone qid u2) (\<lambda>_ u3. delete_sqs gone qids u3)))"

definition unvmed_delete_sq_all_u2 ::
  "'r nvme_sq \<Rightarrow> ('m, 'r, 'z) unvme_scheme \<Rightarrow> unit outcome \<times> ('m, 'r, 'z) unvme_scheme" where
  "unvmed_delete_sq_all_u2 gone u = delete_sqs gone [0..<length (sqs u)] u"

end
