(* ===== verification/Queue_Facts.thy ===== *)
theory Queue_Facts
  imports Queues Cmd_Life Refcount
begin

text \<open>
  The queue tables: reference counts as an instance of the reference counting contract, quiescing
  and releasing all queues, deleting all queues, and what creating a queue instance leaves, for a
  new instance and for one that survived a reset.
\<close>

subsection \<open>Reference counts\<close>

lemma nth_opt_update:
  "nth_opt (xs[i := v]) j = (if j = i \<and> i < length xs then Some v else nth_opt xs j)"
  by (auto simp: nth_opt_def)

declare nth_opt_in [simp]

text \<open>The count of a queue, 0 when there is none, and the invariant of the tables.\<close>

definition sq_cnt :: "('m, 'r, 'z) unvme_scheme \<Rightarrow> nat \<Rightarrow> int" where
  "sq_cnt u qid = (case nth_opt (sqs u) qid of Some (Some usq) \<Rightarrow> sq_refcnt usq | _ \<Rightarrow> 0)"

definition sq_wf :: "('m, 'r, 'z) unvme_scheme \<Rightarrow> bool" where
  "sq_wf u \<longleftrightarrow> (\<forall>qid usq. nth_opt (sqs u) qid = Some (Some usq) \<longrightarrow> 0 < sq_refcnt usq \<and> sq_id usq = qid)"

definition cq_cnt :: "('m, 'r, 'z) unvme_scheme \<Rightarrow> nat \<Rightarrow> int" where
  "cq_cnt u qid = (case nth_opt (cqs u) qid of Some (Some ucq) \<Rightarrow> cq_refcnt ucq | _ \<Rightarrow> 0)"

definition cq_wf :: "('m, 'r, 'z) unvme_scheme \<Rightarrow> bool" where
  "cq_wf u \<longleftrightarrow> (\<forall>qid ucq. nth_opt (cqs u) qid = Some (Some ucq) \<longrightarrow> 0 < cq_refcnt ucq \<and> cq_id ucq = qid)"

lemma sq_wfD: "sq_wf u \<Longrightarrow> nth_opt (sqs u) qid = Some (Some usq) \<Longrightarrow> 0 < sq_refcnt usq \<and> sq_id usq = qid"
  by (simp add: sq_wf_def)

lemma sq_find_wf:
  "sq_wf u \<Longrightarrow> unvmed_sq_find qid u = (case nth_opt (sqs u) qid of Some (Some usq) \<Rightarrow> Some usq | _ \<Rightarrow> None)"
  using sq_wfD [of u qid] by (auto simp: unvmed_sq_find_def split: option.splits)

lemma sq_store_nth:
  "nth_opt (sqs (sq_store qid usq u)) j =
     (if j = qid \<and> qid < length (sqs u) then Some (Some usq) else nth_opt (sqs u) j)"
  by (simp add: sq_store_def nth_opt_update)

lemma sq_store_wf: "sq_wf u \<Longrightarrow> 0 < sq_refcnt usq \<Longrightarrow> sq_id usq = qid \<Longrightarrow> sq_wf (sq_store qid usq u)"
  by (auto simp: sq_wf_def sq_store_nth split: if_splits)

lemma sq_get_some:
  assumes "sq_wf u" and "unvmed_sq_get qid u = Some u'"
  shows "sq_wf u' \<and> sq_cnt u' = (sq_cnt u)(qid := sq_cnt u qid + 1)"
proof -
  obtain usq where usq: "nth_opt (sqs u) qid = Some (Some usq)"
    using assms by (auto simp: unvmed_sq_get_def sq_find_wf split: option.splits)
  note live = sq_wfD [OF assms(1) usq]
  have "u' = sq_store qid (usq\<lparr>sq_refcnt := sq_refcnt usq + 1\<rparr>) u"
    using assms usq live by (simp add: unvmed_sq_get_def sq_find_wf)
  with assms(1) usq live show ?thesis
    by (auto simp: sq_store_wf sq_cnt_def sq_store_nth nth_opt_in fun_eq_iff)
qed

lemma sq_put_live:
  assumes "sq_wf u" and "0 < sq_cnt u qid"
  shows "sq_wf (snd (unvmed_sq_put qid u)) \<and> fst (unvmed_sq_put qid u) = sq_cnt u qid - 1
    \<and> sq_cnt (snd (unvmed_sq_put qid u)) = (sq_cnt u)(qid := sq_cnt u qid - 1)"
proof -
  obtain usq where usq: "nth_opt (sqs u) qid = Some (Some usq)"
    using assms(2) by (auto simp: sq_cnt_def split: option.splits)
  note live = sq_wfD [OF assms(1) usq]
  have cnt: "sq_cnt u qid = sq_refcnt usq" using usq by (simp add: sq_cnt_def nth_opt_in)
  show ?thesis
  proof (cases "sq_refcnt usq = 1")
    case True
    let ?u = "sq_store qid (usq\<lparr>sq_refcnt := 0\<rparr>) u"
    have put: "unvmed_sq_put qid u = (0, unvmed_free_usq_u2 qid ?u)"
      using usq True by (simp add: unvmed_sq_put_def)
    have "sqs (unvmed_free_usq_u2 qid ?u) = (sqs u)[qid := None]"
      using usq by (simp add: unvmed_free_usq_u2_def sq_store_def nth_opt_update)
    with put cnt True usq assms(1) show ?thesis
      by (auto simp: sq_wf_def sq_cnt_def nth_opt_update fun_eq_iff split: if_splits)
  next
    case False
    with usq have "unvmed_sq_put qid u = (sq_refcnt usq - 1, sq_store qid (usq\<lparr>sq_refcnt := sq_refcnt usq - 1\<rparr>) u)"
      by (simp add: unvmed_sq_put_def Let_def)
    with False usq live assms(1) cnt show ?thesis
      by (auto simp: sq_store_wf sq_cnt_def sq_store_nth fun_eq_iff)
  qed
qed

interpretation sq_refs: refcount unvmed_sq_get unvmed_sq_put sq_cnt sq_wf
proof
  fix u :: "('a, 'b, 'c) unvme_scheme" and qid
  assume wf: "sq_wf u"
  then show "0 \<le> sq_cnt u qid"
    by (auto simp: sq_cnt_def sq_wf_def less_imp_le split: option.splits)
  show "unvmed_sq_get qid u = None \<longleftrightarrow> sq_cnt u qid = 0"
    using wf sq_wfD [OF wf, of qid]
    by (auto simp: unvmed_sq_get_def sq_find_wf sq_cnt_def split: option.splits)
qed (rule sq_get_some sq_put_live; assumption)+
lemma cq_wfD: "cq_wf u \<Longrightarrow> nth_opt (cqs u) qid = Some (Some ucq) \<Longrightarrow> 0 < cq_refcnt ucq \<and> cq_id ucq = qid"
  by (simp add: cq_wf_def)

lemma cq_find_wf:
  "cq_wf u \<Longrightarrow> unvmed_cq_find qid u = (case nth_opt (cqs u) qid of Some (Some ucq) \<Rightarrow> Some ucq | _ \<Rightarrow> None)"
  using cq_wfD [of u qid] by (auto simp: unvmed_cq_find_def split: option.splits)

lemma cq_store_nth:
  "nth_opt (cqs (cq_store qid ucq u)) j =
     (if j = qid \<and> qid < length (cqs u) then Some (Some ucq) else nth_opt (cqs u) j)"
  by (simp add: cq_store_def nth_opt_update)

lemma cq_store_wf: "cq_wf u \<Longrightarrow> 0 < cq_refcnt ucq \<Longrightarrow> cq_id ucq = qid \<Longrightarrow> cq_wf (cq_store qid ucq u)"
  by (auto simp: cq_wf_def cq_store_nth split: if_splits)

lemma cq_get_some:
  assumes "cq_wf u" and "unvmed_cq_get qid u = Some u'"
  shows "cq_wf u' \<and> cq_cnt u' = (cq_cnt u)(qid := cq_cnt u qid + 1)"
proof -
  obtain ucq where ucq: "nth_opt (cqs u) qid = Some (Some ucq)"
    using assms by (auto simp: unvmed_cq_get_def cq_find_wf split: option.splits)
  note live = cq_wfD [OF assms(1) ucq]
  have "u' = cq_store qid (ucq\<lparr>cq_refcnt := cq_refcnt ucq + 1\<rparr>) u"
    using assms ucq live by (simp add: unvmed_cq_get_def cq_find_wf)
  with assms(1) ucq live show ?thesis
    by (auto simp: cq_store_wf cq_cnt_def cq_store_nth nth_opt_in fun_eq_iff)
qed

lemma cq_put_live:
  assumes "cq_wf u" and "0 < cq_cnt u qid"
  shows "cq_wf (snd (unvmed_cq_put qid u)) \<and> fst (unvmed_cq_put qid u) = cq_cnt u qid - 1
    \<and> cq_cnt (snd (unvmed_cq_put qid u)) = (cq_cnt u)(qid := cq_cnt u qid - 1)"
proof -
  obtain ucq where ucq: "nth_opt (cqs u) qid = Some (Some ucq)"
    using assms(2) by (auto simp: cq_cnt_def split: option.splits)
  note live = cq_wfD [OF assms(1) ucq]
  have cnt: "cq_cnt u qid = cq_refcnt ucq" using ucq by (simp add: cq_cnt_def nth_opt_in)
  show ?thesis
  proof (cases "cq_refcnt ucq = 1")
    case True
    let ?u = "cq_store qid (ucq\<lparr>cq_refcnt := 0\<rparr>) u"
    have put: "unvmed_cq_put qid u = (0, unvmed_free_ucq_u2 qid ?u)"
      using ucq True by (simp add: unvmed_cq_put_def)
    have "cqs (unvmed_free_ucq_u2 qid ?u) = (cqs u)[qid := None]"
      using ucq by (simp add: unvmed_free_ucq_u2_def cq_store_def nth_opt_update)
    with put cnt True ucq assms(1) show ?thesis
      by (auto simp: cq_wf_def cq_cnt_def nth_opt_update fun_eq_iff split: if_splits)
  next
    case False
    with ucq have "unvmed_cq_put qid u = (cq_refcnt ucq - 1, cq_store qid (ucq\<lparr>cq_refcnt := cq_refcnt ucq - 1\<rparr>) u)"
      by (simp add: unvmed_cq_put_def Let_def)
    with False ucq live assms(1) cnt show ?thesis
      by (auto simp: cq_store_wf cq_cnt_def cq_store_nth fun_eq_iff)
  qed
qed

interpretation cq_refs: refcount unvmed_cq_get unvmed_cq_put cq_cnt cq_wf
proof
  fix u :: "('a, 'b, 'c) unvme_scheme" and qid
  assume wf: "cq_wf u"
  then show "0 \<le> cq_cnt u qid"
    by (auto simp: cq_cnt_def cq_wf_def less_imp_le split: option.splits)
  show "unvmed_cq_get qid u = None \<longleftrightarrow> cq_cnt u qid = 0"
    using wf cq_wfD [OF wf, of qid]
    by (auto simp: unvmed_cq_get_def cq_find_wf cq_cnt_def split: option.splits)
qed (rule cq_get_some cq_put_live; assumption)+

subsection \<open>A concrete controller\<close>

definition sample_nvme_cq :: nvme_cq where
  "sample_nvme_cq = \<lparr>ncq_qsize = 4, ncq_head = 0, ncq_phase = 0, ncq_entries = replicate 4 zero_cqe,
     ncq_iova = 0, ncq_vector = -1\<rparr>"

definition sample_ucq :: unvme_cq where
  "sample_ucq = \<lparr>cq_id = 1, cq_qsize = 4, cq_vector = -1, cq_pc = 1, cq_q = Some sample_nvme_cq,
     cq_usq = Some 1, cq_enabled = True, cq_refcnt = 1\<rparr>"

definition sample_u :: "(nat set, nat list) unvme" where
  "sample_u = unvme_nss.extend sample_nss
     \<lparr>sqs = [None, Some sample_usq, None], cqs = [None, Some sample_ucq, None],
      ctrl_sq = (\<lambda>_. the (sq_q sample_usq)), ctrl_cq = (\<lambda>_. sample_nvme_cq), sq_locked = {},
      nr_cmds = 0, timeout = 0, u_bdf = 0x100, u_state = UNVME_ENABLED, vcqs = (\<lambda>_. None)\<rparr>"

lemma sample_u_queues [simp]:
  "sqs sample_u = [None, Some sample_usq, None]" "cqs sample_u = [None, Some sample_ucq, None]"
  "sq_locked sample_u = {}"
  by (simp_all add: sample_u_def unvme_nss.extend_def)

lemma sample_at:
  "nth_opt (sqs sample_u) qid = Some (Some usq) \<longleftrightarrow> qid = 1 \<and> usq = sample_usq"
  "nth_opt (cqs sample_u) qid = Some (Some ucq) \<longleftrightarrow> qid = 1 \<and> ucq = sample_ucq"
  by (auto simp: nth_Cons less_Suc_eq split: nat.splits)

lemma sample_u_wf: "sq_wf sample_u" "cq_wf sample_u"
  unfolding sq_wf_def cq_wf_def sample_at by (simp_all add: sample_usq_def sample_ucq_def)

subsection \<open>Clients\<close>

text \<open>C31. Whatever references threads take and drop on the queues of a controller, dropping only
  those they hold, the count of a queue is what it was and what they still hold, so a queue that
  had references stays in the table until its owner drops its own; likewise for completion
  queues.
\<close>

theorem queue_references:
  assumes "sq_wf u" and "ref_run unvmed_sq_get unvmed_sq_put sq_ops' (u, []) = (u1, sq_held)"
    and "cq_wf v" and "ref_run unvmed_cq_get unvmed_cq_put cq_ops' (v, []) = (v1, cq_held)"
  shows "sq_cnt u1 qid = sq_cnt u qid + int (count_list sq_held qid)
    \<and> (0 < sq_cnt u qid \<longrightarrow> unvmed_sq_find qid u1 \<noteq> None)
    \<and> cq_cnt v1 qid = cq_cnt v qid + int (count_list cq_held qid)
    \<and> (0 < cq_cnt v qid \<longrightarrow> unvmed_cq_find qid v1 \<noteq> None)"
  using sq_refs.run_counts [OF assms(1,2), of qid] cq_refs.run_counts [OF assms(3,4), of qid]
  by (auto simp: unvmed_sq_get_def unvmed_cq_get_def split: option.splits)

theorem queue_references_witness:
  "\<exists>u1 v1. ref_run unvmed_sq_get unvmed_sq_put [Ref 1, Ref 2, Ref 1, Unref 1] (sample_u, []) = (u1, [1])
     \<and> ref_run unvmed_cq_get unvmed_cq_put [Ref 1] (sample_u, []) = (v1, [1])
     \<and> sq_cnt u1 1 = 2 \<and> cq_cnt v1 1 = 2"
proof -
  obtain u1 where u1: "ref_run unvmed_sq_get unvmed_sq_put [Ref 1, Ref 2, Ref 1, Unref 1] (sample_u, [])
      = (u1, [1])"
    by (simp add: unvmed_sq_get_def unvmed_sq_find_def unvmed_sq_put_def sq_store_def sample_usq_def Let_def)
  obtain v1 where v1: "ref_run unvmed_cq_get unvmed_cq_put [Ref 1] (sample_u, []) = (v1, [1])"
    by (simp add: unvmed_cq_get_def unvmed_cq_find_def cq_store_def sample_ucq_def)
  have "sq_cnt sample_u 1 = 1" "cq_cnt sample_u 1 = 1"
    by (simp_all add: sq_cnt_def cq_cnt_def sample_usq_def sample_ucq_def)
  with queue_references [OF sample_u_wf(1) u1 sample_u_wf(2) v1, of 1] u1 v1 show ?thesis by auto
qed

subsection \<open>Quiescing\<close>

text \<open>The queues that have references.\<close>

definition live_sqs :: "('m, 'r, 'z) unvme_scheme \<Rightarrow> nat set" where
  "live_sqs u = {qid. 0 < sq_cnt u qid}"

lemma live_sqs_at:
  "sq_wf u \<Longrightarrow> qid \<in> live_sqs u \<longleftrightarrow> (\<exists>usq. nth_opt (sqs u) qid = Some (Some usq))"
  by (auto simp: live_sqs_def sq_cnt_def dest: sq_wfD split: option.splits)

lemma sq_get_live:
  assumes "sq_wf u" and "nth_opt (sqs u) qid = Some (Some usq)"
  shows "unvmed_sq_get qid u = Some (sq_store qid (usq\<lparr>sq_refcnt := sq_refcnt usq + 1\<rparr>) u)"
  using assms sq_wfD [OF assms] by (simp add: unvmed_sq_get_def sq_find_wf)

lemma sq_get_dead: "sq_wf u \<Longrightarrow> qid \<notin> live_sqs u \<Longrightarrow> unvmed_sq_get qid u = None"
  by (auto simp: unvmed_sq_get_def sq_find_wf live_sqs_at split: option.splits)

lemma sq_put_got:
  assumes "sq_wf u" and "nth_opt (sqs u) qid = Some (Some usq)"
  shows "snd (unvmed_sq_put qid (sq_store qid (usq\<lparr>sq_refcnt := sq_refcnt usq + 1\<rparr>) u\<lparr>sq_locked := L\<rparr>))
    = u\<lparr>sq_locked := L\<rparr>"
  using assms sq_wfD [OF assms]
  by (cases u) (auto simp: unvmed_sq_put_def sq_store_def nth_opt_update list_update_same_conv)

lemma quiesce_sq_eq:
  assumes "sq_wf u"
  shows "unvmed_quiesce_sq qid u =
    (if qid \<in> live_sqs u then
       (if qid \<in> sq_locked u then None else Some (Ok (), u\<lparr>sq_locked := insert qid (sq_locked u)\<rparr>))
     else Some (Fail ERRNO_UNSET, u))"
proof (cases "qid \<in> live_sqs u")
  case True
  then obtain usq where usq: "nth_opt (sqs u) qid = Some (Some usq)" using assms live_sqs_at by blast
  have "sq_locked (sq_store qid (usq\<lparr>sq_refcnt := sq_refcnt usq + 1\<rparr>) u) = sq_locked u"
    by (simp add: sq_store_def)
  with True sq_get_live [OF assms usq] sq_put_got [OF assms usq] show ?thesis
    by (simp add: unvmed_quiesce_sq_def unvmed_sq_enter_def)
qed (simp add: unvmed_quiesce_sq_def sq_get_dead assms)

lemma unquiesce_sq_eq:
  assumes "sq_wf u"
  shows "snd (unvmed_unquiesce_sq qid u) =
    (if qid \<in> live_sqs u then u\<lparr>sq_locked := sq_locked u - {qid}\<rparr> else u)"
proof (cases "qid \<in> live_sqs u")
  case True
  then obtain usq where usq: "nth_opt (sqs u) qid = Some (Some usq)" using assms live_sqs_at by blast
  have "sq_locked (sq_store qid (usq\<lparr>sq_refcnt := sq_refcnt usq + 1\<rparr>) u) = sq_locked u"
    by (simp add: sq_store_def)
  with True sq_get_live [OF assms usq] sq_put_got [OF assms usq] show ?thesis
    by (simp add: unvmed_unquiesce_sq_def unvmed_sq_exit_def)
qed (simp add: unvmed_unquiesce_sq_def sq_get_dead assms)

lemma sq_locked_frame [simp]:
  "sq_wf (u\<lparr>sq_locked := L\<rparr>) = sq_wf u" "live_sqs (u\<lparr>sq_locked := L\<rparr>) = live_sqs u"
  by (simp_all add: sq_wf_def live_sqs_def sq_cnt_def)

lemma quiesce_sqs_eq:
  "sq_wf u \<Longrightarrow> distinct qids \<Longrightarrow> quiesce_sqs qids u =
     (if sq_locked u \<inter> live_sqs u \<inter> set qids \<noteq> {} then None
      else Some (u\<lparr>sq_locked := sq_locked u \<union> live_sqs u \<inter> set qids\<rparr>))"
proof (induction qids arbitrary: u)
  case (Cons qid qids)
  show ?case
  proof (cases "qid \<in> live_sqs u \<and> qid \<notin> sq_locked u")
    case True
    let ?u = "u\<lparr>sq_locked := insert qid (sq_locked u)\<rparr>"
    have "quiesce_sqs (qid # qids) u = quiesce_sqs qids ?u"
      using True Cons.prems by (simp add: quiesce_sq_eq)
    also have "\<dots> = (if insert qid (sq_locked u) \<inter> live_sqs u \<inter> set qids \<noteq> {} then None
        else Some (u\<lparr>sq_locked := insert qid (sq_locked u) \<union> live_sqs u \<inter> set qids\<rparr>))"
      using Cons.IH [of ?u] Cons.prems by simp
    finally show ?thesis using True Cons.prems(2) by (auto simp: Int_insert_right)
  next
    case False
    with Cons show ?thesis by (auto simp: quiesce_sq_eq Int_insert_right)
  qed
qed simp

lemma unquiesce_fold:
  "sq_wf u \<Longrightarrow> fold (\<lambda>qid u. snd (unvmed_unquiesce_sq qid u)) qids u
     = u\<lparr>sq_locked := sq_locked u - live_sqs u \<inter> set qids\<rparr>"
proof (induction qids arbitrary: u)
  case (Cons qid qids)
  have sets: "qid \<in> live_sqs u \<Longrightarrow> sq_locked u - {qid} - live_sqs u \<inter> set qids = sq_locked u - live_sqs u \<inter> set (qid # qids)"
    "qid \<notin> live_sqs u \<Longrightarrow> live_sqs u \<inter> set qids = live_sqs u \<inter> set (qid # qids)" by auto
  show ?case
  proof (cases "qid \<in> live_sqs u")
    case True
    with Cons.IH [of "u\<lparr>sq_locked := sq_locked u - {qid}\<rparr>"] Cons.prems sets(1) show ?thesis
      by (simp add: unquiesce_sq_eq)
  next
    case False
    with Cons.IH [of u] Cons.prems
    have "fold (\<lambda>qid u. snd (unvmed_unquiesce_sq qid u)) (qid # qids) u
      = u\<lparr>sq_locked := sq_locked u - live_sqs u \<inter> set qids\<rparr>" by (simp add: unquiesce_sq_eq)
    then show ?thesis unfolding sets(2) [OF False] .
  qed
qed simp

lemma live_sqs_bound: "live_sqs u \<subseteq> {..<length (sqs u)}"
  by (auto simp: live_sqs_def sq_cnt_def nth_opt_def split: if_splits option.splits)

text \<open>Quiescing all queues waits as long as somebody holds the lock of a queue in use, and
  otherwise takes exactly the locks of the queues in use; unquiescing releases exactly those. The
  references the two loops take are all dropped.
\<close>

theorem quiesce_all_outcome:
  assumes "sq_wf u"
  shows "unvmed_quiesce_sq_all u =
      (if sq_locked u \<inter> live_sqs u \<noteq> {} then None
       else Some (u\<lparr>sq_locked := sq_locked u \<union> live_sqs u\<rparr>))
    \<and> unvmed_unquiesce_sq_all u = u\<lparr>sq_locked := sq_locked u - live_sqs u\<rparr>"
proof -
  have "live_sqs u \<inter> set [0..<length (sqs u)] = live_sqs u"
    using live_sqs_bound [of u] by auto
  then show ?thesis
    using quiesce_sqs_eq [OF assms, of "[0..<length (sqs u)]"] unquiesce_fold [OF assms]
    by (simp add: unvmed_quiesce_sq_all_def unvmed_unquiesce_sq_all_def Int_assoc)
qed

theorem quiesce_all_outcome_witness:
  "\<exists>u. unvmed_quiesce_sq_all sample_u = Some u \<and> sq_locked u = {1}"
proof -
  have "live_sqs sample_u = {1}"
    using sample_at(1) by (auto simp: live_sqs_at [OF sample_u_wf(1)])
  with quiesce_all_outcome [OF sample_u_wf(1)] show ?thesis by simp
qed

subsection \<open>Deleting\<close>

text \<open>What discarding leaves: the instance unbound, the table otherwise as it was.\<close>

lemma discard_sq_live:
  assumes "nth_opt (sqs u) qid = Some (Some usq)"
  shows "\<exists>u'. unvmed_discard_sq gone qid u = (Ok (), u') \<and> sqs u' = (sqs u)[qid := Some (usq\<lparr>sq_q := None\<rparr>)]"
proof (cases "sq_q usq")
  case None
  then have "usq\<lparr>sq_q := None\<rparr> = usq" by simp
  then have "(sqs u)[qid := Some (usq\<lparr>sq_q := None\<rparr>)] = sqs u"
    using assms by (metis list_update_id nth_opt_eq_Some)
  with None assms show ?thesis by (auto simp: unvmed_discard_sq_def)
next
  case (Some q)
  with assms show ?thesis by (auto simp: unvmed_discard_sq_def sq_store_def)
qed

text \<open>A table entry whose queue lost its own reference and its memory.\<close>

definition sq_dropped :: "'r unvme_sq option \<Rightarrow> 'r unvme_sq option" where
  "sq_dropped e = (case e of None \<Rightarrow> None
     | Some usq \<Rightarrow> if sq_refcnt usq = 1 then None else Some (usq\<lparr>sq_q := None, sq_refcnt := sq_refcnt usq - 1\<rparr>))"

lemma delete_sq_live:
  assumes "nth_opt (sqs u) qid = Some (Some usq)"
  shows "\<exists>u'. unvmed_delete_sq_u2 gone qid u = (Ok (), u') \<and> sqs u' = (sqs u)[qid := sq_dropped (Some usq)]"
proof -
  obtain u1 where u1: "unvmed_discard_sq gone qid u = (Ok (), u1)"
    "sqs u1 = (sqs u)[qid := Some (usq\<lparr>sq_q := None\<rparr>)]" using discard_sq_live [OF assms] by blast
  have "nth_opt (sqs u1) qid = Some (Some (usq\<lparr>sq_q := None\<rparr>))" using u1(2) assms by (simp add: nth_opt_update)
  then have "sqs (snd (unvmed_sq_put qid u1)) = (sqs u)[qid := sq_dropped (Some usq)]"
    using u1(2) assms
    by (auto simp: unvmed_sq_put_def Let_def sq_store_def unvmed_free_usq_u2_def nth_opt_update sq_dropped_def)
  with u1(1) show ?thesis by (auto simp: unvmed_delete_sq_u2_def)
qed

lemma sq_get_put:
  assumes "sq_wf u" and "nth_opt (sqs u) qid = Some (Some usq)"
  shows "unvmed_sq_put qid (sq_store qid (usq\<lparr>sq_refcnt := sq_refcnt usq + 1\<rparr>) u) = (sq_refcnt usq, u)"
  using assms sq_wfD [OF assms]
  by (cases u) (auto simp: unvmed_sq_put_def sq_store_def nth_opt_update list_update_same_conv)

lemma sq_dropped_wf:
  assumes "sq_wf u" and "nth_opt (sqs u) qid = Some (Some usq)"
    and "sqs u' = (sqs u)[qid := sq_dropped (Some usq)]"
  shows "sq_wf u'"
proof -
  have "sq_dropped (Some usq) = Some usq' \<Longrightarrow> 0 < sq_refcnt usq' \<and> sq_id usq' = qid" for usq'
    using sq_wfD [OF assms(1,2)] by (auto simp: sq_dropped_def split: if_splits)
  with assms show ?thesis by (auto simp: sq_wf_def nth_opt_update split: if_splits)
qed

lemma delete_sqs_outcome:
  "sq_wf u \<Longrightarrow> distinct qids \<Longrightarrow> \<exists>u'. delete_sqs gone qids u = (Ok (), u')
     \<and> (\<forall>j. nth_opt (sqs u') j = map_option (if j \<in> set qids then sq_dropped else id) (nth_opt (sqs u) j))"
proof (induction qids arbitrary: u)
  case (Cons qid qids)
  show ?case
  proof (cases "qid \<in> live_sqs u")
    case True
    then obtain usq where usq: "nth_opt (sqs u) qid = Some (Some usq)" using Cons.prems(1) live_sqs_at by blast
    note wf = Cons.prems(1)
    obtain u1 where u1: "unvmed_delete_sq_u2 gone qid u = (Ok (), u1)"
      "sqs u1 = (sqs u)[qid := sq_dropped (Some usq)]" using delete_sq_live [OF usq] by blast
    obtain u' where u': "delete_sqs gone qids u1 = (Ok (), u')"
      "\<forall>j. nth_opt (sqs u') j = map_option (if j \<in> set qids then sq_dropped else id) (nth_opt (sqs u1) j)"
      using Cons.IH [OF sq_dropped_wf [OF wf usq u1(2)]] Cons.prems(2) by auto
    have "delete_sqs gone (qid # qids) u = (Ok (), u')"
      using sq_get_live [OF wf usq] sq_get_put [OF wf usq] sq_wfD [OF wf usq] u1(1) u'(1) by simp
    moreover have "nth_opt (sqs u') j = map_option (if j \<in> set (qid # qids) then sq_dropped else id) (nth_opt (sqs u) j)" for j
      using u'(2) usq Cons.prems(2) by (cases "j = qid") (simp_all add: u1(2) nth_opt_update)
    ultimately show ?thesis by blast
  next
    case False
    then have dead: "nth_opt (sqs u) qid \<noteq> Some (Some usq)" for usq
      using Cons.prems(1) live_sqs_at by blast
    obtain u' where u': "delete_sqs gone qids u = (Ok (), u')"
      "\<forall>j. nth_opt (sqs u') j = map_option (if j \<in> set qids then sq_dropped else id) (nth_opt (sqs u) j)"
      using Cons.IH [OF Cons.prems(1)] Cons.prems(2) by auto
    have "map_option sq_dropped (nth_opt (sqs u) qid) = nth_opt (sqs u) qid"
      using dead [of "the (sqs u ! qid)"] by (auto simp: nth_opt_def sq_dropped_def split: option.splits if_splits)
    with u' Cons.prems False have "\<forall>j. nth_opt (sqs u') j = map_option (if j \<in> set (qid # qids) then sq_dropped else id) (nth_opt (sqs u) j)"
      by (auto simp: option.map_id)
    with u'(1) Cons.prems(1) False show ?thesis by (auto simp: sq_get_dead)
  qed
qed (auto simp: option.map_id0)

text \<open>Discarding all submission queues at a reset drops one reference of each: an instance that
  nobody else holds is gone, an instance that an application still holds stays in the table
  without its queue memory, and no reference count underflows.
\<close>

theorem delete_all_outcome:
  assumes "sq_wf u"
  shows "\<exists>u'. unvmed_delete_sq_all_u2 gone u = (Ok (), u') \<and> sqs u' = map sq_dropped (sqs u)"
proof -
  obtain u' where u': "delete_sqs gone [0..<length (sqs u)] u = (Ok (), u')"
    "\<forall>j. nth_opt (sqs u') j = map_option (if j \<in> set [0..<length (sqs u)] then sq_dropped else id) (nth_opt (sqs u) j)"
    using delete_sqs_outcome [OF assms, of "[0..<length (sqs u)]"] by auto
  have "sqs u' = map sq_dropped (sqs u)"
  proof (rule nth_equalityI)
    have "nth_opt (sqs u') j = None \<longleftrightarrow> nth_opt (sqs u) j = None" for j using u'(2) by simp
    then show "length (sqs u') = length (map sq_dropped (sqs u))"
      by simp (meson le_refl nat_le_linear order_antisym)
  next
    fix j assume "j < length (sqs u')"
    moreover have "nth_opt (sqs u') j = map_option (if j < length (sqs u) then sq_dropped else id) (nth_opt (sqs u) j)"
      using u'(2) by simp
    ultimately show "sqs u' ! j = map sq_dropped (sqs u) ! j"
      by (auto simp: nth_opt_def split: if_splits)
  qed
  with u'(1) show ?thesis by (auto simp: unvmed_delete_sq_all_u2_def)
qed

theorem delete_all_outcome_witness:
  "\<exists>u'. unvmed_delete_sq_all_u2 (the (sq_q sample_usq)) sample_u = (Ok (), u')
     \<and> sqs u' = [None, None, None]"
  using delete_all_outcome [OF sample_u_wf(1), of "the (sq_q sample_usq)"] by (simp add: sq_dropped_def sample_usq_def)

subsection \<open>Creating\<close>

lemma new_usq_inv:
  assumes "bitmap_wf cids" and "used_cids cids = {}" and "bm_size cids \<le> qsize"
  shows "sq_inv (new_usq qid qsize cids\<lparr>sq_q := Some q, sq_nr_cmds := 0, sq_qsize := n,
                 sq_qprio := p, sq_pc := c, sq_nvmsetid := v, sq_ucq := k, sq_flags := 0\<rparr>)" (is "sq_inv ?usq")
proof -
  have "live_refs ?usq = {}" using assms(2) by (simp add: live_refs_def new_usq_def zero_cmd_def)
  moreover have "cmd_at ?usq r = Some c \<Longrightarrow> cmd_idle c" for r c
    by (cases r) (auto simp: cmd_idle_def new_usq_def zero_cmd_def)
  ultimately show ?thesis using assms by (simp add: sq_inv_def new_usq_def)
qed

text \<open>C32. A submission queue created for an unused identifier has the invariant of an idle queue with
  one slot less than its size, is bound to libvfn's queue, is not enabled, has one reference, and
  the other queues are untouched.
\<close>

theorem init_usq_fresh:
  assumes "sq_wf u" and "qid < length (sqs u)" and "qid \<notin> live_sqs u" and "2 \<le> qsize" and "qsize \<le> 65537"
  shows "\<exists>u' usq. unvmed_init_usq True True None qid qsize cqid qprio pc nvmsetid u = (Ok (), u')
    \<and> unvmed_sq_find qid u' = Some usq \<and> sq_inv usq \<and> sq_nr_cmds usq = 0 \<and> sq_refcnt usq = 1
    \<and> \<not> sq_enabled usq \<and> sq_qsize usq = qsize \<and> bm_size (sq_cids usq) = qsize - 1
    \<and> sq_q usq = Some (ctrl_sq u qid) \<and> sq_wf u'
    \<and> (\<forall>j. j \<noteq> qid \<longrightarrow> nth_opt (sqs u') j = nth_opt (sqs u) j)"
proof -
  have n: "unat (word_of_nat qsize - 1 :: u32) = qsize - 1"
    using assms(4,5) by (simp add: unat_sub_if_size unat_of_nat word_size)
  have "0 < qsize - 1" "qsize - 1 \<le> 65536" using assms(4,5) by simp_all
  from cid_init_ok [OF this] obtain cids where cids: "unvmed_cid_init True (qsize - 1) = Ok cids"
    "bitmap_wf cids" "bm_size cids = qsize - 1" "used_cids cids = {}" by blast
  let ?usq = "new_usq qid qsize cids\<lparr>sq_q := Some (ctrl_sq u qid), sq_nr_cmds := 0, sq_qsize := qsize,
                 sq_qprio := qprio, sq_pc := pc, sq_nvmsetid := nvmsetid, sq_ucq := cqid, sq_flags := 0\<rparr>"
  let ?u = "usq_setup qid qsize cqid qprio pc nvmsetid (new_usq qid qsize cids) u"
  have run: "unvmed_init_usq True True None qid qsize cqid qprio pc nvmsetid u = (Ok (), ?u)"
    using assms(1-3) n cids(1) by (simp add: unvmed_init_usq_def sq_get_dead)
  have tab: "sqs ?u = (sqs u)[qid := Some ?usq]"
    by (auto simp: usq_setup_def sq_store_def cq_store_def bound_sq_def new_usq_def Let_def split: option.splits)
  have new: "sq_refcnt ?usq = 1" "sq_id ?usq = qid" "\<not> sq_enabled ?usq" "sq_cids ?usq = cids"
    by (simp_all add: new_usq_def)
  have "sq_wf ?u" using assms(1) new by (auto simp: sq_wf_def tab nth_opt_update split: if_splits)
  moreover have "unvmed_sq_find qid ?u = Some ?usq"
    using assms(2) new by (simp add: unvmed_sq_find_def tab nth_opt_update)
  moreover have "sq_inv ?usq" by (rule new_usq_inv) (use cids in simp_all)
  ultimately show ?thesis using run new cids(3) by (auto simp: tab nth_opt_update)
qed

theorem init_usq_fresh_witness:
  "\<exists>u' usq. unvmed_init_usq True True None 2 16 1 0 1 0 sample_u = (Ok (), u')
     \<and> unvmed_sq_find 2 u' = Some usq \<and> sq_inv usq \<and> bm_size (sq_cids usq) = 15"
proof -
  have "(2::nat) < length (sqs sample_u)" "(2::nat) \<notin> live_sqs sample_u"
    using sample_at(1) by (auto simp: live_sqs_at [OF sample_u_wf(1)])
  from init_usq_fresh [OF sample_u_wf(1) this, of 16 1 0 1 0] show ?thesis by auto
qed

text \<open>Creating a queue whose instance survived a reset because an application holds it changes
  its size but neither its command array nor its bitmap of identifiers, and takes one more
  reference, which nothing drops.
\<close>

theorem init_usq_reuse:
  assumes "sq_wf u" and "nth_opt (sqs u) qid = Some (Some usq)" and "\<not> sq_enabled usq"
  shows "\<exists>u' usq'. unvmed_init_usq a b t qid qsize cqid qprio pc nvmsetid u = (Ok (), u')
    \<and> unvmed_sq_find qid u' = Some usq' \<and> sq_refcnt usq' = sq_refcnt usq + 1 \<and> sq_qsize usq' = qsize
    \<and> sq_cmds usq' = sq_cmds usq \<and> sq_cids usq' = sq_cids usq"
proof -
  note live = sq_wfD [OF assms(1,2)]
  let ?usq = "usq\<lparr>sq_refcnt := sq_refcnt usq + 1\<rparr>"
  let ?u = "sq_store qid ?usq u"
  let ?v = "usq_setup qid qsize cqid qprio pc nvmsetid ?usq ?u"
  have "unvmed_sq_find qid ?u = Some ?usq"
    using assms(2) live by (simp add: unvmed_sq_find_def sq_store_nth)
  then have "unvmed_init_usq a b t qid qsize cqid qprio pc nvmsetid u = (Ok (), ?v)"
    using sq_get_live [OF assms(1,2)] assms(3) by (simp add: unvmed_init_usq_def)
  moreover have "sqs ?v = (sqs u)[qid := Some (?usq\<lparr>sq_q := Some (bound_sq qid ?u ?usq), sq_nr_cmds := 0,
      sq_qsize := qsize, sq_qprio := qprio, sq_pc := pc, sq_nvmsetid := nvmsetid, sq_ucq := cqid,
      sq_flags := 0\<rparr>)]"
    by (auto simp: usq_setup_def sq_store_def cq_store_def Let_def split: option.splits)
  ultimately show ?thesis
    using assms(2) live by (simp add: unvmed_sq_find_def nth_opt_update)
qed

theorem init_usq_reuse_witness:
  "\<exists>u' usq. unvmed_init_usq True True None 1 64 1 0 1 0 (unvmed_disable_sq 1 sample_u) = (Ok (), u')
     \<and> unvmed_sq_find 1 u' = Some usq \<and> sq_qsize usq = 64 \<and> length (sq_cmds usq) = 3"
proof -
  let ?usq = "sample_usq\<lparr>sq_enabled := False\<rparr>" and ?u = "unvmed_disable_sq 1 sample_u"
  have tab: "sqs ?u = [None, Some ?usq, None]"
    by (simp add: unvmed_disable_sq_def sq_modify_def sq_store_def)
  then have at: "nth_opt (sqs ?u) 1 = Some (Some ?usq)" by simp
  have "nth_opt (sqs ?u) qid = Some (Some usq) \<Longrightarrow> qid = 1 \<and> usq = ?usq" for qid usq
    unfolding tab by (auto simp: nth_Cons less_Suc_eq split: nat.splits)
  moreover have "0 < sq_refcnt ?usq \<and> sq_id ?usq = 1" by (simp add: sample_usq_def)
  ultimately have "sq_wf ?u" unfolding sq_wf_def by metis
  from init_usq_reuse [OF this at, of True True None 64 1 0 1 0] show ?thesis
    by (auto simp: sample_usq_def)
qed

end
