(* ===== verification/Completion.thy ===== *)
theory Completion
  imports Queues
begin

unbundle bit_operations_syntax

text \<open>
  Submission and completion of commands, \<open>lib/libunvmed.c\<close> and \<open>lib/libunvmed-vcq.c\<close>: posting an
  entry, resolving a completion to its command, completing it by waking its waiter or through the
  virtual completion queue of its application, reaping a completion queue, cancelling the commands
  of a queue, and polling. A command pointer is its queue and its slot.

  A function that spins until another thread acts returns \<open>None\<close> when it would have to wait: a
  push into a full virtual queue, or the wait for the last command of a queue to be put.
\<close>

subsection \<open>The environment\<close>

text \<open>
  libvfn's calls on the two rings (\<open>nvme_sq_post()\<close>, \<open>nvme_sq_update_tail()\<close>,
  \<open>nvme_cq_get_cqe()\<close>, \<open>nvme_cq_update_head()\<close>) and the status constants of the NVMe headers.
\<close>

record 'r io_env =
  io_sq :: "'r sq_ops"
  io_get_cqe :: "nvme_cq \<Rightarrow> (nvme_cqe \<times> nvme_cq) option"
  io_update_head :: "nvme_cq \<Rightarrow> nvme_cq"
  io_sct_shift :: nat
  io_sct_path :: u16
  io_sc_abort :: u16

type_synonym ('a, 'm, 'r, 'z) blocking = "('a outcome \<times> ('m, 'r, 'z) unvme_scheme) option"

text \<open>The next step of a function that may wait.\<close>

definition thenb ::
  "('a outcome \<times> 's) option \<Rightarrow> ('a \<Rightarrow> 's \<Rightarrow> ('b outcome \<times> 's) option) \<Rightarrow> ('b outcome \<times> 's) option" where
  "thenb r f =
     (case r of
        None \<Rightarrow> None
      | Some (Ok x, u) \<Rightarrow> f x u
      | Some (Fail e, u) \<Rightarrow> Some (Fail e, u)
      | Some (Fault, u) \<Rightarrow> Some (Fault, u))"

lemma thenb_simps [simp]:
  "thenb None f = None" "thenb (Some (Ok x, u)) f = f x u"
  "thenb (Some (Fail e, u)) f = Some (Fail e, u)" "thenb (Some (Fault, u)) f = Some (Fault, u)"
  by (simp_all add: thenb_def)

lemma thenb_Ok:
  "thenb r f = Some (Ok y, v) \<longleftrightarrow> (\<exists>x u. r = Some (Ok x, u) \<and> f x u = Some (Ok y, v))"
  by (auto simp: thenb_def split: option.splits prod.splits outcome.splits)

definition sq_at :: "nat \<Rightarrow> ('m, 'r, 'z) unvme_scheme \<Rightarrow> 'r unvme_sq option" where
  "sq_at qid u = (case nth_opt (sqs u) qid of Some e \<Rightarrow> e | None \<Rightarrow> None)"

definition command :: "nat \<times> cmd_ref \<Rightarrow> ('m, 'r, 'z) unvme_scheme \<Rightarrow> unvme_cmd option" where
  "command p u = (case sq_at (fst p) u of None \<Rightarrow> None | Some usq \<Rightarrow> cmd_at usq (snd p))"

definition set_command ::
  "nat \<times> cmd_ref \<Rightarrow> unvme_cmd \<Rightarrow> ('m, 'r, 'z) unvme_scheme \<Rightarrow> ('m, 'r, 'z) unvme_scheme" where
  "set_command p c u = sq_modify (fst p) (\<lambda>usq. cmd_set usq (snd p) c) u"

subsection \<open>Timer\<close>

text \<open>
  \<open>unvmed_timer_update()\<close> with the current time; \<open>timer_settime()\<close> arms the timer for \<open>sec\<close>
  seconds, disarms it when that is 0 and refuses a negative value. Only the seconds of the
  expiration are stored, before the call; its result is dropped by the callers.
\<close>

definition unvmed_timer_update :: "timespec \<Rightarrow> int \<Rightarrow> 'r unvme_sq \<Rightarrow> 'r unvme_sq" where
  "unvmed_timer_update now sec usq =
     usq\<lparr>sq_timer := (sq_timer usq)\<lparr>timer_t := (if sec < 0 then timer_t (sq_timer usq) else sec),
        timer_expire := (timer_expire (sq_timer usq))\<lparr>tv_sec := tv_sec now + sec\<rparr>\<rparr>\<rparr>"

definition unvmed_timer_running :: "unvme_timer \<Rightarrow> bool" where
  "unvmed_timer_running t \<longleftrightarrow> 0 < timer_t t"

definition unvmed_cmd_add_timer ::
  "timespec \<Rightarrow> int \<Rightarrow> cmd_ref \<Rightarrow> unvme_cmd \<Rightarrow> 'r unvme_sq \<Rightarrow> 'r unvme_sq" where
  "unvmed_cmd_add_timer now sec r c usq =
     (let usq1 = cmd_set usq r (c\<lparr>c_timeout := now\<lparr>tv_sec := tv_sec now + sec\<rparr>\<rparr>) in
      if timer_active (sq_timer usq1) \<and> \<not> unvmed_timer_running (sq_timer usq1)
      then unvmed_timer_update now sec usq1 else usq1)"

subsection \<open>Posting\<close>

text \<open>
  \<open>unvmed_cmd_post()\<close> with the command's own entry, as all of its callers use it but three of the fio
  engine, which pass a local entry (\<open>unvmed_cmd_post_entry\<close>, of the theory of that engine). The result is
  the index of the entry in the ring.
\<close>

definition unvmed_cmd_post ::
  "'r io_env \<Rightarrow> timespec \<Rightarrow> nat \<times> cmd_ref \<Rightarrow> u64 \<Rightarrow> ('m, 'r, 'z) unvme_scheme
   \<Rightarrow> u16 outcome \<times> ('m, 'r, 'z) unvme_scheme" where
  "unvmed_cmd_post io now p flags u =
     (case sq_at (fst p) u of
        None \<Rightarrow> (Fault, u)
      | Some usq \<Rightarrow>
          (case (cmd_at usq (snd p), sq_q usq) of
             (Some c, Some q) \<Rightarrow>
               if c_rq c = None then (Fault, u)
               else
                 let sqe = (c_sqe c)\<lparr>sqe_cid := c_cid c\<rparr>;
                     c1 = c\<lparr>c_sqe := sqe, c_state := UNVME_CMD_S_SUBMITTED\<rparr>;
                     q1 = sq_post (io_sq io) q sqe;
                     usq1 = (cmd_set usq (snd p) c1)\<lparr>sq_q := Some q1\<rparr>;
                     usq2 = (if timeout u \<noteq> 0 then unvmed_cmd_add_timer now (timeout u) (snd p) c1 usq1
                             else usq1);
                     usq3 = (if flags AND UNVMED_CMD_F_NODB = 0
                             then usq2\<lparr>sq_q := Some (sq_ring (io_sq io) q1)\<rparr> else usq2) in
                 (Ok (nsq_tail q), sq_store (fst p) usq3 (u\<lparr>nr_cmds := nr_cmds u + 1\<rparr>))
           | _ \<Rightarrow> (Fault, u)))"

text \<open>The entries posted since the doorbell was last written.\<close>

definition unvmed_sq_nr_pending_sqes :: "'r nvme_sq \<Rightarrow> int" where
  "unvmed_sq_nr_pending_sqes q =
     (if nsq_ptail q \<le> nsq_tail q then uint (nsq_tail q) - uint (nsq_ptail q)
      else int (nsq_qsize q) - uint (nsq_ptail q) + uint (nsq_tail q))"

definition unvmed_sq_update_tail ::
  "'r io_env \<Rightarrow> nat \<Rightarrow> ('m, 'r, 'z) unvme_scheme \<Rightarrow> int outcome \<times> ('m, 'r, 'z) unvme_scheme" where
  "unvmed_sq_update_tail io qid u =
     (case sq_at qid u of
        None \<Rightarrow> (Fault, u)
      | Some usq \<Rightarrow>
          (case sq_q usq of
             None \<Rightarrow> (Fault, u)
           | Some q \<Rightarrow>
               let nr_sqes = unvmed_sq_nr_pending_sqes q in
               if nr_sqes = 0 then (Ok 0, u)
               else (Ok nr_sqes, sq_store qid (usq\<lparr>sq_q := Some (sq_ring (io_sq io) q)\<rparr>) u)))"

subsection \<open>From a completion to its command\<close>

text \<open>
  \<open>unvmed_get_cmd_on_reaper()\<close>: the slot of the identifier when its command is submitted,
  otherwise the conflict slot when it holds a submitted command with that identifier. \<open>Ok None\<close>
  is \<open>NULL\<close>. The identifier comes from the device and is not checked against the array.
\<close>

definition unvmed_get_cmd_on_reaper ::
  "nvme_cqe \<Rightarrow> ('m, 'r, 'z) unvme_scheme \<Rightarrow> (nat \<times> cmd_ref) option outcome" where
  "unvmed_get_cmd_on_reaper cqe u =
     (case unvmed_sq_find (unat (sqid cqe)) u of
        None \<Rightarrow> Ok None
      | Some usq \<Rightarrow>
          (case cmd_at usq (Slot (unat (cqe_cid cqe))) of
             None \<Rightarrow> Fault
           | Some c \<Rightarrow>
               if c_state c = UNVME_CMD_S_SUBMITTED
               then Ok (Some (unat (sqid cqe), Slot (unat (cqe_cid cqe))))
               else if c_state (sq_conflict usq) \<noteq> UNVME_CMD_S_SUBMITTED
                       \<or> c_cid (sq_conflict usq) \<noteq> cqe_cid cqe then Ok None
               else Ok (Some (unat (sqid cqe), Conflict))))"

text \<open>\<open>unvmed_get_cmd_from_cqe()\<close> is the same lookup without a log message.\<close>

definition unvmed_get_cmd_from_cqe ::
  "nvme_cqe \<Rightarrow> ('m, 'r, 'z) unvme_scheme \<Rightarrow> (nat \<times> cmd_ref) option outcome" where
  "unvmed_get_cmd_from_cqe cqe u =
     (case unvmed_sq_find (unat (sqid cqe)) u of
        None \<Rightarrow> Ok None
      | Some usq \<Rightarrow>
          (case cmd_at usq (Slot (unat (cqe_cid cqe))) of
             None \<Rightarrow> Fault
           | Some c \<Rightarrow>
               if c_state c \<noteq> UNVME_CMD_S_SUBMITTED
               then (if c_state (sq_conflict usq) \<noteq> UNVME_CMD_S_SUBMITTED
                        \<or> c_cid (sq_conflict usq) \<noteq> cqe_cid cqe then Ok None
                     else Ok (Some (unat (sqid cqe), Conflict)))
               else Ok (Some (unat (sqid cqe), Slot (unat (cqe_cid cqe))))))"

subsection \<open>Completing\<close>

definition unvmed_cmd_get_vcq :: "unvme_cmd \<Rightarrow> ('m, 'r, 'z) unvme_scheme \<Rightarrow> unvme_vcq option" where
  "unvmed_cmd_get_vcq c u =
     (if c_vcq c = 0 \<or> UNVME_VCQ_MAX \<le> unat (c_vcq c) then None else vcqs u (unat (c_vcq c)))"

definition inject_val :: "unvmed_cmd_inject \<Rightarrow> u32" where
  "inject_val i = (case i of UNVMED_CMD_INJECT_NONE \<Rightarrow> 0 | UNVMED_CMD_INJECT_CONFLICT \<Rightarrow> 1)"

text \<open>\<open>unvmed_vcq_push()\<close>: it retries while the queue is full.\<close>

definition unvmed_vcq_push ::
  "nat \<times> cmd_ref \<Rightarrow> nvme_cqe \<Rightarrow> ('m, 'r, 'z) unvme_scheme \<Rightarrow> (unit, 'm, 'r, 'z) blocking" where
  "unvmed_vcq_push p cqe u =
     (case command p u of
        None \<Rightarrow> Some (Fault, u)
      | Some c \<Rightarrow>
          (case unvmed_cmd_get_vcq c u of
             None \<Rightarrow> Some (Fail ENODEV, u)
           | Some q \<Rightarrow>
               (case unvmed_vcq_push_u2 (u_bdf u) q cqe (inject_val (c_injected c)) of
                  Ok q' \<Rightarrow> Some (Ok (), u\<lparr>vcqs := (vcqs u)(unat (c_vcq c) \<mapsto> q')\<rparr>)
                | Fail _ \<Rightarrow> None
                | Fault \<Rightarrow> Some (Fault, u))))"

text \<open>
  \<open>unvmed_vcq_push_to_other()\<close>; \<open>own_vcq\<close> is the calling thread's \<open>__vcq_qid\<close>, -1 when it has
  none.
\<close>

definition unvmed_vcq_push_to_other ::
  "int \<Rightarrow> nvme_cqe \<Rightarrow> ('m, 'r, 'z) unvme_scheme \<Rightarrow> (unit, 'm, 'r, 'z) blocking" where
  "unvmed_vcq_push_to_other own_vcq cqe u =
     (case unvmed_get_cmd_from_cqe cqe u of
        Fault \<Rightarrow> Some (Fault, u)
      | Fail e \<Rightarrow> Some (Fail e, u)
      | Ok None \<Rightarrow> Some (Fail ENOENT, u)
      | Ok (Some p) \<Rightarrow>
          (case command p u of
             None \<Rightarrow> Some (Fault, u)
           | Some c \<Rightarrow>
               if own_vcq \<noteq> -1 \<and> own_vcq = uint (c_vcq c) then Some (Fail EPERM, u)
               else if c_state c \<noteq> UNVME_CMD_S_SUBMITTED then Some (Fail EBADE, u)
               else unvmed_vcq_push p cqe
                      (set_command p (c\<lparr>c_state := UNVME_CMD_S_TO_BE_COMPLETED\<rparr>) u)))"

definition unvmed_cmd_cmpl_u2 :: "nvme_cqe \<Rightarrow> unvme_cmd \<Rightarrow> unvme_cmd" where
  "unvmed_cmd_cmpl_u2 cqe c = c\<lparr>c_cqe := cqe, c_state := UNVME_CMD_S_COMPLETED\<rparr>"

definition unvmed_cmd_cmpl_wakeup ::
  "nat \<times> cmd_ref \<Rightarrow> nvme_cqe \<Rightarrow> ('m, 'r, 'z) unvme_scheme
   \<Rightarrow> bool outcome \<times> ('m, 'r, 'z) unvme_scheme" where
  "unvmed_cmd_cmpl_wakeup p cqe u =
     (case command p u of
        None \<Rightarrow> (Fault, u)
      | Some c \<Rightarrow>
          (let c1 = c\<lparr>c_state := UNVME_CMD_S_TO_BE_COMPLETED\<rparr> in
           if c_flags c AND UNVMED_CMD_F_WAKEUP_ON_CQE \<noteq> 0
           then (Ok True, (set_command p ((unvmed_cmd_cmpl_u2 cqe c1)\<lparr>c_completed := True\<rparr>) u)
                             \<lparr>nr_cmds := nr_cmds u - 1\<rparr>)
           else (Ok False, set_command p c1 u)))"

text \<open>
  \<open>unvmed_cmd_cmpl()\<close> counts the command under its opcode, in an array of 255 counters, and drops
  the result of the push.
\<close>

definition count_cmd ::
  "nat \<times> cmd_ref \<Rightarrow> ('m, 'r, 'z) unvme_scheme \<Rightarrow> unit outcome \<times> ('m, 'r, 'z) unvme_scheme" where
  "count_cmd p u =
     (case (sq_at (fst p) u, command p u) of
        (Some usq, Some c) \<Rightarrow>
          (let i = unat (sqe_opcode (c_sqe c)) in
           if length (sq_cmd_count usq) \<le> i then (Fault, u)
           else (Ok (), sq_store (fst p)
                   (usq\<lparr>sq_cmd_count := (sq_cmd_count usq)[i := sq_cmd_count usq ! i + 1]\<rparr>) u))
      | _ \<Rightarrow> (Fault, u))"

definition unvmed_cmd_cmpl ::
  "nat \<times> cmd_ref \<Rightarrow> nvme_cqe \<Rightarrow> ('m, 'r, 'z) unvme_scheme \<Rightarrow> (unit, 'm, 'r, 'z) blocking" where
  "unvmed_cmd_cmpl p cqe u =
     thenb (Some (count_cmd p u)) (\<lambda>_ u1.
     thenb (Some (unvmed_cmd_cmpl_wakeup p cqe u1)) (\<lambda>woken u2.
       if woken then Some (Ok (), u2)
       else (case unvmed_vcq_push p cqe u2 of
               None \<Rightarrow> None
             | Some (Fault, u3) \<Rightarrow> Some (Fault, u3)
             | Some (_, u3) \<Rightarrow> Some (Ok (), u3))))"

text \<open>Completing a command on behalf of the device when it is cancelled.\<close>

definition unvmed_put_cqe ::
  "'r io_env \<Rightarrow> nat \<times> cmd_ref \<Rightarrow> ('m, 'r, 'z) unvme_scheme \<Rightarrow> (unit, 'm, 'r, 'z) blocking" where
  "unvmed_put_cqe io p u =
     (case (sq_at (fst p) u, command p u) of
        (Some usq, Some c) \<Rightarrow>
          (case (c_rq c, sq_q usq) of
             (Some _, Some q) \<Rightarrow>
               (let status = push_bit (io_sct_shift io) (io_sct_path io) OR io_sc_abort io in
                unvmed_cmd_cmpl p \<lparr>qw0 = 0, sqhd = 0, sqid = word_of_nat (nsq_id q), cqe_cid = c_cid c,
                                     sfp = push_bit 1 status\<rparr> u)
           | _ \<Rightarrow> Some (Fault, u))
      | _ \<Rightarrow> Some (Fault, u))"

definition unvmed_put_cqe_u2 ::
  "'r io_env \<Rightarrow> nat \<times> cmd_ref \<Rightarrow> ('m, 'r, 'z) unvme_scheme \<Rightarrow> (unit, 'm, 'r, 'z) blocking" where
  "unvmed_put_cqe_u2 io p u =
     (case command p u of
        None \<Rightarrow> Some (Fault, u)
      | Some c \<Rightarrow>
          if c_state c = UNVME_CMD_S_SUBMITTED \<or> c_state c = UNVME_CMD_S_ALLOCATED
          then unvmed_put_cqe io p u else Some (Ok (), u))"

subsection \<open>Reading a completion queue\<close>

text \<open>
  The entries that the device posted and nobody consumed, read from the ring as
  \<open>unvmed_cancel_sq()\<close> reads them: an entry is new while its phase bit differs from the phase of
  the queue, which flips at the end of the ring. The result has the head and the phase after the
  last new entry. The device does not write while the ring is read.
\<close>

fun scan_cqes :: "nat \<Rightarrow> nvme_cq \<Rightarrow> nat \<Rightarrow> u8 \<Rightarrow> (nvme_cqe list \<times> nat \<times> u8) outcome option" where
  "scan_cqes 0 q head phase = None"
| "scan_cqes (Suc fuel) q head phase =
     (case nth_opt (ncq_entries q) head of
        None \<Rightarrow> Some Fault
      | Some cqe \<Rightarrow>
          if sfp cqe AND 1 = ucast phase then Some (Ok ([], head, phase))
          else (case (if head + 1 = ncq_qsize q then scan_cqes fuel q 0 (phase XOR 1)
                      else scan_cqes fuel q (head + 1) phase) of
                  Some (Ok (cqes, r)) \<Rightarrow> Some (Ok (cqe # cqes, r))
                | r \<Rightarrow> r))"

text \<open>Completing what a list of completions belongs to; one that belongs to nothing is skipped.\<close>

fun complete_all ::
  "nvme_cqe list \<Rightarrow> ('m, 'r, 'z) unvme_scheme \<Rightarrow> (unit, 'm, 'r, 'z) blocking" where
  "complete_all [] u = Some (Ok (), u)"
| "complete_all (cqe # cqes) u =
     (case unvmed_get_cmd_on_reaper cqe u of
        Ok None \<Rightarrow> complete_all cqes u
      | Ok (Some p) \<Rightarrow> thenb (unvmed_cmd_cmpl p cqe u) (\<lambda>_ u1. complete_all cqes u1)
      | Fail e \<Rightarrow> Some (Fail e, u)
      | Fault \<Rightarrow> Some (Fault, u))"

fun put_cqes ::
  "'r io_env \<Rightarrow> nat \<Rightarrow> cmd_ref list \<Rightarrow> ('m, 'r, 'z) unvme_scheme \<Rightarrow> (unit, 'm, 'r, 'z) blocking" where
  "put_cqes io qid [] u = Some (Ok (), u)"
| "put_cqes io qid (r # rs) u =
     thenb (unvmed_put_cqe_u2 io (qid, r) u) (\<lambda>_ u1. put_cqes io qid rs u1)"

text \<open>
  \<open>unvmed_cancel_sq()\<close>: what the device completed is completed, then every command of the queue
  that is still submitted or allocated is completed as aborted. The completion queue is the one
  the submission queue points to.
\<close>

definition unvmed_cancel_sq ::
  "'r io_env \<Rightarrow> nat \<Rightarrow> ('m, 'r, 'z) unvme_scheme \<Rightarrow> (unit, 'm, 'r, 'z) blocking" where
  "unvmed_cancel_sq io qid u =
     (case sq_at qid u of
        None \<Rightarrow> Some (Fault, u)
      | Some usq \<Rightarrow>
          (case nth_opt (cqs u) (sq_ucq usq) of
             Some (Some ucq) \<Rightarrow>
               (case cq_q ucq of
                  None \<Rightarrow> Some (Fault, u)
                | Some q \<Rightarrow>
                    (case scan_cqes (2 * ncq_qsize q + 2) q (ncq_head q) (ncq_phase q) of
                       None \<Rightarrow> None
                     | Some (Ok (cqes, head, phase)) \<Rightarrow>
                         thenb (complete_all cqes u) (\<lambda>_ u1.
                           put_cqes io qid (map Slot [0..<sq_qsize usq - 1] @ [Conflict])
                             (cq_store (sq_ucq usq)
                                (ucq\<lparr>cq_q := Some (q\<lparr>ncq_head := head, ncq_phase := phase\<rparr>)\<rparr>) u1))
                     | Some (Fail e) \<Rightarrow> Some (Fail e, u)
                     | Some Fault \<Rightarrow> Some (Fault, u)))
           | _ \<Rightarrow> Some (Fault, u)))"

text \<open>
  \<open>__unvmed_reap_cqe()\<close>: it takes completions from libvfn until there is none. \<open>fuel\<close> bounds the
  number of completions; \<open>None\<close> is also the end of the fuel.
\<close>

fun reap_loop ::
  "nat \<Rightarrow> 'r io_env \<Rightarrow> nat \<Rightarrow> ('m, 'r, 'z) unvme_scheme \<Rightarrow> (unit, 'm, 'r, 'z) blocking" where
  "reap_loop 0 io qid u = None"
| "reap_loop (Suc fuel) io qid u =
     (case nth_opt (cqs u) qid of
        Some (Some ucq) \<Rightarrow>
          (case cq_q ucq of
             None \<Rightarrow> Some (Ok (), u)
           | Some q \<Rightarrow>
               (case io_get_cqe io q of
                  None \<Rightarrow> Some (Ok (), u)
                | Some (cqe, q1) \<Rightarrow>
                    thenb (complete_all [cqe] (cq_store qid (ucq\<lparr>cq_q := Some q1\<rparr>) u)) (\<lambda>_ u1.
                      reap_loop fuel io qid
                        (cq_modify qid (\<lambda>ucq. ucq\<lparr>cq_q := map_option (io_update_head io) (cq_q ucq)\<rparr>) u1))))
      | _ \<Rightarrow> Some (Fault, u))"

definition unvmed_reap_cqe_u2 ::
  "nat \<Rightarrow> 'r io_env \<Rightarrow> nat \<Rightarrow> ('m, 'r, 'z) unvme_scheme \<Rightarrow> (unit, 'm, 'r, 'z) blocking" where
  "unvmed_reap_cqe_u2 = reap_loop"

end
