(* ===== verification/Poll.thy ===== *)
theory Poll
  imports Completion Prep
begin

unbundle bit_operations_syntax

text \<open>
  Cancelling, polling and waiting, \<open>lib/libunvmed.c\<close>, and the functions of
  \<open>lib/libunvmed-cmds.c\<close> that issue a command and wait for it.
\<close>

subsection \<open>Cancelling\<close>

text \<open>
  \<open>unvmed_cq_drain()\<close>: with an interrupt the reaper thread consumes the ring and the function waits
  until the entry at the head is not new; otherwise the ring is reaped here.
\<close>

definition unvmed_cq_drain ::
  "nat \<Rightarrow> 'r io_env \<Rightarrow> nat \<Rightarrow> ('m, 'r, 'z) unvme_scheme \<Rightarrow> (unit, 'm, 'r, 'z) blocking" where
  "unvmed_cq_drain fuel io cqid u =
     (case nth_opt (cqs u) cqid of
        Some (Some ucq) \<Rightarrow>
          if unvmed_cq_irq_enabled ucq then
            (case cq_q ucq of
               None \<Rightarrow> Some (Fault, u)
             | Some q \<Rightarrow>
                 (case nth_opt (ncq_entries q) (ncq_head q) of
                    None \<Rightarrow> Some (Fault, u)
                  | Some cqe \<Rightarrow> if sfp cqe AND 1 = ucast (ncq_phase q) then Some (Ok (), u) else None))
          else unvmed_reap_cqe_u2 fuel io cqid u
      | _ \<Rightarrow> Some (Fault, u))"

text \<open>\<open>unvmed_cancel_cmd()\<close> waits until every command of the queue was put.\<close>

definition unvmed_cancel_cmd ::
  "nat \<Rightarrow> 'r io_env \<Rightarrow> nat \<Rightarrow> ('m, 'r, 'z) unvme_scheme \<Rightarrow> (unit, 'm, 'r, 'z) blocking" where
  "unvmed_cancel_cmd fuel io qid u =
     (case sq_at qid u of
        None \<Rightarrow> Some (Fault, u)
      | Some usq \<Rightarrow>
          if sq_q usq = None then Some (Ok (), u)
          else thenb (unvmed_cq_drain fuel io (sq_ucq usq) u) (\<lambda>_ u1.
               thenb (unvmed_cancel_sq io qid u1) (\<lambda>_ u2.
                 case sq_at qid u2 of
                   None \<Rightarrow> Some (Fault, u2)
                 | Some usq2 \<Rightarrow> if 0 < sq_nr_cmds usq2 then None else Some (Ok (), u2))))"

text \<open>The loops over all queues, with functions that may wait.\<close>

fun each_sq ::
  "(nat \<Rightarrow> ('m, 'r, 'z) unvme_scheme \<Rightarrow> (unit, 'm, 'r, 'z) blocking) \<Rightarrow> nat list
   \<Rightarrow> ('m, 'r, 'z) unvme_scheme \<Rightarrow> (unit, 'm, 'r, 'z) blocking" where
  "each_sq f [] u = Some (Ok (), u)"
| "each_sq f (qid # qids) u =
     (case unvmed_sq_get qid u of
        None \<Rightarrow> each_sq f qids u
      | Some u1 \<Rightarrow> thenb (f qid u1) (\<lambda>_ u2. each_sq f qids (snd (unvmed_sq_put qid u2))))"

definition unvmed_cancel_cmd_all ::
  "nat \<Rightarrow> 'r io_env \<Rightarrow> ('m, 'r, 'z) unvme_scheme \<Rightarrow> (unit, 'm, 'r, 'z) blocking" where
  "unvmed_cancel_cmd_all fuel io u = each_sq (unvmed_cancel_cmd fuel io) [0..<length (sqs u)] u"

definition unvmed_cancel_cmds ::
  "nat \<Rightarrow> 'r io_env \<Rightarrow> ('m, 'r, 'z) unvme_scheme \<Rightarrow> (unit, 'm, 'r, 'z) blocking" where
  "unvmed_cancel_cmds fuel io u =
     (case unvmed_quiesce_sq_all u of
        None \<Rightarrow> None
      | Some u1 \<Rightarrow>
          thenb (unvmed_cancel_cmd_all fuel io u1) (\<lambda>_ u2. Some (Ok (), unvmed_unquiesce_sq_all u2)))"

text \<open>Cancelling only what was allocated and not yet submitted.\<close>

fun put_allocated ::
  "'r io_env \<Rightarrow> nat \<Rightarrow> nat list \<Rightarrow> ('m, 'r, 'z) unvme_scheme \<Rightarrow> (unit, 'm, 'r, 'z) blocking" where
  "put_allocated io qid [] u = Some (Ok (), u)"
| "put_allocated io qid (i # is') u =
     (case command (qid, Slot i) u of
        None \<Rightarrow> Some (Fault, u)
      | Some c \<Rightarrow>
          thenb (if c_state c = UNVME_CMD_S_ALLOCATED then unvmed_put_cqe io (qid, Slot i) u
                 else Some (Ok (), u))
            (\<lambda>_ u1. put_allocated io qid is' u1))"

definition unvmed_cancel_allocated_state_cmds ::
  "'r io_env \<Rightarrow> ('m, 'r, 'z) unvme_scheme \<Rightarrow> (unit, 'm, 'r, 'z) blocking" where
  "unvmed_cancel_allocated_state_cmds io u =
     each_sq (\<lambda>qid u1. case sq_at qid u1 of
                None \<Rightarrow> Some (Fault, u1)
              | Some usq \<Rightarrow> put_allocated io qid [0..<sq_qsize usq - 1] u1)
       [0..<length (sqs u)] u"

text \<open>\<open>unvmed_reset_ctx()\<close>: the result of the state change is ignored.\<close>

definition unvmed_reset_ctx ::
  "nat \<Rightarrow> 'r io_env \<Rightarrow> ('m, 'r, 'z) unvme_scheme \<Rightarrow> (unit, 'm, 'r, 'z) blocking" where
  "unvmed_reset_ctx fuel io u =
     thenb (unvmed_cancel_cmds fuel io (unvmed_disable_ctx u)) (\<lambda>_ u1.
       Some (Ok (), case unvmed_ctrl_set_state_u2 (u_state u1) UNVME_DISABLED of
                      Inl _ \<Rightarrow> u1 | Inr st \<Rightarrow> u1\<lparr>u_state := st\<rparr>))"

subsection \<open>Polling\<close>

text \<open>
  \<open>__unvmed_get_completion()\<close>: an entry of the virtual queue \<open>vcq\<close> of the application, or else one
  step of the ring, whose completion is pushed to the virtual queue of its command and not
  returned. The command is looked up in the caller's queue.
\<close>

definition pop_vcq :: "nat option \<Rightarrow> ('m, 'r, 'z) unvme_scheme \<Rightarrow> (unvme_vcqe \<times> unvme_vcq) outcome" where
  "pop_vcq vcq u = unvmed_vcq_pop (case vcq of None \<Rightarrow> None | Some i \<Rightarrow> vcqs u i)"

definition store_vcq ::
  "nat option \<Rightarrow> unvme_vcq \<Rightarrow> ('m, 'r, 'z) unvme_scheme \<Rightarrow> ('m, 'r, 'z) unvme_scheme" where
  "store_vcq vcq q u = (case vcq of None \<Rightarrow> u | Some i \<Rightarrow> u\<lparr>vcqs := (vcqs u)(i \<mapsto> q)\<rparr>)"

text \<open>A popped entry: its command, if it is in use, is marked completed.\<close>

definition take_vcqe ::
  "nat \<Rightarrow> nvme_cqe \<Rightarrow> ('m, 'r, 'z) unvme_scheme \<Rightarrow> bool outcome \<times> ('m, 'r, 'z) unvme_scheme" where
  "take_vcqe qid cqe u =
     (case sq_at qid u of
        None \<Rightarrow> (Fault, u)
      | Some usq \<Rightarrow>
          (case unvmed_get_cmd (cqe_cid cqe) usq of
             Fault \<Rightarrow> (Fault, u)
           | Fail e \<Rightarrow> (Fail e, u)
           | Ok None \<Rightarrow> (Ok False, u)
           | Ok (Some r) \<Rightarrow>
               (case cmd_at usq r of
                  None \<Rightarrow> (Fault, u)
                | Some c \<Rightarrow> (Ok True, set_command (qid, r) (unvmed_cmd_cmpl_u2 cqe c) u))))"

definition poll_ring ::
  "'r io_env \<Rightarrow> nat \<Rightarrow> nat \<Rightarrow> ('m, 'r, 'z) unvme_scheme \<Rightarrow> (unit, 'm, 'r, 'z) blocking" where
  "poll_ring io qid cqid u =
     (case (nth_opt (cqs u) cqid, sq_at qid u) of
        (Some (Some ucq), Some usq) \<Rightarrow>
          (case cq_q ucq of
             None \<Rightarrow> Some (Fault, u)
           | Some q \<Rightarrow>
               (case io_get_cqe io q of
                  None \<Rightarrow> Some (Ok (), u)
                | Some (cqe, q1) \<Rightarrow>
                    let u1 = cq_store cqid (ucq\<lparr>cq_q := Some q1\<rparr>) u in
                    thenb (case unvmed_get_cmd (cqe_cid cqe) usq of
                             Fault \<Rightarrow> Some (Fault, u1)
                           | Ok (Some r) \<Rightarrow> unvmed_cmd_cmpl (qid, r) cqe u1
                           | _ \<Rightarrow> Some (Ok (), u1))
                      (\<lambda>_ u2. Some (Ok (), cq_modify cqid
                         (\<lambda>ucq. ucq\<lparr>cq_q := map_option (io_update_head io) (cq_q ucq)\<rparr>) u2))))
      | _ \<Rightarrow> Some (Fault, u))"

definition unvmed_get_completion_u2 ::
  "'r io_env \<Rightarrow> nat \<Rightarrow> nat option \<Rightarrow> nat \<Rightarrow> ('m, 'r, 'z) unvme_scheme
   \<Rightarrow> (nvme_cqe option, 'm, 'r, 'z) blocking" where
  "unvmed_get_completion_u2 io qid vcq cqid u =
     (case pop_vcq vcq u of
        Fault \<Rightarrow> Some (Fault, u)
      | Ok (e, q) \<Rightarrow>
          (case take_vcqe qid (vcqe_cqe e) (store_vcq vcq q u) of
             (Ok found, u1) \<Rightarrow> Some (Ok (if found then Some (vcqe_cqe e) else None), u1)
           | (Fail er, u1) \<Rightarrow> Some (Fail er, u1)
           | (Fault, u1) \<Rightarrow> Some (Fault, u1))
      | Fail _ \<Rightarrow> thenb (poll_ring io qid cqid u) (\<lambda>_ u1. Some (Ok None, u1)))"

text \<open>
  \<open>__unvmed_cq_run_n()\<close> for \<open>n\<close> completions; \<open>env\<close> is what the device and the other threads do
  before each round of the loop, and \<open>fuel\<close> bounds the rounds. With an interrupt the loop only
  looks at the virtual queue.
\<close>

fun cq_run_loop ::
  "nat \<Rightarrow> (('m, 'r, 'z) unvme_scheme \<Rightarrow> ('m, 'r, 'z) unvme_scheme) \<Rightarrow> 'r io_env \<Rightarrow> nat \<Rightarrow> nat
   \<Rightarrow> nat option \<Rightarrow> bool \<Rightarrow> nat \<Rightarrow> ('m, 'r, 'z) unvme_scheme \<Rightarrow> (nvme_cqe list, 'm, 'r, 'z) blocking" where
  "cq_run_loop fuel env io qid cqid vcq nowait 0 u = Some (Ok [], u)"
| "cq_run_loop 0 env io qid cqid vcq nowait (Suc n) u = None"
| "cq_run_loop (Suc fuel) env io qid cqid vcq nowait (Suc n) u0 =
     (let u = env u0 in
      case nth_opt (cqs u) cqid of
        Some (Some ucq) \<Rightarrow>
          if unvmed_cq_irq_enabled ucq then
            (case pop_vcq vcq u of
               Fault \<Rightarrow> Some (Fault, u)
             | Fail e \<Rightarrow> if nowait \<or> e \<noteq> ENOENT then Some (Ok [], u)
                         else cq_run_loop fuel env io qid cqid vcq nowait (Suc n) u
             | Ok (e, q) \<Rightarrow>
                 thenb (Some (take_vcqe qid (vcqe_cqe e) (store_vcq vcq q u))) (\<lambda>found u1.
                   if found
                   then thenb (cq_run_loop fuel env io qid cqid vcq nowait n u1)
                          (\<lambda>es u2. Some (Ok (vcqe_cqe e # es), u2))
                   else cq_run_loop fuel env io qid cqid vcq nowait (Suc n) u1))
          else
            thenb (unvmed_get_completion_u2 io qid vcq cqid u) (\<lambda>cqe u1.
              case cqe of
                Some e \<Rightarrow> thenb (cq_run_loop fuel env io qid cqid vcq nowait n u1)
                            (\<lambda>es u2. Some (Ok (e # es), u2))
              | None \<Rightarrow> if nowait then Some (Ok [], u1)
                        else cq_run_loop fuel env io qid cqid vcq nowait (Suc n) u1)
      | _ \<Rightarrow> Some (Fault, u))"

definition unvmed_cq_run_n_u2 ::
  "nat \<Rightarrow> (('m, 'r, 'z) unvme_scheme \<Rightarrow> ('m, 'r, 'z) unvme_scheme) \<Rightarrow> 'r io_env \<Rightarrow> nat \<Rightarrow> nat
   \<Rightarrow> nat option \<Rightarrow> nat \<Rightarrow> bool \<Rightarrow> ('m, 'r, 'z) unvme_scheme \<Rightarrow> (nvme_cqe list, 'm, 'r, 'z) blocking" where
  "unvmed_cq_run_n_u2 fuel env io qid cqid vcq nr_cqes nowait u =
     thenb (cq_run_loop fuel env io qid cqid vcq nowait nr_cqes u) (\<lambda>es u1.
       Some (Ok es, u1\<lparr>nr_cmds := nr_cmds u1 - int (length es)\<rparr>))"

definition unvmed_cq_run ::
  "nat \<Rightarrow> (('m, 'r, 'z) unvme_scheme \<Rightarrow> ('m, 'r, 'z) unvme_scheme) \<Rightarrow> 'r io_env \<Rightarrow> nat \<Rightarrow> nat
   \<Rightarrow> nat option \<Rightarrow> ('m, 'r, 'z) unvme_scheme \<Rightarrow> (nvme_cqe list, 'm, 'r, 'z) blocking" where
  "unvmed_cq_run fuel env io qid cqid vcq u =
     (case nth_opt (cqs u) cqid of
        Some (Some ucq) \<Rightarrow>
          (case cq_q ucq of
             None \<Rightarrow> Some (Fault, u)
           | Some q \<Rightarrow> unvmed_cq_run_n_u2 fuel env io qid cqid vcq (ncq_qsize q - 1) True u)
      | _ \<Rightarrow> Some (Fault, u))"

definition unvmed_cq_run_n ::
  "nat \<Rightarrow> (('m, 'r, 'z) unvme_scheme \<Rightarrow> ('m, 'r, 'z) unvme_scheme) \<Rightarrow> 'r io_env \<Rightarrow> nat \<Rightarrow> nat
   \<Rightarrow> nat option \<Rightarrow> nat \<Rightarrow> nat \<Rightarrow> ('m, 'r, 'z) unvme_scheme \<Rightarrow> (nvme_cqe list, 'm, 'r, 'z) blocking" where
  "unvmed_cq_run_n fuel env io qid cqid vcq mn mx u =
     thenb (unvmed_cq_run_n_u2 fuel env io qid cqid vcq mn False u) (\<lambda>es u1.
       if mx \<le> length es then Some (Ok es, u1)
       else thenb (unvmed_cq_run_n_u2 fuel env io qid cqid vcq (mx - length es) True u1)
              (\<lambda>es' u2. Some (Ok (es @ es'), u2)))"

subsection \<open>Issuing a command and waiting for it\<close>

text \<open>
  The status of a completion as the functions return it: \<open>status\<close> or, for a command that timed
  out, \<open>-ETIMEDOUT\<close>. The two status constants are the library's own.
\<close>

definition NVME_SCT_UNVME :: u16 where "NVME_SCT_UNVME = 6"

definition NVME_SC_UNVME_TIMED_OUT :: u16 where "NVME_SC_UNVME_TIMED_OUT = 1"

definition unvmed_cqe_status :: "nvme_cqe \<Rightarrow> errno + u16" where
  "unvmed_cqe_status cqe =
     (let status = drop_bit 1 (sfp cqe); sct = take_bit 8 (drop_bit 8 status); sc = status AND 0xff in
      if sct = NVME_SCT_UNVME \<and> sc = NVME_SC_UNVME_TIMED_OUT then Inl ETIMEDOUT else Inr status)"

text \<open>
  \<open>__unvmed_cmd_wait()\<close>: it polls the queue of the command, or sleeps on its futex, until the
  command is completed. \<open>fuel\<close> bounds the number of rounds.
\<close>

fun wait_loop ::
  "nat \<Rightarrow> nat \<Rightarrow> (('m, 'r, 'z) unvme_scheme \<Rightarrow> ('m, 'r, 'z) unvme_scheme) \<Rightarrow> 'r io_env
   \<Rightarrow> nat \<times> cmd_ref \<Rightarrow> ('m, 'r, 'z) unvme_scheme \<Rightarrow> (unit, 'm, 'r, 'z) blocking" where
  "wait_loop 0 poll env io p u = None"
| "wait_loop (Suc fuel) poll env io p u =
     (case (sq_at (fst p) u, command p u) of
        (Some usq, Some c) \<Rightarrow>
          if c_completed c then Some (Ok (), u)
          else (case nth_opt (cqs u) (sq_ucq usq) of
                  Some (Some ucq) \<Rightarrow>
                    if unvmed_cq_irq_enabled ucq then wait_loop fuel poll env io p (env u)
                    else thenb (unvmed_cq_run poll env io (fst p) (sq_ucq usq)
                           (if c_vcq c = 0 \<or> UNVME_VCQ_MAX \<le> unat (c_vcq c) then None
                            else Some (unat (c_vcq c))) u)
                         (\<lambda>_ u1. wait_loop fuel poll env io p u1)
                | _ \<Rightarrow> Some (Fault, u))
      | _ \<Rightarrow> Some (Fault, u))"

definition unvmed_cmd_wait ::
  "nat \<Rightarrow> nat \<Rightarrow> (('m, 'r, 'z) unvme_scheme \<Rightarrow> ('m, 'r, 'z) unvme_scheme) \<Rightarrow> 'r io_env
   \<Rightarrow> nat \<times> cmd_ref \<Rightarrow> ('m, 'r, 'z) unvme_scheme \<Rightarrow> (unit, 'm, 'r, 'z) blocking" where
  "unvmed_cmd_wait fuel poll env io p u =
     (case command p u of
        None \<Rightarrow> Some (Fault, u)
      | Some c \<Rightarrow>
          if c_flags c AND UNVMED_CMD_F_WAKEUP_ON_CQE = 0 then Some (Fail EINVAL, u)
          else wait_loop fuel poll env io p u)"

definition unvmed_cmd_issue ::
  "'r io_env \<Rightarrow> timespec \<Rightarrow> nat \<times> cmd_ref \<Rightarrow> ('m, 'r, 'z) unvme_scheme
   \<Rightarrow> unit outcome \<times> ('m, 'r, 'z) unvme_scheme" where
  "unvmed_cmd_issue io now p u =
     (case command p u of
        None \<Rightarrow> (Fault, u)
      | Some c \<Rightarrow>
          (let flags = c_flags c OR UNVMED_CMD_F_WAKEUP_ON_CQE in
           andthen (unvmed_cmd_post io now p flags (set_command p (c\<lparr>c_flags := flags\<rparr>) u))
             (\<lambda>_ u1. (Ok (), u1))))"

definition unvmed_cmd_issue_and_wait ::
  "nat \<Rightarrow> nat \<Rightarrow> (('m, 'r, 'z) unvme_scheme \<Rightarrow> ('m, 'r, 'z) unvme_scheme) \<Rightarrow> 'r io_env \<Rightarrow> timespec
   \<Rightarrow> nat \<times> cmd_ref \<Rightarrow> ('m, 'r, 'z) unvme_scheme \<Rightarrow> (errno + u16, 'm, 'r, 'z) blocking" where
  "unvmed_cmd_issue_and_wait fuel poll env io now p u =
     thenb (Some (unvmed_cmd_issue io now p u)) (\<lambda>_ u1.
       case unvmed_cmd_wait fuel poll env io p u1 of
         None \<Rightarrow> None
       | Some (Fault, u2) \<Rightarrow> Some (Fault, u2)
       | Some (_, u2) \<Rightarrow>
           (case command p u2 of
              None \<Rightarrow> Some (Fault, u2)
            | Some c \<Rightarrow> Some (Ok (unvmed_cqe_status (c_cqe c)), u2)))"

end
