(* ===== verification/Timer.thy ===== *)
theory Timer
  imports Poll
begin

unbundle bit_operations_syntax

text \<open>
  The command timeout of a submission queue, \<open>lib/libunvmed.c\<close> and
  \<open>unvmed_cmd_expired()\<close> of \<open>lib/libunvmed-cmds.c\<close>: when the one-shot timer of the queue fires,
  the expired commands are completed with a timeout status and the queue is frozen, or the timer
  is armed again for the nearest deadline.
\<close>

subsection \<open>Commands of a controller\<close>

text \<open>An operation on a queue and the memory of its controller, on the queue of an identifier.\<close>

definition on_sq ::
  "nat \<Rightarrow> ('r unvme_sq \<times> ('m, 'r, 'z) unvme_scheme \<Rightarrow> 'a outcome \<times> 'r unvme_sq \<times> ('m, 'r, 'z) unvme_scheme)
   \<Rightarrow> ('m, 'r, 'z) unvme_scheme \<Rightarrow> 'a outcome \<times> ('m, 'r, 'z) unvme_scheme" where
  "on_sq qid f u =
     (case sq_at qid u of
        None \<Rightarrow> (Fault, u)
      | Some usq \<Rightarrow> (case f (usq, u) of (res, usq', u') \<Rightarrow> (res, sq_store qid usq' u')))"

definition cmd_get_at ::
  "nat \<Rightarrow> u16 \<Rightarrow> ('m, 'r, 'z) unvme_scheme \<Rightarrow> cmd_ref option outcome \<times> ('m, 'r, 'z) unvme_scheme" where
  "cmd_get_at qid cid =
     on_sq qid (\<lambda>(usq, u). case unvmed_cmd_get cid usq of (res, usq') \<Rightarrow> (res, usq', u))"

definition cmd_put_at ::
  "'m dma_ops \<Rightarrow> 'r io_env \<Rightarrow> nat \<times> cmd_ref \<Rightarrow> ('m, 'r, 'z) unvme_scheme
   \<Rightarrow> int outcome \<times> ('m, 'r, 'z) unvme_scheme" where
  "cmd_put_at ops io p = on_sq (fst p) (unvmed_cmd_put ops (io_sq io) (snd p))"

subsection \<open>Deadlines\<close>

definition unvmed_timer_before :: "timespec \<Rightarrow> timespec \<Rightarrow> bool" where
  "unvmed_timer_before a b =
     (if tv_sec a \<noteq> tv_sec b then tv_sec a < tv_sec b else tv_nsec a < tv_nsec b)"

definition unvmed_timer_after :: "timespec \<Rightarrow> timespec \<Rightarrow> bool" where
  "unvmed_timer_after a b =
     (if tv_sec a \<noteq> tv_sec b then tv_sec b < tv_sec a else tv_nsec b < tv_nsec a)"

text \<open>Whether a command is expired, and the nearest deadline seen so far.\<close>

definition unvmed_cmd_expired :: "unvme_cmd \<Rightarrow> timespec \<Rightarrow> timespec \<Rightarrow> bool \<times> timespec" where
  "unvmed_cmd_expired c start nxt =
     (if c_state c \<noteq> UNVME_CMD_S_SUBMITTED then (False, nxt)
      else if unvmed_timer_after start (c_timeout c) then (True, nxt)
      else if tv_sec nxt = 0 \<and> tv_nsec nxt = 0 \<or> unvmed_timer_after nxt (c_timeout c)
      then (False, c_timeout c)
      else (False, nxt))"

subsection \<open>The handler\<close>

text \<open>The completion that the handler makes up for a command.\<close>

definition timeout_cqe :: "'r io_env \<Rightarrow> 'r unvme_sq \<Rightarrow> u16 \<Rightarrow> nvme_cqe" where
  "timeout_cqe io usq cid = zero_cqe\<lparr>sqid := word_of_nat (sq_id usq), cqe_cid := cid,
     sfp := push_bit 1 (push_bit (io_sct_shift io) NVME_SCT_UNVME OR NVME_SC_UNVME_TIMED_OUT)\<rparr>"

text \<open>
  \<open>unvmed_cmd_timeout()\<close>: the \<open>assert\<close> that the command is there is a fault. The count after the
  put is not looked at.
\<close>

definition unvmed_cmd_timeout ::
  "'m dma_ops \<Rightarrow> 'r io_env \<Rightarrow> nat \<times> cmd_ref \<Rightarrow> ('m, 'r, 'z) unvme_scheme \<Rightarrow> (unit, 'm, 'r, 'z) blocking" where
  "unvmed_cmd_timeout ops io p u =
     (case (sq_at (fst p) u, command p u) of
        (Some usq, Some c) \<Rightarrow>
          thenb (Some (cmd_get_at (fst p) (c_cid c) u)) (\<lambda>r u1.
            case r of
              None \<Rightarrow> Some (Fault, u1)
            | Some r \<Rightarrow>
                (case command (fst p, r) u1 of
                   None \<Rightarrow> Some (Fault, u1)
                 | Some d \<Rightarrow>
                     thenb (unvmed_cmd_cmpl (fst p, r) (timeout_cqe io usq (c_cid c))
                       (set_command (fst p, r) (d\<lparr>c_flags := c_flags d OR UNVMED_CMD_F_TIMEDOUT\<rparr>) u1)) (\<lambda>_ u2.
                     thenb (Some (cmd_put_at ops io (fst p, r) u2)) (\<lambda>_ u3. Some (Ok (), u3)))))
      | _ \<Rightarrow> Some (Fault, u))"

text \<open>The first pass over the commands, up to one that is expired.\<close>

fun find_expired ::
  "'m dma_ops \<Rightarrow> 'r io_env \<Rightarrow> timespec \<Rightarrow> nat \<Rightarrow> nat list \<Rightarrow> timespec \<Rightarrow> ('m, 'r, 'z) unvme_scheme
   \<Rightarrow> (bool \<times> timespec) outcome \<times> ('m, 'r, 'z) unvme_scheme" where
  "find_expired ops io now qid [] nxt u = (Ok (False, nxt), u)"
| "find_expired ops io now qid (i # is') nxt u =
     andthen (cmd_get_at qid (word_of_nat i) u) (\<lambda>r u1.
       case r of
         None \<Rightarrow> find_expired ops io now qid is' nxt u1
       | Some r \<Rightarrow>
           (case command (qid, r) u1 of
              None \<Rightarrow> (Fault, u1)
            | Some c \<Rightarrow>
                (case unvmed_cmd_expired c now nxt of
                   (expired, nxt1) \<Rightarrow>
                     andthen (cmd_put_at ops io (qid, r) u1) (\<lambda>_ u2.
                       if expired then (Ok (True, nxt1), u2)
                       else find_expired ops io now qid is' nxt1 u2))))"

text \<open>The second pass, with the queue's lock held: every expired command is timed out.\<close>

fun expire_cmds ::
  "'m dma_ops \<Rightarrow> 'r io_env \<Rightarrow> timespec \<Rightarrow> nat \<Rightarrow> nat list \<Rightarrow> bool \<Rightarrow> timespec \<Rightarrow> ('m, 'r, 'z) unvme_scheme
   \<Rightarrow> (bool \<times> timespec, 'm, 'r, 'z) blocking" where
  "expire_cmds ops io now qid [] timedout nxt u = Some (Ok (timedout, nxt), u)"
| "expire_cmds ops io now qid (i # is') timedout nxt u =
     thenb (Some (cmd_get_at qid (word_of_nat i) u)) (\<lambda>r u1.
       case r of
         None \<Rightarrow> expire_cmds ops io now qid is' timedout nxt u1
       | Some r \<Rightarrow>
           (case command (qid, r) u1 of
              None \<Rightarrow> Some (Fault, u1)
            | Some c \<Rightarrow>
                (case unvmed_cmd_expired c now nxt of
                   (expired, nxt1) \<Rightarrow>
                     thenb (if expired then unvmed_cmd_timeout ops io (qid, r) u1 else Some (Ok (), u1)) (\<lambda>_ u2.
                     thenb (Some (cmd_put_at ops io (qid, r) u2)) (\<lambda>_ u3.
                       expire_cmds ops io now qid is' (timedout \<or> expired) nxt1 u3)))))"

text \<open>\<open>unvmed_timer_handler()\<close>, called when the timer has fired, so that it is not armed.\<close>

definition unvmed_timer_handler ::
  "'m dma_ops \<Rightarrow> 'r io_env \<Rightarrow> timespec \<Rightarrow> nat \<Rightarrow> ('m, 'r, 'z) unvme_scheme \<Rightarrow> (unit, 'm, 'r, 'z) blocking" where
  "unvmed_timer_handler ops io now qid u =
     (case sq_at qid u of
        None \<Rightarrow> Some (Fault, u)
      | Some usq \<Rightarrow>
          if \<not> timer_active (sq_timer usq) then Some (Ok (), u)
          else
            thenb (Some (find_expired ops io now qid [0..<sq_qsize usq - 1] zero_timespec u)) (\<lambda>(timedout, nxt) u1.
              if timedout then
                (case unvmed_sq_enter qid u1 of
                   None \<Rightarrow> None
                 | Some u2 \<Rightarrow>
                     thenb (expire_cmds ops io now qid [0..<sq_qsize usq - 1] False zero_timespec u2)
                       (\<lambda>(timedout, nxt) u3.
                         let u4 = (if timedout
                                   then sq_modify qid (\<lambda>s. s\<lparr>sq_flags := sq_flags s OR UNVMED_SQ_F_FROZEN\<rparr>) u3
                                   else u3);
                             u5 = unvmed_sq_exit qid u4 in
                         if tv_sec nxt \<noteq> 0
                         then (let delta = tv_sec nxt - tv_sec now in
                               Some (Ok (), sq_modify qid (unvmed_timer_update now (if 0 < delta then delta else 1)) u5))
                         else Some (Ok (), sq_modify qid
                                (\<lambda>s. s\<lparr>sq_timer := (sq_timer s)\<lparr>timer_active := False\<rparr>\<rparr>) u5)))
              else if tv_sec nxt = 0
              then Some (Ok (), sq_modify qid (unvmed_timer_update now (timeout u1)) u1)
              else Some (Ok (), sq_modify qid (unvmed_timer_update now (tv_sec nxt - tv_sec now)) u1)))"

text \<open>\<open>unvmed_timer_init()\<close> and \<open>unvmed_timer_free()\<close>; \<open>err\<close> is the error of the system call.\<close>

definition unvmed_timer_init :: "errno option \<Rightarrow> unvme_timer \<Rightarrow> unit outcome \<times> unvme_timer" where
  "unvmed_timer_init err t =
     (case err of Some e \<Rightarrow> (Fail e, t) | None \<Rightarrow> (Ok (), t\<lparr>timer_t := 0, timer_active := True\<rparr>))"

definition unvmed_timer_free :: "errno option \<Rightarrow> unvme_timer \<Rightarrow> unit outcome \<times> unvme_timer" where
  "unvmed_timer_free err t =
     (case err of
        Some e \<Rightarrow> (Fail e, t\<lparr>timer_active := False\<rparr>)
      | None \<Rightarrow> (Ok (), t\<lparr>timer_t := 0, timer_active := False\<rparr>))"

end
