(* ===== verification/Completion_Facts.thy ===== *)
theory Completion_Facts
  imports Poll Queue_Facts
begin

unbundle bit_operations_syntax

text \<open>
  Submission and completion: what completing a command changes and that it happens once, the
  lookups of the command of a completion, the end of the loop over a completion ring, what
  cancelling a queue leaves, the doorbell, and the status of a completion.
\<close>

subsection \<open>What completing a command changes\<close>

lemma sq_at_nth: "sq_at qid u = Some usq \<longleftrightarrow> nth_opt (sqs u) qid = Some (Some usq)"
  by (auto simp: sq_at_def split: option.splits)

lemma sq_at_store:
  "sq_at q (sq_store qid usq u) = (if q = qid \<and> qid < length (sqs u) then Some usq else sq_at q u)"
  by (auto simp: sq_at_def sq_store_nth)

lemma sq_at_bound: "sq_at qid u = Some usq \<Longrightarrow> qid < length (sqs u)"
  by (simp add: sq_at_nth)

lemma sq_modify_at: "sq_at qid u = Some usq \<Longrightarrow> sq_modify qid f u = sq_store qid (f usq) u"
  by (simp add: sq_modify_def sq_at_nth)

text \<open>A queue without its commands and counters, but with the sizes of their arrays.\<close>

definition sq_shape :: "'r unvme_sq \<Rightarrow> 'r unvme_sq \<times> nat \<times> nat" where
  "sq_shape usq = (usq\<lparr>sq_cmds := [], sq_conflict := zero_cmd, sq_cmd_count := []\<rparr>,
     length (sq_cmds usq), length (sq_cmd_count usq))"

lemma sq_shape_set [simp]: "sq_shape (cmd_set usq r c) = sq_shape usq"
  by (cases r) (simp_all add: sq_shape_def)

lemma sq_shape_fields:
  assumes "sq_shape usq' = sq_shape usq"
  shows "sq_q usq' = sq_q usq" "sq_qsize usq' = sq_qsize usq" "sq_ucq usq' = sq_ucq usq"
    "length (sq_cmds usq') = length (sq_cmds usq)" "sq_refcnt usq' = sq_refcnt usq"
    "sq_enabled usq' = sq_enabled usq" "sq_flags usq' = sq_flags usq" "sq_nr_cmds usq' = sq_nr_cmds usq"
    "length (sq_cmd_count usq') = length (sq_cmd_count usq)" "sq_cids usq' = sq_cids usq"
  using assms by (cases usq; cases usq'; simp add: sq_shape_def)+

text \<open>The two states differ at most in the commands and counters of the queues.\<close>

definition same_queues :: "('m, 'r, 'z) unvme_scheme \<Rightarrow> ('m, 'r, 'z) unvme_scheme \<Rightarrow> bool" where
  "same_queues u u' \<longleftrightarrow> cqs u' = cqs u \<and> sq_locked u' = sq_locked u \<and> length (sqs u') = length (sqs u)
     \<and> (\<forall>q. map_option sq_shape (sq_at q u') = map_option sq_shape (sq_at q u))"

lemma same_queues_refl [simp]: "same_queues u u" by (simp add: same_queues_def)

lemma same_queues_trans [trans]: "same_queues u v \<Longrightarrow> same_queues v w \<Longrightarrow> same_queues u w"
  by (simp add: same_queues_def)

lemma same_queues_at:
  assumes "same_queues u u'" and "sq_at q u = Some usq"
  obtains usq' where "sq_at q u' = Some usq'" and "sq_shape usq' = sq_shape usq"
proof -
  have "map_option sq_shape (sq_at q u') = Some (sq_shape usq)"
    using assms by (simp add: same_queues_def)
  then show thesis using that by auto
qed

lemma same_queues_store:
  assumes "sq_at qid u = Some usq" and "sq_shape usq' = sq_shape usq"
  shows "same_queues u (sq_store qid usq' u)"
  using assms sq_at_bound [OF assms(1)]
  by (auto simp: same_queues_def sq_at_store sq_store_def [of qid usq' u, THEN arg_cong [of _ _ cqs]]
      sq_store_def [of qid usq' u, THEN arg_cong [of _ _ sq_locked]]
      sq_store_def [of qid usq' u, THEN arg_cong [of _ _ "\<lambda>u. length (sqs u)"]])

lemma command_set:
  assumes "command p u = Some c"
  shows "command p' (set_command p d u) = (if p' = p then Some d else command p' u)"
    and "same_queues u (set_command p d u)"
proof -
  obtain usq where usq: "sq_at (fst p) u = Some usq" and c: "cmd_at usq (snd p) = Some c"
    using assms by (auto simp: command_def split: option.splits)
  note eq = sq_modify_at [OF usq, of "\<lambda>usq. cmd_set usq (snd p) d"]
  show "command p' (set_command p d u) = (if p' = p then Some d else command p' u)"
    using usq sq_at_bound [OF usq] cmd_at_set [OF c, of d "snd p'"]
    by (auto simp: command_def set_command_def eq sq_at_store prod_eq_iff)
  show "same_queues u (set_command p d u)"
    by (simp add: set_command_def eq same_queues_store [OF usq])
qed

lemma count_cmd_Ok:
  assumes "count_cmd p u = (Ok (), u')"
  shows "command p' u' = command p' u" and "same_queues u u'" and "nr_cmds u' = nr_cmds u"
proof -
  obtain usq l where usq: "sq_at (fst p) u = Some usq" and l: "length l = length (sq_cmd_count usq)"
    and u': "u' = sq_store (fst p) (usq\<lparr>sq_cmd_count := l\<rparr>) u"
  proof (rule that)
    let ?usq = "the (sq_at (fst p) u)" and ?c = "the (command p u)"
    let ?l = "(sq_cmd_count ?usq)[unat (sqe_opcode (c_sqe ?c)) := sq_cmd_count ?usq ! unat (sqe_opcode (c_sqe ?c)) + 1]"
    show "sq_at (fst p) u = Some ?usq" "length ?l = length (sq_cmd_count ?usq)"
      "u' = sq_store (fst p) (?usq\<lparr>sq_cmd_count := ?l\<rparr>) u"
      using assms by (auto simp: count_cmd_def Let_def split: option.splits if_splits)
  qed
  have at: "cmd_at (usq\<lparr>sq_cmd_count := l\<rparr>) r = cmd_at usq r" for l r by (cases r) simp_all
  show "command p' u' = command p' u"
    using usq by (auto simp: command_def u' sq_at_store at)
  show "same_queues u u'" unfolding u' by (rule same_queues_store [OF usq]) (simp add: sq_shape_def l)
  show "nr_cmds u' = nr_cmds u" by (simp add: u' sq_store_def)
qed

lemma vcq_push_sqs:
  assumes "unvmed_vcq_push p cqe u = Some (r, u')"
  shows "sqs u' = sqs u \<and> cqs u' = cqs u \<and> nr_cmds u' = nr_cmds u \<and> sq_locked u' = sq_locked u"
  using assms by (auto simp: unvmed_vcq_push_def split: option.splits outcome.splits)

lemma command_sqs: "sqs u' = sqs u \<Longrightarrow> command p u' = command p u" "sqs u' = sqs u \<Longrightarrow> sq_at q u' = sq_at q u"
  by (simp_all add: command_def sq_at_def)

lemma same_queues_sqs:
  "sqs u' = sqs u \<Longrightarrow> cqs u' = cqs u \<Longrightarrow> sq_locked u' = sq_locked u \<Longrightarrow> same_queues u u'"
  by (simp add: same_queues_def sq_at_def)

text \<open>A command after its completion \<open>cqe\<close> arrived.\<close>

definition cmd_after :: "nvme_cqe \<Rightarrow> unvme_cmd \<Rightarrow> unvme_cmd" where
  "cmd_after cqe c =
     (if c_flags c AND UNVMED_CMD_F_WAKEUP_ON_CQE \<noteq> 0
      then c\<lparr>c_cqe := cqe, c_state := UNVME_CMD_S_COMPLETED, c_completed := True\<rparr>
      else c\<lparr>c_state := UNVME_CMD_S_TO_BE_COMPLETED\<rparr>)"

lemma wakeup_outcome:
  assumes "command p u = Some c" and "unvmed_cmd_cmpl_wakeup p cqe u = (r, u')"
  shows "r = Ok (c_flags c AND UNVMED_CMD_F_WAKEUP_ON_CQE \<noteq> 0)"
    and "command p' u' = (if p' = p then Some (cmd_after cqe c) else command p' u)"
    and "same_queues u u'"
    and "nr_cmds u' = nr_cmds u - (if c_flags c AND UNVMED_CMD_F_WAKEUP_ON_CQE \<noteq> 0 then 1 else 0)"
proof -
  have nr: "nr_cmds (set_command p d u) = nr_cmds u" for d
    by (auto simp: set_command_def sq_modify_def sq_store_def split: option.splits)
  have sqs: "command q (v\<lparr>nr_cmds := n\<rparr>) = command q v" "same_queues u (v\<lparr>nr_cmds := n\<rparr>) = same_queues u v"
    for v :: "('a, 'b, 'c) unvme_scheme" and n q
    by (simp_all add: command_def sq_at_def same_queues_def)
  note u' = assms(2) [unfolded unvmed_cmd_cmpl_wakeup_def assms(1)]
  show "r = Ok (c_flags c AND UNVMED_CMD_F_WAKEUP_ON_CQE \<noteq> 0)" using u' by (auto simp: Let_def split: if_splits)
  show "command p' u' = (if p' = p then Some (cmd_after cqe c) else command p' u)"
    using u' by (auto simp: Let_def cmd_after_def unvmed_cmd_cmpl_u2_def sqs command_set [OF assms(1)] split: if_splits)
  show "same_queues u u'" using u' by (auto simp: Let_def sqs command_set [OF assms(1)] split: if_splits)
  show "nr_cmds u' = nr_cmds u - (if c_flags c AND UNVMED_CMD_F_WAKEUP_ON_CQE \<noteq> 0 then 1 else 0)"
    using u' by (auto simp: Let_def nr split: if_splits)
qed

lemma cmd_cmpl_Ok:
  assumes "command p u = Some c" and "unvmed_cmd_cmpl p cqe u = Some (Ok (), u')"
  shows "command p' u' = (if p' = p then Some (cmd_after cqe c) else command p' u)"
    and "same_queues u u'"
    and "nr_cmds u' = nr_cmds u - (if c_flags c AND UNVMED_CMD_F_WAKEUP_ON_CQE \<noteq> 0 then 1 else 0)"
proof -
  obtain u1 where u1: "count_cmd p u = (Ok (), u1)"
    using assms(2) by (auto simp: unvmed_cmd_cmpl_def thenb_Ok)
  obtain woken u2 where u2: "unvmed_cmd_cmpl_wakeup p cqe u1 = (Ok woken, u2)"
    and rest: "sqs u' = sqs u2 \<and> cqs u' = cqs u2 \<and> nr_cmds u' = nr_cmds u2 \<and> sq_locked u' = sq_locked u2"
    using assms(2) u1
    by (auto simp: unvmed_cmd_cmpl_def thenb_Ok dest: vcq_push_sqs split: if_splits option.splits outcome.splits)
  have c1: "command p u1 = Some c" using assms(1) count_cmd_Ok(1) [OF u1] by simp
  note w = wakeup_outcome [OF c1 u2]
  show "command p' u' = (if p' = p then Some (cmd_after cqe c) else command p' u)"
    using w(2) count_cmd_Ok(1) [OF u1] command_sqs(1) [of u' u2 p'] rest by simp
  show "same_queues u u'"
    using count_cmd_Ok(2) [OF u1] w(3) same_queues_sqs rest same_queues_trans by metis
  show "nr_cmds u' = nr_cmds u - (if c_flags c AND UNVMED_CMD_F_WAKEUP_ON_CQE \<noteq> 0 then 1 else 0)"
    using w(4) count_cmd_Ok(3) [OF u1] rest by simp
qed


subsection \<open>From a completion to its command\<close>

lemma same_queues_find:
  assumes "same_queues u u'"
  shows "unvmed_sq_find qid u' = None \<longleftrightarrow> unvmed_sq_find qid u = None"
proof -
  have eq: "unvmed_sq_find qid v = (case sq_at qid v of None \<Rightarrow> None | Some s \<Rightarrow> if sq_refcnt s = 0 then None else Some s)"
    for v :: "('a, 'b, 'c) unvme_scheme"
    by (auto simp: unvmed_sq_find_def sq_at_def split: option.splits)
  show ?thesis
  proof (cases "sq_at qid u")
    case None
    then have "sq_at qid u' = None" using assms unfolding same_queues_def by (metis None map_option_is_None)
    with None show ?thesis by (simp add: eq)
  next
    case (Some usq)
    then obtain usq' where usq': "sq_at qid u' = Some usq'" "sq_shape usq' = sq_shape usq"
      by (rule same_queues_at [OF assms])
    from Some usq'(1) sq_shape_fields(5) [OF usq'(2)] show ?thesis by (simp add: eq)
  qed
qed

definition submitted :: "nat \<times> cmd_ref \<Rightarrow> ('m, 'r, 'z) unvme_scheme \<Rightarrow> bool" where
  "submitted p u \<longleftrightarrow> (\<exists>c. command p u = Some c \<and> c_state c = UNVME_CMD_S_SUBMITTED)"

text \<open>
  Which command a completion belongs to: the first submitted one with its identifier of the slot
  of the identifier and the conflict slot.
\<close>

definition resolve :: "nvme_cqe \<Rightarrow> ('m, 'r, 'z) unvme_scheme \<Rightarrow> (nat \<times> cmd_ref) option" where
  "resolve cqe u =
     (let q = unat (sqid cqe) in
      find (\<lambda>p. submitted p u \<and> (snd p = Conflict \<longrightarrow> map_option c_cid (command p u) = Some (cqe_cid cqe)))
        [(q, Slot (unat (cqe_cid cqe))), (q, Conflict)])"

lemma command_of_find:
  assumes "unvmed_sq_find qid u = Some usq"
  shows "command (qid, r) u = cmd_at usq r"
  using assms by (auto simp: unvmed_sq_find_def command_def sq_at_def split: option.splits if_splits)

lemma reaper_resolve:
  assumes "unvmed_sq_find (unat (sqid cqe)) u \<noteq> None"
    and "command (unat (sqid cqe), Slot (unat (cqe_cid cqe))) u \<noteq> None"
  shows "unvmed_get_cmd_on_reaper cqe u = Ok (resolve cqe u)"
    and "unvmed_get_cmd_from_cqe cqe u = Ok (resolve cqe u)"
proof -
  obtain usq where usq: "unvmed_sq_find (unat (sqid cqe)) u = Some usq" using assms(1) by blast
  then obtain c where c: "cmd_at usq (Slot (unat (cqe_cid cqe))) = Some c"
    using assms(2) command_of_find [OF usq] by auto
  note at = usq command_of_find [OF usq] c
  show "unvmed_get_cmd_on_reaper cqe u = Ok (resolve cqe u)"
    using at by (simp add: unvmed_get_cmd_on_reaper_def resolve_def submitted_def Let_def del: cmd_at.simps(1))
  show "unvmed_get_cmd_from_cqe cqe u = Ok (resolve cqe u)"
    using at by (simp add: unvmed_get_cmd_from_cqe_def resolve_def submitted_def Let_def del: cmd_at.simps(1))
qed

lemma reaper_some:
  assumes "unvmed_get_cmd_on_reaper cqe u = Ok (Some p)"
  shows "unvmed_sq_find (unat (sqid cqe)) u \<noteq> None"
    and "command (unat (sqid cqe), Slot (unat (cqe_cid cqe))) u \<noteq> None"
proof -
  show find: "unvmed_sq_find (unat (sqid cqe)) u \<noteq> None"
    using assms by (auto simp: unvmed_get_cmd_on_reaper_def split: option.splits)
  then obtain usq where usq: "unvmed_sq_find (unat (sqid cqe)) u = Some usq" by blast
  show "command (unat (sqid cqe), Slot (unat (cqe_cid cqe))) u \<noteq> None"
    using assms usq command_of_find [OF usq]
    by (auto simp: unvmed_get_cmd_on_reaper_def simp del: cmd_at.simps(1) split: option.splits)
qed

lemma reaper_submitted:
  assumes "unvmed_get_cmd_on_reaper cqe u = Ok (Some p)"
  shows "submitted p u \<and> fst p = unat (sqid cqe)"
  using assms reaper_resolve(1) [OF reaper_some [OF assms]]
  by (auto simp: resolve_def Let_def split: if_splits)

lemma cmd_after_state [simp]: "c_state (cmd_after cqe c) \<noteq> UNVME_CMD_S_SUBMITTED"
    "c_state (cmd_after cqe c) \<noteq> UNVME_CMD_S_ALLOCATED"
  by (simp_all add: cmd_after_def)

lemma cmpl_resolve:
  assumes "unvmed_get_cmd_on_reaper cqe u = Ok (Some p)" and "unvmed_cmd_cmpl p cqe u = Some (Ok (), u')"
  shows "unvmed_get_cmd_on_reaper cqe u' =
    Ok (if snd p \<noteq> Conflict \<and> submitted (fst p, Conflict) u
           \<and> map_option c_cid (command (fst p, Conflict) u) = Some (cqe_cid cqe)
        then Some (fst p, Conflict) else None)"
proof -
  note sub = reaper_submitted [OF assms(1)] and old = reaper_some [OF assms(1)]
  then obtain c where c: "command p u = Some c" by (auto simp: submitted_def)
  note after = cmd_cmpl_Ok(1,2) [OF c assms(2)]
  have find: "unvmed_sq_find (unat (sqid cqe)) u' \<noteq> None"
    using old(1) same_queues_find [OF after(2)] by simp
  have slot: "command (unat (sqid cqe), Slot (unat (cqe_cid cqe))) u' \<noteq> None"
    using old(2) after(1) by auto
  have now: "submitted q u' \<longleftrightarrow> q \<noteq> p \<and> submitted q u" for q
    using after(1) [of q] by (auto simp: submitted_def)
  have "resolve cqe u = Some p" using reaper_resolve(1) [OF old] assms(1) by simp
  then have "resolve cqe u' =
      (if snd p \<noteq> Conflict \<and> submitted (fst p, Conflict) u
           \<and> map_option c_cid (command (fst p, Conflict) u) = Some (cqe_cid cqe)
        then Some (fst p, Conflict) else None)"
    using after(1) by (auto simp: resolve_def Let_def now split: if_splits)
  then show ?thesis using reaper_resolve(1) [OF find slot] by simp
qed


text \<open>C33. A completion the reaper resolves to a command completes it once. The command found was
  submitted; after its completion it is either completed, with the entry stored and its waiter
  woken, or waiting in its application's virtual queue, and in both cases neither submitted nor
  allocated; no other command changes; and the same entry, seen again, resolves to nothing, or to
  the conflict command of the queue when that was submitted with the same identifier.
\<close>

theorem completion_once:
  assumes "unvmed_get_cmd_on_reaper cqe u = Ok (Some p)" and "unvmed_cmd_cmpl p cqe u = Some (Ok (), u')"
  shows "(\<exists>c. command p u = Some c \<and> c_state c = UNVME_CMD_S_SUBMITTED
        \<and> command p u' = Some (if c_flags c AND UNVMED_CMD_F_WAKEUP_ON_CQE \<noteq> 0
            then c\<lparr>c_cqe := cqe, c_state := UNVME_CMD_S_COMPLETED, c_completed := True\<rparr>
            else c\<lparr>c_state := UNVME_CMD_S_TO_BE_COMPLETED\<rparr>)
        \<and> (\<forall>p'. p' \<noteq> p \<longrightarrow> command p' u' = command p' u))
    \<and> unvmed_get_cmd_on_reaper cqe u' =
      Ok (if snd p \<noteq> Conflict \<and> submitted (fst p, Conflict) u
             \<and> map_option c_cid (command (fst p, Conflict) u) = Some (cqe_cid cqe)
          then Some (fst p, Conflict) else None)"
proof (rule conjI)
  obtain c where c: "command p u = Some c" "c_state c = UNVME_CMD_S_SUBMITTED"
    using reaper_submitted [OF assms(1)] by (auto simp: submitted_def)
  with cmd_cmpl_Ok(1) [OF c(1) assms(2)]
  show "\<exists>c. command p u = Some c \<and> c_state c = UNVME_CMD_S_SUBMITTED
      \<and> command p u' = Some (if c_flags c AND UNVMED_CMD_F_WAKEUP_ON_CQE \<noteq> 0
          then c\<lparr>c_cqe := cqe, c_state := UNVME_CMD_S_COMPLETED, c_completed := True\<rparr>
          else c\<lparr>c_state := UNVME_CMD_S_TO_BE_COMPLETED\<rparr>)
      \<and> (\<forall>p'. p' \<noteq> p \<longrightarrow> command p' u' = command p' u)"
    by (simp add: cmd_after_def)
qed (rule cmpl_resolve [OF assms])

lemma on_reaper_spec:
  "unvmed_get_cmd_on_reaper cqe u =
     (if unvmed_sq_find (unat (sqid cqe)) u = None then Ok None
      else if command (unat (sqid cqe), Slot (unat (cqe_cid cqe))) u = None then Fault
      else Ok (resolve cqe u))"
proof (cases "unvmed_sq_find (unat (sqid cqe)) u")
  case (Some usq)
  then show ?thesis using reaper_resolve(1) [of cqe u] command_of_find [OF Some]
    by (auto simp: unvmed_get_cmd_on_reaper_def simp del: cmd_at.simps(1))
qed (simp add: unvmed_get_cmd_on_reaper_def)

lemma from_cqe_spec:
  "unvmed_get_cmd_from_cqe cqe u =
     (if unvmed_sq_find (unat (sqid cqe)) u = None then Ok None
      else if command (unat (sqid cqe), Slot (unat (cqe_cid cqe))) u = None then Fault
      else Ok (resolve cqe u))"
proof (cases "unvmed_sq_find (unat (sqid cqe)) u")
  case (Some usq)
  then show ?thesis using reaper_resolve(2) [of cqe u] command_of_find [OF Some]
    by (auto simp: unvmed_get_cmd_from_cqe_def simp del: cmd_at.simps(1))
qed (simp add: unvmed_get_cmd_from_cqe_def)

text \<open>The two lookups of the command of a completion agree.\<close>

lemma lookups_agree: "unvmed_get_cmd_on_reaper cqe u = unvmed_get_cmd_from_cqe cqe u"
  by (simp add: on_reaper_spec from_cqe_spec)

subsection \<open>Reading a ring\<close>

text \<open>A ring of libvfn: as many entries as its size, the head inside it, a phase of 0 or 1.\<close>

definition ring_ok :: "nvme_cq \<Rightarrow> bool" where
  "ring_ok q \<longleftrightarrow> length (ncq_entries q) = ncq_qsize q \<and> ncq_head q < ncq_qsize q \<and> ncq_phase q \<in> {0, 1}"

lemma scan_segment:
  assumes "length (ncq_entries q) = ncq_qsize q" and "head < ncq_qsize q"
    and "ncq_qsize q - head = n" and "n \<le> fuel"
    and "\<exists>r. scan_cqes (fuel - n) q 0 (phase XOR 1) = Some (Ok r)
          \<and> length (fst r) \<le> m \<and> fst (snd r) < ncq_qsize q \<and> snd (snd r) \<in> {phase, phase XOR 1}"
  shows "\<exists>r. scan_cqes fuel q head phase = Some (Ok r)
          \<and> length (fst r) \<le> n + m \<and> fst (snd r) < ncq_qsize q \<and> snd (snd r) \<in> {phase, phase XOR 1}"
  using assms
proof (induction n arbitrary: fuel head)
  case 0 then show ?case by simp
next
  case (Suc n)
  then obtain f where f: "fuel = Suc f" by (cases fuel) auto
  show ?case
  proof (cases "sfp (ncq_entries q ! head) AND 1 = ucast phase")
    case True with Suc.prems f show ?thesis by simp
  next
    case False
    show ?thesis
    proof (cases "head + 1 = ncq_qsize q")
      case True
      then have "n = 0" using Suc.prems(3) by simp
      with Suc.prems(5) f obtain cqes r where "scan_cqes f q 0 (phase XOR 1) = Some (Ok (cqes, r))"
        "length cqes \<le> m" "fst r < ncq_qsize q" "snd r \<in> {phase, phase XOR 1}" by auto
      with False True \<open>n = 0\<close> Suc.prems f show ?thesis by simp
    next
      case wrap: False
      then have next_i: "head + 1 < ncq_qsize q" "ncq_qsize q - (head + 1) = n" "n \<le> f"
        and rest: "\<exists>r. scan_cqes (f - n) q 0 (phase XOR 1) = Some (Ok r)
          \<and> length (fst r) \<le> m \<and> fst (snd r) < ncq_qsize q \<and> snd (snd r) \<in> {phase, phase XOR 1}"
        using Suc.prems f by auto
      obtain cqes r where
        "scan_cqes f q (head + 1) phase = Some (Ok (cqes, r))" "length cqes \<le> n + m"
        "fst r < ncq_qsize q" "snd r \<in> {phase, phase XOR 1}"
        using Suc.IH [OF assms(1) next_i rest] by auto
      with False wrap Suc.prems f show ?thesis by simp
    qed
  qed
qed


lemma scan_run:
  assumes "ring_ok q"
  shows "\<exists>cqes head phase. scan_cqes (2 * ncq_qsize q + 2) q (ncq_head q) (ncq_phase q) = Some (Ok (cqes, head, phase))
    \<and> length cqes \<le> 2 * ncq_qsize q \<and> ring_ok (q\<lparr>ncq_head := head, ncq_phase := phase\<rparr>)"
proof -
  let ?n = "ncq_qsize q" and ?p = "ncq_phase q"
  have ring: "length (ncq_entries q) = ?n" "ncq_head q < ?n" "?p \<in> {0, 1}" "0 < ?n"
    using assms by (auto simp: ring_ok_def)
  have flip: "?p XOR 1 \<in> {0, 1}" "(?p XOR 1) XOR 1 = ?p" using ring(3) by auto
  define bit0 where "bit0 = sfp (ncq_entries q ! 0) AND 1"
  have "bit0 = ucast ?p \<or> bit0 = ucast (?p XOR 1)"
    using ring(3) by (cases "odd (sfp (ncq_entries q ! 0))") (auto simp: bit0_def and_one_eq odd_iff_mod_2_eq_one)
  then have wrapped: "\<exists>r. scan_cqes (2 * ?n + 2 - (?n - ncq_head q)) q 0 (?p XOR 1) = Some (Ok r)
      \<and> length (fst r) \<le> ?n \<and> fst (snd r) < ?n \<and> snd (snd r) \<in> {?p, ?p XOR 1}" (is "\<exists>r. ?scan r")
  proof
    assume now: "bit0 = ucast (?p XOR 1)"
    obtain f where "2 * ?n + 2 - (?n - ncq_head q) = Suc f" by (cases "2 * ?n + 2 - (?n - ncq_head q)") auto
    with now ring show ?thesis by (simp add: bit0_def)
  next
    assume now: "bit0 = ucast ?p"
    have fuel: "2 * ?n + 2 - (?n - ncq_head q) - ?n = Suc (ncq_head q + 1)" using ring(2) by simp
    have scan: "\<exists>r. scan_cqes (2 * ?n + 2 - (?n - ncq_head q) - ?n) q 0 ((?p XOR 1) XOR 1) = Some (Ok r)
        \<and> length (fst r) \<le> 0 \<and> fst (snd r) < ?n \<and> snd (snd r) \<in> {?p XOR 1, (?p XOR 1) XOR 1}"
      unfolding fuel flip(2) using now ring by (simp add: bit0_def)
    have "?n \<le> 2 * ?n + 2 - (?n - ncq_head q)" using ring(2) by simp
    from scan_segment [OF ring(1) ring(4) diff_zero this scan] show ?thesis
      unfolding flip(2) by (simp only: add_0_right insert_commute)
  qed
  have "?n - ncq_head q \<le> 2 * ?n + 2" by simp
  from scan_segment [OF ring(1,2) refl this wrapped]
  obtain cqes head phase where run: "scan_cqes (2 * ?n + 2) q (ncq_head q) ?p = Some (Ok (cqes, head, phase))"
    "length cqes \<le> ?n - ncq_head q + ?n" "head < ?n" "phase \<in> {?p, ?p XOR 1}"
    by (auto simp del: scan_cqes.simps)
  then have "phase \<in> {0, 1}" using ring(3) flip(1) by auto
  with run ring(1) have "ring_ok (q\<lparr>ncq_head := head, ncq_phase := phase\<rparr>)" by (simp add: ring_ok_def)
  with run show ?thesis by (auto simp del: scan_cqes.simps)
qed


text \<open>
  The new entries of a ring, by counting on past its end: position \<open>a\<close> is entry \<open>a mod n\<close>, and it is new
  if its phase bit differs from the phase of the queue, flipped on every second round. This is what the
  loop over the ring collects.
\<close>

definition ring_fresh :: "nvme_cq \<Rightarrow> nat \<Rightarrow> bool" where
  "ring_fresh q a \<longleftrightarrow> sfp (ncq_entries q ! (a mod ncq_qsize q)) AND 1
     \<noteq> ucast (ncq_phase q XOR (if odd (a div ncq_qsize q) then 1 else 0))"

definition ring_pending :: "nvme_cq \<Rightarrow> nvme_cqe list" where
  "ring_pending q = map (\<lambda>a. ncq_entries q ! (a mod ncq_qsize q))
     (takeWhile (ring_fresh q) [ncq_head q..<ncq_head q + 2 * ncq_qsize q + 1])"

lemma takeWhile_upt:
  "a < b \<Longrightarrow> takeWhile P [a..<b] = (if P a then a # takeWhile P [Suc a..<b] else [])"
  by (simp add: upt_conv_Cons)

lemma scan_fresh:
  assumes "length (ncq_entries q) = ncq_qsize q" "0 < ncq_qsize q"
    and "scan_cqes fuel q (a mod ncq_qsize q) (ncq_phase q XOR (if odd (a div ncq_qsize q) then 1 else 0)) = Some (Ok (cqes, r))"
    and "a + length cqes < b"
  shows "cqes = map (\<lambda>a. ncq_entries q ! (a mod ncq_qsize q)) (takeWhile (ring_fresh q) [a..<b])"
  using assms(3,4)
proof (induction fuel arbitrary: a cqes r)
  case (Suc fuel)
  let ?n = "ncq_qsize q" and ?ph = "\<lambda>a. ncq_phase q XOR (if odd (a div ncq_qsize q) then 1 else 0)"
  have at: "nth_opt (ncq_entries q) (a mod ?n) = Some (ncq_entries q ! (a mod ?n))" using assms(1,2) by (simp add: nth_opt_def)
  have ab: "a < b" using Suc.prems(2) by simp
  show ?case
  proof (cases "ring_fresh q a")
    case False
    then have "cqes = []" using Suc.prems(1) at by (simp add: ring_fresh_def)
    then show ?thesis using False takeWhile_upt [OF ab, of "ring_fresh q"] by simp
  next
    case True
    have "(if a mod ?n + 1 = ?n then scan_cqes fuel q 0 (?ph a XOR 1) else scan_cqes fuel q (a mod ?n + 1) (?ph a))
        = scan_cqes fuel q (Suc a mod ?n) (?ph (Suc a))"
      using assms(2) by (auto simp: mod_Suc div_Suc xor.assoc)
    then have "scan_cqes (Suc fuel) q (a mod ?n) (?ph a) = (case scan_cqes fuel q (Suc a mod ?n) (?ph (Suc a)) of
        Some (Ok (cqes, r)) \<Rightarrow> Some (Ok (ncq_entries q ! (a mod ?n) # cqes, r)) | r \<Rightarrow> r)"
      using True at unfolding ring_fresh_def by simp
    then obtain cqes1 where "scan_cqes fuel q (Suc a mod ?n) (?ph (Suc a)) = Some (Ok (cqes1, r))"
      "cqes = ncq_entries q ! (a mod ?n) # cqes1"
      using Suc.prems(1) by (auto split: option.splits outcome.splits)
    with Suc.IH [of "Suc a" cqes1 r] Suc.prems(2) True takeWhile_upt [OF ab, of "ring_fresh q"] show ?thesis by simp
  qed
qed simp

lemma scan_pending:
  assumes "ring_ok q"
  shows "\<exists>head phase. scan_cqes (2 * ncq_qsize q + 2) q (ncq_head q) (ncq_phase q) = Some (Ok (ring_pending q, head, phase))"
proof -
  obtain cqes head phase where run: "scan_cqes (2 * ncq_qsize q + 2) q (ncq_head q) (ncq_phase q) = Some (Ok (cqes, head, phase))"
    "length cqes \<le> 2 * ncq_qsize q" using scan_run [OF assms] by blast
  have ring: "length (ncq_entries q) = ncq_qsize q" "ncq_head q < ncq_qsize q" using assms by (auto simp: ring_ok_def)
  have "cqes = ring_pending q"
    unfolding ring_pending_def
    by (rule scan_fresh [OF ring(1), of "2 * ncq_qsize q + 2" _ _ "(head, phase)"]) (use ring run in \<open>simp_all del: scan_cqes.simps\<close>)
  with run(1) show ?thesis by blast
qed

text \<open>C35. Reading the new entries of a completion ring ends, whatever phase bits the device wrote:
  within twice the size of the ring, with a head inside the ring and a phase of 0 or 1.
\<close>

theorem scan_terminates:
  assumes "length (ncq_entries q) = ncq_qsize q" and "ncq_head q < ncq_qsize q" and "ncq_phase q \<in> {0, 1}"
  shows "\<exists>cqes head phase. scan_cqes (2 * ncq_qsize q + 2) q (ncq_head q) (ncq_phase q) = Some (Ok (cqes, head, phase))
    \<and> length cqes \<le> 2 * ncq_qsize q \<and> head < ncq_qsize q \<and> phase \<in> {0, 1}"
  using scan_run [of q] assms by (auto simp: ring_ok_def simp del: scan_cqes.simps)

subsection \<open>Cancelling\<close>

text \<open>A command that a waiting thread or nobody will consume, in a state that can be cancelled.\<close>

definition cmd_open :: "unvme_cmd \<Rightarrow> bool" where
  "cmd_open c \<longleftrightarrow> c_state c \<in> {UNVME_CMD_S_SUBMITTED, UNVME_CMD_S_ALLOCATED}"

text \<open>
  The states in which cancelling does not wait for an application: every open command has its
  request, is counted by an opcode below 255, and is waited for or has no virtual queue.
\<close>

definition cancellable :: "('m, 'r, 'z) unvme_scheme \<Rightarrow> bool" where
  "cancellable u \<longleftrightarrow>
     (\<forall>q usq. sq_at q u = Some usq \<longrightarrow> length (sq_cmd_count usq) = 255)
     \<and> (\<forall>p c. command p u = Some c \<longrightarrow> cmd_open c \<longrightarrow>
          c_rq c \<noteq> None \<and> unat (sqe_opcode (c_sqe c)) < 255
          \<and> (c_flags c AND UNVMED_CMD_F_WAKEUP_ON_CQE \<noteq> 0 \<or> c_vcq c = 0))"

lemma cancellableD:
  assumes "cancellable u" and "command p u = Some c" and "cmd_open c"
  shows "\<exists>rq. c_rq c = Some rq" "unat (sqe_opcode (c_sqe c)) < 255"
    "c_flags c AND UNVMED_CMD_F_WAKEUP_ON_CQE = 0 \<Longrightarrow> c_vcq c = 0"
  using assms unfolding cancellable_def by blast+

lemma cmd_after_closed [simp]: "\<not> cmd_open (cmd_after cqe c)"
  by (simp add: cmd_open_def)

lemma cmpl_total:
  assumes "cancellable u" and "command p u = Some c" and "cmd_open c"
  shows "\<exists>u'. unvmed_cmd_cmpl p cqe u = Some (Ok (), u')"
proof -
  obtain usq where usq: "sq_at (fst p) u = Some usq" using assms(2) by (auto simp: command_def split: option.splits)
  have "length (sq_cmd_count usq) = 255" "unat (sqe_opcode (c_sqe c)) < 255"
    using assms(1) usq cancellableD(2) [OF assms] by (auto simp: cancellable_def)
  then obtain u1 where u1: "count_cmd p u = (Ok (), u1)" using usq assms(2) by (simp add: count_cmd_def Let_def)
  have c1: "command p u1 = Some c" using assms(2) count_cmd_Ok(1) [OF u1] by simp
  obtain r u2 where u2: "unvmed_cmd_cmpl_wakeup p cqe u1 = (r, u2)" by fastforce
  note w = wakeup_outcome [OF c1 u2]
  show ?thesis
  proof (cases "c_flags c AND UNVMED_CMD_F_WAKEUP_ON_CQE \<noteq> 0")
    case True with u1 u2 w(1) show ?thesis by (simp add: unvmed_cmd_cmpl_def)
  next
    case False
    then have "c_vcq c = 0" using cancellableD(3) [OF assms] by simp
    then have "unvmed_vcq_push p cqe u2 = Some (Fail ENODEV, u2)"
      using w(2) [of p] by (simp add: unvmed_vcq_push_def unvmed_cmd_get_vcq_def cmd_after_def)
    with False u1 u2 w(1) show ?thesis by (simp add: unvmed_cmd_cmpl_def)
  qed
qed

text \<open>One step of cancelling: the commands only become closed, and nothing else of the queues changes.\<close>

definition closes :: "('m, 'r, 'z) unvme_scheme \<Rightarrow> ('m, 'r, 'z) unvme_scheme \<Rightarrow> bool" where
  "closes u u' \<longleftrightarrow> same_queues u u' \<and> (\<forall>p. command p u' = command p u
     \<or> (\<exists>c cqe. command p u = Some c \<and> cmd_open c \<and> command p u' = Some (cmd_after cqe c)))"

lemma closes_refl [simp]: "closes u u" by (simp add: closes_def)

lemma closes_trans:
  assumes "closes u v" and "closes v w"
  shows "closes u w"
  unfolding closes_def
proof (intro conjI allI)
  show "same_queues u w" using assms same_queues_trans by (auto simp: closes_def)
  fix p
  show "command p w = command p u \<or> (\<exists>c cqe. command p u = Some c \<and> cmd_open c \<and> command p w = Some (cmd_after cqe c))"
    using assms(1) [unfolded closes_def, THEN conjunct2, THEN spec, of p]
      assms(2) [unfolded closes_def, THEN conjunct2, THEN spec, of p]
    by fastforce
qed

lemma cancellable_frame:
  assumes "cancellable u" and "same_queues u u'"
    and "\<And>p c. command p u' = Some c \<Longrightarrow> cmd_open c \<Longrightarrow> command p u = Some c"
  shows "cancellable u'"
  unfolding cancellable_def
proof (intro conjI allI impI)
  fix q usq' assume usq': "sq_at q u' = Some usq'"
  have "map_option sq_shape (sq_at q u') = map_option sq_shape (sq_at q u)"
    using assms(2) by (simp add: same_queues_def)
  with usq' obtain usq where usq: "sq_at q u = Some usq" "sq_shape usq' = sq_shape usq"
    by (cases "sq_at q u") auto
  have "length (sq_cmd_count usq) = 255" using assms(1) usq(1) unfolding cancellable_def by blast
  with sq_shape_fields(9) [OF usq(2)] show "length (sq_cmd_count usq') = 255" by simp
next
  fix p c assume c: "command p u' = Some c" "cmd_open c"
  from assms(1) assms(3) [OF c] c(2) show "c_rq c \<noteq> None" "unat (sqe_opcode (c_sqe c)) < 255"
    "c_flags c AND UNVMED_CMD_F_WAKEUP_ON_CQE \<noteq> 0 \<or> c_vcq c = 0"
    unfolding cancellable_def by blast+
qed

lemma closes_cancellable:
  assumes "closes u u'" and "cancellable u"
  shows "cancellable u'"
proof (rule cancellable_frame [OF assms(2)])
  show "same_queues u u'" using assms(1) by (simp add: closes_def)
  show "command p u' = Some c \<Longrightarrow> cmd_open c \<Longrightarrow> command p u = Some c" for p c
    using assms(1) [unfolded closes_def, THEN conjunct2, THEN spec, of p] by auto
qed

lemma cmpl_closes:
  assumes "command p u = Some c" and "cmd_open c" and "unvmed_cmd_cmpl p cqe u = Some (Ok (), u')"
  shows "closes u u' \<and> command p u' = Some (cmd_after cqe c)"
  using cmd_cmpl_Ok(1,2) [OF assms(1,3)] assms(1,2) by (auto simp: closes_def)


text \<open>A completion whose identifier is inside the command array of its queue, if there is one.\<close>

definition addressed :: "nvme_cqe \<Rightarrow> ('m, 'r, 'z) unvme_scheme \<Rightarrow> bool" where
  "addressed cqe u \<longleftrightarrow> unvmed_sq_find (unat (sqid cqe)) u = None
     \<or> command (unat (sqid cqe), Slot (unat (cqe_cid cqe))) u \<noteq> None"

lemma closes_command_None: "closes u u' \<Longrightarrow> command p u' = None \<longleftrightarrow> command p u = None"
  unfolding closes_def by (metis option.distinct(1))

lemma closes_addressed:
  assumes "closes u u'"
  shows "addressed cqe u' \<longleftrightarrow> addressed cqe u"
proof -
  have "same_queues u u'" using assms by (simp add: closes_def)
  from same_queues_find [OF this] closes_command_None [OF assms] show ?thesis
    unfolding addressed_def by simp
qed

lemma complete_all_total:
  assumes "cancellable u" and "\<forall>cqe\<in>set cqes. addressed cqe u"
  shows "\<exists>u'. complete_all cqes u = Some (Ok (), u') \<and> closes u u'"
  using assms
proof (induction cqes arbitrary: u)
  case Nil show ?case by simp
next
  case (Cons cqe cqes)
  show ?case
  proof (cases "unvmed_sq_find (unat (sqid cqe)) u")
    case None
    with Cons show ?thesis by (simp add: unvmed_get_cmd_on_reaper_def)
  next
    case (Some usq)
    then have look: "unvmed_get_cmd_on_reaper cqe u = Ok (resolve cqe u)"
      using Cons.prems(2) by (intro reaper_resolve) (auto simp: addressed_def)
    show ?thesis
    proof (cases "resolve cqe u")
      case None with look Cons show ?thesis by simp
    next
      case (Some p)
      then obtain c where c: "command p u = Some c" "cmd_open c"
        using look reaper_submitted by (fastforce simp: submitted_def cmd_open_def)
      obtain u1 where u1: "unvmed_cmd_cmpl p cqe u = Some (Ok (), u1)"
        using cmpl_total [OF Cons.prems(1) c] by blast
      have step: "closes u u1" using cmpl_closes [OF c u1] by simp
      obtain u' where "complete_all cqes u1 = Some (Ok (), u')" "closes u1 u'"
        using Cons.IH [of u1] Cons.prems closes_cancellable [OF step] closes_addressed [OF step] by auto
      with Some look u1 step closes_trans show ?thesis by auto
    qed
  qed
qed

lemma put_cqe_total:
  assumes "cancellable u" and "command (qid, r) u = Some c" and "sq_at qid u = Some usq" and "sq_q usq \<noteq> None"
  shows "\<exists>u'. unvmed_put_cqe_u2 io (qid, r) u = Some (Ok (), u') \<and> closes u u'
    \<and> (\<exists>c'. command (qid, r) u' = Some c' \<and> \<not> cmd_open c')"
proof (cases "cmd_open c")
  case False
  then show ?thesis using assms(2) by (auto simp: unvmed_put_cqe_u2_def cmd_open_def)
next
  case True
  obtain rq where "c_rq c = Some rq" using cancellableD(1) [OF assms(1,2) True] by blast
  moreover obtain q where "sq_q usq = Some q" using assms(4) by blast
  ultimately obtain cqe where
    eq: "unvmed_put_cqe_u2 io (qid, r) u = unvmed_cmd_cmpl (qid, r) cqe u"
    using assms(2,3) True by (auto simp: unvmed_put_cqe_u2_def unvmed_put_cqe_def cmd_open_def Let_def)
  obtain u' where u': "unvmed_cmd_cmpl (qid, r) cqe u = Some (Ok (), u')"
    using cmpl_total [OF assms(1,2) True] by blast
  with eq cmpl_closes [OF assms(2) True u'] show ?thesis by auto
qed

lemma closes_closed:
  "closes u u' \<Longrightarrow> command p u = Some c \<Longrightarrow> \<not> cmd_open c \<Longrightarrow> command p u' = Some c"
  unfolding closes_def by (metis option.inject)

lemma put_cqes_total:
  assumes "cancellable u" and "sq_at qid u = Some usq" and "sq_q usq \<noteq> None"
    and "\<forall>r\<in>set rs. command (qid, r) u \<noteq> None"
  shows "\<exists>u'. put_cqes io qid rs u = Some (Ok (), u') \<and> closes u u'
    \<and> (\<forall>r\<in>set rs. \<exists>c. command (qid, r) u' = Some c \<and> \<not> cmd_open c)"
  using assms
proof (induction rs arbitrary: u usq)
  case Nil show ?case by simp
next
  case (Cons r rs)
  then obtain c where c: "command (qid, r) u = Some c" by auto
  obtain u1 c1 where u1: "unvmed_put_cqe_u2 io (qid, r) u = Some (Ok (), u1)" "closes u u1"
    "command (qid, r) u1 = Some c1" "\<not> cmd_open c1"
    using put_cqe_total [OF Cons.prems(1) c Cons.prems(2,3)] by blast
  have "same_queues u u1" using u1(2) by (simp add: closes_def)
  then obtain usq1 where usq1: "sq_at qid u1 = Some usq1" "sq_shape usq1 = sq_shape usq"
    using Cons.prems(2) by (rule same_queues_at)
  have "\<forall>r\<in>set rs. command (qid, r) u1 \<noteq> None"
    using Cons.prems(4) closes_command_None [OF u1(2)] by auto
  then obtain u' where u': "put_cqes io qid rs u1 = Some (Ok (), u')" "closes u1 u'"
    "\<forall>r\<in>set rs. \<exists>c. command (qid, r) u' = Some c \<and> \<not> cmd_open c"
    using Cons.IH [OF closes_cancellable [OF u1(2) Cons.prems(1)] usq1(1)] sq_shape_fields(1) [OF usq1(2)]
      Cons.prems(3) by auto
  moreover have "command (qid, r) u' = Some c1" by (rule closes_closed [OF u'(2) u1(3,4)])
  ultimately show ?case using u1 closes_trans [OF u1(2) u'(2)] by auto
qed


lemma put_cqes_append:
  "put_cqes io qid (xs @ ys) u = thenb (put_cqes io qid xs u) (\<lambda>_ u1. put_cqes io qid ys u1)"
  by (induction xs arbitrary: u) (auto simp: thenb_def split: option.splits outcome.splits)

lemma scan_entries:
  "scan_cqes fuel q head phase = Some (Ok (cqes, r)) \<Longrightarrow> set cqes \<subseteq> set (ncq_entries q)"
proof (induction fuel arbitrary: head phase cqes r)
  case (Suc fuel)
  show ?case
  proof (cases "head < length (ncq_entries q) \<and> sfp (ncq_entries q ! head) AND 1 \<noteq> ucast phase")
    case True
    then obtain head1 phase1 cqes1 r1 where "scan_cqes fuel q head1 phase1 = Some (Ok (cqes1, r1))"
      "cqes = ncq_entries q ! head # cqes1"
      using Suc.prems by (auto split: if_splits option.splits outcome.splits)
    with Suc.IH True show ?thesis by auto
  next
    case False
    with Suc.prems show ?thesis by (auto simp: nth_opt_def split: if_splits)
  qed
qed simp

text \<open>A bound queue with its completion ring.\<close>

definition bound_ring :: "nat \<Rightarrow> nvme_cq \<Rightarrow> ('m, 'r, 'z) unvme_scheme \<Rightarrow> 'r unvme_sq \<Rightarrow> bool" where
  "bound_ring qid q u usq \<longleftrightarrow> sq_at qid u = Some usq \<and> sq_q usq \<noteq> None \<and> ring_ok q
     \<and> (\<exists>ucq. nth_opt (cqs u) (sq_ucq usq) = Some (Some ucq) \<and> cq_q ucq = Some q)
     \<and> (\<forall>cqe\<in>set (ncq_entries q). addressed cqe u)"

lemma cancel_sq_ring:
  assumes "cancellable u" and "bound_ring qid q u usq"
  shows "\<exists>u1 u2. unvmed_cancel_sq io qid u = put_cqes io qid (map Slot [0..<sq_qsize usq - 1] @ [Conflict]) u2
    \<and> closes u u1 \<and> sqs u2 = sqs u1"
proof -
  obtain ucq where ring: "sq_at qid u = Some usq" "nth_opt (cqs u) (sq_ucq usq) = Some (Some ucq)"
    "cq_q ucq = Some q" "ring_ok q" using assms(2) by (auto simp: bound_ring_def)
  obtain cqes head phase where scan:
    "scan_cqes (2 * ncq_qsize q + 2) q (ncq_head q) (ncq_phase q) = Some (Ok (cqes, head, phase))"
    using scan_run [OF ring(4)] by blast
  have "\<forall>cqe\<in>set cqes. addressed cqe u"
    using scan_entries [OF scan] assms(2) by (auto simp: bound_ring_def)
  then obtain u1 where u1: "complete_all cqes u = Some (Ok (), u1)" "closes u u1"
    using complete_all_total [OF assms(1)] by blast
  let ?u2 = "cq_store (sq_ucq usq) (ucq\<lparr>cq_q := Some (q\<lparr>ncq_head := head, ncq_phase := phase\<rparr>)\<rparr>) u1"
  have "unvmed_cancel_sq io qid u = put_cqes io qid (map Slot [0..<sq_qsize usq - 1] @ [Conflict]) ?u2"
    unfolding unvmed_cancel_sq_def ring(1) option.case
    using ring u1 scan by (simp del: scan_cqes.simps add: nth_opt_in)
  moreover have "sqs ?u2 = sqs u1" by (simp add: cq_store_def)
  ultimately show ?thesis using u1(2) by blast
qed


lemma command_slot: "sq_at qid u = Some usq \<Longrightarrow> command (qid, Slot i) u = nth_opt (sq_cmds usq) i"
  "sq_at qid u = Some usq \<Longrightarrow> command (qid, Conflict) u = Some (sq_conflict usq)"
  by (simp_all add: command_def)

lemma cancellable_sqs: "sqs u' = sqs u \<Longrightarrow> cancellable u' \<longleftrightarrow> cancellable u"
  unfolding cancellable_def command_def sq_at_def by simp

lemma cancel_ready:
  assumes "cancellable u" and "closes u u1" and "sqs u2 = sqs u1" and "sq_at qid u = Some usq"
  obtains usq2 where "cancellable u2" and "sq_at qid u2 = Some usq2" and "sq_shape usq2 = sq_shape usq"
    and "\<And>p. command p u2 = command p u1"
proof -
  have "same_queues u u1" using assms(2) by (simp add: closes_def)
  then obtain usq1 where "sq_at qid u1 = Some usq1" "sq_shape usq1 = sq_shape usq"
    using assms(4) by (rule same_queues_at)
  moreover have "cancellable u2"
    using closes_cancellable [OF assms(2,1)] cancellable_sqs [OF assms(3)] by simp
  ultimately show thesis
    using that command_sqs [OF assms(3)] by (metis command_sqs(2) [OF assms(3)])
qed

text \<open>
  The completion that is due to a submitted command of a list of completions: of those with its
  queue and identifier the first, or for the conflict slot the second if the slot of the identifier has a
  submitted command too.
\<close>

definition own_cid :: "cmd_ref \<Rightarrow> unvme_cmd \<Rightarrow> nat" where
  "own_cid r c = (case r of Slot i \<Rightarrow> i | Conflict \<Rightarrow> unat (c_cid c))"

definition hits :: "nat \<Rightarrow> nat \<Rightarrow> nvme_cqe list \<Rightarrow> nvme_cqe list" where
  "hits qid cid cqes = filter (\<lambda>e. unat (sqid e) = qid \<and> unat (cqe_cid e) = cid) cqes"

definition due :: "nat \<Rightarrow> cmd_ref \<Rightarrow> nvme_cqe list \<Rightarrow> ('m, 'r, 'z) unvme_scheme \<Rightarrow> nvme_cqe option" where
  "due qid r cqes u =
     (case command (qid, r) u of
        None \<Rightarrow> None
      | Some c \<Rightarrow>
          if unvmed_sq_find qid u = None \<or> c_state c \<noteq> UNVME_CMD_S_SUBMITTED then None
          else nth_opt (hits qid (own_cid r c) cqes)
                 (if r = Conflict \<and> submitted (qid, Slot (own_cid r c)) u then 1 else 0))"

lemma hits_Cons:
  "hits qid cid (e # es) = (if unat (sqid e) = qid \<and> unat (cqe_cid e) = cid then e # hits qid cid es else hits qid cid es)"
  by (simp add: hits_def)

lemma due_skip:
  assumes "unvmed_get_cmd_on_reaper cqe u = Ok None"
  shows "due qid r (cqe # cqes) u = due qid r cqes u"
proof (cases "command (qid, r) u")
  case (Some c)
  show ?thesis
  proof (cases "unat (sqid cqe) = qid \<and> unat (cqe_cid cqe) = own_cid r c")
    case True
    have "c_state c \<noteq> UNVME_CMD_S_SUBMITTED" if find: "unvmed_sq_find qid u \<noteq> None"
    proof -
      obtain usq where usq: "unvmed_sq_find qid u = Some usq" using find by blast
      note c = Some [unfolded command_of_find [OF usq]]
      show ?thesis
      proof (cases r)
        case (Slot i)
        then show ?thesis
          using assms usq c True
          by (auto simp: unvmed_get_cmd_on_reaper_def own_cid_def split: option.splits if_splits)
      next
        case Conflict
        then have "c = sq_conflict usq" "c_cid c = cqe_cid cqe" using c True by (simp_all add: own_cid_def word_unat_eq_iff)
        then show ?thesis
          using assms usq True by (auto simp: unvmed_get_cmd_on_reaper_def split: option.splits if_splits)
      qed
    qed
    then show ?thesis using Some by (auto simp: due_def)
  next
    case False
    then have "hits qid (own_cid r c) (cqe # cqes) = hits qid (own_cid r c) cqes" unfolding hits_Cons by (rule if_not_P)
    then show ?thesis using Some by (simp add: due_def)
  qed
qed (simp add: due_def)

lemma due_step:
  assumes look: "unvmed_get_cmd_on_reaper cqe u = Ok (Some p)"
    and c: "command p u = Some c" and same: "same_queues u u1"
    and u1: "\<And>p'. command p' u1 = (if p' = p then Some (cmd_after cqe c) else command p' u)"
  shows "(qid, r) = p \<Longrightarrow> due qid r (cqe # cqes) u = Some cqe \<and> due qid r cqes u1 = None"
    and "(qid, r) \<noteq> p \<Longrightarrow> due qid r (cqe # cqes) u = due qid r cqes u1"
proof -
  have res: "resolve cqe u = Some p" using look reaper_resolve(1) [OF reaper_some [OF look]] by simp
  have find: "unvmed_sq_find (unat (sqid cqe)) u \<noteq> None" by (rule reaper_some(1) [OF look])
  have sub: "submitted p' u1 \<longleftrightarrow> submitted p' u \<and> p' \<noteq> p" for p'
    using u1 [of p'] by (auto simp: submitted_def)
  have cases: "p = (unat (sqid cqe), Slot (unat (cqe_cid cqe))) \<and> submitted p u
    \<or> p = (unat (sqid cqe), Conflict) \<and> submitted p u \<and> c_cid c = cqe_cid cqe
        \<and> \<not> submitted (unat (sqid cqe), Slot (unat (cqe_cid cqe))) u"
    using res c by (auto simp: resolve_def Let_def split: if_splits)
  then have subp: "submitted p u" by blast
  have cs: "c_state c = UNVME_CMD_S_SUBMITTED" using cases c by (auto simp: submitted_def)
  show "due qid r (cqe # cqes) u = Some cqe \<and> due qid r cqes u1 = None" if "(qid, r) = p"
  proof
    show "due qid r cqes u1 = None" using u1 [of p] that by (simp add: due_def)
    have hit: "unat (sqid cqe) = qid \<and> unat (cqe_cid cqe) = own_cid r c"
      using cases that by (auto simp: own_cid_def)
    have "\<not> (r = Conflict \<and> submitted (qid, Slot (own_cid r c)) u)"
      using cases that hit by auto
    then show "due qid r (cqe # cqes) u = Some cqe"
      using that c cs find hit by (auto simp: due_def hits_Cons)
  qed
  show "due qid r (cqe # cqes) u = due qid r cqes u1" if "(qid, r) \<noteq> p"
  proof -
    have same_cmd: "command (qid, r) u1 = command (qid, r) u" using u1 that by simp
    show ?thesis
    proof (cases "command (qid, r) u")
      case (Some d)
      show ?thesis
      proof (cases "unvmed_sq_find qid u = None \<or> c_state d \<noteq> UNVME_CMD_S_SUBMITTED")
        case True
        then show ?thesis using Some same_cmd same_queues_find [OF same] by (simp add: due_def)
      next
        case False
        then have "submitted (qid, r) u" using Some by (simp add: submitted_def)
        then have hit: "unat (sqid cqe) = qid \<and> unat (cqe_cid cqe) = own_cid r d \<longleftrightarrow> p = (qid, Slot (own_cid r d)) \<and> r = Conflict"
          using cases that Some c by (cases r) (auto simp: own_cid_def)
        with False show ?thesis
          using Some same_cmd same_queues_find [OF same] hit sub [of "(qid, Slot (own_cid r d))"] subp
          by (cases r) (auto simp: due_def hits_Cons nth_opt_def)
      qed
    qed (simp add: due_def same_cmd)
  qed
qed

text \<open>Completing a list of completions gives every command the completion that is due to it, and nothing else.\<close>

lemma complete_all_due:
  assumes "complete_all cqes u = Some (Ok (), u')"
  shows "same_queues u u' \<and> command (qid, r) u' =
    (case due qid r cqes u of None \<Rightarrow> command (qid, r) u | Some e \<Rightarrow> map_option (cmd_after e) (command (qid, r) u))"
  using assms
proof (induction cqes arbitrary: u)
  case Nil
  have "due qid r [] u = None" by (simp add: due_def hits_def nth_opt_def split: option.splits)
  with Nil show ?case by simp
next
  case (Cons cqe cqes)
  then consider "unvmed_get_cmd_on_reaper cqe u = Ok None" "complete_all cqes u = Some (Ok (), u')"
    | p u1 where "unvmed_get_cmd_on_reaper cqe u = Ok (Some p)" "unvmed_cmd_cmpl p cqe u = Some (Ok (), u1)"
      "complete_all cqes u1 = Some (Ok (), u')"
    by (auto simp: thenb_Ok split: outcome.splits option.splits)
  then show ?case
  proof cases
    case 1
    with Cons.IH [of u] due_skip [OF 1(1)] show ?thesis by simp
  next
    case 2
    obtain c where c: "command p u = Some c" using reaper_submitted [OF 2(1)] by (auto simp: submitted_def)
    note step = cmd_cmpl_Ok(1,2) [OF c 2(2)]
    note ih = Cons.IH [OF 2(3)] and due = due_step [OF 2(1) c step(2,1), of qid r cqes]
    show ?thesis
    proof (cases "(qid, r) = p")
      case True
      then show ?thesis using ih due(1) [OF True] step same_queues_trans [OF step(2)] c by simp
    next
      case False
      then have "command (qid, r) u1 = command (qid, r) u" using step(1) by simp
      then show ?thesis using ih due(2) [OF False] same_queues_trans [OF step(2)] by (simp split: option.split)
    qed
  qed
qed

text \<open>The completion that says that the host aborted a command.\<close>

definition abort_cqe :: "'r io_env \<Rightarrow> nat \<Rightarrow> unvme_cmd \<Rightarrow> nvme_cqe" where
  "abort_cqe io sq_nr c = \<lparr>qw0 = 0, sqhd = 0, sqid = word_of_nat sq_nr, cqe_cid = c_cid c,
     sfp = push_bit 1 (push_bit (io_sct_shift io) (io_sct_path io) OR io_sc_abort io)\<rparr>"

lemma put_cqe_exact:
  assumes "unvmed_put_cqe_u2 io (qid, r) u = Some (Ok (), u')" and "sq_at qid u = Some usq" and "sq_q usq = Some sq"
  shows "same_queues u u' \<and> command p u' = (if p = (qid, r)
    then map_option (\<lambda>c. if cmd_open c then cmd_after (abort_cqe io (nsq_id sq) c) c else c) (command p u) else command p u)"
proof -
  obtain c where c: "command (qid, r) u = Some c" using assms(1) by (auto simp: unvmed_put_cqe_u2_def split: option.splits)
  show ?thesis
  proof (cases "cmd_open c")
    case False
    with c assms(1) show ?thesis by (auto simp: unvmed_put_cqe_u2_def cmd_open_def)
  next
    case True
    then have put: "unvmed_put_cqe io (qid, r) u = Some (Ok (), u')"
      using c assms(1) by (auto simp: unvmed_put_cqe_u2_def cmd_open_def)
    then obtain rq where "c_rq c = Some rq"
      using c assms(2,3) by (cases "c_rq c") (simp_all add: unvmed_put_cqe_def)
    then have "unvmed_put_cqe io (qid, r) u = unvmed_cmd_cmpl (qid, r) (abort_cqe io (nsq_id sq) c) u"
      unfolding unvmed_put_cqe_def abort_cqe_def Let_def using c assms(2,3) by simp
    with put have "unvmed_cmd_cmpl (qid, r) (abort_cqe io (nsq_id sq) c) u = Some (Ok (), u')" by simp
    from cmd_cmpl_Ok(1,2) [OF c this] True c show ?thesis by simp
  qed
qed

lemma put_cqes_exact:
  assumes "put_cqes io qid rs u = Some (Ok (), u')" and "sq_at qid u = Some usq" and "sq_q usq = Some sq" and "distinct rs"
  shows "command (qid, r) u' = (if r \<in> set rs
    then map_option (\<lambda>c. if cmd_open c then cmd_after (abort_cqe io (nsq_id sq) c) c else c) (command (qid, r) u) else command (qid, r) u)"
  using assms
proof (induction rs arbitrary: u usq)
  case (Cons x rs)
  then obtain u1 where u1: "unvmed_put_cqe_u2 io (qid, x) u = Some (Ok (), u1)" "put_cqes io qid rs u1 = Some (Ok (), u')"
    by (auto simp: thenb_Ok)
  note one = put_cqe_exact [OF u1(1) Cons.prems(2,3), of "(qid, r)"]
  obtain usq1 where usq1: "sq_at qid u1 = Some usq1" "sq_shape usq1 = sq_shape usq"
    using same_queues_at [OF one [THEN conjunct1] Cons.prems(2)] .
  have "sq_q usq1 = Some sq" using sq_shape_fields(1) [OF usq1(2)] Cons.prems(3) by simp
  from Cons.IH [OF u1(2) usq1(1) this] one Cons.prems(4) show ?case by auto
qed simp

lemma cancel_sq_run:
  assumes "bound_ring qid q u usq" and "unvmed_cancel_sq io qid u = Some (Ok (), u')"
  obtains u1 u2 where "complete_all (ring_pending q) u = Some (Ok (), u1)" and "sqs u2 = sqs u1"
    and "put_cqes io qid (map Slot [0..<sq_qsize usq - 1] @ [Conflict]) u2 = Some (Ok (), u')"
proof -
  obtain ucq where ring: "sq_at qid u = Some usq" "nth_opt (cqs u) (sq_ucq usq) = Some (Some ucq)"
    "cq_q ucq = Some q" "ring_ok q" using assms(1) by (auto simp: bound_ring_def)
  obtain head phase where scan:
    "scan_cqes (2 * ncq_qsize q + 2) q (ncq_head q) (ncq_phase q) = Some (Ok (ring_pending q, head, phase))"
    using scan_pending [OF ring(4)] by blast
  from assms(2) obtain u1 where "complete_all (ring_pending q) u = Some (Ok (), u1)"
    "put_cqes io qid (map Slot [0..<sq_qsize usq - 1] @ [Conflict])
       (cq_store (sq_ucq usq) (ucq\<lparr>cq_q := Some (q\<lparr>ncq_head := head, ncq_phase := phase\<rparr>)\<rparr>) u1) = Some (Ok (), u')"
    unfolding unvmed_cancel_sq_def ring(1) option.case
    using ring scan by (auto simp del: scan_cqes.simps simp add: nth_opt_in thenb_Ok)
  then show thesis by (intro that) (simp_all add: cq_store_def)
qed

lemma cancel_sq_returns:
  assumes "cancellable u" and "bound_ring qid q u usq" and "sq_qsize usq - 1 \<le> length (sq_cmds usq)"
  shows "\<exists>u'. unvmed_cancel_sq io qid u = Some (Ok (), u')"
proof -
  obtain u1 u2 where run: "unvmed_cancel_sq io qid u = put_cqes io qid (map Slot [0..<sq_qsize usq - 1] @ [Conflict]) u2"
    and u1: "closes u u1" and sqs: "sqs u2 = sqs u1" using cancel_sq_ring [OF assms(1,2)] by blast
  have at: "sq_at qid u = Some usq" "sq_q usq \<noteq> None" using assms(2) by (auto simp: bound_ring_def)
  obtain usq2 where u2: "cancellable u2" "sq_at qid u2 = Some usq2" "sq_shape usq2 = sq_shape usq"
    using cancel_ready [OF assms(1) u1 sqs at(1)] by blast
  have "\<forall>r\<in>set (map Slot [0..<sq_qsize usq - 1] @ [Conflict]). command (qid, r) u2 \<noteq> None"
    using command_slot [OF u2(2)] sq_shape_fields(4) [OF u2(3)] assms(3) by auto
  then obtain u' where "put_cqes io qid (map Slot [0..<sq_qsize usq - 1] @ [Conflict]) u2 = Some (Ok (), u')"
    using put_cqes_total [OF u2(1,2), of _ io] sq_shape_fields(1) [OF u2(3)] at(2) by metis
  with run show ?thesis by simp
qed

text \<open>C34. Cancelling a submission queue that is bound to a completion ring, whose entries have identifiers inside
  the arrays of their queues. It returns when every submitted or allocated command of the controller
  has its request, an opcode below 255 and is waited for or has no virtual queue, and the array of
  commands is long enough for the size of the queue. Whenever it returns without error, each command of
  a slot below that size and of the conflict slot is, if it was submitted and the ring had a new
  entry for it, completed with that entry; if it was submitted or allocated otherwise, with the
  entry of its identifier that says that the host aborted it; and unchanged if it was neither. A
  command that is waited for has that entry then and its waiter is woken.
\<close>

theorem cancel_sq_closes:
  assumes ring: "bound_ring qid q u usq" and sq: "sq_q usq = Some sq"
  shows "(cancellable u \<and> sq_qsize usq - 1 \<le> length (sq_cmds usq) \<longrightarrow> (\<exists>u'. unvmed_cancel_sq io qid u = Some (Ok (), u')))
    \<and> (\<forall>u' r c. unvmed_cancel_sq io qid u = Some (Ok (), u') \<and> command (qid, r) u = Some c
         \<and> (r = Conflict \<or> (\<exists>i < sq_qsize usq - 1. r = Slot i)) \<longrightarrow>
         command (qid, r) u' = Some (
           case due qid r (ring_pending q) u of
             Some cqe \<Rightarrow> cmd_after cqe c
           | None \<Rightarrow> if cmd_open c then cmd_after (abort_cqe io (nsq_id sq) c) c else c))"
proof (intro conjI impI allI)
  show "\<exists>u'. unvmed_cancel_sq io qid u = Some (Ok (), u')" if "cancellable u \<and> sq_qsize usq - 1 \<le> length (sq_cmds usq)"
    using cancel_sq_returns [OF _ ring] that by blast
next
  fix u' r c
  assume asm: "unvmed_cancel_sq io qid u = Some (Ok (), u') \<and> command (qid, r) u = Some c
    \<and> (r = Conflict \<or> (\<exists>i < sq_qsize usq - 1. r = Slot i))"
  then obtain u1 u2 where run: "complete_all (ring_pending q) u = Some (Ok (), u1)" "sqs u2 = sqs u1"
    "put_cqes io qid (map Slot [0..<sq_qsize usq - 1] @ [Conflict]) u2 = Some (Ok (), u')"
    using cancel_sq_run [OF ring] by metis
  note due = complete_all_due [OF run(1), of qid r]
  have "sq_at qid u = Some usq" using ring by (simp add: bound_ring_def)
  then obtain usq1 where usq1: "sq_at qid u1 = Some usq1" "sq_shape usq1 = sq_shape usq"
    by (rule same_queues_at [OF due [THEN conjunct1]])
  have u2: "sq_at qid u2 = Some usq1" "command (qid, r) u2 = command (qid, r) u1"
    using usq1(1) command_sqs [OF run(2)] by simp_all
  have "sq_q usq1 = Some sq" using sq_shape_fields(1) [OF usq1(2)] sq by simp
  moreover have "distinct (map Slot [0..<sq_qsize usq - 1] @ [Conflict])" by (auto simp: distinct_map inj_on_def)
  moreover have "r \<in> set (map Slot [0..<sq_qsize usq - 1] @ [Conflict])" using asm by auto
  ultimately have "command (qid, r) u' =
      map_option (\<lambda>c. if cmd_open c then cmd_after (abort_cqe io (nsq_id sq) c) c else c) (command (qid, r) u1)"
    using put_cqes_exact [OF run(3) u2(1), of sq r] u2(2) by simp
  then show "command (qid, r) u' = Some (case due qid r (ring_pending q) u of
      Some cqe \<Rightarrow> cmd_after cqe c | None \<Rightarrow> if cmd_open c then cmd_after (abort_cqe io (nsq_id sq) c) c else c)"
    using due asm by (auto split: option.splits)
qed

text \<open>When a queue instance survived a reset and its queue was created again with more entries,
  its command array is shorter than its size, and cancelling it runs past the array.
\<close>

theorem cancel_sq_overrun:
  assumes "cancellable u" and "bound_ring qid q u usq" and "length (sq_cmds usq) < sq_qsize usq - 1"
  shows "\<exists>u'. unvmed_cancel_sq io qid u = Some (Fault, u')"
proof -
  obtain u1 u2 where run: "unvmed_cancel_sq io qid u = put_cqes io qid (map Slot [0..<sq_qsize usq - 1] @ [Conflict]) u2"
    and u1: "closes u u1" and sqs: "sqs u2 = sqs u1" using cancel_sq_ring [OF assms(1,2)] by blast
  have at: "sq_at qid u = Some usq" "sq_q usq \<noteq> None" using assms(2) by (auto simp: bound_ring_def)
  obtain usq2 where u2: "cancellable u2" "sq_at qid u2 = Some usq2" "sq_shape usq2 = sq_shape usq"
    using cancel_ready [OF assms(1) u1 sqs at(1)] by blast
  let ?n = "length (sq_cmds usq)"
  have len: "length (sq_cmds usq2) = ?n" by (rule sq_shape_fields(4) [OF u2(3)])
  have "\<forall>r\<in>set (map Slot [0..<?n]). command (qid, r) u2 \<noteq> None"
    using command_slot [OF u2(2)] len by auto
  then obtain u' where u': "put_cqes io qid (map Slot [0..<?n]) u2 = Some (Ok (), u')" "closes u2 u'"
    using put_cqes_total [OF u2(1,2)] sq_shape_fields(1) [OF u2(3)] at(2) by metis
  have none: "command (qid, Slot ?n) u' = None"
    using closes_command_None [OF u'(2)] command_slot(1) [OF u2(2), of ?n] len by simp
  have "map Slot [0..<sq_qsize usq - 1] = map Slot [0..<?n] @ Slot ?n # map Slot [Suc ?n..<sq_qsize usq - 1]"
    using assms(3) by (metis list.simps(9) less_imp_le_nat map_append upt_add_eq_append upt_conv_Cons le_add_diff_inverse zero_le)
  with run u'(1) none show ?thesis by (auto simp: put_cqes_append unvmed_put_cqe_u2_def)
qed


subsection \<open>Doorbell and status\<close>

text \<open>The number of posted entries the device has not been told of is the distance from the
  tail last written to the doorbell to the tail, around the ring; writing the doorbell, which makes
  the two equal, tells the device of exactly those, leaves none pending, and a second call writes
  nothing.
\<close>

theorem doorbell_pending:
  assumes at: "sq_at qid u = Some usq" "sq_q usq = Some q"
    and ring: "unat (nsq_tail q) < nsq_qsize q" "unat (nsq_ptail q) < nsq_qsize q"
    and bell: "\<And>q. sq_ring (io_sq io) q = q\<lparr>nsq_ptail := nsq_tail q\<rparr>"
  shows "\<exists>u'. unvmed_sq_update_tail io qid u =
       (Ok (int (ring_count (nsq_qsize q) (unat (nsq_ptail q)) (unat (nsq_tail q)))), u')
     \<and> unvmed_sq_update_tail io qid u' = (Ok 0, u')"
proof -
  let ?n = "unvmed_sq_nr_pending_sqes q" and ?q = "q\<lparr>nsq_ptail := nsq_tail q\<rparr>"
  have count: "?n = int (ring_count (nsq_qsize q) (unat (nsq_ptail q)) (unat (nsq_tail q)))"
    using ring by (auto simp: unvmed_sq_nr_pending_sqes_def ring_count_def word_le_nat_alt of_nat_diff
        uint_nat [symmetric] simp flip: uint_nat)
  have zero: "unvmed_sq_nr_pending_sqes ?q = 0" by (simp add: unvmed_sq_nr_pending_sqes_def)
  have bound: "qid < length (sqs u)" by (rule sq_at_bound [OF at(1)])
  show ?thesis
  proof (cases "?n = 0")
    case True with at count show ?thesis by (simp add: unvmed_sq_update_tail_def)
  next
    case False
    have "sq_at qid (sq_store qid (usq\<lparr>sq_q := Some ?q\<rparr>) u) = Some (usq\<lparr>sq_q := Some ?q\<rparr>)"
      using bound by (simp add: sq_at_store)
    with False at count bell zero show ?thesis by (simp add: unvmed_sq_update_tail_def)
  qed
qed

lemma status_split:
  fixes s :: u16
  shows "unat (take_bit 8 (drop_bit 8 s)) = unat s div 256" "unat (s AND 0xff) = unat s mod 256"
proof -
  have lt: "unat s < 65536" by (rule unat_lt_u16)
  have "unat (take_bit 8 (drop_bit 8 s)) = take_bit 8 (drop_bit 8 (unat s))"
    by (simp only: unsigned_take_bit_eq unat_drop_bit_eq)
  also have "\<dots> = unat s div 256" using lt by (simp add: take_bit_eq_mod drop_bit_eq_div)
  finally show "unat (take_bit 8 (drop_bit 8 s)) = unat s div 256" .
  have "s AND 0xff = take_bit 8 s" by (simp add: take_bit_eq_mask mask_eq_exp_minus_1)
  then have "unat (s AND 0xff) = take_bit 8 (unat s)" by (simp only: unsigned_take_bit_eq)
  then show "unat (s AND 0xff) = unat s mod 256" by (simp add: take_bit_eq_mod)
qed

lemma nat_bytes: "n div 256 = 6 \<and> n mod 256 = 1 \<longleftrightarrow> n = (1537 :: nat)"
proof
  assume byte: "n div 256 = 6 \<and> n mod 256 = 1"
  have "n div 256 * 256 + n mod 256 = n" by (rule div_mult_mod_eq)
  then show "n = 1537" unfolding byte [THEN conjunct1] byte [THEN conjunct2] by simp
qed simp

lemma status_field:
  fixes status :: u16
  assumes "status < 0x8000"
  shows "drop_bit 1 (push_bit 1 status OR of_bool p) = status"
proof -
  have s: "unat status < 32768" using assms by (simp add: word_less_nat_alt)
  have "push_bit 1 status OR of_bool p = 2 * status + of_bool p"
    by (cases p) (simp_all add: push_bit_double or_one_eq)
  moreover have "unat (2 * status + of_bool p) = 2 * unat status + of_bool p"
    using s by (cases p) (simp_all add: unat_word_ariths)
  moreover have "(2 * n + of_bool p) div 2 = n" for n :: nat by (cases p) simp_all
  moreover have "unat (drop_bit 1 w) = unat w div 2" for w :: u16
    by (simp only: unat_drop_bit_eq) (simp add: drop_bit_eq_div)
  ultimately have "unat (drop_bit 1 (push_bit 1 status OR of_bool p)) = unat status" by (simp only:)
  then show ?thesis by (simp only: word_unat_eq_iff)
qed

text \<open>The status of a completion is what was put there, for every status of 15 bits; the one
  status that the timeout handler writes comes out as a timeout error, and no other does.
\<close>

theorem cqe_status_roundtrip:
  assumes "status < 0x8000" and "sfp cqe = push_bit 1 status OR of_bool phase"
  shows "unvmed_cqe_status cqe =
    (if status = push_bit 8 NVME_SCT_UNVME OR NVME_SC_UNVME_TIMED_OUT then Inl ETIMEDOUT else Inr status)"
proof -
  have "status = 0x601 \<longleftrightarrow> unat status = 1537" by (simp add: word_unat_eq_iff)
  also have "\<dots> \<longleftrightarrow> unat status div 256 = 6 \<and> unat status mod 256 = 1"
    by (rule nat_bytes [symmetric])
  also have "\<dots> \<longleftrightarrow> take_bit 8 (drop_bit 8 status) = 6 \<and> status AND 0xff = 1"
    unfolding word_unat_eq_iff [of "take_bit 8 (drop_bit 8 status)"] word_unat_eq_iff [of "status AND 0xff"]
      status_split by simp
  finally have "status = 0x601 \<longleftrightarrow> take_bit 8 (drop_bit 8 status) = 6 \<and> status AND 0xff = 1" .
  moreover have "push_bit 8 NVME_SCT_UNVME OR NVME_SC_UNVME_TIMED_OUT = 0x601"
    by (simp add: NVME_SCT_UNVME_def NVME_SC_UNVME_TIMED_OUT_def)
  moreover have "drop_bit 1 (sfp cqe) = status" using status_field [OF assms(1)] assms(2) by simp
  ultimately show ?thesis
    unfolding unvmed_cqe_status_def Let_def NVME_SCT_UNVME_def NVME_SC_UNVME_TIMED_OUT_def by simp
qed

subsection \<open>Witnesses\<close>

text \<open>A queue of \<open>n\<close> entries with a submitted command that somebody waits for in slot 0.\<close>

definition busy_cmd :: unvme_cmd where
  "busy_cmd = zero_cmd\<lparr>c_bound := True, c_refcnt := 1, c_state := UNVME_CMD_S_SUBMITTED,
     c_flags := UNVMED_CMD_F_WAKEUP_ON_CQE, c_rq := Some 1\<rparr>"

definition busy_usq :: "nat \<Rightarrow> nat list unvme_sq" where
  "busy_usq n = sample_usq\<lparr>sq_qsize := n, sq_cmds := [busy_cmd, zero_cmd, zero_cmd]\<rparr>"

definition busy_u :: "nat \<Rightarrow> (nat set, nat list) unvme" where
  "busy_u n = sample_u\<lparr>sqs := [None, Some (busy_usq n), None]\<rparr>"

definition busy_cqe :: nvme_cqe where
  "busy_cqe = zero_cqe\<lparr>sqid := 1\<rparr>"

lemma busy_at: "sq_at q (busy_u n) = Some usq \<longleftrightarrow> q = 1 \<and> usq = busy_usq n"
  by (auto simp: sq_at_nth busy_u_def nth_Cons less_Suc_eq split: nat.splits)

lemma busy_find: "unvmed_sq_find 1 (busy_u n) = Some (busy_usq n)" "unvmed_sq_find 0 (busy_u n) = None"
  by (simp_all add: unvmed_sq_find_def busy_u_def busy_usq_def sample_usq_def)

lemma busy_command: "command (1, Slot 0) (busy_u n) = Some busy_cmd"
proof -
  have "sq_at 1 (busy_u n) = Some (busy_usq n)" by (simp add: busy_at)
  then show ?thesis by (simp add: command_def busy_usq_def)
qed

lemma busy_cmd_open: "cmd_open busy_cmd" "c_flags busy_cmd AND UNVMED_CMD_F_WAKEUP_ON_CQE \<noteq> 0"
  by (simp_all add: cmd_open_def busy_cmd_def UNVMED_CMD_F_WAKEUP_ON_CQE_def)

lemma busy_cancellable: "cancellable (busy_u n)"
proof -
  have "c = busy_cmd \<or> c = zero_cmd" if "command p (busy_u n) = Some c" for p c
  proof -
    have "cmd_at (busy_usq n) (snd p) = Some c"
      using that by (auto simp: command_def busy_at split: option.splits)
    then show ?thesis
      by (cases "snd p") (auto simp: busy_usq_def sample_usq_def nth_Cons less_Suc_eq split: nat.splits)
  qed
  moreover have "\<not> cmd_open zero_cmd" by (simp add: cmd_open_def zero_cmd_def)
  moreover have "length (sq_cmd_count (busy_usq n)) = 255" by (simp add: busy_usq_def sample_usq_def)
  moreover have "c_rq busy_cmd \<noteq> None" "unat (sqe_opcode (c_sqe busy_cmd)) < 255"
    by (simp_all add: busy_cmd_def zero_cmd_def zero_sqe_def)
  ultimately show ?thesis unfolding cancellable_def using busy_cmd_open(2) busy_at by metis
qed

lemma busy_ring: "bound_ring 1 sample_nvme_cq (busy_u n) (busy_usq n)"
proof -
  have at: "sq_at 1 (busy_u n) = Some (busy_usq n)" by (simp add: busy_at)
  have "addressed zero_cqe (busy_u n)" using busy_find(2) by (simp add: addressed_def zero_cqe_def)
  then have "\<forall>cqe\<in>set (ncq_entries sample_nvme_cq). addressed cqe (busy_u n)"
    by (simp add: sample_nvme_cq_def)
  moreover have "sq_q (busy_usq n) \<noteq> None" "sq_ucq (busy_usq n) = 1" by (simp_all add: busy_usq_def sample_usq_def)
  moreover have "nth_opt (cqs (busy_u n)) 1 = Some (Some sample_ucq)" by (simp add: busy_u_def)
  moreover have "ring_ok sample_nvme_cq" "cq_q sample_ucq = Some sample_nvme_cq"
    by (simp_all add: ring_ok_def sample_nvme_cq_def sample_ucq_def)
  ultimately show ?thesis unfolding bound_ring_def using at by metis
qed

lemma busy_lookup: "unvmed_get_cmd_on_reaper busy_cqe (busy_u n) = Ok (Some (1, Slot 0))"
proof -
  have addr: "unat (sqid busy_cqe) = 1" "unat (cqe_cid busy_cqe) = 0" by (simp_all add: busy_cqe_def zero_cqe_def)
  have "resolve busy_cqe (busy_u n) = Some (1, Slot 0)"
    using busy_command [of n] by (simp add: resolve_def addr Let_def submitted_def) (simp add: busy_cmd_def)
  with reaper_resolve(1) [of busy_cqe "busy_u n"] show ?thesis 
    using busy_find(1) [of n] busy_command [of n] by (simp add: addr)
qed

theorem completion_once_witness:
  "\<exists>u'. unvmed_cmd_cmpl (1, Slot 0) busy_cqe (busy_u 4) = Some (Ok (), u')
     \<and> unvmed_get_cmd_on_reaper busy_cqe u' = Ok None"
proof -
  obtain u' where u': "unvmed_cmd_cmpl (1, Slot 0) busy_cqe (busy_u 4) = Some (Ok (), u')"
    using cmpl_total [OF busy_cancellable busy_command busy_cmd_open(1)] by blast
  have "command (1, Conflict) (busy_u 4) = Some zero_cmd"
    using command_slot(2) [of 1 "busy_u 4"] by (simp add: busy_at busy_usq_def sample_usq_def)
  with completion_once [OF busy_lookup u', THEN conjunct2] u' show ?thesis
    by (simp add: submitted_def zero_cmd_def)
qed

theorem scan_terminates_witness:
  "\<exists>cqes head phase. scan_cqes 10 sample_nvme_cq 0 0 = Some (Ok (cqes, head, phase)) \<and> length cqes \<le> 8
     \<and> head < 4 \<and> phase \<in> {0, 1}"
  using scan_terminates [of sample_nvme_cq] by (simp add: sample_nvme_cq_def)

lemma busy_sq: "sq_q (busy_usq n) = sq_q sample_usq" "sq_q sample_usq \<noteq> None"
  by (simp_all add: busy_usq_def sample_usq_def)

theorem cancel_sq_closes_witness:
  "\<forall>io. \<exists>u' nr. unvmed_cancel_sq io 1 (busy_u 4) = Some (Ok (), u')
     \<and> command (1, Slot 0) u' = Some (busy_cmd\<lparr>c_cqe := abort_cqe io nr busy_cmd, c_state := UNVME_CMD_S_COMPLETED, c_completed := True\<rparr>)"
proof
  fix io
  obtain sq where sq: "sq_q (busy_usq 4) = Some sq" using busy_sq by auto
  have size: "sq_qsize (busy_usq 4) - 1 \<le> length (sq_cmds (busy_usq 4))" "0 < sq_qsize (busy_usq 4) - 1"
    by (simp_all add: busy_usq_def)
  have "\<not> ring_fresh sample_nvme_cq 0" "ncq_head sample_nvme_cq = 0" "ncq_qsize sample_nvme_cq = 4"
    by (simp_all add: ring_fresh_def sample_nvme_cq_def zero_cqe_def)
  then have "ring_pending sample_nvme_cq = []" by (simp add: ring_pending_def takeWhile_upt)
  then have none: "due 1 (Slot 0) (ring_pending sample_nvme_cq) (busy_u 4) = None"
    by (simp add: due_def hits_def nth_opt_def split: option.splits)
  note closes = cancel_sq_closes [OF busy_ring sq, of io]
  obtain u' where run: "unvmed_cancel_sq io 1 (busy_u 4) = Some (Ok (), u')"
    using closes [THEN conjunct1] busy_cancellable size(1) by blast
  have "command (1, Slot 0) u' = Some (cmd_after (abort_cqe io (nsq_id sq) busy_cmd) busy_cmd)"
    using closes [THEN conjunct2, rule_format, of u' "Slot 0" busy_cmd] run busy_command [of 4] size(2) none busy_cmd_open(1)
    by auto
  then show "\<exists>u' nr. unvmed_cancel_sq io 1 (busy_u 4) = Some (Ok (), u')
     \<and> command (1, Slot 0) u' = Some (busy_cmd\<lparr>c_cqe := abort_cqe io nr busy_cmd, c_state := UNVME_CMD_S_COMPLETED, c_completed := True\<rparr>)"
    using run busy_cmd_open(2) by (auto simp: cmd_after_def)
qed

theorem cancel_sq_overrun_witness:
  "\<forall>io. \<exists>u'. unvmed_cancel_sq io 1 (busy_u 16) = Some (Fault, u')"
  using cancel_sq_overrun [OF busy_cancellable busy_ring, of 16] by (simp add: busy_usq_def)

theorem cqe_status_roundtrip_witness:
  "unvmed_cqe_status (zero_cqe\<lparr>sfp := 0xC03\<rparr>) = Inl ETIMEDOUT"
  using cqe_status_roundtrip [where status = "0x601" and cqe = "zero_cqe\<lparr>sfp := 0xC03\<rparr>" and phase = True]
  by (simp add: NVME_SCT_UNVME_def NVME_SC_UNVME_TIMED_OUT_def)

definition busy_io :: "nat list io_env" where
  "busy_io = \<lparr>io_sq = sample_sq_ops\<lparr>sq_ring := \<lambda>q. q\<lparr>nsq_ptail := nsq_tail q\<rparr>\<rparr>,
     io_get_cqe = (\<lambda>_. None), io_update_head = (\<lambda>q. q), io_sct_shift = 8, io_sct_path = 3,
     io_sc_abort = 0x71\<rparr>"

theorem doorbell_pending_witness:
  "\<exists>u'. unvmed_sq_update_tail busy_io 1
       (sample_u\<lparr>sqs := [None, Some (sample_usq\<lparr>sq_q := Some ((the (sq_q sample_usq))
          \<lparr>nsq_tail := 1, nsq_ptail := 3\<rparr>)\<rparr>), None]\<rparr>) = (Ok 2, u')"
proof -
  let ?q = "(the (sq_q sample_usq))\<lparr>nsq_tail := 1, nsq_ptail := 3\<rparr>"
  let ?usq = "sample_usq\<lparr>sq_q := Some ?q\<rparr>" and ?u = "sample_u\<lparr>sqs := [None, Some (sample_usq\<lparr>sq_q := Some ?q\<rparr>), None]\<rparr>"
  have at: "sq_at 1 ?u = Some ?usq" "sq_q ?usq = Some ?q" by (simp_all add: sq_at_nth)
  have ring: "unat (nsq_tail ?q) < nsq_qsize ?q" "unat (nsq_ptail ?q) < nsq_qsize ?q"
    by (simp_all add: sample_usq_def)
  have bell: "sq_ring (io_sq busy_io) q = q\<lparr>nsq_ptail := nsq_tail q\<rparr>" for q by (simp add: busy_io_def)
  have "ring_count (nsq_qsize ?q) (unat (nsq_ptail ?q)) (unat (nsq_tail ?q)) = 2"
    by (simp add: ring_count_def sample_usq_def)
  with doorbell_pending [OF at ring bell] show ?thesis by auto
qed

end
