(* ===== verification/Timer_Facts.thy ===== *)
theory Timer_Facts
  imports Timer Completion_Facts
begin

unbundle bit_operations_syntax

text \<open>
  The timer handler: the first pass finds the nearest deadline or an expired command, the second
  completes every expired command with a timeout status and freezes the queue.
\<close>

subsection \<open>Taking and dropping a reference\<close>

lemma sq_store_same: "sq_at qid u = Some usq \<Longrightarrow> sq_store qid usq u = u"
  by (simp add: sq_at_nth sq_store_def list_update_same_conv)

lemma set_command_twice: "set_command p d (set_command p c u) = set_command p d u"
proof (cases "sq_at (fst p) u")
  case None
  then have "sq_modify (fst p) f u = u" for f by (auto simp: sq_modify_def sq_at_def split: option.splits)
  then show ?thesis by (simp add: set_command_def)
next
  case (Some usq)
  note at = sq_at_bound [OF Some]
  have "cmd_set (cmd_set usq r c) r d = cmd_set usq r d" for r by (cases r) simp_all
  moreover have "sq_at (fst p) (sq_store (fst p) (cmd_set usq (snd p) c) u) = Some (cmd_set usq (snd p) c)"
    using at by (simp add: sq_at_store)
  ultimately show ?thesis
    by (simp add: set_command_def sq_modify_at [OF Some] sq_modify_at) (simp add: sq_store_def)
qed

lemma set_command_same:
  assumes "command p u = Some c"
  shows "set_command p c u = u"
proof -
  obtain usq where usq: "sq_at (fst p) u = Some usq" "cmd_at usq (snd p) = Some c"
    using assms by (auto simp: command_def split: option.splits)
  then have "cmd_set usq (snd p) c = usq" by (cases "snd p") (auto simp: list_update_same_conv)
  with usq show ?thesis by (simp add: set_command_def sq_modify_at sq_store_same)
qed

lemma cmd_get_at_free:
  assumes "command (qid, Slot i) u = Some c" and "i < 65536" and "c_refcnt c = 0"
  shows "cmd_get_at qid (word_of_nat i) u = (Ok None, u)"
proof -
  obtain usq where usq: "sq_at qid u = Some usq" "cmd_at usq (Slot i) = Some c"
    using assms(1) by (auto simp: command_def split: option.splits)
  with assms(2,3) show ?thesis
    by (simp add: cmd_get_at_def on_sq_def unvmed_cmd_get_def sq_store_same del: cmd_at.simps)
qed

lemma cmd_get_at_live:
  assumes "command (qid, Slot i) u = Some c" and "i < 65536" and "0 < c_refcnt c"
  shows "cmd_get_at qid (word_of_nat i) u =
    (Ok (Some (Slot i)), set_command (qid, Slot i) (c\<lparr>c_refcnt := c_refcnt c + 1\<rparr>) u)"
proof -
  obtain usq where usq: "sq_at qid u = Some usq" "cmd_at usq (Slot i) = Some c"
    using assms(1) by (auto simp: command_def split: option.splits)
  with assms(2,3) show ?thesis
    by (simp add: cmd_get_at_def on_sq_def unvmed_cmd_get_def set_command_def sq_modify_at
        del: cmd_at.simps cmd_set.simps)
qed

lemma cmd_put_at_live:
  assumes "command p u = Some c" and "1 < c_refcnt c"
  shows "cmd_put_at ops io p u = (Ok (c_refcnt c - 1), set_command p (c\<lparr>c_refcnt := c_refcnt c - 1\<rparr>) u)"
proof -
  obtain usq where usq: "sq_at (fst p) u = Some usq" "cmd_at usq (snd p) = Some c"
    using assms(1) by (auto simp: command_def split: option.splits)
  with assms(2) show ?thesis
    by (simp add: cmd_put_at_def on_sq_def unvmed_cmd_put_def set_command_def sq_modify_at Let_def)
qed

subsection \<open>The first pass\<close>

text \<open>What the first pass computes, on the commands alone.\<close>

fun scan_deadlines :: "timespec \<Rightarrow> unvme_cmd list \<Rightarrow> timespec \<Rightarrow> bool \<times> timespec" where
  "scan_deadlines now [] nxt = (False, nxt)"
| "scan_deadlines now (c # cs) nxt =
     (if c_refcnt c = 0 then scan_deadlines now cs nxt
      else case unvmed_cmd_expired c now nxt of
             (expired, nxt1) \<Rightarrow> if expired then (True, nxt1) else scan_deadlines now cs nxt1)"

text \<open>A queue whose slots the handler may walk.\<close>

definition walkable :: "nat \<Rightarrow> 'r unvme_sq \<Rightarrow> ('m, 'r, 'z) unvme_scheme \<Rightarrow> bool" where
  "walkable qid usq u \<longleftrightarrow> sq_at qid u = Some usq \<and> sq_qsize usq - 1 \<le> length (sq_cmds usq)
     \<and> sq_qsize usq \<le> 65536 \<and> (\<forall>c\<in>set (sq_cmds usq). 0 \<le> c_refcnt c)"

lemma find_expired_scan:
  assumes "walkable qid usq u" and "\<forall>i\<in>set is'. i < sq_qsize usq - 1"
  shows "find_expired ops io now qid is' nxt u =
    (Ok (scan_deadlines now (map ((!) (sq_cmds usq)) is') nxt), u)"
  using assms(2)
proof (induction is' arbitrary: nxt)
  case Nil show ?case by simp
next
  case (Cons i is')
  let ?c = "sq_cmds usq ! i"
  have i: "i < 65536" "i < length (sq_cmds usq)" and at: "sq_at qid u = Some usq" and c0: "0 \<le> c_refcnt ?c"
    using assms(1) Cons.prems by (auto simp: walkable_def)
  have c: "command (qid, Slot i) u = Some ?c" using i(2) by (simp add: command_slot(1) [OF at])
  show ?case
  proof (cases "c_refcnt ?c = 0")
    case True
    with cmd_get_at_free [OF c i(1)] Cons show ?thesis by simp
  next
    case False
    let ?u1 = "set_command (qid, Slot i) (?c\<lparr>c_refcnt := c_refcnt ?c + 1\<rparr>) u"
    have get: "cmd_get_at qid (word_of_nat i) u = (Ok (Some (Slot i)), ?u1)"
      using False c0 by (intro cmd_get_at_live [OF c i(1)]) simp
    have c1: "command (qid, Slot i) ?u1 = Some (?c\<lparr>c_refcnt := c_refcnt ?c + 1\<rparr>)"
      by (simp add: command_set(1) [OF c])
    have put: "\<exists>n. cmd_put_at ops io (qid, Slot i) ?u1 = (Ok n, u)"
      using cmd_put_at_live [OF c1, of ops io] False c0 set_command_same [OF c] by (simp add: set_command_twice)
    have "unvmed_cmd_expired (?c\<lparr>c_refcnt := n\<rparr>) now nxt = unvmed_cmd_expired ?c now nxt" for n
      by (simp add: unvmed_cmd_expired_def)
    with False get c1 put Cons show ?thesis by (auto split: prod.splits)
  qed
qed


text \<open>The deadlines of the commands that are waiting for the device.\<close>

definition cmd_waits :: "unvme_cmd \<Rightarrow> bool" where
  "cmd_waits c \<longleftrightarrow> c_refcnt c \<noteq> 0 \<and> c_state c = UNVME_CMD_S_SUBMITTED"

definition deadlines :: "unvme_cmd list \<Rightarrow> timespec set" where
  "deadlines cs = c_timeout ` {c \<in> set cs. cmd_waits c}"

definition nearest :: "timespec \<Rightarrow> timespec set \<Rightarrow> bool" where
  "nearest d ds \<longleftrightarrow> d \<in> ds \<and> (\<forall>d'\<in>ds. \<not> unvmed_timer_after d d')"

lemma timer_after_trans: "\<not> unvmed_timer_after a b \<Longrightarrow> \<not> unvmed_timer_after b c \<Longrightarrow> \<not> unvmed_timer_after a c"
  by (auto simp: unvmed_timer_after_def split: if_splits)

lemma timer_after_refl: "\<not> unvmed_timer_after a a" by (simp add: unvmed_timer_after_def)

lemma timer_after_asym: "unvmed_timer_after a b \<Longrightarrow> \<not> unvmed_timer_after b a"
  by (auto simp: unvmed_timer_after_def split: if_splits)

lemma nearest_insert:
  assumes "nearest d (insert (if unvmed_timer_after a b then b else a) ds)"
  shows "nearest d (insert a (insert b ds))"
proof (cases "unvmed_timer_after a b")
  case True
  with assms timer_after_trans [of d b a] timer_after_asym [OF True] show ?thesis by (auto simp: nearest_def)
next
  case False
  with assms timer_after_trans [of d a b] show ?thesis by (auto simp: nearest_def)
qed

lemma deadlines_Cons:
  "deadlines (c # cs) = (if cmd_waits c then insert (c_timeout c) (deadlines cs) else deadlines cs)"
  by (auto simp: deadlines_def)

lemma scan_deadlines_skip: "\<not> cmd_waits c \<Longrightarrow> scan_deadlines now (c # cs) nxt = scan_deadlines now cs nxt"
  by (cases "c_refcnt c = 0") (simp_all add: cmd_waits_def unvmed_cmd_expired_def)

lemma scan_deadlines_nearest:
  assumes "\<forall>d\<in>deadlines cs. \<not> unvmed_timer_after now d \<and> 0 < tv_sec d" and "0 < tv_sec nxt"
  shows "\<exists>d. scan_deadlines now cs nxt = (False, d) \<and> nearest d (insert nxt (deadlines cs))"
  using assms
proof (induction cs arbitrary: nxt)
  case Nil then show ?case by (simp add: nearest_def deadlines_def timer_after_refl)
next
  case (Cons c cs)
  let ?nxt = "if unvmed_timer_after nxt (c_timeout c) then c_timeout c else nxt"
  show ?case
  proof (cases "cmd_waits c")
    case False
    with Cons.IH [of nxt] Cons.prems show ?thesis
      by (simp add: deadlines_Cons scan_deadlines_skip del: scan_deadlines.simps)
  next
    case True
    have prems: "\<forall>d\<in>deadlines cs. \<not> unvmed_timer_after now d \<and> 0 < tv_sec d" "0 < tv_sec ?nxt"
      and c: "\<not> unvmed_timer_after now (c_timeout c)"
      using Cons.prems True by (auto simp: deadlines_Cons)
    obtain d where d: "scan_deadlines now cs ?nxt = (False, d)" "nearest d (insert ?nxt (deadlines cs))"
      using Cons.IH [OF prems] by blast
    have "unvmed_cmd_expired c now nxt = (False, ?nxt)"
      using True c Cons.prems(2) by (simp add: cmd_waits_def unvmed_cmd_expired_def)
    then have "scan_deadlines now (c # cs) nxt = (False, d)" using True d(1) by (simp add: cmd_waits_def)
    moreover have "nearest d (insert nxt (deadlines (c # cs)))"
      using nearest_insert [OF d(2)] True by (simp add: deadlines_Cons)
    ultimately show ?thesis by blast
  qed
qed

lemma scan_deadlines_first:
  assumes "\<forall>d\<in>deadlines cs. \<not> unvmed_timer_after now d \<and> 0 < tv_sec d"
  shows "\<exists>d. scan_deadlines now cs zero_timespec = (False, d)
    \<and> (if deadlines cs = {} then d = zero_timespec else nearest d (deadlines cs))"
  using assms
proof (induction cs)
  case Nil show ?case by (simp add: deadlines_def)
next
  case (Cons c cs)
  show ?case
  proof (cases "cmd_waits c")
    case False
    then have eq: "deadlines (c # cs) = deadlines cs"
      "scan_deadlines now (c # cs) zero_timespec = scan_deadlines now cs zero_timespec"
      by (simp_all only: deadlines_Cons scan_deadlines_skip if_False not_False_eq_True)
    show ?thesis unfolding eq using Cons.IH Cons.prems unfolding eq .
  next
    case True
    have prems: "\<forall>d\<in>deadlines cs. \<not> unvmed_timer_after now d \<and> 0 < tv_sec d" "0 < tv_sec (c_timeout c)"
      and c: "\<not> unvmed_timer_after now (c_timeout c)"
      using Cons.prems True by (auto simp: deadlines_Cons)
    have "unvmed_cmd_expired c now zero_timespec = (False, c_timeout c)"
      using True c by (simp add: cmd_waits_def unvmed_cmd_expired_def zero_timespec_def)
    then have "scan_deadlines now (c # cs) zero_timespec = scan_deadlines now cs (c_timeout c)"
      using True by (simp add: cmd_waits_def)
    with scan_deadlines_nearest [OF prems] True show ?thesis
      by (simp add: deadlines_Cons del: scan_deadlines.simps)
  qed
qed

definition walked :: "'r unvme_sq \<Rightarrow> unvme_cmd list" where
  "walked usq = take (sq_qsize usq - 1) (sq_cmds usq)"

lemma walked_map: "walkable qid usq u \<Longrightarrow> map ((!) (sq_cmds usq)) [0..<sq_qsize usq - 1] = walked usq"
  unfolding walked_def walkable_def by (auto simp: list_eq_iff_nth_eq)

text \<open>When the timer of a queue fires and no command is expired, it is armed again: for the
  controller's timeout when no command is waiting, else for the whole seconds from now to the
  nearest deadline. Seconds are subtracted without regard to the fractions, so when that deadline
  is in the current second the timer is armed for 0 seconds, which disarms it: a command is then
  waiting with no timer running.
\<close>

theorem timer_rearmed:
  assumes "walkable qid usq u" and "timer_active (sq_timer usq)" and "timer_t (sq_timer usq) = 0"
    and "0 < timeout u"
    and "\<forall>d\<in>deadlines (walked usq). \<not> unvmed_timer_after now d \<and> 0 < tv_sec d"
  shows "\<exists>usq' u'. unvmed_timer_handler ops io now qid u = Some (Ok (), u') \<and> sq_at qid u' = Some usq'
    \<and> sq_cmds usq' = sq_cmds usq
    \<and> (if deadlines (walked usq) = {} then timer_t (sq_timer usq') = timeout u
       else \<exists>d. nearest d (deadlines (walked usq)) \<and> timer_t (sq_timer usq') = tv_sec d - tv_sec now
         \<and> (unvmed_timer_running (sq_timer usq') \<longleftrightarrow> tv_sec d \<noteq> tv_sec now))"
proof -
  obtain d where scan: "scan_deadlines now (walked usq) zero_timespec = (False, d)"
    and d: "if deadlines (walked usq) = {} then d = zero_timespec else nearest d (deadlines (walked usq))"
    using scan_deadlines_first [OF assms(5)] by blast
  have at: "sq_at qid u = Some usq" using assms(1) by (simp add: walkable_def)
  have find: "find_expired ops io now qid [0..<sq_qsize usq - 1] zero_timespec u = (Ok (False, d), u)"
    using find_expired_scan [OF assms(1)] walked_map [OF assms(1)] scan by simp
  define sec where "sec = (if tv_sec d = 0 then timeout u else tv_sec d - tv_sec now)"
  let ?usq = "unvmed_timer_update now sec usq"
  have handler: "unvmed_timer_handler ops io now qid u = Some (Ok (), sq_store qid ?usq u)"
    using at assms(2) find by (simp add: unvmed_timer_handler_def sq_modify_at sec_def)
  have sq': "sq_at qid (sq_store qid ?usq u) = Some ?usq" using sq_at_bound [OF at] by (simp add: sq_at_store)
  have cmds: "sq_cmds ?usq = sq_cmds usq" by (simp add: unvmed_timer_update_def)
  have run: "timer_t (sq_timer ?usq) = sec" if "0 \<le> sec" using that by (simp add: unvmed_timer_update_def)
  show ?thesis
  proof (cases "deadlines (walked usq) = {}")
    case True
    then have "sec = timeout u" using d by (simp add: sec_def zero_timespec_def)
    with handler sq' cmds run True assms(4) show ?thesis by auto
  next
    case False
    then have near: "nearest d (deadlines (walked usq))" using d by simp
    then have "\<not> unvmed_timer_after now d" "0 < tv_sec d" using assms(5) by (auto simp: nearest_def)
    then have "sec = tv_sec d - tv_sec now" "0 \<le> sec"
      by (auto simp: sec_def unvmed_timer_after_def split: if_splits)
    with handler sq' cmds run False near show ?thesis by (auto simp: unvmed_timer_running_def)
  qed
qed


subsection \<open>The second pass\<close>


lemma cancellable_set:
  assumes "cancellable u" and "command p u = Some c"
    and "cmd_open d \<Longrightarrow> cmd_open c \<and> c_rq d = c_rq c \<and> c_sqe d = c_sqe c \<and> c_vcq d = c_vcq c
      \<and> c_flags d AND UNVMED_CMD_F_WAKEUP_ON_CQE = c_flags c AND UNVMED_CMD_F_WAKEUP_ON_CQE"
  shows "cancellable (set_command p d u)"
  unfolding cancellable_def
proof (intro conjI allI impI)
  fix q usq' assume usq': "sq_at q (set_command p d u) = Some usq'"
  have "map_option sq_shape (sq_at q (set_command p d u)) = map_option sq_shape (sq_at q u)"
    using command_set(2) [OF assms(2)] by (simp add: same_queues_def)
  with usq' obtain usq where usq: "sq_at q u = Some usq" "sq_shape usq' = sq_shape usq" by (cases "sq_at q u") auto
  have "length (sq_cmd_count usq) = 255" using assms(1) usq(1) unfolding cancellable_def by blast
  with sq_shape_fields(9) [OF usq(2)] show "length (sq_cmd_count usq') = 255" by simp
next
  fix p' e assume e: "command p' (set_command p d u) = Some e" "cmd_open e"
  obtain c' where c': "command p' u = Some c'" "cmd_open c'" "c_rq e = c_rq c'" "c_sqe e = c_sqe c'" "c_vcq e = c_vcq c'"
    "c_flags e AND UNVMED_CMD_F_WAKEUP_ON_CQE = c_flags c' AND UNVMED_CMD_F_WAKEUP_ON_CQE"
  proof (cases "p' = p")
    case True
    then have "e = d" using e(1) by (simp add: command_set(1) [OF assms(2)])
    with that True assms(2,3) e(2) show thesis by blast
  next
    case False
    then have "command p' u = Some e" using e(1) by (simp add: command_set(1) [OF assms(2)])
    with that e(2) show thesis by blast
  qed
  note facts = cancellableD [OF assms(1) c'(1,2)]
  show "c_rq e \<noteq> None" using facts(1) c'(3) by auto
  show "unat (sqe_opcode (c_sqe e)) < 255" using facts(2) c'(4) by simp
  show "c_flags e AND UNVMED_CMD_F_WAKEUP_ON_CQE \<noteq> 0 \<or> c_vcq e = 0" using facts(3) c'(5,6) by auto
qed

lemma timedout_keeps_wakeup:
  "(f OR UNVMED_CMD_F_TIMEDOUT) AND UNVMED_CMD_F_WAKEUP_ON_CQE = f AND UNVMED_CMD_F_WAKEUP_ON_CQE"
proof -
  have "UNVMED_CMD_F_TIMEDOUT AND UNVMED_CMD_F_WAKEUP_ON_CQE = 0"
    by (simp add: UNVMED_CMD_F_TIMEDOUT_def UNVMED_CMD_F_WAKEUP_ON_CQE_def)
  then show ?thesis by (simp add: bit.conj_disj_distrib2)
qed

text \<open>A command after the completion that the handler makes up.\<close>

definition timed_out :: "'r io_env \<Rightarrow> 'r unvme_sq \<Rightarrow> unvme_cmd \<Rightarrow> unvme_cmd" where
  "timed_out io usq c = cmd_after (timeout_cqe io usq (c_cid c)) (c\<lparr>c_flags := c_flags c OR UNVMED_CMD_F_TIMEDOUT\<rparr>)"

lemma cmd_after_refcnt [simp]: "c_refcnt (cmd_after cqe c) = c_refcnt c"
  by (simp add: cmd_after_def)

lemma timed_out_closed [simp]: "\<not> cmd_open (timed_out io usq c)"
  by (simp add: timed_out_def)

lemma timed_out_flags: "c_flags (timed_out io usq c) AND UNVMED_CMD_F_TIMEDOUT \<noteq> 0"
proof -
  have "c_flags (timed_out io usq c) = c_flags c OR UNVMED_CMD_F_TIMEDOUT" by (simp add: timed_out_def cmd_after_def)
  moreover have "bit ((c_flags c OR UNVMED_CMD_F_TIMEDOUT) AND UNVMED_CMD_F_TIMEDOUT) 3"
    by (simp add: bit_and_iff bit_or_iff UNVMED_CMD_F_TIMEDOUT_def bit_push_bit_iff)
  ultimately show ?thesis by (metis bit_0_eq bot_apply bot_bool_def)
qed

lemma timeout_cqe_status:
  assumes "io_sct_shift io = 8"
  shows "unvmed_cqe_status (timeout_cqe io usq cid) = Inl ETIMEDOUT"
  by (simp add: timeout_cqe_def assms unvmed_cqe_status_def Let_def NVME_SCT_UNVME_def NVME_SC_UNVME_TIMED_OUT_def)

lemma cmd_timeout_outcome:
  assumes "cancellable u" and "command (qid, Slot i) u = Some c" and "cmd_open c"
    and "unat (c_cid c) = i" and "0 < c_refcnt c" and "sq_at qid u = Some usq"
  shows "\<exists>u'. unvmed_cmd_timeout ops io (qid, Slot i) u = Some (Ok (), u') \<and> same_queues u u'
    \<and> (\<forall>p. command p u' = (if p = (qid, Slot i) then Some (timed_out io usq c) else command p u))"
proof -
  let ?p = "(qid, Slot i)" and ?cqe = "timeout_cqe io usq (c_cid c)"
  let ?c1 = "c\<lparr>c_refcnt := c_refcnt c + 1\<rparr>"
  let ?c2 = "?c1\<lparr>c_flags := c_flags c OR UNVMED_CMD_F_TIMEDOUT\<rparr>"
  let ?u2 = "set_command ?p ?c2 u"
  have i: "i < 65536" "word_of_nat i = c_cid c" using unat_lt_u16 [of "c_cid c"] assms(4) by auto
  have get: "cmd_get_at qid (c_cid c) u = (Ok (Some (Slot i)), set_command ?p ?c1 u)"
    using cmd_get_at_live [OF assms(2) i(1) assms(5)] by (simp add: i(2))
  note at2 = command_set [OF assms(2), where d = ?c2]
  have ok2: "cancellable ?u2" using assms(1-3) timedout_keeps_wakeup by (intro cancellable_set) auto
  have c2: "command ?p ?u2 = Some ?c2" "cmd_open ?c2" using at2 assms(3) by (simp_all add: cmd_open_def)
  obtain u3 where u3: "unvmed_cmd_cmpl ?p ?cqe ?u2 = Some (Ok (), u3)" using cmpl_total [OF ok2 c2] by blast
  note at3 = cmd_cmpl_Ok(1,2) [OF c2(1) u3]
  have c3: "command ?p u3 = Some (cmd_after ?cqe ?c2)" using at3(1) by simp
  have "(cmd_after ?cqe ?c2)\<lparr>c_refcnt := c_refcnt c\<rparr> = timed_out io usq c"
    by (cases c) (simp add: timed_out_def cmd_after_def)
  then have put: "\<exists>n. cmd_put_at ops io ?p u3 = (Ok n, set_command ?p (timed_out io usq c) u3)"
    using cmd_put_at_live [OF c3, of ops io] assms(5) by simp
  note at4 = command_set [OF c3, where d = "timed_out io usq c"]
  have "unvmed_cmd_timeout ops io ?p u = Some (Ok (), set_command ?p (timed_out io usq c) u3)"
    using assms(2,6) get put u3 command_set(1) [OF assms(2), where d = ?c1]
    by (auto simp: unvmed_cmd_timeout_def set_command_twice)
  moreover have "same_queues u (set_command ?p (timed_out io usq c) u3)"
    using at2(2) at3(2) at4(2) same_queues_trans by metis
  moreover have "command p (set_command ?p (timed_out io usq c) u3) =
      (if p = ?p then Some (timed_out io usq c) else command p u)" for p
    using at2(1) at3(1) at4(1) by simp
  ultimately show ?thesis by blast
qed


definition cmd_late :: "timespec \<Rightarrow> unvme_cmd \<Rightarrow> bool" where
  "cmd_late now c \<longleftrightarrow> cmd_waits c \<and> unvmed_timer_after now (c_timeout c)"

definition slot_ok :: "nat \<Rightarrow> unvme_cmd \<Rightarrow> bool" where
  "slot_ok i c \<longleftrightarrow> i < 65536 \<and> 0 \<le> c_refcnt c \<and> (0 < c_refcnt c \<longrightarrow> unat (c_cid c) = i)"

text \<open>One round of the second pass.\<close>

lemma expire_round:
  assumes "cancellable u" and "sq_at qid u = Some usq" and "command (qid, Slot i) u = Some c" and "slot_ok i c"
  shows "\<exists>u' nxt'. expire_cmds ops io now qid (i # is') t nxt u = expire_cmds ops io now qid is' (t \<or> cmd_late now c) nxt' u'
    \<and> cancellable u' \<and> same_queues u u'
    \<and> (\<forall>p. command p u' = (if p = (qid, Slot i) \<and> cmd_late now c then Some (timed_out io usq c) else command p u))"
proof (cases "c_refcnt c = 0")
  case True
  then have "cmd_get_at qid (word_of_nat i) u = (Ok None, u)" "\<not> cmd_late now c"
    using cmd_get_at_free [OF assms(3)] assms(4) by (simp_all add: slot_ok_def cmd_late_def cmd_waits_def)
  then show ?thesis using assms(1) by auto
next
  case False
  let ?p = "(qid, Slot i)" and ?c1 = "c\<lparr>c_refcnt := c_refcnt c + 1\<rparr>"
  let ?u1 = "set_command ?p ?c1 u"
  have i: "i < 65536" "0 < c_refcnt c" "unat (c_cid c) = i" using assms(4) False by (auto simp: slot_ok_def)
  have get: "cmd_get_at qid (word_of_nat i) u = (Ok (Some (Slot i)), ?u1)"
    by (rule cmd_get_at_live [OF assms(3) i(1,2)])
  note at1 = command_set [OF assms(3), where d = ?c1]
  have c1: "command ?p ?u1 = Some ?c1" using at1 by simp
  obtain late nxt1 where exp: "unvmed_cmd_expired ?c1 now nxt = (late, nxt1)" by fastforce
  have late: "late = cmd_late now c"
    using exp False by (auto simp: unvmed_cmd_expired_def cmd_late_def cmd_waits_def split: if_splits)
  show ?thesis
  proof (cases "cmd_late now c")
    case not_late: False
    have "cmd_put_at ops io ?p ?u1 = (Ok (c_refcnt c), u)"
      using cmd_put_at_live [OF c1, of ops io] i(2) set_command_same [OF assms(3)] by (simp add: set_command_twice)
    then have "expire_cmds ops io now qid (i # is') t nxt u = expire_cmds ops io now qid is' (t \<or> cmd_late now c) nxt1 u"
      using get c1 exp late not_late by simp
    then show ?thesis using not_late assms(1) by auto
  next
    case True
    then have op: "cmd_open c" by (simp add: cmd_late_def cmd_waits_def cmd_open_def)
    then have op1: "cmd_open ?c1" by (simp add: cmd_open_def)
    have ok1: "cancellable ?u1" using assms(1,3) op by (intro cancellable_set) auto
    obtain usq1 where usq1: "sq_at qid ?u1 = Some usq1" "sq_shape usq1 = sq_shape usq"
      using at1(2) assms(2) by (rule same_queues_at)
    have same: "timed_out io usq1 = timed_out io usq"
      using usq1(2) by (intro ext) (cases usq1; cases usq; simp add: timed_out_def timeout_cqe_def sq_shape_def)
    obtain u2 where u2: "unvmed_cmd_timeout ops io ?p ?u1 = Some (Ok (), u2)" "same_queues ?u1 u2"
      "\<And>p. command p u2 = (if p = ?p then Some (timed_out io usq ?c1) else command p ?u1)"
      using cmd_timeout_outcome [OF ok1 c1 op1 _ _ usq1(1), of ops io] i same by auto
    have c2: "command ?p u2 = Some (timed_out io usq ?c1)" using u2(3) by simp
    let ?u3 = "set_command ?p (timed_out io usq c) u2"
    have "(timed_out io usq ?c1)\<lparr>c_refcnt := c_refcnt c\<rparr> = timed_out io usq c"
      by (cases c) (simp add: timed_out_def cmd_after_def)
    then have "cmd_put_at ops io ?p u2 = (Ok (c_refcnt c), ?u3)"
      using cmd_put_at_live [OF c2, of ops io] i(2) by (simp add: timed_out_def)
    then have step: "expire_cmds ops io now qid (i # is') t nxt u =
        expire_cmds ops io now qid is' (t \<or> cmd_late now c) nxt1 ?u3"
      using get c1 exp late True u2(1) by simp
    note at3 = command_set [OF c2, where d = "timed_out io usq c"]
    have cmds: "command p ?u3 = (if p = ?p \<and> cmd_late now c then Some (timed_out io usq c) else command p u)" for p
      using at1(1) at3(1) u2(3) True by simp
    have frame: "same_queues u ?u3" using at1(2) u2(2) at3(2) same_queues_trans by metis
    have "cancellable ?u3"
      using assms(1) frame by (rule cancellable_frame) (auto simp: cmds split: if_splits)
    with step frame cmds show ?thesis by blast
  qed
qed

text \<open>The second pass times out exactly the late commands.\<close>

lemma expire_outcome:
  assumes "cancellable u" and "sq_at qid u = Some usq" and "distinct is'"
    and "\<forall>i\<in>set is'. \<exists>c. command (qid, Slot i) u = Some c \<and> slot_ok i c"
  shows "\<exists>u' nxt'. expire_cmds ops io now qid is' t nxt u =
      Some (Ok (t \<or> (\<exists>i\<in>set is'. cmd_late now (the (command (qid, Slot i) u))), nxt'), u') \<and> same_queues u u'
    \<and> (\<forall>p c. command p u = Some c \<longrightarrow> command p u' = Some (if p \<in> Pair qid ` Slot ` set is' \<and> cmd_late now c
          then timed_out io usq c else c))"
  using assms
proof (induction is' arbitrary: u usq t nxt)
  case Nil show ?case by simp
next
  case (Cons i is')
  obtain c where c: "command (qid, Slot i) u = Some c" "slot_ok i c" using Cons.prems(4) by auto
  obtain u1 nxt1 where u1: "expire_cmds ops io now qid (i # is') t nxt u =
      expire_cmds ops io now qid is' (t \<or> cmd_late now c) nxt1 u1" "cancellable u1" "same_queues u u1"
    and cmds: "\<And>p. command p u1 = (if p = (qid, Slot i) \<and> cmd_late now c then Some (timed_out io usq c) else command p u)"
    using expire_round [OF Cons.prems(1,2) c] by metis
  obtain usq1 where usq1: "sq_at qid u1 = Some usq1" "sq_shape usq1 = sq_shape usq"
    using u1(3) Cons.prems(2) by (rule same_queues_at)
  have same: "timed_out io usq1 = timed_out io usq"
    using usq1(2) by (intro ext) (cases usq1; cases usq; simp add: timed_out_def timeout_cqe_def sq_shape_def)
  have others: "command (qid, Slot j) u1 = command (qid, Slot j) u" if "j \<in> set is'" for j
    using that Cons.prems(3) cmds by auto
  have slots: "\<forall>i\<in>set is'. \<exists>c. command (qid, Slot i) u1 = Some c \<and> slot_ok i c"
    using Cons.prems(4) others by auto
  have dist: "distinct is'" using Cons.prems(3) by simp
  from Cons.IH [OF u1(2) usq1(1) dist slots, of "t \<or> cmd_late now c" nxt1] obtain u' nxt' where u':
    "expire_cmds ops io now qid is' (t \<or> cmd_late now c) nxt1 u1 =
      Some (Ok (t \<or> cmd_late now c \<or> (\<exists>i\<in>set is'. cmd_late now (the (command (qid, Slot i) u))), nxt'), u')"
    "same_queues u1 u'"
    and after: "\<And>p c. command p u1 = Some c \<Longrightarrow> command p u' = Some (if p \<in> Pair qid ` Slot ` set is' \<and> cmd_late now c
          then timed_out io usq c else c)"
    unfolding same using others by auto
  have "command p u' = Some (if p \<in> Pair qid ` Slot ` set (i # is') \<and> cmd_late now d then timed_out io usq d else d)"
    if d: "command p u = Some d" for p d
  proof (cases "p = (qid, Slot i)")
    case True
    then have "d = c" "p \<notin> Pair qid ` Slot ` set is'" using d c Cons.prems(3) by auto
    with True after [of p] cmds [of p] c(1) show ?thesis by auto
  next
    case False
    with after [of p d] cmds [of p] d show ?thesis by auto
  qed
  moreover have "same_queues u u'" using u1(3) u'(2) by (rule same_queues_trans)
  ultimately show ?case using u1(1) u'(1) c(1) by auto
qed


lemma scan_deadlines_late: "c \<in> set cs \<Longrightarrow> cmd_late now c \<Longrightarrow> fst (scan_deadlines now cs nxt)"
proof (induction cs arbitrary: nxt)
  case (Cons d cs)
  then show ?case
    by (auto simp: cmd_late_def cmd_waits_def unvmed_cmd_expired_def split: if_splits)
qed simp

text \<open>The queue that the handler leaves after commands expired: frozen, and its timer armed again or off.\<close>

definition settled :: "timespec \<Rightarrow> timespec \<Rightarrow> 'r unvme_sq \<Rightarrow> 'r unvme_sq" where
  "settled now nxt usq =
     (let fz = usq\<lparr>sq_flags := sq_flags usq OR UNVMED_SQ_F_FROZEN\<rparr> in
      if tv_sec nxt \<noteq> 0
      then unvmed_timer_update now (if 0 < tv_sec nxt - tv_sec now then tv_sec nxt - tv_sec now else 1) fz
      else fz\<lparr>sq_timer := (sq_timer fz)\<lparr>timer_active := False\<rparr>\<rparr>)"

lemma settled_queue:
  "\<not> unvmed_sq_ready (Some (settled now nxt usq))"
  "unvmed_timer_running (sq_timer (settled now nxt usq)) \<or> \<not> timer_active (sq_timer (settled now nxt usq))"
  "sq_cmds (settled now nxt usq) = sq_cmds usq" "sq_conflict (settled now nxt usq) = sq_conflict usq"
  by (simp_all add: unvmed_sq_ready_def settled_def Let_def unvmed_timer_update_def unvmed_timer_running_def
      UNVMED_SQ_F_FROZEN_def bit.conj_disj_distrib2)

text \<open>The first pass finds a late command.\<close>

lemma find_late:
  assumes "walkable qid usq u" and "c0 \<in> set (walked usq)" and "cmd_late now c0"
  shows "\<exists>nxt. find_expired ops io now qid [0..<sq_qsize usq - 1] zero_timespec u = (Ok (True, nxt), u)"
proof -
  have "fst (scan_deadlines now (walked usq) zero_timespec)" by (rule scan_deadlines_late [OF assms(2,3)])
  then show ?thesis
    using find_expired_scan [OF assms(1), of "[0..<sq_qsize usq - 1]"] walked_map [OF assms(1)]
    by (cases "scan_deadlines now (walked usq) zero_timespec") auto
qed

text \<open>The second pass, on the locked queue.\<close>

lemma expire_walked:
  assumes "walkable qid usq u" and "cancellable u"
    and "\<forall>i < length (sq_cmds usq). slot_ok i (sq_cmds usq ! i)"
    and "c0 \<in> set (walked usq)" and "cmd_late now c0"
  defines "v \<equiv> u\<lparr>sq_locked := insert qid (sq_locked u)\<rparr>"
  shows "\<exists>nxt u3 usq3. expire_cmds ops io now qid [0..<sq_qsize usq - 1] False zero_timespec v = Some (Ok (True, nxt), u3)
    \<and> same_queues v u3 \<and> sq_at qid u3 = Some usq3 \<and> sq_conflict usq3 = sq_conflict usq
    \<and> (\<forall>i < length (sq_cmds usq). sq_cmds usq3 ! i =
         (if i < sq_qsize usq - 1 \<and> cmd_late now (sq_cmds usq ! i) then timed_out io usq (sq_cmds usq ! i)
          else sq_cmds usq ! i))"
proof -
  let ?is = "[0..<sq_qsize usq - 1]"
  have at: "sq_at qid u = Some usq" and size: "sq_qsize usq - 1 \<le> length (sq_cmds usq)"
    using assms(1) by (auto simp: walkable_def)
  have at2: "sq_at q v = sq_at q u" "command p v = command p u" for q p by (simp_all add: v_def command_def sq_at_def)
  have slot: "command (qid, Slot i) u = Some (sq_cmds usq ! i)" if "i < length (sq_cmds usq)" for i
    using that by (simp add: command_slot(1) [OF at])
  have ok2: "cancellable v" using cancellable_sqs [of v u] assms(2) by (simp add: v_def)
  have at2': "sq_at qid v = Some usq" using at at2 by simp
  have "\<forall>i\<in>set ?is. \<exists>c. command (qid, Slot i) v = Some c \<and> slot_ok i c" using assms(3) slot size at2 by auto
  from expire_outcome [OF ok2 at2' _ this, of ops io now False zero_timespec]
  obtain late u3 nxt where u3: "expire_cmds ops io now qid ?is False zero_timespec v = Some (Ok (late, nxt), u3)"
    "same_queues v u3" and late: "late \<longleftrightarrow> (\<exists>i\<in>set ?is. cmd_late now (the (command (qid, Slot i) u)))"
    and cmds: "\<And>p c. command p u = Some c \<Longrightarrow> command p u3 = Some (if p \<in> Pair qid ` Slot ` set ?is \<and> cmd_late now c
          then timed_out io usq c else c)"
    using at2 by auto
  obtain i0 where "i0 < sq_qsize usq - 1" "sq_cmds usq ! i0 = c0"
    using assms(4) size by (auto simp: walked_def in_set_conv_nth)
  then have "late" using late slot size assms(5) by auto
  obtain usq3 where usq3: "sq_at qid u3 = Some usq3" "sq_shape usq3 = sq_shape usq"
    using u3(2) at2' by (rule same_queues_at)
  have "sq_conflict usq3 = sq_conflict usq"
    using cmds [of "(qid, Conflict)"] by (auto simp: command_slot(2) [OF at] command_slot(2) [OF usq3(1)])
  moreover have "sq_cmds usq3 ! i = (if i < sq_qsize usq - 1 \<and> cmd_late now (sq_cmds usq ! i)
      then timed_out io usq (sq_cmds usq ! i) else sq_cmds usq ! i)" if i: "i < length (sq_cmds usq)" for i
  proof -
    have "command (qid, Slot i) u3 = Some (sq_cmds usq3 ! i)"
      using i sq_shape_fields(4) [OF usq3(2)] by (simp add: command_slot(1) [OF usq3(1)])
    moreover have "(qid, Slot i) \<in> Pair qid ` Slot ` set ?is \<longleftrightarrow> i < sq_qsize usq - 1" by auto
    ultimately show ?thesis using cmds [OF slot [OF i]] by (simp del: set_upt)
  qed
  ultimately show ?thesis using u3 usq3(1) \<open>late\<close> by auto
qed

lemma timed_out_command:
  "c_state (timed_out io usq c) \<in> {UNVME_CMD_S_COMPLETED, UNVME_CMD_S_TO_BE_COMPLETED}"
  "c_flags (timed_out io usq c) AND UNVMED_CMD_F_TIMEDOUT \<noteq> 0" "c_refcnt (timed_out io usq c) = c_refcnt c"
  "c_flags c AND UNVMED_CMD_F_WAKEUP_ON_CQE \<noteq> 0 \<Longrightarrow> c_completed (timed_out io usq c)"
  "c_flags c AND UNVMED_CMD_F_WAKEUP_ON_CQE \<noteq> 0 \<Longrightarrow> io_sct_shift io = 8 \<Longrightarrow>
     unvmed_cqe_status (c_cqe (timed_out io usq c)) = Inl ETIMEDOUT"
  using timedout_keeps_wakeup [of "c_flags c"] timeout_cqe_status [of io usq "c_cid c"]
  by (simp_all add: timed_out_flags) (simp_all add: timed_out_def cmd_after_def)

lemma timer_handler_late:
  assumes "walkable qid usq u" and "timer_active (sq_timer usq)" and "qid \<notin> sq_locked u"
    and "c0 \<in> set (walked usq)" and "cmd_late now c0"
    and "expire_cmds ops io now qid [0..<sq_qsize usq - 1] False zero_timespec (u\<lparr>sq_locked := insert qid (sq_locked u)\<rparr>)
      = Some (Ok (True, nxt), u3)" and "sq_at qid u3 = Some usq3"
  shows "\<exists>u'. unvmed_timer_handler ops io now qid u = Some (Ok (), u') \<and> sq_at qid u' = Some (settled now nxt usq3)
    \<and> sq_locked u' = sq_locked u3 - {qid}"
proof -
  let ?fz = "usq3\<lparr>sq_flags := sq_flags usq3 OR UNVMED_SQ_F_FROZEN\<rparr>"
  let ?u5 = "unvmed_sq_exit qid (sq_store qid ?fz u3)"
  have at: "sq_at qid u = Some usq" using assms(1) by (auto simp: walkable_def)
  obtain nxt0 where find: "find_expired ops io now qid [0..<sq_qsize usq - 1] zero_timespec u = (Ok (True, nxt0), u)"
    using find_late [OF assms(1,4,5)] by blast
  have enter: "unvmed_sq_enter qid u = Some (u\<lparr>sq_locked := insert qid (sq_locked u)\<rparr>)"
    using assms(3) by (simp add: unvmed_sq_enter_def)
  have at5: "sq_at qid ?u5 = Some ?fz"
    using sq_at_bound [OF assms(7)] by (simp add: unvmed_sq_exit_def sq_at_def sq_store_def)
  have "unvmed_timer_handler ops io now qid u = Some (Ok (), sq_store qid (settled now nxt usq3) ?u5)"
    using at assms(2,6) find enter
    by (simp add: unvmed_timer_handler_def sq_modify_at [OF assms(7)] sq_modify_at [OF at5] settled_def Let_def)
  moreover have "sq_at qid (sq_store qid (settled now nxt usq3) ?u5) = Some (settled now nxt usq3)"
    using sq_at_bound [OF at5] by (simp add: sq_at_store)
  ultimately show ?thesis by (simp add: unvmed_sq_exit_def sq_store_def)
qed

text \<open>C37. The timer of a queue fires while a command in a slot of the queue is past its deadline; every
  submitted or allocated command of the controller is waited for or has no virtual queue, so that
  completing it does not wait for an application. Then every command in a slot that is past its
  deadline is completed with the timeout status, which its waiter gets as a timeout error, and is
  marked as timed out; the other commands in slots, and the one in the conflict slot even if it is
  past its deadline, stay as they are. The queue is frozen, so that nothing more is submitted, and
  the timer is armed again or switched off. Contrary to two comments, the lock of the queue is
  released and the command has no reference more than before.
\<close>

theorem timer_expires:
  assumes "walkable qid usq u" and "cancellable u" and "timer_active (sq_timer usq)" and "qid \<notin> sq_locked u"
    and "\<forall>i < length (sq_cmds usq). slot_ok i (sq_cmds usq ! i)"
    and "c0 \<in> set (walked usq)" and "cmd_late now c0" and "io_sct_shift io = 8"
  shows "\<exists>usq' u'. unvmed_timer_handler ops io now qid u = Some (Ok (), u') \<and> sq_at qid u' = Some usq'
    \<and> \<not> unvmed_sq_ready (Some usq') \<and> sq_locked u' = sq_locked u
    \<and> (unvmed_timer_running (sq_timer usq') \<or> \<not> timer_active (sq_timer usq'))
    \<and> (\<forall>i < sq_qsize usq - 1. cmd_late now (sq_cmds usq ! i) \<longrightarrow>
         c_state (sq_cmds usq' ! i) \<in> {UNVME_CMD_S_COMPLETED, UNVME_CMD_S_TO_BE_COMPLETED}
         \<and> c_flags (sq_cmds usq' ! i) AND UNVMED_CMD_F_TIMEDOUT \<noteq> 0
         \<and> c_refcnt (sq_cmds usq' ! i) = c_refcnt (sq_cmds usq ! i)
         \<and> (c_flags (sq_cmds usq ! i) AND UNVMED_CMD_F_WAKEUP_ON_CQE \<noteq> 0 \<longrightarrow>
              c_completed (sq_cmds usq' ! i) \<and> unvmed_cqe_status (c_cqe (sq_cmds usq' ! i)) = Inl ETIMEDOUT))
    \<and> (\<forall>i < length (sq_cmds usq). \<not> cmd_late now (sq_cmds usq ! i) \<longrightarrow> sq_cmds usq' ! i = sq_cmds usq ! i)
    \<and> sq_conflict usq' = sq_conflict usq"
proof -
  obtain nxt u3 usq3 where u3: "expire_cmds ops io now qid [0..<sq_qsize usq - 1] False zero_timespec
        (u\<lparr>sq_locked := insert qid (sq_locked u)\<rparr>) = Some (Ok (True, nxt), u3)"
      "same_queues (u\<lparr>sq_locked := insert qid (sq_locked u)\<rparr>) u3" "sq_at qid u3 = Some usq3"
    and conflict: "sq_conflict usq3 = sq_conflict usq"
    and slots: "\<forall>i < length (sq_cmds usq). sq_cmds usq3 ! i =
        (if i < sq_qsize usq - 1 \<and> cmd_late now (sq_cmds usq ! i) then timed_out io usq (sq_cmds usq ! i)
         else sq_cmds usq ! i)"
    using expire_walked [OF assms(1,2,5-7), of ops io] by blast
  obtain u' where u': "unvmed_timer_handler ops io now qid u = Some (Ok (), u')"
      "sq_at qid u' = Some (settled now nxt usq3)" "sq_locked u' = sq_locked u3 - {qid}"
    using timer_handler_late [OF assms(1,3,4,6,7) u3(1,3)] by blast
  have size: "sq_qsize usq - 1 \<le> length (sq_cmds usq)" using assms(1) by (simp add: walkable_def)
  have "sq_locked u' = sq_locked u" using u3(2) u'(3) assms(4) by (simp add: same_queues_def)
  moreover have "sq_cmds usq3 ! i = timed_out io usq (sq_cmds usq ! i)"
    if "i < sq_qsize usq - 1" "cmd_late now (sq_cmds usq ! i)" for i using slots size that by simp
  ultimately show ?thesis
    using u'(1,2) slots conflict assms(8) timed_out_command [where io = io and usq = usq]
    by (intro exI [of _ "settled now nxt usq3"] exI [of _ u'] conjI settled_queue allI impI) (auto simp: settled_queue(3,4))
qed

subsection \<open>Witnesses\<close>

text \<open>A queue with an active timer and one waited-for command with deadline \<open>d\<close>.\<close>

definition timer_usq :: "timespec \<Rightarrow> nat list unvme_sq" where
  "timer_usq d = sample_usq\<lparr>sq_cmds := [busy_cmd\<lparr>c_timeout := d\<rparr>, zero_cmd, zero_cmd],
     sq_timer := \<lparr>timer_t = 0, timer_expire = zero_timespec, timer_active = True\<rparr>\<rparr>"

definition timer_u :: "timespec \<Rightarrow> (nat set, nat list) unvme" where
  "timer_u d = sample_u\<lparr>sqs := [None, Some (timer_usq d), None], timeout := 3\<rparr>"

lemma timer_at: "sq_at q (timer_u d) = Some usq \<longleftrightarrow> q = 1 \<and> usq = timer_usq d"
  by (auto simp: sq_at_nth timer_u_def nth_Cons less_Suc_eq split: nat.splits)

lemma timer_cmds: "set (sq_cmds (timer_usq d)) = {busy_cmd\<lparr>c_timeout := d\<rparr>, zero_cmd}"
  "sq_conflict (timer_usq d) = zero_cmd" "sq_qsize (timer_usq d) = 4"
  "walked (timer_usq d) = [busy_cmd\<lparr>c_timeout := d\<rparr>, zero_cmd, zero_cmd]"
  by (simp_all add: timer_usq_def sample_usq_def walked_def)

lemma timer_walkable: "walkable 1 (timer_usq d) (timer_u d)"
  using timer_at [of 1 d] timer_cmds [of d]
  by (auto simp: walkable_def) (simp_all add: timer_usq_def zero_cmd_def busy_cmd_def)

lemma timer_deadlines: "deadlines (walked (timer_usq d)) = {d}"
proof -
  have "cmd_waits (busy_cmd\<lparr>c_timeout := d\<rparr>)" "\<not> cmd_waits zero_cmd"
    by (simp_all add: cmd_waits_def busy_cmd_def zero_cmd_def)
  then show ?thesis by (simp add: timer_cmds deadlines_Cons) (simp add: deadlines_def)
qed

lemma timer_cancellable: "cancellable (timer_u d)"
proof -
  have "c = busy_cmd\<lparr>c_timeout := d\<rparr> \<or> c = zero_cmd" if "command p (timer_u d) = Some c" for p c
  proof -
    have "cmd_at (timer_usq d) (snd p) = Some c"
      using that by (auto simp: command_def timer_at split: option.splits)
    then have "c \<in> set (sq_cmds (timer_usq d)) \<or> c = sq_conflict (timer_usq d)" by (cases "snd p") auto
    then show ?thesis using timer_cmds(1,2) by auto
  qed
  moreover have "\<not> cmd_open zero_cmd" by (simp add: cmd_open_def zero_cmd_def)
  moreover have "length (sq_cmd_count (timer_usq d)) = 255" by (simp add: timer_usq_def sample_usq_def)
  moreover have "c_rq (busy_cmd\<lparr>c_timeout := d\<rparr>) \<noteq> None" "unat (sqe_opcode (c_sqe (busy_cmd\<lparr>c_timeout := d\<rparr>))) < 255"
    "c_flags (busy_cmd\<lparr>c_timeout := d\<rparr>) AND UNVMED_CMD_F_WAKEUP_ON_CQE \<noteq> 0"
    using busy_cmd_open(2) by (simp_all add: busy_cmd_def zero_cmd_def zero_sqe_def)
  ultimately show ?thesis unfolding cancellable_def using timer_at by metis
qed

theorem timer_rearmed_witness:
  "\<forall>ops. \<exists>usq' u'. unvmed_timer_handler ops busy_io \<lparr>tv_sec = 5, tv_nsec = 100\<rparr> 1
       (timer_u \<lparr>tv_sec = 5, tv_nsec = 500\<rparr>) = Some (Ok (), u')
     \<and> sq_at 1 u' = Some usq' \<and> \<not> unvmed_timer_running (sq_timer usq')"
proof
  fix ops :: "nat set dma_ops"
  let ?d = "\<lparr>tv_sec = 5, tv_nsec = 500\<rparr>" and ?now = "\<lparr>tv_sec = 5, tv_nsec = 100\<rparr>"
  have "timer_active (sq_timer (timer_usq ?d))" "timer_t (sq_timer (timer_usq ?d)) = 0" "0 < timeout (timer_u ?d)"
    by (simp_all add: timer_usq_def timer_u_def)
  moreover have "\<forall>d\<in>deadlines (walked (timer_usq ?d)). \<not> unvmed_timer_after ?now d \<and> 0 < tv_sec d"
    unfolding timer_deadlines by (simp add: unvmed_timer_after_def)
  ultimately show "\<exists>usq' u'. unvmed_timer_handler ops busy_io ?now 1 (timer_u ?d) = Some (Ok (), u')
     \<and> sq_at 1 u' = Some usq' \<and> \<not> unvmed_timer_running (sq_timer usq')"
    using timer_rearmed [OF timer_walkable, of ?d ?now ops busy_io] unfolding timer_deadlines
    by (auto simp: nearest_def)
qed

theorem timer_expires_witness:
  "\<forall>ops. \<exists>usq' u'. unvmed_timer_handler ops busy_io \<lparr>tv_sec = 10, tv_nsec = 0\<rparr> 1
       (timer_u \<lparr>tv_sec = 5, tv_nsec = 500\<rparr>) = Some (Ok (), u')
     \<and> sq_at 1 u' = Some usq' \<and> unvmed_cqe_status (c_cqe (sq_cmds usq' ! 0)) = Inl ETIMEDOUT"
proof
  fix ops :: "nat set dma_ops"
  let ?d = "\<lparr>tv_sec = 5, tv_nsec = 500\<rparr>" and ?now = "\<lparr>tv_sec = 10, tv_nsec = 0\<rparr>"
  let ?c = "busy_cmd\<lparr>c_timeout := ?d\<rparr>"
  have pre: "timer_active (sq_timer (timer_usq ?d))" "1 \<notin> sq_locked (timer_u ?d)"
    by (simp_all add: timer_usq_def timer_u_def)
  have slots: "\<forall>i < length (sq_cmds (timer_usq ?d)). slot_ok i (sq_cmds (timer_usq ?d) ! i)"
    by (auto simp: timer_usq_def slot_ok_def busy_cmd_def zero_cmd_def nth_Cons less_Suc_eq split: nat.splits)
  have late: "cmd_late ?now ?c"
    by (simp add: cmd_late_def cmd_waits_def busy_cmd_def unvmed_timer_after_def)
  have first: "?c \<in> set (walked (timer_usq ?d))" "sq_cmds (timer_usq ?d) ! 0 = ?c" "0 < sq_qsize (timer_usq ?d) - 1"
    by (simp_all add: timer_cmds) (simp add: timer_usq_def)
  have wake: "c_flags ?c AND UNVMED_CMD_F_WAKEUP_ON_CQE \<noteq> 0" using busy_cmd_open(2) by simp
  have "io_sct_shift busy_io = 8" by (simp add: busy_io_def)
  from timer_expires [OF timer_walkable timer_cancellable pre slots first(1) late this, of ops] first late wake
  show "\<exists>usq' u'. unvmed_timer_handler ops busy_io ?now 1 (timer_u ?d) = Some (Ok (), u')
     \<and> sq_at 1 u' = Some usq' \<and> unvmed_cqe_status (c_cqe (sq_cmds usq' ! 0)) = Inl ETIMEDOUT"
    by metis
qed

end
