(* ===== verification/Irq.thy ===== *)
theory Irq
  imports Poll
begin

unbundle bit_operations_syntax

text \<open>
  Interrupts, \<open>lib/libunvmed.c\<close>: the vectors a controller uses, the reaper of each vector with its
  event and epoll descriptors, its thread and its list of completion queues, and the release of
  completion queues, which drops references of reapers. A reaper pointer is its vector.
\<close>

subsection \<open>State\<close>

record unvme_cq_reaper =
  r_refcnt :: int
  r_vector :: nat
  r_epoll_fd :: int
  r_efd :: int
  r_running :: bool
  r_stop :: bool
  r_cqs :: "nat list"

text \<open>A reaper after \<open>calloc()\<close> or \<open>memset()\<close>.\<close>

definition zero_reaper :: unvme_cq_reaper where
  "zero_reaper = \<lparr>r_refcnt = 0, r_vector = 0, r_epoll_fd = 0, r_efd = 0, r_running = False, r_stop = False,
     r_cqs = []\<rparr>"

text \<open>
  The interrupt part of \<open>struct unvme\<close>: \<open>irq_count\<close> is \<open>irq_info.count\<close>, \<open>open_fds\<close> the open
  descriptors of reapers. \<open>u->nr_efds\<close> is the length of \<open>efds\<close>, and \<open>reapers\<close> has that length.
\<close>

record ('m, 'r) unvme_irq = "('m, 'r) unvme" +
  irq_count :: int
  nr_irqs :: int
  efds :: "int list"
  reapers :: "unvme_cq_reaper list"
  open_fds :: "int set"

text \<open>
  The results of the system and libvfn calls of one initialisation: \<open>eventfd()\<close>,
  \<open>epoll_create1()\<close>, disabling all vectors, setting the vectors, and creating the thread.
\<close>

record irq_sys =
  sys_eventfd :: "errno + int"
  sys_epoll :: "errno + int"
  sys_disable :: "errno option"
  sys_set_irq :: "errno option"
  sys_thread :: "errno option"

definition reaper_store ::
  "nat \<Rightarrow> unvme_cq_reaper \<Rightarrow> ('m, 'r, 'z) unvme_irq_scheme \<Rightarrow> ('m, 'r, 'z) unvme_irq_scheme" where
  "reaper_store v r u = u\<lparr>reapers := (reapers u)[v := r]\<rparr>"

subsection \<open>Reapers\<close>

definition unvmed_init_irq_reaper ::
  "irq_sys \<Rightarrow> nat \<Rightarrow> ('m, 'r, 'z) unvme_irq_scheme \<Rightarrow> unit outcome \<times> ('m, 'r, 'z) unvme_irq_scheme" where
  "unvmed_init_irq_reaper sys v u =
     (case nth_opt (reapers u) v of
        None \<Rightarrow> (Fault, u)
      | Some r0 \<Rightarrow>
          let r = r0\<lparr>r_vector := v, r_running := False, r_stop := False, r_cqs := []\<rparr> in
          (case sys_eventfd sys of
             Inl e \<Rightarrow> (Fail e, reaper_store v (r\<lparr>r_efd := -1\<rparr>) u)
           | Inr efd \<Rightarrow>
               (case sys_epoll sys of
                  Inl e \<Rightarrow> (Fail e, reaper_store v (r\<lparr>r_efd := efd, r_epoll_fd := -1\<rparr>) u)
                | Inr ep \<Rightarrow>
                    (Ok (), reaper_store v (r\<lparr>r_efd := efd, r_epoll_fd := ep\<rparr>)
                       (u\<lparr>efds := (efds u)[v := efd], open_fds := open_fds u \<union> {efd, ep}\<rparr>)))))"

text \<open>\<open>unvmed_reaper_join()\<close> wakes the thread and waits for its end, which its loop grants.\<close>

definition unvmed_reaper_join ::
  "nat \<Rightarrow> ('m, 'r, 'z) unvme_irq_scheme \<Rightarrow> unit outcome \<times> ('m, 'r, 'z) unvme_irq_scheme" where
  "unvmed_reaper_join v u =
     (case nth_opt (reapers u) v of
        None \<Rightarrow> (Fault, u)
      | Some r \<Rightarrow> (Ok (), if r_running r then reaper_store v (r\<lparr>r_running := False\<rparr>) u else u))"

definition unvmed_free_irq_reaper ::
  "nat \<Rightarrow> ('m, 'r, 'z) unvme_irq_scheme \<Rightarrow> unit outcome \<times> ('m, 'r, 'z) unvme_irq_scheme" where
  "unvmed_free_irq_reaper v u =
     (case nth_opt (reapers u) v of
        None \<Rightarrow> (Fault, u)
      | Some r \<Rightarrow>
          (Ok (), reaper_store v zero_reaper
             (u\<lparr>efds := (efds u)[r_vector r := -1], open_fds := open_fds u - {r_efd r, r_epoll_fd r}\<rparr>)))"

text \<open>Registering and removing a completion queue; \<open>mem\<close> says whether the entry can be had.\<close>

definition unvmed_reaper_add_cq ::
  "bool \<Rightarrow> nat \<Rightarrow> ('m, 'r, 'z) unvme_irq_scheme \<Rightarrow> unit outcome \<times> ('m, 'r, 'z) unvme_irq_scheme" where
  "unvmed_reaper_add_cq mem cqid u =
     (case nth_opt (cqs u) cqid of
        Some (Some ucq) \<Rightarrow>
          (let vector = cq_vector ucq in
           if vector < 0 \<or> int (length (efds u)) \<le> vector then (Ok (), u)
           else (case nth_opt (reapers u) (nat vector) of
                   None \<Rightarrow> (Fault, u)
                 | Some r \<Rightarrow>
                     if r_refcnt r = 0 then (Ok (), u)
                     else if \<not> mem then (Fail ENOMEM, u)
                     else (Ok (), reaper_store (nat vector) (r\<lparr>r_cqs := r_cqs r @ [cqid]\<rparr>) u)))
      | _ \<Rightarrow> (Fault, u))"

definition unvmed_reaper_del_cq ::
  "nat \<Rightarrow> ('m, 'r, 'z) unvme_irq_scheme \<Rightarrow> unit outcome \<times> ('m, 'r, 'z) unvme_irq_scheme" where
  "unvmed_reaper_del_cq cqid u =
     (case nth_opt (cqs u) cqid of
        Some (Some ucq) \<Rightarrow>
          (let vector = cq_vector ucq in
           if vector < 0 \<or> int (length (efds u)) \<le> vector then (Ok (), u)
           else (case nth_opt (reapers u) (nat vector) of
                   None \<Rightarrow> (Fault, u)
                 | Some r \<Rightarrow> (Ok (), reaper_store (nat vector) (r\<lparr>r_cqs := remove1 cqid (r_cqs r)\<rparr>) u)))
      | _ \<Rightarrow> (Fault, u))"

subsection \<open>References of a vector\<close>

text \<open>\<open>unvmed_free_irq()\<close>; \<open>err\<close> is the error of disabling the vector, if any.\<close>

definition unvmed_free_irq ::
  "errno option \<Rightarrow> nat \<Rightarrow> ('m, 'r, 'z) unvme_irq_scheme \<Rightarrow> unit outcome \<times> ('m, 'r, 'z) unvme_irq_scheme" where
  "unvmed_free_irq err v u =
     (case nth_opt (reapers u) v of
        None \<Rightarrow> (Fault, u)
      | Some r \<Rightarrow>
          if r_refcnt r = 0 then (Ok (), u)
          else
            let refcnt = r_refcnt r - 1; u1 = reaper_store v (r\<lparr>r_refcnt := refcnt\<rparr>) u in
            if 0 < refcnt then (Ok (), u1)
            else andthen (unvmed_reaper_join v u1) (\<lambda>_ u2.
              case err of Some e \<Rightarrow> (Fail e, u2) | None \<Rightarrow> unvmed_free_irq_reaper v u2))"

text \<open>The failure of a call after a reaper has been released.\<close>

definition undo_reaper ::
  "errno \<Rightarrow> nat \<Rightarrow> ('m, 'r, 'z) unvme_irq_scheme \<Rightarrow> unit outcome \<times> ('m, 'r, 'z) unvme_irq_scheme" where
  "undo_reaper e v u = andthen (unvmed_free_irq_reaper v u) (\<lambda>_ u1. (Fail e, u1))"

definition unvmed_init_irq ::
  "irq_sys \<Rightarrow> nat \<Rightarrow> ('m, 'r, 'z) unvme_irq_scheme \<Rightarrow> unit outcome \<times> ('m, 'r, 'z) unvme_irq_scheme" where
  "unvmed_init_irq sys v u =
     (if nr_irqs u \<le> int v then (Fail EINVAL, u)
      else case nth_opt (reapers u) v of
        None \<Rightarrow> (Fault, u)
      | Some r \<Rightarrow>
          let refcnt = r_refcnt r + 1; u1 = reaper_store v (r\<lparr>r_refcnt := refcnt\<rparr>) u in
          if 1 < refcnt then (Ok (), u1)
          else andthen (unvmed_init_irq_reaper sys v u1) (\<lambda>_ u2.
            case sys_disable sys of
              Some e \<Rightarrow> undo_reaper e v u2
            | None \<Rightarrow>
                (case sys_set_irq sys of
                   Some e \<Rightarrow> undo_reaper e v u2
                 | None \<Rightarrow>
                     (case sys_thread sys of
                        Some e \<Rightarrow> undo_reaper e v u2
                      | None \<Rightarrow>
                          (case nth_opt (reapers u2) v of
                             None \<Rightarrow> (Fault, u2)
                           | Some r2 \<Rightarrow> (Ok (), reaper_store v (r2\<lparr>r_running := True\<rparr>) u2))))))"

subsection \<open>The number of vectors\<close>

text \<open>
  \<open>unvmed_lower_pow2()\<close>; the doubling loop is bounded by \<open>fuel\<close> rounds, and the argument is a
  count of interrupt vectors, for which 31 are enough.
\<close>

fun double_until :: "nat \<Rightarrow> int \<Rightarrow> int \<Rightarrow> int option" where
  "double_until 0 n pw = None"
| "double_until (Suc fuel) n pw =
     (if pw < n then double_until fuel n (push_bit 1 pw) else Some pw)"

definition unvmed_lower_pow2 :: "int \<Rightarrow> int option" where
  "unvmed_lower_pow2 n =
     (if n \<le> 1 then Some 0
      else if n AND (n - 1) = 0 then Some (drop_bit 1 n)
      else map_option (drop_bit 1) (double_until 32 n 1))"

text \<open>
  The search of \<open>unvmed_alloc_irqs()\<close>; \<open>refused n\<close> says that the kernel does not take \<open>n\<close> vectors.
\<close>

fun adjust_irqs :: "nat \<Rightarrow> (int \<Rightarrow> bool) \<Rightarrow> int \<Rightarrow> int option" where
  "adjust_irqs 0 refused n = None"
| "adjust_irqs (Suc fuel) refused n =
     (if 0 < n \<and> refused n
      then (case unvmed_lower_pow2 n of None \<Rightarrow> None | Some m \<Rightarrow> adjust_irqs fuel refused m)
      else Some n)"

text \<open>\<open>info\<close> is the result of \<open>vfio_pci_get_irq_info()\<close>, \<open>mem\<close> whether the array can be had.\<close>

definition unvmed_alloc_irqs ::
  "(errno + int) \<Rightarrow> (int \<Rightarrow> bool) \<Rightarrow> bool \<Rightarrow> ('m, 'r, 'z) unvme_irq_scheme
   \<Rightarrow> (unit outcome \<times> ('m, 'r, 'z) unvme_irq_scheme) option" where
  "unvmed_alloc_irqs info refused mem u =
     (case info of
        Inl e \<Rightarrow> Some (Fail e, u)
      | Inr cnt \<Rightarrow>
          let u1 = u\<lparr>irq_count := cnt\<rparr> in
          (case adjust_irqs 33 refused cnt of
             None \<Rightarrow> None
           | Some n \<Rightarrow>
               if n = 0 then Some (Fail ERRNO_UNSET, u1)
               else if \<not> mem then Some (Fail ENOMEM, u1\<lparr>nr_irqs := n\<rparr>)
               else Some (Ok (), u1\<lparr>nr_irqs := n, efds := replicate (nat n) (-1),
                      reapers := replicate (nat n) zero_reaper\<rparr>)))"

subsection \<open>Releasing all vectors\<close>

text \<open>
  \<open>unvmed_free_irq_all()\<close> drops all references of a vector but one before the last put; \<open>errs\<close>
  gives the error of disabling each vector.
\<close>

definition drop_refs :: "nat \<Rightarrow> ('m, 'r, 'z) unvme_irq_scheme \<Rightarrow> ('m, 'r, 'z) unvme_irq_scheme" where
  "drop_refs v u =
     (case nth_opt (reapers u) v of
        None \<Rightarrow> u
      | Some r \<Rightarrow> if 1 < r_refcnt r then reaper_store v (r\<lparr>r_refcnt := 1\<rparr>) u else u)"

definition free_vector ::
  "(nat \<Rightarrow> errno option) \<Rightarrow> nat \<Rightarrow> ('m, 'r, 'z) unvme_irq_scheme \<Rightarrow> ('m, 'r, 'z) unvme_irq_scheme" where
  "free_vector errs v u = snd (unvmed_free_irq (errs v) v (drop_refs v u))"

definition unvmed_free_irq_all ::
  "(nat \<Rightarrow> errno option) \<Rightarrow> ('m, 'r, 'z) unvme_irq_scheme \<Rightarrow> ('m, 'r, 'z) unvme_irq_scheme" where
  "unvmed_free_irq_all errs u = fold (free_vector errs) [0..<length (efds u)] u"

definition unvmed_free_irqs ::
  "(nat \<Rightarrow> errno option) \<Rightarrow> ('m, 'r, 'z) unvme_irq_scheme \<Rightarrow> ('m, 'r, 'z) unvme_irq_scheme" where
  "unvmed_free_irqs errs u = (unvmed_free_irq_all errs u)\<lparr>reapers := [], efds := []\<rparr>"

definition stop_reaper :: "nat \<Rightarrow> ('m, 'r, 'z) unvme_irq_scheme \<Rightarrow> ('m, 'r, 'z) unvme_irq_scheme" where
  "stop_reaper v u =
     (case nth_opt (reapers u) v of
        None \<Rightarrow> u
      | Some r \<Rightarrow> snd (unvmed_reaper_join v (reaper_store v (r\<lparr>r_stop := True\<rparr>) u)))"

definition unvmed_stop_reapers :: "('m, 'r, 'z) unvme_irq_scheme \<Rightarrow> ('m, 'r, 'z) unvme_irq_scheme" where
  "unvmed_stop_reapers u = (if reapers u = [] then u else fold stop_reaper [0..<length (efds u)] u)"

subsection \<open>The reaper thread\<close>

fun reap_cqs ::
  "nat \<Rightarrow> 'r io_env \<Rightarrow> nat list \<Rightarrow> ('m, 'r, 'z) unvme_scheme \<Rightarrow> (unit, 'm, 'r, 'z) blocking" where
  "reap_cqs fuel io [] u = Some (Ok (), u)"
| "reap_cqs fuel io (cqid # cqids) u =
     thenb (unvmed_reap_cqe_u2 fuel io cqid u) (\<lambda>_ u1. reap_cqs fuel io cqids u1)"

text \<open>
  \<open>unvmed_reaper_run()\<close>: \<open>wait\<close> is what happens until \<open>unvmed_cq_wait_irq()\<close> returns, with its
  result (\<open>False\<close> for an error), and \<open>rounds\<close> bounds the rounds of the thread. The thread ends when the wait
  fails, when it is told to stop, when the vector has no references, or when the controller is in
  teardown.
\<close>

fun unvmed_reaper_run ::
  "nat \<Rightarrow> nat \<Rightarrow> 'r io_env \<Rightarrow> (('m, 'r, 'z) unvme_irq_scheme \<Rightarrow> bool \<times> ('m, 'r, 'z) unvme_irq_scheme)
   \<Rightarrow> nat \<Rightarrow> ('m, 'r, 'z) unvme_irq_scheme \<Rightarrow> (unit outcome \<times> ('m, 'r, 'z) unvme_irq_scheme) option" where
  "unvmed_reaper_run 0 fuel io wait v u = None"
| "unvmed_reaper_run (Suc rounds) fuel io wait v u0 =
     (case wait u0 of
        (ok, u) \<Rightarrow>
          if \<not> ok then Some (Ok (), u)
          else (case nth_opt (reapers u) v of
                  None \<Rightarrow> Some (Fault, u)
                | Some r \<Rightarrow>
                    if r_stop r \<or> r_refcnt r = 0 \<or> u_state u = UNVME_TEARDOWN then Some (Ok (), u)
                    else thenb (reap_cqs fuel io (r_cqs r) u)
                           (\<lambda>_ u1. unvmed_reaper_run rounds fuel io wait v u1)))"

subsection \<open>Releasing completion queues\<close>

text \<open>\<open>__unvmed_delete_cq()\<close>; the result of freeing the vector is dropped.\<close>

definition unvmed_delete_cq_u2 ::
  "nvme_cq \<Rightarrow> errno option \<Rightarrow> nat \<Rightarrow> ('m, 'r, 'z) unvme_irq_scheme
   \<Rightarrow> unit outcome \<times> ('m, 'r, 'z) unvme_irq_scheme" where
  "unvmed_delete_cq_u2 gone err qid u =
     (case nth_opt (cqs u) qid of
        Some (Some ucq) \<Rightarrow>
          let irq = unvmed_cq_irq_enabled ucq; vector = cq_vector ucq in
          andthen (if irq then unvmed_reaper_del_cq qid u else (Ok (), u)) (\<lambda>_ u1.
          andthen (unvmed_discard_cq gone qid u1) (\<lambda>_ u2.
            let u3 = snd (unvmed_cq_put qid u2) in
            if irq then (case unvmed_free_irq err (nat vector) u3 of
                           (Fault, u4) \<Rightarrow> (Fault, u4) | (_, u4) \<Rightarrow> (Ok (), u4))
            else (Ok (), u3)))
      | _ \<Rightarrow> (Fault, u))"

fun delete_cqs ::
  "nvme_cq \<Rightarrow> nat list \<Rightarrow> ('m, 'r, 'z) unvme_irq_scheme \<Rightarrow> unit outcome \<times> ('m, 'r, 'z) unvme_irq_scheme" where
  "delete_cqs gone [] u = (Ok (), u)"
| "delete_cqs gone (qid # qids) u =
     (case unvmed_cq_get qid u of
        None \<Rightarrow> delete_cqs gone qids u
      | Some u1 \<Rightarrow>
          andthen (unvmed_reaper_del_cq qid u1) (\<lambda>_ u2.
            case unvmed_cq_put qid u2 of
              (refcnt, u3) \<Rightarrow>
                if refcnt \<le> 0 then (Fault, u3)
                else andthen (unvmed_discard_cq gone qid u3) (\<lambda>_ u4.
                       delete_cqs gone qids (snd (unvmed_cq_put qid u4)))))"

definition unvmed_delete_cq_all_u2 ::
  "nvme_cq \<Rightarrow> (nat \<Rightarrow> errno option) \<Rightarrow> ('m, 'r, 'z) unvme_irq_scheme
   \<Rightarrow> unit outcome \<times> ('m, 'r, 'z) unvme_irq_scheme" where
  "unvmed_delete_cq_all_u2 gone errs u =
     andthen (delete_cqs gone [0..<length (cqs u)] u) (\<lambda>_ u1. (Ok (), unvmed_free_irq_all errs u1))"

definition unvmed_free_ctx ::
  "'r nvme_sq \<Rightarrow> nvme_cq \<Rightarrow> (nat \<Rightarrow> errno option) \<Rightarrow> ('m, 'r, 'z) unvme_irq_scheme
   \<Rightarrow> unit outcome \<times> ('m, 'r, 'z) unvme_irq_scheme" where
  "unvmed_free_ctx sq_gone cq_gone errs u =
     andthen (unvmed_delete_sq_all_u2 sq_gone u) (\<lambda>_ u1. unvmed_delete_cq_all_u2 cq_gone errs u1)"

end
