(* ===== verification/Irq_Facts.thy ===== *)
theory Irq_Facts
  imports Irq Completion_Facts
begin

unbundle bit_operations_syntax

text \<open>
  Interrupts: the number of vectors that the controller ends up with, the references of the
  reapers with the descriptors and threads they own, and what a failed initialisation leaves.
\<close>

subsection \<open>The number of vectors\<close>

lemma and_pred_pow2:
  fixes n :: int
  assumes "0 < n" and "n AND (n - 1) = 0"
  shows "\<exists>k. n = 2 ^ k"
  using assms
proof (induction "nat n" arbitrary: n rule: less_induct)
  case less
  show ?case
  proof (cases "n = 1")
    case True
    then have "n = 2 ^ 0" by simp
    then show ?thesis ..
  next
    case False
    define m where "m = n div 2"
    have rec: "n AND (n - 1) = of_bool (odd n \<and> odd (n - 1)) + 2 * (n div 2 AND (n - 1) div 2)"
      by (rule and_int_rec)
    have "n div 2 AND (n - 1) div 2 = 0" using rec less.prems(2) by auto
    moreover have "even n"
    proof (rule ccontr)
      assume "odd n"
      then have "(n - 1) div 2 = n div 2" by (elim oddE) simp
      then have "n div 2 = 0" using \<open>n div 2 AND (n - 1) div 2 = 0\<close> by simp
      with False less.prems(1) show False by (simp add: div_eq_0_iff)
    qed
    moreover have "(2 * m - 1) div 2 = m - 1" by presburger
    ultimately have "m AND (m - 1) = 0" "n = 2 * m" by (auto simp: m_def)
    moreover have "0 < m" "nat m < nat n" using \<open>n = 2 * m\<close> less.prems(1) by auto
    ultimately obtain k where "m = 2 ^ k" using less.hyps by blast
    then have "n = 2 ^ Suc k" using \<open>n = 2 * m\<close> by simp
    then show ?thesis ..
  qed
qed

lemma double_until_pow2:
  assumes "1 < n" and "n \<le> 2 ^ m" and "m < fuel + j" and "j = 0 \<or> 2 ^ (j - 1) < n" and "j \<le> m"
  shows "\<exists>k. double_until fuel n (2 ^ j) = Some (2 ^ Suc k) \<and> 2 ^ k < n \<and> n \<le> 2 ^ Suc k"
  using assms
proof (induction fuel arbitrary: j)
  case 0 then show ?case by simp
next
  case (Suc fuel)
  show ?case
  proof (cases "2 ^ j < n")
    case True
    have "j < m"
    proof (rule ccontr)
      assume "\<not> j < m"
      then have "m = j" using Suc.prems(5) by simp
      with True Suc.prems(2) show False by simp
    qed
    with Suc.IH [of "Suc j"] Suc.prems True show ?thesis by (simp add: mult.commute)
  next
    case False
    then obtain k where "j = Suc k" using Suc.prems(1) by (cases j) auto
    with False Suc.prems(4) show ?thesis by (intro exI [of _ k]) simp
  qed
qed

text \<open>The result is the largest power of two below the argument.\<close>

lemma lower_pow2:
  assumes "1 < n" and "n \<le> 2 ^ 31"
  shows "\<exists>k. unvmed_lower_pow2 n = Some (2 ^ k) \<and> 2 ^ k < n \<and> n \<le> 2 ^ Suc k"
proof (cases "n AND (n - 1) = 0")
  case True
  then obtain k where k: "n = 2 ^ k" using and_pred_pow2 assms(1) by force
  then obtain j where "k = Suc j" using assms(1) by (cases k) auto
  with k True assms(1) show ?thesis
    by (intro exI [of _ j]) (simp add: unvmed_lower_pow2_def drop_bit_eq_div)
next
  case False
  obtain k where "double_until 32 n (2 ^ 0) = Some (2 ^ Suc k)" "2 ^ k < n" "n \<le> 2 ^ Suc k"
    using double_until_pow2 [of n 31 32 0] assms by auto
  with False assms(1) show ?thesis
    by (intro exI [of _ k]) (simp add: unvmed_lower_pow2_def drop_bit_eq_div)
qed

text \<open>What the search for a number of vectors returns below \<open>cnt\<close>.\<close>

definition best_count :: "(int \<Rightarrow> bool) \<Rightarrow> int \<Rightarrow> int \<Rightarrow> bool" where
  "best_count refused cnt n \<longleftrightarrow>
     n = 0 \<and> (\<forall>k. 2 ^ k < cnt \<longrightarrow> refused (2 ^ k))
     \<or> (\<exists>k. n = 2 ^ k \<and> n < cnt \<and> \<not> refused n \<and> (\<forall>j. n < 2 ^ j \<and> 2 ^ j < cnt \<longrightarrow> refused (2 ^ j)))"

lemma pow2_between:
  fixes j k :: nat and n :: int
  assumes "2 ^ k < n" and "n \<le> 2 ^ Suc k" and "(2::int) ^ j < n"
  shows "j \<le> k"
proof (rule ccontr)
  assume "\<not> j \<le> k"
  then have "(2::int) ^ Suc k \<le> 2 ^ j" by (intro power_increasing) auto
  with assms show False by simp
qed

lemma best_count_step:
  assumes "2 ^ k < n" and "n \<le> 2 ^ Suc k" and "refused (2 ^ k)" and "best_count refused (2 ^ k) m"
  shows "best_count refused n m"
proof -
  have below: "refused (2 ^ j)" if "2 ^ j < n" "\<not> (2::int) ^ j < 2 ^ k" for j
  proof -
    have "j = k" using pow2_between [OF assms(1,2) that(1)] that(2) by simp
    then show ?thesis using assms(3) by simp
  qed
  consider "m = 0" "\<And>j. (2::int) ^ j < 2 ^ k \<Longrightarrow> refused (2 ^ j)"
    | i where "m = 2 ^ i" "m < 2 ^ k" "\<not> refused m" "\<And>j. m < 2 ^ j \<Longrightarrow> (2::int) ^ j < 2 ^ k \<Longrightarrow> refused (2 ^ j)"
    using assms(4) unfolding best_count_def by blast
  then show ?thesis
  proof cases
    case 1
    with below show ?thesis unfolding best_count_def by blast
  next
    case (2 i)
    have "m < n" using 2(2) assms(1) by simp
    with 2 below show ?thesis unfolding best_count_def by blast
  qed
qed

lemma adjust_stop: "0 < fuel \<Longrightarrow> \<not> (0 < n \<and> refused n) \<Longrightarrow> adjust_irqs fuel refused n = Some n"
  by (cases fuel) auto

lemma adjust_step:
  "0 < fuel \<Longrightarrow> 0 < n \<Longrightarrow> refused n \<Longrightarrow> unvmed_lower_pow2 n = Some m \<Longrightarrow>
     adjust_irqs fuel refused n = adjust_irqs (fuel - 1) refused m"
  by (cases fuel) auto

lemma adjust_pow2:
  "k + 2 \<le> fuel \<Longrightarrow> k \<le> 31 \<Longrightarrow>
     \<exists>m. adjust_irqs fuel refused (2 ^ k) = Some m
       \<and> (if refused (2 ^ k) then best_count refused (2 ^ k) m else m = 2 ^ k)"
proof (induction k arbitrary: fuel)
  case 0
  then obtain f where "fuel = Suc (Suc f)" by (cases fuel; cases "fuel - 1") auto
  moreover have "\<not> (2::int) ^ j < 1" for j using one_le_power [of "2::int" j] by linarith
  then have "best_count refused 1 0" by (simp add: best_count_def)
  ultimately show ?case by (simp add: unvmed_lower_pow2_def)
next
  case (Suc k)
  then obtain f where f: "fuel = Suc f" by (cases fuel) auto
  have pow: "(2::int) ^ Suc k \<le> 2 ^ 31" using Suc.prems(2) by (intro power_increasing) auto
  have one: "(1::int) < 2 ^ Suc k" using one_le_power [of "2::int" k] by (simp only: power_Suc) linarith
  obtain j where j: "unvmed_lower_pow2 (2 ^ Suc k) = Some (2 ^ j)" "(2::int) ^ j < 2 ^ Suc k" "(2::int) ^ Suc k \<le> 2 ^ Suc j"
    using lower_pow2 [OF one pow] by blast
  then have "j = k" by (simp del: power_Suc)
  obtain m where m: "adjust_irqs f refused (2 ^ k) = Some m"
    "if refused (2 ^ k) then best_count refused (2 ^ k) m else m = 2 ^ k"
    using Suc.IH [of f] Suc.prems f by auto
  have "best_count refused (2 ^ Suc k) m"
  proof (cases "refused (2 ^ k)")
    case True
    then have "best_count refused (2 ^ k) m" using m(2) by simp
    then show ?thesis by (rule best_count_step [rotated 3]) (simp_all add: True)
  next
    case False
    have "refused (2 ^ i)" if "(2::int) ^ k < 2 ^ i" "(2::int) ^ i < 2 ^ Suc k" for i
      using that by (simp del: power_Suc)
    with False m(2) show ?thesis unfolding best_count_def by (intro disjI2 exI [of _ k]) auto
  qed
  with m(1) j(1) \<open>j = k\<close> f show ?case by (simp del: power_Suc)
qed


text \<open>Allocating the interrupt vectors ends for every count the device may report. It fails
  when the kernel takes no vector at all; otherwise the controller gets the count of the device if
  the kernel takes it, else the largest power of two below it that the kernel takes, with one
  unused reaper and one unassigned descriptor for each vector.
\<close>

theorem alloc_irqs_outcome:
  assumes "0 \<le> cnt" and "cnt \<le> 2 ^ 30"
  shows "\<exists>n. (if 0 < cnt \<and> refused cnt then best_count refused cnt n else n = cnt)
    \<and> unvmed_alloc_irqs (Inr cnt) refused True u =
        Some (if n = 0 then (Fail ERRNO_UNSET, u\<lparr>irq_count := cnt\<rparr>)
              else (Ok (), u\<lparr>irq_count := cnt, nr_irqs := n, efds := replicate (nat n) (-1),
                     reapers := replicate (nat n) zero_reaper\<rparr>))"
proof -
  obtain n where n: "adjust_irqs 33 refused cnt = Some n"
    "if 0 < cnt \<and> refused cnt then best_count refused cnt n else n = cnt"
  proof (cases "0 < cnt \<and> refused cnt")
    case False
    then have "adjust_irqs 33 refused cnt = Some cnt" by (intro adjust_stop) auto
    with False that show thesis by auto
  next
    case busy: True
    show thesis
    proof (cases "cnt = 1")
      case True
      have "\<not> (2::int) ^ j < 1" for j using one_le_power [of "2::int" j] by linarith
      then have "best_count refused 1 0" by (simp add: best_count_def)
      moreover have "adjust_irqs 33 refused 1 = Some 0"
        using busy True by (simp add: adjust_step [where m = 0] adjust_stop unvmed_lower_pow2_def)
      ultimately show thesis using that busy True by auto
    next
      case False
      then have range: "1 < cnt" "cnt \<le> 2 ^ 31" using busy assms by auto
      obtain k where k: "unvmed_lower_pow2 cnt = Some (2 ^ k)" "2 ^ k < cnt" "cnt \<le> 2 ^ Suc k"
        using lower_pow2 [OF range] by blast
      have "(2::int) ^ k < 2 ^ 30" using k(2) assms(2) by linarith
      then have "k < 30" using power_strict_increasing_iff [of "2::int" k 30] by simp
      then obtain m where m: "adjust_irqs 32 refused (2 ^ k) = Some m"
        "if refused (2 ^ k) then best_count refused (2 ^ k) m else m = 2 ^ k"
        using adjust_pow2 [of k 32 refused] by auto
      have run: "adjust_irqs 33 refused cnt = Some m" using busy m(1) by (simp add: adjust_step [OF _ _ _ k(1)])
      have "best_count refused cnt m"
      proof (cases "refused (2 ^ k)")
        case True with m(2) best_count_step [OF k(2,3)] show ?thesis by auto
      next
        case False
        have "refused (2 ^ j)" if "(2::int) ^ k < 2 ^ j" "2 ^ j < cnt" for j
          using pow2_between [OF k(2,3) that(2)] that(1) by simp
        with False m(2) k(2) show ?thesis unfolding best_count_def by auto
      qed
      with run busy that show thesis by auto
    qed
  qed
  show ?thesis
  proof (intro exI [of _ n] conjI)
    show "if 0 < cnt \<and> refused cnt then best_count refused cnt n else n = cnt" by (rule n(2))
    show "unvmed_alloc_irqs (Inr cnt) refused True u =
        Some (if n = 0 then (Fail ERRNO_UNSET, u\<lparr>irq_count := cnt\<rparr>)
              else (Ok (), u\<lparr>irq_count := cnt, nr_irqs := n, efds := replicate (nat n) (-1),
                     reapers := replicate (nat n) zero_reaper\<rparr>))"
      by (simp add: unvmed_alloc_irqs_def Let_def n(1))
  qed
qed


subsection \<open>References of a vector\<close>

text \<open>
  A vector is unused, with an empty reaper and no descriptor, or it has references, two descriptors,
  one of which the kernel signals, and a thread to be joined unless the reapers were stopped.
\<close>

definition fds_of :: "unvme_cq_reaper \<Rightarrow> int set" where
  "fds_of r = (if 0 < r_refcnt r then {r_efd r, r_epoll_fd r} else {})"

definition idle_reaper :: "bool \<Rightarrow> unvme_cq_reaper" where
  "idle_reaper stopped = zero_reaper\<lparr>r_stop := stopped\<rparr>"

lemma idle_reaper_fields [simp]:
  "r_refcnt (idle_reaper s) = 0" "r_running (idle_reaper s) = False" "r_stop (idle_reaper s) = s" "r_cqs (idle_reaper s) = []"
  "fds_of (idle_reaper s) = {}" "(idle_reaper s)\<lparr>r_cqs := []\<rparr> = idle_reaper s"
  "(idle_reaper s)\<lparr>r_stop := s'\<rparr> = idle_reaper s'"
  by (simp_all add: idle_reaper_def zero_reaper_def fds_of_def)

lemma zero_idle [simp]: "zero_reaper = idle_reaper False"
  by (simp add: idle_reaper_def zero_reaper_def)

definition vector_ok :: "nat \<Rightarrow> unvme_cq_reaper \<Rightarrow> int \<Rightarrow> bool" where
  "vector_ok v r efd \<longleftrightarrow> r = idle_reaper (r_stop r) \<and> efd = -1
     \<or> 0 < r_refcnt r \<and> (r_running r \<longleftrightarrow> \<not> r_stop r) \<and> r_vector r = v \<and> efd = r_efd r \<and> 0 \<le> r_efd r \<and> 0 \<le> r_epoll_fd r"

lemma vector_used:
  assumes "vector_ok v r efd" and "0 < r_refcnt r"
  shows "(r_running r \<longleftrightarrow> \<not> r_stop r) \<and> r_vector r = v \<and> efd = r_efd r \<and> 0 \<le> r_efd r \<and> 0 \<le> r_epoll_fd r"
proof -
  have "r \<noteq> idle_reaper s" for s using assms(2) by auto
  with assms(1) show ?thesis by (simp add: vector_ok_def)
qed

lemma vector_refcnt: "vector_ok v r efd \<Longrightarrow> 0 \<le> r_refcnt r"
  unfolding vector_ok_def by (metis idle_reaper_fields(1) order_less_imp_le order_refl)

text \<open>No descriptor is shared, and the open descriptors are those of the vectors.\<close>

definition irq_inv :: "('m, 'r, 'z) unvme_irq_scheme \<Rightarrow> bool" where
  "irq_inv u \<longleftrightarrow> length (efds u) = length (reapers u) \<and> int (length (reapers u)) = nr_irqs u
     \<and> (\<forall>v < length (reapers u). vector_ok v (reapers u ! v) (efds u ! v))
     \<and> (\<forall>v < length (reapers u). \<forall>w < length (reapers u). v \<noteq> w \<longrightarrow> fds_of (reapers u ! v) \<inter> fds_of (reapers u ! w) = {})
     \<and> open_fds u = (\<Union>v < length (reapers u). fds_of (reapers u ! v))"

lemma irq_inv_at: "irq_inv u \<Longrightarrow> v < length (reapers u) \<Longrightarrow> vector_ok v (reapers u ! v) (efds u ! v)"
  by (simp add: irq_inv_def)

text \<open>Changing one vector.\<close>

lemma irq_inv_update:
  assumes inv: "irq_inv u" and v: "v < length (reapers u)"
    and ok: "vector_ok v r e" and fresh: "fds_of r \<inter> (open_fds u - fds_of (reapers u ! v)) = {}"
    and u': "reapers u' = (reapers u)[v := r]" "efds u' = (efds u)[v := e]" "nr_irqs u' = nr_irqs u"
    and fds: "open_fds u' = open_fds u - fds_of (reapers u ! v) \<union> fds_of r"
  shows "irq_inv u'"
proof -
  let ?n = "length (reapers u)" and ?fd = "\<lambda>w. fds_of (reapers u ! w)" and ?fd' = "\<lambda>w. fds_of (reapers u' ! w)"
  have disj: "?fd w \<inter> ?fd x = {}" if "w < ?n" "x < ?n" "w \<noteq> x" for w x
    using inv that by (simp add: irq_inv_def)
  have all: "open_fds u = (\<Union>w < ?n. ?fd w)" using inv by (simp add: irq_inv_def)
  have new: "?fd' w = (if w = v then fds_of r else ?fd w)" if "w < ?n" for w
    using that by (simp add: u'(1) nth_list_update)
  have apart: "fds_of r \<inter> ?fd w = {}" if "w < ?n" "w \<noteq> v" for w
    using fresh disj [OF that(1) v that(2)] that(1) all by blast
  have "open_fds u' = (\<Union>w < ?n. ?fd' w)"
  proof
    show "open_fds u' \<subseteq> (\<Union>w < ?n. ?fd' w)"
    proof
      fix x assume "x \<in> open_fds u'"
      then consider "x \<in> fds_of r" | w where "w < ?n" "x \<in> ?fd w" "x \<notin> ?fd v" unfolding fds all by blast
      then show "x \<in> (\<Union>w < ?n. ?fd' w)"
      proof cases
        case 1 with v new [OF v] show ?thesis by auto
      next
        case (2 w)
        then have "w \<noteq> v" by auto
        with 2 new [OF 2(1)] show ?thesis by auto
      qed
    qed
    show "(\<Union>w < ?n. ?fd' w) \<subseteq> open_fds u'"
    proof
      fix x assume "x \<in> (\<Union>w < ?n. ?fd' w)"
      then obtain w where w: "w < ?n" "x \<in> ?fd' w" by blast
      show "x \<in> open_fds u'"
      proof (cases "w = v")
        case True with w new show ?thesis by (simp add: fds)
      next
        case False
        with w new disj [OF w(1) v False] show ?thesis by (auto simp: fds all)
      qed
    qed
  qed
  moreover have "?fd' w \<inter> ?fd' x = {}" if "w < ?n" "x < ?n" "w \<noteq> x" for w x
    using that new disj apart by (auto simp: Int_commute)
  moreover have "length (efds u) = ?n" using inv by (simp add: irq_inv_def)
  then have "vector_ok w (reapers u' ! w) (efds u' ! w)" if "w < ?n" for w
    using irq_inv_at [OF inv that] ok that by (cases "w = v") (simp_all add: u')
  ultimately show ?thesis using inv by (simp add: irq_inv_def u')
qed


text \<open>A change that keeps the descriptors of a used vector.\<close>

lemma irq_inv_keep:
  assumes "irq_inv u" and "v < length (reapers u)" and "0 < r_refcnt (reapers u ! v)" and "0 < n"
  shows "irq_inv (reaper_store v ((reapers u ! v)\<lparr>r_refcnt := n, r_cqs := l\<rparr>) u)"
proof (rule irq_inv_update [OF assms(1,2)])
  let ?r = "(reapers u ! v)\<lparr>r_refcnt := n, r_cqs := l\<rparr>"
  show "vector_ok v ?r (efds u ! v)"
    using vector_used [OF irq_inv_at [OF assms(1,2)] assms(3)] assms(4) by (simp add: vector_ok_def)
  have same: "fds_of ?r = fds_of (reapers u ! v)" using assms(3,4) by (simp add: fds_of_def)
  show "fds_of ?r \<inter> (open_fds u - fds_of (reapers u ! v)) = {}" by (simp add: same)
  have "fds_of (reapers u ! v) \<subseteq> open_fds u" using assms(1,2) by (auto simp: irq_inv_def)
  then show "open_fds (reaper_store v ?r u) = open_fds u - fds_of (reapers u ! v) \<union> fds_of ?r"
    by (auto simp: same reaper_store_def)
qed (simp_all add: reaper_store_def)

lemma irq_inv_unused: "irq_inv u \<Longrightarrow> v < length (reapers u) \<Longrightarrow> r_refcnt (reapers u ! v) \<le> 0 \<Longrightarrow>
    \<exists>s. reapers u ! v = idle_reaper s \<and> efds u ! v = -1"
  using irq_inv_at [of u v] by (auto simp: vector_ok_def)

text \<open>Both descriptors of an initialisation can be had, and they are new.\<close>

definition fresh_fds :: "irq_sys \<Rightarrow> ('m, 'r, 'z) unvme_irq_scheme \<Rightarrow> bool" where
  "fresh_fds sys u \<longleftrightarrow> (\<exists>a b. sys_eventfd sys = Inr a \<and> sys_epoll sys = Inr b \<and> a \<noteq> b
     \<and> 0 \<le> a \<and> 0 \<le> b \<and> a \<notin> open_fds u \<and> b \<notin> open_fds u)"

definition irq_refs :: "('m, 'r, 'z) unvme_irq_scheme \<Rightarrow> nat \<Rightarrow> int" where
  "irq_refs u v = (case nth_opt (reapers u) v of None \<Rightarrow> 0 | Some r \<Rightarrow> r_refcnt r)"

lemma init_irq_inv:
  assumes "irq_inv u" and "v < length (reapers u)" and "fresh_fds sys u"
  shows "\<exists>res u'. unvmed_init_irq sys v u = (res, u') \<and> irq_inv u' \<and> res \<noteq> Fault
    \<and> irq_refs u' = (if res = Ok () then (irq_refs u)(v := irq_refs u v + 1) else irq_refs u)"
proof -
  let ?r = "reapers u ! v"
  have len: "int v < nr_irqs u" "length (efds u) = length (reapers u)" using assms(1,2) by (auto simp: irq_inv_def)
  have at: "nth_opt (reapers u) v = Some ?r" using assms(2) by simp
  show ?thesis
  proof (cases "0 < r_refcnt ?r")
    case True
    let ?u1 = "reaper_store v (?r\<lparr>r_refcnt := r_refcnt ?r + 1\<rparr>) u"
    have "unvmed_init_irq sys v u = (Ok (), ?u1)" using True len(1) at by (simp add: unvmed_init_irq_def Let_def)
    moreover have "irq_inv ?u1" using irq_inv_keep [OF assms(1,2) True, of "r_refcnt ?r + 1" "r_cqs ?r"] True by simp
    moreover have "irq_refs ?u1 = (irq_refs u)(v := irq_refs u v + 1)"
      using assms(2) by (auto simp: irq_refs_def reaper_store_def nth_opt_update fun_eq_iff)
    ultimately show ?thesis by auto
  next
    case False
    then obtain s where idle: "?r = idle_reaper s" "efds u ! v = -1" using irq_inv_unused [OF assms(1,2)] by auto
    obtain a b where ab: "sys_eventfd sys = Inr a" "sys_epoll sys = Inr b" "a \<noteq> b" "0 \<le> a" "0 \<le> b"
      "a \<notin> open_fds u" "b \<notin> open_fds u" using assms(3) by (auto simp: fresh_fds_def)
    let ?r2 = "\<lparr>r_refcnt = 1, r_vector = v, r_epoll_fd = b, r_efd = a, r_running = False, r_stop = False, r_cqs = []\<rparr>"
    let ?u2 = "u\<lparr>reapers := (reapers u)[v := ?r2], efds := (efds u)[v := a], open_fds := open_fds u \<union> {a, b}\<rparr>"
    have init: "unvmed_init_irq_reaper sys v (reaper_store v (?r\<lparr>r_refcnt := r_refcnt ?r + 1\<rparr>) u) = (Ok (), ?u2)"
      using assms(2) ab idle(1)
      by (simp add: unvmed_init_irq_reaper_def reaper_store_def Let_def idle_reaper_def zero_reaper_def del: zero_idle)
    let ?u4 = "u\<lparr>reapers := (reapers u)[v := zero_reaper]\<rparr>"
    have undo: "undo_reaper e v ?u2 = (Fail e, ?u4)" for e
    proof -
      have "(efds u)[v := -1] = efds u" using idle assms(2) len(2) by (metis list_update_id)
      moreover have "(open_fds u \<union> {a, b}) - {a, b} = open_fds u" using ab by auto
      ultimately show ?thesis
        using assms(2) by (simp add: undo_reaper_def unvmed_free_irq_reaper_def reaper_store_def)
    qed
    show ?thesis
    proof (cases "sys_disable sys = None \<and> sys_set_irq sys = None \<and> sys_thread sys = None")
      case ok: True
      let ?r3 = "?r2\<lparr>r_running := True\<rparr>"
      let ?u3 = "?u2\<lparr>reapers := (reapers u)[v := ?r3]\<rparr>"
      have "unvmed_init_irq sys v u = (Ok (), ?u3)"
        using ok len(1) at idle(1) init assms(2)
        by (simp add: unvmed_init_irq_def Let_def reaper_store_def)
      moreover have "irq_inv ?u3"
      proof (rule irq_inv_update [OF assms(1,2)])
        show "vector_ok v ?r3 a" using ab by (simp add: vector_ok_def)
        show "fds_of ?r3 \<inter> (open_fds u - fds_of (reapers u ! v)) = {}" using ab by (auto simp: fds_of_def)
        show "open_fds ?u3 = open_fds u - fds_of (reapers u ! v) \<union> fds_of ?r3"
          by (simp add: idle(1)) (simp add: fds_of_def)
      qed simp_all
      moreover have "irq_refs ?u3 = (irq_refs u)(v := irq_refs u v + 1)"
        using assms(2) idle(1) by (auto simp: irq_refs_def nth_opt_update fun_eq_iff)
      ultimately show ?thesis by auto
    next
      case False
      then have "\<exists>e. unvmed_init_irq sys v u = (Fail e, ?u4)"
        using len(1) at idle(1) init undo
        by (auto simp: unvmed_init_irq_def Let_def split: option.splits)
      moreover have "irq_inv ?u4"
      proof (rule irq_inv_update [OF assms(1,2)])
        show "vector_ok v zero_reaper (-1)" by (simp add: vector_ok_def)
        show "efds ?u4 = (efds u)[v := -1]" using idle(2) by simp (metis list_update_id)
      qed (use idle(1) in simp_all)
      moreover have "irq_refs ?u4 = irq_refs u"
        using assms(2) idle(1) by (auto simp: irq_refs_def nth_opt_update fun_eq_iff)
      ultimately show ?thesis by auto
    qed
  qed
qed

lemma free_irq_inv:
  assumes "irq_inv u" and "v < length (reapers u)"
  shows "\<exists>u'. unvmed_free_irq None v u = (Ok (), u') \<and> irq_inv u'
    \<and> irq_refs u' = (irq_refs u)(v := (if 0 < irq_refs u v then irq_refs u v - 1 else irq_refs u v))"
proof -
  let ?r = "reapers u ! v"
  have at: "nth_opt (reapers u) v = Some ?r" using assms(2) by simp
  consider "r_refcnt ?r = 0" | "1 < r_refcnt ?r" | "r_refcnt ?r = 1" "r_vector ?r = v" "efds u ! v = r_efd ?r"
    using vector_refcnt [OF irq_inv_at [OF assms]] vector_used [OF irq_inv_at [OF assms]] by fastforce
  then show ?thesis
  proof cases
    case 1
    with at assms(1) show ?thesis by (auto simp: unvmed_free_irq_def irq_refs_def)
  next
    case 2
    let ?u1 = "reaper_store v (?r\<lparr>r_refcnt := r_refcnt ?r - 1\<rparr>) u"
    have "unvmed_free_irq None v u = (Ok (), ?u1)" using 2 at by (simp add: unvmed_free_irq_def Let_def)
    moreover have "irq_inv ?u1" using irq_inv_keep [OF assms, of "r_refcnt ?r - 1" "r_cqs ?r"] 2 by simp
    moreover have "irq_refs ?u1 = (irq_refs u)(v := irq_refs u v - 1)" "0 < irq_refs u v"
      using 2 assms(2) by (auto simp: irq_refs_def reaper_store_def nth_opt_update fun_eq_iff)
    ultimately show ?thesis by auto
  next
    case 3
    let ?u1 = "u\<lparr>reapers := (reapers u)[v := zero_reaper], efds := (efds u)[v := -1],
      open_fds := open_fds u - {r_efd ?r, r_epoll_fd ?r}\<rparr>"
    have "unvmed_free_irq None v u = (Ok (), ?u1)"
      using 3 at assms(2)
      by (simp add: unvmed_free_irq_def unvmed_reaper_join_def unvmed_free_irq_reaper_def reaper_store_def Let_def)
    moreover have "irq_inv ?u1"
      using 3 by (intro irq_inv_update [OF assms]) (auto simp: vector_ok_def fds_of_def)
    moreover have "irq_refs ?u1 = (irq_refs u)(v := irq_refs u v - 1)" "0 < irq_refs u v"
      using 3 assms(2) by (auto simp: irq_refs_def nth_opt_update fun_eq_iff)
    ultimately show ?thesis by auto
  qed
qed


text \<open>
  The steps that threads take on the vectors of a controller: creating and deleting completion
  queues take and drop references, and register a queue with a reaper or remove it; all vectors are
  released; and all reapers are stopped. Descriptors can be created, and the kernel disables a
  vector when it is asked to.
\<close>

inductive irq_step :: "('m, 'r, 'z) unvme_irq_scheme \<Rightarrow> ('m, 'r, 'z) unvme_irq_scheme \<Rightarrow> bool" where
  init_irq: "v < length (reapers u) \<Longrightarrow> fresh_fds sys u \<Longrightarrow> unvmed_init_irq sys v u = (res, u') \<Longrightarrow> irq_step u u'"
| free_irq: "v < length (reapers u) \<Longrightarrow> unvmed_free_irq None v u = (res, u') \<Longrightarrow> irq_step u u'"
| add_cq: "unvmed_reaper_add_cq mem cqid u = (res, u') \<Longrightarrow> irq_step u u'"
| del_cq: "unvmed_reaper_del_cq cqid u = (res, u') \<Longrightarrow> irq_step u u'"
| free_all: "irq_step u (unvmed_free_irq_all (\<lambda>_. None) u)"
| stop: "irq_step u (unvmed_stop_reapers u)"

inductive irq_reach :: "('m, 'r, 'z) unvme_irq_scheme \<Rightarrow> ('m, 'r, 'z) unvme_irq_scheme \<Rightarrow> bool" for u0 where
  start: "irq_reach u0 u0"
| step: "irq_reach u0 u \<Longrightarrow> irq_step u u' \<Longrightarrow> irq_reach u0 u'"

lemma add_cq_inv:
  assumes "irq_inv u" and "unvmed_reaper_add_cq mem cqid u = (res, u')"
  shows "irq_inv u'"
proof (cases "u' = u")
  case False
  define v where "v = nat (cq_vector (the (cqs u ! cqid)))"
  have v: "v < length (reapers u)" "r_refcnt (reapers u ! v) \<noteq> 0"
    and u': "u' = reaper_store v ((reapers u ! v)\<lparr>r_cqs := r_cqs (reapers u ! v) @ [cqid]\<rparr>) u"
    using assms(2) False
    by (auto simp: unvmed_reaper_add_cq_def Let_def v_def split: option.splits if_splits)
  then have "0 < r_refcnt (reapers u ! v)"
    using vector_refcnt [OF irq_inv_at [OF assms(1), of v]] by simp
  then show ?thesis
    using irq_inv_keep [OF assms(1), of v "r_refcnt (reapers u ! v)"] v unfolding u' by auto
qed (use assms in simp)

lemma del_cq_inv:
  assumes "irq_inv u" and "unvmed_reaper_del_cq cqid u = (res, u')"
  shows "irq_inv u'"
proof (cases "u' = u")
  case False
  define v where "v = nat (cq_vector (the (cqs u ! cqid)))"
  have v: "v < length (reapers u)"
    and u': "u' = reaper_store v ((reapers u ! v)\<lparr>r_cqs := remove1 cqid (r_cqs (reapers u ! v))\<rparr>) u"
    using assms(2) False
    by (auto simp: unvmed_reaper_del_cq_def Let_def v_def split: option.splits if_splits)
  show ?thesis
  proof (cases "0 < r_refcnt (reapers u ! v)")
    case True
    then show ?thesis using irq_inv_keep [OF assms(1) v, of "r_refcnt (reapers u ! v)"] unfolding u' by simp
  next
    case not_used: False
    then have "(reapers u ! v)\<lparr>r_cqs := remove1 cqid (r_cqs (reapers u ! v))\<rparr> = reapers u ! v"
      using irq_inv_unused [OF assms(1) v] by auto
    then have "u' = u" unfolding u' by (simp add: reaper_store_def)
    with False show ?thesis by simp
  qed
qed (use assms in simp)

lemma stop_reaper_inv:
  assumes "irq_inv u"
  shows "irq_inv (stop_reaper v u)"
proof (cases "v < length (reapers u)")
  case True
  let ?r = "(reapers u ! v)\<lparr>r_stop := True, r_running := False\<rparr>"
  have eq: "stop_reaper v u = reaper_store v ?r u"
    using True by (cases "reapers u ! v") (auto simp: stop_reaper_def unvmed_reaper_join_def reaper_store_def)
  have fds: "fds_of ?r = fds_of (reapers u ! v)" by (simp add: fds_of_def)
  show ?thesis
    unfolding eq
  proof (rule irq_inv_update [OF assms True])
    show "vector_ok v ?r (efds u ! v)"
    proof (cases "0 < r_refcnt (reapers u ! v)")
      case False
      then obtain s where "reapers u ! v = idle_reaper s" "efds u ! v = -1" using irq_inv_unused [OF assms True] by auto
      then show ?thesis by (simp add: vector_ok_def idle_reaper_def zero_reaper_def del: zero_idle)
    next
      case used: True
      with vector_used [OF irq_inv_at [OF assms True]] show ?thesis by (simp add: vector_ok_def)
    qed
    have "fds_of (reapers u ! v) \<subseteq> open_fds u" using assms True by (auto simp: irq_inv_def)
    then show "open_fds (reaper_store v ?r u) = open_fds u - fds_of (reapers u ! v) \<union> fds_of ?r"
      by (auto simp: fds reaper_store_def)
  qed (auto simp: fds reaper_store_def)
next
  case False
  with assms show ?thesis by (simp add: stop_reaper_def nth_opt_def)
qed

lemma free_vector_inv:
  assumes "irq_inv u"
  shows "irq_inv (free_vector (\<lambda>_. None) v u)"
proof (cases "v < length (reapers u)")
  case True
  have drop: "irq_inv (drop_refs v u)"
    using irq_inv_keep [OF assms True, of 1 "r_cqs (reapers u ! v)"] assms True by (simp add: drop_refs_def)
  moreover have "v < length (reapers (drop_refs v u))" using True by (simp add: drop_refs_def reaper_store_def)
  ultimately show ?thesis using free_irq_inv [of "drop_refs v u" v] by (auto simp: free_vector_def)
next
  case False
  with assms show ?thesis by (simp add: free_vector_def drop_refs_def unvmed_free_irq_def nth_opt_def)
qed

lemma irq_inv_fold: "(\<And>v u. irq_inv u \<Longrightarrow> irq_inv (f v u)) \<Longrightarrow> irq_inv u \<Longrightarrow> irq_inv (fold f vs u)"
  by (induction vs arbitrary: u) auto

lemma irq_reach_inv: "irq_reach u0 u \<Longrightarrow> irq_inv u0 \<Longrightarrow> irq_inv u"
proof (induction rule: irq_reach.induct)
  case (step u u')
  then have "irq_inv u" by simp
  from step.hyps(2) show ?case
  proof cases
    case (init_irq v sys res) then show ?thesis using init_irq_inv [OF \<open>irq_inv u\<close>] by fastforce
  next
    case (free_irq v res) then show ?thesis using free_irq_inv [OF \<open>irq_inv u\<close>] by fastforce
  next
    case (add_cq mem cqid res) then show ?thesis using add_cq_inv [OF \<open>irq_inv u\<close>] by blast
  next
    case (del_cq cqid res) then show ?thesis using del_cq_inv [OF \<open>irq_inv u\<close>] by blast
  next
    case free_all then show ?thesis using \<open>irq_inv u\<close> by (simp add: unvmed_free_irq_all_def irq_inv_fold free_vector_inv)
  next
    case stop then show ?thesis using \<open>irq_inv u\<close> by (simp add: unvmed_stop_reapers_def irq_inv_fold stop_reaper_inv)
  qed
qed simp

lemma double_until_nonneg: "double_until fuel n pw = Some m \<Longrightarrow> 0 \<le> pw \<Longrightarrow> 0 \<le> m"
  by (induction fuel n pw rule: double_until.induct) (auto split: if_splits)

lemma lower_pow2_nonneg: "0 < n \<Longrightarrow> unvmed_lower_pow2 n = Some m \<Longrightarrow> 0 \<le> m"
  using double_until_nonneg [of 32 n 1] by (auto simp: unvmed_lower_pow2_def split: if_splits)

lemma adjust_nonneg: "0 \<le> n \<Longrightarrow> adjust_irqs fuel refused n = Some m \<Longrightarrow> 0 \<le> m"
  by (induction fuel refused n rule: adjust_irqs.induct)
     (auto dest: lower_pow2_nonneg split: if_splits option.splits)

lemma alloc_irqs_inv:
  assumes "unvmed_alloc_irqs (Inr cnt) refused mem u = Some (Ok (), u0)" and "0 \<le> cnt" and "open_fds u = {}"
  shows "irq_inv u0"
proof -
  obtain n where u0: "u0 = u\<lparr>irq_count := cnt, nr_irqs := n, efds := replicate (nat n) (-1),
      reapers := replicate (nat n) zero_reaper\<rparr>" and n: "adjust_irqs 33 refused cnt = Some n"
    using assms(1) by (auto simp: unvmed_alloc_irqs_def Let_def split: option.splits if_splits)
  have "0 \<le> n" using adjust_nonneg [OF assms(2) n] .
  then show ?thesis
    using assms(3) by (auto simp: irq_inv_def u0 vector_ok_def fds_of_def zero_reaper_def)
qed

text \<open>C6. After the vectors of a controller were allocated, whatever references are taken and dropped on
  them, whatever completion queues are registered and removed, and however often all vectors are
  released and all reapers stopped, as long as descriptors can be created and the kernel disables
  vectors: the references are never negative; a vector has a descriptor for the kernel to signal
  exactly while it has references, and a reaper thread to be joined exactly while it has references
  and its reaper was not stopped; and the open descriptors are exactly those of the vectors with
  references, none of them shared.
\<close>

theorem irq_descriptors_owned:
  assumes "unvmed_alloc_irqs (Inr cnt) refused mem u = Some (Ok (), u0)" and "0 \<le> cnt" and "open_fds u = {}"
    and "irq_reach u0 u'" and "v < length (reapers u')"
  shows "(r_running (reapers u' ! v) \<longleftrightarrow> 0 < irq_refs u' v \<and> \<not> r_stop (reapers u' ! v))
    \<and> (efds u' ! v = -1 \<longleftrightarrow> irq_refs u' v = 0)
    \<and> 0 \<le> irq_refs u' v \<and> open_fds u' = (\<Union>w < length (reapers u'). fds_of (reapers u' ! w))
    \<and> (\<forall>w < length (reapers u'). w \<noteq> v \<longrightarrow> fds_of (reapers u' ! v) \<inter> fds_of (reapers u' ! w) = {})"
proof -
  have inv: "irq_inv u'" using irq_reach_inv [OF assms(4) alloc_irqs_inv [OF assms(1-3)]] .
  have "irq_refs u' v = r_refcnt (reapers u' ! v)" using assms(5) by (simp add: irq_refs_def)
  moreover have "(r_running (reapers u' ! v) \<longleftrightarrow> 0 < r_refcnt (reapers u' ! v) \<and> \<not> r_stop (reapers u' ! v))
      \<and> (efds u' ! v = -1 \<longleftrightarrow> r_refcnt (reapers u' ! v) = 0) \<and> 0 \<le> r_refcnt (reapers u' ! v)"
    using vector_used [OF irq_inv_at [OF inv assms(5)]] vector_refcnt [OF irq_inv_at [OF inv assms(5)]]
      irq_inv_unused [OF inv assms(5)]
    by (cases "0 < r_refcnt (reapers u' ! v)") auto
  ultimately show ?thesis using inv assms(5) by (simp add: irq_inv_def)
qed

text \<open>When one of the two descriptors of a vector cannot be created, taking a reference fails
  and yet leaves a reference: the next attempt succeeds, although the vector has no reaper thread
  and no descriptor, so completions on it are never reaped.
\<close>

theorem init_irq_failure_sticks:
  assumes "irq_inv u" and "v < length (reapers u)" and "irq_refs u v = 0"
    and "sys_eventfd sys = Inl e \<or> sys_eventfd sys = Inr a \<and> sys_epoll sys = Inl e"
  shows "\<exists>u1 u2. unvmed_init_irq sys v u = (Fail e, u1) \<and> unvmed_init_irq sys' v u1 = (Ok (), u2)
    \<and> \<not> r_running (reapers u2 ! v) \<and> efds u2 ! v = -1 \<and> irq_refs u2 v = 2"
proof -
  obtain s where zero: "reapers u ! v = idle_reaper s" "efds u ! v = -1"
    using irq_inv_unused [OF assms(1,2)] assms(2,3) by (auto simp: irq_refs_def)
  have len: "int v < nr_irqs u" "\<not> nr_irqs u \<le> int v" using assms(1,2) by (auto simp: irq_inv_def)
  obtain r where r: "unvmed_init_irq sys v u = (Fail e, reaper_store v r u)" "r_refcnt r = 1" "\<not> r_running r"
    using assms(2,4) zero(1) len
    by (auto simp: unvmed_init_irq_def unvmed_init_irq_reaper_def reaper_store_def Let_def zero_reaper_def)
  have "unvmed_init_irq sys' v (reaper_store v r u) = (Ok (), reaper_store v (r\<lparr>r_refcnt := 2\<rparr>) u)"
    using assms(2) len r(2) by (simp add: unvmed_init_irq_def reaper_store_def Let_def)
  with r zero(2) assms(2) show ?thesis by (auto simp: reaper_store_def irq_refs_def)
qed


declare zero_idle [simp del]

subsection \<open>Witnesses\<close>

definition sample_irq :: "(nat set, nat list) unvme_irq" where
  "sample_irq = unvme.extend sample_u
     \<lparr>irq_count = 0, nr_irqs = 0, efds = [], reapers = [], open_fds = {}\<rparr>"

definition sample_irqs :: "(nat set, nat list) unvme_irq" where
  "sample_irqs = sample_irq\<lparr>irq_count := 2, nr_irqs := 2, efds := [-1, -1], reapers := [zero_reaper, zero_reaper]\<rparr>"

definition good_sys :: irq_sys where
  "good_sys = \<lparr>sys_eventfd = Inr 3, sys_epoll = Inr 4, sys_disable = None, sys_set_irq = None, sys_thread = None\<rparr>"

theorem alloc_irqs_outcome_witness:
  "\<exists>n. best_count (\<lambda>k. 4 < k) 6 n \<and> unvmed_alloc_irqs (Inr 6) (\<lambda>k. 4 < k) True sample_irq =
     Some (if n = 0 then (Fail ERRNO_UNSET, sample_irq\<lparr>irq_count := 6\<rparr>)
           else (Ok (), sample_irq\<lparr>irq_count := 6, nr_irqs := n, efds := replicate (nat n) (-1),
                  reapers := replicate (nat n) zero_reaper\<rparr>))"
  using alloc_irqs_outcome [of 6 "\<lambda>k. 4 < k" sample_irq] by simp

lemma sample_alloc: "unvmed_alloc_irqs (Inr 2) (\<lambda>_. False) True sample_irq = Some (Ok (), sample_irqs)"
  by (simp add: unvmed_alloc_irqs_def adjust_stop sample_irqs_def numeral_2_eq_2)

lemma sample_irqs_inv: "irq_inv sample_irqs"
  by (rule alloc_irqs_inv [OF sample_alloc]) (simp_all add: sample_irq_def unvme.extend_def)

theorem irq_descriptors_owned_witness:
  "\<exists>u'. irq_reach sample_irqs u' \<and> irq_refs u' 0 = 1 \<and> r_running (reapers u' ! 0) \<and> efds u' ! 0 \<noteq> -1"
proof -
  have fresh: "0 < length (reapers sample_irqs)" "fresh_fds good_sys sample_irqs"
    by (simp_all add: sample_irqs_def sample_irq_def unvme.extend_def fresh_fds_def good_sys_def)
  have "\<exists>u'. unvmed_init_irq good_sys 0 sample_irqs = (Ok (), u') \<and> irq_refs u' 0 = 1 \<and> length (reapers u') = 2
      \<and> \<not> r_stop (reapers u' ! 0)"
    by (simp add: unvmed_init_irq_def unvmed_init_irq_reaper_def reaper_store_def sample_irqs_def good_sys_def
        zero_reaper_def irq_refs_def Let_def)
  then obtain u' where u': "unvmed_init_irq good_sys 0 sample_irqs = (Ok (), u')" "irq_refs u' 0 = 1"
    "length (reapers u') = 2" "\<not> r_stop (reapers u' ! 0)" by auto
  then have "0 < length (reapers u')" by simp
  have reach: "irq_reach sample_irqs u'" by (rule irq_reach.step [OF irq_reach.start irq_step.init_irq [OF fresh u'(1)]])
  have "open_fds sample_irq = {}" by (simp add: sample_irq_def unvme.extend_def)
  from irq_descriptors_owned [OF sample_alloc _ this reach \<open>0 < length (reapers u')\<close>] u' reach show ?thesis by auto
qed

theorem init_irq_failure_sticks_witness:
  "\<exists>u1 u2. unvmed_init_irq (good_sys\<lparr>sys_epoll := Inl ENOMEM\<rparr>) 1 sample_irqs = (Fail ENOMEM, u1)
     \<and> unvmed_init_irq good_sys 1 u1 = (Ok (), u2) \<and> \<not> r_running (reapers u2 ! 1)"
proof -
  have at: "1 < length (reapers sample_irqs)" "irq_refs sample_irqs 1 = 0"
    by (simp_all add: sample_irqs_def irq_refs_def zero_reaper_def)
  have "sys_eventfd (good_sys\<lparr>sys_epoll := Inl ENOMEM\<rparr>) = Inl ENOMEM
      \<or> sys_eventfd (good_sys\<lparr>sys_epoll := Inl ENOMEM\<rparr>) = Inr 3 \<and> sys_epoll (good_sys\<lparr>sys_epoll := Inl ENOMEM\<rparr>) = Inl ENOMEM"
    by (simp add: good_sys_def)
  from init_irq_failure_sticks [OF sample_irqs_inv at this, of good_sys] show ?thesis by blast
qed

end
