(* ===== verification/Reap_Facts.thy ===== *)
theory Reap_Facts
  imports Completion_Facts
begin

unbundle bit_operations_syntax

text \<open>
  The reaper as its abstract specification: taking completions from a ring one by one and
  completing each is completing the list of completions the ring holds, in their order, and leaves
  the ring empty. What the reaper needs of the ring is a locale, which the library's own way of
  reading a ring satisfies.
\<close>

subsection \<open>The completion queues do not matter\<close>

text \<open>Completing commands neither reads nor writes the table of completion queues.\<close>

definition set_cqs :: "unvme_cq option list \<Rightarrow> ('m, 'r, 'z) unvme_scheme \<Rightarrow> ('m, 'r, 'z) unvme_scheme" where
  "set_cqs C u = u\<lparr>cqs := C\<rparr>"

definition lift_cqs ::
  "unvme_cq option list \<Rightarrow> ('a, 'm, 'r, 'z) blocking \<Rightarrow> ('a, 'm, 'r, 'z) blocking" where
  "lift_cqs C = map_option (map_prod id (set_cqs C))"

lemma lift_cqs_simps [simp]: "lift_cqs C None = None" "lift_cqs C (Some (r, u)) = Some (r, set_cqs C u)"
  by (simp_all add: lift_cqs_def)

lemma set_cqs_fields [simp]:
  "sqs (set_cqs C u) = sqs u" "vcqs (set_cqs C u) = vcqs u" "u_bdf (set_cqs C u) = u_bdf u"
  "nr_cmds (set_cqs C u) = nr_cmds u" "cqs (set_cqs C u) = C" "sq_at q (set_cqs C u) = sq_at q u"
  "command p (set_cqs C u) = command p u" "unvmed_sq_find q (set_cqs C u) = unvmed_sq_find q u"
  "set_cqs D (set_cqs C u) = set_cqs D u" "unvmed_get_cmd_on_reaper cqe (set_cqs C u) = unvmed_get_cmd_on_reaper cqe u"
  "set_cqs (cqs u) u = u"
  by (simp_all add: set_cqs_def sq_at_def command_def unvmed_sq_find_def unvmed_get_cmd_on_reaper_def)

lemma set_cqs_updates:
  "sq_store q s (set_cqs C u) = set_cqs C (sq_store q s u)"
  "set_command p c (set_cqs C u) = set_cqs C (set_command p c u)"
  "(set_cqs C u)\<lparr>nr_cmds := n\<rparr> = set_cqs C (u\<lparr>nr_cmds := n\<rparr>)"
  "(set_cqs C u)\<lparr>vcqs := m\<rparr> = set_cqs C (u\<lparr>vcqs := m\<rparr>)"
proof -
  show store: "sq_store q s (set_cqs C u) = set_cqs C (sq_store q s u)" for q s
    by (simp add: set_cqs_def sq_store_def)
  show "set_command p c (set_cqs C u) = set_cqs C (set_command p c u)"
    by (simp add: set_command_def sq_modify_def store split: option.splits)
qed (simp_all add: set_cqs_def)

lemma thenb_lift:
  assumes "\<And>x u. f x (set_cqs C u) = lift_cqs C (f x u)"
  shows "thenb (lift_cqs C r) f = lift_cqs C (thenb r f)"
  using assms by (auto simp: thenb_def lift_cqs_def split: option.splits prod.splits outcome.splits)

lemma count_cmd_cqs: "Some (count_cmd p (set_cqs C u)) = lift_cqs C (Some (count_cmd p u))"
  by (simp add: count_cmd_def set_cqs_updates Let_def lift_cqs_def split: option.splits)

lemma wakeup_cqs: "Some (unvmed_cmd_cmpl_wakeup p cqe (set_cqs C u)) = lift_cqs C (Some (unvmed_cmd_cmpl_wakeup p cqe u))"
  by (simp add: unvmed_cmd_cmpl_wakeup_def set_cqs_updates Let_def lift_cqs_def split: option.splits)

lemma vcq_push_cqs: "unvmed_vcq_push p cqe (set_cqs C u) = lift_cqs C (unvmed_vcq_push p cqe u)"
  by (auto simp: unvmed_vcq_push_def unvmed_cmd_get_vcq_def set_cqs_updates split: option.splits outcome.splits)

lemma cmd_cmpl_cqs: "unvmed_cmd_cmpl p cqe (set_cqs C u) = lift_cqs C (unvmed_cmd_cmpl p cqe u)"
proof -
  have push: "(case unvmed_vcq_push p cqe (set_cqs C v) of
                 None \<Rightarrow> None | Some (Fault, w) \<Rightarrow> Some (Fault, w) | Some (_, w) \<Rightarrow> Some (Ok (), w)) =
      lift_cqs C (case unvmed_vcq_push p cqe v of
                 None \<Rightarrow> None | Some (Fault, w) \<Rightarrow> Some (Fault, w) | Some (_, w) \<Rightarrow> Some (Ok (), w))"
    for v :: "('a, 'b, 'c) unvme_scheme"
    unfolding vcq_push_cqs by (auto split: option.splits outcome.splits prod.splits)
  show ?thesis unfolding unvmed_cmd_cmpl_def count_cmd_cqs
    by (intro thenb_lift, unfold wakeup_cqs) (intro thenb_lift, simp add: push)
qed

lemma complete_all_cqs: "complete_all cqes (set_cqs C u) = lift_cqs C (complete_all cqes u)"
proof (induction cqes arbitrary: u)
  case (Cons cqe cqes)
  have step: "thenb (unvmed_cmd_cmpl p cqe (set_cqs C u)) (\<lambda>_. complete_all cqes) =
      lift_cqs C (thenb (unvmed_cmd_cmpl p cqe u) (\<lambda>_. complete_all cqes))" for p
    unfolding cmd_cmpl_cqs using Cons.IH by (intro thenb_lift) simp
  show ?case using step Cons.IH by (simp split: outcome.splits option.splits)
qed simp


subsection \<open>The contract of a ring\<close>

text \<open>
  What the reaper relies on: taking a completion and writing the head removes the first of the
  pending completions, and none is taken when none is pending.
\<close>

locale cq_ring =
  fixes get_cqe :: "nvme_cq \<Rightarrow> (nvme_cqe \<times> nvme_cq) option"
    and update_head :: "nvme_cq \<Rightarrow> nvme_cq"
    and pending :: "nvme_cq \<Rightarrow> nvme_cqe list"
    and ring_wf :: "nvme_cq \<Rightarrow> bool"
  assumes get_none: "ring_wf q \<Longrightarrow> get_cqe q = None \<longleftrightarrow> pending q = []"
    and get_some: "ring_wf q \<Longrightarrow> get_cqe q = Some (cqe, q1) \<Longrightarrow>
          ring_wf (update_head q1) \<and> pending q = cqe # pending (update_head q1)"
begin

text \<open>Reaping is completing the pending completions; the fuel bounds their number.\<close>

lemma reap_complete_all:
  assumes "io_get_cqe io = get_cqe" and "io_update_head io = update_head"
    and "nth_opt (cqs u) qid = Some (Some ucq)" and "cq_q ucq = Some q" and "ring_wf q"
    and "length (pending q) < fuel"
  shows "case complete_all (pending q) u of
       None \<Rightarrow> reap_loop fuel io qid u = None
     | Some (Ok _, u') \<Rightarrow> \<exists>q'. ring_wf q' \<and> pending q' = []
         \<and> reap_loop fuel io qid u = Some (Ok (), set_cqs ((cqs u)[qid := Some (ucq\<lparr>cq_q := Some q'\<rparr>)]) u')
     | Some (r, _) \<Rightarrow> \<exists>v. reap_loop fuel io qid u = Some (r, v)"
  using assms(3-6)
proof (induction fuel arbitrary: u ucq q)
  case 0 then show ?case by simp
next
  case (Suc fuel)
  have at: "qid < length (cqs u)" "cqs u ! qid = Some ucq" using Suc.prems(1) by simp_all
  show ?case
  proof (cases "get_cqe q")
    case None
    then have "pending q = []" using get_none [OF Suc.prems(3)] by simp
    moreover have "(cqs u)[qid := Some (ucq\<lparr>cq_q := Some q\<rparr>)] = cqs u"
      using at Suc.prems(2) by (simp add: list_update_same_conv)
    ultimately show ?thesis using None Suc.prems assms(1) by (auto intro!: exI [of _ q])
  next
    case (Some e)
    obtain cqe q1 where e: "e = (cqe, q1)" by (cases e)
    let ?q2 = "update_head q1"
    have next_q: "ring_wf ?q2" "pending q = cqe # pending ?q2" using get_some [OF Suc.prems(3)] Some e by auto
    let ?C1 = "(cqs u)[qid := Some (ucq\<lparr>cq_q := Some q1\<rparr>)]" and ?C2 = "(cqs u)[qid := Some (ucq\<lparr>cq_q := Some ?q2\<rparr>)]"
    have store: "cq_store qid (ucq\<lparr>cq_q := Some q1\<rparr>) u = set_cqs ?C1 u" by (simp add: cq_store_def set_cqs_def)
    have head: "cq_modify qid (\<lambda>ucq. ucq\<lparr>cq_q := map_option (io_update_head io) (cq_q ucq)\<rparr>) (set_cqs ?C1 v) = set_cqs ?C2 v"
      for v using at(1) by (simp add: cq_modify_def cq_store_def set_cqs_def assms(2))
    have loop: "reap_loop (Suc fuel) io qid u =
        thenb (lift_cqs ?C1 (complete_all [cqe] u)) (\<lambda>_ u1. reap_loop fuel io qid
          (cq_modify qid (\<lambda>ucq. ucq\<lparr>cq_q := map_option (io_update_head io) (cq_q ucq)\<rparr>) u1))"
      using Suc.prems(1,2) Some e assms(1) by (simp add: store complete_all_cqs del: complete_all.simps)
    have split: "complete_all (pending q) u = thenb (complete_all [cqe] u) (\<lambda>_. complete_all (pending ?q2))"
      unfolding next_q(2) by (auto simp: thenb_def split: option.splits outcome.splits)
    show ?thesis
    proof (cases "complete_all [cqe] u")
      case None
      then show ?thesis using loop split by simp
    next
      case (Some x)
      obtain r u1 where x: "x = (r, u1)" by (cases x)
      show ?thesis
      proof (cases r)
        case (Ok y)
        then have one: "complete_all [cqe] u = Some (Ok (), u1)" using Some x by simp
        let ?u2 = "set_cqs ?C2 u1"
        have ih: "case complete_all (pending ?q2) ?u2 of
             None \<Rightarrow> reap_loop fuel io qid ?u2 = None
           | Some (Ok _, u') \<Rightarrow> \<exists>q'. ring_wf q' \<and> pending q' = []
               \<and> reap_loop fuel io qid ?u2 = Some (Ok (), set_cqs ((cqs ?u2)[qid := Some (ucq\<lparr>cq_q := Some ?q2, cq_q := Some q'\<rparr>)]) u')
           | Some (r, _) \<Rightarrow> \<exists>v. reap_loop fuel io qid ?u2 = Some (r, v)"
          using at(1) next_q Suc.prems(4) by (intro Suc.IH) simp_all
        have "reap_loop (Suc fuel) io qid u = reap_loop fuel io qid ?u2"
          unfolding loop one by (simp only: lift_cqs_simps thenb_simps head)
        moreover have "complete_all (pending q) u = complete_all (pending ?q2) u1" using split one by simp
        ultimately show ?thesis
          using ih unfolding complete_all_cqs
          by (fastforce split: option.splits prod.splits outcome.splits simp del: reap_loop.simps)
      qed (use loop split Some x in \<open>auto simp del: reap_loop.simps\<close>)
    qed
  qed
qed

end

subsection \<open>The library's own reading of a ring\<close>

text \<open>
  One round of the loop in \<open>unvmed_cancel_sq()\<close> over the entries: the entry at the head if it is
  new, and the ring with head and phase after it. The head is written at once.
\<close>

definition next_cqe :: "nvme_cq \<Rightarrow> (nvme_cqe \<times> nvme_cq) option" where
  "next_cqe q =
     (case nth_opt (ncq_entries q) (ncq_head q) of
        None \<Rightarrow> None
      | Some cqe \<Rightarrow>
          if sfp cqe AND 1 = ucast (ncq_phase q) then None
          else Some (cqe, if ncq_head q + 1 = ncq_qsize q
                          then q\<lparr>ncq_head := 0, ncq_phase := ncq_phase q XOR 1\<rparr>
                          else q\<lparr>ncq_head := ncq_head q + 1\<rparr>))"

definition new_cqes :: "nvme_cq \<Rightarrow> nvme_cqe list" where
  "new_cqes q =
     (case scan_cqes (2 * ncq_qsize q + 2) q (ncq_head q) (ncq_phase q) of
        Some (Ok (cqes, _)) \<Rightarrow> cqes | _ \<Rightarrow> [])"

lemma scan_ring: "scan_cqes fuel (q\<lparr>ncq_head := h, ncq_phase := p\<rparr>) head phase = scan_cqes fuel q head phase"
  by (induction fuel q head phase rule: scan_cqes.induct) (simp_all split: option.splits)

lemma scan_more:
  "scan_cqes fuel q head phase = Some (Ok r) \<Longrightarrow> scan_cqes (Suc fuel) q head phase = Some (Ok r)"
proof (induction fuel q head phase arbitrary: r rule: scan_cqes.induct)
  case (2 fuel q head phase)
  show ?case
  proof (cases "nth_opt (ncq_entries q) head")
    case None with "2.prems" show ?thesis by simp
  next
    case (Some cqe)
    show ?thesis
    proof (cases "sfp cqe AND 1 = ucast phase")
      case True with Some "2.prems" show ?thesis by simp
    next
      case False
      let ?h = "if head + 1 = ncq_qsize q then 0 else head + 1"
      let ?p = "if head + 1 = ncq_qsize q then phase XOR 1 else phase"
      obtain cqes x where rest: "scan_cqes fuel q ?h ?p = Some (Ok (cqes, x))" "r = (cqe # cqes, x)"
        using "2.prems" Some False by (auto split: if_splits option.splits outcome.splits)
      have "scan_cqes (Suc fuel) q ?h ?p = Some (Ok (cqes, x))"
        using "2.IH" [OF Some False] rest(1) by (cases "head + 1 = ncq_qsize q") simp_all
      with Some False rest(2) show ?thesis
        by (subst scan_cqes.simps(2)) (cases "head + 1 = ncq_qsize q"; simp del: scan_cqes.simps)
    qed
  qed
qed simp


lemma scan_step:
  assumes "nth_opt (ncq_entries q) head = Some cqe" and "sfp cqe AND 1 \<noteq> ucast phase"
  shows "scan_cqes (Suc fuel) q head phase =
    (case scan_cqes fuel q (if head + 1 = ncq_qsize q then 0 else head + 1)
            (if head + 1 = ncq_qsize q then phase XOR 1 else phase) of
       Some (Ok (cqes, r)) \<Rightarrow> Some (Ok (cqe # cqes, r)) | r \<Rightarrow> r)"
  using assms by (cases "head + 1 = ncq_qsize q") (simp_all only: scan_cqes.simps(2) option.case if_False if_True refl)

lemma next_cqe_none:
  assumes "ring_ok q"
  shows "next_cqe q = None \<longleftrightarrow> new_cqes q = []"
proof -
  obtain cqes r where run: "scan_cqes (Suc (2 * ncq_qsize q + 1)) q (ncq_head q) (ncq_phase q) = Some (Ok (cqes, r))"
    using scan_run [OF assms] by auto
  have at: "nth_opt (ncq_entries q) (ncq_head q) = Some (ncq_entries q ! ncq_head q)"
    using assms by (simp add: ring_ok_def)
  have "cqes = [] \<longleftrightarrow> sfp (ncq_entries q ! ncq_head q) AND 1 = ucast (ncq_phase q)"
  proof (cases "sfp (ncq_entries q ! ncq_head q) AND 1 = ucast (ncq_phase q)")
    case True
    with run show ?thesis by (simp add: at)
  next
    case False
    with run show ?thesis unfolding scan_step [OF at False]
      by (auto simp del: scan_cqes.simps split: option.splits outcome.splits)
  qed
  moreover have "new_cqes q = cqes" using run by (simp add: new_cqes_def del: scan_cqes.simps)
  ultimately show ?thesis by (simp add: next_cqe_def at)
qed

lemma next_cqe_some:
  assumes "ring_ok q" and "next_cqe q = Some (cqe, q1)"
  shows "ring_ok q1 \<and> new_cqes q = cqe # new_cqes q1"
proof -
  obtain cqes r where run: "scan_cqes (Suc (2 * ncq_qsize q + 1)) q (ncq_head q) (ncq_phase q) = Some (Ok (cqes, r))"
    using scan_run [OF assms(1)] by auto
  have at: "nth_opt (ncq_entries q) (ncq_head q) = Some (ncq_entries q ! ncq_head q)"
    using assms(1) by (simp add: ring_ok_def)
  define h p where "h = (if ncq_head q + 1 = ncq_qsize q then 0 else ncq_head q + 1)"
    and "p = (if ncq_head q + 1 = ncq_qsize q then ncq_phase q XOR 1 else ncq_phase q)"
  have new: "sfp (ncq_entries q ! ncq_head q) AND 1 \<noteq> ucast (ncq_phase q)"
    and cqe: "cqe = ncq_entries q ! ncq_head q" and q1: "q1 = q\<lparr>ncq_head := h, ncq_phase := p\<rparr>"
    using assms(2) by (auto simp: next_cqe_def at h_def p_def split: if_splits)
  obtain cqes1 where rest: "scan_cqes (2 * ncq_qsize q + 1) q h p = Some (Ok (cqes1, r))" "cqes = cqe # cqes1"
    using run unfolding scan_step [OF at new] cqe h_def p_def
    by (auto simp del: scan_cqes.simps split: option.splits outcome.splits)
  have "scan_cqes (2 * ncq_qsize q + 2) q1 h p = Some (Ok (cqes1, r))"
    using scan_more [OF rest(1)] unfolding q1 scan_ring by simp
  then have "new_cqes q1 = cqes1" by (simp add: new_cqes_def q1 del: scan_cqes.simps)
  moreover have "new_cqes q = cqes" using run by (simp add: new_cqes_def del: scan_cqes.simps)
  moreover have "ring_ok q1"
    using assms(1) by (auto simp: ring_ok_def q1 h_def p_def)
  ultimately show ?thesis using rest(2) by simp
qed

interpretation own_ring: cq_ring next_cqe "\<lambda>q. q" new_cqes ring_ok
  by unfold_locales (use next_cqe_none next_cqe_some in blast)+

text \<open>C5. The reaper refines completing a list. When libvfn hands out the pending completions of a
  ring one at a time and in order, one run of the reaper on a completion queue ends and is the
  same as completing the commands of the pending completions in their order, with the ring left
  empty; it waits exactly when completing the list waits, for room in a virtual queue, and fails
  exactly when that fails.
\<close>

theorem reap_refines_complete_all:
  assumes ring: "cq_ring (io_get_cqe io) (io_update_head io) pending ring_wf"
    and at: "nth_opt (cqs u) qid = Some (Some ucq)" "cq_q ucq = Some q"
    and wf: "ring_wf q" and fuel: "length (pending q) < fuel"
  shows "case complete_all (pending q) u of
       None \<Rightarrow> unvmed_reap_cqe_u2 fuel io qid u = None
     | Some (Ok _, u') \<Rightarrow> \<exists>q'. ring_wf q' \<and> pending q' = []
         \<and> unvmed_reap_cqe_u2 fuel io qid u = Some (Ok (), u'\<lparr>cqs := (cqs u)[qid := Some (ucq\<lparr>cq_q := Some q'\<rparr>)]\<rparr>)
     | Some (r, _) \<Rightarrow> \<exists>v. unvmed_reap_cqe_u2 fuel io qid u = Some (r, v)"
  using cq_ring.reap_complete_all [OF ring refl refl at wf fuel]
  unfolding unvmed_reap_cqe_u2_def set_cqs_def .

text \<open>A ring with one new completion, for the command of \<open>busy_u\<close>.\<close>

definition full_io :: "nat list io_env" where
  "full_io = busy_io\<lparr>io_get_cqe := next_cqe, io_update_head := \<lambda>q. q\<rparr>"

definition full_cq :: nvme_cq where
  "full_cq = sample_nvme_cq\<lparr>ncq_entries := [busy_cqe\<lparr>sfp := 1\<rparr>, zero_cqe, zero_cqe, zero_cqe]\<rparr>"

definition full_u :: "(nat set, nat list) unvme" where
  "full_u = set_cqs [None, Some (sample_ucq\<lparr>cq_q := Some full_cq\<rparr>), None] (busy_u 4)"

lemma full_scan: "scan_cqes (Suc (Suc f)) full_cq 0 0 = Some (Ok ([busy_cqe\<lparr>sfp := 1\<rparr>], 1, 0))"
  by (simp add: full_cq_def sample_nvme_cq_def zero_cqe_def)

lemma full_new: "new_cqes full_cq = [busy_cqe\<lparr>sfp := 1\<rparr>]"
proof -
  have "ncq_qsize full_cq = 4" "ncq_head full_cq = 0" "ncq_phase full_cq = 0"
    by (simp_all add: full_cq_def sample_nvme_cq_def)
  then have "new_cqes full_cq = (case scan_cqes (Suc (Suc 8)) full_cq 0 0 of Some (Ok (cqes, _)) \<Rightarrow> cqes | _ \<Rightarrow> [])"
    unfolding new_cqes_def by (simp del: scan_cqes.simps)
  then show ?thesis unfolding full_scan by simp
qed

theorem reap_refines_complete_all_witness:
  "\<exists>u' v. complete_all [busy_cqe\<lparr>sfp := 1\<rparr>] full_u = Some (Ok (), u')
     \<and> unvmed_reap_cqe_u2 2 full_io 1 full_u = Some (Ok (), v) \<and> sqs v = sqs u'"
proof -
  let ?cqe = "busy_cqe\<lparr>sfp := 1\<rparr>"
  have "addressed ?cqe (busy_u 4)"
    using busy_command [of 4] by (simp add: addressed_def busy_cqe_def zero_cqe_def)
  then obtain u0 where "complete_all [?cqe] (busy_u 4) = Some (Ok (), u0)"
    using complete_all_total [OF busy_cancellable, of "[?cqe]" 4] by (auto simp del: complete_all.simps)
  then obtain u' where u': "complete_all [?cqe] full_u = Some (Ok (), u')"
    unfolding full_u_def complete_all_cqs by (simp del: complete_all.simps)
  have ring: "cq_ring (io_get_cqe full_io) (io_update_head full_io) new_cqes ring_ok"
    using own_ring.cq_ring_axioms by (simp add: full_io_def)
  have at: "nth_opt (cqs full_u) 1 = Some (Some (sample_ucq\<lparr>cq_q := Some full_cq\<rparr>))"
    "cq_q (sample_ucq\<lparr>cq_q := Some full_cq\<rparr>) = Some full_cq" by (simp_all add: full_u_def)
  have wf: "ring_ok full_cq" "length (new_cqes full_cq) < 2"
    by (simp_all add: full_new) (simp add: ring_ok_def full_cq_def sample_nvme_cq_def)
  from reap_refines_complete_all [OF ring at wf] u' show ?thesis unfolding full_new by auto
qed

end
