(* ===== verification/Admin.thy ===== *)
theory Admin
  imports Irq Timer
begin

unbundle bit_operations_syntax

text \<open>
  Creating and deleting I/O queues with admin commands, \<open>lib/libunvmed.c\<close>: a command is allocated
  on the admin queue under its lock, posted, waited for and put, and the queue instances follow
  what the device answered.
\<close>

subsection \<open>The environment\<close>

text \<open>
  The libvfn calls with their results, the results of allocations, and what the device and the
  other threads do while a function waits. \<open>adm_fuel\<close> bounds the rounds of the waiting loops.
  \<open>nvme_configure_cq()\<close> and \<open>nvme_configure_sq()\<close> yield the queue for libvfn's array;
  \<open>nvme_discard_cq()\<close> and \<open>nvme_discard_sq()\<close> leave \<open>adm_cq_gone\<close> and \<open>adm_sq_gone\<close> in it.
\<close>

record ('m, 'r, 's) admin_env =
  adm_defs :: nvme_defs
  adm_ops :: "'m dma_ops"
  adm_io :: "'r io_env"
  adm_now :: timespec
  adm_world :: "'s \<Rightarrow> 's"
  adm_fuel :: nat
  adm_cqe_ok :: "nvme_cqe \<Rightarrow> bool"
  adm_conf_cq :: "u32 \<Rightarrow> u32 \<Rightarrow> int \<Rightarrow> errno + nvme_cq"
  adm_conf_sq :: "u32 \<Rightarrow> u32 \<Rightarrow> nvme_cq option \<Rightarrow> errno + 'r nvme_sq"
  adm_cq_gone :: nvme_cq
  adm_sq_gone :: "'r nvme_sq"
  adm_ucq_mem :: bool
  adm_usq_mem :: bool
  adm_cids_mem :: bool
  adm_entry_mem :: bool
  adm_timer_err :: "errno option"
  adm_irq :: irq_sys
  adm_irq_err :: "errno option"

type_synonym ('m, 'r, 'z) admin = "('m, 'r, ('m, 'r, 'z) unvme_irq_scheme) admin_env"
type_synonym ('a, 'm, 'r, 'z) run = "('a outcome \<times> ('m, 'r, 'z) unvme_irq_scheme) option"

subsection \<open>libvfn's arrays\<close>

text \<open>The element of \<open>u->ctrl.cq\<close> is in the instance while one is bound to it.\<close>

definition ctrl_cq_store ::
  "nat \<Rightarrow> nvme_cq \<Rightarrow> ('m, 'r, 'z) unvme_scheme \<Rightarrow> ('m, 'r, 'z) unvme_scheme" where
  "ctrl_cq_store qid q u =
     (case nth_opt (cqs u) qid of
        Some (Some ucq) \<Rightarrow> if cq_q ucq = None then u\<lparr>ctrl_cq := (ctrl_cq u)(qid := q)\<rparr>
                           else cq_store qid (ucq\<lparr>cq_q := Some q\<rparr>) u
      | _ \<Rightarrow> u\<lparr>ctrl_cq := (ctrl_cq u)(qid := q)\<rparr>)"

definition ctrl_sq_store ::
  "nat \<Rightarrow> 'r nvme_sq \<Rightarrow> ('m, 'r, 'z) unvme_scheme \<Rightarrow> ('m, 'r, 'z) unvme_scheme" where
  "ctrl_sq_store qid q u =
     (case nth_opt (sqs u) qid of
        Some (Some usq) \<Rightarrow> if sq_q usq = None then u\<lparr>ctrl_sq := (ctrl_sq u)(qid := q)\<rparr>
                           else sq_store qid (usq\<lparr>sq_q := Some q\<rparr>) u
      | _ \<Rightarrow> u\<lparr>ctrl_sq := (ctrl_sq u)(qid := q)\<rparr>)"

definition ctrl_cq_mem :: "nat \<Rightarrow> ('m, 'r, 'z) unvme_scheme \<Rightarrow> u64" where
  "ctrl_cq_mem qid u =
     ncq_iova (case nth_opt (cqs u) qid of Some (Some ucq) \<Rightarrow> bound_cq qid u ucq | _ \<Rightarrow> ctrl_cq u qid)"

definition ctrl_sq_mem :: "nat \<Rightarrow> ('m, 'r, 'z) unvme_scheme \<Rightarrow> u64" where
  "ctrl_sq_mem qid u =
     nsq_iova (case nth_opt (sqs u) qid of Some (Some usq) \<Rightarrow> bound_sq qid u usq | _ \<Rightarrow> ctrl_sq u qid)"

subsection \<open>An admin command\<close>

text \<open>The loop that retries the allocation while the queue has no free command.\<close>

fun alloc_admin_cmd ::
  "nat \<Rightarrow> ('m, 'r, 'z) admin \<Rightarrow> ('m, 'r, 'z) unvme_irq_scheme \<Rightarrow> (cmd_ref, 'm, 'r, 'z) run" where
  "alloc_admin_cmd 0 a u = None"
| "alloc_admin_cmd (Suc fuel) a u =
     (case on_sq 0 (unvmed_alloc_cmd_nodata (adm_ops a) (io_sq (adm_io a)) None) u of
        (Fail EBUSY, u1) \<Rightarrow> alloc_admin_cmd fuel a (adm_world a u1)
      | r \<Rightarrow> Some r)"

text \<open>
  The entry is written and posted, the lock released, and the completion awaited; the result of
  the wait is dropped.
\<close>

definition run_admin_cmd ::
  "('m, 'r, 'z) admin \<Rightarrow> cmd_ref \<Rightarrow> (unvme_cmd \<Rightarrow> unvme_cmd) \<Rightarrow> ('m, 'r, 'z) unvme_irq_scheme
   \<Rightarrow> (nvme_cqe, 'm, 'r, 'z) run" where
  "run_admin_cmd a r prep u =
     (case command (0, r) u of
        None \<Rightarrow> Some (Fault, u)
      | Some c \<Rightarrow>
          thenb (Some (unvmed_cmd_post (adm_io a) (adm_now a) (0, r) 0
                   (set_command (0, r) (prep (c\<lparr>c_flags := UNVMED_CMD_F_WAKEUP_ON_CQE\<rparr>)) u))) (\<lambda>_ u1.
            case unvmed_cmd_wait (adm_fuel a) (adm_fuel a) (adm_world a) (adm_io a) (0, r)
                   (unvmed_sq_exit 0 u1) of
              None \<Rightarrow> None
            | Some (Fault, u2) \<Rightarrow> Some (Fault, u2)
            | Some (_, u2) \<Rightarrow>
                (case command (0, r) u2 of
                   None \<Rightarrow> Some (Fault, u2)
                 | Some d \<Rightarrow> Some (Ok (c_cqe d), u2))))"

text \<open>The end of a function: the command is put, \<open>undo\<close> runs, and the admin queue is put.\<close>

definition end_admin_cmd ::
  "('m, 'r, 'z) admin \<Rightarrow> cmd_ref
   \<Rightarrow> (('m, 'r, 'z) unvme_irq_scheme \<Rightarrow> ('m, 'r, 'z) unvme_irq_scheme)
   \<Rightarrow> 'a outcome \<Rightarrow> ('m, 'r, 'z) unvme_irq_scheme \<Rightarrow> ('a, 'm, 'r, 'z) run" where
  "end_admin_cmd a r undo res u =
     thenb (Some (cmd_put_at (adm_ops a) (adm_io a) (0, r) u))
       (\<lambda>_ u1. Some (res, snd (unvmed_sq_put 0 (undo u1))))"

text \<open>
  What the four functions share: the lock of the admin queue, the allocation, and \<open>use\<close> with the
  command and its completion. \<open>no_cmd\<close> runs when no command can be had.
\<close>

definition with_admin_cmd ::
  "('m, 'r, 'z) admin \<Rightarrow> (('m, 'r, 'z) unvme_irq_scheme \<Rightarrow> ('m, 'r, 'z) unvme_irq_scheme)
   \<Rightarrow> (('m, 'r, 'z) unvme_irq_scheme \<Rightarrow> unvme_cmd \<Rightarrow> unvme_cmd)
   \<Rightarrow> (cmd_ref \<Rightarrow> nvme_cqe \<Rightarrow> ('m, 'r, 'z) unvme_irq_scheme \<Rightarrow> ('a, 'm, 'r, 'z) run)
   \<Rightarrow> ('m, 'r, 'z) unvme_irq_scheme \<Rightarrow> ('a, 'm, 'r, 'z) run" where
  "with_admin_cmd a no_cmd prep use u =
     (case unvmed_sq_enter 0 u of
        None \<Rightarrow> None
      | Some u1 \<Rightarrow>
          (case alloc_admin_cmd (adm_fuel a) a u1 of
             None \<Rightarrow> None
           | Some (Fault, u2) \<Rightarrow> Some (Fault, u2)
           | Some (Fail e, u2) \<Rightarrow> Some (Fail e, no_cmd (unvmed_sq_exit 0 u2))
           | Some (Ok r, u2) \<Rightarrow> thenb (run_admin_cmd a r (prep u2) u2) (use r)))"

subsection \<open>Completion queues\<close>

definition create_cq_done ::
  "('m, 'r, 'z) admin \<Rightarrow> u32 \<Rightarrow> u32 \<Rightarrow> int \<Rightarrow> u32 \<Rightarrow> cmd_ref \<Rightarrow> nvme_cqe \<Rightarrow> ('m, 'r, 'z) unvme_irq_scheme
   \<Rightarrow> (unit, 'm, 'r, 'z) run" where
  "create_cq_done a qid qsize vector pc r cqe u =
     (let discard = ctrl_cq_store (unat qid) (adm_cq_gone a) in
      if \<not> adm_cqe_ok a cqe then end_admin_cmd a r discard (Fail EINVAL) u
      else
        case unvmed_init_ucq (adm_ucq_mem a) (unat qid) (unat qsize) vector (sint pc) u of
          (Fault, u1) \<Rightarrow> Some (Fault, u1)
        | (Fail e, u1) \<Rightarrow> end_admin_cmd a r discard (Fail e) u1
        | (Ok _, u1) \<Rightarrow>
            if vector < 0
            then end_admin_cmd a r (\<lambda>v. v) (Ok ())
                   (unvmed_enable_cq (unat qid) (cq_modify (unat qid)
                      (\<lambda>ucq. ucq\<lparr>cq_q := map_option (\<lambda>q. q\<lparr>ncq_vector := -1\<rparr>) (cq_q ucq), cq_vector := -1\<rparr>) u1))
            else (case unvmed_reaper_add_cq (adm_entry_mem a) (unat qid) u1 of
                    (Fault, u2) \<Rightarrow> Some (Fault, u2)
                  | (Fail e, u2) \<Rightarrow> end_admin_cmd a r discard (Fail e) u2
                  | (Ok _, u2) \<Rightarrow> end_admin_cmd a r (\<lambda>v. v) (Ok ()) (unvmed_enable_cq (unat qid) u2)))"

definition unvmed_create_cq ::
  "('m, 'r, 'z) admin \<Rightarrow> u32 \<Rightarrow> u32 \<Rightarrow> int \<Rightarrow> u32 \<Rightarrow> ('m, 'r, 'z) unvme_irq_scheme
   \<Rightarrow> (unit, 'm, 'r, 'z) run" where
  "unvmed_create_cq a qid qsize vector pc u =
     thenb (Some (if 0 \<le> vector then unvmed_init_irq (adm_irq a) (nat vector) u else (Ok (), u))) (\<lambda>_ u1.
       case unvmed_sq_get 0 u1 of
         None \<Rightarrow> Some (Fail EINVAL, u1)
       | Some u2 \<Rightarrow>
           (case adm_conf_cq a qid qsize vector of
              Inl e \<Rightarrow> Some (Fail e, snd (unvmed_sq_put 0 u2))
            | Inr q \<Rightarrow>
                with_admin_cmd a
                  (\<lambda>v. snd (unvmed_sq_put 0 (ctrl_cq_store (unat qid) (adm_cq_gone a) v)))
                  (\<lambda>v. unvmed_cmd_prep_create_cq (adm_defs a) (ctrl_cq_mem (unat qid) v) qid qsize vector pc)
                  (create_cq_done a qid qsize vector pc)
                  (ctrl_cq_store (unat qid) q u2)))"

text \<open>
  \<open>unvmed_delete_cq()\<close> returns the status of the completion, and the errno it sets for one of
  them. It does not put the admin queue when it gets no command.
\<close>

definition delete_cq_done ::
  "('m, 'r, 'z) admin \<Rightarrow> u32 \<Rightarrow> cmd_ref \<Rightarrow> nvme_cqe \<Rightarrow> ('m, 'r, 'z) unvme_irq_scheme
   \<Rightarrow> ((errno + u16) \<times> errno option, 'm, 'r, 'z) run" where
  "delete_cq_done a qid r cqe u =
     (let ret = unvmed_cqe_status cqe; res = Ok (ret, if ret = Inr 0x10C then Some EILSEQ else None) in
      if adm_cqe_ok a cqe \<and> unvmed_cq_find (unat qid) u \<noteq> None
      then thenb (Some (unvmed_delete_cq_u2 (adm_cq_gone a) (adm_irq_err a) (unat qid) u))
             (\<lambda>_ u1. end_admin_cmd a r (\<lambda>v. v) res u1)
      else end_admin_cmd a r (\<lambda>v. v) res u)"

definition unvmed_delete_cq ::
  "('m, 'r, 'z) admin \<Rightarrow> u32 \<Rightarrow> ('m, 'r, 'z) unvme_irq_scheme
   \<Rightarrow> ((errno + u16) \<times> errno option, 'm, 'r, 'z) run" where
  "unvmed_delete_cq a qid u =
     (case unvmed_sq_get 0 u of
        None \<Rightarrow> Some (Fail EINVAL, u)
      | Some u1 \<Rightarrow>
          with_admin_cmd a (\<lambda>v. v) (\<lambda>_. unvmed_cmd_prep_delete_cq (adm_defs a) qid)
            (delete_cq_done a qid) u1)"

subsection \<open>Submission queues\<close>

definition create_sq_done ::
  "('m, 'r, 'z) admin \<Rightarrow> u32 \<Rightarrow> u32 \<Rightarrow> u32 \<Rightarrow> u32 \<Rightarrow> u32 \<Rightarrow> u32 \<Rightarrow> cmd_ref \<Rightarrow> nvme_cqe
   \<Rightarrow> ('m, 'r, 'z) unvme_irq_scheme \<Rightarrow> (unit, 'm, 'r, 'z) run" where
  "create_sq_done a qid qsize cqid qprio pc nvmsetid r cqe u =
     (let put_cq = \<lambda>v. snd (unvmed_cq_put (unat cqid) v);
          discard = \<lambda>v. put_cq (ctrl_sq_store (unat qid) (adm_sq_gone a) v) in
      if \<not> adm_cqe_ok a cqe then end_admin_cmd a r discard (Fail EINVAL) u
      else
        case unvmed_init_usq (adm_usq_mem a) (adm_cids_mem a) (adm_timer_err a) (unat qid) (unat qsize)
               (unat cqid) qprio pc nvmsetid u of
          (Fault, u1) \<Rightarrow> Some (Fault, u1)
        | (Fail e, u1) \<Rightarrow> end_admin_cmd a r discard (Fail e) u1
        | (Ok _, u1) \<Rightarrow> end_admin_cmd a r put_cq (Ok ()) (unvmed_enable_sq (unat qid) u1))"

definition unvmed_create_sq ::
  "('m, 'r, 'z) admin \<Rightarrow> u32 \<Rightarrow> u32 \<Rightarrow> u32 \<Rightarrow> u32 \<Rightarrow> u32 \<Rightarrow> u32 \<Rightarrow> ('m, 'r, 'z) unvme_irq_scheme
   \<Rightarrow> (unit, 'm, 'r, 'z) run" where
  "unvmed_create_sq a qid qsize cqid qprio pc nvmsetid u =
     (if u_state u \<noteq> UNVME_ENABLED then Some (Fail EPERM, u)
      else case unvmed_sq_get 0 u of
        None \<Rightarrow> Some (Fail EINVAL, u)
      | Some u1 \<Rightarrow>
          (case unvmed_cq_get (unat cqid) u1 of
             None \<Rightarrow> Some (Fail ENODEV, snd (unvmed_sq_put 0 u1))
           | Some u2 \<Rightarrow>
               (case nth_opt (cqs u2) (unat cqid) of
                  Some (Some ucq) \<Rightarrow>
                    (case adm_conf_sq a qid qsize (cq_q ucq) of
                       Inl e \<Rightarrow> Some (Fail e, snd (unvmed_sq_put 0 (snd (unvmed_cq_put (unat cqid) u2))))
                     | Inr q \<Rightarrow>
                         with_admin_cmd a
                           (\<lambda>v. snd (unvmed_sq_put 0 (snd (unvmed_cq_put (unat cqid)
                                  (ctrl_sq_store (unat qid) (adm_sq_gone a) v)))))
                           (\<lambda>v. unvmed_cmd_prep_create_sq (adm_defs a) (ctrl_sq_mem (unat qid) v) qid qsize
                                  (word_of_nat (cq_id ucq)) qprio pc nvmsetid)
                           (create_sq_done a qid qsize cqid qprio pc nvmsetid)
                           (ctrl_sq_store (unat qid) q u2))
                | _ \<Rightarrow> Some (Fault, u2))))"

definition delete_sq_done ::
  "('m, 'r, 'z) admin \<Rightarrow> u32 \<Rightarrow> cmd_ref \<Rightarrow> nvme_cqe \<Rightarrow> ('m, 'r, 'z) unvme_irq_scheme
   \<Rightarrow> (errno + u16, 'm, 'r, 'z) run" where
  "delete_sq_done a qid r cqe u =
     (if adm_cqe_ok a cqe \<and> unvmed_sq_find (unat qid) u \<noteq> None
      then thenb (Some (unvmed_delete_sq_u2 (adm_sq_gone a) (unat qid) u))
             (\<lambda>_ u1. end_admin_cmd a r (\<lambda>v. v) (Ok (unvmed_cqe_status cqe)) u1)
      else end_admin_cmd a r (\<lambda>v. v) (Ok (unvmed_cqe_status cqe)) u)"

definition unvmed_delete_sq ::
  "('m, 'r, 'z) admin \<Rightarrow> u32 \<Rightarrow> ('m, 'r, 'z) unvme_irq_scheme \<Rightarrow> (errno + u16, 'm, 'r, 'z) run" where
  "unvmed_delete_sq a qid u =
     (case unvmed_sq_get 0 u of
        None \<Rightarrow> Some (Fail EINVAL, u)
      | Some u1 \<Rightarrow>
          with_admin_cmd a (\<lambda>v. snd (unvmed_sq_put 0 v))
            (\<lambda>_. unvmed_cmd_prep_delete_sq (adm_defs a) qid) (delete_sq_done a qid) u1)"

subsection \<open>All I/O queues\<close>

text \<open>The loops stop at the first queue whose deletion returns a negative value.\<close>

fun delete_iosqs ::
  "('m, 'r, 'z) admin \<Rightarrow> nat list \<Rightarrow> ('m, 'r, 'z) unvme_irq_scheme \<Rightarrow> (unit, 'm, 'r, 'z) run" where
  "delete_iosqs a [] u = Some (Ok (), u)"
| "delete_iosqs a (qid # qids) u =
     (case unvmed_sq_find qid u of
        None \<Rightarrow> delete_iosqs a qids u
      | Some usq \<Rightarrow>
          if sq_refcnt usq \<le> 0 then delete_iosqs a qids u
          else (case unvmed_delete_sq a (word_of_nat qid) u of
                  None \<Rightarrow> None
                | Some (Fault, u1) \<Rightarrow> Some (Fault, u1)
                | Some (Ok (Inr _), u1) \<Rightarrow> delete_iosqs a qids u1
                | Some (_, u1) \<Rightarrow> Some (Ok (), u1)))"

definition unvmed_delete_iosq_all ::
  "('m, 'r, 'z) admin \<Rightarrow> ('m, 'r, 'z) unvme_irq_scheme \<Rightarrow> (unit, 'm, 'r, 'z) run" where
  "unvmed_delete_iosq_all a u = delete_iosqs a [1..<length (sqs u)] u"

fun delete_iocqs ::
  "('m, 'r, 'z) admin \<Rightarrow> nat list \<Rightarrow> ('m, 'r, 'z) unvme_irq_scheme \<Rightarrow> (unit, 'm, 'r, 'z) run" where
  "delete_iocqs a [] u = Some (Ok (), u)"
| "delete_iocqs a (qid # qids) u =
     (case unvmed_cq_find qid u of
        None \<Rightarrow> delete_iocqs a qids u
      | Some ucq \<Rightarrow>
          if cq_refcnt ucq \<le> 0 then delete_iocqs a qids u
          else (case unvmed_delete_cq a (word_of_nat qid) u of
                  None \<Rightarrow> None
                | Some (Fault, u1) \<Rightarrow> Some (Fault, u1)
                | Some (Ok (Inr _, _), u1) \<Rightarrow> delete_iocqs a qids u1
                | Some (_, u1) \<Rightarrow> Some (Ok (), u1)))"

definition unvmed_delete_iocq_all ::
  "('m, 'r, 'z) admin \<Rightarrow> ('m, 'r, 'z) unvme_irq_scheme \<Rightarrow> (unit, 'm, 'r, 'z) run" where
  "unvmed_delete_iocq_all a u = delete_iocqs a [1..<length (cqs u)] u"

subsection \<open>Instances without an admin command\<close>

text \<open>
  \<open>__unvmed_init_sq()\<close> and \<open>__unvmed_init_cq()\<close>; \<open>conf\<close> is the result of configuring the queue
  on memory of libvfn's or of the caller's choice.
\<close>

definition unvmed_init_sq_u2 ::
  "('m, 'r, 'z) admin \<Rightarrow> (nvme_cq option \<Rightarrow> errno + 'r nvme_sq) \<Rightarrow> u32 \<Rightarrow> u32 \<Rightarrow> u32 \<Rightarrow> u32 \<Rightarrow> u32 \<Rightarrow> u32
   \<Rightarrow> ('m, 'r, 'z) unvme_irq_scheme \<Rightarrow> unit outcome \<times> ('m, 'r, 'z) unvme_irq_scheme" where
  "unvmed_init_sq_u2 a conf qid qsize cqid qprio pc nvmsetid u =
     (case unvmed_cq_find (unat cqid) u of
        None \<Rightarrow> (Fail ENODEV, u)
      | Some ucq \<Rightarrow>
          (case conf (cq_q ucq) of
             Inl e \<Rightarrow> (Fail e, u)
           | Inr q \<Rightarrow>
               (case unvmed_init_usq (adm_usq_mem a) (adm_cids_mem a) (adm_timer_err a) (unat qid)
                       (unat qsize) (unat cqid) qprio pc nvmsetid (ctrl_sq_store (unat qid) q u) of
                  (Fail e, u1) \<Rightarrow>
                    andthen (unvmed_discard_sq (adm_sq_gone a) (unat qid) u1) (\<lambda>_ u2. (Fail e, u2))
                | r \<Rightarrow> r)))"

definition unvmed_init_sq ::
  "('m, 'r, 'z) admin \<Rightarrow> u32 \<Rightarrow> u32 \<Rightarrow> u32 \<Rightarrow> u32 \<Rightarrow> u32 \<Rightarrow> u32 \<Rightarrow> ('m, 'r, 'z) unvme_irq_scheme
   \<Rightarrow> unit outcome \<times> ('m, 'r, 'z) unvme_irq_scheme" where
  "unvmed_init_sq a qid qsize = unvmed_init_sq_u2 a (adm_conf_sq a qid qsize) qid qsize"

definition unvmed_init_cq_u2 ::
  "('m, 'r, 'z) admin \<Rightarrow> (errno + nvme_cq) \<Rightarrow> u32 \<Rightarrow> u32 \<Rightarrow> int \<Rightarrow> int
   \<Rightarrow> ('m, 'r, 'z) unvme_irq_scheme \<Rightarrow> unit outcome \<times> ('m, 'r, 'z) unvme_irq_scheme" where
  "unvmed_init_cq_u2 a conf qid qsize vector pc u =
     andthen (if 0 \<le> vector then unvmed_init_irq (adm_irq a) (nat vector) u else (Ok (), u)) (\<lambda>_ u1.
       case conf of
         Inl e \<Rightarrow> (Fail e, u1)
       | Inr q \<Rightarrow>
           (case unvmed_init_ucq (adm_ucq_mem a) (unat qid) (unat qsize) vector pc (ctrl_cq_store (unat qid) q u1) of
              (Fault, u2) \<Rightarrow> (Fault, u2)
            | (Fail e, u2) \<Rightarrow>
                andthen (unvmed_discard_cq (adm_cq_gone a) (unat qid) u2) (\<lambda>_ u3. (Fail e, u3))
            | (Ok _, u2) \<Rightarrow>
                if vector < 0 then (Ok (), cq_modify (unat qid) (\<lambda>ucq. ucq\<lparr>cq_vector := -1\<rparr>) u2)
                else unvmed_reaper_add_cq (adm_entry_mem a) (unat qid) u2))"

definition unvmed_init_cq ::
  "('m, 'r, 'z) admin \<Rightarrow> u32 \<Rightarrow> u32 \<Rightarrow> int \<Rightarrow> int \<Rightarrow> ('m, 'r, 'z) unvme_irq_scheme
   \<Rightarrow> unit outcome \<times> ('m, 'r, 'z) unvme_irq_scheme" where
  "unvmed_init_cq a qid qsize vector pc =
     unvmed_init_cq_u2 a (adm_conf_cq a qid qsize vector) qid qsize vector pc"

text \<open>
  Queues in memory that the caller chose by its I/O address. \<open>conf\<close> is libvfn's configuration of a
  queue in given memory and \<open>es\<close> the binary logarithm of the size of an entry; the size is a
  \<open>uint32_t\<close> before it is rounded up.
\<close>

definition unvmed_init_sq_iova ::
  "('m, 'r, 'z) admin \<Rightarrow> nat \<Rightarrow> (iommu_dmabuf \<Rightarrow> nvme_cq option \<Rightarrow> errno + 'r nvme_sq) \<Rightarrow> u32 \<Rightarrow> u32 \<Rightarrow> u32 \<Rightarrow> u32 \<Rightarrow> u32
   \<Rightarrow> u32 \<Rightarrow> u64 \<Rightarrow> ('m, 'r, 'z) unvme_irq_scheme \<Rightarrow> unit outcome \<times> ('m, 'r, 'z) unvme_irq_scheme" where
  "unvmed_init_sq_iova a es conf qid qsize cqid qprio pc nvmsetid iova u =
     (let sz = align_up (adm_ops a) (ucast (push_bit es qsize)) (unvmed_pagesize (adm_ops a) u) in
      case unvmed_map_iova_to_mem (adm_ops a) iova sz u of
        Ok mem \<Rightarrow> unvmed_init_sq_u2 a (conf mem) qid qsize cqid qprio pc nvmsetid u
      | Fail e \<Rightarrow> (Fail e, u)
      | Fault \<Rightarrow> (Fault, u))"

definition unvmed_init_cq_iova ::
  "('m, 'r, 'z) admin \<Rightarrow> nat \<Rightarrow> (iommu_dmabuf \<Rightarrow> errno + nvme_cq) \<Rightarrow> u32 \<Rightarrow> u32 \<Rightarrow> int \<Rightarrow> int \<Rightarrow> u64
   \<Rightarrow> ('m, 'r, 'z) unvme_irq_scheme \<Rightarrow> unit outcome \<times> ('m, 'r, 'z) unvme_irq_scheme" where
  "unvmed_init_cq_iova a es conf qid qsize vector pc iova u =
     (let sz = align_up (adm_ops a) (ucast (push_bit es qsize)) (unvmed_pagesize (adm_ops a) u) in
      case unvmed_map_iova_to_mem (adm_ops a) iova sz u of
        Ok mem \<Rightarrow> unvmed_init_cq_u2 a (conf mem) qid qsize vector pc u
      | Fail e \<Rightarrow> (Fail e, u)
      | Fault \<Rightarrow> (Fault, u))"

definition unvmed_free_sq ::
  "('m, 'r, 'z) admin \<Rightarrow> u16 \<Rightarrow> ('m, 'r, 'z) unvme_irq_scheme \<Rightarrow> (unit, 'm, 'r, 'z) run" where
  "unvmed_free_sq a qid u =
     (case unvmed_sq_find (unat qid) u of
        None \<Rightarrow> Some (Fail ENODEV, u)
      | Some _ \<Rightarrow>
          thenb (unvmed_cancel_sq (adm_io a) (unat qid) (unvmed_disable_sq (unat qid) u)) (\<lambda>_ u1.
            Some (unvmed_delete_sq_u2 (adm_sq_gone a) (unat qid) u1)))"

definition unvmed_free_cq ::
  "('m, 'r, 'z) admin \<Rightarrow> u16 \<Rightarrow> ('m, 'r, 'z) unvme_irq_scheme
   \<Rightarrow> unit outcome \<times> ('m, 'r, 'z) unvme_irq_scheme" where
  "unvmed_free_cq a qid u =
     (case unvmed_cq_find (unat qid) u of
        None \<Rightarrow> (Fail ENODEV, u)
      | Some _ \<Rightarrow>
          unvmed_delete_cq_u2 (adm_cq_gone a) (adm_irq_err a) (unat qid) (unvmed_disable_cq (unat qid) u))"

end
