(* ===== verification/Admin_Facts.thy ===== *)
theory Admin_Facts
  imports Admin Irq_Facts Prep_Facts
begin

unbundle bit_operations_syntax

text \<open>
  What the functions that create and delete I/O queues do to references and locks, on every path.
\<close>

subsection \<open>References and locks\<close>

text \<open>
  The references of submission queues, completion queues and interrupt vectors, and the locks held.
\<close>

definition sq_refs :: "('m, 'r, 'z) unvme_irq_scheme \<Rightarrow> int option list" where
  "sq_refs u = map (map_option sq_refcnt) (sqs u)"

definition cq_refs :: "('m, 'r, 'z) unvme_irq_scheme \<Rightarrow> int option list" where
  "cq_refs u = map (map_option cq_refcnt) (cqs u)"

definition holdings ::
  "('m, 'r, 'z) unvme_irq_scheme \<Rightarrow> int option list \<times> int option list \<times> nat set \<times> int list" where
  "holdings u = (sq_refs u, cq_refs u, sq_locked u, map r_refcnt (reapers u))"

definition inc_ref :: "nat \<Rightarrow> int option list \<Rightarrow> int option list" where
  "inc_ref q S = (case nth_opt S q of Some (Some n) \<Rightarrow> S[q := Some (n + 1)] | _ \<Rightarrow> S)"

definition dec_ref :: "nat \<Rightarrow> int option list \<Rightarrow> int option list" where
  "dec_ref q S = (case nth_opt S q of Some (Some n) \<Rightarrow> S[q := if n = 1 then None else Some (n - 1)] | _ \<Rightarrow> S)"

definition new_ref :: "nat \<Rightarrow> int option list \<Rightarrow> int option list" where
  "new_ref q S = S[q := Some (case nth_opt S q of Some (Some n) \<Rightarrow> n + 1 | _ \<Rightarrow> 1)]"

definition refs_pos :: "int option list \<Rightarrow> bool" where
  "refs_pos S \<longleftrightarrow> (\<forall>n. Some n \<in> set S \<longrightarrow> 0 < n)"

lemma refs_posD: "refs_pos S \<Longrightarrow> nth_opt S q = Some (Some n) \<Longrightarrow> 0 < n"
  by (auto simp: refs_pos_def in_set_conv_nth)

lemma length_refs [simp]:
  "length (inc_ref q S) = length S" "length (dec_ref q S) = length S" "length (new_ref q S) = length S"
  by (simp_all add: inc_ref_def dec_ref_def new_ref_def split: option.splits)

lemma inc_ref_entry: "nth_opt S q = Some (Some n) \<Longrightarrow> \<exists>m. nth_opt (inc_ref p S) q = Some (Some m)"
  by (auto simp: inc_ref_def nth_list_update split: option.splits)

lemma dec_inc_ref: "refs_pos S \<Longrightarrow> dec_ref q (inc_ref q S) = S"
  using refs_posD [of S q]
  by (auto simp: inc_ref_def dec_ref_def nth_list_update intro!: nth_equalityI split: option.splits)

lemma dec_new_inc_ref:
  assumes "refs_pos S" and "nth_opt S p = Some (Some n)"
  shows "dec_ref p (new_ref q (inc_ref p S)) = new_ref q S"
  using refs_posD [OF assms] assms(2)
  by (cases "p = q") (auto simp: inc_ref_def dec_ref_def new_ref_def nth_opt_update nth_list_update
      intro!: nth_equalityI split: option.splits)

lemma dec_dec_inc_ref:
  assumes "refs_pos S" and "nth_opt S p = Some (Some n)"
  shows "dec_ref p (dec_ref q (inc_ref p S)) = dec_ref q S"
  using refs_posD [OF assms] assms(2)
  by (cases "p = q") (auto simp: inc_ref_def dec_ref_def nth_opt_update nth_list_update
      intro!: nth_equalityI split: option.splits)

lemma refs_pos_inc: "refs_pos S \<Longrightarrow> refs_pos (inc_ref q S)"
  using refs_posD [of S q]
  by (auto simp: refs_pos_def inc_ref_def split: option.splits dest!: set_update_subset_insert [THEN subsetD])

subsection \<open>Operations that keep them\<close>

text \<open>Whatever a function returns, the references and locks after it are \<open>h\<close>.\<close>

definition kept ::
  "int option list \<times> int option list \<times> nat set \<times> int list \<Rightarrow> ('a, 'm, 'r, 'z) run \<Rightarrow> bool" where
  "kept h r \<longleftrightarrow> (\<forall>x u. r = Some (x, u) \<longrightarrow> holdings u = h)"

lemma kept_simps [simp]: "kept h None" "kept h (Some (x, u)) \<longleftrightarrow> holdings u = h"
  by (auto simp: kept_def)

lemma kept_thenb: "kept h r \<Longrightarrow> (\<And>x u. holdings u = h \<Longrightarrow> kept h (f x u)) \<Longrightarrow> kept h (thenb r f)"
  by (auto simp: kept_def thenb_def split: option.splits prod.splits outcome.splits)

lemma kept_pair: "kept h (Some p) \<longleftrightarrow> holdings (snd p) = h"
  by (cases p) simp

lemma holdings_sq_store:
  assumes "sq_at q u = Some usq" and "sq_refcnt usq' = sq_refcnt usq"
  shows "holdings (sq_store q usq' u) = holdings u"
  using assms sq_at_nth [of q u usq]
  by (simp add: holdings_def sq_refs_def cq_refs_def sq_store_def map_update list_update_same_conv)

lemma holdings_cq_store:
  assumes "nth_opt (cqs u) q = Some (Some ucq)" and "cq_refcnt ucq' = cq_refcnt ucq"
  shows "holdings (cq_store q ucq' u) = holdings u"
  using assms by (simp add: holdings_def sq_refs_def cq_refs_def cq_store_def map_update list_update_same_conv)

lemma holdings_updates [simp]:
  "holdings (u\<lparr>nr_cmds := n\<rparr>) = holdings u" "holdings (u\<lparr>vcqs := m\<rparr>) = holdings u"
  "holdings (u\<lparr>ctrl_sq := a\<rparr>) = holdings u" "holdings (u\<lparr>ctrl_cq := b\<rparr>) = holdings u"
  by (simp_all add: holdings_def sq_refs_def cq_refs_def)

lemma holdings_cq_modify:
  "(\<And>ucq. cq_refcnt (f ucq) = cq_refcnt ucq) \<Longrightarrow> holdings (cq_modify q f u) = holdings u"
  by (auto simp: cq_modify_def holdings_cq_store split: option.splits)

lemma sq_refcnt_cmd_set [simp]: "sq_refcnt (cmd_set usq r c) = sq_refcnt usq"
  by (cases r) simp_all

lemma holdings_set_command [simp]: "holdings (set_command p c u) = holdings u"
proof (cases "sq_at (fst p) u")
  case (Some usq)
  then show ?thesis by (simp add: set_command_def sq_modify_at holdings_sq_store)
next
  case None
  then show ?thesis by (auto simp: set_command_def sq_modify_def sq_at_def split: option.splits)
qed

lemma holdings_count_cmd: "holdings (snd (count_cmd p u)) = holdings u"
  by (auto simp: count_cmd_def Let_def holdings_sq_store split: option.splits)

lemma holdings_wakeup: "holdings (snd (unvmed_cmd_cmpl_wakeup p cqe u)) = holdings u"
  by (simp add: unvmed_cmd_cmpl_wakeup_def Let_def split: option.splits)

lemma kept_vcq_push: "kept (holdings u) (unvmed_vcq_push p cqe u)"
  by (auto simp: unvmed_vcq_push_def split: option.splits outcome.splits)

lemma kept_drop:
  assumes "kept h r"
  shows "kept h (case r of None \<Rightarrow> None | Some (Fault, u) \<Rightarrow> Some (Fault, u) | Some (_, u) \<Rightarrow> Some (Ok (), u))"
proof (cases r)
  case (Some p)
  with assms show ?thesis by (cases p; cases "fst p") auto
qed simp

lemma kept_cmd_cmpl: "kept (holdings u) (unvmed_cmd_cmpl p cqe u)"
  unfolding unvmed_cmd_cmpl_def
proof (intro kept_thenb)
  fix x y v w
  assume "holdings w = holdings u"
  with kept_drop [OF kept_vcq_push [of w p cqe]]
  show "kept (holdings u) (if y then Some (Ok (), w)
          else case unvmed_vcq_push p cqe w of None \<Rightarrow> None | Some (Fault, u3) \<Rightarrow> Some (Fault, u3) | Some (_, u3) \<Rightarrow> Some (Ok (), u3))"
    by simp
qed (simp_all add: kept_pair holdings_count_cmd holdings_wakeup)

lemma holdings_store_vcq [simp]: "holdings (store_vcq vcq q u) = holdings u"
  by (simp add: store_vcq_def split: option.splits)

lemma holdings_take_vcqe: "holdings (snd (take_vcqe qid cqe u)) = holdings u"
  by (auto simp: take_vcqe_def split: option.splits outcome.splits)

lemma kept_poll_ring: "kept (holdings u) (poll_ring io qid cqid u)"
proof -
  have step: "kept (holdings u) (thenb (case unvmed_get_cmd (cqe_cid cqe) usq of
            Fault \<Rightarrow> Some (Fault, v) | Ok (Some r) \<Rightarrow> unvmed_cmd_cmpl (qid, r) cqe v | _ \<Rightarrow> Some (Ok (), v))
          (\<lambda>_ u2. Some (Ok (), cq_modify cqid (\<lambda>ucq. ucq\<lparr>cq_q := map_option (io_update_head io) (cq_q ucq)\<rparr>) u2)))"
    if "holdings v = holdings u" for v cqe usq
    using that kept_cmd_cmpl [of v]
    by (intro kept_thenb) (auto simp: holdings_cq_modify split: outcome.splits option.splits)
  show ?thesis
    by (auto simp: poll_ring_def Let_def holdings_cq_store intro!: step split: option.splits prod.splits)
qed

lemma kept_get_completion: "kept (holdings u) (unvmed_get_completion_u2 io qid vcq cqid u)"
proof -
  have take: "take_vcqe qid cqe (store_vcq vcq q u) = (res, v) \<Longrightarrow> holdings v = holdings u" for cqe q res v
    using holdings_take_vcqe [of qid cqe "store_vcq vcq q u"] by simp
  have ring: "kept (holdings u) (thenb (poll_ring io qid cqid u) (\<lambda>_ u1. Some (Ok None, u1)))"
    by (intro kept_thenb kept_poll_ring) simp
  show ?thesis
    unfolding unvmed_get_completion_u2_def
    using ring by (auto split: outcome.splits prod.splits dest!: take)
qed

lemma keptI: "kept (holdings u) r \<Longrightarrow> holdings u = h \<Longrightarrow> kept h r"
  by simp

lemma kept_cq_run_loop:
  assumes world: "\<And>v. holdings (env v) = holdings v"
  shows "holdings u = h \<Longrightarrow> kept h (cq_run_loop fuel env io qid cqid vcq nowait n u)"
proof (induction fuel arbitrary: n u nowait)
  case 0
  then show ?case by (cases n) simp_all
next
  case (Suc fuel)
  show ?case
  proof (cases n)
    case (Suc m)
    have more: "kept h (thenb (cq_run_loop fuel env io qid cqid vcq nowait m v) (\<lambda>es u2. Some (Ok (e # es), u2)))"
      if "holdings v = h" for v e nowait
      using that by (intro kept_thenb Suc.IH) simp_all
    have take: "kept h (thenb (Some (take_vcqe qid (vcqe_cqe e) (store_vcq vcq q (env u)))) (\<lambda>found u1.
        if found then thenb (cq_run_loop fuel env io qid cqid vcq nowait m u1) (\<lambda>es u2. Some (Ok (vcqe_cqe e # es), u2))
        else cq_run_loop fuel env io qid cqid vcq nowait (Suc m) u1))" for e q
      using Suc.prems world more Suc.IH by (intro kept_thenb) (auto simp: kept_pair holdings_take_vcqe)
    have ring: "kept h (thenb (unvmed_get_completion_u2 io qid vcq cqid (env u)) (\<lambda>cqe u1.
        case cqe of
          Some e \<Rightarrow> thenb (cq_run_loop fuel env io qid cqid vcq nowait m u1) (\<lambda>es u2. Some (Ok (e # es), u2))
        | None \<Rightarrow> if nowait then Some (Ok [], u1) else cq_run_loop fuel env io qid cqid vcq nowait (Suc m) u1))"
      using Suc.prems world
      by (intro kept_thenb keptI [OF kept_get_completion]) (simp_all add: more Suc.IH split: option.splits)
    show ?thesis
      unfolding Suc cq_run_loop.simps Let_def
      using take ring Suc.prems world Suc.IH [of "env u" nowait "Suc m"]
      by (auto split: option.splits outcome.splits)
  qed (use Suc.prems in simp)
qed

lemma kept_cq_run:
  assumes "\<And>v. holdings (env v) = holdings v" and "holdings u = h"
  shows "kept h (unvmed_cq_run fuel env io qid cqid vcq u)"
proof -
  have "kept h (unvmed_cq_run_n_u2 fuel env io qid cqid vcq n nowait u)" for n nowait
    unfolding unvmed_cq_run_n_u2_def by (intro kept_thenb kept_cq_run_loop assms) simp
  then show ?thesis using assms(2) by (auto simp: unvmed_cq_run_def split: option.splits)
qed

lemma kept_wait_loop:
  assumes world: "\<And>v. holdings (env v) = holdings v"
  shows "holdings u = h \<Longrightarrow> kept h (wait_loop fuel poll env io p u)"
proof (induction fuel arbitrary: u)
  case (Suc fuel)
  have run: "kept h (thenb (unvmed_cq_run poll env io (fst p) cqid vcq u) (\<lambda>_ u1. wait_loop fuel poll env io p u1))"
    for cqid vcq using Suc by (intro kept_thenb kept_cq_run world) simp_all
  show ?case using Suc.prems run Suc.IH [of "env u"] world by (auto split: option.splits)
qed simp

lemma kept_cmd_wait:
  assumes "\<And>v. holdings (env v) = holdings v" and "holdings u = h"
  shows "kept h (unvmed_cmd_wait fuel poll env io p u)"
  using assms kept_wait_loop [of env] by (auto simp: unvmed_cmd_wait_def split: option.splits)

lemma holdings_cmd_post: "holdings (snd (unvmed_cmd_post io now p flags u)) = holdings u"
  by (auto simp: unvmed_cmd_post_def Let_def unvmed_cmd_add_timer_def unvmed_timer_update_def sq_at_def
      holdings_sq_store split: option.splits)

text \<open>Releasing buffers touches memory and mappings only, and never fails.\<close>

lemma buf_free_frame [simp]: "unvme_dma.more (snd (unvmed_buf_free ops b u)) = unvme_dma.more u"
  by (simp add: unvmed_buf_free_def unvmed_pgunmap_def ignore_def unvmed_unmap_vaddr_def Let_def split: sum.splits)

lemma buf_free_not_Fail [simp]: "fst (unvmed_buf_free ops b u) \<noteq> Fail e"
  by (simp add: unvmed_buf_free_def unvmed_pgunmap_def Let_def)

lemma bufs_free_frame:
  assumes "andthen (unvmed_buf_free ops b u) (\<lambda>_ u1. unvmed_buf_free ops d u1) = (res, u')"
  shows "unvme_dma.more u' = unvme_dma.more u \<and> res \<noteq> Fail e"
proof -
  have frame: "unvmed_buf_free ops b v = (r, v') \<Longrightarrow> unvme_dma.more v' = unvme_dma.more v \<and> r \<noteq> Fail e" for b v r v'
    using buf_free_frame [of ops b v] buf_free_not_Fail [of ops b v e] by auto
  show ?thesis
    using assms frame by (auto simp: andthen_def split: prod.splits outcome.splits)
qed

lemma cmd_put_frame:
  assumes "unvmed_cmd_put ops sops r (usq, u) = (res, usq', u')"
  shows "sq_refcnt usq' = sq_refcnt usq \<and> unvme_dma.more u' = unvme_dma.more u \<and> res \<noteq> Fail e"
  using assms
  by (auto simp: unvmed_cmd_put_def unvmed_cmd_free_def unvmed_cmd_free_u2_def Let_def
        split: option.splits if_splits prod.splits outcome.splits dest: bufs_free_frame)

lemma holdings_more: "unvme_dma.more u' = unvme_dma.more u \<Longrightarrow> holdings u' = holdings u \<and> sqs u' = sqs u"
  by (cases u; cases u') (simp add: holdings_def sq_refs_def cq_refs_def)

lemma on_sq_frame:
  assumes "on_sq qid f u = (res, u')"
    and "\<And>usq usq' v. f (usq, u) = (res, usq', v) \<Longrightarrow> sq_refcnt usq' = sq_refcnt usq \<and> unvme_dma.more v = unvme_dma.more u"
  shows "holdings u' = holdings u"
proof (cases "sq_at qid u")
  case (Some usq)
  obtain usq' v where f: "f (usq, u) = (res, usq', v)" and u': "u' = sq_store qid usq' v"
    using assms(1) Some by (auto simp: on_sq_def split: prod.splits)
  from assms(2) [OF f] holdings_more [of v u]
  have "sq_refcnt usq' = sq_refcnt usq" "holdings v = holdings u" "sq_at qid v = Some usq"
    using Some by (auto simp: sq_at_def)
  then show ?thesis unfolding u' by (simp add: holdings_sq_store)
qed (use assms(1) in \<open>simp add: on_sq_def\<close>)

lemma cmd_put_at_frame:
  assumes "cmd_put_at ops io p u = (res, u')"
  shows "holdings u' = holdings u" and "res \<noteq> Fail e"
proof -
  show "holdings u' = holdings u"
    by (rule on_sq_frame [OF assms [unfolded cmd_put_at_def]]) (blast dest: cmd_put_frame)
  show "res \<noteq> Fail e"
    using assms by (auto simp: cmd_put_at_def on_sq_def split: option.splits prod.splits dest!: cmd_put_frame [where e = e])
qed

lemma cmd_alloc_refcnt: "sq_refcnt (snd (unvmed_cmd_alloc_u2 sops None vcq_id usq)) = sq_refcnt usq"
  by (auto simp: unvmed_cmd_alloc_u2_def cmd_alloc_finish_def sq_take_rq_def
      split: option.splits outcome.splits prod.splits sum.splits)

lemma alloc_nodata_frame:
  assumes "unvmed_alloc_cmd_nodata ops sops None (usq, u) = (res, usq', u')"
  shows "sq_refcnt usq' = sq_refcnt usq \<and> unvme_dma.more u' = unvme_dma.more u"
  using assms cmd_alloc_refcnt [of sops 0 usq]
  by (auto simp: unvmed_alloc_cmd_nodata_def unvmed_cmd_init_u2_def cmd_init_meta_def buf_init_none
      split: outcome.splits prod.splits option.splits)

lemma kept_alloc_admin_cmd:
  assumes world: "\<And>v. holdings (adm_world a v) = holdings v"
  shows "holdings u = h \<Longrightarrow> kept h (alloc_admin_cmd fuel a u)"
proof (induction fuel arbitrary: u)
  case (Suc fuel)
  obtain res v where on: "on_sq 0 (unvmed_alloc_cmd_nodata (adm_ops a) (io_sq (adm_io a)) None) u = (res, v)"
    by fastforce
  have "holdings v = h"
    using on_sq_frame [OF on] alloc_nodata_frame [of "adm_ops a" "io_sq (adm_io a)" _ u] Suc.prems by metis
  then show ?case using Suc.IH [of "adm_world a v"] world by (simp add: on split: outcome.splits errno.splits)
qed simp

lemma holdings_ctrl_cq_store [simp]: "holdings (ctrl_cq_store qid q u) = holdings u"
  by (auto simp: ctrl_cq_store_def holdings_cq_store split: option.splits)

lemma holdings_ctrl_sq_store [simp]: "holdings (ctrl_sq_store qid q u) = holdings u"
  by (auto simp: ctrl_sq_store_def sq_at_def holdings_sq_store split: option.splits)

subsection \<open>Operations that change them\<close>

lemma nth_refs:
  "nth_opt (sq_refs u) q = map_option (map_option sq_refcnt) (nth_opt (sqs u) q)"
  "nth_opt (cq_refs u) q = map_option (map_option cq_refcnt) (nth_opt (cqs u) q)"
  by (simp_all add: sq_refs_def cq_refs_def nth_opt_def)

lemma sq_get_refs:
  assumes "refs_pos (sq_refs u)"
  shows "(case unvmed_sq_get q u of
      None \<Rightarrow> \<forall>n. nth_opt (sq_refs u) q \<noteq> Some (Some n)
    | Some v \<Rightarrow> (\<exists>n. nth_opt (sq_refs u) q = Some (Some n))
        \<and> holdings v = (inc_ref q (sq_refs u), cq_refs u, sq_locked u, map r_refcnt (reapers u)))"
  using refs_posD [OF assms, of q]
  by (auto simp: unvmed_sq_get_def unvmed_sq_find_def nth_refs inc_ref_def holdings_def sq_store_def sq_refs_def
      cq_refs_def map_update split: option.splits)

lemma cq_get_refs:
  assumes "refs_pos (cq_refs u)"
  shows "(case unvmed_cq_get q u of
      None \<Rightarrow> \<forall>n. nth_opt (cq_refs u) q \<noteq> Some (Some n)
    | Some v \<Rightarrow> (\<exists>n. nth_opt (cq_refs u) q = Some (Some n))
        \<and> holdings v = (sq_refs u, inc_ref q (cq_refs u), sq_locked u, map r_refcnt (reapers u)))"
  using refs_posD [OF assms, of q]
  by (auto simp: unvmed_cq_get_def unvmed_cq_find_def nth_refs inc_ref_def holdings_def cq_store_def sq_refs_def
      cq_refs_def map_update split: option.splits)

lemma sq_put_refs:
  "holdings u = (S, C, L, R) \<Longrightarrow> holdings (snd (unvmed_sq_put q u)) = (dec_ref q S, C, L, R)"
  by (auto simp: unvmed_sq_put_def unvmed_free_usq_u2_def Let_def nth_refs dec_ref_def holdings_def sq_store_def
      sq_refs_def cq_refs_def map_update nth_opt_def split: option.splits)

lemma cq_put_refs:
  "holdings u = (S, C, L, R) \<Longrightarrow> holdings (snd (unvmed_cq_put q u)) = (S, dec_ref q C, L, R)"
  by (auto simp: unvmed_cq_put_def unvmed_free_ucq_u2_def Let_def nth_refs dec_ref_def holdings_def cq_store_def
      sq_refs_def cq_refs_def map_update nth_opt_def split: option.splits)

subsection \<open>An admin command keeps them\<close>

text \<open>
  What a function left when it returned: \<open>Q\<close> of its result, \<open>None\<close> for an error, and of the
  references and locks.
\<close>

definition ends ::
  "('a option \<Rightarrow> int option list \<times> int option list \<times> nat set \<times> int list \<Rightarrow> bool) \<Rightarrow> ('a, 'm, 'r, 'z) run \<Rightarrow> bool" where
  "ends Q r \<longleftrightarrow> (case r of
     None \<Rightarrow> True | Some (Fault, _) \<Rightarrow> True | Some (Ok x, u) \<Rightarrow> Q (Some x) (holdings u) | Some (Fail _, u) \<Rightarrow> Q None (holdings u))"

lemma ends_simps [simp]:
  "ends Q None" "ends Q (Some (Fault, u))" "ends Q (Some (Ok x, u)) \<longleftrightarrow> Q (Some x) (holdings u)"
  "ends Q (Some (Fail e, u)) \<longleftrightarrow> Q None (holdings u)"
  by (simp_all add: ends_def)

lemma cmd_post_not_Fail: "unvmed_cmd_post io now p flags u \<noteq> (Fail e, v)"
  by (auto simp: unvmed_cmd_post_def Let_def split: option.splits)

lemma run_admin_cmd_outcome:
  assumes world: "\<And>v. holdings (adm_world a v) = holdings v" and u: "holdings u = (S, C, insert 0 L, R)" "0 \<notin> L"
    and run: "run_admin_cmd a r prep u = Some (res, v)"
  shows "res = Fault \<or> (\<exists>x. res = Ok x) \<and> holdings v = (S, C, L, R)"
proof (cases "command (0, r) u")
  case (Some c)
  obtain pr w where post: "unvmed_cmd_post (adm_io a) (adm_now a) (0, r) 0
      (set_command (0, r) (prep (c\<lparr>c_flags := UNVMED_CMD_F_WAKEUP_ON_CQE\<rparr>)) u) = (pr, w)" by fastforce
  have "holdings w = holdings u"
    using holdings_cmd_post [of "adm_io a" "adm_now a" "(0, r)" 0] post by (metis holdings_set_command snd_conv)
  then have "holdings (unvmed_sq_exit 0 w) = (S, C, L, R)"
    using u by (auto simp: holdings_def unvmed_sq_exit_def sq_refs_def cq_refs_def)
  then have wait: "kept (S, C, L, R)
      (unvmed_cmd_wait (adm_fuel a) (adm_fuel a) (adm_world a) (adm_io a) (0, r) (unvmed_sq_exit 0 w))"
    by (intro kept_cmd_wait world)
  show ?thesis
    using run wait post
    by (cases pr) (auto simp: run_admin_cmd_def Some kept_def cmd_post_not_Fail
        split: option.splits prod.splits outcome.splits)
qed (use run in \<open>simp add: run_admin_cmd_def\<close>)

lemma with_admin_cmd_ends:
  assumes world: "\<And>v. holdings (adm_world a v) = holdings v" and u: "holdings u = (S, C, L, R)"
    and no_cmd: "\<And>v. holdings v = (S, C, L, R) \<Longrightarrow> Q None (holdings (no_cmd v))"
    and fin: "\<And>r cqe v. holdings v = (S, C, L, R) \<Longrightarrow> ends Q (use r cqe v)"
  shows "ends Q (with_admin_cmd a no_cmd prep use u)"
proof (cases "0 \<in> L")
  case True
  with u show ?thesis by (simp add: with_admin_cmd_def unvmed_sq_enter_def holdings_def)
next
  case False
  define u1 where "u1 = u\<lparr>sq_locked := insert 0 (sq_locked u)\<rparr>"
  have u1: "unvmed_sq_enter 0 u = Some u1" "holdings u1 = (S, C, insert 0 L, R)"
    using u False by (auto simp: unvmed_sq_enter_def holdings_def u1_def sq_refs_def cq_refs_def)
  have exit: "holdings v = (S, C, insert 0 L, R) \<Longrightarrow> holdings (unvmed_sq_exit 0 v) = (S, C, L, R)" for v
    using False by (auto simp: holdings_def unvmed_sq_exit_def sq_refs_def cq_refs_def)
  have alloc: "kept (S, C, insert 0 L, R) (alloc_admin_cmd (adm_fuel a) a u1)"
    by (intro kept_alloc_admin_cmd world u1)
  have run: "ends Q (thenb (run_admin_cmd a r (prep u2) u2) (use r))"
    if "alloc_admin_cmd (adm_fuel a) a u1 = Some (Ok r, u2)" for r u2
  proof (cases "run_admin_cmd a r (prep u2) u2")
    case (Some x)
    obtain res v where x: "x = (res, v)" by (cases x)
    have "holdings u2 = (S, C, insert 0 L, R)" using alloc that by (simp add: kept_def)
    from run_admin_cmd_outcome [OF world this False Some [unfolded x]]
    show ?thesis using fin by (auto simp: Some x)
  qed simp
  show ?thesis
    using alloc run
    by (auto intro!: no_cmd exit simp: with_admin_cmd_def u1(1) kept_def split: option.splits prod.splits outcome.splits)
qed

lemma end_admin_cmd_ends:
  assumes u: "holdings u = h"
    and fin: "\<And>v. holdings v = h \<Longrightarrow> ends Q (Some (res, snd (unvmed_sq_put 0 (undo v))))"
  shows "ends Q (end_admin_cmd a r undo res u)"
proof -
  obtain n v where put: "cmd_put_at (adm_ops a) (adm_io a) (0, r) u = (n, v)" by fastforce
  have "\<forall>e. n \<noteq> Fail e" using cmd_put_at_frame(2) [OF put] by blast
  then show ?thesis
    using cmd_put_at_frame(1) [OF put] u fin by (cases n) (simp_all add: end_admin_cmd_def put)
qed

subsection \<open>New instances\<close>

lemma holdings_usq_setup:
  "holdings (usq_setup qid qsize cqid qprio pc nvmsetid usq u) =
     ((sq_refs u)[qid := Some (sq_refcnt usq)], cq_refs u, sq_locked u, map r_refcnt (reapers u))"
proof -
  let ?usq = "usq\<lparr>sq_q := Some (bound_sq qid u usq), sq_nr_cmds := 0, sq_qsize := qsize,
                 sq_qprio := qprio, sq_pc := pc, sq_nvmsetid := nvmsetid, sq_ucq := cqid, sq_flags := 0\<rparr>"
  have store: "holdings (sq_store qid ?usq u) = ((sq_refs u)[qid := Some (sq_refcnt usq)], cq_refs u, sq_locked u, map r_refcnt (reapers u))"
    by (simp add: holdings_def sq_store_def sq_refs_def cq_refs_def map_update)
  show ?thesis
    unfolding usq_setup_def Let_def using store holdings_cq_store [of "sq_store qid ?usq u" cqid]
    by (auto split: option.splits)
qed

lemma init_usq_refs:
  assumes pos: "refs_pos S" and u: "holdings u = (S, C, L, R)"
    and init: "unvmed_init_usq um cm te qid qsize cqid qprio pc nvmsetid u = (res, v)"
  shows "case res of Ok _ \<Rightarrow> holdings v = (new_ref qid S, C, L, R) | Fail _ \<Rightarrow> holdings v = (S, C, L, R) | Fault \<Rightarrow> True"
proof -
  have eq: "sq_refs u = S" "cq_refs u = C" "sq_locked u = L" "map r_refcnt (reapers u) = R"
    using u by (simp_all add: holdings_def)
  show ?thesis
  proof (cases "unvmed_sq_get qid u")
    case None
    with sq_get_refs [of u qid] pos eq have "\<forall>n. nth_opt S qid \<noteq> Some (Some n)" by simp
    then have "S[qid := Some 1] = new_ref qid S" by (auto simp: new_ref_def split: option.splits)
    then show ?thesis
      using init u eq None holdings_usq_setup [of qid qsize cqid qprio pc nvmsetid "new_usq qid qsize b" u for b]
      by (auto simp: unvmed_init_usq_def new_usq_def split: outcome.splits option.splits if_splits)
  next
    case (Some u1)
    with sq_get_refs [of u qid] pos eq obtain n where n: "nth_opt S qid = Some (Some n)"
      and u1: "holdings u1 = (inc_ref qid S, C, L, R)" by auto
    have new: "inc_ref qid S = new_ref qid S" using n by (simp add: inc_ref_def new_ref_def nth_opt_def)
    have put: "holdings (snd (unvmed_sq_put qid u1)) = (S, C, L, R)"
      using sq_put_refs [OF u1] dec_inc_ref [OF pos] by simp
    have bind: "holdings (usq_setup qid qsize cqid qprio pc nvmsetid usq u1) = (new_ref qid S, C, L, R)"
      if "unvmed_sq_find qid u1 = Some usq" for usq
    proof -
      have "(sq_refs u1)[qid := Some (sq_refcnt usq)] = sq_refs u1"
        using that by (auto simp: unvmed_sq_find_def sq_refs_def list_update_same_conv split: option.splits if_splits)
      then show ?thesis unfolding holdings_usq_setup using u1 new by (simp add: holdings_def)
    qed
    show ?thesis
      using init Some put bind by (auto simp: unvmed_init_usq_def split: option.splits if_splits)
  qed
qed

lemma init_ucq_refs:
  assumes pos: "refs_pos C" and u: "holdings u = (S, C, L, R)"
    and init: "unvmed_init_ucq um qid qsize vector pc u = (res, v)"
  shows "case res of Ok _ \<Rightarrow> holdings v = (S, new_ref qid C, L, R) | Fail _ \<Rightarrow> holdings v = (S, C, L, R) | Fault \<Rightarrow> True"
proof -
  have eq: "sq_refs u = S" "cq_refs u = C" "sq_locked u = L" "map r_refcnt (reapers u) = R"
    using u by (simp_all add: holdings_def)
  have setup0: "holdings (ucq_setup qid qsize vector pc ucq w) =
      (sq_refs w, (cq_refs w)[qid := Some (cq_refcnt ucq)], sq_locked w, map r_refcnt (reapers w))" for ucq w
    by (simp add: ucq_setup_def holdings_def cq_store_def sq_refs_def cq_refs_def map_update)
  show ?thesis
  proof (cases "unvmed_cq_get qid u")
    case None
    with cq_get_refs [of u qid] pos eq have "\<forall>n. nth_opt C qid \<noteq> Some (Some n)" by simp
    then have "C[qid := Some 1] = new_ref qid C" by (auto simp: new_ref_def split: option.splits)
    then show ?thesis
      using init u eq None by (auto simp: setup0 unvmed_init_ucq_def new_ucq_def split: if_splits)
  next
    case (Some u1)
    with cq_get_refs [of u qid] pos eq obtain n where n: "nth_opt C qid = Some (Some n)"
      and u1: "holdings u1 = (S, inc_ref qid C, L, R)" by auto
    have new: "inc_ref qid C = new_ref qid C" using n by (simp add: inc_ref_def new_ref_def nth_opt_def)
    have put: "holdings (snd (unvmed_cq_put qid u1)) = (S, C, L, R)"
      using cq_put_refs [OF u1] dec_inc_ref [OF pos] by simp
    have bind: "holdings (ucq_setup qid qsize vector pc ucq u1) = (S, new_ref qid C, L, R)"
      if "unvmed_cq_find qid u1 = Some ucq" for ucq
    proof -
      have "(cq_refs u1)[qid := Some (cq_refcnt ucq)] = cq_refs u1"
        using that by (auto simp: unvmed_cq_find_def cq_refs_def list_update_same_conv split: option.splits if_splits)
      then show ?thesis unfolding setup0 using u1 new by (simp add: holdings_def)
    qed
    show ?thesis
      using init Some put bind by (auto simp: unvmed_init_ucq_def split: option.splits if_splits)
  qed
qed

subsection \<open>Submission queues\<close>

lemma holdings_enable_sq [simp]: "holdings (unvmed_enable_sq q u) = holdings u"
  by (auto simp: unvmed_enable_sq_def sq_modify_def sq_at_def holdings_sq_store split: option.splits)

lemma holdings_enable_cq [simp]: "holdings (unvmed_enable_cq q u) = holdings u"
  by (simp add: unvmed_enable_cq_def holdings_cq_modify)

lemma holdings_discard_sq: "holdings (snd (unvmed_discard_sq gone q u)) = holdings u"
proof -
  have "holdings (sq_store q (usq\<lparr>sq_q := None\<rparr>) (u\<lparr>ctrl_sq := f\<rparr>)) = holdings u"
    if "nth_opt (sqs u) q = Some (Some usq)" for usq f
    using that holdings_sq_store [of q "u\<lparr>ctrl_sq := f\<rparr>" usq] by (simp add: sq_at_def)
  then show ?thesis by (auto simp: unvmed_discard_sq_def split: option.splits)
qed

lemma create_sq_ends:
  assumes world: "\<And>v. holdings (adm_world a v) = holdings v" and u: "holdings u = (S, C, L, R)"
    and pos: "refs_pos S" "refs_pos C"
  shows "ends (\<lambda>res h. h = (if res = None then S else new_ref (unat qid) S, C, L, R))
           (unvmed_create_sq a qid qsize cqid qprio pc nvmsetid u)"
    (is "ends ?Q _")
proof -
  have eq: "sq_refs u = S" "cq_refs u = C" "sq_locked u = L" "map r_refcnt (reapers u) = R"
    using u by (simp_all add: holdings_def)
  show ?thesis
  proof (cases "u_state u = UNVME_ENABLED \<and> unvmed_sq_get 0 u \<noteq> None")
    case True
    then obtain u1 where u1: "u_state u = UNVME_ENABLED" "unvmed_sq_get 0 u = Some u1" by auto
    then obtain n where n: "nth_opt S 0 = Some (Some n)" and h1: "holdings u1 = (inc_ref 0 S, C, L, R)"
      using sq_get_refs [of u 0] eq pos by auto
    have put0: "holdings (snd (unvmed_sq_put 0 v)) = (S, C, L, R)" if "holdings v = (inc_ref 0 S, C, L, R)" for v
      using sq_put_refs [OF that] dec_inc_ref [OF pos(1)] by simp
    show ?thesis
    proof (cases "unvmed_cq_get (unat cqid) u1")
      case None
      then show ?thesis using u1 put0 [OF h1] by (simp add: unvmed_create_sq_def)
    next
      case (Some u2)
      have h2: "holdings u2 = (inc_ref 0 S, inc_ref (unat cqid) C, L, R)"
        using cq_get_refs [of u1 "unat cqid"] Some h1 pos(2) by (auto simp: holdings_def)
      have put_cq: "holdings (snd (unvmed_cq_put (unat cqid) v)) = (T, C, L, R)"
        if "holdings v = (T, inc_ref (unat cqid) C, L, R)" for T v
        using cq_put_refs [OF that] dec_inc_ref [OF pos(2)] by simp
      have undo: "holdings (snd (unvmed_sq_put 0 (snd (unvmed_cq_put (unat cqid) v)))) = (S, C, L, R)"
        if "holdings v = (inc_ref 0 S, inc_ref (unat cqid) C, L, R)" for v
        using put0 [OF put_cq [OF that]] .
      have fin: "ends ?Q (create_sq_done a qid qsize cqid qprio pc nvmsetid r cqe v)"
        if v: "holdings v = (inc_ref 0 S, inc_ref (unat cqid) C, L, R)" for r cqe v
      proof -
        obtain res w where init: "unvmed_init_usq (adm_usq_mem a) (adm_cids_mem a) (adm_timer_err a) (unat qid)
            (unat qsize) (unat cqid) qprio pc nvmsetid v = (res, w)" by fastforce
        note refs = init_usq_refs [OF refs_pos_inc [OF pos(1)] v init]
        have put1: "holdings (snd (unvmed_sq_put 0 (snd (unvmed_cq_put (unat cqid) w')))) = (new_ref (unat qid) S, C, L, R)"
          if "holdings w' = (new_ref (unat qid) (inc_ref 0 S), inc_ref (unat cqid) C, L, R)" for w'
          using sq_put_refs [OF put_cq [OF that]] dec_new_inc_ref [OF pos(1) n] by simp
        show ?thesis
        proof (cases "adm_cqe_ok a cqe")
          case False
          then show ?thesis
            using v by (auto simp: create_sq_done_def Let_def undo intro!: end_admin_cmd_ends)
        next
          case True
          then show ?thesis
            using refs v by (cases res) (auto simp: create_sq_done_def Let_def init undo put1 intro!: end_admin_cmd_ends)
        qed
      qed
      show ?thesis
        using u1 Some h2 undo by (auto simp: unvmed_create_sq_def fin
            intro!: with_admin_cmd_ends [OF world] split: option.splits sum.splits)
    qed
  qed (use u in \<open>auto simp: unvmed_create_sq_def\<close>)
qed

lemma delete_sq_ends:
  assumes world: "\<And>v. holdings (adm_world a v) = holdings v" and u: "holdings u = (S, C, L, R)"
    and pos: "refs_pos S" and status: "\<And>cqe. adm_cqe_ok a cqe \<longleftrightarrow> unvmed_cqe_status cqe = Inr 0"
  shows "ends (\<lambda>res h. h = (if res = Some (Inr 0) then dec_ref (unat qid) S else S, C, L, R)) (unvmed_delete_sq a qid u)"
    (is "ends ?Q _")
proof (cases "unvmed_sq_get 0 u")
  case None
  then show ?thesis using u by (simp add: unvmed_delete_sq_def)
next
  case (Some u1)
  then obtain n where n: "nth_opt S 0 = Some (Some n)" and h1: "holdings u1 = (inc_ref 0 S, C, L, R)"
    using sq_get_refs [of u 0] u pos by (auto simp: holdings_def)
  have put0: "holdings (snd (unvmed_sq_put 0 v)) = (S, C, L, R)" if "holdings v = (inc_ref 0 S, C, L, R)" for v
    using sq_put_refs [OF that] dec_inc_ref [OF pos] by simp
  have fin: "ends ?Q (delete_sq_done a qid r cqe v)" if v: "holdings v = (inc_ref 0 S, C, L, R)" for r cqe v
  proof (cases "adm_cqe_ok a cqe \<and> unvmed_sq_find (unat qid) v \<noteq> None")
    case True
    obtain res w where discard: "unvmed_discard_sq (adm_sq_gone a) (unat qid) v = (res, w)" by fastforce
    have w: "holdings w = (inc_ref 0 S, C, L, R)" using holdings_discard_sq discard v by (metis snd_conv)
    have "holdings (snd (unvmed_sq_put 0 x)) = (dec_ref (unat qid) S, C, L, R)"
      if "holdings x = holdings (snd (unvmed_sq_put (unat qid) w))" for x
      using sq_put_refs [OF that [unfolded sq_put_refs [OF w]], of 0] dec_dec_inc_ref [OF pos n] by simp
    moreover have "\<forall>e. res \<noteq> Fail e" using discard by (auto simp: unvmed_discard_sq_def split: option.splits if_splits)
    ultimately show ?thesis
      using True status by (cases res) (auto simp: delete_sq_done_def unvmed_delete_sq_u2_def discard intro!: end_admin_cmd_ends)
  next
    case False
    have "dec_ref (unat qid) S = S" if "unvmed_sq_find (unat qid) v = None"
    proof -
      have "nth_opt (inc_ref 0 S) (unat qid) \<noteq> Some (Some k)" for k
        using that v nth_refs(1) [of v "unat qid"] refs_posD [OF refs_pos_inc [OF pos], of 0 "unat qid"]
        by (auto simp: holdings_def unvmed_sq_find_def split: option.splits if_splits)
      then have "nth_opt S (unat qid) \<noteq> Some (Some k)" for k using inc_ref_entry [of S "unat qid" k 0] by blast
      then show ?thesis by (auto simp: dec_ref_def split: option.splits)
    qed
    with False status [of cqe] have same: "(if Some (unvmed_cqe_status cqe) = Some (Inr 0) then dec_ref (unat qid) S else S) = S"
      by auto
    have "ends ?Q (end_admin_cmd a r (\<lambda>v. v) (Ok (unvmed_cqe_status cqe)) v)"
      using v by (rule end_admin_cmd_ends) (simp only: ends_simps put0 same)
    with False show ?thesis by (auto simp: delete_sq_done_def)
  qed
  show ?thesis
    using Some h1 put0 by (auto simp: unvmed_delete_sq_def fin intro!: with_admin_cmd_ends [OF world])
qed

subsection \<open>Completion queues\<close>

lemma holdings_reaper_store:
  assumes "nth_opt (reapers u) v = Some r" and "r_refcnt r' = r_refcnt r"
  shows "holdings (reaper_store v r' u) = holdings u"
  using assms by (simp add: holdings_def sq_refs_def cq_refs_def reaper_store_def map_update list_update_same_conv)

lemma holdings_reaper_add_cq: "holdings (snd (unvmed_reaper_add_cq mem cqid u)) = holdings u"
  by (auto simp: unvmed_reaper_add_cq_def Let_def holdings_reaper_store split: option.splits)

lemma holdings_reaper_del_cq: "holdings (snd (unvmed_reaper_del_cq cqid u)) = holdings u"
  by (auto simp: unvmed_reaper_del_cq_def Let_def holdings_reaper_store split: option.splits)

lemma holdings_discard_cq: "holdings (snd (unvmed_discard_cq gone q u)) = holdings u"
proof -
  have "holdings (cq_store q (ucq\<lparr>cq_q := None\<rparr>) (u\<lparr>ctrl_cq := f\<rparr>)) = holdings u"
    if "nth_opt (cqs u) q = Some (Some ucq)" for ucq f
    using that holdings_cq_store [of "u\<lparr>ctrl_cq := f\<rparr>" q ucq] by simp
  then show ?thesis by (auto simp: unvmed_discard_cq_def split: option.splits)
qed

text \<open>Only the references of vectors differ.\<close>

definition same_queue_refs :: "('m, 'r, 'z) unvme_irq_scheme \<Rightarrow> ('m, 'r, 'z) unvme_irq_scheme \<Rightarrow> bool" where
  "same_queue_refs u v \<longleftrightarrow> sq_refs v = sq_refs u \<and> cq_refs v = cq_refs u \<and> sq_locked v = sq_locked u"

lemma same_queue_refs_updates [simp]:
  "same_queue_refs u u" "same_queue_refs u (reaper_store v r w) = same_queue_refs u w"
  "same_queue_refs u (w\<lparr>efds := e\<rparr>) = same_queue_refs u w" "same_queue_refs u (w\<lparr>open_fds := f\<rparr>) = same_queue_refs u w"
  by (simp_all add: same_queue_refs_def reaper_store_def sq_refs_def cq_refs_def)

lemma free_irq_queues: "same_queue_refs u (snd (unvmed_free_irq err v u))"
  by (auto simp: unvmed_free_irq_def unvmed_reaper_join_def unvmed_free_irq_reaper_def Let_def split: option.splits)

lemma init_irq_queues: "same_queue_refs u (snd (unvmed_init_irq sys v u))"
  by (auto simp: unvmed_init_irq_def unvmed_init_irq_reaper_def undo_reaper_def unvmed_free_irq_reaper_def
      andthen_def Let_def split: option.splits sum.splits)

lemma init_irq_refs:
  assumes "unvmed_init_irq sys v u = (Ok (), w)" and "\<forall>r \<in> set R. 0 \<le> r" and "holdings u = (S, C, L, R)"
  shows "holdings w = (S, C, L, R[v := R ! v + 1])"
proof -
  have "map r_refcnt (reapers w) = R[v := R ! v + 1]"
    using assms
    by (auto simp: unvmed_init_irq_def unvmed_init_irq_reaper_def undo_reaper_def unvmed_free_irq_reaper_def holdings_def
        reaper_store_def Let_def nth_opt_update map_update split: option.splits sum.splits if_splits)
  then show ?thesis
    using assms(3) init_irq_queues [of u sys v] assms(1) by (simp add: holdings_def same_queue_refs_def)
qed

lemma create_cq_ends:
  assumes world: "\<And>v. holdings (adm_world a v) = holdings v" and u: "holdings u = (S, C, L, R)"
    and pos: "refs_pos S" "refs_pos C" "\<forall>r \<in> set R. 0 \<le> r"
    and irq: "0 \<le> vector \<Longrightarrow> fst (unvmed_init_irq (adm_irq a) (nat vector) u) = Ok ()"
  shows "ends (\<lambda>res h. h = (S, if res = None then C else new_ref (unat qid) C, L,
               if 0 \<le> vector then R[nat vector := R ! nat vector + 1] else R)
             \<or> \<not> adm_entry_mem a \<and> res = None
               \<and> h = (S, new_ref (unat qid) C, L, if 0 \<le> vector then R[nat vector := R ! nat vector + 1] else R))
           (unvmed_create_cq a qid qsize vector pc u)"
proof -
  define R1 where "R1 = (if 0 \<le> vector then R[nat vector := R ! nat vector + 1] else R)"
  obtain u1 where u1: "(if 0 \<le> vector then unvmed_init_irq (adm_irq a) (nat vector) u else (Ok (), u)) = (Ok (), u1)"
    and h1: "holdings u1 = (S, C, L, R1)"
  proof (cases "0 \<le> vector")
    case True
    obtain w where w: "unvmed_init_irq (adm_irq a) (nat vector) u = (Ok (), w)"
      using irq [OF True] by (cases "unvmed_init_irq (adm_irq a) (nat vector) u") auto
    show thesis using that [of w] True w init_irq_refs [OF w pos(3) u] by (simp add: R1_def)
  qed (use that [of u] u in \<open>simp add: R1_def\<close>)
  define Q where "Q = (\<lambda>(res :: unit option) h. h = (S, if res = None then C else new_ref (unat qid) C, L, R1)
    \<or> \<not> adm_entry_mem a \<and> res = None \<and> h = (S, new_ref (unat qid) C, L, R1))"
  have "ends Q (unvmed_create_cq a qid qsize vector pc u)"
  proof (cases "unvmed_sq_get 0 u1")
    case None
    then show ?thesis using u1 h1 by (simp add: unvmed_create_cq_def Q_def)
  next
    case (Some u2)
    have h2: "holdings u2 = (inc_ref 0 S, C, L, R1)"
      using sq_get_refs [of u1 0] Some h1 pos(1) by (auto simp: holdings_def)
    have put0: "holdings (snd (unvmed_sq_put 0 v)) = (S, T, L, R1)" if "holdings v = (inc_ref 0 S, T, L, R1)" for T v
      using sq_put_refs [OF that] dec_inc_ref [OF pos(1)] by simp
    have fin: "ends Q (create_cq_done a qid qsize vector pc r cqe v)"
      if v: "holdings v = (inc_ref 0 S, C, L, R1)" for r cqe v
    proof -
      obtain res w where init: "unvmed_init_ucq (adm_ucq_mem a) (unat qid) (unat qsize) vector (sint pc) v = (res, w)"
        by fastforce
      note refs = init_ucq_refs [OF pos(2) v init]
      have fail: "ends Q (end_admin_cmd a r (ctrl_cq_store (unat qid) (adm_cq_gone a)) (Fail e) x)"
        if "holdings x = (inc_ref 0 S, C, L, R1) \<or> \<not> adm_entry_mem a \<and> holdings x = (inc_ref 0 S, new_ref (unat qid) C, L, R1)"
        for e x
        by (rule end_admin_cmd_ends [OF refl]) (use that in \<open>auto simp: Q_def put0\<close>)
      have ok: "ends Q (end_admin_cmd a r (\<lambda>v. v) (Ok ()) x)"
        if "holdings x = (inc_ref 0 S, new_ref (unat qid) C, L, R1)" for x
        using that by (auto simp: Q_def put0 intro!: end_admin_cmd_ends)
      obtain ares y where add: "unvmed_reaper_add_cq (adm_entry_mem a) (unat qid) w = (ares, y)" by fastforce
      have y: "holdings y = holdings w" using holdings_reaper_add_cq add by (metis snd_conv)
      have "ares = Fail e \<Longrightarrow> \<not> adm_entry_mem a" for e
        using add by (auto simp: unvmed_reaper_add_cq_def Let_def split: option.splits if_splits)
      then show ?thesis
        using refs v add
        by (cases res; cases ares)
           (auto simp: create_cq_done_def Let_def init y holdings_cq_modify intro!: fail ok)
    qed
    have none: "Q None (S, C, L, R1)" by (simp add: Q_def)
    show ?thesis
      using u1 Some h2 put0 [of u2 C] none by (auto simp: unvmed_create_cq_def fin put0
          intro!: with_admin_cmd_ends [OF world] split: sum.splits)
  qed
  then show ?thesis unfolding R1_def Q_def .
qed

text \<open>Deleting a completion queue leaves the submission queues and the locks alone, and never fails.\<close>

definition sq_holdings :: "('m, 'r, 'z) unvme_irq_scheme \<Rightarrow> int option list \<times> nat set" where
  "sq_holdings u = (sq_refs u, sq_locked u)"

lemma sq_holdings_frame: "holdings w = holdings v \<Longrightarrow> sq_holdings w = sq_holdings v"
  by (simp add: holdings_def sq_holdings_def)

lemma delete_cq_u2_frame:
  assumes "unvmed_delete_cq_u2 gone err q v = (res, w)"
  shows "sq_holdings w = sq_holdings v \<and> (\<forall>e. res \<noteq> Fail e)"
proof -
  have del: "unvmed_reaper_del_cq q v = (r, w) \<Longrightarrow> sq_holdings w = sq_holdings v \<and> (\<forall>e. r \<noteq> Fail e)" for v r w
    using holdings_reaper_del_cq [of q v]
    by (auto intro!: sq_holdings_frame) (auto simp: unvmed_reaper_del_cq_def Let_def split: option.splits if_splits)
  have discard: "unvmed_discard_cq gone q v = (r, w) \<Longrightarrow> sq_holdings w = sq_holdings v \<and> (\<forall>e. r \<noteq> Fail e)" for v r w
    using holdings_discard_cq [of gone q v]
    by (auto intro!: sq_holdings_frame) (auto simp: unvmed_discard_cq_def split: option.splits if_splits)
  have put: "sq_holdings (snd (unvmed_cq_put q v)) = sq_holdings v" for v
    using cq_put_refs [of v "sq_refs v" "cq_refs v" "sq_locked v" "map r_refcnt (reapers v)" q]
    by (simp add: holdings_def sq_holdings_def)
  have free: "unvmed_free_irq err i v = (r, w) \<Longrightarrow> sq_holdings w = sq_holdings v" for i v r w
    using free_irq_queues [of v err i] by (simp add: same_queue_refs_def sq_holdings_def)
  show ?thesis
    using assms
    by (auto simp: unvmed_delete_cq_u2_def Let_def andthen_def put
        split: option.splits prod.splits outcome.splits if_splits dest!: del discard free)
qed

lemma delete_cq_ends:
  assumes world: "\<And>v. holdings (adm_world a v) = holdings v" and u: "holdings u = (S, C, L, R)"
    and pos: "refs_pos S" and asq: "nth_opt S 0 = Some (Some n)"
  shows "ends (\<lambda>res h. case h of (S', C', L', R') \<Rightarrow> S' = (if res = None then inc_ref 0 S else S) \<and> L' = L) (unvmed_delete_cq a qid u)"
    (is "ends ?Q _")
proof -
  obtain u1 where get: "unvmed_sq_get 0 u = Some u1" and h1: "holdings u1 = (inc_ref 0 S, C, L, R)"
    using sq_get_refs [of u 0] u pos asq by (auto simp: holdings_def split: option.splits)
  have put0: "sq_refs (snd (unvmed_sq_put 0 v)) = S" "sq_locked (snd (unvmed_sq_put 0 v)) = L"
    if "sq_refs v = inc_ref 0 S" "sq_locked v = L" for v
    using that sq_put_refs [of v "inc_ref 0 S" "cq_refs v" L "map r_refcnt (reapers v)" 0] dec_inc_ref [OF pos]
    by (simp_all add: holdings_def)
  have fin: "ends ?Q (delete_cq_done a qid r cqe v)" if v: "holdings v = (inc_ref 0 S, C, L, R)" for r cqe v
  proof -
    have last: "ends ?Q (end_admin_cmd a r (\<lambda>v. v) (Ok x) w)" if "sq_holdings w = (inc_ref 0 S, L)" for w x
      using that by (intro end_admin_cmd_ends [OF refl]) (auto simp: holdings_def sq_holdings_def put0)
    obtain res w where del: "unvmed_delete_cq_u2 (adm_cq_gone a) (adm_irq_err a) (unat qid) v = (res, w)" by fastforce
    have hv: "sq_holdings v = (inc_ref 0 S, L)" using v by (simp add: holdings_def sq_holdings_def)
    with delete_cq_u2_frame [OF del] have "sq_holdings w = (inc_ref 0 S, L)" "\<forall>e. res \<noteq> Fail e" by auto
    with hv last show ?thesis by (cases res) (simp_all add: delete_cq_done_def Let_def del)
  qed
  show ?thesis
    unfolding unvmed_delete_cq_def get option.case
    by (rule with_admin_cmd_ends [OF world h1]) (simp, rule fin)
qed


text \<open>Creating a completion queue with an interrupt: once the vector has its reference, success
  adds a reference of the queue and of the vector, and every failure but one gives everything back
  except the reference of the vector, which leaks.
\<close>

theorem create_cq_references:
  assumes "\<forall>v. holdings (adm_world a v) = holdings v" and "holdings u = (S, C, L, R)"
    and "refs_pos S" and "refs_pos C" and "\<forall>r \<in> set R. 0 \<le> r" and "adm_entry_mem a"
    and "0 \<le> vector" and "fst (unvmed_init_irq (adm_irq a) (nat vector) u) = Ok ()"
  shows "ends (\<lambda>res h. h = (S, if res = None then C else new_ref (unat qid) C, L, R[nat vector := R ! nat vector + 1]))
           (unvmed_create_cq a qid qsize vector pc u)"
  using create_cq_ends [of a u S C L R vector qid qsize pc] assms by (simp add: ends_def split: option.splits prod.splits outcome.splits)

subsection \<open>A concrete controller\<close>

text \<open>
  A controller with an admin queue, whose device completes the command in the first slot with
  success while a function waits.
\<close>

definition device :: "(nat set, nat list) unvme_irq \<Rightarrow> (nat set, nat list) unvme_irq" where
  "device u =
     (case command (0, Slot 0) u of
        None \<Rightarrow> u
      | Some c \<Rightarrow> set_command (0, Slot 0) (c\<lparr>c_completed := True, c_cqe := zero_cqe\<rparr>) u)"

definition sample_adm :: "(nat set, nat list, (nat set, nat list) unvme_irq) admin_env" where
  "sample_adm = \<lparr>adm_defs = sample_defs, adm_ops = sample_ops, adm_io = busy_io, adm_now = zero_timespec,
     adm_world = device, adm_fuel = Suc (Suc 0), adm_cqe_ok = (\<lambda>cqe. unvmed_cqe_status cqe = Inr 0),
     adm_conf_cq = (\<lambda>_ _ _. Inl ENOMEM), adm_conf_sq = (\<lambda>_ _ _. Inr (the (sq_q sample_usq))),
     adm_cq_gone = sample_nvme_cq, adm_sq_gone = the (sq_q sample_usq), adm_ucq_mem = True, adm_usq_mem = True,
     adm_cids_mem = True, adm_entry_mem = True, adm_timer_err = None, adm_irq = good_sys, adm_irq_err = None\<rparr>"

definition sample_ctrl :: "(nat set, nat list) unvme_irq" where
  "sample_ctrl = sample_irqs\<lparr>sqs := [Some (sample_usq\<lparr>sq_ucq := 0\<rparr>), None, None],
     cqs := [Some (sample_ucq\<lparr>cq_vector := 0\<rparr>), None, None], u_state := UNVME_ENABLED\<rparr>"

lemma sample_cids: "unvmed_cid_alloc \<lparr>bm_size = 3, nr_bytes = 1, bm_bits = [0xF8], bm_top = 0\<rparr> =
   Ok (0, \<lparr>bm_size = 3, nr_bytes = 1, bm_bits = [0xF9], bm_top = 0\<rparr>)"
  by code_simp

lemma sample_cids_free: "unvmed_cid_free \<lparr>bm_size = 3, nr_bytes = 1, bm_bits = [0xF9], bm_top = 0\<rparr> 0 =
   Ok \<lparr>bm_size = 3, nr_bytes = 1, bm_bits = [0xF8], bm_top = 0\<rparr>"
  by code_simp

lemma rep3: "replicate 3 x = [x, x, x]" by (simp add: numeral_3_eq_3)

text \<open>The admin queue with two references, idle and with the posted command.\<close>

definition asq_idle :: "nat list unvme_sq" where
  "asq_idle = sample_usq\<lparr>sq_ucq := 0, sq_refcnt := 2\<rparr>"

definition asq_busy :: "nat list nvme_sq \<Rightarrow> unvme_cmd \<Rightarrow> nat list unvme_sq" where
  "asq_busy q c = asq_idle\<lparr>sq_q := Some q,
      sq_cids := \<lparr>bm_size = 3, nr_bytes = 1, bm_bits = [0xF9], bm_top = 0\<rparr>, sq_nr_cmds := 1,
      sq_cmds := [c, zero_cmd, zero_cmd]\<rparr>"

lemma asq_busy_simps [simp]:
  "sq_cmds (asq_busy q c) = [c, zero_cmd, zero_cmd]" "sq_ucq (asq_busy q c) = 0" "sq_q (asq_busy q c) = Some q"
  "(asq_busy q c)\<lparr>sq_cmds := [d, zero_cmd, zero_cmd]\<rparr> = asq_busy q d" "(asq_busy q c)\<lparr>sq_q := Some q'\<rparr> = asq_busy q' c"
  "(asq_busy q c)\<lparr>sq_q := Some q', sq_cmds := [d, zero_cmd, zero_cmd]\<rparr> = asq_busy q' d"
  "sq_cids (asq_busy q c) = \<lparr>bm_size = 3, nr_bytes = 1, bm_bits = [0xF9], bm_top = 0\<rparr>" "sq_refcnt (asq_busy q c) = 2"
  by (simp_all add: asq_busy_def asq_idle_def sample_usq_def)

definition new_cmd :: unvme_cmd where
  "new_cmd = fresh_cmd 0 0 1 UNVMED_CMD_INJECT_NONE"

text \<open>The command once it is completed.\<close>

definition done_cmd :: "nvme_cmd \<Rightarrow> unvme_cmd" where
  "done_cmd sqe = new_cmd\<lparr>c_flags := UNVMED_CMD_F_WAKEUP_ON_CQE, c_sqe := sqe,
     c_state := UNVME_CMD_S_SUBMITTED, c_completed := True, c_cqe := zero_cqe\<rparr>"

lemma new_cmd_simps [simp]:
  "c_rq new_cmd = Some 1" "\<not> c_completed new_cmd" "c_cid new_cmd = 0" "c_refcnt new_cmd = 1"
  "c_buf new_cmd = zero_buf" "c_mbuf new_cmd = zero_buf" "c_injected new_cmd = UNVMED_CMD_INJECT_NONE"
  by (simp_all add: new_cmd_def fresh_cmd_def zero_cmd_def)

lemma alloc1: "sqs u = [Some asq_idle, None, None] \<Longrightarrow>
   alloc_admin_cmd (Suc n) sample_adm u = Some (Ok (Slot 0),
     u\<lparr>sqs := [Some (asq_busy ((the (sq_q sample_usq))\<lparr>nsq_rqs := [2, 3]\<rparr>) new_cmd), None, None]\<rparr>)"
  by (simp add: sample_adm_def on_sq_def sq_at_def nth_opt_def asq_idle_def asq_busy_def sample_usq_def unvmed_alloc_cmd_nodata_def
     unvmed_cmd_init_u2_def unvmed_cmd_alloc_u2_def sample_cids [simplified] cmd_alloc_finish_def sq_take_rq_def busy_io_def sample_sq_ops_def
     cmd_init_meta_def buf_init_none sq_store_def rep3 fresh_cmd_def new_cmd_def zero_cmd_def)

lemma wakeup_set: "UNVMED_CMD_F_WAKEUP_ON_CQE AND UNVMED_CMD_F_WAKEUP_ON_CQE \<noteq> 0"
  by (simp add: UNVMED_CMD_F_WAKEUP_ON_CQE_def)

lemma run1:
  assumes "sqs u = [Some (asq_busy q new_cmd), None, None]" and "timeout u = 0"
    and "nth_opt (cqs u) 0 = Some (Some ucq)" and "0 \<le> cq_vector ucq"
  shows "\<exists>sqe q v. run_admin_cmd sample_adm (Slot 0) (put_sqe f) u = Some (Ok zero_cqe, v)
    \<and> sqs v = [Some (asq_busy q (done_cmd sqe)), None, None] \<and> cqs v = cqs u"
  using assms wakeup_set
  by (auto simp add: run_admin_cmd_def command_def sq_at_def nth_opt_def set_command_def sq_modify_def sq_store_def
     unvmed_cmd_post_def sample_adm_def Let_def unvmed_cmd_wait_def put_sqe_def 
     unvmed_sq_exit_def device_def unvmed_cq_irq_enabled_def done_cmd_def)

lemma put1:
  assumes "sq_at 0 u = Some (asq_busy q (done_cmd sqe))"
  shows "\<exists>v. cmd_put_at sample_ops io (0, Slot 0) u = (Ok 0, v)"
  using assms
  by (simp add: cmd_put_at_def on_sq_def unvmed_cmd_put_def Let_def nth_opt_def done_cmd_def unvmed_cmd_free_def
    unvmed_cmd_free_u2_def sample_cids_free [simplified])

text \<open>Creating a queue on this controller succeeds.\<close>

lemma sample_created: "\<exists>v. unvmed_create_sq sample_adm 1 4 0 0 1 0 sample_ctrl = Some (Ok (), v)"
proof -
  have "\<exists>u1 u2. unvmed_sq_get 0 sample_ctrl = Some u1 \<and> unvmed_cq_get 0 u1 = Some u2
   \<and> sqs u2 = [Some asq_idle, None, None] \<and> cqs u2 = [Some (sample_ucq\<lparr>cq_vector := 0, cq_refcnt := 2\<rparr>), None, None]
   \<and> sq_locked u2 = {} \<and> timeout u2 = 0 \<and> u_state sample_ctrl = UNVME_ENABLED"
    by (simp add: unvmed_sq_get_def unvmed_sq_find_def unvmed_cq_get_def unvmed_cq_find_def sq_store_def cq_store_def
        nth_opt_def sample_ctrl_def sample_irqs_def sample_irq_def unvme.extend_def sample_u_def unvme_nss.extend_def
        sample_usq_def sample_ucq_def asq_idle_def)
  then obtain u1 u2 where get: "unvmed_sq_get 0 sample_ctrl = Some u1" "unvmed_cq_get 0 u1 = Some u2"
    and u2: "sqs u2 = [Some asq_idle, None, None]" "cqs u2 = [Some (sample_ucq\<lparr>cq_vector := 0, cq_refcnt := 2\<rparr>), None, None]"
      "sq_locked u2 = {}" "timeout u2 = 0" and st: "u_state sample_ctrl = UNVME_ENABLED" by blast
  define q where "q = the (sq_q sample_usq)"
  define u3 where "u3 = (ctrl_sq_store 1 q u2)\<lparr>sq_locked := {0}\<rparr>"
  have u3: "sqs u3 = [Some asq_idle, None, None]" "cqs u3 = cqs u2" "timeout u3 = 0"
    using u2 by (simp_all add: u3_def ctrl_sq_store_def nth_opt_def)
  define u4 where "u4 = u3\<lparr>sqs := [Some (asq_busy (q\<lparr>nsq_rqs := [2, 3]\<rparr>) new_cmd), None, None]\<rparr>"
  have u4: "alloc_admin_cmd (adm_fuel sample_adm) sample_adm u3 = Some (Ok (Slot 0), u4)"
    using alloc1 [OF u3(1)] by (simp add: sample_adm_def u4_def q_def)
  let ?f = "\<lambda>sqe. sqe\<lparr>sqe_opcode := d_create_sq sample_defs, sqe_qid := 1, sqe_prp1 := ctrl_sq_mem 1 u4, sqe_qsize := 3,
    sqe_qflags := sq_qflags sample_defs 0 1, sqe_cdw12 := 0, sqe_cqid := 1\<rparr>"
  obtain sqe q' u5 where u5: "run_admin_cmd sample_adm (Slot 0) (put_sqe ?f) u4 = Some (Ok zero_cqe, u5)"
    "sqs u5 = [Some (asq_busy q' (done_cmd sqe)), None, None]"
    using run1 [of u4 "q\<lparr>nsq_rqs := [2, 3]\<rparr>" "sample_ucq\<lparr>cq_vector := 0, cq_refcnt := 2\<rparr>" ?f] u3 u2(2)
    by (auto simp: u4_def nth_opt_def)
  have ok: "adm_cqe_ok sample_adm zero_cqe" by (simp add: sample_adm_def) code_simp
  obtain u6 where u6: "unvmed_init_usq True True None 1 4 0 0 1 0 u5 = (Ok (), u6)" "sqs u6 ! 0 = sqs u5 ! 0" "length (sqs u6) = 3"
    using u5(2) by (auto simp: unvmed_init_usq_def unvmed_sq_get_def unvmed_sq_find_def nth_opt_def unvmed_cid_init_def
        usq_setup_def sq_store_def cq_store_def Let_def split: option.splits)
  have "sq_at 0 (unvmed_enable_sq 1 u6) = Some (asq_busy q' (done_cmd sqe))"
    using u6 u5(2) by (auto simp: unvmed_enable_sq_def sq_modify_def sq_store_def sq_at_def nth_opt_def split: option.splits)
  then obtain u7 where "cmd_put_at sample_ops (adm_io sample_adm) (0, Slot 0) (unvmed_enable_sq 1 u6) = (Ok 0, u7)"
    using put1 by blast
  then have fin: "\<exists>v. create_sq_done sample_adm 1 4 0 0 1 0 (Slot 0) zero_cqe u5 = Some (Ok (), v)"
    using u6(1) ok by (simp add: create_sq_done_def Let_def end_admin_cmd_def sample_adm_def)
  have enter: "unvmed_sq_enter 0 (ctrl_sq_store 1 q u2) = Some u3"
    using u2 by (simp add: unvmed_sq_enter_def u3_def ctrl_sq_store_def nth_opt_def)
  have conf: "adm_conf_sq sample_adm 1 4 x = Inr q" "adm_defs sample_adm = sample_defs" for x by (simp_all add: sample_adm_def q_def)
  have "put_sqe ?f = unvmed_cmd_prep_create_sq sample_defs (ctrl_sq_mem 1 u4) 1 4 1 0 1 0"
    by (rule ext) (simp add: unvmed_cmd_prep_create_sq_def)
  then show ?thesis
    using fin u5(1) u2(2) by (simp add: unvmed_create_sq_def st get conf with_admin_cmd_def enter [simplified] u4 nth_opt_def sample_ucq_def)
qed

lemma sample_world: "holdings (adm_world sample_adm v) = holdings v"
  by (simp add: sample_adm_def device_def split: option.splits)

lemma sample_holdings: "holdings sample_ctrl = ([Some 1, None, None], [Some 1, None, None], {}, [0, 0])"
  by (simp add: holdings_def sq_refs_def cq_refs_def sample_ctrl_def sample_irqs_def sample_irq_def unvme.extend_def
      sample_u_def unvme_nss.extend_def sample_usq_def sample_ucq_def zero_reaper_def)

lemma sample_pos: "refs_pos [Some 1, None, None]"
  by (simp add: refs_pos_def)


theorem create_cq_references_witness:
  "\<exists>v. unvmed_create_cq sample_adm 1 4 0 1 sample_ctrl = Some (Fail ENOMEM, v)
     \<and> holdings v = ([Some 1, None, None], [Some 1, None, None], {}, [1, 0])"
proof -
  have irq: "fst (unvmed_init_irq (adm_irq sample_adm) (nat 0) sample_ctrl) = Ok ()"
    "sqs (snd (unvmed_init_irq (adm_irq sample_adm) 0 sample_ctrl)) = sqs sample_ctrl"
    by (simp_all add: unvmed_init_irq_def unvmed_init_irq_reaper_def reaper_store_def sample_adm_def sample_ctrl_def
        sample_irqs_def good_sys_def zero_reaper_def nth_opt_def Let_def)
  then obtain u1 where u1: "unvmed_init_irq (adm_irq sample_adm) 0 sample_ctrl = (Ok (), u1)" "sqs u1 = sqs sample_ctrl"
    by (cases "unvmed_init_irq (adm_irq sample_adm) 0 sample_ctrl") auto
  have conf: "adm_conf_cq sample_adm 1 4 0 = Inl ENOMEM" by (simp add: sample_adm_def)
  have "\<exists>u2. unvmed_sq_get 0 u1 = Some u2"
    by (simp add: unvmed_sq_get_def unvmed_sq_find_def u1 sample_ctrl_def nth_opt_def sample_usq_def)
  then obtain v where v: "unvmed_create_cq sample_adm 1 4 0 1 sample_ctrl = Some (Fail ENOMEM, v)"
    using conf by (auto simp: unvmed_create_cq_def u1)
  have "adm_entry_mem sample_adm" by (simp add: sample_adm_def)
  from create_cq_references [OF _ sample_holdings sample_pos sample_pos _ this _ irq(1), of 1 4 1] v sample_world
  show ?thesis by simp
qed

end
