(* ===== verification/Lifecycle.thy ===== *)
theory Lifecycle
  imports Admin Hmb
begin

unbundle bit_operations_syntax

text \<open>
  The life of a controller, \<open>lib/libunvmed.c\<close>: its admin queues, enabling and disabling it through
  its registers, the plain and the graceful reset, saving what is configured and restoring it
  after a reset, and releasing the controller.
\<close>

subsection \<open>State\<close>

text \<open>\<open>struct unvme_ctx\<close>: what is saved of the controller, a namespace or a queue.\<close>

record ctx_ctrl =
  ctx_iosqes :: u8
  ctx_iocqes :: u8
  ctx_mps :: u8
  ctx_ams :: u8
  ctx_sq_size :: u16
  ctx_cq_size :: u16
  ctx_timeout :: int
  ctx_css :: u8
  ctx_admin_irq :: bool

datatype unvme_ctx =
    UNVME_CTX_T_CTRL ctx_ctrl
  | UNVME_CTX_T_SQ (ctx_qid: u32) (ctx_qsize: u32) (ctx_cqid: u32) (ctx_qprio: u32) (ctx_pc: u32) (ctx_nvmsetid: u32)
  | UNVME_CTX_T_CQ (ctx_qid: u32) (ctx_qsize: u32) (ctx_vector: int) (ctx_pc: u32)
  | UNVME_CTX_T_NS (ctx_nsid: u32)

text \<open>
  The rest of \<open>struct unvme\<close> that these functions use, the registers of the device they write, and
  what becomes of the controller: \<open>ctrl_open\<close> until \<open>nvme_close()\<close>, \<open>freed\<close> after \<open>free()\<close>.
\<close>

record ('m, 'r) unvme_ctrl = "('m, 'r) unvme_irq" +
  reg_cc :: u32
  reg_aqa :: u32
  reg_asq :: u64
  reg_acq :: u64
  ctx_list :: "unvme_ctx list"
  thread_list :: "(int \<times> nat) list"
  shmem_vaddr :: nat
  shmem_iova :: u64
  shmem_size :: nat
  shmem_open :: bool
  ctrl_open :: bool
  freed :: bool

text \<open>The fields of the registers, from the NVMe headers.\<close>

record nvme_regs =
  cc_en_shift :: nat
  cc_mps_shift :: nat
  cc_ams_shift :: nat
  cc_iosqes_shift :: nat
  cc_iocqes_shift :: nat
  cc_en :: "u32 \<Rightarrow> bool"
  cc_css :: "u32 \<Rightarrow> u32"
  cc_mps :: "u32 \<Rightarrow> u32"
  cc_ams :: "u32 \<Rightarrow> u32"
  cc_iosqes :: "u32 \<Rightarrow> u32"
  cc_iocqes :: "u32 \<Rightarrow> u32"
  aqa_asqs :: "u32 \<Rightarrow> u32"
  aqa_acqs :: "u32 \<Rightarrow> u32"
  csts_rdy :: "u32 \<Rightarrow> bool"
  csts_cfs :: "u32 \<Rightarrow> bool"

type_synonym ('m, 'r, 'z) ctrl_admin = "('m, 'r, ('m, 'r, 'z) unvme_ctrl_scheme) admin_env"
type_synonym ('a, 'm, 'r, 'z) ctrl_run = "('a outcome \<times> ('m, 'r, 'z) unvme_ctrl_scheme) option"

text \<open>The boolean result of a change of state and the state left.\<close>

definition set_state ::
  "unvme_state \<Rightarrow> ('m, 'r, 'z) unvme_scheme \<Rightarrow> bool \<times> ('m, 'r, 'z) unvme_scheme" where
  "set_state s u =
     (case unvmed_ctrl_set_state_u2 (u_state u) s of
        Inl _ \<Rightarrow> (False, u) | Inr st \<Rightarrow> (True, u\<lparr>u_state := st\<rparr>))"

subsection \<open>Admin queues\<close>

text \<open>The sizes are \<open>uint32_t\<close>, and the size of the completion queue is shifted over the other.\<close>

definition unvmed_configure_adminq ::
  "('m, 'r, 'z) unvme_ctrl_scheme \<Rightarrow> unit outcome \<times> ('m, 'r, 'z) unvme_ctrl_scheme" where
  "unvmed_configure_adminq u =
     (case (sq_at 0 u, nth_opt (cqs u) 0) of
        (Some usq, Some (Some ucq)) \<Rightarrow>
          (case (sq_q usq, cq_q ucq) of
             (Some q, Some cq) \<Rightarrow>
               (Ok (), u\<lparr>reg_aqa := (word_of_nat (sq_qsize usq) - 1) OR push_bit 16 (word_of_nat (cq_qsize ucq) - 1),
                         reg_asq := nsq_iova q, reg_acq := ncq_iova cq\<rparr>)
           | _ \<Rightarrow> (Fault, u))
      | _ \<Rightarrow> (Fail EINVAL, u))"

text \<open>
  The admin queues are made with vector 0; without interrupts the vector is taken back after that.
\<close>

definition unvmed_create_adminq ::
  "('m, 'r, 'z) ctrl_admin \<Rightarrow> u32 \<Rightarrow> u32 \<Rightarrow> bool \<Rightarrow> ('m, 'r, 'z) unvme_ctrl_scheme
   \<Rightarrow> (unit, 'm, 'r, 'z) ctrl_run" where
  "unvmed_create_adminq a sq_size cq_size irq u =
     (if u_state u \<noteq> UNVME_DISABLED then Some (Fail EPERM, u)
      else
        thenb (Some (unvmed_init_cq a 0 cq_size 0 1 u)) (\<lambda>_ u1.
          case unvmed_init_sq a 0 sq_size 0 0 1 0 u1 of
            (Fault, u2) \<Rightarrow> Some (Fault, u2)
          | (Fail e, u2) \<Rightarrow>
              (case unvmed_free_cq a 0 u2 of (Fault, u3) \<Rightarrow> Some (Fault, u3) | (_, u3) \<Rightarrow> Some (Fail e, u3))
          | (Ok _, u2) \<Rightarrow>
              (case unvmed_configure_adminq u2 of
                 (Fault, u3) \<Rightarrow> Some (Fault, u3)
               | (Fail e, u3) \<Rightarrow>
                   thenb (unvmed_free_sq a 0 u3) (\<lambda>_ u4.
                     case unvmed_free_cq a 0 u4 of (Fault, u5) \<Rightarrow> Some (Fault, u5) | (_, u5) \<Rightarrow> Some (Fail e, u5))
               | (Ok _, u3) \<Rightarrow>
                   Some (Ok (), if \<not> irq \<or> nr_irqs u3 = 0
                                then cq_modify 0 (\<lambda>ucq. ucq\<lparr>cq_q := map_option (\<lambda>q. q\<lparr>ncq_vector := -1\<rparr>) (cq_q ucq),
                                                          cq_vector := -1\<rparr>) u3
                                else u3))))"

subsection \<open>Enabling\<close>

text \<open>The values that the reads of the status register return while the controller starts.\<close>

fun poll_enabled :: "nvme_regs \<Rightarrow> u32 list \<Rightarrow> (errno + unit) option" where
  "poll_enabled g [] = None"
| "poll_enabled g (csts # later) =
     (if csts = 0xffffffff then Some (Inl ENODEV)
      else if csts_cfs g csts then Some (Inl ENODEV)
      else if csts_rdy g csts then Some (Inr ())
      else poll_enabled g later)"

text \<open>The value written to the configuration register; the command set is not part of it.\<close>

definition cc_value :: "nvme_regs \<Rightarrow> u8 \<Rightarrow> u8 \<Rightarrow> u8 \<Rightarrow> u8 \<Rightarrow> u32" where
  "cc_value g iosqes iocqes ps ams =
     push_bit (cc_mps_shift g) (ucast ps) OR push_bit (cc_ams_shift g) (ucast ams)
     OR push_bit (cc_iosqes_shift g) (ucast iosqes) OR push_bit (cc_iocqes_shift g) (ucast iocqes)
     OR push_bit (cc_en_shift g) 1"

text \<open>
  \<open>__unvmed_enable_ctrl()\<close>; \<open>world\<close> is what other threads do while it polls. A controller that is
  inaccessible or enabled already is left in the state \<open>ENABLING\<close>.
\<close>

definition unvmed_enable_ctrl_u2 ::
  "nvme_regs \<Rightarrow> (('m, 'r, 'z) unvme_ctrl_scheme \<Rightarrow> ('m, 'r, 'z) unvme_ctrl_scheme) \<Rightarrow> u32 list
   \<Rightarrow> u8 \<Rightarrow> u8 \<Rightarrow> u8 \<Rightarrow> u8 \<Rightarrow> u8 \<Rightarrow> int \<Rightarrow> bool \<Rightarrow> ('m, 'r, 'z) unvme_ctrl_scheme
   \<Rightarrow> (unit, 'm, 'r, 'z) ctrl_run" where
  "unvmed_enable_ctrl_u2 g world csts iosqes iocqes ps ams css timeout' state u =
     (case (if state then set_state UNVME_ENABLING u else (True, u)) of
        (False, u1) \<Rightarrow> Some (Fail EBUSY, u1)
      | (True, u1) \<Rightarrow>
          if reg_cc u1 = 0xffffffff then Some (Fail ENODEV, u1)
          else if cc_en g (reg_cc u1) then Some (Fail EEXIST, u1)
          else
            let u2 = world (u1\<lparr>reg_cc := cc_value g iosqes iocqes ps ams\<rparr>) in
            (case poll_enabled g csts of
               None \<Rightarrow> None
             | Some (Inl e) \<Rightarrow> Some (Fail e, if state then snd (set_state UNVME_FATAL u2) else u2)
             | Some (Inr _) \<Rightarrow>
                 let u3 = unvmed_enable_sq 0 (unvmed_enable_cq 0 (u2\<lparr>mps := ps, timeout := timeout'\<rparr>)) in
                 if state
                 then (case set_state UNVME_ENABLED u3 of
                         (False, u4) \<Rightarrow> Some (Fail ENODEV, u4) | (True, u4) \<Rightarrow> Some (Ok (), u4))
                 else Some (Ok (), u3)))"

definition unvmed_enable_ctrl ::
  "nvme_regs \<Rightarrow> (('m, 'r, 'z) unvme_ctrl_scheme \<Rightarrow> ('m, 'r, 'z) unvme_ctrl_scheme) \<Rightarrow> u32 list
   \<Rightarrow> u8 \<Rightarrow> u8 \<Rightarrow> u8 \<Rightarrow> u8 \<Rightarrow> u8 \<Rightarrow> int \<Rightarrow> ('m, 'r, 'z) unvme_ctrl_scheme
   \<Rightarrow> (unit, 'm, 'r, 'z) ctrl_run" where
  "unvmed_enable_ctrl g world csts iosqes iocqes ps ams css timeout' u =
     unvmed_enable_ctrl_u2 g world csts iosqes iocqes ps ams css timeout' True u"

definition unvmed_enable_vf ::
  "nvme_regs \<Rightarrow> (('m, 'r, 'z) unvme_ctrl_scheme \<Rightarrow> ('m, 'r, 'z) unvme_ctrl_scheme) \<Rightarrow> u32 list
   \<Rightarrow> u8 \<Rightarrow> u8 \<Rightarrow> u8 \<Rightarrow> u8 \<Rightarrow> u8 \<Rightarrow> int \<Rightarrow> ('m, 'r, 'z) unvme_ctrl_scheme
   \<Rightarrow> (unit, 'm, 'r, 'z) ctrl_run" where
  "unvmed_enable_vf g world csts iosqes iocqes ps ams css timeout' u =
     thenb (unvmed_enable_ctrl_u2 g world csts iosqes iocqes ps ams css timeout' False u) (\<lambda>_ u1.
       case unvmed_ctrl_set_state_fallback (u_state u1) UNVME_VF_ENABLED
              (state_val UNVME_VF_INVALIDATING OR state_val UNVME_VF_INVALIDATED OR state_val UNVME_FATAL)
              UNVME_VF_INVALIDATED of
         (change, st, e) \<Rightarrow>
           let u2 = u1\<lparr>u_state := st\<rparr> in
           if change then Some (Ok (), u2)
           else Some (Fail (case e of Some e \<Rightarrow> e | None \<Rightarrow> ERRNO_UNSET), u2))"

subsection \<open>Resetting\<close>

fun poll_disabled :: "nvme_regs \<Rightarrow> u32 list \<Rightarrow> (bool + unit) option" where
  "poll_disabled g [] = None"
| "poll_disabled g (csts # later) =
     (if csts = 0xffffffff then Some (Inl False)
      else if csts_cfs g csts then Some (Inl True)
      else if \<not> csts_rdy g csts then Some (Inr ())
      else poll_disabled g later)"

text \<open>
  \<open>__unvme_reset_ctrl()\<close>. A poll that fails says whether the device reported a fatal status; an
  inaccessible device leaves the controller in the state \<open>RESETTING\<close>.
\<close>

definition unvme_reset_ctrl_u2 ::
  "nvme_regs \<Rightarrow> u32 list \<Rightarrow> ('m, 'r, 'z) unvme_ctrl_scheme \<Rightarrow> (unit, 'm, 'r, 'z) ctrl_run" where
  "unvme_reset_ctrl_u2 g csts u =
     (if u_state u = UNVME_DISABLED then Some (Fail EALREADY, u)
      else if u_state u = UNVME_TEARDOWN then Some (Fail ENODEV, u)
      else case set_state UNVME_RESETTING u of
        (False, u1) \<Rightarrow> Some (Fail EBUSY, u1)
      | (True, u1) \<Rightarrow>
          if reg_cc u1 = 0xffffffff then Some (Fail ENODEV, u1)
          else
            let u2 = u1\<lparr>reg_cc := reg_cc u1 AND NOT (push_bit (cc_en_shift g) 1)\<rparr> in
            (case poll_disabled g csts of
               None \<Rightarrow> None
             | Some (Inl fatal) \<Rightarrow> Some (Fail ENODEV, if fatal then snd (set_state UNVME_FATAL u2) else u2)
             | Some (Inr _) \<Rightarrow> Some (Ok (), u2)))"

definition unvmed_reset_ctrl ::
  "nvme_regs \<Rightarrow> u32 list \<Rightarrow> nat \<Rightarrow> 'r io_env \<Rightarrow> ('m, 'r, 'z) unvme_ctrl_scheme \<Rightarrow> (unit, 'm, 'r, 'z) ctrl_run" where
  "unvmed_reset_ctrl g csts fuel io u =
     (case unvme_reset_ctrl_u2 g csts u of
        None \<Rightarrow> None
      | Some (Fault, u1) \<Rightarrow> Some (Fault, u1)
      | Some (Fail _, u1) \<Rightarrow> Some (Ok (), u1)
      | Some (Ok _, u1) \<Rightarrow> unvmed_reset_ctx fuel io u1)"

text \<open>
  The wait for the commands of a queue: \<open>fuel\<close> bounds the rounds, in which the device completes
  commands and the applications put them.
\<close>

fun wait_idle ::
  "nat \<Rightarrow> (('m, 'r, 'z) unvme_ctrl_scheme \<Rightarrow> ('m, 'r, 'z) unvme_ctrl_scheme) \<Rightarrow> nat
   \<Rightarrow> ('m, 'r, 'z) unvme_ctrl_scheme \<Rightarrow> (unit, 'm, 'r, 'z) ctrl_run" where
  "wait_idle 0 world qid u = None"
| "wait_idle (Suc fuel) world qid u =
     (case sq_at qid u of
        None \<Rightarrow> Some (Fault, u)
      | Some usq \<Rightarrow> if 0 < sq_nr_cmds usq then wait_idle fuel world qid (world u) else Some (Ok (), u))"

definition drain_sq ::
  "('m, 'r, 'z) ctrl_admin \<Rightarrow> nat \<Rightarrow> ('m, 'r, 'z) unvme_ctrl_scheme \<Rightarrow> (unit, 'm, 'r, 'z) ctrl_run" where
  "drain_sq a qid u =
     thenb (Some (unvmed_sq_update_tail (adm_io a) qid u)) (\<lambda>_ u1. wait_idle (adm_fuel a) (adm_world a) qid u1)"

text \<open>The two assignments to \<open>u->asq->enabled\<close> and \<open>u->acq->enabled\<close>.\<close>

definition enable_adminq ::
  "bool \<Rightarrow> ('m, 'r, 'z) unvme_scheme \<Rightarrow> unit outcome \<times> ('m, 'r, 'z) unvme_scheme" where
  "enable_adminq b u =
     (case (sq_at 0 u, nth_opt (cqs u) 0) of
        (Some _, Some (Some _)) \<Rightarrow>
          (Ok (), cq_modify 0 (\<lambda>ucq. ucq\<lparr>cq_enabled := b\<rparr>) (sq_modify 0 (\<lambda>usq. usq\<lparr>sq_enabled := b\<rparr>) u))
      | _ \<Rightarrow> (Fault, u))"

definition unvmed_reset_ctrl_graceful ::
  "nvme_regs \<Rightarrow> u32 list \<Rightarrow> ('m, 'r, 'z) ctrl_admin \<Rightarrow> ('m, 'r, 'z) unvme_ctrl_scheme
   \<Rightarrow> (unit, 'm, 'r, 'z) ctrl_run" where
  "unvmed_reset_ctrl_graceful g csts a u =
     (case unvmed_quiesce_sq_all (unvmed_disable_ctx u) of
        None \<Rightarrow> None
      | Some u1 \<Rightarrow>
          thenb (unvmed_cancel_allocated_state_cmds (adm_io a) u1) (\<lambda>_ u2.
          thenb (each_sq (drain_sq a) [0..<length (sqs u2)] u2) (\<lambda>_ u3.
          thenb (Some (enable_adminq True u3)) (\<lambda>_ u4.
          thenb (unvmed_delete_iosq_all a (unvmed_unquiesce_sq_all u4)) (\<lambda>_ u5.
          thenb (unvmed_delete_iocq_all a u5) (\<lambda>_ u6.
            case unvme_reset_ctrl_u2 g csts u6 of
              None \<Rightarrow> None
            | Some (Fault, u7) \<Rightarrow> Some (Fault, u7)
            | Some (_, u7) \<Rightarrow>
                thenb (Some (enable_adminq False u7)) (\<lambda>_ u8.
                thenb (Some (unvmed_delete_sq_u2 (adm_sq_gone a) 0 u8)) (\<lambda>_ u9.
                thenb (Some (unvmed_delete_cq_u2 (adm_cq_gone a) (adm_irq_err a) 0 u9)) (\<lambda>_ u10.
                  Some (Ok (), snd (set_state UNVME_DISABLED u10)))))))))))"

subsection \<open>Saving and restoring\<close>

fun save_cqs ::
  "nat list \<Rightarrow> ('m, 'r, 'z) unvme_scheme \<Rightarrow> unvme_ctx list \<times> ('m, 'r, 'z) unvme_scheme" where
  "save_cqs [] u = ([], u)"
| "save_cqs (qid # qids) u =
     (case unvmed_cq_get qid u of
        None \<Rightarrow> save_cqs qids u
      | Some u1 \<Rightarrow>
          (case nth_opt (cqs u1) qid of
             Some (Some ucq) \<Rightarrow>
               (case save_cqs qids (snd (unvmed_cq_put qid u1)) of
                  (cs, u2) \<Rightarrow>
                    (UNVME_CTX_T_CQ (word_of_nat (cq_id ucq)) (word_of_nat (cq_qsize ucq)) (cq_vector ucq)
                       (word_of_int (cq_pc ucq)) # cs, u2))
           | _ \<Rightarrow> ([], u1)))"

text \<open>The identifier of the completion queue is read through the pointer of the submission queue.\<close>

fun save_sqs ::
  "nat list \<Rightarrow> ('m, 'r, 'z) unvme_scheme \<Rightarrow> unvme_ctx list outcome \<times> ('m, 'r, 'z) unvme_scheme" where
  "save_sqs [] u = (Ok [], u)"
| "save_sqs (qid # qids) u =
     (case unvmed_sq_get qid u of
        None \<Rightarrow> save_sqs qids u
      | Some u1 \<Rightarrow>
          (case sq_at qid u1 of
             None \<Rightarrow> (Fault, u1)
           | Some usq \<Rightarrow>
               (case nth_opt (cqs u1) (sq_ucq usq) of
                  Some (Some ucq) \<Rightarrow>
                    andthen (save_sqs qids (snd (unvmed_sq_put qid u1))) (\<lambda>cs u2.
                      (Ok (UNVME_CTX_T_SQ (word_of_nat (sq_id usq)) (word_of_nat (sq_qsize usq))
                             (word_of_nat (cq_id ucq)) (sq_qprio usq) (sq_pc usq) (sq_nvmsetid usq) # cs), u2))
                | _ \<Rightarrow> (Fault, u1))))"

definition save_ctrl :: "nvme_regs \<Rightarrow> bool \<Rightarrow> ('m, 'r, 'z) unvme_ctrl_scheme \<Rightarrow> ctx_ctrl" where
  "save_ctrl g admin_irq u =
     \<lparr>ctx_iosqes = ucast (cc_iosqes g (reg_cc u)), ctx_iocqes = ucast (cc_iocqes g (reg_cc u)),
      ctx_mps = ucast (cc_mps g (reg_cc u)), ctx_ams = ucast (cc_ams g (reg_cc u)),
      ctx_sq_size = ucast (aqa_asqs g (reg_aqa u) + 1), ctx_cq_size = ucast (aqa_acqs g (reg_aqa u) + 1),
      ctx_timeout = timeout u, ctx_css = ucast (cc_css g (reg_cc u)), ctx_admin_irq = admin_irq\<rparr>"

text \<open>\<open>unvmed_ctx_init()\<close>; its allocations, whose results the source does not check, succeed.\<close>

definition unvmed_ctx_init ::
  "nvme_regs \<Rightarrow> ('m, 'r, 'z) unvme_ctrl_scheme \<Rightarrow> unit outcome \<times> ('m, 'r, 'z) unvme_ctrl_scheme" where
  "unvmed_ctx_init g u =
     (if ctx_list u \<noteq> [] then (Fail EEXIST, u)
      else if reg_cc u = 0xffffffff \<or> reg_aqa u = 0xffffffff then (Fail ENODEV, u)
      else
        case (sq_at 0 u, nth_opt (cqs u) 0) of
          (Some _, None) \<Rightarrow> (Fault, u)
        | (Some _, Some None) \<Rightarrow> (Fault, u)
        | (asq, acq) \<Rightarrow>
            let admin_irq = (asq \<noteq> None \<and> (case acq of Some (Some ucq) \<Rightarrow> cq_vector ucq = 0 | _ \<Rightarrow> False)) in
            (case save_cqs [1..<length (cqs u)] u of
               (cq_ctxs, u1) \<Rightarrow>
                 andthen (save_sqs [1..<length (sqs u1)] u1) (\<lambda>sq_ctxs u2.
                   (Ok (), u2\<lparr>ctx_list := UNVME_CTX_T_CTRL (save_ctrl g admin_irq u)
                                # map (\<lambda>ns. UNVME_CTX_T_NS (nsid ns)) (ns_list u) @ cq_ctxs @ sq_ctxs\<rparr>))))"

definition unvmed_ctx_free :: "('m, 'r, 'z) unvme_ctrl_scheme \<Rightarrow> ('m, 'r, 'z) unvme_ctrl_scheme" where
  "unvmed_ctx_free u = u\<lparr>ctx_list := []\<rparr>"

text \<open>
  What restoring needs: the registers, the values of the status register while the controller
  starts, the environment of admin commands, and for namespaces the Identify commands with the
  data that the device returns, the constants of \<open>unvmed_init_meta_ns()\<close>, whether allocations
  succeed, and the sizes of the buffers.
\<close>

record ('m, 'r, 's) restore_env =
  rs_regs :: nvme_regs
  rs_csts :: "u32 list"
  rs_admin :: "('m, 'r, 's) admin_env"
  rs_id_ns :: "u32 \<Rightarrow> 's \<Rightarrow> nvme_id_ns outcome \<times> 's"
  rs_id_ctrl :: "'s \<Rightarrow> nvme_id_ctrl outcome \<times> 's"
  rs_nvm_id_ns :: "u32 \<Rightarrow> 's \<Rightarrow> nvme_nvm_id_ns outcome \<times> 's"
  rs_elbaf :: elbaf_defs
  rs_room :: bool
  rs_sizeof_id_ns :: u64
  rs_sizeof_id_ctrl :: u64
  rs_sizeof_nvm :: u64

definition unvmed_ctx_restore_u2 ::
  "('m, 'r, ('m, 'r, 'z) unvme_ctrl_scheme) restore_env \<Rightarrow> unvme_ctx \<Rightarrow> ('m, 'r, 'z) unvme_ctrl_scheme
   \<Rightarrow> (unit, 'm, 'r, 'z) ctrl_run" where
  "unvmed_ctx_restore_u2 e ctx u =
     (case ctx of
        UNVME_CTX_T_CTRL c \<Rightarrow>
          thenb (unvmed_create_adminq (rs_admin e) (ucast (ctx_sq_size c)) (ucast (ctx_cq_size c)) (ctx_admin_irq c) u)
            (\<lambda>_ u1. unvmed_enable_ctrl (rs_regs e) (adm_world (rs_admin e)) (rs_csts e) (ctx_iosqes c) (ctx_iocqes c)
                      (ctx_mps c) (ctx_ams c) (ctx_css c) (ctx_timeout c) u1)
      | UNVME_CTX_T_NS i \<Rightarrow>
          thenb (Some (unvmed_init_ns (adm_ops (rs_admin e)) (rs_id_ns e) (rs_room e) (rs_sizeof_id_ns e) i None u)) (\<lambda>_ u1.
            Some (unvmed_init_meta_ns (adm_ops (rs_admin e)) (rs_elbaf e) (rs_id_ctrl e) (rs_nvm_id_ns e) (rs_room e)
                    (rs_sizeof_id_ctrl e) (rs_sizeof_nvm e) i None u1))
      | UNVME_CTX_T_CQ qid qsize vector pc \<Rightarrow> unvmed_create_cq (rs_admin e) qid qsize vector pc u
      | UNVME_CTX_T_SQ qid qsize cqid qprio pc nvmsetid \<Rightarrow>
          unvmed_create_sq (rs_admin e) qid qsize cqid qprio pc nvmsetid u)"

fun restore_ctxs ::
  "('m, 'r, ('m, 'r, 'z) unvme_ctrl_scheme) restore_env \<Rightarrow> unvme_ctx list \<Rightarrow> ('m, 'r, 'z) unvme_ctrl_scheme
   \<Rightarrow> (unit, 'm, 'r, 'z) ctrl_run" where
  "restore_ctxs e [] u = Some (Ok (), unvmed_ctx_free u)"
| "restore_ctxs e (ctx # ctxs) u =
     (case unvmed_ctx_restore_u2 e ctx u of
        None \<Rightarrow> None
      | Some (Fault, u1) \<Rightarrow> Some (Fault, u1)
      | Some (Fail er, u1) \<Rightarrow> Some (Fail er, unvmed_ctx_free u1)
      | Some (Ok _, u1) \<Rightarrow> restore_ctxs e ctxs u1)"

definition unvmed_ctx_restore ::
  "('m, 'r, ('m, 'r, 'z) unvme_ctrl_scheme) restore_env \<Rightarrow> ('m, 'r, 'z) unvme_ctrl_scheme
   \<Rightarrow> (unit, 'm, 'r, 'z) ctrl_run" where
  "unvmed_ctx_restore e u = restore_ctxs e (ctx_list u) u"

subsection \<open>Releasing a controller\<close>

text \<open>A call whose failure is dropped.\<close>

definition drop_fail :: "unit outcome \<times> 's \<Rightarrow> unit outcome \<times> 's" where
  "drop_fail r = (case r of (Fault, u) \<Rightarrow> (Fault, u) | (_, u) \<Rightarrow> (Ok (), u))"

text \<open>The shared memory: its pointer and size stay as they are.\<close>

definition release_shmem ::
  "'m dma_ops \<Rightarrow> ('m, 'r, 'z) unvme_ctrl_scheme \<Rightarrow> ('m, 'r, 'z) unvme_ctrl_scheme" where
  "release_shmem ops u =
     (if shmem_vaddr u \<noteq> 0 \<and> 0 < shmem_size u
      then (if shmem_iova u \<noteq> 0 then ignore (unvmed_unmap_vaddr ops (shmem_vaddr u) u) else u)\<lparr>shmem_open := False\<rparr>
      else u)"

text \<open>\<open>nvme_close()\<close> clears the name of the device.\<close>

definition close_ctrl :: "('m, 'r, 'z) unvme_ctrl_scheme \<Rightarrow> ('m, 'r, 'z) unvme_ctrl_scheme" where
  "close_ctrl u = u\<lparr>ctrl_open := False, bdf := None\<rparr>"

definition unvmed_free_vf_ctrl ::
  "'m dma_ops \<Rightarrow> (nat \<Rightarrow> errno option) \<Rightarrow> ('m, 'r, 'z) unvme_ctrl_scheme
   \<Rightarrow> unit outcome \<times> ('m, 'r, 'z) unvme_ctrl_scheme" where
  "unvmed_free_vf_ctrl ops errs u =
     andthen (drop_fail (unvmed_hmb_free ops (unvmed_free_irqs errs (snd (set_state UNVME_TEARDOWN u)))))
       (\<lambda>_ u1. (Ok (), close_ctrl (release_shmem ops u1)))"

definition free_queues :: "('m, 'r, 'z) unvme_scheme \<Rightarrow> ('m, 'r, 'z) unvme_scheme" where
  "free_queues u =
     fold unvmed_free_ucq_u2 [0..<length (cqs u)] (fold unvmed_free_usq_u2 [0..<length (sqs u)] u)"

text \<open>
  \<open>unvmed_free_ctrl()\<close>: only the call that brings the controller into \<open>TEARDOWN\<close> stops the reapers
  and closes the device.
\<close>

definition unvmed_free_ctrl ::
  "'m dma_ops \<Rightarrow> (nat \<Rightarrow> errno option) \<Rightarrow> ('m, 'r, 'z) unvme_ctrl_scheme
   \<Rightarrow> unit outcome \<times> ('m, 'r, 'z) unvme_ctrl_scheme" where
  "unvmed_free_ctrl ops errs u =
     andthen
       (case set_state UNVME_TEARDOWN u of
          (True, u1) \<Rightarrow>
            andthen (drop_fail (unvmed_hmb_free ops (unvmed_free_irqs errs u1))) (\<lambda>_ u2.
            andthen (unvmed_free_mem_all ops (release_shmem ops u2)) (\<lambda>_ u3. (Ok (), close_ctrl u3)))
        | (False, u1) \<Rightarrow> unvmed_free_mem_all ops u1)
       (\<lambda>_ u4. (Ok (), (unvmed_ctx_free (unvmed_free_ns_all (free_queues u4)))
                         \<lparr>thread_list := [], id_ctrl := None, freed := True\<rparr>))"

end
