(* ===== verification/Lifecycle_Facts.thy ===== *)
theory Lifecycle_Facts
  imports Lifecycle Admin_Facts
begin

unbundle bit_operations_syntax

text \<open>
  What the life-cycle functions do: the dead end that a failed start of a controller leaves, and
  that saving a controller recovers what it was configured with.
\<close>

lemma set_state_eq:
  "set_state s u =
     (if u_state u \<noteq> s \<and> change_allowed s (u_state u) then (True, u\<lparr>u_state := s\<rparr>) else (False, u))"
  by (simp add: set_state_def unvmed_ctrl_set_state_u2_def unvmed_ctrl_set_state_u4_def)

subsection \<open>A failed start\<close>

lemma unmap_and_free_frame [simp]:
  "unvme_dma.more (snd (unmap_and_free ops vaddr u)) = unvme_dma.more u"
  by (auto simp: unmap_and_free_def ignore_def Let_def unvmed_unmap_vaddr_def unvmed_pgunmap_def
      split: option.splits sum.splits outcome.splits prod.splits if_splits)

lemma free_mem_frame: "unvme_dma.more (snd (free_mem_loop ops bs u)) = unvme_dma.more u"
proof (induction bs arbitrary: u)
  case (Cons b bs)
  obtain r u1 where u1: "unmap_and_free ops (db_vaddr b) (u\<lparr>mem_list := bs\<rparr>) = (r, u1)" by fastforce
  then have "unvme_dma.more u1 = unvme_dma.more u"
    using unmap_and_free_frame [of ops "db_vaddr b" "u\<lparr>mem_list := bs\<rparr>"] by simp
  with u1 Cons.IH show ?case by (cases r) simp_all
qed simp

text \<open>The descriptors and reapers of a controller, whether its device is open, and its state.\<close>

definition device_side where
  "device_side u = (reapers u, efds u, open_fds u, ctrl_open u, u_state u)"

lemma device_side_free_usq [simp]: "device_side (unvmed_free_usq_u2 q u) = device_side u"
  by (simp add: device_side_def unvmed_free_usq_u2_def split: option.splits)

lemma device_side_free_ucq [simp]: "device_side (unvmed_free_ucq_u2 q u) = device_side u"
  by (simp add: device_side_def unvmed_free_ucq_u2_def split: option.splits)

lemma device_side_updates [simp]:
  "device_side (u\<lparr>ctx_list := l\<rparr>) = device_side u" "device_side (u\<lparr>thread_list := t\<rparr>) = device_side u"
  "device_side (u\<lparr>id_ctrl := i\<rparr>) = device_side u" "device_side (u\<lparr>freed := f\<rparr>) = device_side u"
  by (simp_all add: device_side_def)

lemma device_side_fold:
  "(\<And>x v. device_side (f x v) = device_side v) \<Longrightarrow> device_side (fold f xs u) = device_side u"
  by (induction xs arbitrary: u) simp_all

lemma device_side_free_queues [simp]: "device_side (free_queues u) = device_side u"
  by (simp add: free_queues_def device_side_fold)

lemma device_side_free_ns [simp]: "device_side (unvmed_free_ns_all u) = device_side u"
  unfolding unvmed_free_ns_all_def
  by (rule device_side_fold)
    (auto simp: device_side_def unvmed_ns_put_def ns_update_def Let_def split: option.splits prod.splits)

lemma device_side_more: "unvme_dma.more u = unvme_dma.more v \<Longrightarrow> device_side u = device_side v"
  by (cases u; cases v) (simp add: device_side_def)

lemma free_ctrl_enabling:
  assumes "u_state u = UNVME_ENABLING" and "unvmed_free_ctrl ops errs u = (Ok (), v)"
  shows "freed v \<and> device_side v = device_side u"
proof -
  obtain r w where w: "unvmed_free_mem_all ops u = (r, w)" by fastforce
  have "device_side w = device_side u"
    using free_mem_frame [of ops "mem_list u" u] w by (intro device_side_more) (simp add: unvmed_free_mem_all_def)
  moreover have "r = Ok ()" and "v = (unvmed_ctx_free (unvmed_free_ns_all (free_queues w)))
      \<lparr>thread_list := [], id_ctrl := None, freed := True\<rparr>"
    using assms w by (cases r; simp add: unvmed_free_ctrl_def set_state_eq andthen_def)+
  ultimately show ?thesis by (simp add: unvmed_ctx_free_def)
qed

lemma enable_queues_state [simp]:
  "u_state (unvmed_enable_sq q u) = u_state u" "u_state (unvmed_enable_cq q u) = u_state u"
  by (simp_all add: unvmed_enable_sq_def unvmed_enable_cq_def sq_modify_def cq_modify_def sq_store_def cq_store_def
      split: option.splits)

text \<open>C38. When starting a disabled controller fails, while no other thread changes its state, it is left in
  one of two states. A controller whose registers are inaccessible, or that is enabled already, is
  left in the state \<open>ENABLING\<close>, in which both another start and a reset are refused as busy, with
  nothing changed. A controller that fails while it gets ready is left in the state \<open>FATAL\<close>, in
  which another start is refused as busy and a reset is not.
\<close>

theorem enable_failure_wedges:
  assumes "u_state u = UNVME_DISABLED" and "\<forall>v. u_state (world v) = u_state v"
    and "unvmed_enable_ctrl g world csts iosqes iocqes ps ams css tmo u = Some (Fail e, u')"
  shows "u_state u' = (if reg_cc u = 0xffffffff \<or> cc_en g (reg_cc u) then UNVME_ENABLING else UNVME_FATAL)
    \<and> unvmed_enable_ctrl g world csts' iosqes' iocqes' ps' ams' css' tmo' u' = Some (Fail EBUSY, u')
    \<and> (unvme_reset_ctrl_u2 g csts' u' = Some (Fail EBUSY, u') \<longleftrightarrow> u_state u' = UNVME_ENABLING)"
proof -
  have state: "u_state u' = (if reg_cc u = 0xffffffff \<or> cc_en g (reg_cc u) then UNVME_ENABLING else UNVME_FATAL)"
    using assms
    by (auto simp: unvmed_enable_ctrl_def unvmed_enable_ctrl_u2_def set_state_eq Let_def
        split: if_splits option.splits sum.splits)
  have "unvmed_enable_ctrl g world csts' iosqes' iocqes' ps' ams' css' tmo' u' = Some (Fail EBUSY, u')"
    using state by (auto simp: unvmed_enable_ctrl_def unvmed_enable_ctrl_u2_def set_state_eq split: if_splits)
  moreover have "unvme_reset_ctrl_u2 g csts' u' = Some (Fail EBUSY, u') \<longleftrightarrow> u_state u' = UNVME_ENABLING"
    using state by (auto simp: unvme_reset_ctrl_u2_def set_state_eq Let_def split: if_splits option.splits sum.splits)
  ultimately show ?thesis using state by blast
qed

subsection \<open>Saving a configuration\<close>

text \<open>The layout of the registers in the NVMe specification.\<close>

definition field :: "nat \<Rightarrow> nat \<Rightarrow> u32 \<Rightarrow> u32" where
  "field lo w r = take_bit w (drop_bit lo r)"

definition nvme_layout :: "nvme_regs \<Rightarrow> bool" where
  "nvme_layout g \<longleftrightarrow>
     cc_en_shift g = 0 \<and> cc_mps_shift g = 7 \<and> cc_ams_shift g = 11 \<and> cc_iosqes_shift g = 16 \<and> cc_iocqes_shift g = 20
     \<and> cc_css g = field 4 3 \<and> cc_mps g = field 7 4 \<and> cc_ams g = field 11 3
     \<and> cc_iosqes g = field 16 4 \<and> cc_iocqes g = field 20 4 \<and> aqa_asqs g = field 0 12 \<and> aqa_acqs g = field 16 12"

lemma cc_fields:
  assumes "nvme_layout g" and "unat ps < 2 ^ 4" "unat ams < 2 ^ 3" "unat iosqes < 2 ^ 4" "unat iocqes < 2 ^ 4"
  defines "r \<equiv> cc_value g iosqes iocqes ps ams"
  shows "ucast (cc_mps g r) = ps" "ucast (cc_ams g r) = ams" "ucast (cc_iosqes g r) = iosqes"
    "ucast (cc_iocqes g r) = iocqes" "ucast (cc_css g r) = (0::u8)" "r \<noteq> 0xffffffff"
proof -
  note small = small_bit [OF assms(2)] small_bit [OF assms(3)] small_bit [OF assms(4)] small_bit [OF assms(5)]
  have r: "r = push_bit 7 (ucast ps) OR push_bit 11 (ucast ams) OR push_bit 16 (ucast iosqes)
      OR push_bit 20 (ucast iocqes) OR push_bit 0 1"
    using assms(1) by (simp add: r_def cc_value_def nvme_layout_def)
  have "ucast (field 7 4 r) = ps" "ucast (field 11 3 r) = ams" "ucast (field 16 4 r) = iosqes"
    "ucast (field 20 4 r) = iocqes" "ucast (field 4 3 r) = (0::u8)"
    using small by - (rule bit_word_eqI; fastforce simp: r field_def bit_simps)+
  with assms(1) show "ucast (cc_mps g r) = ps" "ucast (cc_ams g r) = ams" "ucast (cc_iosqes g r) = iosqes"
    "ucast (cc_iocqes g r) = iocqes" "ucast (cc_css g r) = (0::u8)"
    by (simp_all add: nvme_layout_def)
  have "\<not> bit r 31" using small by (auto simp: r bit_simps dest: small)
  moreover have "bit (0xffffffff :: u32) 31" by simp
  ultimately show "r \<noteq> 0xffffffff" by metis
qed

lemma aqa_halves:
  fixes a b :: u32
  assumes "unat a < 2 ^ 12" and "unat b < 2 ^ 12"
  shows "field 0 12 (a OR push_bit 16 b) = a" "field 16 12 (a OR push_bit 16 b) = b"
    "a OR push_bit 16 b \<noteq> 0xffffffff"
proof -
  note small = assms [THEN small_bit]
  show "field 0 12 (a OR push_bit 16 b) = a" "field 16 12 (a OR push_bit 16 b) = b"
    using small by - (rule bit_word_eqI; fastforce simp: field_def bit_simps)+
  have "\<not> bit (a OR push_bit 16 b) 31" by (auto simp: bit_simps dest: small)
  moreover have "bit (0xffffffff :: u32) 31" by simp
  ultimately show "a OR push_bit 16 b \<noteq> 0xffffffff" by metis
qed

lemma aqa_fields:
  assumes "nvme_layout g" and "1 \<le> s" "s \<le> 4096" "1 \<le> c" "c \<le> 4096"
  defines "r \<equiv> (word_of_nat s - 1) OR push_bit 16 (word_of_nat c - 1) :: u32"
  shows "ucast (aqa_asqs g r + 1) = (word_of_nat s :: u16)" "ucast (aqa_acqs g r + 1) = (word_of_nat c :: u16)"
    "r \<noteq> 0xffffffff"
proof -
  have pred: "word_of_nat n - 1 = (word_of_nat (n - 1) :: u32)" if "1 \<le> n" for n
    using that by (simp add: of_nat_diff)
  have small: "unat (word_of_nat n - 1 :: u32) < 2 ^ 12" if "1 \<le> n" "n \<le> 4096" for n
    unfolding pred [OF that(1)] using that by (simp del: of_nat_diff add: unsigned_of_nat take_bit_nat_def)
  note aqa_halves = aqa_halves [OF small [OF assms(2,3)] small [OF assms(4,5)], folded r_def]
  have "aqa_asqs g r + 1 = word_of_nat s" "aqa_acqs g r + 1 = word_of_nat c"
    using assms(1) aqa_halves(1,2) by (simp_all add: nvme_layout_def)
  then show "ucast (aqa_asqs g r + 1) = (word_of_nat s :: u16)" "ucast (aqa_acqs g r + 1) = (word_of_nat c :: u16)"
    using assms(2-5) by (simp_all add: unsigned_of_nat take_bit_nat_def)
  show "r \<noteq> 0xffffffff" by (fact aqa_halves(3))
qed

text \<open>What is saved of the queues.\<close>

definition cq_ctx :: "unvme_cq \<Rightarrow> unvme_ctx" where
  "cq_ctx ucq = UNVME_CTX_T_CQ (word_of_nat (cq_id ucq)) (word_of_nat (cq_qsize ucq)) (cq_vector ucq)
     (word_of_int (cq_pc ucq))"

definition sq_ctx :: "'r unvme_sq \<Rightarrow> unvme_ctx" where
  "sq_ctx usq = UNVME_CTX_T_SQ (word_of_nat (sq_id usq)) (word_of_nat (sq_qsize usq)) (word_of_nat (sq_ucq usq))
     (sq_qprio usq) (sq_pc usq) (sq_nvmsetid usq)"

definition entries :: "'a option list \<Rightarrow> nat list \<Rightarrow> 'a list" where
  "entries tbl qids = List.map_filter (\<lambda>q. case nth_opt tbl q of Some x \<Rightarrow> x | None \<Rightarrow> None) qids"

lemma entries_simps [simp]:
  "entries tbl [] = []"
  "nth_opt tbl q = Some (Some x) \<Longrightarrow> entries tbl (q # qs) = x # entries tbl qs"
  "\<forall>x. nth_opt tbl q \<noteq> Some (Some x) \<Longrightarrow> entries tbl (q # qs) = entries tbl qs"
  by (auto simp: entries_def map_filter_simps split: option.splits)

lemma cq_get_put:
  assumes "cq_wf u" and "nth_opt (cqs u) q = Some (Some ucq)"
  shows "unvmed_cq_get q u = Some (cq_store q (ucq\<lparr>cq_refcnt := cq_refcnt ucq + 1\<rparr>) u)"
    and "snd (unvmed_cq_put q (cq_store q (ucq\<lparr>cq_refcnt := cq_refcnt ucq + 1\<rparr>) u)) = u"
  using assms cq_wfD [OF assms]
  by (cases u; auto simp: unvmed_cq_get_def cq_find_wf unvmed_cq_put_def cq_store_def nth_opt_update
      list_update_same_conv)+

lemma cq_get_none: "cq_wf u \<Longrightarrow> \<forall>x. nth_opt (cqs u) q \<noteq> Some (Some x) \<Longrightarrow> unvmed_cq_get q u = None"
  by (auto simp: unvmed_cq_get_def cq_find_wf split: option.splits)

lemma save_cqs_eq: "cq_wf u \<Longrightarrow> save_cqs qids u = (map cq_ctx (entries (cqs u) qids), u)"
proof (induction qids)
  case (Cons q qs)
  show ?case
  proof (cases "\<exists>ucq. nth_opt (cqs u) q = Some (Some ucq)")
    case True
    then obtain ucq where ucq: "nth_opt (cqs u) q = Some (Some ucq)" by blast
    then have "nth_opt (cqs (cq_store q (ucq\<lparr>cq_refcnt := cq_refcnt ucq + 1\<rparr>) u)) q
        = Some (Some (ucq\<lparr>cq_refcnt := cq_refcnt ucq + 1\<rparr>))"
      by (simp add: cq_store_nth)
    with ucq Cons cq_get_put [OF Cons.prems ucq] show ?thesis by (simp add: cq_ctx_def)
  next
    case False
    with Cons show ?thesis by (simp add: cq_get_none)
  qed
qed simp

text \<open>Every submission queue has its completion queue.\<close>

definition sqs_bound :: "('m, 'r, 'z) unvme_scheme \<Rightarrow> bool" where
  "sqs_bound u \<longleftrightarrow> (\<forall>q usq. nth_opt (sqs u) q = Some (Some usq) \<longrightarrow> (\<exists>ucq. nth_opt (cqs u) (sq_ucq usq) = Some (Some ucq)))"

lemma save_sqs_eq:
  assumes "sq_wf u" and "cq_wf u" and "sqs_bound u"
  shows "save_sqs qids u = (Ok (map sq_ctx (entries (sqs u) qids)), u)"
proof (induction qids)
  case (Cons q qs)
  show ?case
  proof (cases "\<exists>usq. nth_opt (sqs u) q = Some (Some usq)")
    case True
    then obtain usq where usq: "nth_opt (sqs u) q = Some (Some usq)" by blast
    with assms(3) obtain ucq where ucq: "nth_opt (cqs u) (sq_ucq usq) = Some (Some ucq)"
      unfolding sqs_bound_def by blast
    let ?u = "sq_store q (usq\<lparr>sq_refcnt := sq_refcnt usq + 1\<rparr>) u"
    have "sq_at q ?u = Some (usq\<lparr>sq_refcnt := sq_refcnt usq + 1\<rparr>)" "cqs ?u = cqs u"
      using usq by (simp_all add: sq_store_def nth_opt_update sq_at_nth)
    with usq ucq Cons sq_get_live [OF assms(1) usq] sq_get_put [OF assms(1) usq] cq_wfD [OF assms(2) ucq]
    show ?thesis by (simp add: sq_ctx_def andthen_def)
  next
    case False
    with Cons assms(1) show ?thesis by (simp add: sq_get_dead live_sqs_at)
  qed
qed simp

text \<open>C7. Saving a controller recovers its configuration. Suppose the admin queues were registered and the
  controller was enabled with parameters that fit their fields. Then \<open>unvmed_ctx_init()\<close> saves
  the entry sizes, page size, arbitration mechanism and timeout that were asked for, the sizes of
  the admin queues, every namespace, and every I/O queue with the parameters it was created with,
  completion queues before submission queues; and it changes nothing else of the controller, no
  reference count included. The command set is lost: 0 is saved whatever was asked for.
\<close>

theorem ctx_saves_configuration:
  assumes "nvme_layout g"
    and "sq_at 0 u = Some asq" "nth_opt (cqs u) 0 = Some (Some acq)"
    and "1 \<le> sq_qsize asq" "sq_qsize asq \<le> 4096" "1 \<le> cq_qsize acq" "cq_qsize acq \<le> 4096"
    and "unvmed_configure_adminq u = (Ok (), u1)"
    and "unat iosqes < 2 ^ 4" "unat iocqes < 2 ^ 4" "unat ps < 2 ^ 4" "unat ams < 2 ^ 3"
    and "\<And>v. reg_cc (world v) = reg_cc v \<and> reg_aqa (world v) = reg_aqa v"
    and "unvmed_enable_ctrl g world csts iosqes iocqes ps ams css tmo u1 = Some (Ok (), v)"
    and "sq_wf v" "cq_wf v" "sqs_bound v" "sq_at 0 v \<noteq> None" "nth_opt (cqs v) 0 = Some (Some vcq)" "ctx_list v = []"
  shows "unvmed_ctx_init g v = (Ok (), v\<lparr>ctx_list :=
      UNVME_CTX_T_CTRL \<lparr>ctx_iosqes = iosqes, ctx_iocqes = iocqes, ctx_mps = ps, ctx_ams = ams,
        ctx_sq_size = word_of_nat (sq_qsize asq), ctx_cq_size = word_of_nat (cq_qsize acq),
        ctx_timeout = tmo, ctx_css = 0, ctx_admin_irq = (cq_vector vcq = 0)\<rparr>
      # map (\<lambda>ns. UNVME_CTX_T_NS (nsid ns)) (ns_list v)
      @ map cq_ctx (entries (cqs v) [1..<length (cqs v)]) @ map sq_ctx (entries (sqs v) [1..<length (sqs v)])\<rparr>)"
proof -
  have aqa: "reg_aqa u1 = (word_of_nat (sq_qsize asq) - 1) OR push_bit 16 (word_of_nat (cq_qsize acq) - 1)"
    using assms(2,3,8) by (auto simp: unvmed_configure_adminq_def split: option.splits)
  have modify: "reg_cc (sq_modify 0 f w) = reg_cc w" "reg_aqa (sq_modify 0 f w) = reg_aqa w"
    "timeout (sq_modify 0 f w) = timeout w" "reg_cc (cq_modify 0 h w) = reg_cc w"
    "reg_aqa (cq_modify 0 h w) = reg_aqa w" "timeout (cq_modify 0 h w) = timeout w" for f h w
    by (simp_all add: sq_modify_def cq_modify_def sq_store_def cq_store_def split: option.splits)
  have v: "reg_cc v = cc_value g iosqes iocqes ps ams" "reg_aqa v = reg_aqa u1" "timeout v = tmo"
    using assms(13,14) by (auto simp: unvmed_enable_ctrl_def unvmed_enable_ctrl_u2_def set_state_eq Let_def modify
        unvmed_enable_sq_def unvmed_enable_cq_def split: option.splits sum.splits if_splits)
  note cc = cc_fields [OF assms(1,11,12,9,10)] and aq = aqa_fields [OF assms(1,4-7)]
  show ?thesis
    using assms(15-20) cc aq by (auto simp: unvmed_ctx_init_def v aqa save_cqs_eq save_sqs_eq andthen_def save_ctrl_def)
qed

subsection \<open>A concrete controller\<close>

definition sample_regs :: nvme_regs where
  "sample_regs = \<lparr>cc_en_shift = 0, cc_mps_shift = 7, cc_ams_shift = 11, cc_iosqes_shift = 16, cc_iocqes_shift = 20,
     cc_en = (\<lambda>r. bit r 0), cc_css = field 4 3, cc_mps = field 7 4, cc_ams = field 11 3, cc_iosqes = field 16 4,
     cc_iocqes = field 20 4, aqa_asqs = field 0 12, aqa_acqs = field 16 12, csts_rdy = (\<lambda>r. bit r 0),
     csts_cfs = (\<lambda>r. bit r 1)\<rparr>"

definition sample_off :: "(nat set, nat list) unvme_ctrl" where
  "sample_off = unvme_irq.extend (sample_ctrl\<lparr>
       sqs := [Some (sample_usq\<lparr>sq_id := 0, sq_ucq := 0\<rparr>), Some sample_usq, None],
       cqs := [Some (sample_ucq\<lparr>cq_id := 0\<rparr>), Some sample_ucq, None],
       u_state := UNVME_DISABLED, ns_list := []\<rparr>)
     \<lparr>reg_cc = 0, reg_aqa = 0, reg_asq = 0, reg_acq = 0, ctx_list = [], thread_list = [], shmem_vaddr = 0,
      shmem_iova = 0, shmem_size = 0, shmem_open = False, ctrl_open = True, freed = False\<rparr>"

lemma sample_off_simps [simp]:
  "sqs sample_off = [Some (sample_usq\<lparr>sq_id := 0, sq_ucq := 0\<rparr>), Some sample_usq, None]"
  "cqs sample_off = [Some (sample_ucq\<lparr>cq_id := 0\<rparr>), Some sample_ucq, None]" "u_state sample_off = UNVME_DISABLED"
  "reg_cc sample_off = 0" "ctx_list sample_off = []" "ns_list sample_off = []" "ctrl_open sample_off" "mem_list sample_off = []"
  by (simp_all add: sample_off_def unvme_irq.extend_def sample_ctrl_def sample_irqs_def sample_irq_def unvme.extend_def
      sample_u_def unvme_nss.extend_def sample_nss_def unvme_dma.extend_def sample_dma_def)

theorem enable_failure_wedges_witness:
  "\<exists>u'. unvmed_enable_ctrl sample_regs id [] 6 4 0 0 0 5 (sample_off\<lparr>reg_cc := 1\<rparr>) = Some (Fail EEXIST, u')
     \<and> u_state u' = UNVME_ENABLING \<and> unvme_reset_ctrl_u2 sample_regs [] u' = Some (Fail EBUSY, u')"
proof -
  let ?u = "sample_off\<lparr>reg_cc := 1\<rparr>"
  have pre: "u_state ?u = UNVME_DISABLED" "\<forall>v. u_state (id v) = u_state v" "cc_en sample_regs (reg_cc ?u)"
    by (simp_all add: sample_regs_def)
  obtain u' where "unvmed_enable_ctrl sample_regs id [] 6 4 0 0 0 5 ?u = Some (Fail EEXIST, u')"
    by (simp add: unvmed_enable_ctrl_def unvmed_enable_ctrl_u2_def set_state_eq sample_regs_def)
  with enable_failure_wedges [OF pre(1,2) this, of "[]"] pre(3) show ?thesis by auto
qed

theorem ctx_saves_configuration_witness:
  "\<exists>u1 v. unvmed_configure_adminq sample_off = (Ok (), u1)
     \<and> unvmed_enable_ctrl sample_regs id [0, 1] 6 4 0 0 7 5 u1 = Some (Ok (), v)
     \<and> (\<exists>w rest. unvmed_ctx_init sample_regs v = (Ok (), w) \<and> ctx_list w =
          UNVME_CTX_T_CTRL \<lparr>ctx_iosqes = 6, ctx_iocqes = 4, ctx_mps = 0, ctx_ams = 0, ctx_sq_size = 4,
            ctx_cq_size = 4, ctx_timeout = 5, ctx_css = 0, ctx_admin_irq = False\<rparr> # rest \<and> length rest = 2)"
proof -
  let ?asq = "sample_usq\<lparr>sq_id := 0, sq_ucq := 0\<rparr>" and ?acq = "sample_ucq\<lparr>cq_id := 0\<rparr>"
  have lay: "nvme_layout sample_regs" by (simp add: nvme_layout_def sample_regs_def)
  have at: "sq_at 0 sample_off = Some ?asq" "nth_opt (cqs sample_off) 0 = Some (Some ?acq)" by (simp_all add: sq_at_nth)
  have sizes: "1 \<le> sq_qsize ?asq" "sq_qsize ?asq \<le> 4096" "1 \<le> cq_qsize ?acq" "cq_qsize ?acq \<le> 4096"
    by (simp_all add: sample_usq_def sample_ucq_def)
  obtain u1 where u1: "unvmed_configure_adminq sample_off = (Ok (), u1)" and
    keep: "sqs u1 = sqs sample_off" "cqs u1 = cqs sample_off" "u_state u1 = UNVME_DISABLED" "reg_cc u1 = 0" "ctx_list u1 = []" "ns_list u1 = []"
    using at by (auto simp: unvmed_configure_adminq_def sample_usq_def sample_ucq_def)
  obtain v where v: "unvmed_enable_ctrl sample_regs id [0, 1] 6 4 0 0 7 5 u1 = Some (Ok (), v)" and
    vq: "sqs v = [Some (?asq\<lparr>sq_enabled := True\<rparr>), Some sample_usq, None]" "cqs v = [Some (?acq\<lparr>cq_enabled := True\<rparr>), Some sample_ucq, None]"
      "ctx_list v = []" "ns_list v = []"
    using keep by (auto simp: unvmed_enable_ctrl_def unvmed_enable_ctrl_u2_def set_state_eq sample_regs_def Let_def
        unvmed_enable_sq_def unvmed_enable_cq_def sq_modify_def cq_modify_def sq_store_def cq_store_def nth_opt_def)
  have wf: "sq_wf v" "cq_wf v" "sqs_bound v" "sq_at 0 v \<noteq> None" "nth_opt (cqs v) 0 = Some (Some (?acq\<lparr>cq_enabled := True\<rparr>))"
    by (auto simp: sq_wf_def cq_wf_def sqs_bound_def sq_at_nth vq sample_usq_def sample_ucq_def nth_Cons less_Suc_eq
        split: nat.splits)
  have small: "unat (6 :: u8) < 2 ^ 4" "unat (4 :: u8) < 2 ^ 4" "unat (0 :: u8) < 2 ^ 4" "unat (0 :: u8) < 2 ^ 3" by simp_all
  from ctx_saves_configuration [OF lay at sizes u1 small _ v wf vq(3)] u1 v vq
  show ?thesis by (auto simp: sample_usq_def sample_ucq_def entries_def map_filter_simps nth_opt_def upt_rec)
qed

end
