(* ===== verification/Issue.thy ===== *)
theory Issue
  imports Admin
begin

unbundle bit_operations_syntax

text \<open>
  The functions of \<open>lib/libunvmed-cmds.c\<close> that prepare a command, issue it and wait for it, and the
  Identify commands that \<open>lib/libunvmed.c\<close> issues for itself, which hold the lock of the admin
  queue while they wait.
\<close>

subsection \<open>Prepare, issue and wait\<close>

type_synonym ('m, 'r, 'z) issuer = "('m, 'r, ('m, 'r, 'z) unvme_scheme) admin_env"

definition issue_prepared ::
  "('m, 'r, 'z) issuer \<Rightarrow> nat \<times> cmd_ref \<Rightarrow> (unvme_cmd \<Rightarrow> 'x outcome \<times> unvme_cmd)
   \<Rightarrow> ('m, 'r, 'z) unvme_scheme \<Rightarrow> (errno + u16, 'm, 'r, 'z) blocking" where
  "issue_prepared a p prep u =
     (case command p u of
        None \<Rightarrow> Some (Fault, u)
      | Some c \<Rightarrow>
          (case prep c of
             (Fault, c1) \<Rightarrow> Some (Fault, set_command p c1 u)
           | (Fail e, c1) \<Rightarrow> Some (Fail e, set_command p c1 u)
           | (Ok _, c1) \<Rightarrow>
               unvmed_cmd_issue_and_wait (adm_fuel a) (adm_fuel a) (adm_world a) (adm_io a) (adm_now a) p
                 (set_command p c1 u)))"

text \<open>The preparations that cannot fail.\<close>

definition prepared :: "(unvme_cmd \<Rightarrow> unvme_cmd) \<Rightarrow> unvme_cmd \<Rightarrow> unit outcome \<times> unvme_cmd" where
  "prepared f c = (Ok (), f c)"

definition unvmed_passthru ::
  "('m, 'r, 'z) issuer \<Rightarrow> 'm map_ops \<Rightarrow> nat \<times> cmd_ref \<Rightarrow> nvme_cmd \<Rightarrow> iovecs \<Rightarrow> int
   \<Rightarrow> ('m, 'r, 'z) unvme_scheme \<Rightarrow> (errno + u16, 'm, 'r, 'z) blocking" where
  "unvmed_passthru a mops p sqe iov nr_iov u =
     issue_prepared a p (unvmed_cmd_prep mops (iommu u) sqe iov nr_iov) u"

definition unvmed_id_ns ::
  "('m, 'r, 'z) issuer \<Rightarrow> 'm map_ops \<Rightarrow> nat \<times> cmd_ref \<Rightarrow> u32 \<Rightarrow> iovecs \<Rightarrow> int
   \<Rightarrow> ('m, 'r, 'z) unvme_scheme \<Rightarrow> (errno + u16, 'm, 'r, 'z) blocking" where
  "unvmed_id_ns a mops p i iov nr_iov u =
     issue_prepared a p (unvmed_cmd_prep_id_ns (adm_defs a) mops (iommu u) i iov nr_iov) u"

definition unvmed_id_ctrl ::
  "('m, 'r, 'z) issuer \<Rightarrow> 'm map_ops \<Rightarrow> nat \<times> cmd_ref \<Rightarrow> iovecs \<Rightarrow> int
   \<Rightarrow> ('m, 'r, 'z) unvme_scheme \<Rightarrow> (errno + u16, 'm, 'r, 'z) blocking" where
  "unvmed_id_ctrl a mops p iov nr_iov u =
     issue_prepared a p (unvmed_cmd_prep_id_ctrl (adm_defs a) mops (iommu u) iov nr_iov) u"

definition unvmed_id_active_nslist ::
  "('m, 'r, 'z) issuer \<Rightarrow> 'm map_ops \<Rightarrow> nat \<times> cmd_ref \<Rightarrow> u32 \<Rightarrow> iovecs \<Rightarrow> int
   \<Rightarrow> ('m, 'r, 'z) unvme_scheme \<Rightarrow> (errno + u16, 'm, 'r, 'z) blocking" where
  "unvmed_id_active_nslist a mops p i iov nr_iov u =
     issue_prepared a p (unvmed_cmd_prep_id_active_nslist (adm_defs a) mops (iommu u) i iov nr_iov) u"

definition unvmed_nvm_id_ns ::
  "('m, 'r, 'z) issuer \<Rightarrow> 'm map_ops \<Rightarrow> nat \<times> cmd_ref \<Rightarrow> u32 \<Rightarrow> iovecs \<Rightarrow> int
   \<Rightarrow> ('m, 'r, 'z) unvme_scheme \<Rightarrow> (errno + u16, 'm, 'r, 'z) blocking" where
  "unvmed_nvm_id_ns a mops p i iov nr_iov u =
     issue_prepared a p (unvmed_cmd_prep_nvm_id_ns (adm_defs a) mops (iommu u) i iov nr_iov) u"

definition unvmed_id_primary_ctrl_caps ::
  "('m, 'r, 'z) issuer \<Rightarrow> 'm map_ops \<Rightarrow> nat \<times> cmd_ref \<Rightarrow> iovecs \<Rightarrow> int \<Rightarrow> u32
   \<Rightarrow> ('m, 'r, 'z) unvme_scheme \<Rightarrow> (errno + u16, 'm, 'r, 'z) blocking" where
  "unvmed_id_primary_ctrl_caps a mops p iov nr_iov cntlid u =
     issue_prepared a p (unvmed_cmd_prep_id_primary_ctrl_caps (adm_defs a) mops (iommu u) iov nr_iov cntlid) u"

definition unvmed_id_secondary_ctrl_list ::
  "('m, 'r, 'z) issuer \<Rightarrow> 'm map_ops \<Rightarrow> nat \<times> cmd_ref \<Rightarrow> iovecs \<Rightarrow> int \<Rightarrow> u32
   \<Rightarrow> ('m, 'r, 'z) unvme_scheme \<Rightarrow> (errno + u16, 'm, 'r, 'z) blocking" where
  "unvmed_id_secondary_ctrl_list a mops p iov nr_iov cntlid u =
     issue_prepared a p (unvmed_cmd_prep_id_secondary_ctrl_list (adm_defs a) mops (iommu u) iov nr_iov cntlid) u"

definition unvmed_set_features ::
  "('m, 'r, 'z) issuer \<Rightarrow> 'm map_ops \<Rightarrow> nat \<times> cmd_ref \<Rightarrow> u32 \<Rightarrow> u8 \<Rightarrow> bool \<Rightarrow> u32 \<Rightarrow> u32 \<Rightarrow> iovecs \<Rightarrow> int
   \<Rightarrow> ('m, 'r, 'z) unvme_scheme \<Rightarrow> (errno + u16, 'm, 'r, 'z) blocking" where
  "unvmed_set_features a mops p i fid save cdw11 cdw12 iov nr_iov u =
     issue_prepared a p (unvmed_cmd_prep_set_features (adm_defs a) mops (iommu u) i fid save cdw11 cdw12 iov nr_iov) u"

text \<open>The caller's size, address and number of descriptors are ignored.\<close>

definition unvmed_set_features_hmb ::
  "('m, 'r, 'z) issuer \<Rightarrow> nat \<times> cmd_ref \<Rightarrow> u32 \<Rightarrow> u64 \<Rightarrow> u32 \<Rightarrow> bool \<Rightarrow> bool
   \<Rightarrow> ('m, 'r, 'z) unvme_scheme \<Rightarrow> (errno + u16, 'm, 'r, 'z) blocking" where
  "unvmed_set_features_hmb a p hsize descs_addr nr_descs mr enable u =
     issue_prepared a p (prepared (unvmed_cmd_prep_set_features_hmb (adm_defs a) (hmb_hsize (hmb u))
        (hmb_descs_iova (hmb u)) (word_of_nat (hmb_nr_descs (hmb u))) mr enable)) u"

definition unvmed_get_features ::
  "('m, 'r, 'z) issuer \<Rightarrow> 'm map_ops \<Rightarrow> nat \<times> cmd_ref \<Rightarrow> u32 \<Rightarrow> u8 \<Rightarrow> u8 \<Rightarrow> u32 \<Rightarrow> u32 \<Rightarrow> iovecs \<Rightarrow> int
   \<Rightarrow> ('m, 'r, 'z) unvme_scheme \<Rightarrow> (errno + u16, 'm, 'r, 'z) blocking" where
  "unvmed_get_features a mops p i fid sel cdw11 cdw14 iov nr_iov u =
     issue_prepared a p (unvmed_cmd_prep_get_features (adm_defs a) mops (iommu u) i fid sel cdw11 cdw14 iov nr_iov) u"

text \<open>Reads and writes, whose preparation also looks at the namespace.\<close>

definition issue_rw ::
  "('m, 'r, 'z) issuer \<Rightarrow> nat \<times> cmd_ref
   \<Rightarrow> (unvme_cmd \<Rightarrow> ('m, 'r, 'z) unvme_scheme \<Rightarrow> unit outcome \<times> unvme_cmd \<times> ('m, 'r, 'z) unvme_scheme)
   \<Rightarrow> ('m, 'r, 'z) unvme_scheme \<Rightarrow> (errno + u16, 'm, 'r, 'z) blocking" where
  "issue_rw a p prep u =
     (case command p u of
        None \<Rightarrow> Some (Fault, u)
      | Some c \<Rightarrow> (case prep c u of (r, c1, u1) \<Rightarrow> issue_prepared a p (\<lambda>_. (r, c1)) u1))"

definition unvmed_read ::
  "('m, 'r, 'z) issuer \<Rightarrow> 'm map_ops \<Rightarrow> nat \<times> cmd_ref \<Rightarrow> rw_args
   \<Rightarrow> ('m, 'r, 'z) unvme_scheme \<Rightarrow> (errno + u16, 'm, 'r, 'z) blocking" where
  "unvmed_read a mops p args u = issue_rw a p (unvmed_cmd_prep_read (adm_defs a) (adm_ops a) mops args) u"

definition unvmed_write ::
  "('m, 'r, 'z) issuer \<Rightarrow> 'm map_ops \<Rightarrow> nat \<times> cmd_ref \<Rightarrow> rw_args
   \<Rightarrow> ('m, 'r, 'z) unvme_scheme \<Rightarrow> (errno + u16, 'm, 'r, 'z) blocking" where
  "unvmed_write a mops p args u = issue_rw a p (unvmed_cmd_prep_write (adm_defs a) (adm_ops a) mops args) u"

definition unvmed_format ::
  "('m, 'r, 'z) issuer \<Rightarrow> nat \<times> cmd_ref \<Rightarrow> u32 \<Rightarrow> u8 \<Rightarrow> u8 \<Rightarrow> u8 \<Rightarrow> u8 \<Rightarrow> u8
   \<Rightarrow> ('m, 'r, 'z) unvme_scheme \<Rightarrow> (errno + u16, 'm, 'r, 'z) blocking" where
  "unvmed_format a p i lbaf ses pil pinf mset u =
     issue_prepared a p (prepared (unvmed_cmd_prep_format (adm_defs a) i lbaf ses pil pinf mset)) u"

definition unvmed_virt_mgmt ::
  "('m, 'r, 'z) issuer \<Rightarrow> nat \<times> cmd_ref \<Rightarrow> u32 \<Rightarrow> u32 \<Rightarrow> u32 \<Rightarrow> u32
   \<Rightarrow> ('m, 'r, 'z) unvme_scheme \<Rightarrow> (errno + u16, 'm, 'r, 'z) blocking" where
  "unvmed_virt_mgmt a p cntlid rt act nr u =
     issue_prepared a p (prepared (unvmed_cmd_prep_virt_mgmt (adm_defs a) cntlid rt act nr)) u"

definition unvmed_create_ns ::
  "('m, 'r, 'z) issuer \<Rightarrow> 'm map_ops \<Rightarrow> nat \<times> cmd_ref \<Rightarrow> ns_mgmt_data \<Rightarrow> u8 \<Rightarrow> iovecs \<Rightarrow> int
   \<Rightarrow> ('m, 'r, 'z) unvme_scheme \<Rightarrow> (errno + u16, 'm, 'r, 'z) blocking" where
  "unvmed_create_ns a mops p args csi iov nr_iov u =
     issue_prepared a p (unvmed_cmd_prep_create_ns (adm_defs a) mops (iommu u) args csi iov nr_iov) u"

definition unvmed_delete_ns ::
  "('m, 'r, 'z) issuer \<Rightarrow> nat \<times> cmd_ref \<Rightarrow> u32
   \<Rightarrow> ('m, 'r, 'z) unvme_scheme \<Rightarrow> (errno + u16, 'm, 'r, 'z) blocking" where
  "unvmed_delete_ns a p i u = issue_prepared a p (prepared (unvmed_cmd_prep_delete_ns (adm_defs a) i)) u"

definition unvmed_attach_ns ::
  "('m, 'r, 'z) issuer \<Rightarrow> 'm map_ops \<Rightarrow> nat \<times> cmd_ref \<Rightarrow> u32 \<Rightarrow> int \<Rightarrow> u16 list \<Rightarrow> iovecs \<Rightarrow> int
   \<Rightarrow> ('m, 'r, 'z) unvme_scheme \<Rightarrow> (errno + u16, 'm, 'r, 'z) blocking" where
  "unvmed_attach_ns a mops p i nr_ctrlids ctrlids iov nr_iov u =
     issue_prepared a p (unvmed_cmd_prep_attach_ns (adm_defs a) mops (iommu u) i nr_ctrlids ctrlids iov nr_iov) u"

definition unvmed_detach_ns ::
  "('m, 'r, 'z) issuer \<Rightarrow> 'm map_ops \<Rightarrow> nat \<times> cmd_ref \<Rightarrow> u32 \<Rightarrow> int \<Rightarrow> u16 list \<Rightarrow> iovecs \<Rightarrow> int
   \<Rightarrow> ('m, 'r, 'z) unvme_scheme \<Rightarrow> (errno + u16, 'm, 'r, 'z) blocking" where
  "unvmed_detach_ns a mops p i nr_ctrlids ctrlids iov nr_iov u =
     issue_prepared a p (unvmed_cmd_prep_detach_ns (adm_defs a) mops (iommu u) i nr_ctrlids ctrlids iov nr_iov) u"

subsection \<open>The library's own Identify commands\<close>

fun alloc_data_cmd ::
  "nat \<Rightarrow> ('m, 'r, 'z) issuer \<Rightarrow> nat \<Rightarrow> u64 \<Rightarrow> ('m, 'r, 'z) unvme_scheme \<Rightarrow> (cmd_ref, 'm, 'r, 'z) blocking" where
  "alloc_data_cmd 0 a buf len u = None"
| "alloc_data_cmd (Suc fuel) a buf len u =
     (case on_sq 0 (unvmed_alloc_cmd (adm_ops a) (io_sq (adm_io a)) None buf len) u of
        (Fail EBUSY, u1) \<Rightarrow> alloc_data_cmd fuel a buf len (adm_world a u1)
      | r \<Rightarrow> Some r)"

text \<open>
  What the three functions share: \<open>sz\<close> is the size of the structure at \<open>buf\<close>, and \<open>issue\<close> the
  function above for the command. A nonzero status is a failure that does not set \<open>errno\<close>.
\<close>

definition identify ::
  "('m, 'r, 'z) issuer \<Rightarrow> nat \<Rightarrow> u64
   \<Rightarrow> (nat \<times> cmd_ref \<Rightarrow> ('m, 'r, 'z) unvme_scheme \<Rightarrow> (errno + u16, 'm, 'r, 'z) blocking)
   \<Rightarrow> ('m, 'r, 'z) unvme_scheme \<Rightarrow> (unit, 'm, 'r, 'z) blocking" where
  "identify a buf sz issue u =
     (if buf = 0 then Some (Fail EINVAL, u)
      else case unvmed_sq_get 0 u of
        None \<Rightarrow> Some (Fail EINVAL, u)
      | Some u1 \<Rightarrow>
          (case unvmed_sq_enter 0 u1 of
             None \<Rightarrow> None
           | Some u2 \<Rightarrow>
               let leave = \<lambda>v. snd (unvmed_sq_put 0 (unvmed_sq_exit 0 v)) in
               if \<not> unvmed_sq_ready (sq_at 0 u2) then Some (Fail EINVAL, leave u2)
               else
                 (case alloc_data_cmd (adm_fuel a) a buf sz u2 of
                    None \<Rightarrow> None
                  | Some (Fault, u3) \<Rightarrow> Some (Fault, u3)
                  | Some (Fail e, u3) \<Rightarrow> Some (Fail e, leave u3)
                  | Some (Ok r, u3) \<Rightarrow>
                      (case command (0, r) u3 of
                         None \<Rightarrow> Some (Fault, u3)
                       | Some c \<Rightarrow>
                           (case issue (0, r) (set_command (0, r) (c\<lparr>c_flags := UNVMED_CMD_F_WAKEUP_ON_CQE\<rparr>) u3) of
                              None \<Rightarrow> None
                            | Some (Fault, u4) \<Rightarrow> Some (Fault, u4)
                            | Some (ret, u4) \<Rightarrow>
                                thenb (Some (cmd_put_at (adm_ops a) (adm_io a) (0, r) u4)) (\<lambda>_ u5.
                                  Some (if ret = Ok (Inr 0) then Ok () else case ret of Fail e \<Rightarrow> Fail e | _ \<Rightarrow> Fail ERRNO_UNSET,
                                        leave u5)))))))"

text \<open>\<open>id_size\<close> is \<open>NVME_IDENTIFY_DATA_SIZE\<close>.\<close>

definition unvmed_id_ns_u2 ::
  "('m, 'r, 'z) issuer \<Rightarrow> 'm map_ops \<Rightarrow> u64 \<Rightarrow> u64 \<Rightarrow> u32 \<Rightarrow> nat \<Rightarrow> ('m, 'r, 'z) unvme_scheme
   \<Rightarrow> (unit, 'm, 'r, 'z) blocking" where
  "unvmed_id_ns_u2 a mops id_size sz i buf u =
     identify a buf sz (\<lambda>p. unvmed_id_ns a mops p i [(buf, id_size)] 1) u"

definition unvmed_nvm_id_ns_u2 ::
  "('m, 'r, 'z) issuer \<Rightarrow> 'm map_ops \<Rightarrow> u64 \<Rightarrow> u64 \<Rightarrow> u32 \<Rightarrow> nat \<Rightarrow> ('m, 'r, 'z) unvme_scheme
   \<Rightarrow> (unit, 'm, 'r, 'z) blocking" where
  "unvmed_nvm_id_ns_u2 a mops id_size sz i buf u =
     identify a buf sz (\<lambda>p. unvmed_nvm_id_ns a mops p i [(buf, id_size)] 1) u"

definition unvmed_id_ctrl_u2 ::
  "('m, 'r, 'z) issuer \<Rightarrow> 'm map_ops \<Rightarrow> u64 \<Rightarrow> u64 \<Rightarrow> nat \<Rightarrow> ('m, 'r, 'z) unvme_scheme
   \<Rightarrow> (unit, 'm, 'r, 'z) blocking" where
  "unvmed_id_ctrl_u2 a mops id_size sz buf u =
     identify a buf sz (\<lambda>p. unvmed_id_ctrl a mops p [(buf, id_size)] 1) u"

end
