(* ===== verification/Issue_Facts.thy ===== *)
theory Issue_Facts
  imports Issue Admin_Facts Timer_Facts
begin

unbundle bit_operations_syntax

text \<open>
  The Identify commands that the library issues for itself: what they hold of the admin queue, and
  that a command timeout cannot be delivered to them.
\<close>

subsection \<open>References and locks\<close>

lemma buf_init_frame:
  assumes "unvmed_buf_init ops buf len u = (res, u')"
  shows "unvme_dma.more u' = unvme_dma.more u"
  using assms
  by (auto simp: unvmed_buf_init_def buf_init_alloc_def unvmed_pgmap_aligned_def unvmed_pgmap_def unvmed_map_vaddr_def unvmed_pgunmap_def Let_def
      split: if_splits outcome.splits prod.splits option.splits sum.splits)

lemma alloc_cmd_frame:
  assumes "unvmed_alloc_cmd ops sops None buf len (usq, u) = (res, usq', u')"
  shows "sq_refcnt usq' = sq_refcnt usq \<and> unvme_dma.more u' = unvme_dma.more u"
proof -
  obtain ra usq1 where a: "unvmed_cmd_alloc_u2 sops None 0 usq = (ra, usq1)" by fastforce
  have cnt: "sq_refcnt usq1 = sq_refcnt usq" using cmd_alloc_refcnt [of sops 0 usq] a by simp
  obtain rb u1 where b: "unvmed_buf_init ops buf (ucast len) u = (rb, u1)" by fastforce
  note more = buf_init_frame [OF b]
  show ?thesis
    using assms cnt more
    by (cases ra; cases rb)
      (auto simp: unvmed_alloc_cmd_def unvmed_cmd_init_u2_def a b cmd_init_meta_def buf_init_none fail_after_def
        split: if_splits option.splits prod.splits outcome.splits dest: cmd_put_frame)
qed

lemma kept_alloc_data_cmd:
  assumes world: "\<And>v. holdings (adm_world a v) = holdings v"
  shows "holdings u = h \<Longrightarrow> kept h (alloc_data_cmd fuel a buf len u)"
proof (induction fuel arbitrary: u)
  case (Suc fuel)
  obtain res v where on: "on_sq 0 (unvmed_alloc_cmd (adm_ops a) (io_sq (adm_io a)) None buf len) u = (res, v)"
    by fastforce
  have "holdings v = h"
    using on_sq_frame [OF on] alloc_cmd_frame [of "adm_ops a" "io_sq (adm_io a)" buf len _ u] Suc.prems by metis
  then show ?case using Suc.IH [of "adm_world a v"] world by (simp add: on split: outcome.splits errno.splits)
qed simp

lemma holdings_cmd_issue: "holdings (snd (unvmed_cmd_issue io now p u)) = holdings u"
proof (cases "command p u")
  case (Some c)
  let ?fl = "c_flags c OR UNVMED_CMD_F_WAKEUP_ON_CQE"
  obtain r v where post: "unvmed_cmd_post io now p ?fl (set_command p (c\<lparr>c_flags := ?fl\<rparr>) u) = (r, v)" by fastforce
  then have "holdings v = holdings u"
    using holdings_cmd_post [of io now p ?fl "set_command p (c\<lparr>c_flags := ?fl\<rparr>) u"] by simp
  with Some post show ?thesis by (cases r) (simp_all add: unvmed_cmd_issue_def Let_def)
qed (simp add: unvmed_cmd_issue_def)

lemma kept_issue_prepared:
  fixes u :: "('m, 'r, 'z) unvme_irq_scheme"
  assumes world: "\<And>v. holdings (adm_world a v) = holdings v" and u: "holdings u = h"
  shows "kept h (issue_prepared a p prep u)"
proof (cases "command p u")
  case (Some c)
  obtain r c1 where prep: "prep c = (r, c1)" by fastforce
  let ?u = "set_command p c1 u"
  have post: "holdings (snd (unvmed_cmd_issue (adm_io a) (adm_now a) p ?u)) = h"
    using u holdings_cmd_issue [of "adm_io a" "adm_now a" p ?u] by simp
  have "kept h (unvmed_cmd_issue_and_wait (adm_fuel a) (adm_fuel a) (adm_world a) (adm_io a) (adm_now a) p ?u)"
    unfolding unvmed_cmd_issue_and_wait_def
  proof (intro kept_thenb)
    show "kept h (Some (unvmed_cmd_issue (adm_io a) (adm_now a) p ?u))" using post by (simp add: kept_pair)
    fix x :: unit and v :: "('m, 'r, 'z) unvme_irq_scheme"
    assume "holdings v = h"
    then have "kept h (unvmed_cmd_wait (adm_fuel a) (adm_fuel a) (adm_world a) (adm_io a) p v)"
      by (intro kept_cmd_wait world)
    then show "kept h (case unvmed_cmd_wait (adm_fuel a) (adm_fuel a) (adm_world a) (adm_io a) p v of
         None \<Rightarrow> None | Some (Fault, u2) \<Rightarrow> Some (Fault, u2)
       | Some (_, u2) \<Rightarrow> (case command p u2 of None \<Rightarrow> Some (Fault, u2)
            | Some c \<Rightarrow> Some (Ok (unvmed_cqe_status (c_cqe c)), u2)))"
      by (auto simp: kept_def split: option.splits prod.splits outcome.splits)
  qed
  with Some prep u show ?thesis by (cases r) (simp_all add: issue_prepared_def)
qed (use u in \<open>simp add: issue_prepared_def\<close>)

lemma identify_ends:
  assumes world: "\<And>v. holdings (adm_world a v) = holdings v"
    and issue: "\<And>p v. kept (holdings v) (issue p v)"
    and u: "holdings u = (S, C, L, R)" and pos: "refs_pos S"
  shows "ends (\<lambda>_ h. h = (S, C, L, R)) (identify a buf sz issue u)"
proof (cases "buf = 0 \<or> unvmed_sq_get 0 u = None \<or> 0 \<in> L")
  case True
  moreover have "unvmed_sq_enter 0 v = None" if "unvmed_sq_get 0 u = Some v" "0 \<in> L" for v
    using that u sq_get_refs [of u 0] pos by (auto simp: holdings_def unvmed_sq_enter_def)
  ultimately show ?thesis using u by (auto simp: identify_def split: option.splits)
next
  case False
  then obtain u1 where get: "unvmed_sq_get 0 u = Some u1" and nz: "buf \<noteq> 0" "0 \<notin> L" by auto
  have u1: "holdings u1 = (inc_ref 0 S, C, L, R)" using sq_get_refs [of u 0] get u pos by (auto simp: holdings_def)
  define u2 where "u2 = u1\<lparr>sq_locked := insert 0 (sq_locked u1)\<rparr>"
  let ?h = "(inc_ref 0 S, C, insert 0 L, R)"
  have enter: "unvmed_sq_enter 0 u1 = Some u2" and u2: "holdings u2 = ?h"
    using u1 nz by (auto simp: unvmed_sq_enter_def u2_def holdings_def sq_refs_def cq_refs_def)
  have leave: "holdings (snd (unvmed_sq_put 0 (unvmed_sq_exit 0 v))) = (S, C, L, R)" if "holdings v = ?h" for v
  proof -
    have "holdings (unvmed_sq_exit 0 v) = (inc_ref 0 S, C, L, R)"
      using that nz by (auto simp: holdings_def unvmed_sq_exit_def sq_refs_def cq_refs_def)
    from sq_put_refs [OF this] show ?thesis by (simp add: dec_inc_ref [OF pos])
  qed
  have put: "ends (\<lambda>_ h. h = (S, C, L, R)) (thenb (Some (cmd_put_at (adm_ops a) (adm_io a) p v))
      (\<lambda>_ w. Some (res, snd (unvmed_sq_put 0 (unvmed_sq_exit 0 w)))))"
    if "holdings v = ?h" "res \<noteq> Fault" for p v and res :: "unit outcome"
  proof -
    obtain n w where w: "cmd_put_at (adm_ops a) (adm_io a) p v = (n, w)" by fastforce
    have "holdings w = ?h" "\<forall>e. n \<noteq> Fail e" using cmd_put_at_frame [OF w] that(1) by auto
    with w leave that(2) show ?thesis by (cases n; cases res) simp_all
  qed
  have alloc: "kept ?h (alloc_data_cmd (adm_fuel a) a buf sz u2)" by (intro kept_alloc_data_cmd world u2)
  have iss: "holdings w = ?h" if "issue p (set_command q c v) = Some (x, w)" "holdings v = ?h" for p q c v x w
    using issue [of "set_command q c v" p] that by simp
  show ?thesis
    using nz alloc leave u2
    by (auto intro!: put dest!: iss simp: identify_def get enter kept_def Let_def split: option.splits prod.splits outcome.splits)
qed

subsection \<open>The lock of the admin queue\<close>

text \<open>The command is issued, and waited for, with the lock of the admin queue held.\<close>

lemma identify_locked:
  assumes world: "\<And>v. holdings (adm_world a v) = holdings v"
    and same: "\<And>p v. 0 \<in> sq_locked v \<Longrightarrow> issue' p v = issue p v"
  shows "identify a buf sz issue' u = identify a buf sz issue u"
proof (cases "unvmed_sq_get 0 u")
  case (Some u1)
  show ?thesis
  proof (cases "unvmed_sq_enter 0 u1")
    case (Some u2)
    have "0 \<in> sq_locked u2" using Some by (auto simp: unvmed_sq_enter_def split: if_splits)
    moreover have "kept (holdings u2) (alloc_data_cmd (adm_fuel a) a buf sz u2)" by (intro kept_alloc_data_cmd world refl)
    ultimately have lock: "0 \<in> sq_locked v" if "alloc_data_cmd (adm_fuel a) a buf sz u2 = Some (r, v)" for r v
      using that by (auto simp: kept_def holdings_def)
    have set: "sq_locked (set_command p c v) = sq_locked v" for p c and v :: "('a, 'b, 'c) unvme_irq_scheme"
      using holdings_set_command [of p c v] by (simp add: holdings_def)
    show ?thesis
    proof (cases "alloc_data_cmd (adm_fuel a) a buf sz u2")
      case (Some x)
      then obtain r v where x: "alloc_data_cmd (adm_fuel a) a buf sz u2 = Some (r, v)" by (cases x) simp
      have "issue' p (set_command q c v) = issue p (set_command q c v)" for p q c
        using lock [OF x] by (intro same) (simp add: set)
      then show ?thesis using \<open>unvmed_sq_get 0 u = Some u1\<close> \<open>unvmed_sq_enter 0 u1 = Some u2\<close> x
        by (simp add: identify_def cong: option.case_cong outcome.case_cong)
    qed (use \<open>unvmed_sq_get 0 u = Some u1\<close> \<open>unvmed_sq_enter 0 u1 = Some u2\<close> in \<open>simp add: identify_def\<close>)
  qed (use Some in \<open>simp add: identify_def\<close>)
qed (simp add: identify_def)

text \<open>The timer handler then waits for the lock as soon as a command is late.\<close>

lemma timer_handler_blocked:
  assumes "walkable qid usq u" and "timer_active (sq_timer usq)" and "qid \<in> sq_locked u"
    and "c0 \<in> set (walked usq)" and "cmd_late now c0"
  shows "unvmed_timer_handler ops io now qid u = None"
proof -
  have "sq_at qid u = Some usq" using assms(1) by (auto simp: walkable_def)
  with find_late [OF assms(1,4,5), of ops io] assms(2,3) show ?thesis
    by (auto simp: unvmed_timer_handler_def unvmed_sq_enter_def)
qed

text \<open>The Identify commands that the library issues for itself drop the reference and release the lock
  of the admin queue on every path on which they return. While they wait for the command they hold
  that lock: what issues the command is only ever called with it held. In such a state the handler
  of the queue's timer does not return once a command is past its deadline, so the timeout that
  would end the wait is never delivered.
\<close>

theorem identify_holds_lock:
  assumes "\<And>v. holdings (adm_world a v) = holdings v"
    and "holdings u = (S, C, L, R)" and "refs_pos S"
    and "\<And>p v. 0 \<in> sq_locked v \<Longrightarrow> issue' p v = unvmed_id_ctrl a mops p [(buf, id_size)] 1 v"
    and "walkable 0 usq v" and "timer_active (sq_timer usq)" and "0 \<in> sq_locked v"
    and "c0 \<in> set (walked usq)" and "cmd_late now c0"
  shows "ends (\<lambda>_ h. h = (S, C, L, R)) (unvmed_id_ctrl_u2 a mops id_size sz buf u)
    \<and> ends (\<lambda>_ h. h = (S, C, L, R)) (unvmed_id_ns_u2 a mops id_size sz i buf u)
    \<and> ends (\<lambda>_ h. h = (S, C, L, R)) (unvmed_nvm_id_ns_u2 a mops id_size sz i buf u)
    \<and> unvmed_id_ctrl_u2 a mops id_size sz buf u = identify a buf sz issue' u
    \<and> unvmed_timer_handler ops io now 0 v = None"
proof -
  note prep = kept_issue_prepared [OF assms(1) refl]
  have "ends (\<lambda>_ h. h = (S, C, L, R)) (unvmed_id_ctrl_u2 a mops id_size sz buf u)"
    "ends (\<lambda>_ h. h = (S, C, L, R)) (unvmed_id_ns_u2 a mops id_size sz i buf u)"
    "ends (\<lambda>_ h. h = (S, C, L, R)) (unvmed_nvm_id_ns_u2 a mops id_size sz i buf u)"
    unfolding unvmed_id_ctrl_u2_def unvmed_id_ns_u2_def unvmed_nvm_id_ns_u2_def
      unvmed_id_ctrl_def unvmed_id_ns_def unvmed_nvm_id_ns_def
    by (intro identify_ends [OF assms(1) prep assms(2,3)])+
  moreover have "unvmed_id_ctrl_u2 a mops id_size sz buf u = identify a buf sz issue' u"
    unfolding unvmed_id_ctrl_u2_def using identify_locked [OF assms(1) assms(4)] by (rule sym)
  moreover have "unvmed_timer_handler ops io now 0 v = None" by (rule timer_handler_blocked [OF assms(5-9)])
  ultimately show ?thesis by blast
qed

definition locked_ctrl :: "(nat set, nat list) unvme_irq" where
  "locked_ctrl = sample_ctrl\<lparr>sqs := [Some (timer_usq \<lparr>tv_sec = 5, tv_nsec = 500\<rparr>), None, None], sq_locked := {0}\<rparr>"

theorem identify_holds_lock_witness:
  "\<forall>mops. ends (\<lambda>_ h. h = holdings sample_ctrl) (unvmed_id_ctrl_u2 sample_adm mops 4096 4096 4096 sample_ctrl)
    \<and> unvmed_timer_handler sample_ops busy_io \<lparr>tv_sec = 10, tv_nsec = 0\<rparr> 0 locked_ctrl = None"
proof
  fix mops :: "nat set map_ops"
  let ?d = "\<lparr>tv_sec = 5, tv_nsec = 500\<rparr>" and ?now = "\<lparr>tv_sec = 10, tv_nsec = 0\<rparr>"
  have walk: "walkable 0 (timer_usq ?d) locked_ctrl" "0 \<in> sq_locked locked_ctrl"
    using timer_walkable [of ?d] by (simp_all add: walkable_def locked_ctrl_def sq_at_nth)
  have active: "timer_active (sq_timer (timer_usq ?d))" by (simp add: timer_usq_def)
  have late: "busy_cmd\<lparr>c_timeout := ?d\<rparr> \<in> set (walked (timer_usq ?d))" "cmd_late ?now (busy_cmd\<lparr>c_timeout := ?d\<rparr>)"
    by (simp_all add: timer_cmds cmd_late_def cmd_waits_def busy_cmd_def unvmed_timer_after_def)
  from identify_holds_lock [OF sample_world sample_holdings sample_pos refl walk(1) active walk(2) late]
  show "ends (\<lambda>_ h. h = holdings sample_ctrl) (unvmed_id_ctrl_u2 sample_adm mops 4096 4096 4096 sample_ctrl)
    \<and> unvmed_timer_handler sample_ops busy_io ?now 0 locked_ctrl = None"
    unfolding sample_holdings by blast
qed

end
