(* ===== verification/Bdf.thy ===== *)
theory Bdf
  imports Prelude
begin

unbundle bit_operations_syntax

text \<open>
  The addresses by which controllers are named: \<open>unvmed_parse_bdf()\<close> and \<open>__unvmed_bdf_to_int()\<close> of
  \<open>lib/libunvmed.c\<close>, with the conversions of \<open>sscanf()\<close> and \<open>sprintf()\<close> that they use, and the
  file names of the fio engine.
\<close>

subsection \<open>Scanning and printing numbers\<close>

text \<open>
  A directive of \<open>sscanf()\<close>: a value and the rest of the input, no match, or a number that does not
  fit into its object, whose value C leaves undefined.
\<close>

datatype 'a scanned = Matched 'a string | Mismatch | Undefined

fun scan_bind :: "'a scanned \<Rightarrow> ('a \<Rightarrow> string \<Rightarrow> 'b scanned) \<Rightarrow> 'b scanned" where
  "scan_bind (Matched x s) f = f x s"
| "scan_bind Mismatch f = Mismatch"
| "scan_bind Undefined f = Undefined"

definition is_space :: "char \<Rightarrow> bool" where
  "is_space c \<longleftrightarrow> c \<in> {CHR '' '', CHR 0x09, CHR 0x0A, CHR 0x0B, CHR 0x0C, CHR 0x0D}"

definition hex_digits :: string where
  "hex_digits = ''0123456789abcdef''"

definition hex_val :: "char \<Rightarrow> nat option" where
  "hex_val c =
     (let n = of_char c in
      if 48 \<le> n \<and> n \<le> 57 then Some (n - 48)
      else if 97 \<le> n \<and> n \<le> 102 then Some (n - 87)
      else if 65 \<le> n \<and> n \<le> 70 then Some (n - 55)
      else None)"

definition dec_val :: "char \<Rightarrow> nat option" where
  "dec_val c = (let n = of_char c in if 48 \<le> n \<and> n \<le> 57 then Some (n - 48) else None)"

definition digits_value :: "(char \<Rightarrow> nat option) \<Rightarrow> int \<Rightarrow> string \<Rightarrow> int" where
  "digits_value val base ds = fold (\<lambda>c n. n * base + int (the (val c))) ds 0"

fun scan_sign :: "string \<Rightarrow> bool \<times> string" where
  "scan_sign (c # s) = (if c = CHR ''-'' then (True, s) else if c = CHR ''+'' then (False, s) else (False, c # s))"
| "scan_sign [] = (False, [])"

fun hex_prefix :: "string \<Rightarrow> string" where
  "hex_prefix (c # x # s) = (if c = CHR ''0'' \<and> (x = CHR ''x'' \<or> x = CHR ''X'') then s else c # x # s)"
| "hex_prefix s = s"

definition scan_number :: "(char \<Rightarrow> nat option) \<Rightarrow> int \<Rightarrow> (bool \<Rightarrow> int \<Rightarrow> bool) \<Rightarrow> bool \<times> string \<Rightarrow> u32 scanned" where
  "scan_number val base fits = (\<lambda>(neg, s).
     let ds = takeWhile (\<lambda>c. val c \<noteq> None) s; n = digits_value val base ds in
     if ds = [] then Mismatch
     else if \<not> fits neg n then Undefined
     else Matched (if neg then - word_of_int n else word_of_int n) (dropWhile (\<lambda>c. val c \<noteq> None) s))"

text \<open>The conversions \<open>%x\<close> and \<open>%d\<close> into an \<open>unsigned int\<close>.\<close>

definition scan_x :: "string \<Rightarrow> u32 scanned" where
  "scan_x s = (case scan_sign (dropWhile is_space s) of
     (neg, t) \<Rightarrow> scan_number hex_val 16 (\<lambda>_ n. n < 2 ^ 32) (neg, hex_prefix t))"

definition scan_d :: "string \<Rightarrow> u32 scanned" where
  "scan_d s = scan_number dec_val 10 (\<lambda>neg n. if neg then n \<le> 2 ^ 31 else n < 2 ^ 31) (scan_sign (dropWhile is_space s))"

text \<open>An ordinary character of the format.\<close>

fun scan_lit :: "char \<Rightarrow> string \<Rightarrow> unit scanned" where
  "scan_lit c [] = Mismatch"
| "scan_lit c (x # s) = (if x = c then Matched () s else Mismatch)"

text \<open>A number between ordinary characters: the directive and what follows it.\<close>

definition then_lit :: "(string \<Rightarrow> u32 scanned) \<Rightarrow> char \<Rightarrow> string \<Rightarrow> u32 scanned" where
  "then_lit scan c s = scan_bind (scan s) (\<lambda>x t. scan_bind (scan_lit c t) (\<lambda>_ r. Matched x r))"

text \<open>The conversions \<open>%0<w>x\<close> and \<open>%1d\<close>.\<close>

fun digits_of :: "nat \<Rightarrow> nat \<Rightarrow> string" where
  "digits_of base n =
     (if n < base \<or> base < 2 then [hex_digits ! n] else digits_of base (n div base) @ [hex_digits ! (n mod base)])"

declare digits_of.simps [simp del]

definition print_x :: "nat \<Rightarrow> u32 \<Rightarrow> string" where
  "print_x w n = (let s = digits_of 16 (unat n) in replicate (w - length s) (CHR ''0'') @ s)"

definition print_d :: "u32 \<Rightarrow> string" where
  "print_d n = (if sint n < 0 then CHR ''-'' # digits_of 10 (nat (- sint n)) else digits_of 10 (nat (sint n)))"

subsection \<open>Addresses\<close>

definition bdf_str :: "u32 \<Rightarrow> u32 \<Rightarrow> u32 \<Rightarrow> u32 \<Rightarrow> string" where
  "bdf_str domain bus dev func = print_x 4 domain @ CHR '':'' # print_x 2 bus @ CHR '':'' # print_x 2 dev @ CHR ''.'' # print_d func"

text \<open>
  \<open>unvmed_parse_bdf()\<close>. The formats differ in the fields they have; a format that does not match
  returns -1 without setting \<open>errno\<close>.
\<close>

definition parsed :: "(u32 \<times> u32 \<times> u32 \<times> u32) scanned \<Rightarrow> string outcome" where
  "parsed r = (case r of
     Matched (domain, bus, dev, func) _ \<Rightarrow> Ok (bdf_str domain bus dev func)
   | Mismatch \<Rightarrow> Fail ERRNO_UNSET
   | Undefined \<Rightarrow> Fault)"

definition unvmed_parse_bdf :: "string \<Rightarrow> string outcome" where
  "unvmed_parse_bdf input =
     (let colon = then_lit scan_x (CHR '':''); dot = then_lit scan_x (CHR ''.'') in
      case (count_list input (CHR ''.''), count_list input (CHR '':'')) of
        (0, Suc 0) \<Rightarrow> parsed (scan_bind (colon input) (\<lambda>bus s. scan_bind (scan_x s) (\<lambda>dev t. Matched (0, bus, dev, 0) t)))
      | (0, Suc (Suc 0)) \<Rightarrow>
          parsed (scan_bind (colon input) (\<lambda>domain s. scan_bind (colon s) (\<lambda>bus t. scan_bind (scan_x t) (\<lambda>dev r.
            Matched (domain, bus, dev, 0) r))))
      | (Suc 0, 0) \<Rightarrow> parsed (scan_bind (dot input) (\<lambda>dev s. scan_bind (scan_d s) (\<lambda>func t. Matched (0, 0, dev, func) t)))
      | (Suc 0, Suc 0) \<Rightarrow>
          parsed (scan_bind (colon input) (\<lambda>bus s. scan_bind (dot s) (\<lambda>dev t. scan_bind (scan_d t) (\<lambda>func r.
            Matched (0, bus, dev, func) r))))
      | (Suc 0, Suc (Suc 0)) \<Rightarrow>
          parsed (scan_bind (colon input) (\<lambda>domain s. scan_bind (colon s) (\<lambda>bus t. scan_bind (dot t) (\<lambda>dev r.
            scan_bind (scan_d r) (\<lambda>func q. Matched (domain, bus, dev, func) q)))))
      | _ \<Rightarrow> Fail EINVAL)"

text \<open>\<open>__unvmed_bdf_to_int()\<close>: here the function number is hexadecimal.\<close>

definition bdf_code :: "u32 \<Rightarrow> u32 \<Rightarrow> u32 \<Rightarrow> u32 \<Rightarrow> u32" where
  "bdf_code domain bus dev func = push_bit 16 domain OR push_bit 8 bus OR push_bit 3 dev OR func"

definition unvmed_bdf_to_int_u2 :: "string \<Rightarrow> u32 outcome" where
  "unvmed_bdf_to_int_u2 bdf =
     (let colon = then_lit scan_x (CHR '':''); dot = then_lit scan_x (CHR ''.'') in
      case scan_bind (colon bdf) (\<lambda>domain s. scan_bind (colon s) (\<lambda>bus t. scan_bind (dot t) (\<lambda>dev r.
             scan_bind (scan_x r) (\<lambda>func q. Matched (bdf_code domain bus dev func) q)))) of
        Matched c _ \<Rightarrow> Ok c
      | Mismatch \<Rightarrow> Fail EINVAL
      | Undefined \<Rightarrow> Fault)"

text \<open>
  \<open>libunvmed_to_bdf()\<close> of the fio engine, whose file names have dots for colons: all but the last
  dot become colons, in place. The result of the parser is ignored.
\<close>

fun dots_to_colons :: "nat \<Rightarrow> string \<Rightarrow> string" where
  "dots_to_colons nr_dots [] = []"
| "dots_to_colons nr_dots (c # s) =
     (if nr_dots \<le> 1 then c # s
      else if c = CHR ''.'' then CHR '':'' # dots_to_colons (nr_dots - 1) s
      else c # dots_to_colons nr_dots s)"

definition libunvmed_to_bdf :: "string \<Rightarrow> string \<times> string outcome" where
  "libunvmed_to_bdf file_name =
     (let name = dots_to_colons (count_list file_name (CHR ''.'')) file_name in (name, unvmed_parse_bdf name))"

end
