(* ===== verification/Bdf_Facts.thy ===== *)
theory Bdf_Facts
  imports Bdf
begin

text \<open>
  Addresses of devices: printing and scanning numbers are inverse, so that a canonical address is
  what the parser returns for it, and its parts are those of its code.
\<close>

unbundle bit_operations_syntax

subsection \<open>Printing and scanning numbers\<close>

lemma digit_value:
  "n < 16 \<Longrightarrow> hex_val (hex_digits ! n) = Some n" "n < 10 \<Longrightarrow> dec_val (hex_digits ! n) = Some n"
proof -
  have "\<forall>n\<in>set [0..<16]. hex_val (hex_digits ! n) = Some n" "\<forall>n\<in>set [0..<10]. dec_val (hex_digits ! n) = Some n"
    by code_simp+
  then show "n < 16 \<Longrightarrow> hex_val (hex_digits ! n) = Some n" "n < 10 \<Longrightarrow> dec_val (hex_digits ! n) = Some n" by simp_all
qed

lemma digits_of_props:
  assumes "2 \<le> base" and "\<And>i. i < base \<Longrightarrow> val (hex_digits ! i) = Some i"
  shows "digits_of base n \<noteq> [] \<and> (\<forall>c\<in>set (digits_of base n). val c \<noteq> None)
    \<and> digits_value val (int base) (digits_of base n) = int n"
  using assms(1)
proof (induction n rule: less_induct)
  case (less n)
  show ?case
  proof (cases "n < base")
    case True
    with assms show ?thesis by (simp add: digits_of.simps [of base n] digits_value_def)
  next
    case False
    have "n div base < n" using False assms(1) by simp
    from less.IH [OF this assms(1)] have IH: "digits_of base (n div base) \<noteq> []"
      "\<forall>c\<in>set (digits_of base (n div base)). val c \<noteq> None"
      "digits_value val (int base) (digits_of base (n div base)) = int (n div base)" by simp_all
    have "val (hex_digits ! (n mod base)) = Some (n mod base)" using assms by simp
    moreover have "int (n div base) * int base + int (n mod base) = int n"
      by (metis div_mult_mod_eq of_nat_add of_nat_mult)
    ultimately show ?thesis
      using IH False assms(1) by (simp add: digits_of.simps [of base n] digits_value_def)
  qed
qed

lemmas hex_of = digits_of_props [of 16 hex_val, OF _ digit_value(1), simplified]
lemmas dec_of = digits_of_props [of 10 dec_val, OF _ digit_value(2), simplified]

text \<open>What may follow a number: nothing, or a character that neither continues it nor makes it a prefix.\<close>

definition stops :: "(char \<Rightarrow> nat option) \<Rightarrow> string \<Rightarrow> bool" where
  "stops val r \<longleftrightarrow> (case r of [] \<Rightarrow> True | c # _ \<Rightarrow> val c = None \<and> c \<noteq> CHR ''x'' \<and> c \<noteq> CHR ''X'')"

lemma digit_char:
  assumes "hex_val c \<noteq> None \<or> dec_val c \<noteq> None"
  shows "\<not> is_space c" "c \<noteq> CHR ''-''" "c \<noteq> CHR ''+''" "c \<noteq> CHR ''x''" "c \<noteq> CHR ''X''" "c \<noteq> CHR ''.''" "c \<noteq> CHR '':''"
  using assms by (auto simp: is_space_def hex_val_def dec_val_def Let_def)

lemma takeWhile_stops: "\<forall>c\<in>set ds. val c \<noteq> None \<Longrightarrow> stops val r \<Longrightarrow>
   takeWhile (\<lambda>c. val c \<noteq> None) (ds @ r) = ds \<and> dropWhile (\<lambda>c. val c \<noteq> None) (ds @ r) = r"
  by (cases r) (auto simp: stops_def takeWhile_tail dropWhile_append3)

lemma scan_number_digits:
  assumes "ds \<noteq> []" and "\<forall>c\<in>set ds. val c \<noteq> None" and "stops val r" and "fits neg (digits_value val base ds)"
  shows "scan_number val base fits (neg, ds @ r) =
    Matched (if neg then - word_of_int (digits_value val base ds) else word_of_int (digits_value val base ds)) r"
  using assms takeWhile_stops [OF assms(2,3)] by (simp add: scan_number_def)

lemma scan_start:
  assumes "ds \<noteq> []" and "\<forall>c\<in>set ds. hex_val c \<noteq> None \<or> dec_val c \<noteq> None"
  shows "scan_sign (dropWhile is_space (ds @ r)) = (False, ds @ r)"
  using assms digit_char by (cases ds) auto

lemma no_prefix:
  assumes "ds \<noteq> []" and "\<forall>c\<in>set ds. hex_val c \<noteq> None" and "stops hex_val r"
  shows "hex_prefix (ds @ r) = ds @ r"
proof (cases ds)
  case (Cons c cs)
  then show ?thesis
    using assms digit_char by (cases cs; cases r) (auto simp: stops_def)
qed (use assms in simp)

lemma scan_x_digits:
  assumes "ds \<noteq> []" and "\<forall>c\<in>set ds. hex_val c \<noteq> None" and "stops hex_val r" and "digits_value hex_val 16 ds < 2 ^ 32"
  shows "scan_x (ds @ r) = Matched (word_of_int (digits_value hex_val 16 ds)) r"
  using assms scan_start [of ds r] no_prefix [of ds r] scan_number_digits [of ds hex_val r "\<lambda>_ n. n < 2 ^ 32" False 16]
  by (simp add: scan_x_def)

lemma digits_value_zeros [simp]: "digits_value hex_val 16 (replicate k (CHR ''0'') @ ds) = digits_value hex_val 16 ds"
proof (induction k)
  case (Suc k)
  have "hex_val (CHR ''0'') = Some 0" by (simp add: hex_val_def)
  with Suc show ?case by (simp add: digits_value_def)
qed simp

lemma print_x_digits:
  "print_x w n \<noteq> []" "\<forall>c\<in>set (print_x w n). hex_val c \<noteq> None" "digits_value hex_val 16 (print_x w n) = int (unat n)"
proof -
  have "hex_val (CHR ''0'') = Some 0" by (simp add: hex_val_def)
  with hex_of [of "unat n"] show "print_x w n \<noteq> []" "\<forall>c\<in>set (print_x w n). hex_val c \<noteq> None"
    "digits_value hex_val 16 (print_x w n) = int (unat n)"
    by (auto simp: print_x_def Let_def)
qed

lemma scan_print_x: "stops hex_val r \<Longrightarrow> scan_x (print_x w n @ r) = Matched n r"
  using scan_x_digits [OF print_x_digits(1,2), of r w n] unsigned_less [of n, where 'a = int]
  by (simp add: print_x_digits(3))

lemma then_lit_print_x:
  assumes "c = CHR '':'' \<or> c = CHR ''.''"
  shows "then_lit scan_x c (print_x w n @ c # r) = Matched n r"
proof -
  have "stops hex_val (c # r)" using assms by (auto simp: stops_def hex_val_def)
  then show ?thesis by (simp add: then_lit_def scan_print_x)
qed

lemma scan_print_d:
  assumes "0 \<le> sint f"
  shows "scan_d (print_d f) = Matched f []"
proof -
  let ?ds = "digits_of 10 (nat (sint f))"
  have ds: "?ds \<noteq> []" "\<forall>c\<in>set ?ds. dec_val c \<noteq> None" "digits_value dec_val 10 ?ds = sint f"
    using dec_of [of "nat (sint f)"] assms by auto
  have "sint f < 2 ^ 31" using sint_lt [of f] by simp
  then show ?thesis
    using ds assms scan_start [of ?ds "[]"] scan_number_digits [of ?ds dec_val "[]" "\<lambda>neg n. if neg then n \<le> 2 ^ 31 else n < 2 ^ 31" False 10]
    by (simp add: scan_d_def print_d_def stops_def)
qed

lemma sint_small:
  assumes "unat (f :: u32) < 10"
  shows "sint f = int (unat f)"
proof -
  have "int (unat f) < 10" using assms by linarith
  then have "uint f < 10" by simp
  then have "signed_take_bit (LENGTH(32) - Suc 0) (uint f) = uint f" 
    using unsigned_greater_eq [of f, where 'a = int] by (intro signed_take_bit_int_eq_self; simp; linarith)
  then show ?thesis unfolding sint_uint by simp
qed

lemma print_d_digit: "unat f < 10 \<Longrightarrow> print_d f = [hex_digits ! unat f]"
  using sint_small [of f] by (simp add: print_d_def digits_of.simps)

lemma scan_x_digit:
  assumes "unat f < 10"
  shows "scan_x (print_d f) = Matched f []"
proof -
  have v: "hex_val (hex_digits ! unat f) = Some (unat f)" using digit_value(1) assms by simp
  then show ?thesis
    using scan_x_digits [of "[hex_digits ! unat f]" "[]"] assms unsigned_less [of f, where 'a = int]
    by (simp add: print_d_digit stops_def digits_value_def)
qed

subsection \<open>Addresses\<close>

lemma separators [simp]: "hex_val (CHR ''.'') = None" "hex_val (CHR '':'') = None"
  "dec_val (CHR ''.'') = None" "dec_val (CHR '':'') = None"
  by (simp_all add: hex_val_def dec_val_def)

lemma count_print_x [simp]: "count_list (print_x w n) (CHR ''.'') = 0" "count_list (print_x w n) (CHR '':'') = 0"
  using print_x_digits(2) [of w n] by (force simp: count_list_0_iff)+

lemma count_print_d [simp]: "count_list (print_d n) (CHR ''.'') = 0" "count_list (print_d n) (CHR '':'') = 0"
  using dec_of by (force simp: count_list_0_iff print_d_def)+

lemma parse_print:
  assumes "0 \<le> sint f"
  shows "unvmed_parse_bdf (bdf_str d b v f) = Ok (bdf_str d b v f)"
  using assms by (simp add: unvmed_parse_bdf_def bdf_str_def then_lit_print_x scan_print_d parsed_def)


lemma to_int_print:
  assumes "unat f < 10"
  shows "unvmed_bdf_to_int_u2 (bdf_str d b v f) = Ok (bdf_code d b v f)"
  using assms by (simp add: unvmed_bdf_to_int_u2_def bdf_str_def then_lit_print_x scan_x_digit)

lemma bdf_code_inj:
  assumes "unat d < 2 ^ 16" "unat b < 2 ^ 8" "unat v < 2 ^ 5" "unat f < 2 ^ 3"
  shows "take_bit 16 (drop_bit 16 (bdf_code d b v f)) = d" "take_bit 8 (drop_bit 8 (bdf_code d b v f)) = b"
    "take_bit 5 (drop_bit 3 (bdf_code d b v f)) = v" "take_bit 3 (bdf_code d b v f) = f"
  using small_bit [OF assms(1)] small_bit [OF assms(2)] small_bit [OF assms(3)] small_bit [OF assms(4)]
  by - (rule bit_word_eqI; fastforce simp: bdf_code_def bit_simps)+

lemma digits_of_length: "2 \<le> base \<Longrightarrow> n < base ^ k \<Longrightarrow> 0 < k \<Longrightarrow> length (digits_of base n) \<le> k"
proof (induction k arbitrary: n)
  case (Suc k)
  show ?case
  proof (cases "n < base")
    case True
    then show ?thesis by (simp add: digits_of.simps [of base n])
  next
    case False
    with Suc.prems have "0 < k" by (cases k) auto
    moreover have "n div base < base ^ k" using Suc.prems by (simp add: div_less_iff_less_mult mult.commute)
    ultimately show ?thesis using Suc.IH [of "n div base"] Suc.prems False by (simp add: digits_of.simps [of base n])
  qed
qed simp

lemma print_x_length: "unat n < 16 ^ w \<Longrightarrow> 0 < w \<Longrightarrow> length (print_x w n) = w"
  using digits_of_length [of 16 "unat n" w] by (simp add: print_x_def Let_def)

text \<open>The file name of the fio engine for an address.\<close>

lemma dots_done [simp]: "n \<le> 1 \<Longrightarrow> dots_to_colons n s = s"
  by (cases s) simp_all

lemma dots_fields: "count_list x (CHR ''.'') = 0 \<Longrightarrow> dots_to_colons n (x @ s) = x @ dots_to_colons n s"
  by (cases "n \<le> 1", simp, induction x) (auto split: if_splits)

text \<open>C15. Addresses in the range of PCI, with four-digit domains, survive every conversion. The address that
  is printed for a domain, bus, device and function has twelve characters and is parsed to itself. Each of the four
  shorter forms, \<open>bus:dev.func\<close>, \<open>bus:dev\<close>, \<open>dev.func\<close> and \<open>domain:bus:dev\<close>, is completed with zeros for
  what it leaves out; so \<open>bus:dev\<close> has its first number as the bus, where the example in
  \<open>lib/libunvmed.h\<close> takes it as the domain. The name that the fio engine uses, with dots for
  colons, gives the same address. The number by which controllers are looked up is read back
  from it and differs for different controllers.
\<close>

theorem bdf_canonical:
  assumes "unat d < 2 ^ 16" "unat b < 2 ^ 8" "unat v < 2 ^ 5" "unat f < 2 ^ 3"
  shows "length (bdf_str d b v f) = 12
    \<and> unvmed_parse_bdf (bdf_str d b v f) = Ok (bdf_str d b v f)
    \<and> unvmed_parse_bdf (print_x w b @ '':'' @ print_x w v @ ''.'' @ print_d f) = Ok (bdf_str 0 b v f)
    \<and> unvmed_parse_bdf (print_x w b @ '':'' @ print_x w v) = Ok (bdf_str 0 b v 0)
    \<and> unvmed_parse_bdf (print_x w v @ ''.'' @ print_d f) = Ok (bdf_str 0 0 v f)
    \<and> unvmed_parse_bdf (print_x w d @ '':'' @ print_x w b @ '':'' @ print_x w v) = Ok (bdf_str d b v 0)
    \<and> libunvmed_to_bdf (print_x 4 d @ ''.'' @ print_x 2 b @ ''.'' @ print_x 2 v @ ''.'' @ print_d f)
        = (bdf_str d b v f, Ok (bdf_str d b v f))
    \<and> unvmed_bdf_to_int_u2 (bdf_str d b v f) = Ok (bdf_code d b v f)
    \<and> (\<forall>d' b' v' f'. unat d' < 2 ^ 16 \<and> unat b' < 2 ^ 8 \<and> unat v' < 2 ^ 5 \<and> unat f' < 2 ^ 3
         \<and> bdf_code d' b' v' f' = bdf_code d b v f \<longrightarrow> (d', b', v', f') = (d, b, v, f))"
proof -
  have f: "unat f < 10" using assms(4) by simp
  have pos: "0 \<le> sint f" using sint_small [OF f] by simp
  have zero: "scan_x (print_x w v) = Matched v []" using scan_print_x [of "[]" w v] by (simp add: stops_def)
  have len: "length (bdf_str d b v f) = 12"
    using assms by (simp add: bdf_str_def print_x_length print_d_digit [OF f])
  have short: "unvmed_parse_bdf (print_x w b @ '':'' @ print_x w v @ ''.'' @ print_d f) = Ok (bdf_str 0 b v f)"
    "unvmed_parse_bdf (print_x w b @ '':'' @ print_x w v) = Ok (bdf_str 0 b v 0)"
    "unvmed_parse_bdf (print_x w v @ ''.'' @ print_d f) = Ok (bdf_str 0 0 v f)"
    "unvmed_parse_bdf (print_x w d @ '':'' @ print_x w b @ '':'' @ print_x w v) = Ok (bdf_str d b v 0)"
    by (simp_all add: unvmed_parse_bdf_def then_lit_print_x scan_print_d [OF pos] parsed_def zero)
  have name: "dots_to_colons (Suc (Suc (Suc 0))) (print_x 4 d @ ''.'' @ print_x 2 b @ ''.'' @ print_x 2 v @ ''.'' @ print_d f) = bdf_str d b v f"
    by (simp add: dots_fields bdf_str_def)
  have inj: "(d', b', v', f') = (d, b, v, f)"
    if "unat d' < 2 ^ 16" "unat b' < 2 ^ 8" "unat v' < 2 ^ 5" "unat f' < 2 ^ 3" "bdf_code d' b' v' f' = bdf_code d b v f"
    for d' b' v' f'
    using bdf_code_inj [OF assms] bdf_code_inj [OF that(1-4)] that(5) by simp
  have "\<forall>d' b' v' f'. unat d' < 2 ^ 16 \<and> unat b' < 2 ^ 8 \<and> unat v' < 2 ^ 5 \<and> unat f' < 2 ^ 3
      \<and> bdf_code d' b' v' f' = bdf_code d b v f \<longrightarrow> (d', b', v', f') = (d, b, v, f)"
    using inj by blast
  then show ?thesis
    using len short parse_print [OF pos] to_int_print [OF f] name by (simp add: libunvmed_to_bdf_def Let_def)
qed

theorem bdf_canonical_witness:
  "unvmed_parse_bdf ''0000:01:0f.2'' = Ok ''0000:01:0f.2'' \<and> unvmed_bdf_to_int_u2 ''0000:01:0f.2'' = Ok 0x17A"
proof -
  have "bdf_str 0 1 15 2 = ''0000:01:0f.2''" by code_simp
  then show ?thesis using bdf_canonical [of 0 1 15 2 0] by (simp add: bdf_code_def)
qed

text \<open>
  The input of the example in \<open>lib/libunvmed.h\<close>, which is said to give \<open>0000:01:00.0\<close>.
\<close>

lemma bdf_header_example: "unvmed_parse_bdf ''0:1'' = Ok ''0000:00:01.0''"
  by code_simp

text \<open>
  Function numbers above nine are read as decimal by the parser and as hexadecimal by the lookup:
  the address of function 10 of device 1 is looked up as that of function 0 of device 3.
\<close>

theorem bdf_function_base:
  "unvmed_parse_bdf ''0:0:1.10'' = Ok ''0000:00:01.10''
     \<and> unvmed_bdf_to_int_u2 ''0000:00:01.10'' = unvmed_bdf_to_int_u2 ''0000:00:03.0''"
  by code_simp

end
