(* ===== verification/Registry.thy ===== *)
theory Registry
  imports Lifecycle Bdf
begin

unbundle bit_operations_syntax

text \<open>
  The controllers of the process, \<open>lib/libunvmed.c\<close>: looking one up by its address, its references,
  creating it, re-initialising a virtual function in place after its physical function was
  reset, and the threads that want to be told of that.
\<close>

subsection \<open>State\<close>

text \<open>
  The fields of \<open>struct unvme\<close> that belong to the instance. \<open>nr_sqs\<close> and \<open>nr_cqs\<close> are the bounds
  that the source uses for the arrays of queues; the arrays are allocated when the instance is
  created.
\<close>

record ('m, 'r) unvme_inst = "('m, 'r) unvme_ctrl" +
  u_refcnt :: int
  epoch :: u32
  nr_sqs :: int
  nr_cqs :: int

text \<open>The list of controllers, usable once \<open>unvmed_init()\<close> has run. A controller is named by its position.\<close>

record 's registry =
  list_ready :: bool
  unvme_list :: "'s list"

type_synonym ('m, 'r, 'z) controllers = "('m, 'r, 'z) unvme_inst_scheme registry"

fun index_of :: "('a \<Rightarrow> bool) \<Rightarrow> 'a list \<Rightarrow> nat option" where
  "index_of P [] = None"
| "index_of P (x # xs) = (if P x then Some 0 else map_option Suc (index_of P xs))"

definition set_unvme :: "nat \<Rightarrow> 's \<Rightarrow> 's registry \<Rightarrow> 's registry" where
  "set_unvme i u g = g\<lparr>unvme_list := (unvme_list g)[i := u]\<rparr>"

subsection \<open>References\<close>

definition unvmed_get ::
  "string \<Rightarrow> ('m, 'r, 'z) controllers \<Rightarrow> nat option outcome \<times> ('m, 'r, 'z) controllers" where
  "unvmed_get name g =
     (case unvmed_bdf_to_int_u2 name of
        Fault \<Rightarrow> (Fault, g)
      | Fail _ \<Rightarrow> (Ok None, g)
      | Ok c \<Rightarrow>
          if \<not> list_ready g then (Ok None, g)
          else case index_of (\<lambda>u. u_bdf u = c) (unvme_list g) of
            None \<Rightarrow> (Ok None, g)
          | Some i \<Rightarrow>
              let u = unvme_list g ! i in (Ok (Some i), set_unvme i (u\<lparr>u_refcnt := u_refcnt u + 1\<rparr>) g))"

text \<open>The last put frees the controller and takes it off the list.\<close>

definition unvmed_put ::
  "'m dma_ops \<Rightarrow> (nat \<Rightarrow> errno option) \<Rightarrow> nat \<Rightarrow> ('m, 'r, 'z) controllers
   \<Rightarrow> int outcome \<times> ('m, 'r, 'z) controllers" where
  "unvmed_put ops errs i g =
     (case nth_opt (unvme_list g) i of
        None \<Rightarrow> (Fault, g)
      | Some u \<Rightarrow>
          let refcnt = u_refcnt u - 1; u1 = u\<lparr>u_refcnt := refcnt\<rparr> in
          if refcnt \<noteq> 0 then (Ok refcnt, set_unvme i u1 g)
          else case unvmed_free_ctrl ops errs u1 of
            (Fault, u2) \<Rightarrow> (Fault, set_unvme i u2 g)
          | _ \<Rightarrow> (Ok refcnt, g\<lparr>unvme_list := delete_at i (unvme_list g)\<rparr>))"

fun free_ctrls ::
  "'m dma_ops \<Rightarrow> (nat \<Rightarrow> errno option) \<Rightarrow> ('m, 'r, 'z) unvme_inst_scheme list \<Rightarrow> unit outcome" where
  "free_ctrls ops errs [] = Ok ()"
| "free_ctrls ops errs (u # us) =
     (case unvmed_free_ctrl ops errs u of (Fault, _) \<Rightarrow> Fault | _ \<Rightarrow> free_ctrls ops errs us)"

definition unvmed_free_ctrl_all ::
  "'m dma_ops \<Rightarrow> (nat \<Rightarrow> errno option) \<Rightarrow> ('m, 'r, 'z) controllers \<Rightarrow> unit outcome \<times> ('m, 'r, 'z) controllers" where
  "unvmed_free_ctrl_all ops errs g = (free_ctrls ops errs (unvme_list g), g\<lparr>unvme_list := []\<rparr>)"

subsection \<open>Threads\<close>

text \<open>An entry is the thread and its callback with its argument; the entry itself is always allocated.\<close>

definition unvmed_add_thread ::
  "int \<Rightarrow> nat \<Rightarrow> ('m, 'r, 'z) unvme_ctrl_scheme \<Rightarrow> ('m, 'r, 'z) unvme_ctrl_scheme" where
  "unvmed_add_thread tid op u = u\<lparr>thread_list := thread_list u @ [(tid, op)]\<rparr>"

definition unvmed_del_thread ::
  "int \<Rightarrow> ('m, 'r, 'z) unvme_ctrl_scheme \<Rightarrow> ('m, 'r, 'z) unvme_ctrl_scheme" where
  "unvmed_del_thread tid u = u\<lparr>thread_list := remove_first (\<lambda>e. fst e = tid) (thread_list u)\<rparr>"

text \<open>
  The loop over the entries: those of dead threads are dropped, the callbacks of the others are
  called, and a callback that fails ends it. \<open>cb\<close> gives the callback of an entry, if it has one:
  whether it fails, and what it does to the controller. A callback must not change the list,
  whose lock is held. The result is whether all succeeded and the entries that are left.
\<close>

fun invoke_callbacks ::
  "(int \<Rightarrow> bool) \<Rightarrow> (nat \<Rightarrow> ('s \<Rightarrow> bool \<times> 's) option) \<Rightarrow> (int \<times> nat) list \<Rightarrow> 's
   \<Rightarrow> bool \<times> (int \<times> nat) list \<times> 's" where
  "invoke_callbacks alive cb [] u = (True, [], u)"
| "invoke_callbacks alive cb ((tid, op) # es) u =
     (if \<not> alive tid then invoke_callbacks alive cb es u
      else case cb op of
        None \<Rightarrow> (case invoke_callbacks alive cb es u of (ok, es', u1) \<Rightarrow> (ok, (tid, op) # es', u1))
      | Some f \<Rightarrow>
          (case f u of
             (True, u1) \<Rightarrow> (False, (tid, op) # es, u1)
           | (False, u1) \<Rightarrow>
               (case invoke_callbacks alive cb es u1 of (ok, es', u2) \<Rightarrow> (ok, (tid, op) # es', u2))))"

definition unvmed_reinit_invoke_callbacks_u2 ::
  "(int \<Rightarrow> bool) \<Rightarrow> (nat \<Rightarrow> (('m, 'r, 'z) unvme_ctrl_scheme \<Rightarrow> bool \<times> ('m, 'r, 'z) unvme_ctrl_scheme) option)
   \<Rightarrow> ('m, 'r, 'z) unvme_ctrl_scheme \<Rightarrow> bool \<times> ('m, 'r, 'z) unvme_ctrl_scheme" where
  "unvmed_reinit_invoke_callbacks_u2 alive cb u =
     (case invoke_callbacks alive cb (thread_list u) u of (ok, es, u1) \<Rightarrow> (ok, u1\<lparr>thread_list := es\<rparr>))"

subsection \<open>Creating and re-initialising\<close>

text \<open>
  What creating a controller needs of the system: whether a device is a virtual function, libvfn's
  \<open>nvme_ctrl_init()\<close> for a device and a number of queues, which opens the device and sets its name,
  the interrupts of the device, memory, and what the callbacks and a final put need. \<open>inst_blank\<close>
  is the zeroed instance.
\<close>

record ('m, 'r, 's) inst_env =
  inst_is_vf :: "string \<Rightarrow> bool"
  inst_init :: "string \<Rightarrow> u32 \<Rightarrow> 's \<Rightarrow> errno + 's"
  inst_irq_info :: "errno + int"
  inst_irq_refused :: "int \<Rightarrow> bool"
  inst_irq_mem :: bool
  inst_alive :: "int \<Rightarrow> bool"
  inst_cb :: "nat \<Rightarrow> ('s \<Rightarrow> bool \<times> 's) option"
  inst_ops :: "'m dma_ops"
  inst_errs :: "nat \<Rightarrow> errno option"
  inst_blank :: 's

type_synonym ('m, 'r, 'z) instances = "('m, 'r, ('m, 'r, 'z) unvme_inst_scheme) inst_env"

text \<open>The number of queues that libvfn is asked for, without the admin queue and zero-based.\<close>

definition queue_bound :: "u32 \<Rightarrow> int" where
  "queue_bound max_nr_ioqs = sint (max_nr_ioqs - 1) + 2"

text \<open>The reference that \<open>unvmed_get()\<close> took is dropped.\<close>

definition put_null ::
  "('m, 'r, 'z) instances \<Rightarrow> nat \<Rightarrow> ('m, 'r, 'z) controllers \<Rightarrow> nat option outcome \<times> ('m, 'r, 'z) controllers" where
  "put_null e i g = (case unvmed_put (inst_ops e) (inst_errs e) i g of (Fault, g1) \<Rightarrow> (Fault, g1) | (_, g1) \<Rightarrow> (Ok None, g1))"

text \<open>
  \<open>__unvmed_reinit_ctrl()\<close> on the controller at \<open>i\<close>. The arrays of queues are kept as they are.
\<close>

definition unvmed_reinit_ctrl_u2 ::
  "('m, 'r, 'z) instances \<Rightarrow> nat \<Rightarrow> string \<Rightarrow> u32 \<Rightarrow> ('m, 'r, 'z) controllers
   \<Rightarrow> (nat option outcome \<times> ('m, 'r, 'z) controllers) option" where
  "unvmed_reinit_ctrl_u2 e i name max_nr_ioqs g =
     (if \<not> inst_is_vf e name then Some (put_null e i g)
      else case inst_init e name max_nr_ioqs (unvme_list g ! i) of
        Inl _ \<Rightarrow> Some (put_null e i g)
      | Inr u1 \<Rightarrow>
          let u2 = u1\<lparr>epoch := epoch u1 + 1, nr_sqs := queue_bound max_nr_ioqs, nr_cqs := queue_bound max_nr_ioqs\<rparr> in
          (case unvmed_alloc_irqs (inst_irq_info e) (inst_irq_refused e) (inst_irq_mem e) u2 of
             None \<Rightarrow> None
           | Some (Fault, u3) \<Rightarrow> Some (Fault, set_unvme i u3 g)
           | Some (Fail _, u3) \<Rightarrow> Some (put_null e i (set_unvme i (close_ctrl u3) g))
           | Some (Ok _, u3) \<Rightarrow>
               (case unvmed_reinit_invoke_callbacks_u2 (inst_alive e) (inst_cb e) (snd (set_state UNVME_VF_RECOVERING u3)) of
                  (False, u4) \<Rightarrow>
                    Some (put_null e i (set_unvme i
                      (snd (set_state UNVME_TEARDOWN (close_ctrl (unvmed_free_irqs (inst_errs e) u4)))) g))
                | (True, u4) \<Rightarrow> Some (Ok (Some i), set_unvme i (snd (set_state UNVME_VF_RECOVERED u4)) g))))"

text \<open>
  A fresh instance, in the order of the source. The asserts that libvfn keeps the options it is
  given are part of what \<open>inst_init\<close> promises; the arrays of queues are allocated.
\<close>

definition fresh_ctrl ::
  "('m, 'r, 'z) instances \<Rightarrow> string \<Rightarrow> u32 \<Rightarrow> ('m, 'r, 'z) controllers
   \<Rightarrow> (nat option outcome \<times> ('m, 'r, 'z) controllers) option" where
  "fresh_ctrl e name max_nr_ioqs g =
     (case inst_init e name max_nr_ioqs ((inst_blank e)\<lparr>u_state := UNVME_DISABLED\<rparr>) of
        Inl _ \<Rightarrow> Some (Ok None, g)
      | Inr u1 \<Rightarrow>
          (case unvmed_alloc_irqs (inst_irq_info e) (inst_irq_refused e) (inst_irq_mem e) (u1\<lparr>epoch := epoch u1 + 1\<rparr>) of
             None \<Rightarrow> None
           | Some (Fault, u2) \<Rightarrow> Some (Fault, g)
           | Some (Fail _, u2) \<Rightarrow> Some (Ok None, g)
           | Some (Ok _, u2) \<Rightarrow>
               let u3 = u2\<lparr>nr_sqs := queue_bound max_nr_ioqs, nr_cqs := queue_bound max_nr_ioqs,
                           sqs := replicate (unat (max_nr_ioqs + 1)) None, cqs := replicate (unat (max_nr_ioqs + 1)) None,
                           ns_list := [], ctx_list := [], mem_list := [], thread_list := []\<rparr> in
               (case bdf u3 of
                  None \<Rightarrow> Some (Fault, g)
                | Some s \<Rightarrow>
                    (case unvmed_bdf_to_int_u2 s of
                       Fault \<Rightarrow> Some (Fault, g)
                     | Fail _ \<Rightarrow>
                         (case unvmed_free_ctrl (inst_ops e) (inst_errs e) u3 of
                            (Fault, _) \<Rightarrow> Some (Fault, g) | _ \<Rightarrow> Some (Ok None, g))
                     | Ok c \<Rightarrow>
                         Some (Ok (Some 0), g\<lparr>unvme_list := u3\<lparr>u_bdf := c, u_refcnt := 1\<rparr> # unvme_list g\<rparr>)))))"

definition unvmed_init_ctrl ::
  "('m, 'r, 'z) instances \<Rightarrow> string \<Rightarrow> u32 \<Rightarrow> ('m, 'r, 'z) controllers
   \<Rightarrow> (nat option outcome \<times> ('m, 'r, 'z) controllers) option" where
  "unvmed_init_ctrl e name max_nr_ioqs g =
     (case unvmed_get name g of
        (Ok (Some i), g1) \<Rightarrow>
          if u_state (unvme_list g1 ! i) = UNVME_TEARDOWN then unvmed_reinit_ctrl_u2 e i name max_nr_ioqs g1
          else Some (Ok (Some i), g1)
      | (Ok None, g1) \<Rightarrow> fresh_ctrl e name max_nr_ioqs g1
      | (r, g1) \<Rightarrow> Some (r, g1))"

end
