(* ===== verification/Registry_Facts.thy ===== *)
theory Registry_Facts
  imports Registry Bdf_Facts Lifecycle_Facts
begin

text \<open>
  What creating, looking up and re-initialising controllers does.
\<close>

lemma index_of_head: "P x \<Longrightarrow> index_of P (x # xs) = Some 0" by simp

lemma index_of_none: "\<forall>x\<in>set xs. \<not> P x \<Longrightarrow> index_of P xs = None"
  by (induction xs) simp_all

text \<open>What allocating the interrupts leaves alone.\<close>

lemma alloc_irqs_frame:
  assumes "unvmed_alloc_irqs info refused mem u = Some (r, v)"
  shows "bdf v = bdf u" "u_state v = u_state u" "sqs v = sqs u" "cqs v = cqs u" "thread_list v = thread_list u"
    "u_bdf v = u_bdf u" "epoch v = epoch u" "nr_sqs v = nr_sqs u" "nr_cqs v = nr_cqs u" "u_refcnt v = u_refcnt u"
  using assms by (auto simp: unvmed_alloc_irqs_def Let_def split: sum.splits option.splits if_splits)

text \<open>C16. Creating a controller that is not known yet puts one instance at the head of the list: disabled,
  with one reference, and with empty tables for the admin queue and as many I/O queues as were
  asked for. Looking its name up afterwards finds this instance and takes a second reference,
  initialising it again returns it with a further reference, and putting that brings it back.
\<close>

theorem init_then_get:
  assumes "list_ready g" and "unvmed_bdf_to_int_u2 name = Ok c" and "\<forall>u\<in>set (unvme_list g). u_bdf u \<noteq> c"
    and "inst_init e name n ((inst_blank e)\<lparr>u_state := UNVME_DISABLED\<rparr>) = Inr u1"
    and "bdf u1 = Some name" and "u_state u1 = UNVME_DISABLED"
    and "unvmed_alloc_irqs (inst_irq_info e) (inst_irq_refused e) (inst_irq_mem e) (u1\<lparr>epoch := epoch u1 + 1\<rparr>)
      = Some (Ok (), u2)"
  shows "\<exists>g1 u. unvmed_init_ctrl e name n g = Some (Ok (Some 0), g1) \<and> unvme_list g1 = u # unvme_list g
    \<and> u_refcnt u = 1 \<and> u_state u = UNVME_DISABLED \<and> u_bdf u = c
    \<and> sqs u = replicate (unat (n + 1)) None \<and> cqs u = replicate (unat (n + 1)) None
    \<and> unvmed_get name g1 = (Ok (Some 0), g1\<lparr>unvme_list := u\<lparr>u_refcnt := 2\<rparr> # unvme_list g\<rparr>)
    \<and> unvmed_init_ctrl e name n' g1 = Some (unvmed_get name g1)
    \<and> unvmed_put ops errs 0 (snd (unvmed_get name g1)) = (Ok 1, g1)"
proof -
  define u where "u = u2\<lparr>nr_sqs := queue_bound n, nr_cqs := queue_bound n,
      sqs := replicate (unat (n + 1)) None, cqs := replicate (unat (n + 1)) None,
      ns_list := [], ctx_list := [], mem_list := [], thread_list := [], u_bdf := c, u_refcnt := 1\<rparr>"
  let ?g = "g\<lparr>unvme_list := u # unvme_list g\<rparr>"
  have b: "bdf u2 = Some name" "u_state u2 = UNVME_DISABLED" using alloc_irqs_frame [OF assms(7)] assms(5,6) by simp_all
  have "index_of (\<lambda>u. u_bdf u = c) (unvme_list g) = None" using assms(3) by (rule index_of_none)
  then have init: "unvmed_init_ctrl e name n g = Some (Ok (Some 0), ?g)"
    using assms(1,2,4,7) b by (simp add: unvmed_init_ctrl_def unvmed_get_def fresh_ctrl_def u_def)
  have u: "u_refcnt u = 1" "u_state u = UNVME_DISABLED" "u_bdf u = c"
    "sqs u = replicate (unat (n + 1)) None" "cqs u = replicate (unat (n + 1)) None"
    using b by (simp_all add: u_def)
  have get: "unvmed_get name ?g = (Ok (Some 0), ?g\<lparr>unvme_list := u\<lparr>u_refcnt := 2\<rparr> # unvme_list g\<rparr>)"
    using assms(1,2) u by (simp add: unvmed_get_def set_unvme_def)
  have "unvmed_init_ctrl e name n' ?g = Some (unvmed_get name ?g)"
    using u(2) unfolding unvmed_init_ctrl_def get by simp
  moreover have "unvmed_put ops errs 0 (snd (unvmed_get name ?g)) = (Ok 1, ?g)"
    using u(1) unfolding get by (simp add: unvmed_put_def nth_opt_def set_unvme_def Let_def)
  ultimately show ?thesis using init u get by (intro exI [of _ ?g] exI [of _ u]) simp
qed

subsection \<open>Re-initialising\<close>

lemma callbacks_keep:
  assumes "\<forall>op f v. cb op = Some f \<longrightarrow> P (snd (f v)) = P v" and "invoke_callbacks alive cb es u = (ok, es', u')"
  shows "P u' = P u"
  using assms(2)
proof (induction es arbitrary: u es' ok)
  case (Cons x es)
  obtain tid op where x: "x = (tid, op)" by (cases x)
  have call: "P (snd (f v)) = P v" if "cb op = Some f" for f v using assms(1) that by blast
  show ?case
    using Cons.prems Cons.IH call unfolding x
    by (auto split: if_splits option.splits prod.splits bool.splits) (metis snd_conv)+
qed simp

text \<open>What belongs to libunvmed alone: neither libvfn nor a callback changes it.\<close>

definition own_side where
  "own_side u = (sqs u, cqs u, u_state u, u_refcnt u, epoch u, nr_sqs u, nr_cqs u)"

lemma own_side_updates [simp]:
  "own_side (u\<lparr>thread_list := t\<rparr>) = own_side u" "own_side (close_ctrl u) = own_side u"
  by (simp_all add: own_side_def close_ctrl_def)

lemma own_side_free_irqs [simp]: "own_side (unvmed_free_irqs errs u) = own_side u"
proof -
  have vec: "own_side (free_vector errs v w) = own_side w" for v w
    by (auto simp: own_side_def free_vector_def drop_refs_def unvmed_free_irq_def unvmed_free_irq_reaper_def
        unvmed_reaper_join_def reaper_store_def Let_def split: option.splits prod.splits if_splits)
  have "own_side (fold (free_vector errs) vs w) = own_side w" for vs w by (induction vs arbitrary: w) (simp_all add: vec)
  then show ?thesis by (simp add: unvmed_free_irqs_def unvmed_free_irq_all_def own_side_def)
qed

lemma invoke_callbacks_own:
  assumes "\<forall>op f v. cb op = Some f \<longrightarrow> own_side (snd (f v)) = own_side v"
    and "unvmed_reinit_invoke_callbacks_u2 alive cb u = (ok, v)"
  shows "own_side v = own_side u"
proof -
  obtain es w where call: "invoke_callbacks alive cb (thread_list u) u = (ok, es, w)" and v: "v = w\<lparr>thread_list := es\<rparr>"
    using assms(2) by (auto simp: unvmed_reinit_invoke_callbacks_u2_def split: prod.splits)
  from callbacks_keep [of cb own_side, OF assms(1) call] show ?thesis by (simp add: v)
qed

text \<open>Re-initialising a virtual function that was torn down either succeeds or, when a callback fails,
  rolls back. On success the controller is \<open>VF_RECOVERED\<close> in a new epoch with the reference the
  caller took; otherwise it is in \<open>TEARDOWN\<close> again, closed, and that reference is dropped. In both
  cases the bound that all loops over queues use becomes the number of queues asked for now, while
  the arrays of queues keep the size they were created with: asking for more queues than at first
  leaves the bound beyond the end of the arrays.
\<close>

theorem reinit_bound_drift:
  assumes "i < length (unvme_list g)" and "u = unvme_list g ! i" and "u_state u = UNVME_TEARDOWN" and "inst_is_vf e name"
    and "inst_init e name n u = Inr u1" and "own_side u1 = own_side u"
    and "unvmed_alloc_irqs (inst_irq_info e) (inst_irq_refused e) (inst_irq_mem e)
      (u1\<lparr>epoch := epoch u1 + 1, nr_sqs := queue_bound n, nr_cqs := queue_bound n\<rparr>) = Some (Ok (), u3)"
    and "\<forall>op f v. inst_cb e op = Some f \<longrightarrow> own_side (snd (f v)) = own_side v"
  shows "\<exists>g' u'. unvme_list g' = (unvme_list g)[i := u'] \<and> sqs u' = sqs u \<and> cqs u' = cqs u
    \<and> u_refcnt u' = u_refcnt u \<and> epoch u' = epoch u + 1 \<and> nr_sqs u' = queue_bound n \<and> nr_cqs u' = queue_bound n
    \<and> (int (length (sqs u)) < queue_bound n \<longrightarrow> int (length (sqs u')) < nr_sqs u')
    \<and> (unvmed_reinit_ctrl_u2 e i name n g = Some (Ok (Some i), g') \<and> u_state u' = UNVME_VF_RECOVERED
       \<or> unvmed_reinit_ctrl_u2 e i name n g = Some (put_null e i g') \<and> u_state u' = UNVME_TEARDOWN \<and> \<not> ctrl_open u')"
proof -
  let ?v = "u3\<lparr>u_state := UNVME_VF_RECOVERING\<rparr>"
  have u3: "sqs u3 = sqs u" "cqs u3 = cqs u" "u_state u3 = UNVME_TEARDOWN" "u_refcnt u3 = u_refcnt u" "epoch u3 = epoch u + 1"
    "nr_sqs u3 = queue_bound n" "nr_cqs u3 = queue_bound n"
    using alloc_irqs_frame [OF assms(7)] assms(3,6) by (simp_all add: own_side_def)
  then have rec: "set_state UNVME_VF_RECOVERING u3 = (True, ?v)" by (simp add: set_state_eq)
  obtain ok w where call: "unvmed_reinit_invoke_callbacks_u2 (inst_alive e) (inst_cb e) ?v = (ok, w)" by fastforce
  from invoke_callbacks_own [OF assms(8) this] have "own_side w = own_side ?v" .
  then have w: "sqs w = sqs u" "cqs w = cqs u" "u_state w = UNVME_VF_RECOVERING" "u_refcnt w = u_refcnt u"
    "epoch w = epoch u + 1" "nr_sqs w = queue_bound n" "nr_cqs w = queue_bound n"
    using u3 by (simp_all add: own_side_def)
  let ?x = "close_ctrl (unvmed_free_irqs (inst_errs e) w)"
  have x: "own_side ?x = own_side w" "\<not> ctrl_open ?x" by simp_all (simp add: close_ctrl_def)
  define u' where "u' = (if ok then w\<lparr>u_state := UNVME_VF_RECOVERED\<rparr> else ?x\<lparr>u_state := UNVME_TEARDOWN\<rparr>)"
  have "set_state UNVME_VF_RECOVERED w = (True, w\<lparr>u_state := UNVME_VF_RECOVERED\<rparr>)"
    "set_state UNVME_TEARDOWN ?x = (True, ?x\<lparr>u_state := UNVME_TEARDOWN\<rparr>)"
    using w(3) x(1) by (simp_all add: set_state_eq own_side_def)
  then have "unvmed_reinit_ctrl_u2 e i name n g =
      Some (if ok then (Ok (Some i), set_unvme i u' g) else put_null e i (set_unvme i u' g))"
    using assms(2,4,5,7) rec call by (simp add: unvmed_reinit_ctrl_u2_def Let_def u'_def)
  moreover have "sqs u' = sqs u" "cqs u' = cqs u" "u_refcnt u' = u_refcnt u" "epoch u' = epoch u + 1"
    "nr_sqs u' = queue_bound n" "nr_cqs u' = queue_bound n"
    using w x(1) by (simp_all add: u'_def own_side_def)
  ultimately show ?thesis
    using x(2) by (intro exI [of _ "set_unvme i u' g"] exI [of _ u']) (simp add: set_unvme_def u'_def)
qed

subsection \<open>A concrete registry\<close>

definition blank_inst :: "(nat set, nat list) unvme_inst" where
  "blank_inst = unvme_ctrl.extend sample_off \<lparr>u_refcnt = 0, epoch = 0, nr_sqs = 0, nr_cqs = 0\<rparr>"

definition sample_inst :: "(nat set, nat list, (nat set, nat list) unvme_inst) inst_env" where
  "sample_inst = \<lparr>inst_is_vf = (\<lambda>_. True), inst_init = (\<lambda>name n u. Inr (u\<lparr>bdf := Some name, ctrl_open := True\<rparr>)),
     inst_irq_info = Inr 2, inst_irq_refused = (\<lambda>_. False), inst_irq_mem = True, inst_alive = (\<lambda>_. True),
     inst_cb = (\<lambda>_. None), inst_ops = sample_ops, inst_errs = (\<lambda>_. None), inst_blank = blank_inst\<rparr>"

lemma sample_irqs_ok: "\<exists>v. unvmed_alloc_irqs (inst_irq_info sample_inst) (inst_irq_refused sample_inst)
   (inst_irq_mem sample_inst) u = Some (Ok (), v)"
  by (simp add: sample_inst_def unvmed_alloc_irqs_def Let_def adjust_stop)

theorem init_then_get_witness:
  "\<exists>g1 u. unvmed_init_ctrl sample_inst ''0000:01:00.0'' 4 \<lparr>list_ready = True, unvme_list = []\<rparr> = Some (Ok (Some 0), g1)
     \<and> unvme_list g1 = [u] \<and> length (sqs u) = 5 \<and> u_bdf u = 0x100"
proof -
  let ?g = "\<lparr>list_ready = True, unvme_list = []\<rparr> :: (nat set, nat list, unit) controllers"
  let ?u = "blank_inst\<lparr>u_state := UNVME_DISABLED, bdf := Some ''0000:01:00.0'', ctrl_open := True\<rparr>"
  have code: "unvmed_bdf_to_int_u2 ''0000:01:00.0'' = Ok 0x100" by code_simp
  have init: "inst_init sample_inst ''0000:01:00.0'' 4 ((inst_blank sample_inst)\<lparr>u_state := UNVME_DISABLED\<rparr>) = Inr ?u"
    by (simp add: sample_inst_def)
  obtain v where irqs: "unvmed_alloc_irqs (inst_irq_info sample_inst) (inst_irq_refused sample_inst)
      (inst_irq_mem sample_inst) (?u\<lparr>epoch := epoch ?u + 1\<rparr>) = Some (Ok (), v)"
    using sample_irqs_ok by blast
  from init_then_get [of ?g, OF _ code _ init _ _ irqs, of 0 sample_ops "\<lambda>_. None"]
  obtain g1 u where "unvmed_init_ctrl sample_inst ''0000:01:00.0'' 4 ?g = Some (Ok (Some 0), g1)" "unvme_list g1 = [u]"
    "u_bdf u = 0x100" "sqs u = replicate 5 None" by auto
  then show ?thesis by (intro exI [of _ g1] exI [of _ u]) simp
qed

theorem reinit_bound_drift_witness:
  "\<exists>g' u'. unvmed_reinit_ctrl_u2 sample_inst 0 ''0000:01:00.1'' 8
         \<lparr>list_ready = True, unvme_list = [blank_inst\<lparr>u_state := UNVME_TEARDOWN, u_refcnt := 2\<rparr>]\<rparr>
       \<in> {Some (Ok (Some 0), g'), Some (put_null sample_inst 0 g')}
     \<and> unvme_list g' = [u'] \<and> length (sqs u') = 3 \<and> nr_sqs u' = 9"
proof -
  let ?u = "blank_inst\<lparr>u_state := UNVME_TEARDOWN, u_refcnt := 2\<rparr>"
  let ?g = "\<lparr>list_ready = True, unvme_list = [?u]\<rparr> :: (nat set, nat list, unit) controllers"
  let ?u1 = "?u\<lparr>bdf := Some ''0000:01:00.1'', ctrl_open := True\<rparr>"
  have init: "inst_is_vf sample_inst ''0000:01:00.1''" "inst_init sample_inst ''0000:01:00.1'' 8 ?u = Inr ?u1"
    "own_side ?u1 = own_side ?u"
    by (simp_all add: sample_inst_def own_side_def)
  obtain v where irqs: "unvmed_alloc_irqs (inst_irq_info sample_inst) (inst_irq_refused sample_inst)
      (inst_irq_mem sample_inst) (?u1\<lparr>epoch := epoch ?u1 + 1, nr_sqs := queue_bound 8, nr_cqs := queue_bound 8\<rparr>) = Some (Ok (), v)"
    using sample_irqs_ok by blast
  have "\<forall>op f v. inst_cb sample_inst op = Some f \<longrightarrow> own_side (snd (f v)) = own_side v" by (simp add: sample_inst_def)
  from reinit_bound_drift [of 0 ?g ?u, OF _ _ _ init irqs this]
  obtain g' u' where "unvme_list g' = [u']" "sqs u' = sqs ?u" "nr_sqs u' = queue_bound 8"
    "unvmed_reinit_ctrl_u2 sample_inst 0 ''0000:01:00.1'' 8 ?g \<in> {Some (Ok (Some 0), g'), Some (put_null sample_inst 0 g')}"
    by auto
  moreover have "queue_bound 8 = 9" by (simp add: queue_bound_def)
  moreover have "length (sqs ?u) = 3" by (simp add: blank_inst_def unvme_ctrl.extend_def)
  ultimately show ?thesis by metis
qed

end
