(* ===== verification/Pci.thy ===== *)
theory Pci
  imports Lifecycle
begin

unbundle bit_operations_syntax

text \<open>
  The resets of a controller through PCI, \<open>lib/libunvmed.c\<close>: the NVM subsystem reset, the function
  level reset, the hot reset and the link disable. Each saves the configuration space, triggers
  the reset in the device or in the port above it, waits for it, restores the configuration space,
  and then cancels what was outstanding.
\<close>

subsection \<open>The system\<close>

text \<open>
  What the kernel and the device do, on a state of their own: opening, reading and writing the
  configuration space of a device in \<open>sysfs\<close> (a read may return fewer bytes than asked for),
  resolving a path, reading and writing the registers of the controller, and memory for paths.
  The delays of the source have no effect here.
\<close>

record 'p pci_ops =
  path_mem :: "'p \<Rightarrow> bool"
  cfg_open :: "string \<Rightarrow> 'p \<Rightarrow> errno option"
  cfg_pread :: "string \<Rightarrow> nat \<Rightarrow> nat \<Rightarrow> 'p \<Rightarrow> (errno + u8 list) \<times> 'p"
  cfg_pwrite :: "string \<Rightarrow> nat \<Rightarrow> u8 list \<Rightarrow> 'p \<Rightarrow> errno option \<times> 'p"
  real_path :: "string \<Rightarrow> 'p \<Rightarrow> string option"
  read_csts :: "'p \<Rightarrow> u32 \<times> 'p"
  write_csts :: "u32 \<Rightarrow> 'p \<Rightarrow> 'p"
  write_nssr :: "u32 \<Rightarrow> 'p \<Rightarrow> 'p"

type_synonym ('a, 'p) pci_run = "('a outcome \<times> 'p) option"

text \<open>Little-endian numbers.\<close>

definition le_nat :: "u8 list \<Rightarrow> nat" where
  "le_nat bs = foldr (\<lambda>b n. unat b + 256 * n) bs 0"

definition le16 :: "u8 list \<Rightarrow> u16" where
  "le16 bs = word_of_nat (le_nat (take 2 bs))"

definition le16_bytes :: "u16 \<Rightarrow> u8 list" where
  "le16_bytes w = [ucast w, ucast (drop_bit 8 w)]"

definition device_path :: "string \<Rightarrow> string" where
  "device_path name = ''/sys/bus/pci/devices/'' @ name"

definition config_path :: "string \<Rightarrow> string" where
  "config_path name = device_path name @ ''/config''"

text \<open>The name of the device of a controller, which \<open>printf()\<close> prints so when it is gone.\<close>

definition ctrl_name :: "('m, 'r, 'z) unvme_ctrl_scheme \<Rightarrow> string" where
  "ctrl_name u = (case bdf u of Some s \<Rightarrow> s | None \<Rightarrow> ''(null)'')"

subsection \<open>Configuration space\<close>

text \<open>
  \<open>unvmed_pci_get_config()\<close>. Its check for a short read compares the \<open>int\<close> result with a \<open>size_t\<close>, so
  that the result -1 of a failed read passes as large: the function succeeds and the buffer is
  not written, \<open>None\<close>.
\<close>

definition unvmed_pci_get_config ::
  "'p pci_ops \<Rightarrow> string \<Rightarrow> nat \<Rightarrow> nat \<Rightarrow> 'p \<Rightarrow> u8 list option outcome \<times> 'p" where
  "unvmed_pci_get_config ops name offset sz p =
     (if \<not> path_mem ops p then (Fail ENOMEM, p)
      else case cfg_open ops (config_path name) p of
        Some e \<Rightarrow> (Fail e, p)
      | None \<Rightarrow>
          (case cfg_pread ops (config_path name) offset sz p of
             (Inl e, p1) \<Rightarrow> (Ok None, p1)
           | (Inr bs, p1) \<Rightarrow> if length bs < sz then (Fail ERRNO_UNSET, p1) else (Ok (Some bs), p1)))"

definition unvmed_pci_backup_state :: "'p pci_ops \<Rightarrow> string \<Rightarrow> 'p \<Rightarrow> u8 list option outcome \<times> 'p" where
  "unvmed_pci_backup_state ops name p = unvmed_pci_get_config ops name 0 0x1000 p"

text \<open>Writing a buffer that was never written, here and below, is a fault.\<close>

definition unvmed_pci_restore_config :: "'p pci_ops \<Rightarrow> string \<Rightarrow> u8 list option \<Rightarrow> 'p \<Rightarrow> unit outcome \<times> 'p" where
  "unvmed_pci_restore_config ops name config p =
     (if \<not> path_mem ops p then (Fail ENOMEM, p)
      else case cfg_open ops (config_path name) p of
        Some e \<Rightarrow> (Fail e, p)
      | None \<Rightarrow>
          (case config of
             None \<Rightarrow> (Fault, p)
           | Some bs \<Rightarrow>
               (case cfg_pwrite ops (config_path name) 0 (take 4096 bs) p of
                  (Some e, p1) \<Rightarrow> (Fail e, p1) | (None, p1) \<Rightarrow> (Ok (), p1))))"

fun wait_not_rdy :: "nat \<Rightarrow> 'p pci_ops \<Rightarrow> nvme_regs \<Rightarrow> 'p \<Rightarrow> (unit, 'p) pci_run" where
  "wait_not_rdy 0 ops g p = None"
| "wait_not_rdy (Suc fuel) ops g p =
     (case read_csts ops p of
        (csts, p1) \<Rightarrow>
          if csts = 0xffffffff then Some (Fail ENODEV, p1)
          else if \<not> csts_rdy g csts then Some (Ok (), p1)
          else wait_not_rdy fuel ops g p1)"

definition unvmed_pci_restore_state ::
  "nat \<Rightarrow> 'p pci_ops \<Rightarrow> nvme_regs \<Rightarrow> string \<Rightarrow> u8 list option \<Rightarrow> 'p \<Rightarrow> (unit, 'p) pci_run" where
  "unvmed_pci_restore_state fuel ops g name config p =
     thenb (Some (unvmed_pci_restore_config ops name config p)) (\<lambda>_ p1. wait_not_rdy fuel ops g p1)"

text \<open>
  \<open>unvmed_get_downstream_port()\<close>: the name of the directory above that of the device, cut at twelve
  characters.
\<close>

definition before_last :: "char \<Rightarrow> string \<Rightarrow> string option" where
  "before_last c s = (if c \<in> set s then Some (rev (tl (dropWhile (\<lambda>x. x \<noteq> c) (rev s)))) else None)"

definition after_last :: "char \<Rightarrow> string \<Rightarrow> string option" where
  "after_last c s = (if c \<in> set s then Some (rev (takeWhile (\<lambda>x. x \<noteq> c) (rev s))) else None)"

definition unvmed_get_downstream_port :: "'p pci_ops \<Rightarrow> string \<Rightarrow> 'p \<Rightarrow> string outcome" where
  "unvmed_get_downstream_port ops name p =
     (if \<not> path_mem ops p then Fail ENOMEM
      else case real_path ops (device_path name) p of
        None \<Rightarrow> Fail ERRNO_UNSET
      | Some rpath \<Rightarrow>
          (case before_last (CHR ''/'') rpath of
             None \<Rightarrow> Fail ERRNO_UNSET
           | Some parent \<Rightarrow>
               (case after_last (CHR ''/'') parent of
                  None \<Rightarrow> Fail ERRNO_UNSET
                | Some dsp \<Rightarrow> Ok (take 12 dsp))))"

text \<open>
  \<open>unvmed_get_pcie_cap_offset()\<close>: the walk over the list of capabilities, which may be cyclic. When
  the configuration space cannot be opened the result is that of the last \<open>asprintf()\<close>, the length
  of the path. A short read leaves its variable indeterminate.
\<close>

fun cap_walk :: "nat \<Rightarrow> 'p pci_ops \<Rightarrow> string \<Rightarrow> u16 \<Rightarrow> 'p \<Rightarrow> (int, 'p) pci_run" where
  "cap_walk 0 ops name offset p = None"
| "cap_walk (Suc fuel) ops name offset p =
     (if offset = 0 \<or> 0x100 \<le> offset then Some (Ok (-1), p)
      else case cfg_pread ops (config_path name) (unat offset) 2 p of
        (Inl _, p1) \<Rightarrow> Some (Ok (-1), p1)
      | (Inr bs, p1) \<Rightarrow>
          if length bs < 2 then Some (Fault, p1)
          else if le16 bs AND 0xff = 0x10 then Some (Ok (int (unat offset)), p1)
          else cap_walk fuel ops name (drop_bit 8 (le16 bs)) p1)"

definition unvmed_get_pcie_cap_offset :: "nat \<Rightarrow> 'p pci_ops \<Rightarrow> string \<Rightarrow> 'p \<Rightarrow> (int, 'p) pci_run" where
  "unvmed_get_pcie_cap_offset fuel ops name p =
     (if \<not> path_mem ops p then Some (Ok (-1), p)
      else case cfg_open ops (config_path name) p of
        Some _ \<Rightarrow> Some (Ok (int (length (config_path name))), p)
      | None \<Rightarrow>
          (case cfg_pread ops (config_path name) 0x34 2 p of
             (Inl _, p1) \<Rightarrow> Some (Ok (-1), p1)
           | (Inr bs, p1) \<Rightarrow> if length bs < 2 then Some (Fault, p1) else cap_walk fuel ops name (le16 bs) p1))"

text \<open>The offset as the callers store it; their comparison of a \<open>uint16_t\<close> with -1 is never true.\<close>

definition stored_offset :: "int \<Rightarrow> nat" where
  "stored_offset ret = unat (word_of_int ret :: u16)"

subsection \<open>Waiting for a reset\<close>

text \<open>Reading a number of the configuration space into a variable and using it.\<close>

definition read_config :: "'p pci_ops \<Rightarrow> string \<Rightarrow> nat \<Rightarrow> nat \<Rightarrow> 'p \<Rightarrow> nat outcome \<times> 'p" where
  "read_config ops name offset sz p =
     (case unvmed_pci_get_config ops name offset sz p of
        (Ok None, p1) \<Rightarrow> (Fault, p1)
      | (Ok (Some bs), p1) \<Rightarrow> (Ok (le_nat (take sz bs)), p1)
      | (Fail e, p1) \<Rightarrow> (Fail e, p1)
      | (Fault, p1) \<Rightarrow> (Fault, p1))"

fun wait_config :: "nat \<Rightarrow> 'p pci_ops \<Rightarrow> string \<Rightarrow> nat \<Rightarrow> nat \<Rightarrow> (nat \<Rightarrow> bool) \<Rightarrow> 'p \<Rightarrow> (unit, 'p) pci_run" where
  "wait_config 0 ops name offset sz ok p = None"
| "wait_config (Suc fuel) ops name offset sz ok p =
     thenb (Some (read_config ops name offset sz p)) (\<lambda>v p1.
       if ok v then Some (Ok (), p1) else wait_config fuel ops name offset sz ok p1)"

definition unvmed_pci_wait_reset :: "nat \<Rightarrow> 'p pci_ops \<Rightarrow> string \<Rightarrow> 'p \<Rightarrow> (unit, 'p) pci_run" where
  "unvmed_pci_wait_reset fuel ops name p =
     thenb (Some (unvmed_get_downstream_port ops name p, p)) (\<lambda>dsp p1.
     thenb (unvmed_get_pcie_cap_offset fuel ops dsp p1) (\<lambda>ret p2.
     thenb (Some (read_config ops dsp (stored_offset ret + 0xc) 4 p2)) (\<lambda>link_cap p3.
     thenb (if bit link_cap 20 then wait_config fuel ops dsp (stored_offset ret + 0x12) 2 (\<lambda>v. bit v 13) p3
            else Some (Ok (), p3)) (\<lambda>_ p4.
       wait_config fuel ops name 0x10 8 (\<lambda>bar0. bar0 div 16 = 0) p4))))"

subsection \<open>The four resets\<close>

type_synonym ('a, 'p, 'm, 'r, 'z) reset_run = "('a outcome \<times> 'p \<times> ('m, 'r, 'z) unvme_ctrl_scheme) option"

definition on_pci :: "('p \<Rightarrow> ('a, 'p) pci_run) \<Rightarrow> 'p \<times> 's \<Rightarrow> ('a outcome \<times> 'p \<times> 's) option" where
  "on_pci f = (\<lambda>(p, u). case f p of None \<Rightarrow> None | Some (r, p1) \<Rightarrow> Some (r, p1, u))"

text \<open>What all of them end with: the wait, the restoration, and \<open>unvmed_reset_ctx()\<close>, which has no result.\<close>

definition finish_reset ::
  "nat \<Rightarrow> 'p pci_ops \<Rightarrow> nvme_regs \<Rightarrow> 'r io_env \<Rightarrow> ('p \<Rightarrow> (unit, 'p) pci_run) \<Rightarrow> u8 list option
   \<Rightarrow> 'p \<times> ('m, 'r, 'z) unvme_ctrl_scheme \<Rightarrow> (unit, 'p, 'm, 'r, 'z) reset_run" where
  "finish_reset fuel ops g io final config s =
     thenb (on_pci (unvmed_pci_wait_reset fuel ops (ctrl_name (snd s))) s) (\<lambda>_ s1.
     thenb (on_pci (unvmed_pci_restore_state fuel ops g (ctrl_name (snd s1)) config) s1) (\<lambda>_ s2.
     thenb (on_pci final s2) (\<lambda>_ (p, u).
       case unvmed_reset_ctx fuel io u of
         None \<Rightarrow> None
       | Some (Fault, u1) \<Rightarrow> Some (Fault, p, u1)
       | Some (_, u1) \<Rightarrow> Some (Ok (), p, u1))))"

definition start_reset ::
  "'p \<times> ('m, 'r, 'z) unvme_ctrl_scheme \<Rightarrow> (unit, 'p, 'm, 'r, 'z) reset_run" where
  "start_reset = (\<lambda>(p, u).
     case set_state UNVME_RESETTING u of (False, u1) \<Rightarrow> Some (Fail EBUSY, p, u1) | (True, u1) \<Rightarrow> Some (Ok (), p, u1))"

text \<open>The wait for \<open>NSSRO\<close>, bit \<open>nssro\<close> of the status register, which is then cleared.\<close>

fun clear_nssro :: "nat \<Rightarrow> 'p pci_ops \<Rightarrow> nat \<Rightarrow> 'p \<Rightarrow> (unit, 'p) pci_run" where
  "clear_nssro 0 ops nssro p = None"
| "clear_nssro (Suc fuel) ops nssro p =
     (case read_csts ops p of
        (csts, p1) \<Rightarrow>
          if csts = 0xffffffff then Some (Fail ENODEV, p1)
          else if bit csts nssro then Some (Ok (), write_csts ops (push_bit nssro 1) p1)
          else clear_nssro fuel ops nssro p1)"

definition unvmed_subsystem_reset ::
  "nat \<Rightarrow> 'p pci_ops \<Rightarrow> nvme_regs \<Rightarrow> nat \<Rightarrow> 'r io_env \<Rightarrow> 'p \<times> ('m, 'r, 'z) unvme_ctrl_scheme
   \<Rightarrow> (unit, 'p, 'm, 'r, 'z) reset_run" where
  "unvmed_subsystem_reset fuel ops g nssro io s =
     thenb (start_reset s) (\<lambda>_ s1.
     thenb (on_pci (\<lambda>p. Some (unvmed_pci_backup_state ops (ctrl_name (snd s1)) p)) s1) (\<lambda>config s2.
     thenb (on_pci (\<lambda>p. Some (Ok (), write_nssr ops 0x4E564D65 p)) s2) (\<lambda>_ s3.
       finish_reset fuel ops g io (clear_nssro fuel ops nssro) config s3)))"

text \<open>Opening a configuration space and writing a 16-bit register of it.\<close>

definition open_config :: "'p pci_ops \<Rightarrow> string \<Rightarrow> 'p \<Rightarrow> (unit, 'p) pci_run" where
  "open_config ops name p =
     (if \<not> path_mem ops p then Some (Fail ENOMEM, p)
      else case cfg_open ops (config_path name) p of Some e \<Rightarrow> Some (Fail e, p) | None \<Rightarrow> Some (Ok (), p))"

definition write_config :: "'p pci_ops \<Rightarrow> string \<Rightarrow> nat \<Rightarrow> u16 \<Rightarrow> 'p \<Rightarrow> (unit, 'p) pci_run" where
  "write_config ops name offset v p =
     (case cfg_pwrite ops (config_path name) offset (le16_bytes v) p of
        (Some e, p1) \<Rightarrow> Some (Fail e, p1) | (None, p1) \<Rightarrow> Some (Ok (), p1))"

definition unvmed_flr ::
  "nat \<Rightarrow> 'p pci_ops \<Rightarrow> nvme_regs \<Rightarrow> 'r io_env \<Rightarrow> 'p \<times> ('m, 'r, 'z) unvme_ctrl_scheme
   \<Rightarrow> (unit, 'p, 'm, 'r, 'z) reset_run" where
  "unvmed_flr fuel ops g io s =
     (let name = ctrl_name (snd s) in
      thenb (on_pci (open_config ops name) s) (\<lambda>_ s1.
      thenb (on_pci (unvmed_get_pcie_cap_offset fuel ops name) s1) (\<lambda>ret s2.
      thenb (on_pci (\<lambda>p. Some (read_config ops name (stored_offset ret + 0x4) 4 p)) s2) (\<lambda>cap s3.
        if \<not> bit cap 28 then Some (Fail ENOTSUP, s3)
        else
          thenb (start_reset s3) (\<lambda>_ s4.
          thenb (on_pci (\<lambda>p. Some (unvmed_pci_backup_state ops name p)) s4) (\<lambda>config s5.
          thenb (on_pci (\<lambda>p. Some (read_config ops name (stored_offset ret + 0x8) 2 p)) s5) (\<lambda>control s6.
          thenb (on_pci (write_config ops name (stored_offset ret + 0x8) (word_of_nat control OR push_bit 15 1)) s6) (\<lambda>_ s7.
            finish_reset fuel ops g io (\<lambda>p. Some (Ok (), p)) config s7))))))))"

text \<open>
  The pulse of a bit of a control register of the port above: set, and cleared again. The register
  is read with \<open>pread()\<close>, and only a failure of that is noticed.
\<close>

definition pread16 :: "'p pci_ops \<Rightarrow> string \<Rightarrow> nat \<Rightarrow> 'p \<Rightarrow> (u16, 'p) pci_run" where
  "pread16 ops name offset p =
     (case cfg_pread ops (config_path name) offset 2 p of
        (Inl e, p1) \<Rightarrow> Some (Fail e, p1)
      | (Inr bs, p1) \<Rightarrow> if length bs < 2 then Some (Fault, p1) else Some (Ok (le16 bs), p1))"

definition pulse_reset ::
  "nat \<Rightarrow> 'p pci_ops \<Rightarrow> nvme_regs \<Rightarrow> 'r io_env \<Rightarrow> string \<Rightarrow> nat \<Rightarrow> nat \<Rightarrow> 'p \<times> ('m, 'r, 'z) unvme_ctrl_scheme
   \<Rightarrow> (unit, 'p, 'm, 'r, 'z) reset_run" where
  "pulse_reset fuel ops g io dsp offset b s =
     thenb (on_pci (pread16 ops dsp offset) s) (\<lambda>control s1.
     thenb (on_pci (\<lambda>p. Some (unvmed_pci_backup_state ops (ctrl_name (snd s1)) p)) s1) (\<lambda>config s2.
     thenb (on_pci (write_config ops dsp offset (control OR push_bit b 1)) s2) (\<lambda>_ s3.
     thenb (on_pci (write_config ops dsp offset ((control OR push_bit b 1) AND NOT (push_bit b 1))) s3) (\<lambda>_ s4.
       finish_reset fuel ops g io (\<lambda>p. Some (Ok (), p)) config s4))))"

definition unvmed_hot_reset ::
  "nat \<Rightarrow> 'p pci_ops \<Rightarrow> nvme_regs \<Rightarrow> 'r io_env \<Rightarrow> 'p \<times> ('m, 'r, 'z) unvme_ctrl_scheme
   \<Rightarrow> (unit, 'p, 'm, 'r, 'z) reset_run" where
  "unvmed_hot_reset fuel ops g io s =
     thenb (on_pci (\<lambda>p. Some (unvmed_get_downstream_port ops (ctrl_name (snd s)) p, p)) s) (\<lambda>dsp s1.
     thenb (on_pci (open_config ops dsp) s1) (\<lambda>_ s2.
     thenb (start_reset s2) (\<lambda>_ s3. pulse_reset fuel ops g io dsp 0x3E 6 s3)))"

definition unvmed_link_disable ::
  "nat \<Rightarrow> 'p pci_ops \<Rightarrow> nvme_regs \<Rightarrow> 'r io_env \<Rightarrow> 'p \<times> ('m, 'r, 'z) unvme_ctrl_scheme
   \<Rightarrow> (unit, 'p, 'm, 'r, 'z) reset_run" where
  "unvmed_link_disable fuel ops g io s =
     thenb (on_pci (\<lambda>p. Some (unvmed_get_downstream_port ops (ctrl_name (snd s)) p, p)) s) (\<lambda>dsp s1.
     thenb (on_pci (open_config ops dsp) s1) (\<lambda>_ s2.
     thenb (start_reset s2) (\<lambda>_ s3.
     thenb (on_pci (unvmed_get_pcie_cap_offset fuel ops dsp) s3) (\<lambda>ret s4.
       pulse_reset fuel ops g io dsp (stored_offset ret + 0x10) 4 s4))))"

end
