(* ===== verification/Pci_Facts.thy ===== *)
theory Pci_Facts
  imports Pci Lifecycle_Facts
begin

unbundle bit_operations_syntax

text \<open>
  The resets through PCI: what a failure leaves, and when the walk over the capabilities ends.
\<close>

subsection \<open>Failures\<close>

text \<open>Where a run may fail: the controllers it may leave then.\<close>

definition fails :: "'u set \<Rightarrow> ('a outcome \<times> 'p \<times> 'u) option \<Rightarrow> bool" where
  "fails F r \<longleftrightarrow> (\<forall>e s. r = Some (Fail e, s) \<longrightarrow> snd s \<in> F)"

text \<open>Runs that do not succeed and leave the controller alone.\<close>

definition refused :: "'u \<Rightarrow> ('a outcome \<times> 'p \<times> 'u) option \<Rightarrow> bool" where
  "refused v r \<longleftrightarrow> (\<forall>x s. r = Some (x, s) \<longrightarrow> (\<forall>y. x \<noteq> Ok y) \<and> snd s = v)"

lemma fails_thenb:
  "fails F r \<Longrightarrow> (\<And>x s. r = Some (Ok x, s) \<Longrightarrow> fails F (f x s)) \<Longrightarrow> fails F (thenb r f)"
  by (auto simp: fails_def thenb_def split: option.splits prod.splits outcome.splits)

lemma refused_thenb:
  "(\<And>x s. r = Some (x, s) \<Longrightarrow> snd s = v) \<Longrightarrow> (\<And>x s. snd s = v \<Longrightarrow> refused v (f x s)) \<Longrightarrow> refused v (thenb r f)"
  unfolding refused_def thenb_def by (cases r) (fastforce split: outcome.splits)+

lemma on_pci_snd: "on_pci f s = Some (x, s1) \<Longrightarrow> snd s1 = snd s"
  by (auto simp: on_pci_def split: prod.splits option.splits)

lemma fails_on_pci: "snd s \<in> F \<Longrightarrow> fails F (on_pci f s)"
  by (auto simp: fails_def dest: on_pci_snd)

lemma fails_pci_step:
  assumes "snd s \<in> F" and "\<And>x s1. snd s1 = snd s \<Longrightarrow> fails F (f x s1)"
  shows "fails F (thenb (on_pci h s) f)"
  using assms by (intro fails_thenb fails_on_pci) (auto dest: on_pci_snd)

lemma fails_if: "fails F a \<Longrightarrow> fails F b \<Longrightarrow> fails F (if c then a else b)"
  by simp

lemma fails_stop: "snd s \<in> F \<Longrightarrow> fails F (Some (r, s))"
  by (auto simp: fails_def)

lemma fails_finish: "snd s \<in> F \<Longrightarrow> fails F (finish_reset fuel ops g io final config s)"
  unfolding finish_reset_def
  by (intro fails_pci_step) (auto simp: fails_def split: option.splits prod.splits outcome.splits)

lemma fails_pulse: "snd s \<in> F \<Longrightarrow> fails F (pulse_reset fuel ops g io dsp offset b s)"
  unfolding pulse_reset_def by (intro fails_pci_step fails_finish) auto

text \<open>The state in which every reset leaves the controller until it is done.\<close>

abbreviation resetting where
  "resetting u \<equiv> u\<lparr>u_state := UNVME_RESETTING\<rparr>"

lemma fails_start_step:
  assumes "{u, resetting u} \<subseteq> F" and "snd s = u" and "\<And>x s1. snd s1 = resetting u \<Longrightarrow> fails F (f x s1)"
  shows "fails F (thenb (start_reset s) f)"
  using assms by (cases s) (auto simp: start_reset_def set_state_eq fails_def)

lemma reset_fails:
  assumes "snd s = u"
  shows "fails {u, resetting u} (unvmed_subsystem_reset fuel ops g nssro io s)"
    "fails {u, resetting u} (unvmed_flr fuel ops g io s)"
    "fails {u, resetting u} (unvmed_hot_reset fuel ops g io s)"
    "fails {u, resetting u} (unvmed_link_disable fuel ops g io s)"
proof -
  have fin: "fails {u, resetting u} (finish_reset fuel ops g io final config s1)" if "snd s1 = resetting u" for final config s1
    using that by (intro fails_finish) simp
  have pulse: "fails {u, resetting u} (pulse_reset fuel ops g io dsp offset b s1)" if "snd s1 = resetting u" for dsp offset b s1
    using that by (intro fails_pulse) simp
  show "fails {u, resetting u} (unvmed_subsystem_reset fuel ops g nssro io s)"
    unfolding unvmed_subsystem_reset_def using assms by (intro fails_start_step fails_pci_step fin) auto
  show "fails {u, resetting u} (unvmed_hot_reset fuel ops g io s)"
    unfolding unvmed_hot_reset_def using assms by (intro fails_pci_step fails_start_step pulse) auto
  show "fails {u, resetting u} (unvmed_link_disable fuel ops g io s)"
    unfolding unvmed_link_disable_def using assms by (intro fails_pci_step fails_start_step pulse) auto
  show "fails {u, resetting u} (unvmed_flr fuel ops g io s)"
    unfolding unvmed_flr_def Let_def using assms
    by (intro fails_pci_step fails_if fails_stop fails_start_step fin) auto
qed

lemma refused_pci_step:
  "snd s = v \<Longrightarrow> (\<And>x s1. snd s1 = v \<Longrightarrow> refused v (f x s1)) \<Longrightarrow> refused v (thenb (on_pci h s) f)"
  by (intro refused_thenb) (auto dest: on_pci_snd)

lemma refused_start_step:
  "u_state v = UNVME_RESETTING \<Longrightarrow> snd s = v \<Longrightarrow> refused v (thenb (start_reset s) f)"
  by (cases s) (auto simp: start_reset_def set_state_eq refused_def)

lemma refused_if: "refused v a \<Longrightarrow> refused v b \<Longrightarrow> refused v (if c then a else b)"
  by simp

lemma refused_stop: "snd s = v \<Longrightarrow> refused v (Some (Fail e, s))"
  by (auto simp: refused_def)

lemma reset_refused:
  assumes "u_state v = UNVME_RESETTING" and "snd s = v"
  shows "refused v (unvmed_subsystem_reset fuel ops g nssro io s)" "refused v (unvmed_flr fuel ops g io s)"
    "refused v (unvmed_hot_reset fuel ops g io s)" "refused v (unvmed_link_disable fuel ops g io s)"
  unfolding unvmed_subsystem_reset_def unvmed_flr_def unvmed_hot_reset_def unvmed_link_disable_def Let_def
  using assms by (intro refused_pci_step refused_if refused_stop refused_start_step; simp)+

text \<open>C39. A reset through PCI that fails leaves the controller exactly as it was, or as it was but in the
  state \<open>RESETTING\<close>. Whenever the controller is in that state afterwards, none of the resets succeeds
  or changes it any more, the plain reset is refused as busy, and so is enabling it.
\<close>

theorem pci_reset_failure_sticks:
  assumes "reset \<in> {unvmed_subsystem_reset fuel ops g nssro io, unvmed_flr fuel ops g io, unvmed_hot_reset fuel ops g io,
      unvmed_link_disable fuel ops g io}"
    and "reset (p, u) = Some (Fail e, p', u')"
    and "retry \<in> {unvmed_subsystem_reset fuel ops g nssro io, unvmed_flr fuel ops g io, unvmed_hot_reset fuel ops g io,
      unvmed_link_disable fuel ops g io}"
  shows "(u' = u \<or> u' = u\<lparr>u_state := UNVME_RESETTING\<rparr>)
    \<and> (u_state u' = UNVME_RESETTING \<longrightarrow>
         (\<forall>q r q' v. retry (q, u') = Some (r, q', v) \<longrightarrow> r \<noteq> Ok () \<and> v = u')
         \<and> unvme_reset_ctrl_u2 g csts u' = Some (Fail EBUSY, u')
         \<and> unvmed_enable_ctrl g world csts iosqes iocqes ps ams css tmo u' = Some (Fail EBUSY, u'))"
proof -
  have "fails {u, resetting u} (reset (p, u))" using assms(1) reset_fails [of "(p, u)" u] by auto
  then have "u' = u \<or> u' = resetting u" using assms(2) by (auto simp: fails_def)
  moreover have "refused u' (retry (q, u'))" if "u_state u' = UNVME_RESETTING" for q
    using assms(3) that reset_refused [of u' "(q, u')"] by auto
  then have "\<forall>q r q' v. retry (q, u') = Some (r, q', v) \<longrightarrow> r \<noteq> Ok () \<and> v = u'" if "u_state u' = UNVME_RESETTING"
    using that by (auto simp: refused_def)
  moreover have "unvme_reset_ctrl_u2 g csts u' = Some (Fail EBUSY, u')" if "u_state u' = UNVME_RESETTING"
    using that by (simp add: unvme_reset_ctrl_u2_def set_state_eq)
  moreover have "unvmed_enable_ctrl g world csts iosqes iocqes ps ams css tmo u' = Some (Fail EBUSY, u')"
    if "u_state u' = UNVME_RESETTING"
    using that by (simp add: unvmed_enable_ctrl_def unvmed_enable_ctrl_u2_def set_state_eq)
  ultimately show ?thesis by blast
qed

definition no_mem :: "unit pci_ops" where
  "no_mem = \<lparr>path_mem = (\<lambda>_. False), cfg_open = (\<lambda>_ _. None), cfg_pread = (\<lambda>_ _ _ p. (Inr [], p)),
     cfg_pwrite = (\<lambda>_ _ _ p. (None, p)), real_path = (\<lambda>_ _. None), read_csts = (\<lambda>p. (0, p)),
     write_csts = (\<lambda>_ p. p), write_nssr = (\<lambda>_ p. p)\<rparr>"

theorem pci_reset_failure_sticks_witness:
  "\<exists>u'. unvmed_subsystem_reset 1 no_mem sample_regs 4 busy_io ((), sample_off\<lparr>u_state := UNVME_ENABLED\<rparr>)
       = Some (Fail ENOMEM, (), u')
     \<and> u_state u' = UNVME_RESETTING \<and> unvme_reset_ctrl_u2 sample_regs [0] u' = Some (Fail EBUSY, u')"
proof -
  let ?u = "sample_off\<lparr>u_state := UNVME_ENABLED\<rparr>"
  have run: "unvmed_subsystem_reset 1 no_mem sample_regs 4 busy_io ((), ?u) = Some (Fail ENOMEM, (), resetting ?u)"
    by (simp add: unvmed_subsystem_reset_def start_reset_def set_state_eq on_pci_def unvmed_pci_backup_state_def
        unvmed_pci_get_config_def no_mem_def)
  have "u_state (resetting ?u) = UNVME_RESETTING" by simp
  with pci_reset_failure_sticks [OF insertI1 run insertI1, of "[0]"]
  have "unvme_reset_ctrl_u2 sample_regs [0] (resetting ?u) = Some (Fail EBUSY, resetting ?u)" by blast
  with run \<open>u_state (resetting ?u) = UNVME_RESETTING\<close> show ?thesis by blast
qed

subsection \<open>The list of capabilities\<close>

text \<open>An offset at which the walk over the list of capabilities ends: outside the list, or at the PCI Express capability.\<close>

definition chain_ends :: "(u16 \<Rightarrow> u16) \<Rightarrow> u16 \<Rightarrow> bool" where
  "chain_ends cfg o' \<longleftrightarrow> o' = 0 \<or> 0x100 \<le> o' \<or> cfg o' AND 0xff = 0x10"

text \<open>C36. The walk over the list of PCI capabilities in a configuration space that does not change and can be
  read, \<open>cfg\<close> giving the two bytes at an offset, returns exactly when the chain of pointers reaches
  its end or the PCI Express capability. A cyclic chain without that capability is walked for ever.
\<close>

theorem cap_walk_returns:
  assumes "\<And>o'. \<exists>bs. cfg_pread ops (config_path name) (unat o') 2 p = (Inr bs, p) \<and> length bs = 2 \<and> le16 bs = cfg o'"
  shows "(\<exists>fuel r. cap_walk fuel ops name offset p = Some r) \<longleftrightarrow> (\<exists>n. chain_ends cfg (((\<lambda>o'. drop_bit 8 (cfg o')) ^^ n) offset))"
proof -
  let ?next = "\<lambda>o'. drop_bit 8 (cfg o')"
  have step: "cap_walk (Suc fuel) ops name o' p = cap_walk fuel ops name (?next o') p" if "\<not> chain_ends cfg o'" for fuel o'
    using assms [of o'] that by (auto simp: chain_ends_def)
  have stop: "\<exists>r. cap_walk (Suc fuel) ops name o' p = Some r" if "chain_ends cfg o'" for fuel o'
    using assms [of o'] that by (auto simp: chain_ends_def)
  have "cap_walk fuel ops name o' p = Some r \<Longrightarrow> \<exists>n. chain_ends cfg ((?next ^^ n) o')" for fuel o' r
  proof (induction fuel arbitrary: o')
    case (Suc fuel)
    show ?case
    proof (cases "chain_ends cfg o'")
      case True
      then show ?thesis by (intro exI [of _ 0]) simp
    next
      case False
      then have "cap_walk fuel ops name (?next o') p = Some r" using Suc.prems step by metis
      from Suc.IH [OF this] obtain n where "chain_ends cfg ((?next ^^ n) (?next o'))" by blast
      then show ?thesis by (intro exI [of _ "Suc n"]) (simp del: funpow.simps add: funpow_Suc_right)
    qed
  qed simp
  moreover have "chain_ends cfg ((?next ^^ n) o') \<Longrightarrow> \<exists>fuel r. cap_walk fuel ops name o' p = Some r" for n o'
  proof (induction n arbitrary: o')
    case 0
    then have "chain_ends cfg o'" by simp
    then show ?case using stop [of o' 0] by blast
  next
    case (Suc n)
    show ?case
    proof (cases "chain_ends cfg o'")
      case True
      then show ?thesis using stop [of o' 0] by blast
    next
      case False
      have "chain_ends cfg ((?next ^^ n) (?next o'))" using Suc.prems by (simp del: funpow.simps add: funpow_Suc_right)
      from Suc.IH [OF this] obtain fuel r where "cap_walk fuel ops name (?next o') p = Some r" by blast
      then have "cap_walk (Suc fuel) ops name o' p = Some r" using step [OF False] by simp
      then show ?thesis by blast
    qed
  qed
  ultimately show ?thesis by blast
qed

text \<open>Configuration spaces that have the same two bytes everywhere: the PCI Express capability, and one that is its own successor.\<close>

definition cfg_const :: "u8 list \<Rightarrow> unit pci_ops" where
  "cfg_const bs = no_mem\<lparr>cfg_pread := (\<lambda>_ _ _ p. (Inr bs, p))\<rparr>"

theorem cap_walk_returns_witness:
  "(\<exists>fuel r. cap_walk fuel (cfg_const [0x10, 0]) ''x'' 0x40 () = Some r)
   \<and> \<not> (\<exists>fuel r. cap_walk fuel (cfg_const [0x01, 0x40]) ''x'' 0x40 () = Some r)"
proof -
  have le: "le16 [0x10, 0] = 0x10" "le16 [0x01, 0x40] = 0x4001" by code_simp+
  have rd: "\<exists>bs'. cfg_pread (cfg_const bs) f n 2 () = (Inr bs', ()) \<and> length bs' = 2 \<and> le16 bs' = le16 bs"
    if "length bs = 2" for bs f n using that by (simp add: cfg_const_def)
  have two: "length [0x10, 0 :: u8] = 2" "length [0x01, 0x40 :: u8] = 2" by simp_all
  have "\<exists>n. chain_ends (\<lambda>_. 0x10) (((\<lambda>o' :: u16. drop_bit 8 (0x10 :: u16)) ^^ n) 0x40)"
    by (rule exI [of _ 0]) (simp add: chain_ends_def)
  then have "\<exists>fuel r. cap_walk fuel (cfg_const [0x10, 0]) ''x'' 0x40 () = Some r"
    using cap_walk_returns [where ops = "cfg_const [0x10, 0]" and name = "''x''" and p = "()" and cfg = "\<lambda>_. 0x10" and offset = "0x40"] rd [OF two(1)] by (simp add: le)
  moreover have "((\<lambda>o' :: u16. drop_bit 8 (0x4001 :: u16)) ^^ n) 0x40 = 0x40" for n
    by (induction n) (simp_all add: drop_bit_eq_div)
  then have "\<not> (\<exists>n. chain_ends (\<lambda>_. 0x4001) (((\<lambda>o' :: u16. drop_bit 8 (0x4001 :: u16)) ^^ n) 0x40))"
    by (simp add: chain_ends_def)
  then have "\<not> (\<exists>fuel r. cap_walk fuel (cfg_const [0x01, 0x40]) ''x'' 0x40 () = Some r)"
    using cap_walk_returns [where ops = "cfg_const [0x01, 0x40]" and name = "''x''" and p = "()" and cfg = "\<lambda>_. 0x4001" and offset = "0x40"] rd [OF two(2)] by (simp add: le)
  ultimately show ?thesis by blast
qed

end
