(* ===== verification/Prot_Info.thy ===== *)
theory Prot_Info
  imports Prep "HOL-Library.Monad_Syntax"
begin

text \<open>
  End-to-end protection information of the fio engine (\<open>src/src/app/fio/libunvmed-engine.c\<close>):
  the tuples \<open>libunvmed_fill_pi()\<close> writes into the data or the metadata buffer of a transfer, for
  the 16, 32 and 64 bit guard formats, the fields it stores in the submission queue entry, and
  \<open>libunvmed_verify_pi()\<close>, which checks the tuples of a read.

  The transfer buffer and the metadata buffer are byte arrays and a pointer is an offset in one of
  them. \<open>None\<close> is a call that does not return: an access outside a buffer, a division by zero, an
  \<open>assert()\<close>, or a loop without end. A checksum and a byte order conversion are parameters: fio
  and libvfn define them. Integers are stored in the order of a little-endian host.
\<close>

unbundle bit_operations_syntax

type_synonym bytes = "u8 list"

subsection \<open>Integers and byte arrays\<close>

fun le_bytes :: "nat \<Rightarrow> nat \<Rightarrow> bytes" where
  "le_bytes 0 x = []"
| "le_bytes (Suc n) x = word_of_nat (x mod 256) # le_bytes n (x div 256)"

fun le_val :: "bytes \<Rightarrow> nat" where
  "le_val [] = 0"
| "le_val (b # bs) = unat b + 256 * le_val bs"

definition load :: "bytes \<Rightarrow> nat \<Rightarrow> nat \<Rightarrow> bytes option" where
  "load xs off n = (if off + n \<le> length xs then Some (take n (drop off xs)) else None)"

definition store :: "bytes \<Rightarrow> nat \<Rightarrow> bytes \<Rightarrow> bytes option" where
  "store xs off bs =
     (if off + length bs \<le> length xs then Some (take off xs @ bs @ drop (off + length bs) xs)
      else None)"

subsection \<open>Parameters and state\<close>

text \<open>The constants of the NVMe headers that this part reads, beside those of \<open>nvme_defs\<close>.\<close>

record pi_defs = nvme_defs +
  d_dps_pi_mask :: u8
  d_dps_type1 :: u8
  d_dps_type2 :: u8
  d_dps_type3 :: u8
  d_dps_first :: u8
  d_prchk_guard :: u32
  d_prchk_app :: u32
  d_prchk_ref :: u32
  d_pract :: u16
  d_write_zeroes :: u8

text \<open>fio's checksums and the byte order conversions.\<close>

record pi_ops =
  crc_t10dif :: "u16 \<Rightarrow> bytes \<Rightarrow> u16"
  crc64_nvme :: "u64 \<Rightarrow> bytes \<Rightarrow> u64"
  crc32c :: "bytes \<Rightarrow> u32"
  cpu_to_be16 :: "u16 \<Rightarrow> u16"
  cpu_to_be32 :: "u32 \<Rightarrow> u32"
  cpu_to_be64 :: "u64 \<Rightarrow> u64"
  be16_to_cpu :: "u16 \<Rightarrow> u16"
  be32_to_cpu :: "u32 \<Rightarrow> u32"
  be64_to_cpu :: "u64 \<Rightarrow> u64"
  put_be48 :: "u64 \<Rightarrow> bytes"
  get_be48 :: "bytes \<Rightarrow> u64"

text \<open>The options of a job (\<open>struct libunvmed_options\<close>) that this part reads.\<close>

record libunvmed_options =
  o_pi_act :: bool
  o_prchk :: u32
  o_apptag :: u32
  o_apptag_mask :: u32
  meta_err_injection :: u8
  o_md_per_io_size :: u32

definition UNVME_ERR_GUARD :: u8 where "UNVME_ERR_GUARD = 1"
definition UNVME_ERR_REFTAG :: u8 where "UNVME_ERR_REFTAG = 2"
definition UNVME_ERR_ILBRT :: u8 where "UNVME_ERR_ILBRT = 4"
definition UNVME_ERR_LBAT :: u8 where "UNVME_ERR_LBAT = 8"

text \<open>fio's directions; \<open>DDIR_OTHER\<close> stands for those the engine does not serve.\<close>

datatype fio_ddir = DDIR_READ | DDIR_WRITE | DDIR_TRIM | DDIR_SYNC | DDIR_OTHER

record io_u =
  io_ddir :: fio_ddir
  io_offset :: u64
  xfer_buflen :: u64

text \<open>
  The buffers of a transfer and its \<open>struct libunvmed_meta_options\<close>: the transfer buffer, the
  metadata buffer, the distance of a tuple from the start of its block, and the application tag.
\<close>

record meta_options =
  xfer_buf :: bytes
  mo_mbuf :: bytes
  mo_interval :: u32
  mo_apptag :: u16
  mo_apptag_mask :: u16

subsection \<open>Block addresses\<close>

function ilog2_loop :: "u32 \<Rightarrow> int \<Rightarrow> int" where
  "ilog2_loop i log = (if i = 0 then log else ilog2_loop (drop_bit 1 i) (log + 1))"
  by pat_completeness auto
termination
proof (relation "measure (\<lambda>(i, log). unat i)")
  fix i :: u32 assume "i \<noteq> 0"
  then have "unat i div 2 < unat i"
    by (simp add: unat_gt_0)
  then show "((drop_bit 1 i, log + 1), i, log) \<in> measure (\<lambda>(i, log). unat i)" for log :: int
    by (simp add: drop_bit_eq_div unat_div)
qed simp

declare ilog2_loop.simps [simp del]

definition ilog2 :: "u32 \<Rightarrow> int" where
  "ilog2 i = ilog2_loop i (- 1)"

definition libunvmed_pi_enabled :: "'z pi_defs_scheme \<Rightarrow> unvme_ns \<Rightarrow> bool" where
  "libunvmed_pi_enabled d ns = (ns_dps ns AND d_dps_pi_mask d \<noteq> 0)"

definition libunvmed_ns_meta_is_dif :: "unvme_ns \<Rightarrow> bool" where
  "libunvmed_ns_meta_is_dif ns = (ns_mset ns \<noteq> 0)"

definition libunvmed_get_slba :: "unvme_ns \<Rightarrow> u64 \<Rightarrow> u64 option" where
  "libunvmed_get_slba ns off =
     (if libunvmed_ns_meta_is_dif ns
      then (let u = lba_size ns + ucast (ns_ms ns) in
            if u = 0 then None else Some (off div ucast u))
      else (let n = ilog2 (lba_size ns) in
            if n < 0 then None else Some (drop_bit (nat n) off)))"

definition libunvmed_get_nlba :: "unvme_ns \<Rightarrow> u32 \<Rightarrow> u32 option" where
  "libunvmed_get_nlba ns len =
     (if libunvmed_ns_meta_is_dif ns
      then (let u = lba_size ns + ucast (ns_ms ns) in
            if u = 0 then None else Some (len div u - 1))
      else (let n = ilog2 (lba_size ns) in
            if n < 0 then None else Some (drop_bit (nat n) len - 1)))"

subsection \<open>Tuples in a buffer\<close>

text \<open>
  The field of \<open>n\<close> bytes at offset \<open>off\<close> of the tuple of the block whose data start at \<open>b\<close> and
  whose metadata start at \<open>m\<close>.
\<close>

definition pi_ld :: "unvme_ns \<Rightarrow> nat \<Rightarrow> nat \<Rightarrow> meta_options \<Rightarrow> nat \<Rightarrow> nat \<Rightarrow> bytes option" where
  "pi_ld ns b m s off n =
     (if libunvmed_ns_meta_is_dif ns then load (xfer_buf s) (b + unat (mo_interval s) + off) n
      else load (mo_mbuf s) (m + unat (mo_interval s) + off) n)"

definition pi_st ::
  "unvme_ns \<Rightarrow> nat \<Rightarrow> nat \<Rightarrow> nat \<Rightarrow> bytes \<Rightarrow> meta_options \<Rightarrow> meta_options option" where
  "pi_st ns b m off bs s =
     (if libunvmed_ns_meta_is_dif ns
      then map_option (\<lambda>xs. s\<lparr>xfer_buf := xs\<rparr>)
             (store (xfer_buf s) (b + unat (mo_interval s) + off) bs)
      else map_option (\<lambda>xs. s\<lparr>mo_mbuf := xs\<rparr>)
             (store (mo_mbuf s) (m + unat (mo_interval s) + off) bs))"

definition libunvmed_inject_err_to_meta ::
  "unvme_ns \<Rightarrow> nat \<Rightarrow> nat \<Rightarrow> nat \<Rightarrow> meta_options \<Rightarrow> meta_options option" where
  "libunvmed_inject_err_to_meta ns b m off s =
     do { x \<leftarrow> pi_ld ns b m s off 1; pi_st ns b m off (map (\<lambda>y. y XOR 1) x) s }"

text \<open>Store a field, then flip the lowest bit of its first byte when an error is injected.\<close>

definition pi_put ::
  "unvme_ns \<Rightarrow> nat \<Rightarrow> nat \<Rightarrow> nat \<Rightarrow> bytes \<Rightarrow> bool \<Rightarrow> meta_options \<Rightarrow> meta_options option" where
  "pi_put ns b m off bs inject s =
     do { s \<leftarrow> pi_st ns b m off bs s;
          if inject then libunvmed_inject_err_to_meta ns b m off s else Some s }"

text \<open>Whether a bit of the checks (\<open>prchk\<close>) or of the errors to inject is set.\<close>

definition prchk_on :: "libunvmed_options \<Rightarrow> u32 \<Rightarrow> bool" where
  "prchk_on o' f = (o_prchk o' AND f \<noteq> 0)"

definition inject_on :: "libunvmed_options \<Rightarrow> u8 \<Rightarrow> bool" where
  "inject_on o' f = (meta_err_injection o' AND f \<noteq> 0)"

text \<open>Where the tuple of \<open>sz\<close> bytes lies, the arithmetic being that of 32 bits.\<close>

definition pi_interval :: "'z pi_defs_scheme \<Rightarrow> unvme_ns \<Rightarrow> u32 \<Rightarrow> u32" where
  "pi_interval d ns sz =
     (if ns_dps ns AND d_dps_first d \<noteq> 0
      then (if libunvmed_ns_meta_is_dif ns then lba_size ns else 0)
      else (if libunvmed_ns_meta_is_dif ns then lba_size ns + ucast (ns_ms ns) - sz
            else ucast (ns_ms ns) - sz))"

text \<open>
  The loop over the blocks: \<open>lba_idx\<close> is a 32 bit counter that runs while it is at most \<open>nlb\<close>, and
  the two pointers advance by a block. The body may end the function with an error.
\<close>

definition pi_next :: "unvme_ns \<Rightarrow> nat \<Rightarrow> nat \<Rightarrow> nat \<times> nat" where
  "pi_next ns b m =
     (if libunvmed_ns_meta_is_dif ns then (b + unat (lba_size ns) + unat (ns_ms ns), m)
      else (b + unat (lba_size ns), m + unat (ns_ms ns)))"

partial_function (option) pi_while ::
  "unvme_ns \<Rightarrow> u32 \<Rightarrow> (u32 \<Rightarrow> nat \<Rightarrow> nat \<Rightarrow> 's \<Rightarrow> (errno + 's) option) \<Rightarrow> u32 \<Rightarrow> nat \<Rightarrow> nat
   \<Rightarrow> 's \<Rightarrow> (errno + 's) option" where
  "pi_while ns nlb body lba_idx b m s =
     (if lba_idx \<le> nlb
      then do { r \<leftarrow> body lba_idx b m s;
                case r of
                  Inl e \<Rightarrow> Some (Inl e)
                | Inr s' \<Rightarrow> pi_while ns nlb body (lba_idx + 1) (fst (pi_next ns b m))
                             (snd (pi_next ns b m)) s' }
      else Some (Inr s))"

subsection \<open>Guards\<close>

definition guard_16b :: "pi_ops \<Rightarrow> unvme_ns \<Rightarrow> nat \<Rightarrow> nat \<Rightarrow> meta_options \<Rightarrow> u16 option" where
  "guard_16b c ns b m s =
     (if libunvmed_ns_meta_is_dif ns
      then do { x \<leftarrow> load (xfer_buf s) b (unat (mo_interval s)); Some (crc_t10dif c 0 x) }
      else do { x \<leftarrow> load (xfer_buf s) b (unat (lba_size ns));
                y \<leftarrow> load (mo_mbuf s) m (unat (mo_interval s));
                Some (crc_t10dif c (crc_t10dif c 0 x) y) })"

definition guard_64b :: "pi_ops \<Rightarrow> unvme_ns \<Rightarrow> nat \<Rightarrow> nat \<Rightarrow> meta_options \<Rightarrow> u64 option" where
  "guard_64b c ns b m s =
     (if libunvmed_ns_meta_is_dif ns
      then do { x \<leftarrow> load (xfer_buf s) b (unat (mo_interval s)); Some (crc64_nvme c 0 x) }
      else do { x \<leftarrow> load (xfer_buf s) b (unat (lba_size ns));
                y \<leftarrow> load (mo_mbuf s) m (unat (mo_interval s));
                Some (crc64_nvme c (crc64_nvme c 0 x) y) })"

definition libunvmed_crc32c_sep :: "pi_ops \<Rightarrow> bytes \<Rightarrow> bytes \<Rightarrow> u32" where
  "libunvmed_crc32c_sep c buf mbuf = crc32c c (buf @ mbuf)"

definition guard_32b :: "pi_ops \<Rightarrow> unvme_ns \<Rightarrow> nat \<Rightarrow> nat \<Rightarrow> meta_options \<Rightarrow> u32 option" where
  "guard_32b c ns b m s =
     (if libunvmed_ns_meta_is_dif ns
      then do { x \<leftarrow> load (xfer_buf s) b (unat (mo_interval s)); Some (crc32c c x XOR 0xffffffff) }
      else do { x \<leftarrow> load (xfer_buf s) b (unat (lba_size ns));
                y \<leftarrow> load (mo_mbuf s) m (unat (mo_interval s));
                Some (libunvmed_crc32c_sep c x y XOR 0xffffffff) })"

subsection \<open>Filling the tuple of a block\<close>

definition fill_app :: "pi_ops \<Rightarrow> meta_options \<Rightarrow> bytes" where
  "fill_app c s = le_bytes 2 (unat (cpu_to_be16 c (mo_apptag s AND mo_apptag_mask s)))"

definition fill_block_16b ::
  "pi_ops \<Rightarrow> 'z pi_defs_scheme \<Rightarrow> unvme_ns \<Rightarrow> libunvmed_options \<Rightarrow> u64 \<Rightarrow> u32 \<Rightarrow> nat \<Rightarrow> nat
   \<Rightarrow> meta_options \<Rightarrow> meta_options option" where
  "fill_block_16b c d ns o' slba lba_idx b m s0 = do {
     s1 \<leftarrow> (if prchk_on o' (d_prchk_guard d)
            then do { guard \<leftarrow> guard_16b c ns b m s0;
                      pi_put ns b m 0 (le_bytes 2 (unat (cpu_to_be16 c guard)))
                        (inject_on o' UNVME_ERR_GUARD) s0 }
            else Some s0);
     s2 \<leftarrow> (if prchk_on o' (d_prchk_app d) then pi_st ns b m 2 (fill_app c s1) s1 else Some s1);
     if prchk_on o' (d_prchk_ref d)
     then pi_put ns b m 4 (le_bytes 4 (unat (cpu_to_be32 c (ucast slba + lba_idx))))
            (inject_on o' UNVME_ERR_REFTAG) s2
     else Some s2 }"

definition fill_block_64b ::
  "pi_ops \<Rightarrow> 'z pi_defs_scheme \<Rightarrow> unvme_ns \<Rightarrow> libunvmed_options \<Rightarrow> u64 \<Rightarrow> u32 \<Rightarrow> nat \<Rightarrow> nat
   \<Rightarrow> meta_options \<Rightarrow> meta_options option" where
  "fill_block_64b c d ns o' slba lba_idx b m s0 = do {
     s1 \<leftarrow> (if prchk_on o' (d_prchk_guard d)
            then do { guard \<leftarrow> guard_64b c ns b m s0;
                      pi_put ns b m 0 (le_bytes 8 (unat (cpu_to_be64 c guard)))
                        (inject_on o' UNVME_ERR_GUARD) s0 }
            else Some s0);
     s2 \<leftarrow> (if prchk_on o' (d_prchk_app d) then pi_st ns b m 8 (fill_app c s1) s1 else Some s1);
     if prchk_on o' (d_prchk_ref d)
     then pi_put ns b m 10 (put_be48 c (slba + ucast lba_idx)) (inject_on o' UNVME_ERR_REFTAG) s2
     else Some s2 }"

definition fill_block_32b ::
  "pi_ops \<Rightarrow> 'z pi_defs_scheme \<Rightarrow> unvme_ns \<Rightarrow> libunvmed_options \<Rightarrow> u64 \<Rightarrow> u32 \<Rightarrow> nat \<Rightarrow> nat
   \<Rightarrow> meta_options \<Rightarrow> meta_options option" where
  "fill_block_32b c d ns o' slba lba_idx b m s0 = do {
     s1 \<leftarrow> (if prchk_on o' (d_prchk_guard d)
            then do { guard \<leftarrow> guard_32b c ns b m s0;
                      pi_put ns b m 0 (le_bytes 4 (unat (cpu_to_be32 c guard)))
                        (inject_on o' UNVME_ERR_GUARD) s0 }
            else Some s0);
     s2 \<leftarrow> (if prchk_on o' (d_prchk_app d) then pi_st ns b m 4 (fill_app c s1) s1 else Some s1);
     if prchk_on o' (d_prchk_ref d)
     then do { s \<leftarrow> pi_st ns b m 6 (replicate 4 0) s2;
               pi_put ns b m 10 (put_be48 c (slba + ucast lba_idx))
                 (inject_on o' UNVME_ERR_REFTAG) s }
     else Some s2 }"

text \<open>A fill function that never fails has the state it leaves as its result.\<close>

definition fill_loop ::
  "unvme_ns \<Rightarrow> u32 \<Rightarrow> (u32 \<Rightarrow> nat \<Rightarrow> nat \<Rightarrow> 's \<Rightarrow> 's option) \<Rightarrow> 's \<Rightarrow> 's option" where
  "fill_loop ns nlb body s =
     Option.bind (pi_while ns nlb (\<lambda>i b m s. map_option Inr (body i b m s)) 0 0 0 s)
       (case_sum (\<lambda>_. None) Some)"

definition libunvmed_fill_pi_16b_guard ::
  "pi_ops \<Rightarrow> 'z pi_defs_scheme \<Rightarrow> unvme_ns \<Rightarrow> libunvmed_options \<Rightarrow> io_u \<Rightarrow> meta_options
   \<Rightarrow> meta_options option" where
  "libunvmed_fill_pi_16b_guard c d ns o' io s = do {
     slba \<leftarrow> libunvmed_get_slba ns (io_offset io);
     nlb \<leftarrow> libunvmed_get_nlba ns (ucast (xfer_buflen io));
     let s = s\<lparr>mo_interval := pi_interval d ns 8\<rparr>;
     if io_ddir io = DDIR_READ then Some s
     else fill_loop ns nlb (fill_block_16b c d ns o' slba) s }"

definition libunvmed_fill_pi_64b_guard ::
  "pi_ops \<Rightarrow> 'z pi_defs_scheme \<Rightarrow> unvme_ns \<Rightarrow> libunvmed_options \<Rightarrow> io_u \<Rightarrow> meta_options
   \<Rightarrow> meta_options option" where
  "libunvmed_fill_pi_64b_guard c d ns o' io s = do {
     slba \<leftarrow> libunvmed_get_slba ns (io_offset io);
     nlb \<leftarrow> libunvmed_get_nlba ns (ucast (xfer_buflen io));
     fill_loop ns nlb (fill_block_64b c d ns o' slba) (s\<lparr>mo_interval := pi_interval d ns 16\<rparr>) }"

definition libunvmed_fill_pi_32b_guard ::
  "pi_ops \<Rightarrow> 'z pi_defs_scheme \<Rightarrow> unvme_ns \<Rightarrow> libunvmed_options \<Rightarrow> io_u \<Rightarrow> meta_options
   \<Rightarrow> meta_options option" where
  "libunvmed_fill_pi_32b_guard c d ns o' io s = do {
     slba \<leftarrow> libunvmed_get_slba ns (io_offset io);
     nlb \<leftarrow> libunvmed_get_nlba ns (ucast (xfer_buflen io));
     let s = s\<lparr>mo_interval := pi_interval d ns 16\<rparr>;
     if io_ddir io = DDIR_READ then Some s
     else fill_loop ns nlb (fill_block_32b c d ns o' slba) s }"

text \<open>The fields of the entry: the flags, the application tag and the initial reference tag.\<close>

definition pi_ref_sqe ::
  "'z pi_defs_scheme \<Rightarrow> unvme_ns \<Rightarrow> u64 \<Rightarrow> nvme_cmd \<Rightarrow> nvme_cmd" where
  "pi_ref_sqe d ns slba sqe =
     (let t = ns_dps ns AND d_dps_pi_mask d in
      if t = d_dps_type1 d \<or> t = d_dps_type2 d
      then (if ns_pif ns = d_pif_16b d then sqe\<lparr>sqe_reftag := ucast slba\<rparr>
            else if ns_pif ns = d_pif_32b d \<or> ns_pif ns = d_pif_64b d
            then sqe\<lparr>sqe_reftag := ucast (slba AND 0xffffffff),
                     sqe_cdw3 := ucast (drop_bit 32 slba AND 0xffff)\<rparr>
            else sqe)
      else sqe)"

definition pi_sqe ::
  "'z pi_defs_scheme \<Rightarrow> unvme_ns \<Rightarrow> libunvmed_options \<Rightarrow> u64 \<Rightarrow> nvme_cmd \<Rightarrow> nvme_cmd" where
  "pi_sqe d ns o' slba sqe0 =
     (let sqe1 = (if o_pi_act o' then sqe0\<lparr>sqe_control := sqe_control sqe0 OR d_pract d\<rparr> else sqe0);
          sqe2 = (if sqe_opcode sqe1 \<noteq> d_write_zeroes d
                  then sqe1\<lparr>sqe_control := sqe_control sqe1 OR ucast (o_prchk o')\<rparr> else sqe1);
          sqe3 = (if prchk_on o' (d_prchk_app d)
                  then sqe2\<lparr>sqe_apptag := (if inject_on o' UNVME_ERR_LBAT
                                            then ucast (o_apptag o') XOR 1 else ucast (o_apptag o')),
                            sqe_appmask := ucast (o_apptag_mask o')\<rparr>
                  else sqe2)
      in if prchk_on o' (d_prchk_ref d)
         then (let sqe4 = pi_ref_sqe d ns slba sqe3 in
               if inject_on o' UNVME_ERR_ILBRT then sqe4\<lparr>sqe_reftag := sqe_reftag sqe4 XOR 1\<rparr>
               else sqe4)
         else sqe3)"

definition libunvmed_fill_pi ::
  "pi_ops \<Rightarrow> 'z pi_defs_scheme \<Rightarrow> unvme_ns \<Rightarrow> libunvmed_options \<Rightarrow> io_u \<Rightarrow> nvme_cmd \<Rightarrow> meta_options
   \<Rightarrow> (nvme_cmd \<times> meta_options) option" where
  "libunvmed_fill_pi c d ns o' io sqe s = do {
     slba \<leftarrow> libunvmed_get_slba ns (io_offset io);
     s' \<leftarrow> (if o_pi_act o' then Some s
            else if ns_pif ns = d_pif_16b d then libunvmed_fill_pi_16b_guard c d ns o' io s
            else if ns_pif ns = d_pif_32b d then libunvmed_fill_pi_32b_guard c d ns o' io s
            else if ns_pif ns = d_pif_64b d then libunvmed_fill_pi_64b_guard c d ns o' io s
            else Some s);
     Some (pi_sqe d ns o' slba sqe, s') }"

subsection \<open>Checking the tuple of a block\<close>

definition pi_be16 :: "pi_ops \<Rightarrow> bytes \<Rightarrow> u16" where
  "pi_be16 c bs = be16_to_cpu c (word_of_nat (le_val bs))"

text \<open>
  The application tag that escapes the checks: alone for types 1 and 2, with the reference tag,
  read by \<open>ref\<close>, for type 3. The 16 bit format tests type 3 in its own way, hence \<open>type3\<close>.
\<close>

definition pi_escape ::
  "pi_ops \<Rightarrow> 'z pi_defs_scheme \<Rightarrow> unvme_ns \<Rightarrow> bool \<Rightarrow> bytes option \<Rightarrow> bool option \<Rightarrow> bool option" where
  "pi_escape c d ns type3 app ref = do {
     let t = ns_dps ns AND d_dps_pi_mask d;
     e \<leftarrow> (if t = d_dps_type1 d \<or> t = d_dps_type2 d
           then map_option (\<lambda>x. pi_be16 c x = 0xffff) app else Some False);
     if e then Some True
     else if type3
     then do { x \<leftarrow> app; if pi_be16 c x = 0xffff then ref else Some False }
     else Some False }"

text \<open>The application tag check: the mask applies to the tag as it is stored.\<close>

definition app_check :: "pi_ops \<Rightarrow> meta_options \<Rightarrow> bytes \<Rightarrow> bool" where
  "app_check c s x =
     (be16_to_cpu c (word_of_nat (le_val x) AND mo_apptag_mask s)
        = mo_apptag s AND mo_apptag_mask s)"

text \<open>The reference tag check by protection type; another type ends in \<open>assert(false)\<close>.\<close>

definition ref_check ::
  "'z pi_defs_scheme \<Rightarrow> unvme_ns \<Rightarrow> bool option \<Rightarrow> bool option" where
  "ref_check d ns same =
     (let t = ns_dps ns AND d_dps_pi_mask d in
      if t = d_dps_type1 d \<or> t = d_dps_type2 d then same
      else if t = d_dps_type3 d then Some True
      else None)"

text \<open>The checks of a block in their order: the first that fails ends the function.\<close>

definition pi_checks ::
  "bool option \<Rightarrow> bool option \<Rightarrow> bool option \<Rightarrow> bool option \<Rightarrow> 's \<Rightarrow> (errno + 's) option" where
  "pi_checks escape guard app ref s = do {
     e \<leftarrow> escape;
     if e then Some (Inr s)
     else do {
       g \<leftarrow> guard;
       if \<not> g then Some (Inl EIO)
       else do {
         a \<leftarrow> app;
         if \<not> a then Some (Inl EIO)
         else do {
           r \<leftarrow> ref;
           if \<not> r then Some (Inl EIO) else Some (Inr s) } } } }"

definition verify_block_16b ::
  "pi_ops \<Rightarrow> 'z pi_defs_scheme \<Rightarrow> unvme_ns \<Rightarrow> libunvmed_options \<Rightarrow> u64 \<Rightarrow> u32 \<Rightarrow> nat \<Rightarrow> nat
   \<Rightarrow> meta_options \<Rightarrow> (errno + meta_options) option" where
  "verify_block_16b c d ns o' slba lba_idx b m s =
     pi_checks
       (pi_escape c d ns (ns_dps ns AND d_dps_type3 d = d_dps_type3 d) (pi_ld ns b m s 2 2)
            (map_option (\<lambda>x. be32_to_cpu c (word_of_nat (le_val x)) = 0xffffffff)
               (pi_ld ns b m s 4 4)))
       (if prchk_on o' (d_prchk_guard d)
        then do { x \<leftarrow> pi_ld ns b m s 0 2; guard_exp \<leftarrow> guard_16b c ns b m s;
                  Some (pi_be16 c x = guard_exp) }
        else Some True)
       (if prchk_on o' (d_prchk_app d)
        then map_option (app_check c s) (pi_ld ns b m s 2 2) else Some True)
       (if prchk_on o' (d_prchk_ref d)
        then ref_check d ns
               (map_option (\<lambda>x. be32_to_cpu c (word_of_nat (le_val x)) = ucast slba + lba_idx)
                  (pi_ld ns b m s 4 4))
        else Some True)
       s"

definition verify_block_64b ::
  "pi_ops \<Rightarrow> 'z pi_defs_scheme \<Rightarrow> unvme_ns \<Rightarrow> libunvmed_options \<Rightarrow> u64 \<Rightarrow> u32 \<Rightarrow> nat \<Rightarrow> nat
   \<Rightarrow> meta_options \<Rightarrow> (errno + meta_options) option" where
  "verify_block_64b c d ns o' slba lba_idx b m s =
     pi_checks
       (pi_escape c d ns (ns_dps ns AND d_dps_pi_mask d = d_dps_type3 d) (pi_ld ns b m s 8 2)
            (map_option (\<lambda>x. get_be48 c x = 0xffffffffffff) (pi_ld ns b m s 10 6)))
       (if prchk_on o' (d_prchk_guard d)
        then do { x \<leftarrow> pi_ld ns b m s 0 8; guard_exp \<leftarrow> guard_64b c ns b m s;
                  Some (be64_to_cpu c (word_of_nat (le_val x)) = guard_exp) }
        else Some True)
       (if prchk_on o' (d_prchk_app d)
        then map_option (app_check c s) (pi_ld ns b m s 8 2) else Some True)
       (if prchk_on o' (d_prchk_ref d)
        then ref_check d ns
               (map_option (\<lambda>x. get_be48 c x = slba + ucast lba_idx) (pi_ld ns b m s 10 6))
        else Some True)
       s"

definition verify_block_32b ::
  "pi_ops \<Rightarrow> 'z pi_defs_scheme \<Rightarrow> unvme_ns \<Rightarrow> libunvmed_options \<Rightarrow> u64 \<Rightarrow> u32 \<Rightarrow> nat \<Rightarrow> nat
   \<Rightarrow> meta_options \<Rightarrow> (errno + meta_options) option" where
  "verify_block_32b c d ns o' slba lba_idx b m s =
     pi_checks
       (pi_escape c d ns (ns_dps ns AND d_dps_pi_mask d = d_dps_type3 d) (pi_ld ns b m s 4 2)
            (map_option (\<lambda>x. get_be48 c x = 0xffffffffffff) (pi_ld ns b m s 10 6)))
       (if prchk_on o' (d_prchk_guard d)
        then do { x \<leftarrow> pi_ld ns b m s 0 4; guard_exp \<leftarrow> guard_32b c ns b m s;
                  Some (be32_to_cpu c (word_of_nat (le_val x)) = guard_exp) }
        else Some True)
       (if prchk_on o' (d_prchk_app d)
        then map_option (app_check c s) (pi_ld ns b m s 4 2) else Some True)
       (if prchk_on o' (d_prchk_ref d)
        then ref_check d ns
               (map_option (\<lambda>x. get_be48 c x = slba + ucast lba_idx) (pi_ld ns b m s 10 6))
        else Some True)
       s"

definition verify_loop ::
  "unvme_ns \<Rightarrow> io_u \<Rightarrow> (u64 \<Rightarrow> u32 \<Rightarrow> nat \<Rightarrow> nat \<Rightarrow> meta_options \<Rightarrow> (errno + meta_options) option)
   \<Rightarrow> meta_options \<Rightarrow> (errno + unit) option" where
  "verify_loop ns io body s = do {
     slba \<leftarrow> libunvmed_get_slba ns (io_offset io);
     nlb \<leftarrow> libunvmed_get_nlba ns (ucast (xfer_buflen io));
     map_option (map_sum (\<lambda>e. e) (\<lambda>_. ())) (pi_while ns nlb (body slba) 0 0 0 s) }"

definition libunvmed_verify_pi_16b_guard ::
  "pi_ops \<Rightarrow> 'z pi_defs_scheme \<Rightarrow> unvme_ns \<Rightarrow> libunvmed_options \<Rightarrow> io_u \<Rightarrow> meta_options
   \<Rightarrow> (errno + unit) option" where
  "libunvmed_verify_pi_16b_guard c d ns o' io s = verify_loop ns io (verify_block_16b c d ns o') s"

definition libunvmed_verify_pi_64b_guard ::
  "pi_ops \<Rightarrow> 'z pi_defs_scheme \<Rightarrow> unvme_ns \<Rightarrow> libunvmed_options \<Rightarrow> io_u \<Rightarrow> meta_options
   \<Rightarrow> (errno + unit) option" where
  "libunvmed_verify_pi_64b_guard c d ns o' io s = verify_loop ns io (verify_block_64b c d ns o') s"

definition libunvmed_verify_pi_32b_guard ::
  "pi_ops \<Rightarrow> 'z pi_defs_scheme \<Rightarrow> unvme_ns \<Rightarrow> libunvmed_options \<Rightarrow> io_u \<Rightarrow> meta_options
   \<Rightarrow> (errno + unit) option" where
  "libunvmed_verify_pi_32b_guard c d ns o' io s = verify_loop ns io (verify_block_32b c d ns o') s"

definition libunvmed_verify_pi ::
  "pi_ops \<Rightarrow> 'z pi_defs_scheme \<Rightarrow> unvme_ns \<Rightarrow> libunvmed_options \<Rightarrow> io_u \<Rightarrow> meta_options
   \<Rightarrow> (errno + unit) option" where
  "libunvmed_verify_pi c d ns o' io s =
     (if ns_pif ns = d_pif_16b d then libunvmed_verify_pi_16b_guard c d ns o' io s
      else if ns_pif ns = d_pif_32b d then libunvmed_verify_pi_32b_guard c d ns o' io s
      else if ns_pif ns = d_pif_64b d then libunvmed_verify_pi_64b_guard c d ns o' io s
      else Some (Inl EINVAL))"

text \<open>The options a transfer starts with (\<open>fio_libunvmed_io_u_init()\<close>).\<close>

definition io_u_init_meta :: "libunvmed_options \<Rightarrow> meta_options \<Rightarrow> meta_options" where
  "io_u_init_meta o' s =
     (if o_pi_act o' then s\<lparr>mo_apptag := 0, mo_apptag_mask := 0\<rparr>
      else s\<lparr>mo_apptag := ucast (o_apptag o'), mo_apptag_mask := ucast (o_apptag_mask o')\<rparr>)"

end
