(* ===== verification/Fio_Opts.thy ===== *)
theory Fio_Opts
  imports Bdf Prot_Info
begin

text \<open>
  The options of the fio engine, \<open>src/src/app/fio/libunvmed-engine.c\<close>: the mixes of write modes and
  of admin commands with their percentages, the checks and errors of protection information, the
  constraints of a job, the opcode and the flags a job starts with, the choice that is made for
  each I/O, and the allocator of the controller memory buffer.

  A callback that returns 1 is \<open>Fail ERRNO_UNSET\<close>; it leaves the entries it has stored. A string is
  its characters before the terminating zero.
\<close>

unbundle bit_operations_syntax

subsection \<open>Strings\<close>

text \<open>The tokens that \<open>strsep()\<close> returns one after the other.\<close>

fun strsep_all :: "char \<Rightarrow> string \<Rightarrow> string list" where
  "strsep_all c [] = [[]]"
| "strsep_all c (x # s) =
     (if x = c then [] # strsep_all c s
      else case strsep_all c s of [] \<Rightarrow> [[x]] | t # ts \<Rightarrow> (x # t) # ts)"

fun strstr :: "string \<Rightarrow> string \<Rightarrow> bool" where
  "strstr [] pat = (pat = [])"
| "strstr (x # s) pat = (take (length pat) (x # s) = pat \<or> strstr s pat)"

text \<open>\<open>atoi()\<close>: 0 without digits; undefined when the value does not fit.\<close>

definition atoi :: "string \<Rightarrow> int outcome" where
  "atoi s = (case scan_d s of Matched n _ \<Rightarrow> Ok (sint n) | Mismatch \<Rightarrow> Ok 0 | Undefined \<Rightarrow> Fault)"

subsection \<open>Mixes\<close>

text \<open>The opcodes of the write modes, beside those of \<open>pi_defs\<close>, and the flags of an entry.\<close>

record fio_defs = pi_defs +
  d_write_uncor :: u8
  d_verify :: u8
  d_compare :: u8
  d_flush :: u8
  d_dsm :: u8
  d_io_deac :: u32
  d_io_fua :: u32
  d_io_lr :: u32
  d_io_dtype_streams :: u32
  d_dsmgmt_ad :: u32
  d_nsid_all :: u32
  d_identify_size :: u64

definition wmode_str_to_opcode :: "'z fio_defs_scheme \<Rightarrow> string \<Rightarrow> u8" where
  "wmode_str_to_opcode d mode =
     (if mode = ''write'' then d_write d
      else if mode = ''uncor'' then d_write_uncor d
      else if mode = ''zeroes'' then d_write_zeroes d
      else if mode = ''verify'' then d_verify d
      else 0xff)"

datatype libunvmed_admin_cmd =
    LIBUNVMED_ADMIN_ID_CTRL | LIBUNVMED_ADMIN_ID_NS | LIBUNVMED_ADMIN_ID_NSLIST
  | LIBUNVMED_ADMIN_ID_NVM_NS | LIBUNVMED_ADMIN_ID_PRI_CTRL | LIBUNVMED_ADMIN_ID_SEC_CTRL_LIST
  | LIBUNVMED_ADMIN_GET_LOG_SMART | LIBUNVMED_ADMIN_GET_LOG_ERROR | LIBUNVMED_ADMIN_GET_LOG_FW_SLOT
  | LIBUNVMED_ADMIN_GET_LOG_CMD_EFFECTS | LIBUNVMED_ADMIN_GET_LOG_PERSISTENT_EVENT
  | LIBUNVMED_ADMIN_GET_FEAT_ARBITRATION | LIBUNVMED_ADMIN_GET_FEAT_POWER_MGMT
  | LIBUNVMED_ADMIN_GET_FEAT_TEMP_THRESHOLD | LIBUNVMED_ADMIN_GET_FEAT_NUM_QUEUES
  | LIBUNVMED_ADMIN_GET_FEAT_VOLATILE_WC | LIBUNVMED_ADMIN_GET_FEAT_TIMESTAMP
  | LIBUNVMED_ADMIN_ABORT

definition admin_cmds :: "libunvmed_admin_cmd list" where
  "admin_cmds = [LIBUNVMED_ADMIN_ID_CTRL, LIBUNVMED_ADMIN_ID_NS, LIBUNVMED_ADMIN_ID_NSLIST,
     LIBUNVMED_ADMIN_ID_NVM_NS, LIBUNVMED_ADMIN_ID_PRI_CTRL, LIBUNVMED_ADMIN_ID_SEC_CTRL_LIST,
     LIBUNVMED_ADMIN_GET_LOG_SMART, LIBUNVMED_ADMIN_GET_LOG_ERROR, LIBUNVMED_ADMIN_GET_LOG_FW_SLOT,
     LIBUNVMED_ADMIN_GET_LOG_CMD_EFFECTS, LIBUNVMED_ADMIN_GET_LOG_PERSISTENT_EVENT,
     LIBUNVMED_ADMIN_GET_FEAT_ARBITRATION, LIBUNVMED_ADMIN_GET_FEAT_POWER_MGMT,
     LIBUNVMED_ADMIN_GET_FEAT_TEMP_THRESHOLD, LIBUNVMED_ADMIN_GET_FEAT_NUM_QUEUES,
     LIBUNVMED_ADMIN_GET_FEAT_VOLATILE_WC, LIBUNVMED_ADMIN_GET_FEAT_TIMESTAMP,
     LIBUNVMED_ADMIN_ABORT]"

text \<open>The values of the enumeration start at 1.\<close>

fun admin_val :: "libunvmed_admin_cmd list \<Rightarrow> u8 \<Rightarrow> libunvmed_admin_cmd \<Rightarrow> u8" where
  "admin_val [] n c = 0"
| "admin_val (x # xs) n c = (if x = c then n else admin_val xs (n + 1) c)"

definition admin_num :: "libunvmed_admin_cmd \<Rightarrow> u8" where
  "admin_num c = admin_val admin_cmds 1 c"

definition admin_names :: "(string \<times> libunvmed_admin_cmd) list" where
  "admin_names = zip [''id_ctrl'', ''id_ns'', ''id_nslist'', ''id_nvm_ns'', ''id_pri_ctrl'',
     ''id_sec_ctrl_list'', ''log_smart'', ''log_error'', ''log_fw_slot'', ''log_cmd_effects'',
     ''log_persistent_event'', ''feat_arbitration'', ''feat_power_mgmt'', ''feat_temp_threshold'',
     ''feat_num_queues'', ''feat_volatile_wc'', ''feat_timestamp'', ''abort''] admin_cmds"

definition admin_cmd_str_to_val :: "string \<Rightarrow> u8" where
  "admin_cmd_str_to_val mode =
     (case map_of admin_names mode of None \<Rightarrow> 0xff | Some c \<Rightarrow> admin_num c)"

record wmode_split_entry =
  ws_opcode :: u8
  ws_cdw12_flag :: u32
  ws_perc :: u32

record admin_split_entry =
  as_admin_cmd :: u8
  as_perc :: u32

definition WMODE_SPLIT_MAX :: nat where "WMODE_SPLIT_MAX = 4"
definition ADMIN_SPLIT_MAX :: nat where "ADMIN_SPLIT_MAX = 6"

text \<open>The options of a job that are set here, beside those of protection information.\<close>

record fio_options = libunvmed_options +
  o_nsid :: u32
  o_sqid :: u32
  o_cntlid :: u32
  o_admin_cmd :: u32
  admin_split :: "admin_split_entry list"
  admin_split_nr :: nat
  o_prp1_offset :: u64
  o_enable_sgl :: bool
  o_dtype :: u32
  o_lr :: bool
  o_dspec :: u32
  o_dsm :: u32
  o_cmb_data :: bool
  o_write_mode :: u32
  wmode_split :: "wmode_split_entry list"
  wmode_split_nr :: nat
  o_deac :: bool
  o_readfua :: bool
  o_writefua :: bool
  o_verify_mode :: u32
  o_pi_chk :: "string option"

text \<open>
  The loop over the entries of a mix, which both callbacks have: at most \<open>limit\<close> entries, each with a
  slash, a known name and a percentage that is not negative or blank. The entries stored so far and
  the sum of the percentages, which wraps at 32 bits, are the state of the loop.
\<close>

definition split_perc :: "string \<Rightarrow> u32 \<Rightarrow> (u32 \<times> u32) outcome" where
  "split_perc perc_str tot =
     (if perc_str = [] then Ok (- 1, tot)
      else case atoi perc_str of
             Ok tmp \<Rightarrow> if tmp < 0 then Fail ERRNO_UNSET else Ok (word_of_int tmp, tot + word_of_int tmp)
           | Fail e \<Rightarrow> Fail e
           | Fault \<Rightarrow> Fault)"

fun split_loop ::
  "nat \<Rightarrow> (string \<Rightarrow> u8) \<Rightarrow> string list \<Rightarrow> (u8 \<times> u32) list \<Rightarrow> u32 \<Rightarrow> unit outcome \<times> (u8 \<times> u32) list \<times> u32" where
  "split_loop limit val [] es tot = (Ok (), es, tot)"
| "split_loop limit val (tok # toks) es tot =
     (if limit \<le> length es then (Fail ERRNO_UNSET, es, tot)
      else if CHR ''/'' \<notin> set tok then (Fail ERRNO_UNSET, es, tot)
      else let op = val (takeWhile (\<lambda>c. c \<noteq> CHR ''/'') tok) in
           if op = 0xff then (Fail ERRNO_UNSET, es, tot)
           else case split_perc (tl (dropWhile (\<lambda>c. c \<noteq> CHR ''/'') tok)) tot of
                  Ok (perc, tot') \<Rightarrow> split_loop limit val toks (es @ [(op, perc)]) tot'
                | Fail e \<Rightarrow> (Fail e, es, tot)
                | Fault \<Rightarrow> (Fault, es, tot))"

definition is_blank :: "u8 \<times> u32 \<Rightarrow> bool" where
  "is_blank e \<longleftrightarrow> snd e = - 1"

definition split_finish :: "(u8 \<times> u32) list \<Rightarrow> u32 \<Rightarrow> unit outcome \<times> (u8 \<times> u32) list" where
  "split_finish es tot =
     (let missing = length (filter is_blank es) in
      if length es < 2 then (Fail ERRNO_UNSET, es)
      else if 100 < tot then (Fail ERRNO_UNSET, es)
      else if missing \<noteq> 0
      then let fill = (100 - tot) div word_of_nat missing in
           (Ok (), map (\<lambda>e. if is_blank e then (fst e, fill) else e) es)
      else if tot \<noteq> 100 then (Fail ERRNO_UNSET, es)
      else (Ok (), es))"

definition parse_split ::
  "nat \<Rightarrow> (string \<Rightarrow> u8) \<Rightarrow> string \<Rightarrow> unit outcome \<times> (u8 \<times> u32) list" where
  "parse_split limit val str =
     (case split_loop limit val (strsep_all (CHR '':'') str) [] 0 of
        (Ok _, es, tot) \<Rightarrow> split_finish es tot
      | (Fail e, es, tot) \<Rightarrow> (Fail e, es)
      | (Fault, es, tot) \<Rightarrow> (Fault, es))"

text \<open>The first entries of an array, overwritten.\<close>

definition overwrite :: "'a list \<Rightarrow> 'a list \<Rightarrow> 'a list" where
  "overwrite new old = new @ drop (length new) old"

definition FIO_URING_CMD_WMODE_WRITE :: u32 where "FIO_URING_CMD_WMODE_WRITE = 1"
definition FIO_URING_CMD_WMODE_UNCOR :: u32 where "FIO_URING_CMD_WMODE_UNCOR = 2"
definition FIO_URING_CMD_WMODE_ZEROES :: u32 where "FIO_URING_CMD_WMODE_ZEROES = 3"
definition FIO_URING_CMD_WMODE_VERIFY :: u32 where "FIO_URING_CMD_WMODE_VERIFY = 4"
definition FIO_URING_CMD_VMODE_COMPARE :: u32 where "FIO_URING_CMD_VMODE_COMPARE = 2"

definition str_write_mode_cb ::
  "'z fio_defs_scheme \<Rightarrow> string \<Rightarrow> fio_options \<Rightarrow> unit outcome \<times> fio_options" where
  "str_write_mode_cb d str o' =
     (if CHR '':'' \<notin> set str
      then let op = wmode_str_to_opcode d str in
           if op = 0xff then (Fail ERRNO_UNSET, o')
           else (Ok (), o'\<lparr>o_write_mode :=
                             (if op = d_write_uncor d then FIO_URING_CMD_WMODE_UNCOR
                              else if op = d_write_zeroes d then FIO_URING_CMD_WMODE_ZEROES
                              else if op = d_verify d then FIO_URING_CMD_WMODE_VERIFY
                              else FIO_URING_CMD_WMODE_WRITE),
                           wmode_split_nr := 0\<rparr>)
      else case parse_split WMODE_SPLIT_MAX (wmode_str_to_opcode d) str of
             (r, es) \<Rightarrow>
               let o1 = o'\<lparr>wmode_split := overwrite
                     (map (\<lambda>(op, perc). \<lparr>ws_opcode = op, ws_cdw12_flag = 0, ws_perc = perc\<rparr>) es)
                     (wmode_split o')\<rparr>
               in (case r of
                     Ok _ \<Rightarrow> (Ok (), o1\<lparr>wmode_split_nr := length es,
                                        o_write_mode := FIO_URING_CMD_WMODE_WRITE\<rparr>)
                   | Fail e \<Rightarrow> (Fail e, o1)
                   | Fault \<Rightarrow> (Fault, o1)))"

definition str_admin_cmd_cb :: "string \<Rightarrow> fio_options \<Rightarrow> unit outcome \<times> fio_options" where
  "str_admin_cmd_cb str o' =
     (if CHR '':'' \<notin> set str
      then let val = admin_cmd_str_to_val str in
           if val = 0xff then (Fail ERRNO_UNSET, o')
           else (Ok (), o'\<lparr>o_admin_cmd := ucast val, admin_split_nr := 0\<rparr>)
      else case parse_split ADMIN_SPLIT_MAX admin_cmd_str_to_val str of
             (r, es) \<Rightarrow>
               let o1 = o'\<lparr>admin_split := overwrite
                     (map (\<lambda>(op, perc). \<lparr>as_admin_cmd = op, as_perc = perc\<rparr>) es) (admin_split o')\<rparr>
               in (case r of
                     Ok _ \<Rightarrow> (Ok (), o1\<lparr>admin_split_nr := length es,
                                        o_admin_cmd := ucast (fst (hd es))\<rparr>)
                   | Fail e \<Rightarrow> (Fail e, o1)
                   | Fault \<Rightarrow> (Fault, o1)))"

subsection \<open>Protection information\<close>

definition set_if :: "bool \<Rightarrow> 'a::len word \<Rightarrow> 'a word \<Rightarrow> 'a word" where
  "set_if p f w = (if p then w OR f else w)"

definition libunvmed_cb_meta_error_injection :: "string \<Rightarrow> fio_options \<Rightarrow> fio_options" where
  "libunvmed_cb_meta_error_injection str o' = o'\<lparr>meta_err_injection :=
     set_if (strstr str ''LBAT'') UNVME_ERR_LBAT (set_if (strstr str ''ILBRT'') UNVME_ERR_ILBRT
       (set_if (strstr str ''REFTAG'') UNVME_ERR_REFTAG (set_if (strstr str ''GUARD'') UNVME_ERR_GUARD
          (meta_err_injection o'))))\<rparr>"

definition libunvmed_parse_prchk ::
  "'z pi_defs_scheme \<Rightarrow> fio_options \<Rightarrow> unit outcome \<times> fio_options" where
  "libunvmed_parse_prchk d o' =
     (case o_pi_chk o' of
        None \<Rightarrow> (Ok (), o')
      | Some s \<Rightarrow>
          let prchk = set_if (strstr s ''REFTAG'') (d_prchk_ref d) (set_if (strstr s ''APPTAG'') (d_prchk_app d)
                (set_if (strstr s ''GUARD'') (d_prchk_guard d) (o_prchk o')));
              o1 = o'\<lparr>o_prchk := prchk\<rparr>
          in if prchk \<noteq> 0 then (Ok (), o1) else (Fail ERRNO_UNSET, o1))"

subsection \<open>A job\<close>

text \<open>What fio knows of a job: threads, files, depth, and the block sizes of each direction.\<close>

record fio_job =
  use_thread :: bool
  nr_files :: nat
  iodepth :: u32
  max_bs :: "fio_ddir \<Rightarrow> u64"
  min_bs :: "fio_ddir \<Rightarrow> u64"
  td_writes :: bool
  td_trims :: bool
  num_range :: u32

definition libunvmed_check_constraints :: "'z fio_defs_scheme \<Rightarrow> fio_job \<Rightarrow> fio_options \<Rightarrow> bool" where
  "libunvmed_check_constraints d td o' =
     (if \<not> use_thread td then False
      else if nr_files td \<noteq> 1 then False
      else if o_nsid o' = 0 then False
      else if o_enable_sgl o' \<and> o_prp1_offset o' \<noteq> 0 then False
      else if o_admin_cmd o' \<noteq> 0 \<and> o_admin_cmd o' \<noteq> ucast (admin_num LIBUNVMED_ADMIN_ABORT)
      then list_all (\<lambda>ddir. \<not> (max_bs td ddir \<noteq> 0 \<and> max_bs td ddir < d_identify_size d))
             [DDIR_READ, DDIR_WRITE, DDIR_TRIM]
      else True)"

text \<open>The part of \<open>struct libunvmed_data\<close> that an entry is made from.\<close>

record libunvmed_data =
  ld_write_opcode :: u8
  cdw12_flags :: "fio_ddir \<Rightarrow> u32"
  cdw13_flags :: "fio_ddir \<Rightarrow> u32"
  nr_queued :: u32
  abort_sqid_max :: u16
  abort_cid_max :: u16

definition add_flag12 :: "fio_ddir \<Rightarrow> u32 \<Rightarrow> libunvmed_data \<Rightarrow> libunvmed_data" where
  "add_flag12 ddir f ld = ld\<lparr>cdw12_flags := (cdw12_flags ld)(ddir := cdw12_flags ld ddir OR f)\<rparr>"

definition add_flag13 :: "fio_ddir \<Rightarrow> u32 \<Rightarrow> libunvmed_data \<Rightarrow> libunvmed_data" where
  "add_flag13 ddir f ld = ld\<lparr>cdw13_flags := (cdw13_flags ld)(ddir := cdw13_flags ld ddir OR f)\<rparr>"

text \<open>The part of \<open>fio_libunvmed_init()\<close> that prepares opcodes and flags.\<close>

definition wmode_entry_flag :: "'z fio_defs_scheme \<Rightarrow> fio_options \<Rightarrow> wmode_split_entry \<Rightarrow> wmode_split_entry" where
  "wmode_entry_flag d o' e = e\<lparr>ws_cdw12_flag :=
     (if ws_opcode e = d_write_zeroes d \<and> o_deac o' then push_bit 16 (d_io_deac d)
      else if ws_opcode e = d_write d \<and> o_writefua o' then push_bit 16 (d_io_fua d) else 0)\<rparr>"

definition init_write_mode :: "'z fio_defs_scheme \<Rightarrow> fio_options \<Rightarrow> libunvmed_data \<Rightarrow> libunvmed_data" where
  "init_write_mode d o' ld =
     (if o_write_mode o' = FIO_URING_CMD_WMODE_UNCOR then ld\<lparr>ld_write_opcode := d_write_uncor d\<rparr>
      else if o_write_mode o' = FIO_URING_CMD_WMODE_ZEROES
      then (let ld1 = ld\<lparr>ld_write_opcode := d_write_zeroes d\<rparr> in
            if o_deac o' then add_flag12 DDIR_WRITE (push_bit 16 (d_io_deac d)) ld1 else ld1)
      else if o_write_mode o' = FIO_URING_CMD_WMODE_VERIFY then ld\<lparr>ld_write_opcode := d_verify d\<rparr>
      else let ld1 = ld\<lparr>ld_write_opcode := d_write d\<rparr>;
               ld2 = (if o_dtype o' \<noteq> 0
                      then add_flag12 DDIR_WRITE (push_bit 16 (o_dtype o' * d_io_dtype_streams d)) ld1 else ld1);
               ld3 = (if o_dspec o' \<noteq> 0 then add_flag13 DDIR_WRITE (push_bit 16 (o_dspec o')) ld2 else ld2)
           in if o_dsm o' \<noteq> 0 then add_flag13 DDIR_WRITE (o_dsm o' AND 0xff) ld3 else ld3)"

definition init_flags ::
  "'z fio_defs_scheme \<Rightarrow> fio_job \<Rightarrow> fio_options \<Rightarrow> libunvmed_data \<Rightarrow> fio_options \<times> libunvmed_data" where
  "init_flags d td o' ld =
     (let (o1, ld1) =
            (if td_writes td
             then (if 1 < wmode_split_nr o'
                   then (o'\<lparr>wmode_split := map (wmode_entry_flag d o') (take (wmode_split_nr o') (wmode_split o'))
                             @ drop (wmode_split_nr o') (wmode_split o')\<rparr>, ld)
                   else (o', init_write_mode d o' ld))
             else (o', ld));
          ld2 = (if o_readfua o1 then add_flag12 DDIR_READ (push_bit 16 (d_io_fua d)) ld1 else ld1);
          ld3 = (if o_writefua o1 \<and> wmode_split_nr o1 \<le> 1
                 then add_flag12 DDIR_WRITE (push_bit 16 (d_io_fua d)) ld2 else ld2);
          ld4 = (if o_lr o1
                 then fold (\<lambda>ddir. add_flag12 ddir (push_bit 16 (d_io_lr d))) [DDIR_READ, DDIR_WRITE, DDIR_TRIM] ld3
                 else ld3)
      in (o1, ld4))"

subsection \<open>The choice for each I/O\<close>

text \<open>
  The loop of \<open>fio_libunvmed_prep()\<close> over a mix, for a number below 100: the first entry whose running
  sum, which wraps at 32 bits, exceeds it.
\<close>

fun pick :: "('e \<Rightarrow> u32) \<Rightarrow> u32 \<Rightarrow> u32 \<Rightarrow> 'e list \<Rightarrow> 'e option" where
  "pick perc_of rand perc [] = None"
| "pick perc_of rand perc (e # es) =
     (let perc' = perc + perc_of e in if rand < perc' then Some e else pick perc_of rand perc' es)"

datatype io_u_mark = IO_U_F_TRIMMED | IO_U_F_ZEROED | IO_U_F_ERRORED

text \<open>The marks of the I/O, the options and the data of the job that are left, for two random numbers.\<close>

definition fio_libunvmed_prep ::
  "'z fio_defs_scheme \<Rightarrow> u32 \<Rightarrow> u32 \<Rightarrow> fio_ddir \<Rightarrow> io_u_mark set \<Rightarrow> fio_options \<Rightarrow> libunvmed_data
   \<Rightarrow> io_u_mark set \<times> fio_options \<times> libunvmed_data" where
  "fio_libunvmed_prep d rand_w rand_a ddir marks o' ld =
     (let (marks1, ld1) =
            (if 1 < wmode_split_nr o' \<and> ddir = DDIR_WRITE
             then (case pick ws_perc rand_w 0 (take (wmode_split_nr o') (wmode_split o')) of
                     None \<Rightarrow> (marks, ld)
                   | Some e \<Rightarrow>
                       (if ws_opcode e = d_write_zeroes d
                        then (if o_deac o' then {IO_U_F_TRIMMED} else {IO_U_F_ZEROED})
                        else if ws_opcode e = d_write_uncor d then {IO_U_F_ERRORED} else {},
                        ld\<lparr>ld_write_opcode := ws_opcode e,
                           cdw12_flags := (cdw12_flags ld)(DDIR_WRITE := ws_cdw12_flag e)\<rparr>))
             else (marks, ld));
          o1 = (if 1 < admin_split_nr o'
                then (case pick as_perc rand_a 0 (take (admin_split_nr o') (admin_split o')) of
                        None \<Rightarrow> o'
                      | Some e \<Rightarrow> o'\<lparr>o_admin_cmd := ucast (as_admin_cmd e)\<rparr>)
                else o')
      in (marks1, o1, ld1))"

subsection \<open>The controller memory buffer\<close>

text \<open>
  \<open>__cmb_ptr\<close> is shared by all jobs; 0 is \<open>NULL\<close>. The region is its address and size. Lengths are
  \<open>size_t\<close>, so that rounding up wraps, and so do the two sums of a pointer and a length.
\<close>

definition round_up :: "u64 \<Rightarrow> u64 \<Rightarrow> u64" where
  "round_up x n = (x + n - 1) div n * n"

definition libunvmed_cmb_alloc :: "nat \<times> int \<Rightarrow> u64 \<Rightarrow> u64 \<Rightarrow> nat \<Rightarrow> nat option \<times> nat" where
  "libunvmed_cmb_alloc region pagesize len cmb_ptr =
     (case region of
        (base, sz) \<Rightarrow>
          if sz \<le> 0 then (None, cmb_ptr)
          else let p = (if cmb_ptr = 0 then base else cmb_ptr);
                   next = word_of_nat p + round_up len pagesize; limit = word_of_nat base + word_of_int sz :: u64 in
               if next > limit then (None, p)
               else (Some p, unat next))"

definition libunvmed_cmb_free_all :: "nat \<Rightarrow> nat" where
  "libunvmed_cmb_free_all cmb_ptr = 0"

end
