(* ===== verification/Fio_Mem.thy ===== *)
theory Fio_Mem
  imports Fio_Opts
begin

text \<open>
  The buffers of a fio job, \<open>src/src/app/fio/libunvmed-engine.c\<close>: the checks of the block sizes and
  the metadata and trim buffers of \<open>libunvmed_init_data()\<close>, the data, PRP and PRP list buffers of
  \<open>fio_libunvmed_iomem_alloc()\<close>, their mapping into the IOMMU, and mapping everything again after
  the controller was re-initialised.
\<close>

unbundle bit_operations_syntax

subsection \<open>State\<close>

text \<open>
  The buffers in \<open>struct libunvmed_data\<close>, with \<open>td->orig_buffer\<close>. A pointer is a number and 0 is
  \<open>NULL\<close>.
\<close>

record fio_mem =
  orig_buffer :: nat
  orig_buffer_size :: u64
  orig_buffer_iova :: u64
  prp_iomem :: nat
  prp_iomem_size :: u64
  prp_iomem_usize :: u64
  prp_list_iomem :: nat
  prp_list_iomem_size :: u64
  prp_list_iomem_usize :: u64
  prp_list_nr_lists :: int
  prp_list_iomem_iova :: u64
  meta_iomem :: nat
  meta_iomem_size :: u64
  meta_iomem_iova :: u64
  trim_iomem :: nat
  trim_iomem_size :: u64
  trim_iomem_iova :: u64
  ld_epoch :: u32

text \<open>The buffers and the controller.\<close>

type_synonym ('m, 'z) mem_state = "fio_mem \<times> ('m, 'z) unvme_dma_scheme"

subsection \<open>Mapping\<close>

text \<open>Map a buffer and store its I/O address; a buffer that is absent is left out.\<close>

definition map_buffer ::
  "'m dma_ops \<Rightarrow> bool \<Rightarrow> nat \<Rightarrow> u64 \<Rightarrow> (u64 \<Rightarrow> fio_mem \<Rightarrow> fio_mem) \<Rightarrow> ('m, 'z) mem_state
   \<Rightarrow> unit outcome \<times> ('m, 'z) mem_state" where
  "map_buffer ops present a len put s =
     (if present
      then (case unvmed_map_vaddr ops a len 0 (snd s) of
              (Ok iova, u) \<Rightarrow> (Ok (), put iova (fst s), u)
            | (Fail e, u) \<Rightarrow> (Fail e, fst s, u)
            | (Fault, u) \<Rightarrow> (Fault, fst s, u))
      else (Ok (), s))"

text \<open>Undo the mappings of the given buffers in their order; failures are logged only.\<close>

definition unmap_buffer :: "'m dma_ops \<Rightarrow> bool \<times> nat \<Rightarrow> ('m, 'z) unvme_dma_scheme \<Rightarrow> ('m, 'z) unvme_dma_scheme" where
  "unmap_buffer ops b u = (if fst b then ignore (unvmed_unmap_vaddr ops (snd b) u) else u)"

definition rollback ::
  "'m dma_ops \<Rightarrow> errno \<Rightarrow> (bool \<times> nat) list \<Rightarrow> ('m, 'z) mem_state \<Rightarrow> unit outcome \<times> ('m, 'z) mem_state" where
  "rollback ops e bs s = (Fail e, fst s, fold (unmap_buffer ops) bs (snd s))"

text \<open>The next call, or what undoes the calls before.\<close>

definition or_undo ::
  "unit outcome \<times> 's \<Rightarrow> ('s \<Rightarrow> unit outcome \<times> 's) \<Rightarrow> ('s \<Rightarrow> unit outcome \<times> 's) \<Rightarrow> unit outcome \<times> 's" where
  "or_undo r undo next =
     (case r of (Ok _, s) \<Rightarrow> next s | (Fail e, s) \<Rightarrow> undo s | (Fault, s) \<Rightarrow> (Fault, s))"

definition map_orig_buffer ::
  "'m dma_ops \<Rightarrow> bool \<Rightarrow> ('m, 'z) mem_state \<Rightarrow> unit outcome \<times> ('m, 'z) mem_state" where
  "map_orig_buffer ops cmb_data s =
     (let mm = fst s in
      if orig_buffer_size mm = 0 then (Ok (), s)
      else if cmb_data
      then (Ok (), (case unvmed_to_iova ops (orig_buffer mm) (snd s) of
                      None \<Rightarrow> mm | Some iova \<Rightarrow> mm\<lparr>orig_buffer_iova := iova\<rparr>), snd s)
      else map_buffer ops True (orig_buffer mm) (orig_buffer_size mm)
             (\<lambda>iova mm. mm\<lparr>orig_buffer_iova := iova\<rparr>) s)"

definition libunvmed_map_mems ::
  "'m dma_ops \<Rightarrow> bool \<Rightarrow> ('m, 'z) mem_state \<Rightarrow> unit outcome \<times> ('m, 'z) mem_state" where
  "libunvmed_map_mems ops cmb_data s0 =
     (let mm = fst s0;
          orig = (orig_buffer_size mm \<noteq> 0 \<and> \<not> cmb_data, orig_buffer mm);
          prp = (prp_iomem mm \<noteq> 0, prp_iomem mm)
      in or_undo (map_orig_buffer ops cmb_data s0) (\<lambda>s. (Fail ERRNO_UNSET, s)) (\<lambda>s1.
         or_undo (map_buffer ops (prp_iomem mm \<noteq> 0) (prp_iomem mm) (prp_iomem_size mm) (\<lambda>_ mm. mm) s1)
           (rollback ops ERRNO_UNSET [orig]) (\<lambda>s2.
         or_undo (map_buffer ops (prp_list_iomem mm \<noteq> 0) (prp_list_iomem mm) (prp_list_iomem_size mm)
             (\<lambda>iova mm. mm\<lparr>prp_list_iomem_iova := iova\<rparr>) s2)
           (rollback ops ERRNO_UNSET [prp, orig]) (\<lambda>s3. (Ok (), s3)))))"

text \<open>\<open>epoch\<close> is what \<open>unvmed_get_epoch()\<close> returns.\<close>

definition libunvmed_remap_mems_cb ::
  "'m dma_ops \<Rightarrow> u32 \<Rightarrow> bool \<Rightarrow> ('m, 'z) mem_state \<Rightarrow> unit outcome \<times> ('m, 'z) mem_state" where
  "libunvmed_remap_mems_cb ops epoch cmb_data s0 =
     (let mm = fst s0;
          meta = (meta_iomem mm \<noteq> 0, meta_iomem mm);
          rest = [(prp_list_iomem mm \<noteq> 0, prp_list_iomem mm), (prp_iomem mm \<noteq> 0, prp_iomem mm),
                  (orig_buffer mm \<noteq> 0 \<and> orig_buffer_size mm \<noteq> 0 \<and> \<not> cmb_data, orig_buffer mm)]
      in or_undo (libunvmed_map_mems ops cmb_data s0) (\<lambda>s. (Fail EFAULT, s)) (\<lambda>s1.
         or_undo (map_buffer ops (meta_iomem mm \<noteq> 0) (meta_iomem mm) (meta_iomem_size mm)
             (\<lambda>iova mm. mm\<lparr>meta_iomem_iova := iova\<rparr>) s1)
           (rollback ops EFAULT rest) (\<lambda>s2.
         or_undo (map_buffer ops (trim_iomem mm \<noteq> 0) (trim_iomem mm) (trim_iomem_size mm)
             (\<lambda>iova mm. mm\<lparr>trim_iomem_iova := iova\<rparr>) s2)
           (rollback ops EFAULT (meta # rest)) (\<lambda>s3.
         (Ok (), (fst s3)\<lparr>ld_epoch := epoch\<rparr>, snd s3)))))"

subsection \<open>Allocation\<close>

text \<open>
  The loop of \<open>libunvmed_init_data()\<close> over the directions: the sizes of blocks against the largest
  transfer and the format of the namespace, and the metadata size that is adjusted.
\<close>

definition bs_unit :: "unvme_ns \<Rightarrow> u32" where
  "bs_unit ns = (if \<not> libunvmed_ns_meta_is_dif ns then lba_size ns else lba_size ns + ucast (ns_ms ns))"

fun check_bs ::
  "unvme_ns \<Rightarrow> int \<Rightarrow> fio_job \<Rightarrow> fio_ddir list \<Rightarrow> u32 \<Rightarrow> u32 outcome" where
  "check_bs ns max_xfer_size td [] md = Ok md"
| "check_bs ns max_xfer_size td (ddir # ds) md =
     (if uint (max_bs td ddir) > max_xfer_size then Fail EINVAL
      else if bs_unit ns = 0 then Fault
      else if min_bs td ddir mod ucast (bs_unit ns) \<noteq> 0 \<or> max_bs td ddir mod ucast (bs_unit ns) \<noteq> 0
      then Fail EINVAL
      else let sz = ucast ((max_bs td ddir div ucast (bs_unit ns)) * ucast (ns_ms ns)) :: u32 in
           check_bs ns max_xfer_size td ds
             (if ddir \<noteq> DDIR_TRIM \<and> ns_ms ns \<noteq> 0 \<and> \<not> libunvmed_ns_meta_is_dif ns \<and> md < sz then sz else md))"

text \<open>A page-aligned buffer, mapped; when it cannot be mapped it is freed.\<close>

definition alloc_mapped ::
  "'m dma_ops \<Rightarrow> u64 \<Rightarrow> (nat \<Rightarrow> u64 \<Rightarrow> fio_mem \<Rightarrow> fio_mem) \<Rightarrow> (u64 \<Rightarrow> fio_mem \<Rightarrow> fio_mem) \<Rightarrow> ('m, 'z) mem_state
   \<Rightarrow> unit outcome \<times> ('m, 'z) mem_state" where
  "alloc_mapped ops len put put_iova s =
     (case unvmed_pgmap ops len (snd s) of
        (Ok (a, sz), u1) \<Rightarrow>
          (case unvmed_map_vaddr ops a sz 0 u1 of
             (Ok iova, u2) \<Rightarrow> (Ok (), put_iova iova (put a sz (fst s)), u2)
           | (Fail e, u2) \<Rightarrow>
               (case unvmed_pgunmap a u2 of
                  (Fault, u3) \<Rightarrow> (Fault, put a sz (fst s), u3)
                | (_, u3) \<Rightarrow> (Fail EINVAL, put a sz (fst s), u3))
           | (Fault, u2) \<Rightarrow> (Fault, put a sz (fst s), u2))
      | (Fail e, u1) \<Rightarrow> (Fail ENOMEM, fst s, u1)
      | (Fault, u1) \<Rightarrow> (Fault, fst s, u1))"

text \<open>
  The metadata and trim buffers of \<open>libunvmed_init_data()\<close>. The size of the metadata of a job is a 32
  bit product, and \<open>range_bytes\<close> is the size of the ranges of a trim (the NVMe headers define it).
  \<open>meta_iomem_size\<close> is unsigned, so that the test for a failed allocation never holds:
  the mapping is then asked for the largest size.
\<close>

definition init_buffers ::
  "'m dma_ops \<Rightarrow> u64 \<Rightarrow> unvme_ns \<Rightarrow> fio_job \<Rightarrow> u32 \<Rightarrow> ('m, 'z) mem_state
   \<Rightarrow> unit outcome \<times> ('m, 'z) mem_state" where
  "init_buffers ops range_bytes ns td md s0 =
     (let meta =
            (if \<not> libunvmed_ns_meta_is_dif ns \<and> md \<noteq> 0
             then (case unvmed_pgmap ops (ucast (md * iodepth td)) (snd s0) of
                     (Ok (a, sz), u1) \<Rightarrow>
                       (case unvmed_map_vaddr ops a sz 0 u1 of
                          (Ok iova, u2) \<Rightarrow>
                            (Ok (), (fst s0)\<lparr>meta_iomem := a, meta_iomem_size := sz, meta_iomem_iova := iova\<rparr>, u2)
                        | (Fail e, u2) \<Rightarrow>
                            (case unvmed_pgunmap a u2 of
                               (Fault, u3) \<Rightarrow> (Fault, (fst s0)\<lparr>meta_iomem := a, meta_iomem_size := sz\<rparr>, u3)
                             | (_, u3) \<Rightarrow> (Fail EINVAL, (fst s0)\<lparr>meta_iomem := a, meta_iomem_size := sz\<rparr>, u3))
                        | (Fault, u2) \<Rightarrow> (Fault, fst s0, u2))
                   | (Fail e, u1) \<Rightarrow>
                       (case unvmed_map_vaddr ops (meta_iomem (fst s0)) (- 1) 0 u1 of
                          (Ok iova, u2) \<Rightarrow> (Ok (), (fst s0)\<lparr>meta_iomem_size := - 1, meta_iomem_iova := iova\<rparr>, u2)
                        | (Fail e, u2) \<Rightarrow>
                            (case unvmed_pgunmap (meta_iomem (fst s0)) u2 of
                               (Fault, u3) \<Rightarrow> (Fault, (fst s0)\<lparr>meta_iomem_size := - 1\<rparr>, u3)
                             | (_, u3) \<Rightarrow> (Fail EINVAL, (fst s0)\<lparr>meta_iomem_size := - 1\<rparr>, u3))
                        | (Fault, u2) \<Rightarrow> (Fault, fst s0, u2))
                   | (Fault, u1) \<Rightarrow> (Fault, fst s0, u1))
             else (Ok (), s0))
      in andthen meta (\<lambda>_ s1.
           if td_trims td
           then alloc_mapped ops (ucast (iodepth td) * range_bytes)
                  (\<lambda>a sz mm. mm\<lparr>trim_iomem := a, trim_iomem_size := sz\<rparr>)
                  (\<lambda>iova mm. mm\<lparr>trim_iomem_iova := iova\<rparr>) s1
           else (Ok (), s1)))"

text \<open>The buffers that \<open>fio_libunvmed_iomem_free()\<close> frees, in its order.\<close>

definition free_if :: "bool \<Rightarrow> nat \<Rightarrow> ('m, 'z) mem_state \<Rightarrow> unit outcome \<times> ('m, 'z) mem_state" where
  "free_if p a s = (if p then (case unvmed_pgunmap a (snd s) of (r, u) \<Rightarrow> (r, fst s, u)) else (Ok (), s))"

definition fio_libunvmed_iomem_free ::
  "bool \<Rightarrow> nat \<Rightarrow> ('m, 'z) mem_state \<Rightarrow> (unit outcome \<times> ('m, 'z) mem_state) \<times> nat" where
  "fio_libunvmed_iomem_free cmb_data cmb_ptr s =
     (let mm = fst s;
          r = andthen (free_if (prp_list_iomem mm \<noteq> 0) (prp_list_iomem mm) s) (\<lambda>_ s1.
              andthen (free_if (prp_iomem mm \<noteq> 0) (prp_iomem mm) s1) (\<lambda>_ s2.
              free_if (orig_buffer mm \<noteq> 0 \<and> \<not> cmb_data) (orig_buffer mm) s2))
      in (r, if (orig_buffer mm = 0 \<or> cmb_data) \<and> cmb_data then libunvmed_cmb_free_all cmb_ptr else cmb_ptr))"

text \<open>
  \<open>fio_libunvmed_iomem_alloc()\<close>: the data buffer, the buffer for an unaligned first PRP, and the PRP
  lists, in the controller memory buffer or in host memory. The result of the first allocation is
  compared unsigned, so that a failure goes on with a pointer that was never set, which is a
  \<open>Fault\<close>. The number of list pages is an \<open>int\<close>.
\<close>

definition cmb_region :: "('m, 'z) unvme_dma_scheme \<Rightarrow> nat \<times> int" where
  "cmb_region u = (case unvmed_cmb_get_region u of Ok (a, sz) \<Rightarrow> (a, sint sz) | _ \<Rightarrow> (0, - 1))"

definition prp_list_pages :: "u64 \<Rightarrow> u64 \<Rightarrow> u64" where
  "prp_list_pages bs ps = (bs div ps * 8 + ps - 1) div ps + 1"

definition alloc_orig ::
  "'m dma_ops \<Rightarrow> bool \<Rightarrow> u64 \<Rightarrow> nat \<Rightarrow> ('m, 'z) mem_state \<Rightarrow> unit outcome \<times> ('m, 'z) mem_state \<times> nat" where
  "alloc_orig ops cmb_data total_mem cmb_ptr s =
     (if cmb_data
      then (case libunvmed_cmb_alloc (cmb_region (snd s)) (unvmed_pagesize ops (snd s)) total_mem cmb_ptr of
              (None, p) \<Rightarrow> (Fail ERRNO_UNSET, s, p)
            | (Some a, p) \<Rightarrow> (Ok (), ((fst s)\<lparr>orig_buffer := a, orig_buffer_size := total_mem\<rparr>, snd s), p))
      else (case unvmed_pgmap ops total_mem (snd s) of
              (Ok (a, sz), u) \<Rightarrow>
                if sz < total_mem then (Fail ERRNO_UNSET, (fst s, u), cmb_ptr)
                else (Ok (), ((fst s)\<lparr>orig_buffer := a, orig_buffer_size := sz\<rparr>, u), cmb_ptr)
            | (_, u) \<Rightarrow> (Fault, (fst s, u), cmb_ptr)))"

definition alloc_prp ::
  "'m dma_ops \<Rightarrow> u64 \<Rightarrow> u64 \<Rightarrow> u64 \<Rightarrow> ('m, 'z) mem_state \<Rightarrow> ('m, 'z) mem_state" where
  "alloc_prp ops prp1_offset bs units s =
     (if prp1_offset = 0 then s
      else let usize = bs + unvmed_pagesize ops (snd s); mm = (fst s)\<lparr>prp_iomem_usize := usize\<rparr> in
           case unvmed_pgmap ops (usize * units) (snd s) of
             (Ok (a, sz), u) \<Rightarrow> (mm\<lparr>prp_iomem := a, prp_iomem_size := sz\<rparr>, u)
           | (_, u) \<Rightarrow> (mm\<lparr>prp_iomem_size := - 1\<rparr>, u))"

definition alloc_lists ::
  "'m dma_ops \<Rightarrow> bool \<Rightarrow> u64 \<Rightarrow> u32 \<Rightarrow> nat \<Rightarrow> ('m, 'z) mem_state \<Rightarrow> unit outcome \<times> ('m, 'z) mem_state \<times> nat" where
  "alloc_lists ops cmb_list bs depth cmb_ptr s =
     (let ps = unvmed_pagesize ops (snd s); mm = fst s in
      if cmb_list
      then let sz = ps * ucast depth in
           (case libunvmed_cmb_alloc (cmb_region (snd s)) ps sz cmb_ptr of
              (None, p) \<Rightarrow> (Fail ERRNO_UNSET, s, p)
            | (Some a, p) \<Rightarrow>
                (Ok (), (mm\<lparr>prp_list_iomem := a, prp_list_iomem_size := sz, prp_list_nr_lists := 1\<rparr>, snd s), p))
      else let nr_lists = sint (ucast (prp_list_pages bs ps) :: u32); n = word_of_int nr_lists in
           (case unvmed_pgmap ops (n * ps * ucast depth) (snd s) of
              (Ok (a, sz), u) \<Rightarrow>
                (Ok (), (mm\<lparr>prp_list_iomem := a, prp_list_iomem_size := sz, prp_list_iomem_usize := n * ps,
                            prp_list_nr_lists := nr_lists\<rparr>, u), cmb_ptr)
            | (Fail e, u) \<Rightarrow>
                (case andthen (free_if (prp_iomem mm \<noteq> 0) (prp_iomem mm) (mm, u))
                        (\<lambda>_ s1. free_if (orig_buffer mm \<noteq> 0) (orig_buffer mm) s1) of
                   (Fault, s2) \<Rightarrow> (Fault, s2, cmb_ptr)
                 | (_, s2) \<Rightarrow> (Fail ERRNO_UNSET, s2, cmb_ptr))
            | (Fault, u) \<Rightarrow> (Fault, (mm, u), cmb_ptr)))"

definition fio_libunvmed_iomem_alloc ::
  "'m dma_ops \<Rightarrow> bool \<Rightarrow> bool \<Rightarrow> u64 \<Rightarrow> u64 \<Rightarrow> u32 \<Rightarrow> u64 \<Rightarrow> nat \<Rightarrow> ('m, 'z) mem_state
   \<Rightarrow> unit outcome \<times> ('m, 'z) mem_state \<times> nat" where
  "fio_libunvmed_iomem_alloc ops cmb_data cmb_list prp1_offset bs depth total_mem cmb_ptr s =
     (case alloc_orig ops cmb_data total_mem cmb_ptr s of
        (Ok _, s1, p) \<Rightarrow> alloc_lists ops cmb_list bs depth p (alloc_prp ops prp1_offset bs (ucast depth) s1)
      | r \<Rightarrow> r)"

text \<open>The PRP list of the I/O with the given index, as \<open>fio_libunvmed_rw()\<close> computes it.\<close>

definition prp_list_of :: "fio_mem \<Rightarrow> nat \<Rightarrow> nat" where
  "prp_list_of mm index = prp_list_iomem mm + index * unat (prp_list_iomem_usize mm)"

definition libunvmed_to_prp_list_iova :: "fio_mem \<Rightarrow> nat \<Rightarrow> u64" where
  "libunvmed_to_prp_list_iova mm prplist =
     prp_list_iomem_iova mm + (word_of_nat prplist - word_of_nat (prp_list_iomem mm))"

definition libunvmed_to_meta_iova :: "fio_mem \<Rightarrow> nat \<Rightarrow> u64" where
  "libunvmed_to_meta_iova mm mbuf = meta_iomem_iova mm + (word_of_nat mbuf - word_of_nat (meta_iomem mm))"

definition libunvmed_to_iova :: "fio_mem \<Rightarrow> nat \<Rightarrow> u64" where
  "libunvmed_to_iova mm buf = orig_buffer_iova mm + (word_of_nat buf - word_of_nat (orig_buffer mm))"

end
