(* ===== verification/Fio_Queue.thy ===== *)
theory Fio_Queue
  imports Fio_Mem Timer Poll
begin

text \<open>
  The I/O path of the fio engine, \<open>src/src/app/fio/libunvmed-engine.c\<close>: a read, write, trim, flush
  or admin command is allocated, filled in and posted by \<open>fio_libunvmed_queue()\<close>, the doorbell is
  written by \<open>fio_libunvmed_commit()\<close>, and completions come back through
  \<open>fio_libunvmed_getevents()\<close> and \<open>fio_libunvmed_event()\<close>.

  An I/O is its index, which is also what \<open>cmd->opaque\<close> points to. A job is a thread with its own
  submission queue, named by its identifier.
\<close>

unbundle bit_operations_syntax

subsection \<open>State\<close>

text \<open>
  \<open>struct io_u\<close> with the addresses and the contents of its buffers: the data and metadata in
  \<open>io_mem\<close>, the copy for an unaligned first PRP, the ranges fio asks to trim (start and length in
  bytes), and the ranges of the Dataset Management command (attributes, blocks, first block).
\<close>

record fio_io = io_u +
  io_index :: nat
  io_xfer_buf :: nat
  io_buf :: nat
  io_mbuf :: nat
  io_mlen :: u64
  io_mem :: meta_options
  io_copy :: bytes
  io_number_trim :: u32
  io_trims :: "(u64 \<times> u64) list"
  io_ranges :: "(u32 \<times> u32 \<times> u64) list"
  io_ver_list :: bool
  io_ver_in_dev :: bool
  io_device_error :: bool
  io_error :: int

record fio_thread =
  ft_job :: fio_job
  ft_opts :: fio_options
  ft_data :: libunvmed_data
  ft_mem :: fio_mem
  ft_ns :: unvme_ns
  ft_sqid :: nat
  ft_cqid :: nat
  ft_vcq :: u32
  ft_ios :: "nat \<Rightarrow> fio_io"
  ft_cqes :: "nvme_cqe list"

text \<open>
  What the path relies on: the NVMe headers, the checksums, libvfn, fio's read-only check and its
  verify pattern, the log page identifiers, and the two random numbers of an abort.
\<close>

record ('m, 'r) fio_env =
  fe_defs :: fio_defs
  fe_pi :: pi_ops
  fe_ops :: "'m dma_ops"
  fe_mops :: "'m map_ops"
  fe_io :: "'r io_env"
  fe_now :: timespec
  fe_cqe_ok :: "nvme_cqe \<Rightarrow> bool"
  fe_ro_ok :: "fio_io \<Rightarrow> bool"
  fe_populate :: "bytes \<Rightarrow> bytes"
  fe_lid :: "libunvmed_admin_cmd \<Rightarrow> u8"
  fe_abort :: "u16 \<times> u16"

datatype fio_q_status = FIO_Q_COMPLETED | FIO_Q_QUEUED | FIO_Q_BUSY | FIO_Q_ERR errno

type_synonym ('m, 'r, 'z) fio_state = "fio_thread \<times> ('m, 'r, 'z) unvme_scheme"

text \<open>The numbers of the errors, on Linux.\<close>

fun errno_num :: "errno \<Rightarrow> int" where
  "errno_num EPERM = 1" | "errno_num ENOENT = 2" | "errno_num EIO = 5" | "errno_num EAGAIN = 11"
| "errno_num ENOMEM = 12" | "errno_num EFAULT = 14" | "errno_num EBUSY = 16" | "errno_num EEXIST = 17"
| "errno_num ENODEV = 19" | "errno_num EINVAL = 22" | "errno_num ENOSPC = 28" | "errno_num EBADE = 52"
| "errno_num EILSEQ = 84" | "errno_num ENOTSUP = 95" | "errno_num ETIMEDOUT = 110"
| "errno_num EALREADY = 114" | "errno_num ERRNO_UNSET = 0"

text \<open>The slices of an I/O: its metadata buffer and, for trim jobs, its part of the trim buffer.\<close>

definition fio_libunvmed_io_u_init :: "u64 \<Rightarrow> fio_thread \<Rightarrow> fio_io \<Rightarrow> fio_io" where
  "fio_libunvmed_io_u_init range_bytes t io =
     (let o' = ft_opts t; md = o_md_per_io_size o'; ix = word_of_nat (io_index io) :: u32;
          io1 = (if \<not> libunvmed_ns_meta_is_dif (ft_ns t) \<and> md \<noteq> 0
                 then io\<lparr>io_mbuf := meta_iomem (ft_mem t) + unat (md * ix), io_mlen := ucast md\<rparr>
                 else io\<lparr>io_mbuf := 0, io_mlen := 0\<rparr>);
          io2 = io1\<lparr>io_mem := io_u_init_meta (libunvmed_options.truncate o') (io_mem io1)\<rparr>
      in if td_trims (ft_job t)
         then io2\<lparr>io_buf := trim_iomem (ft_mem t) + unat (range_bytes * ucast ix)\<rparr> else io2)"

subsection \<open>Posting an entry\<close>

text \<open>
  \<open>unvmed_cmd_post()\<close> with an entry of the caller, which is what reads, writes, trims and flushes
  pass: the entry of the command itself stays as it is.
\<close>

definition unvmed_cmd_post_entry ::
  "'r io_env \<Rightarrow> timespec \<Rightarrow> nat \<times> cmd_ref \<Rightarrow> nvme_cmd \<Rightarrow> u64 \<Rightarrow> ('m, 'r, 'z) unvme_scheme
   \<Rightarrow> u16 outcome \<times> ('m, 'r, 'z) unvme_scheme" where
  "unvmed_cmd_post_entry io now p sqe flags u =
     (case sq_at (fst p) u of
        None \<Rightarrow> (Fault, u)
      | Some usq \<Rightarrow>
          (case (cmd_at usq (snd p), sq_q usq) of
             (Some c, Some q) \<Rightarrow>
               if c_rq c = None then (Fault, u)
               else
                 let c1 = c\<lparr>c_state := UNVME_CMD_S_SUBMITTED\<rparr>;
                     q1 = sq_post (io_sq io) q (sqe\<lparr>sqe_cid := c_cid c\<rparr>);
                     usq1 = (cmd_set usq (snd p) c1)\<lparr>sq_q := Some q1\<rparr>;
                     usq2 = (if timeout u \<noteq> 0 then unvmed_cmd_add_timer now (timeout u) (snd p) c1 usq1
                             else usq1);
                     usq3 = (if flags AND UNVMED_CMD_F_NODB = 0
                             then usq2\<lparr>sq_q := Some (sq_ring (io_sq io) q1)\<rparr> else usq2) in
                 (Ok (nsq_tail q), sq_store (fst p) usq3 (u\<lparr>nr_cmds := nr_cmds u + 1\<rparr>))
           | _ \<Rightarrow> (Fault, u)))"

text \<open>The end of each of the functions: the command is tied to the I/O and posted without doorbell.\<close>

definition post_io ::
  "('m, 'r) fio_env \<Rightarrow> nat \<Rightarrow> nat \<times> cmd_ref \<Rightarrow> unvme_cmd \<Rightarrow> nvme_cmd \<Rightarrow> ('m, 'r, 'z) fio_state
   \<Rightarrow> fio_q_status outcome \<times> ('m, 'r, 'z) fio_state" where
  "post_io E i p c sqe = (\<lambda>(t, u).
     case unvmed_cmd_post_entry (fe_io E) (fe_now E) p sqe UNVMED_CMD_F_NODB
            (set_command p (c\<lparr>c_opaque := i, c_vcq := ft_vcq t\<rparr>) u) of
       (Ok _, u1) \<Rightarrow> (Ok FIO_Q_QUEUED, t, u1)
     | (Fail e, u1) \<Rightarrow> (Fail e, t, u1)
     | (Fault, u1) \<Rightarrow> (Fault, t, u1))"

text \<open>
  The error path: the command is put and the error is returned. Putting the command is taken not
  to change \<open>errno\<close>.
\<close>

definition drop_io ::
  "('m, 'r) fio_env \<Rightarrow> nat \<times> cmd_ref \<Rightarrow> errno \<Rightarrow> ('m, 'r, 'z) fio_state
   \<Rightarrow> fio_q_status outcome \<times> ('m, 'r, 'z) fio_state" where
  "drop_io E p e = (\<lambda>(t, u).
     case cmd_put_at (fe_ops E) (fe_io E) p u of
       (Fault, u1) \<Rightarrow> (Fault, t, u1)
     | (_, u1) \<Rightarrow> (Ok (FIO_Q_ERR e), t, u1))"

text \<open>
  The start of each of the functions: a command is allocated, or the queue is busy. \<open>k\<close> goes on
  with the command.
\<close>

definition with_cmd ::
  "('m, 'r) fio_env \<Rightarrow> ('r unvme_sq \<times> ('m, 'r, 'z) unvme_scheme
     \<Rightarrow> cmd_ref outcome \<times> 'r unvme_sq \<times> ('m, 'r, 'z) unvme_scheme)
   \<Rightarrow> (nat \<times> cmd_ref \<Rightarrow> unvme_cmd \<Rightarrow> ('m, 'r, 'z) fio_state \<Rightarrow> fio_q_status outcome \<times> ('m, 'r, 'z) fio_state)
   \<Rightarrow> ('m, 'r, 'z) fio_state \<Rightarrow> fio_q_status outcome \<times> ('m, 'r, 'z) fio_state" where
  "with_cmd E alloc k = (\<lambda>(t, u).
     case on_sq (ft_sqid t) alloc u of
       (Ok r, u1) \<Rightarrow>
         (case command (ft_sqid t, r) u1 of
            None \<Rightarrow> (Fault, t, u1)
          | Some c \<Rightarrow> k (ft_sqid t, r) c (t, u1))
     | (Fail e, u1) \<Rightarrow> (Ok FIO_Q_BUSY, t, u1)
     | (Fault, u1) \<Rightarrow> (Fault, t, u1))"

subsection \<open>Reads and writes\<close>

text \<open>The buffer of an I/O; with an offset of the first PRP it is the slice of the copy buffer.\<close>

definition rw_buf :: "fio_thread \<Rightarrow> fio_io \<Rightarrow> nat" where
  "rw_buf t io =
     (if o_prp1_offset (ft_opts t) \<noteq> 0
      then prp_iomem (ft_mem t) + io_index io * unat (prp_iomem_usize (ft_mem t))
      else io_xfer_buf io)"

definition rw_alloc ::
  "('m, 'r) fio_env \<Rightarrow> fio_thread \<Rightarrow> fio_io \<Rightarrow> 'r unvme_sq \<times> ('m, 'r, 'z) unvme_scheme
   \<Rightarrow> cmd_ref outcome \<times> 'r unvme_sq \<times> ('m, 'r, 'z) unvme_scheme" where
  "rw_alloc E t io =
     (if io_mlen io \<noteq> 0
      then unvmed_alloc_cmd_meta (fe_ops E) (io_sq (fe_io E)) None (rw_buf t io) (xfer_buflen io)
             (io_mbuf io) (io_mlen io)
      else unvmed_alloc_cmd (fe_ops E) (io_sq (fe_io E)) None (rw_buf t io) (xfer_buflen io))"

text \<open>A write is copied to the copy buffer; a read of the verify phase becomes a compare.\<close>

definition rw_copy :: "fio_options \<Rightarrow> fio_io \<Rightarrow> fio_io" where
  "rw_copy o' io =
     (if o_prp1_offset o' \<noteq> 0 \<and> io_ddir io = DDIR_WRITE then io\<lparr>io_copy := xfer_buf (io_mem io)\<rparr> else io)"

definition rw_compares :: "fio_options \<Rightarrow> fio_io \<Rightarrow> bool" where
  "rw_compares o' io \<longleftrightarrow> io_ver_list io \<and> io_ddir io = DDIR_READ \<and> o_verify_mode o' = FIO_URING_CMD_VMODE_COMPARE"

definition rw_verify :: "('m, 'r) fio_env \<Rightarrow> fio_options \<Rightarrow> fio_io \<Rightarrow> fio_io" where
  "rw_verify E o' io =
     (if rw_compares o' io
      then io\<lparr>io_mem := (io_mem io)\<lparr>xfer_buf := fe_populate E (xfer_buf (io_mem io))\<rparr>, io_ver_in_dev := True\<rparr>
      else io)"

text \<open>The entry; \<open>cdw12\<close> is the number of blocks and the control word of a read or write.\<close>

definition rw_sqe :: "fio_defs \<Rightarrow> fio_thread \<Rightarrow> fio_io \<Rightarrow> u64 \<Rightarrow> u32 \<Rightarrow> nvme_cmd" where
  "rw_sqe d t io slba nlb =
     (let cdw12 = cdw12_flags (ft_data t) (io_ddir io) OR nlb in
      zero_sqe\<lparr>sqe_opcode := (if io_ddir io = DDIR_READ
                                then (if rw_compares (ft_opts t) io then d_compare d else d_read d)
                                else ld_write_opcode (ft_data t)),
               sqe_nsid := nsid (ft_ns t), sqe_slba := slba, sqe_nlb := ucast cdw12,
               sqe_control := ucast (drop_bit 16 cdw12), sqe_cdw13 := cdw13_flags (ft_data t) (io_ddir io)\<rparr>)"

definition rw_fill ::
  "('m, 'r) fio_env \<Rightarrow> fio_thread \<Rightarrow> fio_io \<Rightarrow> nvme_cmd \<Rightarrow> (nvme_cmd \<times> meta_options) option" where
  "rw_fill E t io sqe =
     (if libunvmed_pi_enabled (fe_defs E) (ft_ns t)
      then libunvmed_fill_pi (fe_pi E) (fe_defs E) (ft_ns t) (libunvmed_options.truncate (ft_opts t))
             (io_u.truncate io) sqe (io_mem io)
      else Some (sqe, io_mem io))"

text \<open>The data pointer, written into the entry of the caller.\<close>

definition rw_map ::
  "('m, 'r) fio_env \<Rightarrow> fio_thread \<Rightarrow> fio_io \<Rightarrow> 'm \<Rightarrow> unvme_cmd \<Rightarrow> nvme_cmd \<Rightarrow> unit outcome \<times> unvme_cmd" where
  "rw_map E t io m c sqe =
     (let d = fe_defs E; lst = prp_list_of (ft_mem t) (io_index io) in
      if o_enable_sgl (ft_opts t)
      then unvmed_mapv_sgl_seg_u2 (fe_mops E) m lst (libunvmed_to_prp_list_iova (ft_mem t) lst) (buf_iov c) 1
             (c\<lparr>c_sqe := sqe\<lparr>sqe_flags := sqe_flags sqe OR push_bit (d_psdt_shift d) (d_psdt_sgl d)\<rparr>\<rparr>)
      else unvmed_mapv_prp_list_u2 (fe_mops E) m lst (prp_list_nr_lists (ft_mem t)) (buf_iov c) 1
             (c\<lparr>c_sqe := sqe\<rparr>))"

text \<open>Metadata with scatter-gather lists is refused after the command was allocated, which is not put.\<close>

definition rw_post ::
  "('m, 'r) fio_env \<Rightarrow> nat \<Rightarrow> fio_io \<Rightarrow> nat \<times> cmd_ref \<Rightarrow> unvme_cmd \<Rightarrow> nvme_cmd \<Rightarrow> ('m, 'r, 'z) fio_state
   \<Rightarrow> fio_q_status outcome \<times> ('m, 'r, 'z) fio_state" where
  "rw_post E i io p c sqe s =
     (if io_mbuf io \<noteq> 0
      then (if o_enable_sgl (ft_opts (fst s)) then (Ok (FIO_Q_ERR EINVAL), s)
            else post_io E i p c (sqe\<lparr>sqe_mptr := libunvmed_to_meta_iova (ft_mem (fst s)) (io_mbuf io)\<rparr>) s)
      else post_io E i p c sqe s)"

definition rw_submit ::
  "('m, 'r) fio_env \<Rightarrow> nat \<Rightarrow> u64 \<Rightarrow> u32 \<Rightarrow> nat \<times> cmd_ref \<Rightarrow> unvme_cmd \<Rightarrow> ('m, 'r, 'z) fio_state
   \<Rightarrow> fio_q_status outcome \<times> ('m, 'r, 'z) fio_state" where
  "rw_submit E i slba nlb p c = (\<lambda>(t, u).
     let io = ft_ios t i; io1 = rw_verify E (ft_opts t) (rw_copy (ft_opts t) io) in
     case rw_fill E t io1 (rw_sqe (fe_defs E) t io slba nlb) of
       None \<Rightarrow> (Fault, t, u)
     | Some (sqe, mo) \<Rightarrow>
         let t1 = t\<lparr>ft_ios := (ft_ios t)(i := io1\<lparr>io_mem := mo\<rparr>)\<rparr>;
             c1 = c\<lparr>c_buf := (c_buf c)\<lparr>iov_base := rw_buf t io + unat (o_prp1_offset (ft_opts t)),
                                      iov_len := xfer_buflen io\<rparr>, c_sqe := sqe\<rparr>;
             u1 = set_command p c1 u in
         (case rw_map E t1 io (iommu u1) c1 sqe of
            (Ok _, c2) \<Rightarrow> rw_post E i io p c1 (c_sqe c2) (t1, u1)
          | (Fail e, _) \<Rightarrow> drop_io E p e (t1, u1)
          | (Fault, _) \<Rightarrow> (Fault, t1, u1)))"

definition fio_libunvmed_rw ::
  "('m, 'r) fio_env \<Rightarrow> nat \<Rightarrow> ('m, 'r, 'z) fio_state \<Rightarrow> fio_q_status outcome \<times> ('m, 'r, 'z) fio_state" where
  "fio_libunvmed_rw E i s =
     (let t = fst s; io = ft_ios t i in
      case (libunvmed_get_slba (ft_ns t) (io_offset io), libunvmed_get_nlba (ft_ns t) (ucast (xfer_buflen io))) of
        (Some slba, Some nlb) \<Rightarrow> with_cmd E (rw_alloc E t io) (rw_submit E i slba nlb) s
      | _ \<Rightarrow> (Fault, s))"

subsection \<open>Admin commands\<close>

definition admin_of :: "u32 \<Rightarrow> libunvmed_admin_cmd option" where
  "admin_of v = find (\<lambda>k. ucast (admin_num k) = v) admin_cmds"

definition admin_prep ::
  "('m, 'r) fio_env \<Rightarrow> fio_thread \<Rightarrow> 'm \<Rightarrow> iovecs \<Rightarrow> unvme_cmd \<Rightarrow> unit outcome \<times> unvme_cmd" where
  "admin_prep E t m iov =
     (let d = nvme_defs.truncate (fe_defs E); mops = fe_mops E; o' = ft_opts t;
          log = (\<lambda>k. unvmed_cmd_prep_get_log_page d mops m (d_nsid_all (fe_defs E)) (fe_lid E k) 4096 iov 1);
          feat = (\<lambda>fid. unvmed_cmd_prep_get_features d mops m 0 fid 0 0 0 iov 1) in
      case admin_of (o_admin_cmd o') of
        Some LIBUNVMED_ADMIN_ID_NS \<Rightarrow> unvmed_cmd_prep_id_ns d mops m (o_nsid o') iov 1
      | Some LIBUNVMED_ADMIN_ID_NSLIST \<Rightarrow> unvmed_cmd_prep_id_active_nslist d mops m (o_nsid o') iov 1
      | Some LIBUNVMED_ADMIN_ID_NVM_NS \<Rightarrow> unvmed_cmd_prep_nvm_id_ns d mops m (o_nsid o') iov 1
      | Some LIBUNVMED_ADMIN_ID_PRI_CTRL \<Rightarrow> unvmed_cmd_prep_id_primary_ctrl_caps d mops m iov 1 (o_cntlid o')
      | Some LIBUNVMED_ADMIN_ID_SEC_CTRL_LIST \<Rightarrow> unvmed_cmd_prep_id_secondary_ctrl_list d mops m iov 1 (o_cntlid o')
      | Some LIBUNVMED_ADMIN_GET_LOG_SMART \<Rightarrow> log LIBUNVMED_ADMIN_GET_LOG_SMART
      | Some LIBUNVMED_ADMIN_GET_LOG_ERROR \<Rightarrow> log LIBUNVMED_ADMIN_GET_LOG_ERROR
      | Some LIBUNVMED_ADMIN_GET_LOG_FW_SLOT \<Rightarrow> log LIBUNVMED_ADMIN_GET_LOG_FW_SLOT
      | Some LIBUNVMED_ADMIN_GET_LOG_CMD_EFFECTS \<Rightarrow> log LIBUNVMED_ADMIN_GET_LOG_CMD_EFFECTS
      | Some LIBUNVMED_ADMIN_GET_LOG_PERSISTENT_EVENT \<Rightarrow> log LIBUNVMED_ADMIN_GET_LOG_PERSISTENT_EVENT
      | Some LIBUNVMED_ADMIN_GET_FEAT_ARBITRATION \<Rightarrow> feat 0x01
      | Some LIBUNVMED_ADMIN_GET_FEAT_POWER_MGMT \<Rightarrow> feat 0x02
      | Some LIBUNVMED_ADMIN_GET_FEAT_TEMP_THRESHOLD \<Rightarrow> feat 0x04
      | Some LIBUNVMED_ADMIN_GET_FEAT_NUM_QUEUES \<Rightarrow> feat 0x07
      | Some LIBUNVMED_ADMIN_GET_FEAT_VOLATILE_WC \<Rightarrow> feat 0x06
      | Some LIBUNVMED_ADMIN_GET_FEAT_TIMESTAMP \<Rightarrow> feat 0x0e
      | _ \<Rightarrow> unvmed_cmd_prep_id_ctrl d mops m iov 1)"

text \<open>The entry of the command itself is posted.\<close>

definition admin_post ::
  "('m, 'r) fio_env \<Rightarrow> nat \<Rightarrow> nat \<times> cmd_ref \<Rightarrow> unit outcome \<times> unvme_cmd \<Rightarrow> ('m, 'r, 'z) fio_state
   \<Rightarrow> fio_q_status outcome \<times> ('m, 'r, 'z) fio_state" where
  "admin_post E i p r = (\<lambda>(t, u).
     case r of
       (Ok _, c) \<Rightarrow>
         (case unvmed_cmd_post (fe_io E) (fe_now E) p UNVMED_CMD_F_NODB
                 (set_command p (c\<lparr>c_opaque := i, c_vcq := ft_vcq t\<rparr>) u) of
            (Ok _, u1) \<Rightarrow> (Ok FIO_Q_QUEUED, t, u1)
          | (Fail e, u1) \<Rightarrow> (Fail e, t, u1)
          | (Fault, u1) \<Rightarrow> (Fault, t, u1))
     | (Fail e, c) \<Rightarrow> drop_io E p e (t, set_command p c u)
     | (Fault, c) \<Rightarrow> (Fault, t, set_command p c u))"

definition fio_libunvmed_admin ::
  "('m, 'r) fio_env \<Rightarrow> nat \<Rightarrow> ('m, 'r, 'z) fio_state \<Rightarrow> fio_q_status outcome \<times> ('m, 'r, 'z) fio_state" where
  "fio_libunvmed_admin E i s =
     (let t = fst s; buf = io_xfer_buf (ft_ios t i); len = d_identify_size (fe_defs E) in
      if admin_of (o_admin_cmd (ft_opts t)) = Some LIBUNVMED_ADMIN_ABORT
      then with_cmd E (unvmed_alloc_cmd_nodata (fe_ops E) (io_sq (fe_io E)) None)
             (\<lambda>p c. admin_post E i p
                (Ok (), unvmed_cmd_prep_abort (nvme_defs.truncate (fe_defs E)) (fst (fe_abort E)) (snd (fe_abort E)) c)) s
      else with_cmd E (unvmed_alloc_cmd (fe_ops E) (io_sq (fe_io E)) None buf len)
             (\<lambda>p c s1. admin_post E i p (admin_prep E t (iommu (snd s1)) [(buf, len)] c) s1) s)"

subsection \<open>Trims and flushes\<close>

text \<open>The ranges of the command, with the number of blocks counted from one.\<close>

fun trim_ranges :: "unvme_ns \<Rightarrow> (u64 \<times> u64) list \<Rightarrow> (u32 \<times> u32 \<times> u64) list option" where
  "trim_ranges ns [] = Some []"
| "trim_ranges ns ((start, len) # rs) =
     (case (libunvmed_get_nlba ns (ucast len), libunvmed_get_slba ns start, trim_ranges ns rs) of
        (Some nlb, Some slba, Some xs) \<Rightarrow> Some ((0, nlb + 1, slba) # xs)
      | _ \<Rightarrow> None)"

definition trim_submit ::
  "('m, 'r) fio_env \<Rightarrow> nat \<Rightarrow> u64 \<Rightarrow> u32 \<Rightarrow> nat \<times> cmd_ref \<Rightarrow> unvme_cmd \<Rightarrow> ('m, 'r, 'z) fio_state
   \<Rightarrow> fio_q_status outcome \<times> ('m, 'r, 'z) fio_state" where
  "trim_submit E i slba nlb p c = (\<lambda>(t, u).
     let io = ft_ios t i; d = fe_defs E; one = (num_range (ft_job t) = 1);
         sqe = zero_sqe\<lparr>sqe_opcode := d_dsm d, sqe_nsid := nsid (ft_ns t),
                 sqe_cdw10 := (if one then 0 else io_number_trim io - 1), sqe_cdw11 := d_dsmgmt_ad d\<rparr> in
     case (if one then Some [(0, nlb + 1, slba)]
           else if length (io_trims io) < unat (io_number_trim io) then None
           else trim_ranges (ft_ns t) (take (unat (io_number_trim io)) (io_trims io))) of
       None \<Rightarrow> (Fault, t, u)
     | Some rs \<Rightarrow>
         let t1 = t\<lparr>ft_ios := (ft_ios t)(i := io\<lparr>io_ranges := rs\<rparr>)\<rparr> in
         (case unvmed_mapv_prp_u2 (fe_mops E) (iommu u) (buf_iov c) 1 (c\<lparr>c_sqe := sqe\<rparr>) of
            (Ok _, c2) \<Rightarrow> post_io E i p c (c_sqe c2) (t1, u)
          | (Fail e, _) \<Rightarrow> drop_io E p e (t1, u)
          | (Fault, _) \<Rightarrow> (Fault, t1, u)))"

definition trim_buf :: "fio_io \<Rightarrow> nat" where
  "trim_buf io = (if io_xfer_buf io = 0 \<and> 0 < xfer_buflen io then io_buf io else io_xfer_buf io)"

text \<open>
  The array of ranges that the code allocates for more than one range, and never frees, is the list
  \<open>io_ranges\<close> of the I/O here: its memory is not counted among what a job holds.
\<close>

definition fio_libunvmed_trim ::
  "('m, 'r) fio_env \<Rightarrow> nat \<Rightarrow> ('m, 'r, 'z) fio_state \<Rightarrow> fio_q_status outcome \<times> ('m, 'r, 'z) fio_state" where
  "fio_libunvmed_trim E i s =
     (let t = fst s; io = ft_ios t i in
      case (libunvmed_get_slba (ft_ns t) (io_offset io), libunvmed_get_nlba (ft_ns t) (ucast (xfer_buflen io))) of
        (Some slba, Some nlb) \<Rightarrow>
          with_cmd E (unvmed_alloc_cmd (fe_ops E) (io_sq (fe_io E)) None (trim_buf io) 4096)
            (trim_submit E i slba nlb) s
      | _ \<Rightarrow> (Fault, s))"

definition fio_libunvmed_fsync ::
  "('m, 'r) fio_env \<Rightarrow> nat \<Rightarrow> ('m, 'r, 'z) fio_state \<Rightarrow> fio_q_status outcome \<times> ('m, 'r, 'z) fio_state" where
  "fio_libunvmed_fsync E i s =
     with_cmd E (unvmed_alloc_cmd_nodata (fe_ops E) (io_sq (fe_io E)) None)
       (\<lambda>p c. post_io E i p c
          (zero_sqe\<lparr>sqe_opcode := d_flush (fe_defs E), sqe_nsid := nsid (ft_ns (fst s))\<rparr>)) s"

subsection \<open>Queueing and committing\<close>

definition queue_op ::
  "('m, 'r) fio_env \<Rightarrow> nat \<Rightarrow> fio_thread
   \<Rightarrow> (('m, 'r, 'z) fio_state \<Rightarrow> fio_q_status outcome \<times> ('m, 'r, 'z) fio_state) option" where
  "queue_op E i t =
     (case io_ddir (ft_ios t i) of
        DDIR_TRIM \<Rightarrow> Some (fio_libunvmed_trim E i)
      | DDIR_SYNC \<Rightarrow> Some (fio_libunvmed_fsync E i)
      | DDIR_OTHER \<Rightarrow> None
      | _ \<Rightarrow> Some (if o_admin_cmd (ft_opts t) \<noteq> 0 then fio_libunvmed_admin E i else fio_libunvmed_rw E i))"

definition add_queued :: "u32 \<Rightarrow> fio_thread \<Rightarrow> fio_thread" where
  "add_queued n t = t\<lparr>ft_data := (ft_data t)\<lparr>nr_queued := nr_queued (ft_data t) + n\<rparr>\<rparr>"

definition fio_libunvmed_queue ::
  "('m, 'r) fio_env \<Rightarrow> nat \<Rightarrow> ('m, 'r, 'z) fio_state \<Rightarrow> fio_q_status outcome \<times> ('m, 'r, 'z) fio_state" where
  "fio_libunvmed_queue E i = (\<lambda>(t, u).
     if nr_queued (ft_data t) = iodepth (ft_job t) then (Ok FIO_Q_BUSY, t, u)
     else case unvmed_sq_try_enter (ft_sqid t) u of
       (False, u1) \<Rightarrow> (Ok FIO_Q_BUSY, t, u1)
     | (True, u1) \<Rightarrow>
         if \<not> unvmed_sq_ready (sq_at (ft_sqid t) u1) then (Ok FIO_Q_BUSY, t, unvmed_sq_exit (ft_sqid t) u1)
         else if \<not> fe_ro_ok E (ft_ios t i) then (Fault, t, u1)
         else (case queue_op E i t of
                 None \<Rightarrow>
                   (Ok FIO_Q_COMPLETED,
                    t\<lparr>ft_ios := (ft_ios t)(i := (ft_ios t i)\<lparr>io_error := - errno_num ENOTSUP\<rparr>)\<rparr>,
                    unvmed_sq_exit (ft_sqid t) u1)
               | Some f \<Rightarrow>
                   (case f (t, u1) of
                      (Ok ret, t2, u2) \<Rightarrow> (Ok ret, add_queued 1 t2, unvmed_sq_exit (ft_sqid t) u2)
                    | r \<Rightarrow> r)))"

text \<open>The result is the number of entries that fio counts as submitted.\<close>

definition fio_libunvmed_commit ::
  "('m, 'r) fio_env \<Rightarrow> ('m, 'r, 'z) fio_state \<Rightarrow> int outcome \<times> ('m, 'r, 'z) fio_state" where
  "fio_libunvmed_commit E = (\<lambda>(t, u).
     case unvmed_sq_try_enter (ft_sqid t) u of
       (False, u1) \<Rightarrow> (Ok 0, t, u1)
     | (True, u1) \<Rightarrow>
         (case sq_at (ft_sqid t) u1 of
            None \<Rightarrow> (Fault, t, u1)
          | Some usq \<Rightarrow>
              if \<not> unvmed_sq_ready (Some usq) \<and> sq_refcnt usq = 1
              then (Ok 0, t, unvmed_sq_exit (ft_sqid t) u1)
              else (case unvmed_sq_update_tail (fe_io E) (ft_sqid t) u1 of
                      (r, u2) \<Rightarrow> (r, t, unvmed_sq_exit (ft_sqid t) u2))))"

subsection \<open>Completions\<close>

text \<open>The status in eleven bits, as an \<open>int\<close>; a command that timed out has a negative one.\<close>

definition event_status :: "nvme_cqe \<Rightarrow> int" where
  "event_status cqe =
     (case unvmed_cqe_status cqe of Inr st \<Rightarrow> uint st | Inl e \<Rightarrow> - errno_num e) mod 2048"

text \<open>The bytes at the start of a buffer, overwritten by \<open>memcpy()\<close>.\<close>

definition event_copy :: "fio_options \<Rightarrow> fio_io \<Rightarrow> fio_io" where
  "event_copy o' io =
     (if o_prp1_offset o' \<noteq> 0 \<and> io_ddir io = DDIR_READ
      then io\<lparr>io_mem := (io_mem io)\<lparr>xfer_buf :=
             overwrite (take (unat (xfer_buflen io)) (io_copy io)) (xfer_buf (io_mem io))\<rparr>\<rparr>
      else io)"

definition event_verify :: "('m, 'r) fio_env \<Rightarrow> fio_thread \<Rightarrow> fio_io \<Rightarrow> int option" where
  "event_verify E t io =
     (if libunvmed_pi_enabled (fe_defs E) (ft_ns t) \<and> io_ddir io = DDIR_READ \<and> \<not> o_pi_act (ft_opts t)
      then (case libunvmed_verify_pi (fe_pi E) (fe_defs E) (ft_ns t) (libunvmed_options.truncate (ft_opts t))
                   (io_u.truncate io) (io_mem io) of
              None \<Rightarrow> None
            | Some (Inl e) \<Rightarrow> Some (- errno_num e)
            | Some (Inr _) \<Rightarrow> Some 0)
      else Some 0)"

definition event_io :: "('m, 'r) fio_env \<Rightarrow> fio_thread \<Rightarrow> nvme_cqe \<Rightarrow> fio_io \<Rightarrow> fio_io option" where
  "event_io E t cqe io =
     (if \<not> fe_cqe_ok E cqe then Some (io\<lparr>io_error := event_status cqe\<rparr>)
      else if o_admin_cmd (ft_opts t) \<noteq> 0 then Some (io\<lparr>io_error := 0\<rparr>)
      else let io1 = event_copy (ft_opts t) io in
           map_option (\<lambda>e. io1\<lparr>io_error := e\<rparr>) (event_verify E t io1))"

definition event_finish :: "fio_io \<Rightarrow> fio_io" where
  "event_finish io = io\<lparr>io_device_error := 0 < io_error io, io_error := \<bar>io_error io\<bar>\<rparr>"

text \<open>
  \<open>fio_libunvmed_event()\<close> returns the I/O of a completion. Its two assertions are faults; the
  conflict slot is not looked at.
\<close>

definition fio_libunvmed_event ::
  "('m, 'r) fio_env \<Rightarrow> nat \<Rightarrow> ('m, 'r, 'z) fio_state \<Rightarrow> nat outcome \<times> ('m, 'r, 'z) fio_state" where
  "fio_libunvmed_event E k = (\<lambda>(t, u).
     case (nth_opt (ft_cqes t) k, sq_at (ft_sqid t) u) of
       (Some cqe, Some usq) \<Rightarrow>
         (case unvmed_get_cmd (cqe_cid cqe) usq of
            Ok (Some r) \<Rightarrow>
              (case cmd_at usq r of
                 None \<Rightarrow> (Fault, t, u)
               | Some c \<Rightarrow>
                   if unat (sqid cqe) \<noteq> sq_id usq then (Fault, t, u)
                   else (case event_io E t cqe (ft_ios t (c_opaque c)) of
                           None \<Rightarrow> (Fault, t, u)
                         | Some io \<Rightarrow>
                             (case cmd_put_at (fe_ops E) (fe_io E) (ft_sqid t, r) u of
                                (Fault, u1) \<Rightarrow> (Fault, t, u1)
                              | (_, u1) \<Rightarrow>
                                  (Ok (c_opaque c),
                                   add_queued (- 1) (t\<lparr>ft_ios := (ft_ios t)(c_opaque c := event_finish io)\<rparr>), u1))))
          | _ \<Rightarrow> (Fault, t, u))
     | _ \<Rightarrow> (Fault, t, u))"

text \<open>
  The loop of \<open>fio_libunvmed_getevents()\<close> until \<open>mn\<close> completions are there. \<open>run n\<close> takes up to \<open>n\<close>
  completions without waiting, \<open>term\<close> is what the loop reads from \<open>ld->terminate\<close> with that many
  rounds of fuel left, and \<open>None\<close> is a loop that still waits. The flag in the result says that the
  job was terminated.
\<close>

fun getevents_loop ::
  "nat \<Rightarrow> (nat \<Rightarrow> bool) \<Rightarrow> (nat \<Rightarrow> 's \<Rightarrow> (nvme_cqe list outcome \<times> 's) option) \<Rightarrow> nat \<Rightarrow> nvme_cqe list \<Rightarrow> 's
   \<Rightarrow> ((nvme_cqe list \<times> bool) outcome \<times> 's) option" where
  "getevents_loop fuel term run mn es u =
     (if mn \<le> length es then Some (Ok (es, False), u)
      else case fuel of
             0 \<Rightarrow> None
           | Suc fuel' \<Rightarrow>
               thenb (run (mn - length es) u) (\<lambda>es1 u1.
                 if term fuel'
                 then thenb (run (mn - length (es @ es1)) u1) (\<lambda>es2 u2. Some (Ok (es @ es1 @ es2, True), u2))
                 else getevents_loop fuel' term run mn (es @ es1) u1))"

declare getevents_loop.simps [simp del]

definition getevents_run ::
  "nat \<Rightarrow> (nat \<Rightarrow> bool) \<Rightarrow> (nat \<Rightarrow> 's \<Rightarrow> (nvme_cqe list outcome \<times> 's) option) \<Rightarrow> nat \<Rightarrow> nat \<Rightarrow> 's
   \<Rightarrow> (nvme_cqe list outcome \<times> 's) option" where
  "getevents_run fuel term run mn mx u =
     thenb (getevents_loop fuel term run mn [] u) (\<lambda>(es, done) u1.
       if done \<or> mx \<le> length es then Some (Ok es, u1)
       else thenb (run (mx - length es) u1) (\<lambda>es1 u2. Some (Ok (es @ es1), u2)))"

text \<open>
  The completions are stored in \<open>ld->cqes\<close>, which has one entry for each I/O of the depth. \<open>opened\<close>
  says that the file was opened, \<open>iolog\<close> that the job replays a log.
\<close>

definition fio_libunvmed_getevents ::
  "nat \<Rightarrow> nat \<Rightarrow> (nat \<Rightarrow> bool) \<Rightarrow> (('m, 'r, 'z) unvme_scheme \<Rightarrow> ('m, 'r, 'z) unvme_scheme)
   \<Rightarrow> ('m, 'r) fio_env \<Rightarrow> bool \<Rightarrow> bool \<Rightarrow> nat \<Rightarrow> nat \<Rightarrow> ('m, 'r, 'z) fio_state
   \<Rightarrow> (nat outcome \<times> ('m, 'r, 'z) fio_state) option" where
  "fio_libunvmed_getevents fuel rounds term world E iolog opened mn mx = (\<lambda>(t, u).
     if iolog \<and> \<not> opened then Some (Ok 0, t, u)
     else case getevents_run fuel term
                 (\<lambda>n. unvmed_cq_run_n_u2 rounds world (fe_io E) (ft_sqid t) (ft_cqid t) (Some (unat (ft_vcq t))) n True)
                 mn mx u of
       None \<Rightarrow> None
     | Some (Ok es, u1) \<Rightarrow>
         Some (if length (ft_cqes t) < length es then Fault else Ok (length es),
               t\<lparr>ft_cqes := overwrite es (ft_cqes t)\<rparr>, u1)
     | Some (Fail e, u1) \<Rightarrow> Some (Fail e, t, u1)
     | Some (Fault, u1) \<Rightarrow> Some (Fault, t, u1))"

text \<open>The size of the namespace that fio is told (\<open>fio_libunvmed_get_file_size()\<close>).\<close>

definition real_file_size :: "unvme_ns \<Rightarrow> u64" where
  "real_file_size ns = ucast (lba_size ns) * nr_lbas ns"

end
