(* ===== verification/Fio_Job.thy ===== *)
theory Fio_Job
  imports Fio_Queue Registry Bdf
begin

text \<open>
  The life of a fio job, \<open>src/src/app/fio/libunvmed-engine.c\<close>: \<open>fio_libunvmed_init()\<close> takes
  references to the controller and the namespace and allocates the buffers of the engine,
  \<open>fio_libunvmed_open_file()\<close> takes the queues, maps the buffers of fio and creates the virtual
  completion queue, \<open>fio_libunvmed_close_file()\<close> and \<open>fio_libunvmed_cleanup()\<close> give everything back.
  The functions run one at a time, under \<open>g_serialize\<close>, a default mutex, whose lock does not fail.
\<close>

unbundle bit_operations_syntax

subsection \<open>State\<close>

text \<open>The globals that the jobs share, with the pool of virtual completion queues.\<close>

record fio_shared =
  g_initialized_threads :: int
  g_total_threads :: int
  g_all_threads_initialized :: bool
  vcq_ids_pool :: vcq_pool

text \<open>
  What \<open>struct thread_data\<close> tells about the thread: its number and identity, the callback entry it
  registers, whether fio verifies, and the address and the memory of the thread's \<open>__vcq\<close>.
\<close>

record fio_td =
  td_thread_number :: u32
  td_tid :: int
  td_callback :: nat
  td_verify :: bool
  td_vcq :: nat
  td_vcqe :: "unvme_vcqe list option"

type_synonym ('m, 'r, 'z) job_state = "fio_thread \<times> fio_shared \<times> ('m, 'r, 'z) unvme_inst_scheme"

definition zero_mem :: fio_mem where
  "zero_mem = \<lparr>orig_buffer = 0, orig_buffer_size = 0, orig_buffer_iova = 0, prp_iomem = 0,
     prp_iomem_size = 0, prp_iomem_usize = 0, prp_list_iomem = 0, prp_list_iomem_size = 0,
     prp_list_iomem_usize = 0, prp_list_nr_lists = 0, prp_list_iomem_iova = 0, meta_iomem = 0,
     meta_iomem_size = 0, meta_iomem_iova = 0, trim_iomem = 0, trim_iomem_size = 0,
     trim_iomem_iova = 0, ld_epoch = 0\<rparr>"

definition fresh_data :: libunvmed_data where
  "fresh_data = \<lparr>ld_write_opcode = 0, cdw12_flags = (\<lambda>_. 0), cdw13_flags = (\<lambda>_. 0), nr_queued = 0,
     abort_sqid_max = 0, abort_cid_max = 0\<rparr>"

definition unvmed_get_epoch :: "('m, 'r, 'z) unvme_inst_scheme \<Rightarrow> u32" where
  "unvmed_get_epoch u = epoch u"

subsection \<open>Initialisation\<close>

text \<open>
  \<open>libunvmed_init_data()\<close>: the controller by its index, the namespace, the size of the metadata of
  an I/O and the buffers. The result of \<open>unvmed_parse_bdf()\<close> is not tested, so a name that is not an
  address leaves the address unset. Nothing that was taken is given back on an error.
\<close>

definition libunvmed_init_data ::
  "'m dma_ops \<Rightarrow> u64 \<Rightarrow> string \<Rightarrow> fio_job \<Rightarrow> fio_options \<Rightarrow> ('m, 'r, 'z) controllers
   \<Rightarrow> (nat \<times> unvme_ns \<times> u32 \<times> fio_mem) outcome \<times> ('m, 'r, 'z) controllers" where
  "libunvmed_init_data ops range_bytes name td o' g =
     (case snd (libunvmed_to_bdf name) of
        Ok addr \<Rightarrow>
          (case unvmed_get addr g of
             (Ok (Some i), g1) \<Rightarrow>
               (case unvmed_ns_get (o_nsid o') (unvme_list g1 ! i) of
                  None \<Rightarrow> (Fail EINVAL, g1)
                | Some u1 \<Rightarrow>
                    (let g2 = set_unvme i u1 g1 in
                     case (unvmed_get_max_xfer_size ops u1, unvmed_ns_find (o_nsid o') u1) of
                       (Ok sz, Some ns) \<Rightarrow>
                         if sint sz < 0 then (Fail EINVAL, g2)
                         else (case check_bs ns (sint sz) td [DDIR_READ, DDIR_WRITE, DDIR_TRIM] (o_md_per_io_size o') of
                                 Ok md \<Rightarrow>
                                   (case init_buffers ops range_bytes ns td md (zero_mem, u1) of
                                      (Ok _, mm, u2) \<Rightarrow> (Ok (i, ns, md, mm), set_unvme i u2 g1)
                                    | (Fail e, mm, u2) \<Rightarrow> (Fail e, set_unvme i u2 g1)
                                    | (Fault, mm, u2) \<Rightarrow> (Fault, set_unvme i u2 g1))
                               | Fail e \<Rightarrow> (Fail e, g2)
                               | Fault \<Rightarrow> (Fault, g2))
                     | (Fail e, _) \<Rightarrow> (Fail EINVAL, g2)
                     | _ \<Rightarrow> (Fault, g2)))
           | (Fault, g1) \<Rightarrow> (Fault, g1)
           | (_, g1) \<Rightarrow> (Fail EINVAL, g1))
      | _ \<Rightarrow> (Fault, g))"

text \<open>
  \<open>fio_libunvmed_init()\<close>, called again for a job that is initialised: \<open>t\<close> is its data, if it has
  any, with the index of its controller. The queues of a new job are not set before its file is
  opened.
\<close>

definition fio_libunvmed_init ::
  "'z fio_defs_scheme \<Rightarrow> 'm dma_ops \<Rightarrow> u64 \<Rightarrow> string \<Rightarrow> fio_job \<Rightarrow> fio_options \<Rightarrow> (nat \<Rightarrow> fio_io)
   \<Rightarrow> (nat \<times> fio_thread) option \<Rightarrow> fio_shared \<times> ('m, 'r, 'y) controllers
   \<Rightarrow> (nat \<times> fio_thread) outcome \<times> fio_shared \<times> ('m, 'r, 'y) controllers" where
  "fio_libunvmed_init d ops range_bytes name td o' ios t = (\<lambda>(sh, g).
     if \<not> libunvmed_check_constraints d td o' then (Fail ERRNO_UNSET, sh, g)
     else case t of
       Some old \<Rightarrow> (Ok old, sh, g)
     | None \<Rightarrow>
         (case libunvmed_init_data ops range_bytes name td o' g of
            (Ok (i, ns, md, mm), g1) \<Rightarrow>
              (let (o1, ld) = init_flags d td (o'\<lparr>o_md_per_io_size := md\<rparr>) fresh_data in
               (Ok (i, \<lparr>ft_job = td, ft_opts = o1, ft_data = ld, ft_mem = mm, ft_ns = ns, ft_sqid = 0, ft_cqid = 0,
                        ft_vcq = 0, ft_ios = ios, ft_cqes = replicate (unat (iodepth td)) zero_cqe\<rparr>),
                sh\<lparr>g_total_threads := g_total_threads sh + 1\<rparr>, g1))
          | (Fail e, g1) \<Rightarrow> (Fail e, sh, g1)
          | (Fault, g1) \<Rightarrow> (Fault, sh, g1)))"

definition fio_libunvmed_get_file_size ::
  "'z fio_defs_scheme \<Rightarrow> 'm dma_ops \<Rightarrow> u64 \<Rightarrow> string \<Rightarrow> fio_job \<Rightarrow> fio_options \<Rightarrow> (nat \<Rightarrow> fio_io)
   \<Rightarrow> (nat \<times> fio_thread) option \<Rightarrow> fio_shared \<times> ('m, 'r, 'y) controllers
   \<Rightarrow> u64 outcome \<times> fio_shared \<times> ('m, 'r, 'y) controllers" where
  "fio_libunvmed_get_file_size d ops range_bytes name td o' ios t s =
     (case fio_libunvmed_init d ops range_bytes name td o' ios t s of
        (Ok (i, t1), s1) \<Rightarrow> (Ok (real_file_size (ft_ns t1)), s1)
      | (Fail e, s1) \<Rightarrow> (Fail e, s1)
      | (Fault, s1) \<Rightarrow> (Fault, s1))"

subsection \<open>Opening\<close>

definition job_sqid :: "fio_td \<Rightarrow> fio_options \<Rightarrow> u32" where
  "job_sqid td o' = (if o_admin_cmd o' \<noteq> 0 then 0 else if o_sqid o' = 0 then td_thread_number td else o_sqid o')"

text \<open>The limits of the random numbers of an abort, a 16 bit subtraction.\<close>

definition abort_limits :: "fio_td \<Rightarrow> nat \<Rightarrow> fio_thread \<Rightarrow> fio_thread" where
  "abort_limits td qsize t =
     (if o_admin_cmd (ft_opts t) = ucast (admin_num LIBUNVMED_ADMIN_ABORT)
      then t\<lparr>ft_data := (ft_data t)
             \<lparr>abort_sqid_max := ucast (if 0 < td_thread_number td then td_thread_number td else 1),
              abort_cid_max := word_of_nat qsize - 1\<rparr>\<rparr>
      else t)"

text \<open>
  The part of \<open>fio_libunvmed_open_file()\<close> that holds both queues, with the sizes of the submission
  and the completion queue.
\<close>

definition open_job ::
  "'z fio_defs_scheme \<Rightarrow> 'm dma_ops \<Rightarrow> fio_td \<Rightarrow> nat \<Rightarrow> nat \<Rightarrow> ('m, 'r, 'y) job_state
   \<Rightarrow> unit outcome \<times> ('m, 'r, 'y) job_state" where
  "open_job d ops td sqsize cqsize = (\<lambda>(t, sh, u).
     if sqsize \<le> unat (iodepth (ft_job t)) then (Fail ERRNO_UNSET, t, sh, u)
     else let t1 = abort_limits td sqsize t in
       (case libunvmed_map_mems ops (o_cmb_data (ft_opts t1)) (ft_mem t1, u) of
          (Ok _, mm, u1) \<Rightarrow>
            (case libunvmed_parse_prchk d (ft_opts t1) of
               (Ok _, o1) \<Rightarrow>
                 (let t2 = t1\<lparr>ft_mem := mm, ft_opts := o1\<rparr> in
                  if libunvmed_ns_meta_is_dif (ft_ns t2) \<and> libunvmed_pi_enabled d (ft_ns t2) \<and> td_verify td
                  then (Fail ERRNO_UNSET, t2, sh, u1)
                  else if (o_write_mode o1 \<noteq> FIO_URING_CMD_WMODE_WRITE \<or> 1 < wmode_split_nr o1) \<and> \<not> td_writes (ft_job t2)
                  then (Fail ERRNO_UNSET, t2, sh, u1)
                  else case unvmed_vcq_init (vcq_ids_pool sh) (td_vcq td) cqsize (td_vcqe td) of
                    Inl (e, p) \<Rightarrow> (Fail ERRNO_UNSET, t2, sh\<lparr>vcq_ids_pool := p\<rparr>, u1)
                  | Inr (q, p, qid) \<Rightarrow>
                      (Ok (), t2\<lparr>ft_vcq := word_of_nat qid, ft_mem := mm\<lparr>ld_epoch := unvmed_get_epoch u1\<rparr>\<rparr>,
                       sh\<lparr>vcq_ids_pool := p\<rparr>,
                       unvmed_add_thread (td_tid td) (td_callback td) (u1\<lparr>vcqs := (vcqs u1)(qid \<mapsto> q)\<rparr>)))
             | (r, o1) \<Rightarrow> (r, t1\<lparr>ft_mem := mm, ft_opts := o1\<rparr>, sh, u1))
        | (r, mm, u1) \<Rightarrow> (r, t1\<lparr>ft_mem := mm\<rparr>, sh, u1)))"

text \<open>The references of a job that could not be opened are dropped, the completion queue first.\<close>

definition put_queues ::
  "nat \<Rightarrow> nat \<Rightarrow> ('m, 'r, 'z) unvme_inst_scheme \<Rightarrow> ('m, 'r, 'z) unvme_inst_scheme" where
  "put_queues i j u = snd (unvmed_sq_put i (snd (unvmed_cq_put j u)))"

definition count_opened :: "fio_shared \<Rightarrow> fio_shared" where
  "count_opened sh =
     (let n = g_initialized_threads sh + 1 in
      sh\<lparr>g_initialized_threads := n,
         g_all_threads_initialized := g_all_threads_initialized sh \<or> g_total_threads sh \<le> n\<rparr>)"

definition fio_libunvmed_open_file ::
  "'z fio_defs_scheme \<Rightarrow> 'm dma_ops \<Rightarrow> fio_td \<Rightarrow> ('m, 'r, 'y) job_state
   \<Rightarrow> unit outcome \<times> ('m, 'r, 'y) job_state" where
  "fio_libunvmed_open_file d ops td = (\<lambda>(t, sh, u).
     let qid = job_sqid td (ft_opts t); sqid = unat qid;
         t1 = t\<lparr>ft_opts := (ft_opts t)\<lparr>o_sqid := qid\<rparr>\<rparr>
     in case unvmed_sq_get sqid u of
          None \<Rightarrow> (Fail ERRNO_UNSET, t1, count_opened sh, u)
        | Some u1 \<Rightarrow>
            (case sq_at sqid u1 of
               None \<Rightarrow> (Fault, t1, sh, u1)
             | Some usq \<Rightarrow>
                 (case unvmed_cq_get (sq_ucq usq) u1 of
                    None \<Rightarrow> (Fail ERRNO_UNSET, t1\<lparr>ft_sqid := sqid\<rparr>, count_opened sh, snd (unvmed_sq_put sqid u1))
                  | Some u2 \<Rightarrow>
                      (let cqid = sq_ucq usq;
                           cqsize = (case nth_opt (cqs u2) cqid of Some (Some ucq) \<Rightarrow> cq_qsize ucq | _ \<Rightarrow> 0)
                       in case open_job d ops td (sq_qsize usq) cqsize (t1\<lparr>ft_sqid := sqid, ft_cqid := cqid\<rparr>, sh, u2) of
                            (Ok _, t2, sh2, u3) \<Rightarrow> (Ok (), t2, count_opened sh2, u3)
                          | (r, t2, sh2, u3) \<Rightarrow> (r, t2, count_opened sh2, put_queues sqid cqid u3)))))"

subsection \<open>Closing\<close>

text \<open>
  A buffer that is present is unmapped; the result is that of the last one, where a controller
  that is gone is not an error.
\<close>

definition close_unmap ::
  "'m dma_ops \<Rightarrow> bool \<times> nat \<Rightarrow> unit outcome \<times> ('m, 'z) unvme_dma_scheme \<Rightarrow> unit outcome \<times> ('m, 'z) unvme_dma_scheme" where
  "close_unmap ops b = (\<lambda>(r, u).
     if fst b
     then (case unvmed_unmap_vaddr ops (snd b) u of
             (Fail e, u1) \<Rightarrow> (if e = ENODEV then Ok () else Fail e, u1)
           | s \<Rightarrow> s)
     else (r, u))"

definition fio_libunvmed_close_file ::
  "'m dma_ops \<Rightarrow> fio_td \<Rightarrow> ('m, 'r, 'y) job_state \<Rightarrow> unit outcome \<times> ('m, 'r, 'y) job_state" where
  "fio_libunvmed_close_file ops td = (\<lambda>(t, sh, u).
     let mm = ft_mem t; u1 = unvmed_del_thread (td_tid td) u;
         (r, u2) = (if ld_epoch mm \<noteq> unvmed_get_epoch u1 then (Ok (), u1)
                    else fold (close_unmap ops)
                           [(prp_list_iomem mm \<noteq> 0, prp_list_iomem mm), (prp_iomem mm \<noteq> 0, prp_iomem mm),
                            (orig_buffer mm \<noteq> 0 \<and> \<not> o_cmb_data (ft_opts t), orig_buffer mm)] (Ok (), u1));
         u3 = put_queues (ft_sqid t) (ft_cqid t) u2; qid = unat (ft_vcq t);
         vcq = (case vcqs u3 qid of None \<Rightarrow> zero_vcq | Some q \<Rightarrow> q)
     in (r, t, sh\<lparr>vcq_ids_pool := snd (unvmed_vcq_free (vcq_ids_pool sh) vcq)\<rparr>,
         u3\<lparr>vcqs := (vcqs u3)(qid := None)\<rparr>))"

text \<open>
  \<open>fio_libunvmed_cleanup()\<close> of a job on the controller with index \<open>i\<close>. Buffers are freed in any case,
  but unmapped only when the epoch that the job remembers is that of the controller.
\<close>

definition release_buffer ::
  "'m dma_ops \<Rightarrow> bool \<Rightarrow> nat \<Rightarrow> ('m, 'z) unvme_dma_scheme \<Rightarrow> unit outcome \<times> ('m, 'z) unvme_dma_scheme" where
  "release_buffer ops stale a u = unvmed_pgunmap a (if stale then u else ignore (unvmed_unmap_vaddr ops a u))"

definition fio_libunvmed_cleanup ::
  "'m dma_ops \<Rightarrow> (nat \<Rightarrow> errno option) \<Rightarrow> nat \<Rightarrow> fio_thread \<Rightarrow> ('m, 'r, 'z) controllers
   \<Rightarrow> unit outcome \<times> ('m, 'r, 'z) controllers" where
  "fio_libunvmed_cleanup ops errs i t g =
     (let mm = ft_mem t; u = unvme_list g ! i; stale = (ld_epoch mm \<noteq> unvmed_get_epoch u) in
      case (if td_trims (ft_job t) then release_buffer ops stale (trim_iomem mm) u else (Ok (), u)) of
        (Ok _, u1) \<Rightarrow>
          (case unvmed_ns_put (nsid (ft_ns t)) u1 of
             (refcnt, u2) \<Rightarrow>
               if refcnt < 0 then (Fault, set_unvme i u2 g)
               else (case (if meta_iomem mm \<noteq> 0 then release_buffer ops stale (meta_iomem mm) u2 else (Ok (), u2)) of
                       (Ok _, u3) \<Rightarrow>
                         (case unvmed_put ops errs i (set_unvme i u3 g) of
                            (Fault, g1) \<Rightarrow> (Fault, g1) | (_, g1) \<Rightarrow> (Ok (), g1))
                     | (r, u3) \<Rightarrow> (r, set_unvme i u3 g)))
      | (r, u1) \<Rightarrow> (r, set_unvme i u1 g))"

subsection \<open>Messages\<close>

text \<open>
  \<open>fio_libunvmed_errdetails()\<close>: each part is formatted into 128 bytes, and the whole message, which
  has room for 1023 characters, can never fill up.
\<close>

definition chunk :: "string \<Rightarrow> string" where
  "chunk s = take 127 s"

definition fio_libunvmed_errdetails :: "string \<Rightarrow> fio_io \<Rightarrow> string option" where
  "fio_libunvmed_errdetails file_name io =
     (let e = word_of_int (io_error io) :: u32; sct = drop_bit 8 e AND 0x7; sc = e AND 0xff in
      if \<not> io_device_error io then None
      else Some (take 1023 (''libunvmed: '' @ chunk (file_name @ '': '') @ ''cq entry status ('' @
             chunk (''status=0x'' @ print_x 0 e @ ''(sct=0x'' @ print_x 2 sct @ '', sc=0x'' @ print_x 2 sc @ ''))''))))"

end
