(* ===== verification/Prot_Info_Facts.thy ===== *)
theory Prot_Info_Facts
  imports Prot_Info Prep_Facts
begin

text \<open>
  Facts about protection information: what the fill functions write passes the check functions, an
  injected error is detected, and the initial reference tag of the entry.

  The argument is made once, in the locale \<open>pi_format\<close>: a format is a function that fills the
  tuple of one block and one that checks it. Its laws are that a fill stays within its block and
  gives the verdict that is expected, and that a check reads its block only. The loops over the
  blocks then carry the verdict over the whole transfer. The three guard formats are its
  interpretations.
\<close>

unbundle bit_operations_syntax

subsection \<open>Bytes\<close>

lemma length_le_bytes [simp]: "length (le_bytes n x) = n"
  by (induction n arbitrary: x) auto

lemma le_val_le_bytes: "le_val (le_bytes n x) = x mod 256 ^ n"
proof (induction n arbitrary: x)
  case (Suc n)
  have "unat (word_of_nat (x mod 256) :: u8) = x mod 256"
    by (simp add: unat_of_nat)
  then show ?case
    by (simp add: Suc mod_mult2_eq)
qed simp

lemma le_val_inj: "length xs = length ys \<Longrightarrow> le_val xs = le_val ys \<Longrightarrow> xs = ys"
proof (induction xs ys rule: list_induct2)
  case (Cons x xs y ys)
  have lt: "unat x < 256" "unat y < 256"
    by (rule unat_lt_u8)+
  from Cons.prems have eq: "unat x + 256 * le_val xs = unat y + 256 * le_val ys" by simp
  from arg_cong [OF eq, of "\<lambda>n. n mod 256"] lt have "unat x = unat y" by simp
  with Cons.IH eq show ?case by (auto intro: unsigned_word_eqI)
qed simp

lemma le_val_less: "le_val xs < 256 ^ length xs"
proof (induction xs)
  case (Cons x xs)
  then show ?case using unat_lt_u8 [of x] by simp
qed simp

lemma word_le_bytes:
  "LENGTH('a::len) = 8 * n \<Longrightarrow> (word_of_nat (le_val (le_bytes n (unat w))) :: 'a word) = w"
  using unsigned_less [of w, where 'a = nat] by (simp add: le_val_le_bytes power_mult)

lemma word_le_val_inj:
  assumes "LENGTH('a::len) = 8 * length xs" "length ys = length xs"
    and "(word_of_nat (le_val xs) :: 'a word) = word_of_nat (le_val ys)"
  shows "xs = ys"
proof (rule le_val_inj)
  have lt: "le_val xs < 2 ^ LENGTH('a)" "le_val ys < 2 ^ LENGTH('a)"
    using le_val_less [of xs] le_val_less [of ys] assms(1,2) by (simp_all add: power_mult)
  have "unat (word_of_nat (le_val xs) :: 'a word) = unat (word_of_nat (le_val ys) :: 'a word)"
    using assms(3) by simp
  then show "le_val xs = le_val ys"
    using lt by (simp add: unat_of_nat)
qed (simp add: assms)

text \<open>A sequence of bytes with the lowest bit of the first one flipped.\<close>

definition flip1 :: "bytes \<Rightarrow> bytes" where
  "flip1 bs = map (\<lambda>y. y XOR 1) (take 1 bs) @ drop 1 bs"

lemma length_flip1 [simp]: "length (flip1 bs) = length bs"
  by (cases bs) (simp_all add: flip1_def)

lemma flip1_neq: "bs \<noteq> [] \<Longrightarrow> flip1 bs \<noteq> bs"
proof (cases bs)
  case (Cons x xs)
  have "x XOR 1 \<noteq> x"
  proof
    assume "x XOR 1 = x"
    then have "x XOR (x XOR 1) = x XOR x" by simp
    then show False by (simp flip: xor.assoc)
  qed
  with Cons show ?thesis by (simp add: flip1_def)
qed simp

lemma length_flip_if [simp]: "length (if p then flip1 bs else bs) = length bs"
  by simp

subsection \<open>Loads and stores\<close>

lemma ld_Some: "load xs off n = Some z \<longleftrightarrow> off + n \<le> length xs \<and> z = take n (drop off xs)"
  by (auto simp: load_def)

lemma ld_cong:
  assumes "length xs = length ys" "\<And>k. off \<le> k \<Longrightarrow> k < off + n \<Longrightarrow> xs ! k = ys ! k"
  shows "load xs off n = load ys off n"
proof (cases "off + n \<le> length xs")
  case True
  then have "take n (drop off xs) = take n (drop off ys)"
    using assms by (intro nth_equalityI) auto
  then show ?thesis using True assms(1) by (simp add: load_def)
qed (simp add: load_def assms(1))

lemma st_outcome:
  assumes "off + length bs \<le> length xs"
  obtains ys where "store xs off bs = Some ys" "length ys = length xs"
    "load ys off (length bs) = Some bs"
    "\<And>k. k < off \<or> off + length bs \<le> k \<Longrightarrow> ys ! k = xs ! k"
proof
  let ?ys = "take off xs @ bs @ drop (off + length bs) xs"
  show "store xs off bs = Some ?ys" using assms by (simp add: store_def)
  show "length ?ys = length xs" using assms by simp
  show "load ?ys off (length bs) = Some bs" using assms by (simp add: load_def)
  show "?ys ! k = xs ! k" if "k < off \<or> off + length bs \<le> k" for k
  proof (cases "k < off")
    case False
    then have "off + length bs \<le> k" using that by simp
    then obtain i where "k = off + length bs + i" by (auto dest: le_Suc_ex)
    then show ?thesis using assms by (simp add: nth_append)
  qed (use assms in \<open>simp add: nth_append\<close>)
qed

text \<open>The buffer that holds the tuples and the start of the metadata of a block in it.\<close>

definition pi_buf :: "unvme_ns \<Rightarrow> meta_options \<Rightarrow> bytes" where
  "pi_buf ns s = (if libunvmed_ns_meta_is_dif ns then xfer_buf s else mo_mbuf s)"

definition pi_pos :: "unvme_ns \<Rightarrow> nat \<Rightarrow> nat \<Rightarrow> meta_options \<Rightarrow> nat" where
  "pi_pos ns b m s = (if libunvmed_ns_meta_is_dif ns then b else m) + unat (mo_interval s)"

text \<open>What a fill never changes, and a fill that changes bytes \<open>lo\<close> to \<open>hi\<close> of a tuple only.\<close>

definition keep :: "meta_options \<Rightarrow> u32 \<times> u16 \<times> u16 \<times> nat \<times> nat" where
  "keep s = (mo_interval s, mo_apptag s, mo_apptag_mask s, length (xfer_buf s), length (mo_mbuf s))"

definition touch :: "unvme_ns \<Rightarrow> nat \<Rightarrow> nat \<Rightarrow> nat \<Rightarrow> nat \<Rightarrow> meta_options \<Rightarrow> meta_options \<Rightarrow> bool" where
  "touch ns b m lo hi s s' \<longleftrightarrow>
     keep s' = keep s
   \<and> (libunvmed_ns_meta_is_dif ns \<longrightarrow> mo_mbuf s' = mo_mbuf s)
   \<and> (\<not> libunvmed_ns_meta_is_dif ns \<longrightarrow> xfer_buf s' = xfer_buf s)
   \<and> (\<forall>k. k < pi_pos ns b m s + lo \<or> pi_pos ns b m s + hi \<le> k
         \<longrightarrow> pi_buf ns s' ! k = pi_buf ns s ! k)"

lemma keep_simps:
  assumes "keep s' = keep s"
  shows "mo_interval s' = mo_interval s" "mo_apptag s' = mo_apptag s"
    "mo_apptag_mask s' = mo_apptag_mask s" "length (xfer_buf s') = length (xfer_buf s)"
    "length (mo_mbuf s') = length (mo_mbuf s)" "pi_pos ns b m s' = pi_pos ns b m s"
    "length (pi_buf ns s') = length (pi_buf ns s)" "fill_app c s' = fill_app c s"
    "app_check c s' = app_check c s"
  using assms by (auto simp: keep_def pi_pos_def pi_buf_def fill_app_def app_check_def fun_eq_iff)

lemma touch_keep: "touch ns b m lo hi s s' \<Longrightarrow> keep s' = keep s"
  by (simp add: touch_def)

lemma touch_refl: "touch ns b m lo hi s s"
  by (simp add: touch_def)

lemma touch_trans:
  assumes "touch ns b m lo hi s s'" "touch ns b m lo' hi' s' s''"
  shows "touch ns b m (min lo lo') (max hi hi') s s''"
  using assms keep_simps(6) [OF touch_keep [OF assms(1)], of ns b m] by (auto simp: touch_def)

lemma touch_mono: "touch ns b m lo hi s s' \<Longrightarrow> lo' \<le> lo \<Longrightarrow> hi \<le> hi' \<Longrightarrow> touch ns b m lo' hi' s s'"
  by (auto simp: touch_def)

lemma touch_trans0:
  "touch ns b m lo hi s s' \<Longrightarrow> touch ns b m lo' hi' s' s'' \<Longrightarrow> hi \<le> n \<Longrightarrow> hi' \<le> n
   \<Longrightarrow> touch ns b m 0 n s s''"
  using touch_mono [OF touch_trans [of ns b m lo hi s s' lo' hi' s''], of 0 n] by simp

lemma pi_ld_alt: "pi_ld ns b m s off n = load (pi_buf ns s) (pi_pos ns b m s + off) n"
  by (simp add: pi_ld_def pi_buf_def pi_pos_def)

lemma touch_ld:
  assumes "touch ns b m lo hi s s'" "off + n \<le> lo \<or> hi \<le> off"
  shows "pi_ld ns b m s' off n = pi_ld ns b m s off n"
  using assms keep_simps(6,7) [OF touch_keep [OF assms(1)]]
  by (auto simp: pi_ld_alt touch_def intro!: ld_cong)

lemma pi_st_outcome:
  assumes "pi_pos ns b m s + off + length bs \<le> length (pi_buf ns s)"
  obtains s' where "pi_st ns b m off bs s = Some s'" "touch ns b m off (off + length bs) s s'"
    "pi_ld ns b m s' off (length bs) = Some bs"
proof (cases "libunvmed_ns_meta_is_dif ns")
  case True
  obtain ys where ys: "store (xfer_buf s) (b + unat (mo_interval s) + off) bs = Some ys"
    "length ys = length (xfer_buf s)" "load ys (b + unat (mo_interval s) + off) (length bs) = Some bs"
    "\<And>k. k < b + unat (mo_interval s) + off \<or> b + unat (mo_interval s) + off + length bs \<le> k
       \<Longrightarrow> ys ! k = xfer_buf s ! k"
    by (rule st_outcome [of "b + unat (mo_interval s) + off" bs "xfer_buf s"])
      (use assms True in \<open>auto simp: pi_pos_def pi_buf_def\<close>)
  show ?thesis
    by (rule that [of "s\<lparr>xfer_buf := ys\<rparr>"])
      (use True ys in \<open>auto simp: pi_st_def touch_def keep_def pi_ld_def pi_pos_def pi_buf_def\<close>)
next
  case False
  obtain ys where ys: "store (mo_mbuf s) (m + unat (mo_interval s) + off) bs = Some ys"
    "length ys = length (mo_mbuf s)" "load ys (m + unat (mo_interval s) + off) (length bs) = Some bs"
    "\<And>k. k < m + unat (mo_interval s) + off \<or> m + unat (mo_interval s) + off + length bs \<le> k
       \<Longrightarrow> ys ! k = mo_mbuf s ! k"
    by (rule st_outcome [of "m + unat (mo_interval s) + off" bs "mo_mbuf s"])
      (use assms False in \<open>auto simp: pi_pos_def pi_buf_def\<close>)
  show ?thesis
    by (rule that [of "s\<lparr>mo_mbuf := ys\<rparr>"])
      (use False ys in \<open>auto simp: pi_st_def touch_def keep_def pi_ld_def pi_pos_def pi_buf_def\<close>)
qed

lemma take_drop_flip1: "x # xs = bs \<Longrightarrow> flip1 bs = (x XOR 1) # xs"
  by (auto simp: flip1_def)

lemma ld_split:
  assumes "load xs off 1 = Some [y]" "load xs (Suc off) n = Some z"
  shows "load xs off (Suc n) = Some (y # z)"
proof -
  from assms have "off < length xs" "xs ! off = y"
    by (auto simp: ld_Some take_Suc hd_drop_conv_nth split: if_splits)
  then have "drop off xs = y # drop (Suc off) xs"
    by (metis Cons_nth_drop_Suc)
  with assms show ?thesis by (auto simp: ld_Some)
qed

lemma pi_put_outcome:
  assumes fit: "pi_pos ns b m s + off + length bs \<le> length (pi_buf ns s)" and ne: "bs \<noteq> []"
  obtains s' where "pi_put ns b m off bs inject s = Some s'"
    "touch ns b m off (off + length bs) s s'"
    "pi_ld ns b m s' off (length bs) = Some (if inject then flip1 bs else bs)"
proof -
  from fit obtain s1 where s1: "pi_st ns b m off bs s = Some s1"
    "touch ns b m off (off + length bs) s s1" "pi_ld ns b m s1 off (length bs) = Some bs"
    by (rule pi_st_outcome)
  show ?thesis
  proof (cases inject)
    case False
    then show ?thesis using that s1 by (simp add: pi_put_def)
  next
    case True
    obtain x xs where bs: "bs = x # xs" using ne by (cases bs) auto
    from s1(3) have rd: "pi_ld ns b m s1 off 1 = Some [x]" "pi_ld ns b m s1 (Suc off) (length xs) = Some xs"
      by (auto simp: bs pi_ld_alt ld_Some take_Suc drop_Suc drop_tl)
    from s1(2) fit have "pi_pos ns b m s1 + off + length [x XOR 1] \<le> length (pi_buf ns s1)"
      by (simp add: bs keep_simps [OF touch_keep [OF s1(2)]])
    then obtain s2 where s2: "pi_st ns b m off [x XOR 1] s1 = Some s2"
      "touch ns b m off (off + 1) s1 s2" "pi_ld ns b m s2 off 1 = Some [x XOR 1]"
      by (rule pi_st_outcome) auto
    have "pi_ld ns b m s2 (Suc off) (length xs) = Some xs"
      using touch_ld [OF s2(2), of "Suc off" "length xs"] rd(2) by simp
    with s2(3) have "pi_ld ns b m s2 off (length bs) = Some (flip1 bs)"
      by (auto simp: bs flip1_def pi_ld_alt intro!: ld_split)
    moreover have "touch ns b m off (off + length bs) s s2"
      by (rule touch_mono [OF touch_trans [OF s1(2) s2(2)]]) (auto simp: bs)
    ultimately show ?thesis
      using that [of s2] s1(1) s2(1) rd(1) True
      by (simp add: pi_put_def libunvmed_inject_err_to_meta_def)
  qed
qed

subsection \<open>The loop over the blocks\<close>

text \<open>Where the data and the metadata of block \<open>j\<close> of a transfer start.\<close>

definition blk_b :: "unvme_ns \<Rightarrow> nat \<Rightarrow> nat" where
  "blk_b ns j =
     j * (unat (lba_size ns) + (if libunvmed_ns_meta_is_dif ns then unat (ns_ms ns) else 0))"

definition blk_m :: "unvme_ns \<Rightarrow> nat \<Rightarrow> nat" where
  "blk_m ns j = (if libunvmed_ns_meta_is_dif ns then 0 else j * unat (ns_ms ns))"

lemma blk_0 [simp]: "blk_b ns 0 = 0" "blk_m ns 0 = 0"
  by (simp_all add: blk_b_def blk_m_def)

lemma pi_next_blk: "pi_next ns (blk_b ns j) (blk_m ns j) = (blk_b ns (Suc j), blk_m ns (Suc j))"
  by (simp add: pi_next_def blk_b_def blk_m_def)

lemma pi_while_step:
  assumes "unat nlb < 2 ^ 32 - 1" "j \<le> Suc (unat nlb)"
  shows "pi_while ns nlb body (word_of_nat j) (blk_b ns j) (blk_m ns j) s =
     (if j \<le> unat nlb
      then do { r \<leftarrow> body (word_of_nat j) (blk_b ns j) (blk_m ns j) s;
                case r of
                  Inl e \<Rightarrow> Some (Inl e)
                | Inr s' \<Rightarrow> pi_while ns nlb body (word_of_nat (Suc j)) (blk_b ns (Suc j))
                             (blk_m ns (Suc j)) s' }
      else Some (Inr s))"
proof -
  have "unat (word_of_nat j :: u32) = j"
    using assms by (simp add: unat_of_nat)
  then have "(word_of_nat j :: u32) \<le> nlb \<longleftrightarrow> j \<le> unat nlb"
    by (simp add: word_le_nat_alt)
  then show ?thesis
    by (subst pi_while.simps) (simp add: pi_next_blk add.commute)
qed

lemma pi_while_inv:
  assumes lt: "unat nlb < 2 ^ 32 - 1" and init: "I 0 s"
    and step: "\<And>j t. j \<le> unat nlb \<Longrightarrow> I j t
       \<Longrightarrow> \<exists>t'. body (word_of_nat j) (blk_b ns j) (blk_m ns j) t = Some (Inr t') \<and> I (Suc j) t'"
  shows "\<exists>t. pi_while ns nlb body 0 0 0 s = Some (Inr t) \<and> I (Suc (unat nlb)) t"
proof -
  have "\<exists>t. pi_while ns nlb body (word_of_nat j) (blk_b ns j) (blk_m ns j) u = Some (Inr t)
            \<and> I (Suc (unat nlb)) t"
    if "j \<le> Suc (unat nlb)" "I j u" for j u
    using that
  proof (induction "Suc (unat nlb) - j" arbitrary: j u)
    case 0
    then have "j = Suc (unat nlb)" by simp
    then show ?case using 0 pi_while_step [OF lt, of j ns body u] by simp
  next
    case (Suc n)
    then have le: "j \<le> unat nlb" by simp
    from step [OF le Suc.prems(2)] obtain t' where
      t': "body (word_of_nat j) (blk_b ns j) (blk_m ns j) u = Some (Inr t')" "I (Suc j) t'"
      by blast
    from Suc.hyps(1) [of "Suc j" t'] Suc.hyps(2) le t'(2) show ?case
      by (simp add: pi_while_step [OF lt] t'(1))
  qed
  from this [of 0 s] init show ?thesis by simp
qed

lemma pi_while_first_error:
  assumes "body 0 0 0 s = Some (Inl e)"
  shows "pi_while ns nlb body 0 0 0 s = Some (Inl e)"
  by (subst pi_while.simps) (simp add: assms)

text \<open>A block with a tuple of \<open>sz\<close> bytes lies in the buffers.\<close>

definition in_block :: "unvme_ns \<Rightarrow> nat \<Rightarrow> nat \<Rightarrow> nat \<Rightarrow> meta_options \<Rightarrow> bool" where
  "in_block ns sz b m s \<longleftrightarrow>
     (if libunvmed_ns_meta_is_dif ns
      then unat (mo_interval s) + sz \<le> unat (lba_size ns) + unat (ns_ms ns)
         \<and> b + unat (lba_size ns) + unat (ns_ms ns) \<le> length (xfer_buf s)
      else unat (mo_interval s) + sz \<le> unat (ns_ms ns)
         \<and> b + unat (lba_size ns) \<le> length (xfer_buf s)
         \<and> m + unat (ns_ms ns) \<le> length (mo_mbuf s))"

text \<open>Two states that agree on the bytes of a block.\<close>

definition same_block :: "unvme_ns \<Rightarrow> nat \<Rightarrow> nat \<Rightarrow> meta_options \<Rightarrow> meta_options \<Rightarrow> bool" where
  "same_block ns b m s s' \<longleftrightarrow>
     keep s' = keep s
   \<and> (\<forall>k. b \<le> k \<and> k < fst (pi_next ns b m) \<longrightarrow> xfer_buf s' ! k = xfer_buf s ! k)
   \<and> (\<not> libunvmed_ns_meta_is_dif ns
      \<longrightarrow> (\<forall>k. m \<le> k \<and> k < snd (pi_next ns b m) \<longrightarrow> mo_mbuf s' ! k = mo_mbuf s ! k))"

lemma in_block_keep: "keep s' = keep s \<Longrightarrow> in_block ns sz b m s' = in_block ns sz b m s"
  using keep_simps [of s' s] by (simp add: in_block_def)

lemma blk_disjoint: "i < j \<Longrightarrow> blk_b ns (Suc i) \<le> blk_b ns j \<and> blk_m ns (Suc i) \<le> blk_m ns j"
  by (auto simp: blk_b_def blk_m_def intro!: mult_le_mono1 simp del: mult_Suc)

lemma touch_other_block:
  assumes t: "touch ns (blk_b ns j) (blk_m ns j) lo hi s s'" and "i < j"
  shows "same_block ns (blk_b ns i) (blk_m ns i) s s'"
  using t blk_disjoint [OF assms(2), of ns]
  by (auto simp: same_block_def touch_def pi_next_blk pi_buf_def pi_pos_def split: if_splits)

subsection \<open>Formats\<close>

locale pi_format =
  fixes ns :: unvme_ns and sz :: nat
    and fill :: "u32 \<Rightarrow> nat \<Rightarrow> nat \<Rightarrow> meta_options \<Rightarrow> meta_options option"
    and chk :: "u32 \<Rightarrow> nat \<Rightarrow> nat \<Rightarrow> meta_options \<Rightarrow> (errno + meta_options) option"
    and expect :: "bool \<Rightarrow> u32 \<Rightarrow> meta_options \<Rightarrow> bool"
  assumes fill_verdict: "in_block ns sz b m s \<Longrightarrow> expect good i s
      \<Longrightarrow> \<exists>s'. fill i b m s = Some s' \<and> touch ns b m 0 sz s s'
            \<and> chk i b m s' = Some (if good then Inr s' else Inl EIO)"
    and chk_local: "in_block ns sz b m s \<Longrightarrow> same_block ns b m s s'
      \<Longrightarrow> chk i b m s = Some (if good then Inr s else Inl EIO)
      \<Longrightarrow> chk i b m s' = Some (if good then Inr s' else Inl EIO)"
    and expect_keep: "keep s' = keep s \<Longrightarrow> expect good i s' = expect good i s"
begin

lemma fill_loop_verdict:
  assumes lt: "unat nlb < 2 ^ 32 - 1"
    and fit: "\<And>j. j \<le> unat nlb \<Longrightarrow> in_block ns sz (blk_b ns j) (blk_m ns j) s"
    and ex: "\<And>j. j \<le> unat nlb \<Longrightarrow> expect good (word_of_nat j) s"
  shows "\<exists>t. fill_loop ns nlb fill s = Some t \<and> keep t = keep s
     \<and> (\<forall>j \<le> unat nlb. chk (word_of_nat j) (blk_b ns j) (blk_m ns j) t
                       = Some (if good then Inr t else Inl EIO))"
proof -
  let ?v = "\<lambda>j t. chk (word_of_nat j) (blk_b ns j) (blk_m ns j) t = Some (if good then Inr t else Inl EIO)"
  let ?I = "\<lambda>j t. keep t = keep s \<and> (\<forall>i < j. ?v i t)"
  have "\<exists>t. pi_while ns nlb (\<lambda>i b m s. map_option Inr (fill i b m s)) 0 0 0 s = Some (Inr t)
            \<and> ?I (Suc (unat nlb)) t"
  proof (rule pi_while_inv [OF lt])
    show "?I 0 s" by simp
    fix j t assume j: "j \<le> unat nlb" and I: "?I j t"
    from fit [OF j] I have "in_block ns sz (blk_b ns j) (blk_m ns j) t"
      using in_block_keep [of t s] by simp
    moreover from ex [OF j] I have "expect good (word_of_nat j) t"
      by (metis expect_keep)
    ultimately obtain t' where t': "fill (word_of_nat j) (blk_b ns j) (blk_m ns j) t = Some t'"
      "touch ns (blk_b ns j) (blk_m ns j) 0 sz t t'" "?v j t'"
      using fill_verdict by blast
    have "?v i t'" if "i < j" for i
    proof (rule chk_local [OF _ touch_other_block [OF t'(2) that]])
      show "in_block ns sz (blk_b ns i) (blk_m ns i) t"
        using fit [of i] that j I in_block_keep [of t s] by simp
      show "?v i t" using I that by blast
    qed
    with t'(3) have "\<forall>i < Suc j. ?v i t'" by (auto simp: less_Suc_eq)
    moreover have "keep t' = keep s" using touch_keep [OF t'(2)] I by simp
    ultimately show "\<exists>t'. map_option Inr (fill (word_of_nat j) (blk_b ns j) (blk_m ns j) t)
        = Some (Inr t') \<and> ?I (Suc j) t'"
      using t'(1) by auto
  qed
  then show ?thesis by (auto simp: fill_loop_def less_Suc_eq_le)
qed

lemma verify_all:
  assumes "unat nlb < 2 ^ 32 - 1"
    and "\<forall>j \<le> unat nlb. chk (word_of_nat j) (blk_b ns j) (blk_m ns j) t = Some (Inr t)"
  shows "pi_while ns nlb chk 0 0 0 t = Some (Inr t)"
  using pi_while_inv [OF assms(1), of "\<lambda>_ u. u = t" t chk ns] assms(2) by auto

lemma fill_then_verify:
  assumes "unat nlb < 2 ^ 32 - 1"
    and "\<And>j. j \<le> unat nlb \<Longrightarrow> in_block ns sz (blk_b ns j) (blk_m ns j) s"
    and "\<And>j. j \<le> unat nlb \<Longrightarrow> expect good (word_of_nat j) s"
  shows "\<exists>t. fill_loop ns nlb fill s = Some t \<and> keep t = keep s
     \<and> pi_while ns nlb chk 0 0 0 t = Some (if good then Inr t else Inl EIO)"
proof -
  from fill_loop_verdict [OF assms] obtain t where t: "fill_loop ns nlb fill s = Some t"
    "keep t = keep s" "\<forall>j \<le> unat nlb. chk (word_of_nat j) (blk_b ns j) (blk_m ns j) t
                       = Some (if good then Inr t else Inl EIO)"
    by blast
  have "pi_while ns nlb chk 0 0 0 t = Some (if good then Inr t else Inl EIO)"
  proof (cases good)
    case True
    then show ?thesis using verify_all [OF assms(1)] t(3) by simp
  next
    case False
    then show ?thesis using pi_while_first_error [of chk t EIO] t(3) by force
  qed
  with t show ?thesis by blast
qed

end

subsection \<open>The formats of the engine\<close>

text \<open>
  What is relied on of the byte order conversions: each pair is inverse, and a 48 bit value takes
  six bytes and loses the higher bits.
\<close>

definition pi_ops_ok :: "pi_ops \<Rightarrow> bool" where
  "pi_ops_ok c \<longleftrightarrow>
     (\<forall>x. be16_to_cpu c (cpu_to_be16 c x) = x) \<and> (\<forall>x. cpu_to_be16 c (be16_to_cpu c x) = x)
   \<and> (\<forall>x. be32_to_cpu c (cpu_to_be32 c x) = x) \<and> (\<forall>x. cpu_to_be32 c (be32_to_cpu c x) = x)
   \<and> (\<forall>x. be64_to_cpu c (cpu_to_be64 c x) = x) \<and> (\<forall>x. cpu_to_be64 c (be64_to_cpu c x) = x)
   \<and> (\<forall>v. length (put_be48 c v) = 6) \<and> (\<forall>v. get_be48 c (put_be48 c v) = take_bit 48 v)
   \<and> (\<forall>bs. length bs = 6 \<longrightarrow> put_be48 c (get_be48 c bs) = bs)"

text \<open>
  When a filled block passes its check, and when it fails it. The application tag survives its
  mask also in the byte order of the tuple, no error is injected; or an error is injected in a field
  that is checked, or the tag does not survive its mask, and the tag does not disable the checks.
\<close>

definition pi_type12 :: "'z pi_defs_scheme \<Rightarrow> unvme_ns \<Rightarrow> bool" where
  "pi_type12 d ns \<longleftrightarrow> ns_dps ns AND d_dps_pi_mask d \<in> {d_dps_type1 d, d_dps_type2 d}"

definition pi_expect ::
  "pi_ops \<Rightarrow> 'z pi_defs_scheme \<Rightarrow> unvme_ns \<Rightarrow> libunvmed_options \<Rightarrow> bool \<Rightarrow> meta_options \<Rightarrow> bool" where
  "pi_expect c d ns o' good s \<longleftrightarrow>
     pi_ops_ok c
   \<and> (prchk_on o' (d_prchk_ref d) \<longrightarrow>
        pi_type12 d ns \<or> ns_dps ns AND d_dps_pi_mask d = d_dps_type3 d)
   \<and> (if good
      then \<not> inject_on o' UNVME_ERR_GUARD \<and> \<not> inject_on o' UNVME_ERR_REFTAG
         \<and> (prchk_on o' (d_prchk_app d) \<longrightarrow> app_check c s (fill_app c s))
      else prchk_on o' (d_prchk_app d) \<and> mo_apptag s AND mo_apptag_mask s \<noteq> 0xffff
         \<and> (prchk_on o' (d_prchk_guard d) \<and> inject_on o' UNVME_ERR_GUARD
            \<or> prchk_on o' (d_prchk_ref d) \<and> inject_on o' UNVME_ERR_REFTAG \<and> pi_type12 d ns
            \<or> \<not> app_check c s (fill_app c s)))"

definition pi_expect48 ::
  "pi_ops \<Rightarrow> 'z pi_defs_scheme \<Rightarrow> unvme_ns \<Rightarrow> libunvmed_options \<Rightarrow> u64 \<Rightarrow> bool \<Rightarrow> u32
   \<Rightarrow> meta_options \<Rightarrow> bool" where
  "pi_expect48 c d ns o' slba good i s \<longleftrightarrow>
     pi_expect c d ns o' good s
   \<and> (good \<and> prchk_on o' (d_prchk_ref d) \<longrightarrow> take_bit 48 (slba + ucast i) = slba + ucast i)"

lemma pi_expect_keep:
  assumes "keep s' = keep s"
  shows "pi_expect c d ns o' good s' = pi_expect c d ns o' good s"
    "pi_expect48 c d ns o' slba good i s' = pi_expect48 c d ns o' slba good i s"
  using keep_simps [OF assms] by (simp_all add: pi_expect_def pi_expect48_def)

text \<open>The bytes a guard covers are those before the tuple, so a fill does not change it.\<close>

definition same_data :: "unvme_ns \<Rightarrow> nat \<Rightarrow> nat \<Rightarrow> meta_options \<Rightarrow> meta_options \<Rightarrow> bool" where
  "same_data ns b m s s' \<longleftrightarrow>
     mo_interval s' = mo_interval s
   \<and> (if libunvmed_ns_meta_is_dif ns
      then load (xfer_buf s') b (unat (mo_interval s)) = load (xfer_buf s) b (unat (mo_interval s))
      else load (xfer_buf s') b (unat (lba_size ns)) = load (xfer_buf s) b (unat (lba_size ns))
         \<and> load (mo_mbuf s') m (unat (mo_interval s)) = load (mo_mbuf s) m (unat (mo_interval s)))"

lemma same_data_guards:
  "same_data ns b m s s' \<Longrightarrow> guard_16b c ns b m s' = guard_16b c ns b m s"
  "same_data ns b m s s' \<Longrightarrow> guard_32b c ns b m s' = guard_32b c ns b m s"
  "same_data ns b m s s' \<Longrightarrow> guard_64b c ns b m s' = guard_64b c ns b m s"
  by (simp_all add: same_data_def guard_16b_def guard_32b_def guard_64b_def split: if_splits)

lemma touch_same_data:
  assumes "touch ns b m lo hi s s'"
  shows "same_data ns b m s s'"
  using assms keep_simps [OF touch_keep [OF assms]]
  by (auto simp: same_data_def touch_def pi_buf_def pi_pos_def intro!: ld_cong)

lemma same_block_same_data:
  assumes "same_block ns b m s s'" "in_block ns sz b m s"
  shows "same_data ns b m s s'"
proof -
  from assms(1) have "keep s' = keep s" by (simp add: same_block_def)
  from assms keep_simps [OF this] show ?thesis
    by (auto simp: same_data_def same_block_def in_block_def pi_next_def intro!: ld_cong)
qed

lemma same_block_ld:
  assumes "same_block ns b m s s'" "in_block ns sz b m s" "off + n \<le> sz"
  shows "pi_ld ns b m s' off n = pi_ld ns b m s off n"
proof -
  from assms(1) have "keep s' = keep s" by (simp add: same_block_def)
  from assms keep_simps [OF this] show ?thesis
    by (auto simp: pi_ld_def same_block_def in_block_def pi_next_def intro!: ld_cong)
qed

lemma in_block_ld:
  assumes "in_block ns sz b m s" "off + n \<le> sz"
  shows "\<exists>x. pi_ld ns b m s off n = Some x"
  using assms by (auto simp: pi_ld_def in_block_def load_def split: if_splits)

lemma in_block_guards:
  assumes "in_block ns sz b m s"
  obtains g16 g32 g64 where "guard_16b c ns b m s = Some g16" "guard_32b c ns b m s = Some g32"
    "guard_64b c ns b m s = Some g64"
  using assms
  by (auto simp: guard_16b_def guard_32b_def guard_64b_def in_block_def load_def split: if_splits)

lemma in_block_pos: "in_block ns sz b m s \<Longrightarrow> pi_pos ns b m s + sz \<le> length (pi_buf ns s)"
  by (auto simp: in_block_def pi_pos_def pi_buf_def split: if_splits)

lemma pi_checks_state:
  "pi_checks e g a r s = Some (if good then Inr s else Inl EIO)
   \<Longrightarrow> pi_checks e g a r s' = Some (if good then Inr s' else Inl EIO)"
  by (auto simp: pi_checks_def split: Option.bind_splits if_splits)

lemma pi_checks_good: "pi_checks (Some e) (Some True) (Some True) (Some True) s = Some (Inr s)"
  by (simp add: pi_checks_def)

lemma pi_checks_bad: "\<not> (g \<and> a \<and> r) \<Longrightarrow> pi_checks (Some False) (Some g) (Some a) (Some r) s = Some (Inl EIO)"
  by (simp add: pi_checks_def)

lemma pi_escape_Some: "\<exists>e. pi_escape c d ns t3 (Some x) (Some y) = Some e"
  by (auto simp: pi_escape_def Let_def)

lemma pi_escape_off: "pi_be16 c x \<noteq> 0xffff \<Longrightarrow> pi_escape c d ns t3 (Some x) y = Some False"
  by (simp add: pi_escape_def Let_def)

lemma optional_put:
  assumes "length bs = n" "0 < n" "pi_pos ns b m s + off + n \<le> length (pi_buf ns s)"
  shows "\<exists>s'. (if p then pi_put ns b m off bs inject s else Some s) = Some s'
     \<and> touch ns b m off (off + n) s s'
     \<and> (p \<longrightarrow> pi_ld ns b m s' off n = Some (if inject then flip1 bs else bs))"
proof (cases p)
  case True
  from assms have "pi_pos ns b m s + off + length bs \<le> length (pi_buf ns s)" "bs \<noteq> []" by auto
  then obtain s' where "pi_put ns b m off bs inject s = Some s'"
    "touch ns b m off (off + length bs) s s'"
    "pi_ld ns b m s' off (length bs) = Some (if inject then flip1 bs else bs)"
    by (rule pi_put_outcome)
  with True assms(1) show ?thesis by auto
qed (simp add: touch_refl)

lemma pi_st_put: "pi_st ns b m off bs s = pi_put ns b m off bs False s"
  by (simp add: pi_put_def)

lemma length_fill_app [simp]: "length (fill_app c s) = 2"
  by (simp add: fill_app_def)

lemma flip_be:
  assumes "LENGTH('a::len) = 8 * n" "0 < n"
  shows "(word_of_nat (le_val (flip1 (le_bytes n (unat w)))) :: 'a word) \<noteq> w"
proof
  assume "(word_of_nat (le_val (flip1 (le_bytes n (unat w)))) :: 'a word) = w"
  also have "w = word_of_nat (le_val (le_bytes n (unat w)))"
    by (simp add: word_le_bytes assms(1))
  finally have "flip1 (le_bytes n (unat w)) = le_bytes n (unat w)"
    by (intro word_le_val_inj [where 'a = 'a]) (simp_all add: assms(1))
  with flip1_neq [of "le_bytes n (unat w)"] assms(2) show False by (cases n) auto
qed

text \<open>
  The verdict on a tuple, from its fields: the application tag as it was filled, a guard that is
  right unless an error was injected, and likewise the reference tag.
\<close>

lemma pi_verdict:
  assumes ex: "pi_expect c d ns o' good s"
    and app: "prchk_on o' (d_prchk_app d) \<Longrightarrow> x = fill_app c s"
    and guard: "prchk_on o' (d_prchk_guard d) \<Longrightarrow> G = Some (\<not> inject_on o' UNVME_ERR_GUARD)"
    and ref: "prchk_on o' (d_prchk_ref d) \<Longrightarrow> \<exists>v. R = Some v \<and> (good \<longrightarrow> v)
                \<and> (inject_on o' UNVME_ERR_REFTAG \<longrightarrow> \<not> v)"
    and same: "app_check c s' = app_check c s"
  shows "pi_checks (pi_escape c d ns t3 (Some x) (Some y))
           (if prchk_on o' (d_prchk_guard d) then G else Some True)
           (if prchk_on o' (d_prchk_app d) then map_option (app_check c s') (Some x) else Some True)
           (if prchk_on o' (d_prchk_ref d) then ref_check d ns R else Some True) s'
         = Some (if good then Inr s' else Inl EIO)"
proof (cases good)
  case True
  obtain e where e: "pi_escape c d ns t3 (Some x) (Some y) = Some e"
    using pi_escape_Some by blast
  have "ref_check d ns R = Some True" if p: "prchk_on o' (d_prchk_ref d)"
    using ref [OF p] ex p True by (auto simp: Let_def ref_check_def pi_expect_def pi_type12_def)
  with e True ex app guard same show ?thesis by (simp add: pi_expect_def pi_checks_good)
next
  case False
  with ex have on: "prchk_on o' (d_prchk_app d)" and tag: "mo_apptag s AND mo_apptag_mask s \<noteq> 0xffff"
    and ops: "pi_ops_ok c"
    by (simp_all add: pi_expect_def)
  have "pi_be16 c x = mo_apptag s AND mo_apptag_mask s"
    using ops by (simp add: app [OF on] pi_be16_def fill_app_def word_le_bytes pi_ops_ok_def)
  with tag have e: "pi_escape c d ns t3 (Some x) (Some y) = Some False"
    by (simp add: pi_escape_off)
  have "\<exists>r. (if prchk_on o' (d_prchk_ref d) then ref_check d ns R else Some True) = Some r
     \<and> (prchk_on o' (d_prchk_ref d) \<and> inject_on o' UNVME_ERR_REFTAG \<and> pi_type12 d ns \<longrightarrow> \<not> r)"
  proof (cases "prchk_on o' (d_prchk_ref d)")
    case True
    from ref [OF True] ex show ?thesis
      using True by (auto simp: Let_def ref_check_def pi_expect_def pi_type12_def)
  qed auto
  then obtain r where r: "(if prchk_on o' (d_prchk_ref d) then ref_check d ns R else Some True) = Some r"
    "prchk_on o' (d_prchk_ref d) \<and> inject_on o' UNVME_ERR_REFTAG \<and> pi_type12 d ns \<longrightarrow> \<not> r"
    by blast
  obtain g where g: "(if prchk_on o' (d_prchk_guard d) then G else Some True) = Some g"
    "prchk_on o' (d_prchk_guard d) \<Longrightarrow> inject_on o' UNVME_ERR_GUARD \<Longrightarrow> \<not> g"
    using guard by (cases "prchk_on o' (d_prchk_guard d)") auto
  have "\<not> (g \<and> app_check c s x \<and> r)"
    using ex False g(2) r(2) app by (auto simp: pi_expect_def)
  with False e r(1) g(1) on same show ?thesis
    by (simp add: pi_checks_bad)
qed

lemma guard_after:
  assumes "LENGTH('a::len) = 8 * n" "0 < n"
    and "\<forall>x. f (t x) = x" "\<forall>x. t (f x) = (x :: 'a word)"
  shows "f (word_of_nat (le_val (if j then flip1 (le_bytes n (unat (t g))) else le_bytes n (unat (t g)))))
         = g \<longleftrightarrow> \<not> j"
  using flip_be [OF assms(1,2), of "t g"] word_le_bytes [OF assms(1), of "t g"] assms(3,4)
  by (metis (full_types))

lemma ref48_after:
  assumes "pi_ops_ok c"
  shows "j \<Longrightarrow> get_be48 c (if j then flip1 (put_be48 c v) else put_be48 c v) \<noteq> v"
    "\<not> j \<Longrightarrow> take_bit 48 v = v \<Longrightarrow> get_be48 c (if j then flip1 (put_be48 c v) else put_be48 c v) = v"
proof -
  from assms have len: "length (put_be48 c v) = 6" by (simp add: pi_ops_ok_def)
  then have ne: "put_be48 c v \<noteq> []" by auto
  show "get_be48 c (if j then flip1 (put_be48 c v) else put_be48 c v) \<noteq> v" if j
  proof
    assume "get_be48 c (if j then flip1 (put_be48 c v) else put_be48 c v) = v"
    then have "put_be48 c (get_be48 c (flip1 (put_be48 c v))) = put_be48 c v"
      using that by simp
    moreover have "put_be48 c (get_be48 c (flip1 (put_be48 c v))) = flip1 (put_be48 c v)"
      using assms len by (simp add: pi_ops_ok_def)
    ultimately show False using flip1_neq [OF ne] by simp
  qed
  show "\<not> j \<Longrightarrow> take_bit 48 v = v \<Longrightarrow> get_be48 c (if j then flip1 (put_be48 c v) else put_be48 c v) = v"
    using assms by (simp add: pi_ops_ok_def)
qed

text \<open>
  The three fields of a tuple one after the other: the guard, the application tag after it, and the
  rest of the tuple, which some function \<open>f\<close> fills.
\<close>

lemma fill_tuple:
  assumes fit: "in_block ns sz b m s" and G: "length G = n" "0 < n" and A: "length A = 2" "n + 2 \<le> sz"
    and f: "\<And>t. keep t = keep s \<Longrightarrow> \<exists>t'. f t = Some t' \<and> touch ns b m (n + 2) sz t t'
              \<and> (p3 \<longrightarrow> pi_ld ns b m t' off k = Some B)"
  shows "\<exists>s1 s2 s3. (if p1 then pi_put ns b m 0 G j s else Some s) = Some s1 \<and> keep s1 = keep s
     \<and> (if p2 then pi_put ns b m n A False s1 else Some s1) = Some s2 \<and> f s2 = Some s3
     \<and> touch ns b m 0 sz s s3 \<and> (p1 \<longrightarrow> pi_ld ns b m s3 0 n = Some (if j then flip1 G else G))
     \<and> (p2 \<longrightarrow> pi_ld ns b m s3 n 2 = Some A) \<and> (p3 \<longrightarrow> pi_ld ns b m s3 off k = Some B)"
proof -
  note pos = in_block_pos [OF fit]
  from optional_put [OF G, of ns b m s 0 p1 j] pos A obtain s1 where
    s1: "(if p1 then pi_put ns b m 0 G j s else Some s) = Some s1" "touch ns b m 0 n s s1"
      "p1 \<longrightarrow> pi_ld ns b m s1 0 n = Some (if j then flip1 G else G)"
    by auto
  note k1 = keep_simps [OF touch_keep [OF s1(2)]]
  from optional_put [OF A(1), of ns b m s1 n p2 False] pos A k1 obtain s2 where
    s2: "(if p2 then pi_put ns b m n A False s1 else Some s1) = Some s2" "touch ns b m n (n + 2) s1 s2"
      "p2 \<longrightarrow> pi_ld ns b m s2 n 2 = Some A"
    by auto
  have "keep s2 = keep s"
    using touch_keep [OF s1(2)] touch_keep [OF s2(2)] by simp
  from f [OF this] obtain s3 where
    s3: "f s2 = Some s3" "touch ns b m (n + 2) sz s2 s3" "p3 \<longrightarrow> pi_ld ns b m s3 off k = Some B"
    by auto
  have "touch ns b m 0 sz s s3"
    by (rule touch_trans0 [OF touch_trans0 [OF s1(2) s2(2), of "n + 2"] s3(2)]) (use A in auto)
  moreover have "pi_ld ns b m s3 0 n = pi_ld ns b m s1 0 n" "pi_ld ns b m s3 n 2 = pi_ld ns b m s2 n 2"
    using touch_ld [OF s2(2), of 0 n] touch_ld [OF s3(2), of 0 n] touch_ld [OF s3(2), of n 2] by auto
  ultimately show ?thesis
    using s1 s2 s3 touch_keep [OF s1(2)] by (intro exI [of _ s1] exI [of _ s2] exI [of _ s3]) simp
qed

lemma fill_verdict_16b:
  assumes fit: "in_block ns 8 b m s" and ex: "pi_expect c d ns o' good s"
  shows "\<exists>s'. fill_block_16b c d ns o' slba i b m s = Some s' \<and> touch ns b m 0 8 s s'
     \<and> verify_block_16b c d ns o' slba i b m s' = Some (if good then Inr s' else Inl EIO)"
proof -
  let ?jg = "inject_on o' UNVME_ERR_GUARD" and ?jr = "inject_on o' UNVME_ERR_REFTAG"
    and ?pg = "prchk_on o' (d_prchk_guard d)"
    and ?pa = "prchk_on o' (d_prchk_app d)" and ?pr = "prchk_on o' (d_prchk_ref d)"
  from ex have ops: "pi_ops_ok c" by (simp add: pi_expect_def)
  obtain g where g: "guard_16b c ns b m s = Some g"
    by (rule in_block_guards [OF fit])
  let ?G = "le_bytes 2 (unat (cpu_to_be16 c g))"
    and ?R = "le_bytes 4 (unat (cpu_to_be32 c (ucast slba + i)))"
  let ?f = "\<lambda>t. if ?pr then pi_put ns b m 4 ?R ?jr t else Some t"
  have f: "\<exists>t'. ?f t = Some t' \<and> touch ns b m (2 + 2) 8 t t'
      \<and> (?pr \<longrightarrow> pi_ld ns b m t' 4 4 = Some (if ?jr then flip1 ?R else ?R))" if "keep t = keep s" for t
    using optional_put [of ?R 4 ns b m t 4 ?pr ?jr] in_block_pos [OF fit] keep_simps [OF that] by simp
  have n: "0 < (2 :: nat)" "2 + 2 \<le> (8 :: nat)" by simp_all
  obtain s1 s2 s3 where s3: "(if ?pg then pi_put ns b m 0 ?G ?jg s else Some s) = Some s1"
    "keep s1 = keep s"
    "(if ?pa then pi_put ns b m 2 (fill_app c s) False s1 else Some s1) = Some s2"
    "?f s2 = Some s3" "touch ns b m 0 8 s s3"
    "?pg \<longrightarrow> pi_ld ns b m s3 0 2 = Some (if ?jg then flip1 ?G else ?G)"
    "?pa \<longrightarrow> pi_ld ns b m s3 2 2 = Some (fill_app c s)"
    "?pr \<longrightarrow> pi_ld ns b m s3 4 4 = Some (if ?jr then flip1 ?R else ?R)"
    using fill_tuple [OF fit length_le_bytes n(1) length_fill_app n(2) f] by blast
  have fill: "fill_block_16b c d ns o' slba i b m s = Some s3"
    by (simp add: fill_block_16b_def g pi_st_put keep_simps(8) [OF s3(2)] s3(1,3,4)
        cong: if_cong split del: if_split)
  note k = keep_simps [OF touch_keep [OF s3(5)]]
  have fit3: "in_block ns 8 b m s3"
    by (simp add: in_block_keep [OF touch_keep [OF s3(5)]] fit)
  obtain x y where x: "pi_ld ns b m s3 2 2 = Some x" and y: "pi_ld ns b m s3 4 4 = Some y"
    using in_block_ld [OF fit3, of 2 2] in_block_ld [OF fit3, of 4 4] by fastforce
  have "verify_block_16b c d ns o' slba i b m s3 = Some (if good then Inr s3 else Inl EIO)"
    unfolding verify_block_16b_def x y option.map(2)
  proof (rule pi_verdict [OF ex, unfolded option.map(2)])
    show "x = fill_app c s" if "prchk_on o' (d_prchk_app d)"
      using s3(7) that x by simp
    show "do { x \<leftarrow> pi_ld ns b m s3 0 2; guard_exp \<leftarrow> guard_16b c ns b m s3; Some (pi_be16 c x = guard_exp) }
        = Some (\<not> ?jg)" if ?pg
      using s3(6) that g ops same_data_guards(1) [OF touch_same_data [OF s3(5)], of c]
        guard_after [of 2 "be16_to_cpu c" "cpu_to_be16 c" ?jg g]
      by (simp add: pi_be16_def pi_ops_ok_def)
    show "\<exists>v. Some (be32_to_cpu c (word_of_nat (le_val y)) = ucast slba + i) = Some v \<and> (good \<longrightarrow> v)
        \<and> (?jr \<longrightarrow> \<not> v)" if ?pr
      using s3(8) that y ops ex guard_after [of 4 "be32_to_cpu c" "cpu_to_be32 c" ?jr "ucast slba + i"]
      by (simp add: pi_ops_ok_def pi_expect_def)
  qed (rule k)
  with fill s3(5) show ?thesis by blast
qed

lemma fill_verdict_64b:
  assumes fit: "in_block ns 16 b m s" and ex: "pi_expect48 c d ns o' slba good i s"
  shows "\<exists>s'. fill_block_64b c d ns o' slba i b m s = Some s' \<and> touch ns b m 0 16 s s'
     \<and> verify_block_64b c d ns o' slba i b m s' = Some (if good then Inr s' else Inl EIO)"
proof -
  let ?jg = "inject_on o' UNVME_ERR_GUARD" and ?jr = "inject_on o' UNVME_ERR_REFTAG"
    and ?pg = "prchk_on o' (d_prchk_guard d)"
    and ?pa = "prchk_on o' (d_prchk_app d)" and ?pr = "prchk_on o' (d_prchk_ref d)"
  from ex have ex': "pi_expect c d ns o' good s" and ops: "pi_ops_ok c"
    by (simp_all add: pi_expect48_def pi_expect_def)
  obtain g where g: "guard_64b c ns b m s = Some g"
    by (rule in_block_guards [OF fit])
  let ?G = "le_bytes 8 (unat (cpu_to_be64 c g))" and ?R = "put_be48 c (slba + ucast i)"
  let ?f = "\<lambda>t. if ?pr then pi_put ns b m 10 ?R ?jr t else Some t"
  have len: "length ?R = 6" using ops by (simp add: pi_ops_ok_def)
  have f: "\<exists>t'. ?f t = Some t' \<and> touch ns b m (8 + 2) 16 t t'
      \<and> (?pr \<longrightarrow> pi_ld ns b m t' 10 6 = Some (if ?jr then flip1 ?R else ?R))" if "keep t = keep s" for t
    using optional_put [OF len, of ns b m t 10 ?pr ?jr] in_block_pos [OF fit] keep_simps [OF that] by simp
  have n: "0 < (8 :: nat)" "8 + 2 \<le> (16 :: nat)" by simp_all
  obtain s1 s2 s3 where s3: "(if ?pg then pi_put ns b m 0 ?G ?jg s else Some s) = Some s1"
    "keep s1 = keep s"
    "(if ?pa then pi_put ns b m 8 (fill_app c s) False s1 else Some s1) = Some s2"
    "?f s2 = Some s3" "touch ns b m 0 16 s s3"
    "?pg \<longrightarrow> pi_ld ns b m s3 0 8 = Some (if ?jg then flip1 ?G else ?G)"
    "?pa \<longrightarrow> pi_ld ns b m s3 8 2 = Some (fill_app c s)"
    "?pr \<longrightarrow> pi_ld ns b m s3 10 6 = Some (if ?jr then flip1 ?R else ?R)"
    using fill_tuple [OF fit length_le_bytes n(1) length_fill_app n(2) f] by blast
  have fill: "fill_block_64b c d ns o' slba i b m s = Some s3"
    by (simp add: fill_block_64b_def g pi_st_put keep_simps(8) [OF s3(2)] s3(1,3,4)
        cong: if_cong split del: if_split)
  note k = keep_simps [OF touch_keep [OF s3(5)]]
  have fit3: "in_block ns 16 b m s3"
    by (simp add: in_block_keep [OF touch_keep [OF s3(5)]] fit)
  obtain x y where x: "pi_ld ns b m s3 8 2 = Some x" and y: "pi_ld ns b m s3 10 6 = Some y"
    using in_block_ld [OF fit3, of 8 2] in_block_ld [OF fit3, of 10 6] by fastforce
  have "verify_block_64b c d ns o' slba i b m s3 = Some (if good then Inr s3 else Inl EIO)"
    unfolding verify_block_64b_def x y option.map(2)
  proof (rule pi_verdict [OF ex', unfolded option.map(2)])
    show "x = fill_app c s" if ?pa
      using s3(7) that x by simp
    show "do { x \<leftarrow> pi_ld ns b m s3 0 8; guard_exp \<leftarrow> guard_64b c ns b m s3;
               Some (be64_to_cpu c (word_of_nat (le_val x)) = guard_exp) } = Some (\<not> ?jg)" if ?pg
      using s3(6) that g ops same_data_guards(3) [OF touch_same_data [OF s3(5)], of c]
        guard_after [of 8 "be64_to_cpu c" "cpu_to_be64 c" ?jg g]
      by (simp add: pi_ops_ok_def)
    show "\<exists>v. Some (get_be48 c y = slba + ucast i) = Some v \<and> (good \<longrightarrow> v) \<and> (?jr \<longrightarrow> \<not> v)" if ?pr
      using s3(8) that y ex ref48_after [OF ops, of ?jr "slba + ucast i"]
      by (auto simp: pi_expect48_def pi_expect_def)
  qed (rule k)
  with fill s3(5) show ?thesis by blast
qed

lemma fill_verdict_32b:
  assumes fit: "in_block ns 16 b m s" and ex: "pi_expect48 c d ns o' slba good i s"
  shows "\<exists>s'. fill_block_32b c d ns o' slba i b m s = Some s' \<and> touch ns b m 0 16 s s'
     \<and> verify_block_32b c d ns o' slba i b m s' = Some (if good then Inr s' else Inl EIO)"
proof -
  let ?jg = "inject_on o' UNVME_ERR_GUARD" and ?jr = "inject_on o' UNVME_ERR_REFTAG"
    and ?pg = "prchk_on o' (d_prchk_guard d)"
    and ?pa = "prchk_on o' (d_prchk_app d)" and ?pr = "prchk_on o' (d_prchk_ref d)"
  from ex have ex': "pi_expect c d ns o' good s" and ops: "pi_ops_ok c"
    by (simp_all add: pi_expect48_def pi_expect_def)
  obtain g where g: "guard_32b c ns b m s = Some g"
    by (rule in_block_guards [OF fit])
  let ?G = "le_bytes 4 (unat (cpu_to_be32 c g))" and ?R = "put_be48 c (slba + ucast i)"
  let ?f = "\<lambda>t. if ?pr
    then Option.bind (pi_put ns b m 6 (replicate 4 0) False t) (pi_put ns b m 10 ?R ?jr) else Some t"
  have len: "length ?R = 6" using ops by (simp add: pi_ops_ok_def)
  have f: "\<exists>t'. ?f t = Some t' \<and> touch ns b m (4 + 2) 16 t t'
      \<and> (?pr \<longrightarrow> pi_ld ns b m t' 10 6 = Some (if ?jr then flip1 ?R else ?R))" if kt: "keep t = keep s" for t
  proof (cases ?pr)
    case True
    have pos: "pi_pos ns b m t + 16 \<le> length (pi_buf ns t)"
      using in_block_pos [OF fit] keep_simps [OF kt] by simp
    have "pi_pos ns b m t + 6 + length (replicate 4 0 :: bytes) \<le> length (pi_buf ns t)"
      using pos by simp
    then obtain t1 where t1: "pi_st ns b m 6 (replicate 4 0) t = Some t1"
      "touch ns b m 6 (6 + length (replicate 4 0 :: bytes)) t t1"
      by (rule pi_st_outcome)
    note kt1 = keep_simps [OF touch_keep [OF t1(2)]]
    from optional_put [OF len, of ns b m t1 10 True ?jr] pos kt1 obtain t2 where
      t2: "pi_put ns b m 10 ?R ?jr t1 = Some t2" "touch ns b m 10 16 t1 t2"
        "pi_ld ns b m t2 10 6 = Some (if ?jr then flip1 ?R else ?R)"
      by auto
    have "touch ns b m (4 + 2) 16 t t2"
      using touch_mono [OF touch_trans [OF t1(2) t2(2)], of "4 + 2" 16] by simp
    with True t1(1) t2 show ?thesis by (simp add: pi_st_put)
  qed (simp add: touch_refl)
  have n: "0 < (4 :: nat)" "4 + 2 \<le> (16 :: nat)" by simp_all
  obtain s1 s2 s3 where s3: "(if ?pg then pi_put ns b m 0 ?G ?jg s else Some s) = Some s1"
    "keep s1 = keep s"
    "(if ?pa then pi_put ns b m 4 (fill_app c s) False s1 else Some s1) = Some s2"
    "?f s2 = Some s3" "touch ns b m 0 16 s s3"
    "?pg \<longrightarrow> pi_ld ns b m s3 0 4 = Some (if ?jg then flip1 ?G else ?G)"
    "?pa \<longrightarrow> pi_ld ns b m s3 4 2 = Some (fill_app c s)"
    "?pr \<longrightarrow> pi_ld ns b m s3 10 6 = Some (if ?jr then flip1 ?R else ?R)"
    using fill_tuple [OF fit length_le_bytes n(1) length_fill_app n(2) f] by blast
  have fill: "fill_block_32b c d ns o' slba i b m s = Some s3"
    by (simp add: fill_block_32b_def g pi_st_put keep_simps(8) [OF s3(2)] s3(1,3,4)
        cong: if_cong split del: if_split)
  note k = keep_simps [OF touch_keep [OF s3(5)]]
  have fit3: "in_block ns 16 b m s3"
    by (simp add: in_block_keep [OF touch_keep [OF s3(5)]] fit)
  obtain x y where x: "pi_ld ns b m s3 4 2 = Some x" and y: "pi_ld ns b m s3 10 6 = Some y"
    using in_block_ld [OF fit3, of 4 2] in_block_ld [OF fit3, of 10 6] by fastforce
  have "verify_block_32b c d ns o' slba i b m s3 = Some (if good then Inr s3 else Inl EIO)"
    unfolding verify_block_32b_def x y option.map(2)
  proof (rule pi_verdict [OF ex', unfolded option.map(2)])
    show "x = fill_app c s" if ?pa
      using s3(7) that x by simp
    show "do { x \<leftarrow> pi_ld ns b m s3 0 4; guard_exp \<leftarrow> guard_32b c ns b m s3;
               Some (be32_to_cpu c (word_of_nat (le_val x)) = guard_exp) } = Some (\<not> ?jg)" if ?pg
      using s3(6) that g ops same_data_guards(2) [OF touch_same_data [OF s3(5)], of c]
        guard_after [of 4 "be32_to_cpu c" "cpu_to_be32 c" ?jg g]
      by (simp add: pi_ops_ok_def)
    show "\<exists>v. Some (get_be48 c y = slba + ucast i) = Some v \<and> (good \<longrightarrow> v) \<and> (?jr \<longrightarrow> \<not> v)" if ?pr
      using s3(8) that y ex ref48_after [OF ops, of ?jr "slba + ucast i"]
      by (auto simp: pi_expect48_def pi_expect_def)
  qed (rule k)
  with fill s3(5) show ?thesis by blast
qed

text \<open>A check reads its own block only.\<close>

lemma same_block_facts:
  assumes "in_block ns sz b m s" "same_block ns b m s s'"
  shows "off + n \<le> sz \<Longrightarrow> pi_ld ns b m s' off n = pi_ld ns b m s off n"
    "guard_16b c ns b m s' = guard_16b c ns b m s" "guard_32b c ns b m s' = guard_32b c ns b m s"
    "guard_64b c ns b m s' = guard_64b c ns b m s" "app_check c s' = app_check c s"
proof -
  from assms(2) have "keep s' = keep s" by (simp add: same_block_def)
  then show "app_check c s' = app_check c s" by (rule keep_simps)
qed (use same_block_ld [OF assms(2,1)] same_data_guards [OF same_block_same_data [OF assms(2,1)]] in auto)

lemma chk_local_16b:
  assumes "in_block ns 8 b m s" "same_block ns b m s s'"
    and "verify_block_16b c d ns o' slba i b m s = Some (if good then Inr s else Inl EIO)"
  shows "verify_block_16b c d ns o' slba i b m s' = Some (if good then Inr s' else Inl EIO)"
proof -
  note eq = same_block_facts(2-5) [OF assms(1,2)]
    same_block_facts(1) [OF assms(1,2), of 0 2, simplified]
    same_block_facts(1) [OF assms(1,2), of 2 2, simplified]
    same_block_facts(1) [OF assms(1,2), of 4 4, simplified]
  from assms(3) show ?thesis
    unfolding verify_block_16b_def eq by (rule pi_checks_state)
qed

lemma chk_local_32b:
  assumes "in_block ns 16 b m s" "same_block ns b m s s'"
    and "verify_block_32b c d ns o' slba i b m s = Some (if good then Inr s else Inl EIO)"
  shows "verify_block_32b c d ns o' slba i b m s' = Some (if good then Inr s' else Inl EIO)"
proof -
  note eq = same_block_facts(2-5) [OF assms(1,2)]
    same_block_facts(1) [OF assms(1,2), of 0 4, simplified]
    same_block_facts(1) [OF assms(1,2), of 4 2, simplified]
    same_block_facts(1) [OF assms(1,2), of 10 6, simplified]
  from assms(3) show ?thesis
    unfolding verify_block_32b_def eq by (rule pi_checks_state)
qed

lemma chk_local_64b:
  assumes "in_block ns 16 b m s" "same_block ns b m s s'"
    and "verify_block_64b c d ns o' slba i b m s = Some (if good then Inr s else Inl EIO)"
  shows "verify_block_64b c d ns o' slba i b m s' = Some (if good then Inr s' else Inl EIO)"
proof -
  note eq = same_block_facts(2-5) [OF assms(1,2)]
    same_block_facts(1) [OF assms(1,2), of 0 8, simplified]
    same_block_facts(1) [OF assms(1,2), of 8 2, simplified]
    same_block_facts(1) [OF assms(1,2), of 10 6, simplified]
  from assms(3) show ?thesis
    unfolding verify_block_64b_def eq by (rule pi_checks_state)
qed

interpretation guard16: pi_format ns 8 "fill_block_16b c d ns o' slba" "verify_block_16b c d ns o' slba"
  "\<lambda>good i s. pi_expect c d ns o' good s"
  for ns c o' slba and d :: "'z pi_defs_scheme"
  by unfold_locales (fact fill_verdict_16b chk_local_16b pi_expect_keep(1))+

interpretation guard32: pi_format ns 16 "fill_block_32b c d ns o' slba" "verify_block_32b c d ns o' slba"
  "pi_expect48 c d ns o' slba"
  for ns c o' slba and d :: "'z pi_defs_scheme"
  by unfold_locales (fact fill_verdict_32b chk_local_32b pi_expect_keep(2))+

interpretation guard64: pi_format ns 16 "fill_block_64b c d ns o' slba" "verify_block_64b c d ns o' slba"
  "pi_expect48 c d ns o' slba"
  for ns c o' slba and d :: "'z pi_defs_scheme"
  by unfold_locales (fact fill_verdict_64b chk_local_64b pi_expect_keep(2))+

subsection \<open>Whole transfers\<close>

lemma ilog2_loop_bounds:
  "i \<noteq> 0 \<Longrightarrow> \<exists>k. ilog2_loop i l = l + 1 + int k \<and> 2 ^ k \<le> unat i \<and> unat i < 2 * 2 ^ k"
proof (induction i l rule: ilog2_loop.induct)
  case (1 i l)
  have half: "unat (drop_bit 1 i) = unat i div 2"
    by (simp add: drop_bit_eq_div unat_div)
  show ?case
  proof (cases "drop_bit 1 i = 0")
    case True
    then have "unat i div 2 = 0" using half by simp
    moreover have "0 < unat i" using 1(2) by (simp add: unat_gt_0)
    ultimately have "unat i = 1" by (cases "unat i") auto
    then show ?thesis
      using 1(2) True by (intro exI [of _ 0]) (simp add: ilog2_loop.simps [of i] ilog2_loop.simps [of 0])
  next
    case False
    from 1(1) [OF 1(2) False] obtain k where k: "ilog2_loop (drop_bit 1 i) (l + 1) = l + 2 + int k"
      "2 ^ k \<le> unat i div 2" "unat i div 2 < 2 * 2 ^ k"
      using half by auto
    then have "2 * 2 ^ k \<le> unat i \<and> unat i < 4 * 2 ^ k" by linarith
    with k(1) show ?thesis
      using 1(2) by (intro exI [of _ "Suc k"]) (simp add: ilog2_loop.simps [of i])
  qed
qed

lemma ilog2_bounds:
  assumes "i \<noteq> 0"
  shows "0 \<le> ilog2 i" "2 ^ nat (ilog2 i) \<le> unat i" "unat i < 2 * 2 ^ nat (ilog2 i)"
proof -
  from ilog2_loop_bounds [OF assms, of "- 1"] obtain k where
    "ilog2 i = int k" "2 ^ k \<le> unat i" "unat i < 2 * 2 ^ k"
    by (auto simp: ilog2_def)
  then show "0 \<le> ilog2 i" "2 ^ nat (ilog2 i) \<le> unat i" "unat i < 2 * 2 ^ nat (ilog2 i)"
    by simp_all
qed

text \<open>
  A transfer of whole blocks: the tuple fits the metadata of a block, the transfer holds at least a
  block, and the buffers hold the transfer. With separate metadata the size of a block is a power
  of two.
\<close>

definition pi_unit :: "unvme_ns \<Rightarrow> nat" where
  "pi_unit ns = unat (lba_size ns) + (if libunvmed_ns_meta_is_dif ns then unat (ns_ms ns) else 0)"

definition pi_shape :: "unvme_ns \<Rightarrow> nat \<Rightarrow> io_u \<Rightarrow> meta_options \<Rightarrow> bool" where
  "pi_shape ns sz io s \<longleftrightarrow>
     sz \<le> unat (ns_ms ns) \<and> lba_size ns \<noteq> 0 \<and> unat (lba_size ns) + unat (ns_ms ns) < 2 ^ 32
   \<and> unat (xfer_buflen io) < 2 ^ 32 \<and> pi_unit ns \<le> unat (xfer_buflen io)
   \<and> unat (xfer_buflen io) \<le> length (xfer_buf s)
   \<and> (libunvmed_ns_meta_is_dif ns
      \<or> unat (lba_size ns) = 2 ^ nat (ilog2 (lba_size ns))
        \<and> unat (xfer_buflen io) div pi_unit ns * unat (ns_ms ns) \<le> length (mo_mbuf s))"

lemma unat_ms32 [simp]: "unat (ucast (x :: u16) :: u32) = unat x"
  using unat_lt_u16 [of x] by (simp add: unsigned_ucast_eq take_bit_nat_eq_self_iff)

lemma unat_drop_bit_div: "unat (drop_bit n (w :: u32)) = unat w div 2 ^ n"
  by (rule trans [OF unat_drop_bit_eq drop_bit_eq_div])

lemma tag_interval [simp]:
  "app_check c (s\<lparr>mo_interval := i\<rparr>) = app_check c s" "fill_app c (s\<lparr>mo_interval := i\<rparr>) = fill_app c s"
  by (simp_all add: app_check_def fill_app_def fun_eq_iff)

lemma pi_shape_nlba:
  assumes "pi_shape ns sz io s"
  obtains nlb where "libunvmed_get_nlba ns (ucast (xfer_buflen io)) = Some nlb"
    "Suc (unat nlb) = unat (xfer_buflen io) div pi_unit ns" "unat nlb < 2 ^ 32 - 1"
proof -
  let ?len = "ucast (xfer_buflen io) :: u32"
  have len: "unat ?len = unat (xfer_buflen io)"
    using assms by (simp add: pi_shape_def unsigned_ucast_eq take_bit_nat_eq_self_iff)
  define q :: u32 where "q = (if libunvmed_ns_meta_is_dif ns then ?len div (lba_size ns + ucast (ns_ms ns))
    else drop_bit (nat (ilog2 (lba_size ns))) ?len)"
  have unit: "libunvmed_ns_meta_is_dif ns \<Longrightarrow> unat (lba_size ns + ucast (ns_ms ns)) = pi_unit ns"
    using assms by (simp add: pi_shape_def pi_unit_def unat_word_ariths)
  have q: "unat q = unat (xfer_buflen io) div pi_unit ns"
    using assms len unit
    by (auto simp: q_def unat_div unat_drop_bit_div pi_shape_def pi_unit_def)
  have pos: "0 < pi_unit ns" using assms by (simp add: pi_shape_def pi_unit_def unat_gt_0)
  then have "1 \<le> unat q"
    using assms by (simp add: q pi_shape_def Suc_le_eq div_greater_zero_iff)
  moreover from this have "q \<noteq> 0" by auto
  ultimately have nlb: "Suc (unat (q - 1)) = unat q"
    by (simp add: unat_minus_one)
  have "libunvmed_get_nlba ns ?len = Some (q - 1)"
    using assms unit pos ilog2_bounds(1) [of "lba_size ns"]
    by (auto simp: libunvmed_get_nlba_def q_def Let_def pi_shape_def)
  moreover have "unat q < 2 ^ 32" using unsigned_less [of q, where 'a = nat] by simp
  ultimately show ?thesis using that nlb q by simp
qed

lemma pi_interval_bound:
  assumes "pi_shape ns (unat sz) io s"
  shows "unat (pi_interval d ns sz) + unat sz
      \<le> (if libunvmed_ns_meta_is_dif ns then unat (lba_size ns) else 0) + unat (ns_ms ns)"
proof -
  have "unat (lba_size ns + ucast (ns_ms ns)) = unat (lba_size ns) + unat (ns_ms ns)"
    using assms by (simp add: pi_shape_def unat_word_ariths)
  moreover have "sz \<le> lba_size ns + ucast (ns_ms ns)" "sz \<le> ucast (ns_ms ns)"
    using assms calculation by (simp_all add: pi_shape_def word_le_nat_alt)
  ultimately show ?thesis
    using assms by (auto simp: pi_interval_def unat_sub pi_shape_def)
qed

lemma pi_shape_in_block:
  assumes shape: "pi_shape ns (unat sz) io s"
    and nlb: "Suc (unat nlb) = unat (xfer_buflen io) div pi_unit ns" and j: "j \<le> unat nlb"
  shows "in_block ns (unat sz) (blk_b ns j) (blk_m ns j) (s\<lparr>mo_interval := pi_interval d ns sz\<rparr>)"
proof -
  have "Suc j \<le> unat (xfer_buflen io) div pi_unit ns" using nlb j by simp
  then have "Suc j * pi_unit ns \<le> unat (xfer_buflen io) div pi_unit ns * pi_unit ns"
    and mb: "Suc j * unat (ns_ms ns) \<le> unat (xfer_buflen io) div pi_unit ns * unat (ns_ms ns)"
    by (rule mult_le_mono1)+
  then have "Suc j * pi_unit ns \<le> unat (xfer_buflen io)"
    by (meson le_trans div_times_less_eq_dividend)
  with shape mb pi_interval_bound [OF shape, of d] show ?thesis
    by (auto simp: in_block_def blk_b_def blk_m_def pi_unit_def pi_shape_def split: if_splits)
qed

text \<open>The size of a tuple in each format.\<close>

definition pi_size :: "'z pi_defs_scheme \<Rightarrow> unvme_ns \<Rightarrow> u32" where
  "pi_size d ns = (if ns_pif ns = d_pif_16b d then 8 else 16)"

lemma pi_transfer:
  assumes shape: "pi_shape ns (unat (pi_size d ns)) io s" and act: "\<not> o_pi_act o'"
    and fmt: "ns_pif ns \<in> {d_pif_16b d, d_pif_32b d, d_pif_64b d}" and dir: "io_ddir io \<noteq> DDIR_READ"
    and slba: "libunvmed_get_slba ns (io_offset io) = Some slba"
    and ex: "pi_expect c d ns o' good s"
    and range: "ns_pif ns \<noteq> d_pif_16b d \<Longrightarrow> good \<Longrightarrow> prchk_on o' (d_prchk_ref d)
       \<Longrightarrow> unat slba + unat (xfer_buflen io) div pi_unit ns \<le> 2 ^ 48"
  shows "\<exists>s'. libunvmed_fill_pi c d ns o' io sqe s = Some (pi_sqe d ns o' slba sqe, s')
     \<and> libunvmed_verify_pi c d ns o' (io\<lparr>io_ddir := DDIR_READ\<rparr>) s'
         = Some (if good then Inr () else Inl EIO)"
proof -
  let ?s = "s\<lparr>mo_interval := pi_interval d ns (pi_size d ns)\<rparr>"
  obtain nlb where nlb: "libunvmed_get_nlba ns (ucast (xfer_buflen io)) = Some nlb"
    "Suc (unat nlb) = unat (xfer_buflen io) div pi_unit ns" "unat nlb < 2 ^ 32 - 1"
    by (rule pi_shape_nlba [OF shape])
  note fit = pi_shape_in_block [OF shape nlb(2), of _ d]
  have ex': "pi_expect c d ns o' good ?s"
    using ex by (simp add: pi_expect_def)
  have ex48: "pi_expect48 c d ns o' slba good (word_of_nat j) ?s"
    if p: "ns_pif ns \<noteq> d_pif_16b d" "j \<le> unat nlb" for j
  proof -
    have "take_bit 48 (slba + ucast (word_of_nat j :: u32)) = slba + ucast (word_of_nat j :: u32)"
      if "unat slba + unat (xfer_buflen io) div pi_unit ns \<le> 2 ^ 48"
    proof -
      have j: "unat (ucast (word_of_nat j :: u32) :: u64) = j"
        using p(2) nlb(3) by (simp add: unsigned_ucast_eq take_bit_nat_eq_self_iff unat_of_nat)
      have "unat slba + j < 2 ^ 48" using that nlb(2) p(2) by simp
      with j have "unat (slba + ucast (word_of_nat j :: u32)) < 2 ^ 48"
        by (simp add: unat_word_ariths)
      then show ?thesis
        by (intro unsigned_word_eqI [where 'a = nat]) (simp add: unsigned_take_bit_eq take_bit_nat_eq_self_iff)
    qed
    then show ?thesis using ex' range [OF p(1)] by (simp add: pi_expect48_def)
  qed
  show ?thesis
  proof (cases "ns_pif ns = d_pif_16b d")
    case True
    then have "pi_size d ns = 8" by (simp add: pi_size_def)
    with guard16.fill_then_verify [OF nlb(3), of ns ?s c d o' good slba] fit ex' show ?thesis
      using True act dir slba nlb(1)
      by (auto simp: libunvmed_fill_pi_def libunvmed_verify_pi_def libunvmed_fill_pi_16b_guard_def
          libunvmed_verify_pi_16b_guard_def verify_loop_def Let_def)
  next
    case False
    then have sz: "pi_size d ns = 16" by (simp add: pi_size_def)
    show ?thesis
    proof (cases "ns_pif ns = d_pif_32b d")
      case True
      with sz guard32.fill_then_verify [OF nlb(3), of ns ?s c d o' slba good] fit ex48 [OF False] show ?thesis
        using False act dir slba nlb(1)
        by (auto simp: libunvmed_fill_pi_def libunvmed_verify_pi_def libunvmed_fill_pi_32b_guard_def
            libunvmed_verify_pi_32b_guard_def verify_loop_def Let_def)
    next
      case nf: False
      with fmt False sz guard64.fill_then_verify [OF nlb(3), of ns ?s c d o' slba good] fit ex48 [OF False]
      show ?thesis
        using act slba nlb(1)
        by (auto simp: libunvmed_fill_pi_def libunvmed_verify_pi_def libunvmed_fill_pi_64b_guard_def
            libunvmed_verify_pi_64b_guard_def verify_loop_def Let_def)
    qed
  qed
qed

text \<open>The stored application tag, masked as it is stored, reads as the tag of the job.\<close>

definition tag_survives :: "pi_ops \<Rightarrow> meta_options \<Rightarrow> bool" where
  "tag_survives c s \<longleftrightarrow>
     be16_to_cpu c (cpu_to_be16 c (mo_apptag s AND mo_apptag_mask s) AND mo_apptag_mask s)
       = mo_apptag s AND mo_apptag_mask s"

lemma app_check_fill: "app_check c s (fill_app c s) = tag_survives c s"
  by (simp add: app_check_def fill_app_def tag_survives_def word_le_bytes)

text \<open>C8. Round trip of protection information. For a transfer of whole blocks in the 16, 32 or 64
  bit guard format, in extended blocks or with a metadata buffer, the tuples that
  \<open>libunvmed_fill_pi()\<close> writes pass \<open>libunvmed_verify_pi()\<close> when the same buffers are read back
  from the same place: the fill returns, and the check returns 0. No error is injected; the
  namespace has a protection type when reference tags are checked; the application tag survives its
  mask in the byte order of the tuple; and in the formats of a 48 bit reference tag the blocks stay
  below \<open>2^48\<close>.\<close>

theorem pi_roundtrip:
  assumes "pi_ops_ok c" and "pi_shape ns (unat (pi_size d ns)) io s"
    and "\<not> o_pi_act o'" and "meta_err_injection o' = 0"
    and "ns_pif ns \<in> {d_pif_16b d, d_pif_32b d, d_pif_64b d}"
    and "prchk_on o' (d_prchk_ref d)
           \<longrightarrow> ns_dps ns AND d_dps_pi_mask d \<in> {d_dps_type1 d, d_dps_type2 d, d_dps_type3 d}"
    and "prchk_on o' (d_prchk_app d) \<longrightarrow> tag_survives c s"
    and "io_ddir io \<noteq> DDIR_READ" and "libunvmed_get_slba ns (io_offset io) = Some slba"
    and "ns_pif ns = d_pif_16b d \<or> unat slba + unat (xfer_buflen io) div pi_unit ns \<le> 2 ^ 48"
  shows "\<exists>s'. libunvmed_fill_pi c d ns o' io sqe s = Some (pi_sqe d ns o' slba sqe, s')
     \<and> libunvmed_verify_pi c d ns o' (io\<lparr>io_ddir := DDIR_READ\<rparr>) s' = Some (Inr ())"
proof -
  have "pi_expect c d ns o' True s"
    using assms(1,4,6,7) by (auto simp: pi_expect_def inject_on_def pi_type12_def app_check_fill)
  from pi_transfer [OF assms(2,3,5,8,9) this] assms(10) show ?thesis by auto
qed

text \<open>C24. An error that a job injects is detected. When the guard is checked and its error
  injected, or the reference tag of a type 1 or 2 namespace is checked and its error injected, the
  tuples are rejected with \<open>EIO\<close>, provided the application tag is filled and is not the value that
  disables the checks.\<close>

theorem pi_injection_detected:
  assumes "pi_ops_ok c" and "pi_shape ns (unat (pi_size d ns)) io s" and "\<not> o_pi_act o'"
    and "ns_pif ns \<in> {d_pif_16b d, d_pif_32b d, d_pif_64b d}"
    and "prchk_on o' (d_prchk_ref d)
           \<longrightarrow> ns_dps ns AND d_dps_pi_mask d \<in> {d_dps_type1 d, d_dps_type2 d, d_dps_type3 d}"
    and "prchk_on o' (d_prchk_app d)" and "mo_apptag s AND mo_apptag_mask s \<noteq> 0xffff"
    and "prchk_on o' (d_prchk_guard d) \<and> inject_on o' UNVME_ERR_GUARD
       \<or> prchk_on o' (d_prchk_ref d) \<and> inject_on o' UNVME_ERR_REFTAG \<and> pi_type12 d ns"
    and "io_ddir io \<noteq> DDIR_READ" and "libunvmed_get_slba ns (io_offset io) = Some slba"
  shows "\<exists>s'. libunvmed_fill_pi c d ns o' io sqe s = Some (pi_sqe d ns o' slba sqe, s')
     \<and> libunvmed_verify_pi c d ns o' (io\<lparr>io_ddir := DDIR_READ\<rparr>) s' = Some (Inl EIO)"
proof -
  have "pi_expect c d ns o' False s"
    using assms(1,5,6,7,8) by (auto simp: pi_expect_def pi_type12_def)
  from pi_transfer [OF assms(2,3,4,9,10) this] show ?thesis by auto
qed

text \<open>
  A mask that is not the same in both byte orders rejects tags that are right: the check masks the
  tag before it converts it.
\<close>

lemma pi_mask_rejects:
  assumes "pi_ops_ok c" and "pi_shape ns (unat (pi_size d ns)) io s" and "\<not> o_pi_act o'"
    and "ns_pif ns \<in> {d_pif_16b d, d_pif_32b d, d_pif_64b d}"
    and "prchk_on o' (d_prchk_ref d)
           \<longrightarrow> ns_dps ns AND d_dps_pi_mask d \<in> {d_dps_type1 d, d_dps_type2 d, d_dps_type3 d}"
    and "prchk_on o' (d_prchk_app d)" and "mo_apptag s AND mo_apptag_mask s \<noteq> 0xffff"
    and "\<not> tag_survives c s"
    and "io_ddir io \<noteq> DDIR_READ" and "libunvmed_get_slba ns (io_offset io) = Some slba"
  shows "\<exists>s'. libunvmed_fill_pi c d ns o' io sqe s = Some (pi_sqe d ns o' slba sqe, s')
     \<and> libunvmed_verify_pi c d ns o' (io\<lparr>io_ddir := DDIR_READ\<rparr>) s' = Some (Inl EIO)"
proof -
  have "pi_expect c d ns o' False s"
    using assms(1,5,6,7,8) by (auto simp: pi_expect_def pi_type12_def app_check_fill)
  from pi_transfer [OF assms(2,3,4,9,10) this] show ?thesis by auto
qed

subsection \<open>A concrete host\<close>

text \<open>The conversions of a little-endian host, with sums of bytes for the checksums.\<close>

definition bswap :: "nat \<Rightarrow> 'a::len word \<Rightarrow> 'a word" where
  "bswap n w = word_of_nat (le_val (rev (le_bytes n (unat w))))"

definition host_ops :: pi_ops where
  "host_ops = \<lparr>crc_t10dif = (\<lambda>g bs. g + sum_list (map ucast bs)),
     crc64_nvme = (\<lambda>g bs. g + sum_list (map ucast bs)), crc32c = (\<lambda>bs. sum_list (map ucast bs)),
     cpu_to_be16 = bswap 2, cpu_to_be32 = bswap 4, cpu_to_be64 = bswap 8,
     be16_to_cpu = bswap 2, be32_to_cpu = bswap 4, be64_to_cpu = bswap 8,
     put_be48 = (\<lambda>v. rev (le_bytes 6 (unat v))), get_be48 = (\<lambda>bs. word_of_nat (le_val (rev bs)))\<rparr>"

lemma le_bytes_le_val: "le_bytes (length bs) (le_val bs) = bs"
proof (rule le_val_inj)
  show "le_val (le_bytes (length bs) (le_val bs)) = le_val bs"
    using le_val_less [of bs] by (simp add: le_val_le_bytes)
qed simp

lemma unat_le_val: "256 ^ length bs \<le> (2 :: nat) ^ LENGTH('a::len) \<Longrightarrow> unat (word_of_nat (le_val bs) :: 'a word) = le_val bs"
  using le_val_less [of bs] by (simp add: unat_of_nat)

lemma bswap_bswap:
  assumes "LENGTH('a::len) = 8 * n"
  shows "bswap n (bswap n w) = (w :: 'a word)"
proof -
  have "unat (bswap n w) = le_val (rev (le_bytes n (unat w)))"
    unfolding bswap_def by (rule unat_le_val) (simp add: assms power_mult)
  then have "le_bytes n (unat (bswap n w)) = rev (le_bytes n (unat w))"
    using le_bytes_le_val [of "rev (le_bytes n (unat w))"] by simp
  then show ?thesis
    unfolding bswap_def [of n "bswap n w"] by (simp add: word_le_bytes [OF assms])
qed

lemma host_ops_ok: "pi_ops_ok host_ops"
proof -
  have "(word_of_nat (le_val (le_bytes 6 (unat v))) :: u64) = take_bit 48 v" for v :: u64
    by (rule unsigned_word_eqI [where 'a = nat])
      (simp add: le_val_le_bytes unsigned_take_bit_eq take_bit_eq_mod unat_of_nat unat_mod)
  moreover have "rev (le_bytes 6 (unat (word_of_nat (le_val (rev bs)) :: u64))) = bs" if "length bs = 6" for bs
    using le_bytes_le_val [of "rev bs"] unat_le_val [of "rev bs", where 'a = 64] that by simp
  ultimately show ?thesis
    by (simp add: pi_ops_ok_def host_ops_def bswap_bswap)
qed

definition sample_pi_defs :: pi_defs where
  "sample_pi_defs = nvme_defs.extend sample_defs
     \<lparr>d_dps_pi_mask = 7, d_dps_type1 = 1, d_dps_type2 = 2, d_dps_type3 = 3, d_dps_first = 8,
      d_prchk_guard = 0x1000, d_prchk_app = 0x800, d_prchk_ref = 0x400, d_pract = 0x2000,
      d_write_zeroes = 8\<rparr>"

text \<open>Two extended blocks of 4 bytes with an 8 byte tuple, and two blocks with a 16 byte one apart.\<close>

definition dif_ns :: unvme_ns where
  "dif_ns = zero_ns\<lparr>lba_size := 4, ns_ms := 8, ns_mset := 1, ns_pif := 0, ns_dps := 1\<rparr>"

definition sep_ns :: unvme_ns where
  "sep_ns = zero_ns\<lparr>lba_size := 4, ns_ms := 16, ns_pif := 2, ns_dps := 10\<rparr>"

definition sample_pi_opts :: libunvmed_options where
  "sample_pi_opts = \<lparr>o_pi_act = False, o_prchk = 0x1c00, o_apptag = 0x1234, o_apptag_mask = 0xffff,
     meta_err_injection = 0, o_md_per_io_size = 32\<rparr>"

definition sample_pi_io :: "u64 \<Rightarrow> io_u" where
  "sample_pi_io len = \<lparr>io_ddir = DDIR_WRITE, io_offset = 48, xfer_buflen = len\<rparr>"

definition sample_pi_bufs :: meta_options where
  "sample_pi_bufs = \<lparr>xfer_buf = replicate 24 7, mo_mbuf = replicate 32 0, mo_interval = 0,
     mo_apptag = 0x1234, mo_apptag_mask = 0xffff\<rparr>"

lemmas sample_pi_defs' = sample_pi_defs_def sample_defs_def nvme_defs.extend_def dif_ns_def sep_ns_def
  sample_pi_opts_def sample_pi_io_def sample_pi_bufs_def zero_ns_def

lemma sample_ilog2: "ilog2 4 = 2"
  by (simp add: ilog2_def ilog2_loop.simps [of 4] ilog2_loop.simps [of 2] ilog2_loop.simps [of 1]
      ilog2_loop.simps [of 0] drop_bit_eq_div)

lemma sample_slba:
  "libunvmed_get_slba dif_ns (io_offset (sample_pi_io 24)) = Some 4"
  "libunvmed_get_slba sep_ns (io_offset (sample_pi_io 8)) = Some 12"
  by (simp_all add: libunvmed_get_slba_def libunvmed_ns_meta_is_dif_def sample_pi_defs' sample_ilog2
      drop_bit_eq_div)

lemma sample_shape:
  "pi_shape dif_ns (unat (pi_size sample_pi_defs dif_ns)) (sample_pi_io 24) sample_pi_bufs"
  "pi_shape sep_ns (unat (pi_size sample_pi_defs sep_ns)) (sample_pi_io 8) sample_pi_bufs"
  by (simp_all add: pi_shape_def pi_unit_def pi_size_def libunvmed_ns_meta_is_dif_def sample_pi_defs'
      sample_ilog2)

lemma sample_tag: "tag_survives host_ops sample_pi_bufs"
  by code_simp

theorem pi_roundtrip_witness:
  "\<exists>s'. libunvmed_fill_pi host_ops sample_pi_defs sep_ns sample_pi_opts (sample_pi_io 8) zero_sqe sample_pi_bufs
      = Some (pi_sqe sample_pi_defs sep_ns sample_pi_opts 12 zero_sqe, s')
    \<and> libunvmed_verify_pi host_ops sample_pi_defs sep_ns sample_pi_opts
        ((sample_pi_io 8)\<lparr>io_ddir := DDIR_READ\<rparr>) s' = Some (Inr ())"
proof (rule pi_roundtrip [OF host_ops_ok sample_shape(2)])
  show "libunvmed_get_slba sep_ns (io_offset (sample_pi_io 8)) = Some 12" by (rule sample_slba)
qed (simp_all add: sample_pi_defs' prchk_on_def pi_unit_def libunvmed_ns_meta_is_dif_def
      sample_tag [unfolded sample_pi_defs'])

theorem pi_injection_detected_witness:
  "\<exists>s'. libunvmed_fill_pi host_ops sample_pi_defs dif_ns (sample_pi_opts\<lparr>meta_err_injection := 1\<rparr>)
        (sample_pi_io 24) zero_sqe sample_pi_bufs
      = Some (pi_sqe sample_pi_defs dif_ns (sample_pi_opts\<lparr>meta_err_injection := 1\<rparr>) 4 zero_sqe, s')
    \<and> libunvmed_verify_pi host_ops sample_pi_defs dif_ns (sample_pi_opts\<lparr>meta_err_injection := 1\<rparr>)
        ((sample_pi_io 24)\<lparr>io_ddir := DDIR_READ\<rparr>) s' = Some (Inl EIO)"
proof (rule pi_injection_detected [OF host_ops_ok sample_shape(1)])
  show "libunvmed_get_slba dif_ns (io_offset (sample_pi_io 24)) = Some 4" by (rule sample_slba)
qed (simp_all add: sample_pi_defs' prchk_on_def inject_on_def UNVME_ERR_GUARD_def)

lemma pi_mask_rejects_sample:
  "\<exists>s'. libunvmed_fill_pi host_ops sample_pi_defs dif_ns sample_pi_opts (sample_pi_io 24) zero_sqe
        (sample_pi_bufs\<lparr>mo_apptag_mask := 0xff\<rparr>)
      = Some (pi_sqe sample_pi_defs dif_ns sample_pi_opts 4 zero_sqe, s')
    \<and> libunvmed_verify_pi host_ops sample_pi_defs dif_ns sample_pi_opts
        ((sample_pi_io 24)\<lparr>io_ddir := DDIR_READ\<rparr>) s' = Some (Inl EIO)"
proof (rule pi_mask_rejects [OF host_ops_ok])
  show "pi_shape dif_ns (unat (pi_size sample_pi_defs dif_ns)) (sample_pi_io 24) (sample_pi_bufs\<lparr>mo_apptag_mask := 0xff\<rparr>)"
    using sample_shape(1) by (simp add: pi_shape_def)
  show "libunvmed_get_slba dif_ns (io_offset (sample_pi_io 24)) = Some 4" by (rule sample_slba)
  show "\<not> tag_survives host_ops (sample_pi_bufs\<lparr>mo_apptag_mask := 0xff\<rparr>)"
    by code_simp
qed (simp_all add: sample_pi_defs' prchk_on_def inject_on_def UNVME_ERR_GUARD_def)

end
