(* ===== verification/Fio_Opts_Facts.thy ===== *)
theory Fio_Opts_Facts
  imports Fio_Opts Prot_Info_Facts
begin

text \<open>
  What the options of the fio engine mean: the mixes that are accepted and the shares their entries
  get, the requests that no entry gets, and the allocator of the controller memory buffer.
\<close>

unbundle bit_operations_syntax

subsection \<open>Accepted mixes\<close>

text \<open>The sum of the percentages that were given, as the loop has it.\<close>

definition given_sum :: "(u8 \<times> u32) list \<Rightarrow> u32" where
  "given_sum es = sum_list (map snd (filter (\<lambda>e. \<not> is_blank e) es))"

definition entries_ok :: "nat \<Rightarrow> (u8 \<times> u32) list \<Rightarrow> bool" where
  "entries_ok limit es \<longleftrightarrow>
     length es \<le> limit \<and> (\<forall>e \<in> set es. fst e \<noteq> 0xff \<and> (is_blank e \<or> unat (snd e) < 2 ^ 31))"

lemma split_perc_Ok:
  assumes "split_perc s tot = Ok (perc, tot')"
  shows "perc = - 1 \<and> tot' = tot \<or> perc \<noteq> - 1 \<and> unat perc < 2 ^ 31 \<and> tot' = tot + perc"
proof (cases "s = []")
  case False
  with assms obtain n where n: "atoi s = Ok n" "\<not> n < 0" "perc = word_of_int n" "tot' = tot + word_of_int n"
    by (auto simp: split_perc_def split: outcome.splits if_splits)
  have "n < 2 ^ 31"
  proof -
    from n(1) consider "n = 0" | w where "n = sint (w :: u32)"
      by (auto simp: atoi_def split: scanned.splits)
    then show ?thesis using sint_lt [where 'a = 32] by cases auto
  qed
  with n(2) have u: "unat (word_of_int n :: u32) = nat n"
    by (simp add: nat_eq_iff unat_eq_nat_uint uint_word_of_int_eq take_bit_int_eq_self_iff)
  have "(word_of_int n :: u32) \<noteq> - 1"
  proof
    assume "(word_of_int n :: u32) = - 1"
    then have "unat (word_of_int n :: u32) = unat (- 1 :: u32)" by simp
    moreover have "unat (- 1 :: u32) = 2 ^ 32 - 1"
      by (simp add: unsigned_minus_1_eq_mask mask_eq_exp_minus_1)
    ultimately show False using u \<open>n < 2 ^ 31\<close> by simp
  qed
  with n u \<open>n < 2 ^ 31\<close> show ?thesis by (simp add: nat_less_iff)
qed (use assms in \<open>simp add: split_perc_def\<close>)

lemma split_loop_Ok:
  "split_loop limit val toks es tot = (Ok (), es', tot') \<Longrightarrow> entries_ok limit es \<Longrightarrow> tot = given_sum es
   \<Longrightarrow> entries_ok limit es' \<and> tot' = given_sum es'"
proof (induction limit val toks es tot rule: split_loop.induct)
  case (2 limit val tok toks es tot)
  let ?op = "val (takeWhile (\<lambda>c. c \<noteq> CHR ''/'') tok)"
  from "2.prems"(1) obtain perc tot1 where
    step: "split_perc (tl (dropWhile (\<lambda>c. c \<noteq> CHR ''/'') tok)) tot = Ok (perc, tot1)"
      "split_loop limit val toks (es @ [(?op, perc)]) tot1 = (Ok (), es', tot')"
    and cond: "length es < limit" "CHR ''/'' \<in> set tok" "?op \<noteq> 0xff"
    by (auto simp: Let_def split: if_splits outcome.splits prod.splits)
  note p = split_perc_Ok [OF step(1)]
  have "entries_ok limit (es @ [(?op, perc)])"
    using "2.prems"(2) cond p by (auto simp: entries_ok_def is_blank_def)
  moreover have "tot1 = given_sum (es @ [(?op, perc)])"
    using "2.prems"(3) p by (auto simp: given_sum_def is_blank_def)
  ultimately show ?case
    using "2.IH" [OF _ _ refl _ step(1) refl step(2)] cond by simp
qed simp

text \<open>
  An accepted mix has its entries, and the percentages sum, at 32 bits, to 100 less the remainder of
  the division among the blank entries.
\<close>

lemma sum_fill:
  fixes es :: "(u8 \<times> u32) list"
  shows "sum_list (map snd (map (\<lambda>e. if is_blank e then (fst e, w) else e) es))
       = given_sum es + word_of_nat (length (filter is_blank es)) * w"
  by (induction es) (auto simp: given_sum_def algebra_simps)

lemma given_sum_all: "filter is_blank es = [] \<Longrightarrow> sum_list (map snd es) = given_sum es"
  by (simp add: given_sum_def filter_empty_conv)

lemma split_finish_Ok:
  assumes fin: "split_finish es (given_sum es) = (Ok (), es')" and ok: "entries_ok limit es" and lim: "limit < 2 ^ 16"
  shows "2 \<le> length es'" "length es' \<le> limit" "\<forall>e \<in> set es'. fst e \<noteq> 0xff"
    "unat (sum_list (map snd es')) \<le> 100" "100 < unat (sum_list (map snd es')) + length es'"
proof -
  let ?m = "length (filter is_blank es)" and ?t = "given_sum es"
  from fin have len: "length es' = length es" "2 \<le> length es" and t: "unat ?t \<le> 100"
    by (auto simp: split_finish_def Let_def word_less_nat_alt not_less split: if_splits)
  with ok show "2 \<le> length es'" "length es' \<le> limit" by (simp_all add: entries_ok_def)
  have "map fst es' = map fst es"
    using fin by (auto simp: split_finish_def Let_def split: if_splits)
  then have "0xff \<notin> set (map fst es')"
    using ok by (auto simp: entries_ok_def)
  then show "\<forall>e \<in> set es'. fst e \<noteq> 0xff" by force
  have sum: "unat (sum_list (map snd es')) \<le> 100 \<and> 100 < unat (sum_list (map snd es')) + length es'"
  proof (cases "?m = 0")
    case True
    with fin have "es' = es" "?t = 100" by (auto simp: split_finish_def Let_def split: if_splits)
    with True len show ?thesis using given_sum_all [of es] by auto
  next
    case False
    have m: "?m \<le> length es" by (rule length_filter_le)
    moreover have "length es < 2 ^ 32"
      using ok lim by (simp add: entries_ok_def)
    ultimately have "?m < 2 ^ 32" by (rule le_less_trans)
    then have m32: "unat (word_of_nat ?m :: u32) = ?m"
      by (simp add: unat_of_nat)
    define f where "f = (100 - unat ?t) div ?m"
    have fill: "unat ((100 - ?t) div word_of_nat ?m) = f"
      using t m32 by (simp add: f_def unat_div unat_sub word_le_nat_alt)
    from False fin have es': "es' = map (\<lambda>e. if is_blank e then (fst e, (100 - ?t) div word_of_nat ?m) else e) es"
      by (auto simp: split_finish_def Let_def split: if_splits)
    have up: "?m * f \<le> 100 - unat ?t" and low: "100 - unat ?t < ?m * f + ?m"
      using dividend_less_times_div [of ?m "100 - unat ?t"] False
      by (simp_all add: f_def times_div_less_eq_dividend add.commute)
    have "unat (sum_list (map snd es')) = unat ?t + ?m * f"
      unfolding es' sum_fill using up t m32 fill by (simp add: unat_word_ariths)
    with up low t m len show ?thesis by linarith
  qed
  then show "unat (sum_list (map snd es')) \<le> 100" "100 < unat (sum_list (map snd es')) + length es'"
    by auto
qed

lemma parse_split_Ok:
  assumes "parse_split limit val str = (Ok (), es)" "limit < 2 ^ 16"
  shows "2 \<le> length es" "length es \<le> limit" "\<forall>e \<in> set es. fst e \<noteq> 0xff"
    "unat (sum_list (map snd es)) \<le> 100" "100 < unat (sum_list (map snd es)) + length es"
proof -
  from assms(1) obtain es0 tot where loop: "split_loop limit val (strsep_all (CHR '':'') str) [] 0 = (Ok (), es0, tot)"
    and fin: "split_finish es0 tot = (Ok (), es)"
    by (auto simp: parse_split_def split: prod.splits outcome.splits)
  have "entries_ok limit es0 \<and> tot = given_sum es0"
    by (rule split_loop_Ok [OF loop]) (simp_all add: entries_ok_def given_sum_def)
  with fin assms(2) split_finish_Ok [of es0 es limit]
  show "2 \<le> length es" "length es \<le> limit" "\<forall>e \<in> set es. fst e \<noteq> 0xff"
    "unat (sum_list (map snd es)) \<le> 100" "100 < unat (sum_list (map snd es)) + length es"
    by auto
qed

subsection \<open>Shares\<close>

text \<open>The entry a number picks is the one whose range of running sums holds it.\<close>

definition run_sum :: "('e \<Rightarrow> u32) \<Rightarrow> 'e list \<Rightarrow> nat \<Rightarrow> nat" where
  "run_sum perc_of es i = sum_list (map (\<lambda>e. unat (perc_of e)) (take i es))"

lemma run_sum_0 [simp]: "run_sum perc_of es 0 = 0"
  by (simp add: run_sum_def)

lemma run_sum_Suc: "i < length es \<Longrightarrow> run_sum perc_of es (Suc i) = run_sum perc_of es i + unat (perc_of (es ! i))"
  by (simp add: run_sum_def take_Suc_conv_app_nth)

lemma run_sum_mono: "i \<le> j \<Longrightarrow> run_sum perc_of es i \<le> run_sum perc_of es j"
proof (induction j)
  case (Suc j)
  show ?case
  proof (cases "i = Suc j")
    case False
    with Suc have "run_sum perc_of es i \<le> run_sum perc_of es j" by simp
    also have "\<dots> \<le> run_sum perc_of es (Suc j)"
      by (cases "j < length es") (simp add: run_sum_Suc, simp add: run_sum_def)
    finally show ?thesis .
  qed simp
qed simp

lemma pick_map: "pick perc_of r p (map f xs) = map_option f (pick (perc_of \<circ> f) r p xs)"
  by (induction xs arbitrary: p) (simp_all add: Let_def)

lemma pick_range:
  assumes "run_sum perc_of es (length es) < 2 ^ 32" "k \<le> length es" "unat p = run_sum perc_of es k"
    and "run_sum perc_of es k \<le> unat r"
  shows "pick (\<lambda>i. perc_of (es ! i)) r p [k..<length es] = Some i
     \<longleftrightarrow> k \<le> i \<and> i < length es \<and> run_sum perc_of es i \<le> unat r \<and> unat r < run_sum perc_of es (Suc i)"
  using assms(2-)
proof (induction "length es - k" arbitrary: k p)
  case (Suc n)
  then have k: "k < length es" by simp
  have "run_sum perc_of es (Suc k) \<le> run_sum perc_of es (length es)"
    using k by (intro run_sum_mono) simp
  then have p': "unat (p + perc_of (es ! k)) = run_sum perc_of es (Suc k)"
    using Suc.prems(2) assms(1) k by (simp add: run_sum_Suc unat_word_ariths)
  show ?case
  proof (cases "unat r < run_sum perc_of es (Suc k)")
    case True
    have "i = k" if "k \<le> i" "run_sum perc_of es i \<le> unat r"
      using that True run_sum_mono [of "Suc k" i perc_of es] by (cases "i = k") auto
    with True show ?thesis
      using k p' Suc.prems(3) by (auto simp: upt_conv_Cons Let_def word_less_nat_alt)
  next
    case False
    have "pick (\<lambda>i. perc_of (es ! i)) r (p + perc_of (es ! k)) [Suc k..<length es] = Some i
      \<longleftrightarrow> Suc k \<le> i \<and> i < length es \<and> run_sum perc_of es i \<le> unat r \<and> unat r < run_sum perc_of es (Suc i)"
      using Suc.hyps(2) k False by (intro Suc.hyps(1) p') auto
    with False show ?thesis
      using k p' by (auto simp: upt_conv_Cons Let_def word_less_nat_alt not_less elim: le_SucE
          dest: le_antisym)
  qed
qed auto

text \<open>The position of the entry that a number picks, or none.\<close>

definition pick_index :: "('e \<Rightarrow> u32) \<Rightarrow> 'e list \<Rightarrow> nat \<Rightarrow> nat option" where
  "pick_index perc_of es r = pick (\<lambda>i. perc_of (es ! i)) (word_of_nat r) 0 [0..<length es]"

lemma pick_by_index: "pick perc_of (word_of_nat r) 0 es = map_option ((!) es) (pick_index perc_of es r)"
  using pick_map [of perc_of "word_of_nat r" 0 "(!) es" "[0..<length es]"]
  by (simp add: pick_index_def map_nth comp_def)

lemma pick_index_Some:
  assumes "run_sum perc_of es (length es) < 2 ^ 32" "r < 100"
  shows "pick_index perc_of es r = Some i
     \<longleftrightarrow> i < length es \<and> run_sum perc_of es i \<le> r \<and> r < run_sum perc_of es (Suc i)"
  using pick_range [OF assms(1), of 0 0 "word_of_nat r" i] assms(2) by (simp add: pick_index_def unat_of_nat)

lemma pick_index_None:
  assumes "run_sum perc_of es (length es) < 2 ^ 32" "r < 100"
  shows "pick_index perc_of es r = None \<longleftrightarrow> run_sum perc_of es (length es) \<le> r"
proof
  assume none: "pick_index perc_of es r = None"
  have "run_sum perc_of es i \<le> r" if "i \<le> length es" for i
    using that
  proof (induction i)
    case (Suc i)
    then show ?case using none pick_index_Some [OF assms, of i] by fastforce
  qed simp
  then show "run_sum perc_of es (length es) \<le> r" by simp
next
  assume le: "run_sum perc_of es (length es) \<le> r"
  show "pick_index perc_of es r = None"
  proof (cases "pick_index perc_of es r")
    case (Some i)
    then have "i < length es" "r < run_sum perc_of es (Suc i)"
      using pick_index_Some [OF assms] by auto
    with le run_sum_mono [of "Suc i" "length es" perc_of es] show ?thesis by simp
  qed
qed

lemma shares:
  assumes "run_sum perc_of es (length es) \<le> 100" "i < length es"
  shows "card {r. r < 100 \<and> pick_index perc_of es r = Some i} = unat (perc_of (es ! i))"
proof -
  have lt: "run_sum perc_of es (length es) < 2 ^ 32" using assms(1) by simp
  have "run_sum perc_of es (Suc i) \<le> 100"
    using run_sum_mono [of "Suc i" "length es" perc_of es] assms by simp
  then have "{r. r < 100 \<and> pick_index perc_of es r = Some i} = {run_sum perc_of es i..<run_sum perc_of es (Suc i)}"
    using pick_index_Some [OF lt] assms(2) by auto
  then show ?thesis by (simp add: run_sum_Suc assms(2))
qed

lemma unpicked:
  assumes "run_sum perc_of es (length es) \<le> 100"
  shows "card {r. r < 100 \<and> pick_index perc_of es r = None} = 100 - run_sum perc_of es (length es)"
proof -
  have lt: "run_sum perc_of es (length es) < 2 ^ 32" using assms(1) by simp
  have "{r. r < 100 \<and> pick_index perc_of es r = None} = {run_sum perc_of es (length es)..<100}"
    using pick_index_None [OF lt] by auto
  then show ?thesis by simp
qed

lemma all_picked:
  assumes "run_sum perc_of es (length es) \<le> 100"
  shows "(\<forall>r < 100. pick_index perc_of es r \<noteq> None) \<longleftrightarrow> run_sum perc_of es (length es) = 100"
proof -
  have none: "r < 100 \<Longrightarrow> pick_index perc_of es r = None \<longleftrightarrow> run_sum perc_of es (length es) \<le> r" for r
    using assms by (intro pick_index_None) auto
  show ?thesis
  proof
    assume "\<forall>r < 100. pick_index perc_of es r \<noteq> None"
    then have "pick_index perc_of es 99 \<noteq> None" by simp
    with none [of 99] assms show "run_sum perc_of es (length es) = 100" by simp
  qed (use none in simp)
qed

lemma run_sum_full: "run_sum perc_of es (length es) = sum_list (map (\<lambda>e. unat (perc_of e)) es)"
  by (simp add: run_sum_def)

lemma run_sum_exact:
  assumes "\<forall>e \<in> set es. unat (perc_of e) \<le> 100" "length es < 2 ^ 16"
  shows "run_sum perc_of es (length es) = unat (sum_list (map perc_of es))"
proof -
  have "sum_list (map (\<lambda>e. unat (perc_of e)) es) = unat (sum_list (map perc_of es))
      \<and> sum_list (map (\<lambda>e. unat (perc_of e)) es) \<le> 100 * length es"
    using assms
  proof (induction es)
    case (Cons e es)
    then have IH: "sum_list (map (\<lambda>e. unat (perc_of e)) es) = unat (sum_list (map perc_of es))"
      "unat (sum_list (map perc_of es)) \<le> 100 * length es" "unat (perc_of e) \<le> 100"
      by auto
    then have "unat (perc_of e) + unat (sum_list (map perc_of es)) < 2 ^ 32"
      using Cons.prems(2) by simp
    with IH show ?case by (simp add: unat_word_ariths)
  qed simp
  then show ?thesis by (simp add: run_sum_def)
qed

text \<open>The entries that a mix of write modes leaves.\<close>

abbreviation wmode_mix :: "fio_options \<Rightarrow> wmode_split_entry list" where
  "wmode_mix o' \<equiv> take (wmode_split_nr o') (wmode_split o')"

lemma write_mode_mix:
  assumes "str_write_mode_cb d str o' = (Ok (), o1)" "CHR '':'' \<in> set str"
  obtains es where "parse_split WMODE_SPLIT_MAX (wmode_str_to_opcode d) str = (Ok (), es)"
    "wmode_mix o1 = map (\<lambda>(op, perc). \<lparr>ws_opcode = op, ws_cdw12_flag = 0, ws_perc = perc\<rparr>) es"
    "wmode_split_nr o1 = length es" "length (wmode_split o1) = length es + (length (wmode_split o') - length es)"
proof -
  from assms obtain es where "parse_split WMODE_SPLIT_MAX (wmode_str_to_opcode d) str = (Ok (), es)"
    "o1 = o'\<lparr>wmode_split := overwrite
       (map (\<lambda>(op, perc). \<lparr>ws_opcode = op, ws_cdw12_flag = 0, ws_perc = perc\<rparr>) es) (wmode_split o'),
       wmode_split_nr := length es, o_write_mode := FIO_URING_CMD_WMODE_WRITE\<rparr>"
    by (auto simp: str_write_mode_cb_def Let_def split: prod.splits outcome.splits)
  then show ?thesis by (intro that) (simp_all add: overwrite_def)
qed

text \<open>Initialising a job gives the entries of the mix their flags, and keeps opcodes and percentages.\<close>

lemma init_flags_mix:
  assumes "td_writes td" and "1 < wmode_split_nr o'" and "wmode_split_nr o' \<le> length (wmode_split o')"
  shows "wmode_mix (fst (init_flags d td o' ld)) = map (wmode_entry_flag d o') (wmode_mix o')"
    "wmode_split_nr (fst (init_flags d td o' ld)) = wmode_split_nr o'"
  using assms by (simp_all add: init_flags_def Let_def min_absorb2)

lemma entry_flag_keeps [simp]:
  "ws_perc (wmode_entry_flag d o' e) = ws_perc e" "ws_opcode (wmode_entry_flag d o' e) = ws_opcode e"
  by (simp_all add: wmode_entry_flag_def)

lemma prep_picks:
  assumes "1 < wmode_split_nr o'"
  shows "snd (snd (fio_libunvmed_prep d (word_of_nat r) ra DDIR_WRITE marks o' ld)) =
    (case pick_index ws_perc (wmode_mix o') r of
       None \<Rightarrow> ld
     | Some i \<Rightarrow> ld\<lparr>ld_write_opcode := ws_opcode (wmode_mix o' ! i),
                    cdw12_flags := (cdw12_flags ld)(DDIR_WRITE := ws_cdw12_flag (wmode_mix o' ! i))\<rparr>)"
  using assms by (simp add: fio_libunvmed_prep_def pick_by_index Let_def split: option.splits prod.splits)

text \<open>C11. The shares of a mix of write modes. When \<open>str_write_mode_cb()\<close> accepts a mix none of whose
  entries asks for more than 100 percent, and a job that writes is initialised with it: the mix has
  two to four entries with known opcodes; of the hundred numbers that \<open>fio_libunvmed_prep()\<close> draws, it
  gives the write the opcode and the flags of an entry for exactly as many as the percentage of that
  entry; for the others, which are fewer than the entries and which there are none of exactly when
  the percentages sum up to 100, it leaves opcode and flags as they were.\<close>

theorem write_mode_shares:
  assumes "str_write_mode_cb d str o' = (Ok (), o1)" and "CHR '':'' \<in> set str"
    and "\<forall>e \<in> set (wmode_mix o1). unat (ws_perc e) \<le> 100"
    and "td_writes td" and "o2 = fst (init_flags d td o1 ld0)"
  shows "2 \<le> length (wmode_mix o2) \<and> length (wmode_mix o2) \<le> WMODE_SPLIT_MAX
     \<and> (\<forall>e \<in> set (wmode_mix o2). ws_opcode e \<noteq> 0xff)
     \<and> (\<forall>r ra marks ld. snd (snd (fio_libunvmed_prep d (word_of_nat r) ra DDIR_WRITE marks o2 ld)) =
          (case pick_index ws_perc (wmode_mix o2) r of
             None \<Rightarrow> ld
           | Some i \<Rightarrow> ld\<lparr>ld_write_opcode := ws_opcode (wmode_mix o2 ! i),
                          cdw12_flags := (cdw12_flags ld)(DDIR_WRITE := ws_cdw12_flag (wmode_mix o2 ! i))\<rparr>))
     \<and> (\<forall>i < length (wmode_mix o2). card {r. r < 100 \<and> pick_index ws_perc (wmode_mix o2) r = Some i}
            = unat (ws_perc (wmode_mix o2 ! i)))
     \<and> card {r. r < 100 \<and> pick_index ws_perc (wmode_mix o2) r = None} < length (wmode_mix o2)
     \<and> ((\<forall>r < 100. pick_index ws_perc (wmode_mix o2) r \<noteq> None)
          \<longleftrightarrow> sum_list (map (\<lambda>e. unat (ws_perc e)) (wmode_mix o2)) = 100)"
proof -
  from assms(1,2) obtain es where es: "parse_split WMODE_SPLIT_MAX (wmode_str_to_opcode d) str = (Ok (), es)"
    and mix1: "wmode_mix o1 = map (\<lambda>(op, perc). \<lparr>ws_opcode = op, ws_cdw12_flag = 0, ws_perc = perc\<rparr>) es"
    and nr: "wmode_split_nr o1 = length es" "length (wmode_split o1) = length es + (length (wmode_split o') - length es)"
    by (rule write_mode_mix)
  have lim: "WMODE_SPLIT_MAX < 2 ^ 16" by (simp add: WMODE_SPLIT_MAX_def)
  note p = parse_split_Ok [OF es lim]
  have "1 < wmode_split_nr o1" "wmode_split_nr o1 \<le> length (wmode_split o1)" using p(1) nr by auto
  note flags = init_flags_mix [OF assms(4) this, of d ld0, folded assms(5)]
  let ?m = "wmode_mix o2"
  have perc: "map ws_perc ?m = map snd es" "length ?m = length es"
    unfolding flags(1) mix1 by (simp_all add: case_prod_beta)
  have le: "\<forall>e \<in> set ?m. unat (ws_perc e) \<le> 100" using assms(3) unfolding flags(1) by auto
  have "run_sum ws_perc ?m (length ?m) = unat (sum_list (map snd es))"
    using run_sum_exact [OF le] p(2) lim perc by simp
  with p(4,5) perc(2) have sum: "run_sum ws_perc ?m (length ?m) \<le> 100" "100 - run_sum ws_perc ?m (length ?m) < length ?m"
    by auto
  note full = run_sum_full [of ws_perc ?m]
  have "(\<forall>r < 100. pick_index ws_perc ?m r \<noteq> None) \<longleftrightarrow> run_sum ws_perc ?m (length ?m) = 100"
    by (rule all_picked [OF sum(1)])
  moreover have "\<forall>e \<in> set ?m. ws_opcode e \<noteq> 0xff" using p(3) unfolding flags(1) mix1 by auto
  moreover have "card {r. r < 100 \<and> pick_index ws_perc ?m r = None} < length ?m"
    using unpicked [OF sum(1)] sum(2) by simp
  moreover have "1 < wmode_split_nr o2" using flags(2) nr(1) p(1) by simp
  moreover have "2 \<le> length ?m" "length ?m \<le> WMODE_SPLIT_MAX" using p(1,2) unfolding perc(2) .
  ultimately show ?thesis
    unfolding full by (intro conjI allI impI shares [OF sum(1)] prep_picks) assumption+
qed

definition sample_fio_defs :: fio_defs where
  "sample_fio_defs = pi_defs.extend sample_pi_defs
     \<lparr>d_write_uncor = 4, d_verify = 0xc, d_compare = 5, d_flush = 0, d_dsm = 9, d_io_deac = 0x200,
      d_io_fua = 0x4000, d_io_lr = 0x8000, d_io_dtype_streams = 0x10, d_dsmgmt_ad = 4,
      d_nsid_all = 0xffffffff, d_identify_size = 4096\<rparr>"

definition zero_fio_options :: fio_options where
  "zero_fio_options = \<lparr>o_pi_act = False, o_prchk = 0, o_apptag = 0, o_apptag_mask = 0,
     meta_err_injection = 0, o_md_per_io_size = 0, o_nsid = 1, o_sqid = 1, o_cntlid = 0,
     o_admin_cmd = 0, admin_split = replicate 6 \<lparr>as_admin_cmd = 0, as_perc = 0\<rparr>, admin_split_nr = 0,
     o_prp1_offset = 0, o_enable_sgl = False, o_dtype = 0, o_lr = False, o_dspec = 0, o_dsm = 0,
     o_cmb_data = False, o_write_mode = 0,
     wmode_split = replicate 4 \<lparr>ws_opcode = 0, ws_cdw12_flag = 0, ws_perc = 0\<rparr>, wmode_split_nr = 0,
     o_deac = False, o_readfua = False, o_writefua = False, o_verify_mode = 1, o_pi_chk = None\<rparr>"

definition zero_data :: libunvmed_data where
  "zero_data = \<lparr>ld_write_opcode = 0, cdw12_flags = (\<lambda>_. 0), cdw13_flags = (\<lambda>_. 0), nr_queued = 0,
     abort_sqid_max = 0, abort_cid_max = 0\<rparr>"

lemma parse_half:
  "parse_split WMODE_SPLIT_MAX (wmode_str_to_opcode sample_fio_defs) ''write/50:zeroes/:uncor/''
     = (Ok (), [(1, 50), (8, 25), (4, 25)])"
  by code_simp

lemma half_mix:
  "str_write_mode_cb sample_fio_defs ''write/50:zeroes/:uncor/'' zero_fio_options
     = (Ok (), zero_fio_options\<lparr>wmode_split :=
          [\<lparr>ws_opcode = 1, ws_cdw12_flag = 0, ws_perc = 50\<rparr>, \<lparr>ws_opcode = 8, ws_cdw12_flag = 0, ws_perc = 25\<rparr>,
           \<lparr>ws_opcode = 4, ws_cdw12_flag = 0, ws_perc = 25\<rparr>, \<lparr>ws_opcode = 0, ws_cdw12_flag = 0, ws_perc = 0\<rparr>],
          wmode_split_nr := 3, o_write_mode := FIO_URING_CMD_WMODE_WRITE\<rparr>)"
  by (simp add: str_write_mode_cb_def parse_half overwrite_def zero_fio_options_def numeral_eq_Suc)

definition writing_job :: fio_job where
  "writing_job = \<lparr>use_thread = True, nr_files = 1, iodepth = 1, max_bs = (\<lambda>_. 4096),
     min_bs = (\<lambda>_. 4096), td_writes = True, td_trims = False, num_range = 1\<rparr>"

theorem write_mode_shares_witness:
  "\<exists>o1 o2. str_write_mode_cb sample_fio_defs ''write/50:zeroes/:uncor/'' zero_fio_options = (Ok (), o1)
     \<and> o2 = fst (init_flags sample_fio_defs writing_job o1 zero_data)
     \<and> length (wmode_mix o2) = 3 \<and> card {r. r < 100 \<and> pick_index ws_perc (wmode_mix o2) r = Some 1} = 25
     \<and> (\<forall>r < 100. pick_index ws_perc (wmode_mix o2) r \<noteq> None)"
proof -
  define o1 where "o1 = snd (str_write_mode_cb sample_fio_defs ''write/50:zeroes/:uncor/'' zero_fio_options)"
  define o2 where "o2 = fst (init_flags sample_fio_defs writing_job o1 zero_data)"
  have mix: "wmode_mix o1 = [\<lparr>ws_opcode = 1, ws_cdw12_flag = 0, ws_perc = 50\<rparr>,
      \<lparr>ws_opcode = 8, ws_cdw12_flag = 0, ws_perc = 25\<rparr>, \<lparr>ws_opcode = 4, ws_cdw12_flag = 0, ws_perc = 25\<rparr>]"
    "wmode_split_nr o1 = 3" "length (wmode_split o1) = 4"
    by (simp_all add: o1_def half_mix)
  have "td_writes writing_job" by (simp add: writing_job_def)
  then have mix2: "wmode_mix o2 = map (wmode_entry_flag sample_fio_defs o1) (wmode_mix o1)"
    unfolding o2_def using mix by (intro init_flags_mix) simp_all
  have cb: "str_write_mode_cb sample_fio_defs ''write/50:zeroes/:uncor/'' zero_fio_options = (Ok (), o1)"
    by (simp add: o1_def half_mix)
  have "CHR '':'' \<in> set ''write/50:zeroes/:uncor/''" by simp
  moreover have "\<forall>e \<in> set (wmode_mix o1). unat (ws_perc e) \<le> 100" using mix(1) by simp
  ultimately have shares: "\<forall>i < length (wmode_mix o2). card {r. r < 100 \<and> pick_index ws_perc (wmode_mix o2) r = Some i}
        = unat (ws_perc (wmode_mix o2 ! i))"
    and all: "(\<forall>r < 100. pick_index ws_perc (wmode_mix o2) r \<noteq> None)
        \<longleftrightarrow> sum_list (map (\<lambda>e. unat (ws_perc e)) (wmode_mix o2)) = 100"
    using write_mode_shares [OF cb _ _ \<open>td_writes writing_job\<close> o2_def] by blast+
  have vals: "length (wmode_mix o2) = 3" "unat (ws_perc (wmode_mix o2 ! 1)) = 25"
    "sum_list (map (\<lambda>e. unat (ws_perc e)) (wmode_mix o2)) = 100"
    unfolding mix2 mix(1) by simp_all
  have "1 < length (wmode_mix o2)" unfolding vals(1) by simp
  from shares [rule_format, OF this] have "card {r. r < 100 \<and> pick_index ws_perc (wmode_mix o2) r = Some 1} = 25"
    unfolding vals(2) .
  moreover have "\<forall>r < 100. pick_index ws_perc (wmode_mix o2) r \<noteq> None" using all vals(3) by blast
  ultimately show ?thesis using cb o2_def vals(1) by blast
qed

text \<open>
  A number that picks no entry leaves the opcode as it was, at first that of a calloc()ed job: the
  opcode of Flush. Three blank percentages leave such a number.
\<close>

lemma unpicked_keeps_opcode:
  assumes "pick ws_perc r 0 (wmode_mix o') = None"
  shows "fio_libunvmed_prep d r ra DDIR_WRITE marks o' ld = (marks', o1, ld') \<Longrightarrow> ld' = ld"
  using assms by (auto simp: fio_libunvmed_prep_def Let_def split: if_splits)

lemma blank_mix_flushes:
  "case str_write_mode_cb sample_fio_defs ''write/:zeroes/:verify/'' zero_fio_options of
     (r, o1) \<Rightarrow> r = Ok () \<and> ld_write_opcode (snd (snd (fio_libunvmed_prep sample_fio_defs 99 0 DDIR_WRITE {}
        (fst (init_flags sample_fio_defs \<lparr>use_thread = True, nr_files = 1, iodepth = 1, max_bs = (\<lambda>_. 4096),
           min_bs = (\<lambda>_. 4096), td_writes = True, td_trims = False, num_range = 1\<rparr> o1 zero_data))
        (snd (init_flags sample_fio_defs \<lparr>use_thread = True, nr_files = 1, iodepth = 1, max_bs = (\<lambda>_. 4096),
           min_bs = (\<lambda>_. 4096), td_writes = True, td_trims = False, num_range = 1\<rparr> o1 zero_data)))))
      = d_flush sample_fio_defs"
  by code_simp

text \<open>The sum of the percentages wraps, so that a mix of two billion percent is accepted.\<close>

lemma mix_overflow:
  "parse_split WMODE_SPLIT_MAX (wmode_str_to_opcode sample_fio_defs)
     ''write/2147483647:zeroes/2147483647:verify/102'' = (Ok (), [(1, 2147483647), (8, 2147483647), (0xc, 102)])"
  by code_simp

text \<open>The flags of a mix replace those that were set for writes, such as limited retry.\<close>

lemma picked_flags:
  assumes "pick ws_perc r 0 (wmode_mix o') = Some e" "1 < wmode_split_nr o'"
    and "fio_libunvmed_prep d r ra DDIR_WRITE marks o' ld = (marks', o1, ld')"
  shows "cdw12_flags ld' DDIR_WRITE = ws_cdw12_flag e"
  using assms by (auto simp: fio_libunvmed_prep_def Let_def split: if_splits)

subsection \<open>The controller memory buffer\<close>

text \<open>The buffers that allocations of the given lengths return, one after the other.\<close>

fun cmb_run :: "nat \<times> int \<Rightarrow> u64 \<Rightarrow> u64 list \<Rightarrow> nat \<Rightarrow> (nat \<times> nat) list \<times> nat" where
  "cmb_run region ps [] p = ([], p)"
| "cmb_run region ps (l # ls) p =
     (case libunvmed_cmb_alloc region ps l p of
        (None, p') \<Rightarrow> cmb_run region ps ls p'
      | (Some a, p') \<Rightarrow> (case cmb_run region ps ls p' of (bs, q) \<Rightarrow> ((a, unat l) # bs, q)))"

text \<open>Lengths and pages that do not wrap.\<close>

lemma round_up_exact:
  fixes x n :: u64
  assumes "0 < n" "unat x \<le> 2 ^ 62" "unat n \<le> 2 ^ 62"
  shows "unat x \<le> unat (round_up x n) \<and> unat (round_up x n) < 2 ^ 63"
proof -
  have n: "0 < unat n" using assms(1) by (simp add: word_less_nat_alt)
  let ?s = "unat x + unat n - 1"
  have sum: "unat (x + n - 1) = ?s"
  proof -
    have "unat (x + n) = unat x + unat n" using assms by (subst unat_add_lem [symmetric]) (simp add: unat_plus_if_size word_size)
    moreover have "1 \<le> x + n" using calculation n by (simp add: word_le_nat_alt)
    ultimately show ?thesis by (simp add: unat_sub)
  qed
  have le: "?s div unat n * unat n \<le> ?s" by (rule div_times_less_eq_dividend)
  then have "unat (round_up x n) = ?s div unat n * unat n"
  proof -
    have "unat (round_up x n) = ?s div unat n * unat n mod 2 ^ 64"
      using sum by (simp add: round_up_def unat_word_ariths(2) unat_div)
    moreover have "?s div unat n * unat n < 2 ^ 64" by (rule le_less_trans [OF le]) (use assms(2,3) in simp)
    ultimately show ?thesis by simp
  qed
  moreover have "?s < ?s div unat n * unat n + unat n" using dividend_less_div_times [OF n, of ?s] by simp
  moreover have "?s < 2 ^ 63" using assms(2,3) n by simp
  ultimately show ?thesis using le by linarith
qed

lemma cmb_alloc_exact:
  assumes "0 < ps" "unat ps \<le> 2 ^ 62" "unat l \<le> 2 ^ 62" "int base + sz < 2 ^ 63" "0 < base" "p = 0 \<or> base \<le> p \<and> int p \<le> int base + sz"
    and "libunvmed_cmb_alloc (base, sz) ps l p = (r, p')"
  shows "p \<le> p' \<and> (p' = 0 \<or> base \<le> p' \<and> int p' \<le> int base + sz)
    \<and> (\<forall>a. r = Some a \<longrightarrow> base \<le> a \<and> p \<le> a \<and> a + unat l \<le> p' \<and> int p' \<le> int base + sz)"
proof (cases "sz \<le> 0")
  case False
  define p0 where "p0 = (if p = 0 then base else p)"
  have len: "unat l \<le> unat (round_up l ps)" "unat (round_up l ps) < 2 ^ 63" using round_up_exact [OF assms(1,3,2)] by auto
  have p: "base \<le> p0" "p \<le> p0" "int p0 \<le> int base + sz" using assms(6) False by (auto simp: p0_def)
  then have "int p0 < int (2 ^ 63)" using assms(4) by simp
  then have small: "p0 < 2 ^ 63" by (simp only: of_nat_less_iff)
  then have "unat (word_of_nat p0 :: u64) = p0" by (simp add: unat_of_nat)
  then have nxt: "unat (word_of_nat p0 + round_up l ps) = p0 + unat (round_up l ps)"
    using len(2) small by (simp add: unat_plus_if_size word_size)
  have lim: "unat (word_of_nat base + word_of_int sz :: u64) = nat (int base + sz)"
  proof -
    have "unat (word_of_int k :: u64) = nat k" if "0 \<le> k" "k < 2 ^ 64" for k
      using that by (simp add: unsigned_of_int take_bit_int_eq_self)
    from this [of "int base + sz"] show ?thesis using False assms(4) by simp
  qed
  obtain n where n: "n = unat (round_up l ps)" by simp
  then have "(r, p') = (if nat (int base + sz) < p0 + n then (None, p0) else (Some p0, p0 + n))"
    using assms(7) False by (auto simp: libunvmed_cmb_alloc_def Let_def word_less_nat_alt nxt lim simp flip: p0_def)
  then show ?thesis using p len(1) [folded n] assms(5) by (auto split: if_splits)
qed (use assms(6,7) in \<open>auto simp: libunvmed_cmb_alloc_def\<close>)

lemma cmb_run_bounds:
  assumes "0 < ps" "unat ps \<le> 2 ^ 62" "int base + sz < 2 ^ 63" "0 < base"
  shows "cmb_run (base, sz) ps ls p = (bs, q) \<Longrightarrow> p = 0 \<or> base \<le> p \<and> int p \<le> int base + sz
     \<Longrightarrow> \<forall>l \<in> set ls. unat l \<le> 2 ^ 62
     \<Longrightarrow> sorted_wrt (\<lambda>(a, l) (a', l'). a + l \<le> a') bs
       \<and> (\<forall>(a, l) \<in> set bs. base \<le> a \<and> p \<le> a \<and> int (a + l) \<le> int base + sz)"
proof (induction ls arbitrary: p bs q)
  case (Cons l ls)
  obtain r p' where r: "libunvmed_cmb_alloc (base, sz) ps l p = (r, p')" by fastforce
  have "unat l \<le> 2 ^ 62" using Cons.prems(3) by simp
  note step = cmb_alloc_exact [OF assms(1,2) this assms(3,4) Cons.prems(2) r]
  have rest: "\<forall>l \<in> set ls. unat l \<le> 2 ^ 62" using Cons.prems(3) by simp
  show ?case
  proof (cases r)
    case None
    with Cons.prems(1) r have "cmb_run (base, sz) ps ls p' = (bs, q)" by simp
    from Cons.IH [OF this _ rest] step show ?thesis by fastforce
  next
    case (Some a)
    from Cons.prems(1) r Some obtain bs' where run: "cmb_run (base, sz) ps ls p' = (bs', q)" "bs = (a, unat l) # bs'"
      by (auto split: prod.splits)
    have a: "base \<le> a" "p \<le> a" "a + unat l \<le> p'" "int p' \<le> int base + sz" and p': "p' = 0 \<or> base \<le> p' \<and> int p' \<le> int base + sz"
      using step Some by auto
    from Cons.IH [OF run(1) p' rest] have "sorted_wrt (\<lambda>(a, l) (a', l'). a + l \<le> a') bs'"
      and bs': "\<And>x y. (x, y) \<in> set bs' \<Longrightarrow> base \<le> x \<and> p' \<le> x \<and> int (x + y) \<le> int base + sz" by auto
    moreover have "a + unat l \<le> x \<and> p \<le> x" if "(x, y) \<in> set bs'" for x y using bs' [OF that] a by linarith
    moreover have "int (a + unat l) \<le> int base + sz" using a by linarith
    ultimately show ?thesis unfolding run(2) using a(1,2) by auto
  qed
qed simp

text \<open>C23. Buffers of the controller memory buffer. As long as the region ends below half of the address
  space and neither a length nor the page size exceeds a quarter of it, so that no 64-bit sum wraps:
  however many buffers the jobs allocate before one of them frees them, each lies in the memory
  region, and each starts after the end of those that were allocated before it.\<close>

theorem cmb_buffers_disjoint:
  assumes "0 < ps" and "unat ps \<le> 2 ^ 62" and "0 < base" and "int base + sz < 2 ^ 63"
    and "\<forall>l \<in> set ls. unat l \<le> 2 ^ 62" and "cmb_run (base, sz) ps ls 0 = (bs, q)"
  shows "(\<forall>(a, l) \<in> set bs. base \<le> a \<and> int (a + l) \<le> int base + sz)
     \<and> sorted_wrt (\<lambda>(a, l) (a', l'). a + l \<le> a') bs"
  using cmb_run_bounds [OF assms(1,2,4,3,6)] assms(5) by fastforce

theorem cmb_buffers_disjoint_witness:
  "cmb_run (4096, 16384) 4096 [5000, 100, 9000, 10] 0 = ([(4096, 5000), (12288, 100), (16384, 10)], 20480)
   \<and> sorted_wrt (\<lambda>(a, l) (a', l'). a + l \<le> a') [(4096 :: nat, 5000), (12288, 100), (16384, 10)]"
proof -
  have run: "cmb_run (4096, 16384) 4096 [5000, 100, 9000, 10] 0 = ([(4096, 5000), (12288, 100), (16384, 10)], 20480)"
    by code_simp
  from cmb_buffers_disjoint [OF _ _ _ _ _ run] run show ?thesis by simp
qed

text \<open>
  A length that wraps when it is rounded up to pages is accepted, and reserves nothing: the next
  buffer has the same address.
\<close>

lemma cmb_huge_length: "libunvmed_cmb_alloc (4096, 16384) 4096 (- 1) 4096 = (Some 4096, 4096)"
  by code_simp

text \<open>
  Freeing is for all jobs: once one job has freed its buffers, the next allocation gets memory that
  another job still uses.
\<close>

lemma cmb_free_overlap:
  assumes "libunvmed_cmb_alloc (base, sz) ps l 0 = (Some a, p)"
  shows "libunvmed_cmb_alloc (base, sz) ps l (libunvmed_cmb_free_all p) = (Some a, p)"
  using assms by (simp add: libunvmed_cmb_free_all_def)

end
