(* ===== verification/Fio_Mem_Facts.thy ===== *)
theory Fio_Mem_Facts
  imports Fio_Mem Fio_Opts_Facts
begin

text \<open>
  The buffers of a fio job: mapping them again is all or nothing, and the PRP lists of different
  I/Os do not share memory, except in the controller memory buffer.
\<close>

unbundle bit_operations_syntax

subsection \<open>Mapping is all or nothing\<close>

text \<open>The buffers of a list that are present, and what has been mapped since a state.\<close>

definition present :: "(bool \<times> nat) list \<Rightarrow> nat list" where
  "present bs = map snd (filter fst bs)"

definition mapped_since ::
  "('m \<Rightarrow> nat set) \<Rightarrow> ('m, 'z) unvme_dma_scheme \<Rightarrow> (bool \<times> nat) list \<Rightarrow> ('m, 'z) unvme_dma_scheme \<Rightarrow> bool" where
  "mapped_since mapped u0 bs u \<longleftrightarrow>
     bdf u = bdf u0 \<and> ledger mapped u = ledger mapped u0 \<union> Mapping ` set (present bs)
   \<and> distinct (present bs) \<and> (\<forall>a \<in> set (present bs). Mapping a \<notin> ledger mapped u0)"

lemma present_simps [simp]:
  "present [] = []" "present ((p, a) # bs) = (if p then a # present bs else present bs)"
  by (simp_all add: present_def)

lemma mapped_since_refl: "mapped_since mapped u [] u"
  by (simp add: mapped_since_def)

lemma map_buffer_outcome:
  assumes laws: "dma_laws ops mapped" and since: "mapped_since mapped u0 bs (snd s)"
  obtains e where "map_buffer ops p a len put s = (Fail e, s)"
  | s' where "map_buffer ops p a len put s = (Ok (), s')" "mapped_since mapped u0 ((p, a) # bs) (snd s')"
      "fst s' = fst s \<or> (\<exists>i. fst s' = put i (fst s))"
proof (cases p)
  case True
  show ?thesis
  proof (rule map_vaddr_cases [OF laws, of a len 0 "snd s"])
    fix e assume "unvmed_map_vaddr ops a len 0 (snd s) = (Fail e, snd s)"
    with True show ?thesis by (intro that(1) [of e]) (simp add: map_buffer_def)
  next
    fix i m
    assume m: "unvmed_map_vaddr ops a len 0 (snd s) = (Ok i, (snd s)\<lparr>iommu := m\<rparr>)"
      "Mapping a \<notin> ledger mapped (snd s)"
      "ledger mapped ((snd s)\<lparr>iommu := m\<rparr>) = insert (Mapping a) (ledger mapped (snd s))"
    from since m(2,3) True have "mapped_since mapped u0 ((p, a) # bs) ((snd s)\<lparr>iommu := m\<rparr>)"
      by (auto simp: mapped_since_def)
    with True m(1) show ?thesis
      by (intro that(2) [of "(put i (fst s), (snd s)\<lparr>iommu := m\<rparr>)"]) (auto simp: map_buffer_def)
  qed
next
  case False
  with since show ?thesis
    by (intro that(2) [of s]) (simp_all add: map_buffer_def mapped_since_def)
qed

lemma unmap_all:
  assumes "dma_laws ops mapped" "bdf u0 \<noteq> None"
  shows "mapped_since mapped u0 bs u \<Longrightarrow> mapped_since mapped u0 [] (fold (unmap_buffer ops) bs u)"
proof (induction bs arbitrary: u)
  case (Cons b bs)
  obtain p a where b: "b = (p, a)" by fastforce
  have "mapped_since mapped u0 bs (unmap_buffer ops b u)"
  proof (cases p)
    case True
    have "bdf u \<noteq> None" "Mapping a \<in> ledger mapped u"
      using Cons.prems assms(2) True by (auto simp: b mapped_since_def)
    from unmap_vaddr_ok [OF assms(1) this] obtain m where
      m: "unvmed_unmap_vaddr ops a u = (Ok (), u\<lparr>iommu := m\<rparr>)"
        "ledger mapped (u\<lparr>iommu := m\<rparr>) = ledger mapped u - {Mapping a}"
      by blast
    with Cons.prems True show ?thesis
      by (auto simp: b mapped_since_def unmap_buffer_def ignore_def)
  next
    case False
    with Cons.prems show ?thesis by (simp add: b mapped_since_def unmap_buffer_def)
  qed
  with Cons.IH show ?case by simp
qed simp

text \<open>Everything is mapped, or nothing more than before.\<close>

definition all_or_nothing ::
  "('m \<Rightarrow> nat set) \<Rightarrow> ('m, 'z) unvme_dma_scheme \<Rightarrow> (bool \<times> nat) list \<Rightarrow> unit outcome \<times> ('m, 'z) mem_state \<Rightarrow> bool" where
  "all_or_nothing mapped u0 bs r \<longleftrightarrow>
     (case r of (Ok _, s) \<Rightarrow> mapped_since mapped u0 bs (snd s)
              | (Fail e, s) \<Rightarrow> mapped_since mapped u0 [] (snd s)
              | (Fault, s) \<Rightarrow> False)"

lemma or_undo_map:
  assumes laws: "dma_laws ops mapped" and att: "bdf u0 \<noteq> None" and since: "mapped_since mapped u0 bs (snd s)"
    and nxt: "\<And>s'. mapped_since mapped u0 ((p, a) # bs) (snd s') \<Longrightarrow> all_or_nothing mapped u0 all (next s')"
  shows "all_or_nothing mapped u0 all (or_undo (map_buffer ops p a len put s) (rollback ops e bs) next)"
  using laws since
proof (rule map_buffer_outcome [where p = p and a = a and len = len and put = put])
  fix e' assume "map_buffer ops p a len put s = (Fail e', s)"
  then show ?thesis
    using unmap_all [OF laws att since] by (simp add: or_undo_def rollback_def all_or_nothing_def)
next
  fix s' assume "map_buffer ops p a len put s = (Ok (), s')" "mapped_since mapped u0 ((p, a) # bs) (snd s')"
  then show ?thesis using nxt by (simp add: or_undo_def)
qed

lemma or_undo_nested:
  assumes "all_or_nothing mapped u0 bs r"
    and "\<And>s'. mapped_since mapped u0 bs (snd s') \<Longrightarrow> all_or_nothing mapped u0 all (next s')"
  shows "all_or_nothing mapped u0 all (or_undo r (\<lambda>s. (Fail e, s)) next)"
proof (cases "fst r")
  case (Ok x)
  then have "or_undo r (\<lambda>s. (Fail e, s)) next = next (snd r)"
    by (cases r) (simp add: or_undo_def)
  moreover have "mapped_since mapped u0 bs (snd (snd r))"
    using assms(1) Ok by (cases r) (simp add: all_or_nothing_def)
  ultimately show ?thesis using assms(2) [of "snd r"] by simp
qed (use assms(1) in \<open>cases r, simp add: all_or_nothing_def or_undo_def\<close>)+

text \<open>The buffers that are mapped, the last first.\<close>

definition orig_part :: "bool \<Rightarrow> fio_mem \<Rightarrow> bool \<times> nat" where
  "orig_part cmb_data mm = (orig_buffer_size mm \<noteq> 0 \<and> \<not> cmb_data, orig_buffer mm)"

definition mem_buffers :: "bool \<Rightarrow> fio_mem \<Rightarrow> (bool \<times> nat) list" where
  "mem_buffers cmb_data mm =
     [(prp_list_iomem mm \<noteq> 0, prp_list_iomem mm), (prp_iomem mm \<noteq> 0, prp_iomem mm), orig_part cmb_data mm]"

definition job_buffers :: "bool \<Rightarrow> fio_mem \<Rightarrow> (bool \<times> nat) list" where
  "job_buffers cmb_data mm =
     (trim_iomem mm \<noteq> 0, trim_iomem mm) # (meta_iomem mm \<noteq> 0, meta_iomem mm) # mem_buffers cmb_data mm"

lemma map_orig_all:
  assumes "dma_laws ops mapped"
  shows "all_or_nothing mapped (snd s) [orig_part cmb_data (fst s)] (map_orig_buffer ops cmb_data s)"
proof (cases "fst (orig_part cmb_data (fst s))")
  case True
  from assms mapped_since_refl show ?thesis
    by (rule map_buffer_outcome [where p = True and a = "orig_buffer (fst s)" and s = s
          and len = "orig_buffer_size (fst s)" and put = "\<lambda>iova mm. mm\<lparr>orig_buffer_iova := iova\<rparr>"])
      (use True in \<open>auto simp: map_orig_buffer_def Let_def orig_part_def all_or_nothing_def mapped_since_refl\<close>)
next
  case False
  then show ?thesis
    by (auto simp: map_orig_buffer_def Let_def orig_part_def all_or_nothing_def mapped_since_def)
qed

lemma map_mems_all:
  assumes "dma_laws ops mapped" "bdf (snd s) \<noteq> None"
  shows "all_or_nothing mapped (snd s) (mem_buffers cmb_data (fst s)) (libunvmed_map_mems ops cmb_data s)"
  unfolding libunvmed_map_mems_def Let_def mem_buffers_def orig_part_def [symmetric]
  by (intro or_undo_nested [OF map_orig_all [OF assms(1)]] or_undo_map [OF assms])
    (simp_all add: all_or_nothing_def)

text \<open>C22. Mapping the buffers of a job again after its controller was re-initialised is all or nothing.
  When \<open>libunvmed_remap_mems_cb()\<close> succeeds, exactly its data buffer (unless it is in the controller
  memory buffer), PRP, PRP list, metadata and trim buffers are mapped in addition; when any mapping
  fails, the memory and the mappings are those from before the call. No buffer is mapped twice.\<close>

theorem remap_all_or_nothing:
  assumes laws: "dma_laws ops mapped" and att: "bdf (snd s) \<noteq> None"
    and orig: "orig_buffer_size (fst s) \<noteq> 0 \<longrightarrow> orig_buffer (fst s) \<noteq> 0"
    and run: "libunvmed_remap_mems_cb ops epoch cmb_data s = (r, mm', u')"
  shows "r = Ok () \<and> ledger mapped u' = ledger mapped (snd s) \<union> Mapping ` set (present (job_buffers cmb_data (fst s)))
       \<and> distinct (present (job_buffers cmb_data (fst s)))
       \<and> (\<forall>a \<in> set (present (job_buffers cmb_data (fst s))). Mapping a \<notin> ledger mapped (snd s))
     \<or> r = Fail EFAULT \<and> ledger mapped u' = ledger mapped (snd s)"
proof -
  have o1: "(orig_buffer (fst s) \<noteq> 0 \<and> orig_buffer_size (fst s) \<noteq> 0 \<and> \<not> cmb_data, orig_buffer (fst s))
      = orig_part cmb_data (fst s)"
    using orig by (auto simp: orig_part_def)
  have "all_or_nothing mapped (snd s) (job_buffers cmb_data (fst s)) (libunvmed_remap_mems_cb ops epoch cmb_data s)"
    unfolding libunvmed_remap_mems_cb_def Let_def job_buffers_def o1 mem_buffers_def [symmetric]
    by (intro or_undo_nested [OF map_mems_all [OF laws att]] or_undo_map [OF laws att])
      (simp_all add: all_or_nothing_def)
  moreover have "\<forall>e. r = Fail e \<longrightarrow> e = EFAULT"
    using run by (auto simp: libunvmed_remap_mems_cb_def Let_def or_undo_def rollback_def
        split: prod.splits outcome.splits)
  ultimately show ?thesis
    using run by (cases r) (auto simp: all_or_nothing_def mapped_since_def)
qed

definition sample_mem :: fio_mem where
  "sample_mem = \<lparr>orig_buffer = 4096, orig_buffer_size = 4096, orig_buffer_iova = 0, prp_iomem = 0,
     prp_iomem_size = 0, prp_iomem_usize = 0, prp_list_iomem = 8192, prp_list_iomem_size = 4096,
     prp_list_iomem_usize = 4096, prp_list_nr_lists = 1, prp_list_iomem_iova = 0, meta_iomem = 12288,
     meta_iomem_size = 4096, meta_iomem_iova = 0, trim_iomem = 0, trim_iomem_size = 0,
     trim_iomem_iova = 0, ld_epoch = 0\<rparr>"

theorem remap_all_or_nothing_witness:
  "case libunvmed_remap_mems_cb sample_ops 1 False (sample_mem, sample_dma) of
     (r, mm', u') \<Rightarrow> r = Ok () \<and> ledger id u' = {Mapping 4096, Mapping 8192, Mapping 12288}"
proof -
  obtain r mm' u' where run: "libunvmed_remap_mems_cb sample_ops 1 False (sample_mem, sample_dma) = (r, mm', u')"
    by (metis prod_cases3)
  have ok: "r = Ok ()"
    using run by (auto simp: libunvmed_remap_mems_cb_def libunvmed_map_mems_def Let_def or_undo_def map_orig_buffer_def
        map_buffer_def sample_mem_def unvmed_map_vaddr_def sample_ops_def sample_dma_def)
  from remap_all_or_nothing [OF sample_ops_laws _ _ run] ok show ?thesis
    unfolding run by (auto simp: sample_dma_def sample_mem_def job_buffers_def mem_buffers_def orig_part_def ledger_def)
qed

subsection \<open>PRP lists\<close>

text \<open>
  In host memory the lists of two I/Os are apart by the pages of a list. In the controller memory
  buffer the distance is never set: every I/O builds its list in the same page.
\<close>

lemma host_lists_apart:
  assumes "alloc_lists ops False bs depth p s = (Ok (), (mm', u'), p')" "i < j"
  shows "prp_list_of mm' i + unat (prp_list_iomem_usize mm') \<le> prp_list_of mm' j"
proof -
  have "Suc i * unat (prp_list_iomem_usize mm') \<le> j * unat (prp_list_iomem_usize mm')"
    using assms(2) by (intro mult_le_mono1) simp
  then show ?thesis by (simp add: prp_list_of_def)
qed

lemma cmb_lists_shared:
  assumes "alloc_lists ops True bs depth p s = (Ok (), (mm', u'), p')" "prp_list_iomem_usize (fst s) = 0"
  shows "prp_list_of mm' i = prp_list_of mm' j"
proof -
  have "prp_list_iomem_usize mm' = 0"
    using assms by (auto simp: alloc_lists_def Let_def split: prod.splits option.splits)
  then show ?thesis by (simp add: prp_list_of_def)
qed

text \<open>
  When the PRP lists cannot be allocated, a data buffer in the controller memory buffer is passed to
  \<open>free()\<close>.
\<close>

lemma lists_failure_frees_cmb:
  assumes "unvmed_pgmap ops (word_of_int (sint (ucast (prp_list_pages bs (unvmed_pagesize ops u)) :: u32))
             * unvmed_pagesize ops u * ucast depth) u = (Fail e, u)"
    and "prp_iomem mm = 0" "orig_buffer mm \<noteq> 0" "orig_buffer mm \<notin> heap u"
  shows "fst (alloc_lists ops False bs depth p (mm, u)) = Fault"
  using assms by (simp add: alloc_lists_def Let_def free_if_def unvmed_pgunmap_def)

end
