(* ===== verification/Fio_Queue_Facts.thy ===== *)
theory Fio_Queue_Facts
  imports Fio_Queue Fio_Mem_Facts Issue_Facts Timer_Facts
begin

unbundle bit_operations_syntax

text \<open>
  What the I/O path of the fio engine does with commands: an I/O that is queued holds one command
  with its buffers and its request, the event of its completion gives exactly that back and finds
  the I/O again, and an I/O that is refused holds nothing. The proofs follow one command through
  the steps of the path, over the ledger of commands, requests and memory of \<open>Cmd_Life\<close>.
\<close>

subsection \<open>One command in the ledger\<close>

definition handle :: "cmd_ref \<Rightarrow> unvme_cmd \<Rightarrow> cmd_handle" where
  "handle r c = (r, c_buf c, c_mbuf c, the (c_rq c))"

text \<open>The command at \<open>r\<close> is in use, and beside what it owns the ledger is \<open>base\<close>.\<close>

definition held_cmd ::
  "('m, 'r) cmd_env \<Rightarrow> cmd_item set \<Rightarrow> 'r unvme_sq \<Rightarrow> ('m, 'z) unvme_dma_scheme \<Rightarrow> cmd_ref \<Rightarrow> unvme_cmd \<Rightarrow> bool" where
  "held_cmd env base usq u r c \<longleftrightarrow> cmd_sys_wf (env, usq, u) \<and> r \<in> live_refs usq \<and> cmd_at usq r = Some c
     \<and> cmd_sys_live (env, usq, u) = base \<union> cmd_owns (handle r c) \<and> base \<inter> cmd_owns (handle r c) = {}
     \<and> (\<forall>b mb rq. ItemCmd r b mb rq \<notin> base)"

lemma alloc_slot:
  assumes "unvmed_cmd_alloc_u2 sops None vcq_id usq = (Ok r, usq')"
  shows "r \<noteq> Conflict"
  using assms by (auto simp: unvmed_cmd_alloc_u2_def cmd_alloc_finish_def split: outcome.splits prod.splits if_splits)

definition no_cid :: "alloc_req \<Rightarrow> bool" where
  "no_cid req \<longleftrightarrow> (case req of ReqBuf cid _ _ \<Rightarrow> cid = None | ReqNodata cid \<Rightarrow> cid = None
     | ReqCid cid _ \<Rightarrow> cid = None | ReqMeta cid _ _ _ _ \<Rightarrow> cid = None)"

lemma init_slot:
  assumes "unvmed_cmd_init_u2 ops sops None buf len mbuf mlen vcq_id (usq, u) = (Ok r, usq', u')"
  shows "r \<noteq> Conflict"
proof -
  obtain out usq1 where alloc: "unvmed_cmd_alloc_u2 sops None vcq_id usq = (out, usq1)" by fastforce
  with assms have "out = Ok r"
    by (auto simp: unvmed_cmd_init_u2_def cmd_init_meta_def fail_after_def
        split: outcome.splits option.splits prod.splits)
  with alloc alloc_slot show ?thesis by blast
qed

lemma serve_slot:
  assumes "serve_req ops sops req (usq, u) = (Ok r, usq', u')" and "no_cid req"
  shows "r \<noteq> Conflict"
  using assms
  by (cases req) (auto simp: no_cid_def unvmed_alloc_cmd_def unvmed_alloc_cmd_nodata_def
      unvmed_alloc_cmd_cid_def unvmed_alloc_cmd_meta_def dest!: init_slot split: if_splits)

lemma acquire_held:
  assumes "cmd_sys_wf (env, usq, u)"
    and run: "serve_req (e_dma env) (e_sq env) req (usq, u) = (Ok r, usq', u')"
  shows "\<exists>c. held_cmd env (cmd_sys_live (env, usq, u)) usq' u' r c"
proof -
  have laws: "dma_laws (e_dma env) (e_mapped env)" "bdf u \<noteq> None" "sq_inv usq"
    using assms(1) by (auto simp: cmd_sys_wf_def cmd_env_laws_def)
  obtain b mb rq where init: "init_ok (e_sq env) usq r b mb rq usq'"
    using serve_req_spec [OF laws, of "e_sq env" req] run by (auto simp: init_outcome_def)
  then obtain c where c: "cmd_at usq' r = Some c" "r \<in> live_refs usq'" by (auto simp: init_ok_def)
  have "cmd_acquire req (env, usq, u) = (Ok (handle r c), env, usq', u')"
    using run c(1) by (simp add: cmd_acquire_def handle_def)
  moreover have "ItemCmd r b' mb' rq' \<notin> cmd_sys_live (env, usq, u)" for b' mb' rq'
    using init_items [OF init] by (auto simp: cmd_sys_live_def)
  ultimately show ?thesis
    using cmd_acquire_spec [OF assms(1), of req] c by (auto simp: held_cmd_def Int_commute)
qed

text \<open>Changing the command without its identity and what it owns.\<close>

definition same_owner :: "unvme_cmd \<Rightarrow> unvme_cmd \<Rightarrow> bool" where
  "same_owner c d \<longleftrightarrow> c_refcnt d = c_refcnt c \<and> c_rq d = c_rq c \<and> c_injected d = c_injected c
     \<and> c_cid d = c_cid c \<and> c_state d \<noteq> UNVME_CMD_S_INIT
     \<and> buf_owns (c_buf d) = buf_owns (c_buf c) \<and> buf_owns (c_mbuf d) = buf_owns (c_mbuf c)"

lemma live_refs_set:
  assumes "r \<in> live_refs usq" and "c_state d \<noteq> UNVME_CMD_S_INIT"
  shows "live_refs (cmd_set usq r d) = live_refs usq"
  using assms by (cases r) (auto simp: live_refs_def split: if_splits)

lemma sys_live_set:
  assumes at: "cmd_at usq r = Some c" and r: "r \<in> live_refs usq" and "c_state d \<noteq> UNVME_CMD_S_INIT"
  shows "cmd_sys_live (env, cmd_set usq r d, u) =
    insert (ItemCmd r (c_buf d) (c_mbuf d) (the (c_rq d)))
      (cmd_sys_live (env, usq, u) - {ItemCmd r (c_buf c) (c_mbuf c) (the (c_rq c))})"
proof -
  let ?usq = "cmd_set usq r d"
  have "cmd_item ?usq ` (live_refs usq - {r}) = cmd_item usq ` (live_refs usq - {r})"
    using cmd_at_set [OF at] by (intro image_cong) (auto intro: cmd_item_cong)
  also have "\<dots> = cmd_items usq - {cmd_item usq r}"
    using image_set_diff [OF cmd_item_inj, of usq "live_refs usq" "{r}"] by (simp add: cmd_items_def)
  finally have "cmd_items ?usq = insert (cmd_item ?usq r) (cmd_items usq - {cmd_item usq r})"
    using live_refs_set [OF r assms(3)] r
    by (simp add: cmd_items_def) (metis image_insert insert_Diff)
  moreover have "cmd_item ?usq r = ItemCmd r (c_buf d) (c_mbuf d) (the (c_rq d))"
    "cmd_item usq r = ItemCmd r (c_buf c) (c_mbuf c) (the (c_rq c))"
    using cmd_at_set [OF at] at by (simp_all add: cmd_item_def)
  moreover have "sq_rqs ?usq = sq_rqs usq" by (simp add: sq_rqs_def)
  ultimately show ?thesis by (auto simp: cmd_sys_live_def)
qed

lemma sys_wf_set:
  assumes wf: "cmd_sys_wf (env, usq, u)" and at: "cmd_at usq r = Some c" and r: "r \<in> live_refs usq"
    and same: "same_owner c d"
  shows "cmd_sys_wf (env, cmd_set usq r d, u)"
proof -
  have inv: "sq_inv usq" and one: "single_refs usq" using wf by (auto simp: cmd_sys_wf_def)
  note live = live_refs_set [OF r, of d]
  have "cmd_live r c" using sq_inv_cmd [OF inv at] r by simp
  then have d: "cmd_live r d" using same by (cases r) (auto simp: cmd_live_def same_owner_def)
  have "sq_inv (cmd_set usq r d)"
    using inv live r d same cmd_at_set [OF at, of d] unfolding sq_inv_def
    by (auto simp: same_owner_def split: if_splits)
  moreover have "single_refs (cmd_set usq r d)"
    using one live r same cmd_at_set [OF at, of d] at unfolding single_refs_def
    by (auto simp: same_owner_def split: if_splits)
  ultimately show ?thesis using wf by (simp add: cmd_sys_wf_def sq_rqs_def)
qed

lemma held_update:
  assumes "held_cmd env base usq u r c" and "same_owner c d"
  shows "held_cmd env base (cmd_set usq r d) u r d"
proof -
  have h: "cmd_sys_wf (env, usq, u)" "r \<in> live_refs usq" "cmd_at usq r = Some c"
    "cmd_sys_live (env, usq, u) = base \<union> cmd_owns (handle r c)" "base \<inter> cmd_owns (handle r c) = {}"
    "\<And>b mb rq. ItemCmd r b mb rq \<notin> base"
    using assms(1) by (auto simp: held_cmd_def)
  have st: "c_state d \<noteq> UNVME_CMD_S_INIT" using assms(2) by (simp add: same_owner_def)
  have own: "cmd_owns (handle r d) = insert (ItemCmd r (c_buf d) (c_mbuf d) (the (c_rq d)))
      (cmd_owns (handle r c) - {ItemCmd r (c_buf c) (c_mbuf c) (the (c_rq c))})"
    using assms(2) by (auto simp: cmd_owns_def handle_def same_owner_def)
  show ?thesis
    unfolding held_cmd_def
    using sys_wf_set [OF h(1,3,2) assms(2)] live_refs_set [OF h(2) st] h(2) cmd_at_set [OF h(3), of d]
      sys_live_set [OF h(3,2) st, of env u] h(4-6) own by auto
qed

text \<open>What the ledger depends on.\<close>

lemma sys_frame:
  assumes "sq_cids usq' = sq_cids usq" and "sq_cmds usq' = sq_cmds usq" and "sq_conflict usq' = sq_conflict usq"
    and "sq_nr_cmds usq' = sq_nr_cmds usq" and "sq_q usq' \<noteq> None" and "sq_rqs usq' = sq_rqs usq"
    and "heap u' = heap u" and "iommu u' = iommu u" and "bdf u' = bdf u" and "sq_q usq \<noteq> None"
  shows "cmd_sys_wf (env, usq', u') = cmd_sys_wf (env, usq, u)"
    and "cmd_sys_live (env, usq', u') = cmd_sys_live (env, usq, u)"
    and "live_refs usq' = live_refs usq" and "cmd_at usq' r = cmd_at usq r"
proof -
  have at: "cmd_at usq' r = cmd_at usq r" for r using assms by (cases r) auto
  have live: "live_refs usq' = live_refs usq" using assms by (simp add: live_refs_def)
  have "cmd_items usq' = cmd_items usq"
    using at live by (simp add: cmd_items_def cmd_item_def)
  then show "cmd_sys_live (env, usq', u') = cmd_sys_live (env, usq, u)"
    using assms by (simp add: cmd_sys_live_def ledger_def)
  show "cmd_sys_wf (env, usq', u') = cmd_sys_wf (env, usq, u)"
    using assms at live by (simp add: cmd_sys_wf_def sq_inv_def single_refs_def)
  show "live_refs usq' = live_refs usq" by (rule live)
  show "cmd_at usq' r = cmd_at usq r" by (rule at)
qed

lemma held_release:
  assumes "held_cmd env base usq u r c"
  shows "\<exists>n usq' u'. unvmed_cmd_put (e_dma env) (e_sq env) r (usq, u) = (Ok n, usq', u')
    \<and> unvme_dma.more u' = unvme_dma.more u \<and> cmd_sys_wf (env, usq', u') \<and> cmd_sys_live (env, usq', u') = base"
proof -
  have h: "cmd_sys_wf (env, usq, u)" "cmd_sys_live (env, usq, u) = base \<union> cmd_owns (handle r c)"
    "base \<inter> cmd_owns (handle r c) = {}"
    using assms by (auto simp: held_cmd_def)
  then obtain s' where s': "cmd_release (handle r c) (env, usq, u) = (Ok (), s')" "cmd_sys_wf s'"
    "cmd_sys_live s' = base"
    using cmd_release_spec [OF h(1), of "handle r c"] by (auto simp: Diff_triv Un_Diff)
  obtain res usq' u' where put: "unvmed_cmd_put (e_dma env) (e_sq env) r (usq, u) = (res, usq', u')"
    by (cases "unvmed_cmd_put (e_dma env) (e_sq env) r (usq, u)") auto
  with s' show ?thesis
    using cmd_put_frame [OF put] by (cases res) (auto simp: cmd_release_def handle_def)
qed

subsection \<open>The command of an I/O\<close>

definition io_held ::
  "('m, 'r) cmd_env \<Rightarrow> cmd_item set \<Rightarrow> nat \<Rightarrow> cmd_ref \<Rightarrow> unvme_cmd \<Rightarrow> ('m, 'r, 'z) unvme_scheme \<Rightarrow> bool" where
  "io_held env base q r c u \<longleftrightarrow> (\<exists>usq. sq_at q u = Some usq \<and> held_cmd env base usq u r c)"

definition io_idle ::
  "('m, 'r) cmd_env \<Rightarrow> cmd_item set \<Rightarrow> nat \<Rightarrow> ('m, 'r, 'z) unvme_scheme \<Rightarrow> bool" where
  "io_idle env base q u \<longleftrightarrow>
     (\<exists>usq. sq_at q u = Some usq \<and> cmd_sys_wf (env, usq, u) \<and> cmd_sys_live (env, usq, u) = base)"

lemma more_queues:
  fixes u u' :: "('m, 'r, 'z) unvme_scheme"
  assumes "unvme_dma.more u' = unvme_dma.more u"
  shows "sq_at q u' = sq_at q u" and "sq_locked u' = sq_locked u" and "sqs u' = sqs u"
  using assms by (cases u; cases u'; simp add: sq_at_def)+

lemma store_dma [simp]:
  "heap (sq_store q usq u) = heap u" "iommu (sq_store q usq u) = iommu u" "bdf (sq_store q usq u) = bdf u"
  "sq_locked (sq_store q usq u) = sq_locked u" "length (sqs (sq_store q usq u)) = length (sqs u)"
  "timeout (sq_store q usq u) = timeout u"
  by (simp_all add: sq_store_def)

lemma sys_store [simp]:
  "cmd_sys_wf (env, usq, sq_store q usq' u) = cmd_sys_wf (env, usq, u)"
  "cmd_sys_live (env, usq, sq_store q usq' u) = cmd_sys_live (env, usq, u)"
  by (simp_all add: cmd_sys_wf_def cmd_sys_live_def ledger_def)

lemma held_store [simp]: "held_cmd env base usq (sq_store q usq' u) r c = held_cmd env base usq u r c"
  by (simp add: held_cmd_def)

lemma held_command: "io_held env base q r c u \<Longrightarrow> command (q, r) u = Some c"
  by (auto simp: io_held_def held_cmd_def command_def)

lemma serve_frame:
  assumes "cmd_sys_wf (env, usq, u)" and "serve_req (e_dma env) (e_sq env) req (usq, u) = (out, usq', u')"
  shows "unvme_dma.more u' = unvme_dma.more u"
proof -
  have "dma_laws (e_dma env) (e_mapped env)" "bdf u \<noteq> None" "sq_inv usq"
    using assms(1) by (auto simp: cmd_sys_wf_def cmd_env_laws_def)
  from serve_req_spec [OF this, of "e_sq env" req] assms(2) have "dma_frame u u'"
    by (cases out) (auto simp: init_outcome_def)
  then show ?thesis using dma_frame_fields by blast
qed

lemma alloc_io:
  assumes "io_idle env base q u" and run: "on_sq q (serve_req (e_dma env) (e_sq env) req) u = (out, u')"
    and "no_cid req"
  shows "(case out of Ok r \<Rightarrow> \<exists>c. io_held env base q r c u' \<and> r \<noteq> Conflict
                    | Fail e \<Rightarrow> io_idle env base q u' | Fault \<Rightarrow> False) \<and> sq_locked u' = sq_locked u"
proof -
  obtain usq where usq: "sq_at q u = Some usq" "cmd_sys_wf (env, usq, u)" "cmd_sys_live (env, usq, u) = base"
    using assms(1) by (auto simp: io_idle_def)
  obtain usq' v where serve: "serve_req (e_dma env) (e_sq env) req (usq, u) = (out, usq', v)"
    and u': "u' = sq_store q usq' v"
    using run usq(1) by (auto simp: on_sq_def split: prod.splits)
  note more = more_queues [OF serve_frame [OF usq(2) serve]]
  have at: "sq_at q u' = Some usq'"
    using sq_at_bound [OF usq(1)] more(3) by (simp add: u' sq_at_store)
  show ?thesis
  proof (cases out)
    case (Ok r)
    then obtain c where "held_cmd env base usq' v r c"
      using acquire_held [OF usq(2)] serve usq(3) by blast
    moreover have "r \<noteq> Conflict" using serve Ok serve_slot [OF _ assms(3)] by blast
    ultimately show ?thesis using Ok at more(2) by (auto simp: io_held_def u')
  next
    case (Fail e)
    then have "cmd_acquire req (env, usq, u) = (Fail e, env, usq', v)"
      using serve by (simp add: cmd_acquire_def)
    with cmd_acquire_spec [OF usq(2), of req] usq(3)
    have "cmd_sys_wf (env, usq', v)" "cmd_sys_live (env, usq', v) = base" by auto
    with Fail at more(2) show ?thesis by (auto simp: io_idle_def u')
  next
    case Fault
    then show ?thesis
      using cmd_acquire_spec [OF usq(2), of req] serve by (simp add: cmd_acquire_def)
  qed
qed

lemma held_set_command:
  assumes "io_held env base q r c u" and "same_owner c d"
  shows "io_held env base q r d (set_command (q, r) d u)" and "sq_locked (set_command (q, r) d u) = sq_locked u"
proof -
  obtain usq where usq: "sq_at q u = Some usq" "held_cmd env base usq u r c"
    using assms(1) by (auto simp: io_held_def)
  have eq: "set_command (q, r) d u = sq_store q (cmd_set usq r d) u"
    using usq(1) by (simp add: set_command_def sq_modify_at)
  show "io_held env base q r d (set_command (q, r) d u)"
    using held_update [OF usq(2) assms(2)] sq_at_bound [OF usq(1)]
    by (auto simp: io_held_def eq sq_at_store)
  show "sq_locked (set_command (q, r) d u) = sq_locked u" by (simp add: eq)
qed

lemma held_put:
  assumes "io_held env base q r c u" and "e_dma env = ops" and "e_sq env = io_sq io"
  shows "\<exists>n u'. cmd_put_at ops io (q, r) u = (Ok n, u') \<and> io_idle env base q u' \<and> sq_locked u' = sq_locked u"
proof -
  obtain usq where usq: "sq_at q u = Some usq" "held_cmd env base usq u r c"
    using assms(1) by (auto simp: io_held_def)
  obtain n usq' v where put: "unvmed_cmd_put ops (io_sq io) r (usq, u) = (Ok n, usq', v)"
    "unvme_dma.more v = unvme_dma.more u" "cmd_sys_wf (env, usq', v)" "cmd_sys_live (env, usq', v) = base"
    using held_release [OF usq(2)] assms(2,3) by auto
  note more = more_queues [OF put(2)]
  have "sq_at q (sq_store q usq' v) = Some usq'"
    using sq_at_bound [OF usq(1)] more(3) by (simp add: sq_at_store)
  with put usq(1) more(2) show ?thesis
    by (auto simp: cmd_put_at_def on_sq_def io_idle_def)
qed

text \<open>Posting keeps the pool of requests; that is all the path relies on in libvfn's queues.\<close>

definition posts_keep_rqs :: "'r sq_ops \<Rightarrow> bool" where
  "posts_keep_rqs sops \<longleftrightarrow> (\<forall>q e. nsq_rqs (sq_post sops q e) = nsq_rqs q)"

lemma nodb_set [simp]: "UNVMED_CMD_F_NODB \<noteq> 0"
  by (simp add: UNVMED_CMD_F_NODB_def)

lemma held_post_entry:
  assumes held: "io_held env base q r c u" and keep: "posts_keep_rqs (io_sq io)"
  shows "\<exists>idx d u'. unvmed_cmd_post_entry io now (q, r) sqe UNVMED_CMD_F_NODB u = (Ok idx, u')
    \<and> io_held env base q r d u' \<and> c_opaque d = c_opaque c \<and> c_cid d = c_cid c \<and> c_sqe d = c_sqe c
    \<and> c_state d = UNVME_CMD_S_SUBMITTED \<and> sq_locked u' = sq_locked u"
proof -
  obtain usq where usq: "sq_at q u = Some usq" "held_cmd env base usq u r c"
    using held by (auto simp: io_held_def)
  then have at: "cmd_at usq r = Some c" and inv: "sq_inv usq" and r: "r \<in> live_refs usq"
    by (auto simp: held_cmd_def cmd_sys_wf_def)
  then obtain nq where nq: "sq_q usq = Some nq" by (auto simp: sq_inv_def)
  have live: "cmd_live r c" using sq_inv_cmd [OF inv at] r by simp
  let ?c1 = "c\<lparr>c_state := UNVME_CMD_S_SUBMITTED\<rparr>" and ?q1 = "sq_post (io_sq io) nq (sqe\<lparr>sqe_cid := c_cid c\<rparr>)"
  let ?d = "if timeout u \<noteq> 0 then ?c1\<lparr>c_timeout := now\<lparr>tv_sec := tv_sec now + timeout u\<rparr>\<rparr> else ?c1"
  let ?usq1 = "(cmd_set usq r ?c1)\<lparr>sq_q := Some ?q1\<rparr>"
  let ?usq2 = "if timeout u \<noteq> 0 then unvmed_cmd_add_timer now (timeout u) r ?c1 ?usq1 else ?usq1"
  have run: "unvmed_cmd_post_entry io now (q, r) sqe UNVMED_CMD_F_NODB u =
      (Ok (nsq_tail nq), sq_store q ?usq2 (u\<lparr>nr_cmds := nr_cmds u + 1\<rparr>))"
    using usq(1) at nq live by (simp add: unvmed_cmd_post_entry_def cmd_live_def Let_def)
  have same: "same_owner c ?d" by (simp add: same_owner_def)
  have set: "sq_cids ?usq2 = sq_cids (cmd_set usq r ?d)" "sq_cmds ?usq2 = sq_cmds (cmd_set usq r ?d)"
    "sq_conflict ?usq2 = sq_conflict (cmd_set usq r ?d)" "sq_nr_cmds ?usq2 = sq_nr_cmds (cmd_set usq r ?d)"
    "sq_q ?usq2 = Some ?q1"
    by (cases r; auto simp: unvmed_cmd_add_timer_def unvmed_timer_update_def Let_def)+
  have rqs: "sq_rqs ?usq2 = sq_rqs (cmd_set usq r ?d)"
    using keep nq set(5) by (simp add: sq_rqs_def posts_keep_rqs_def)
  have "sq_q ?usq2 \<noteq> None" "sq_q (cmd_set usq r ?d) \<noteq> None" using set(5) nq by simp_all
  note frame = sys_frame [OF set(1-4) this(1) rqs _ _ _ this(2), of "u\<lparr>nr_cmds := nr_cmds u + 1\<rparr>" u]
  have "held_cmd env base ?usq2 (u\<lparr>nr_cmds := nr_cmds u + 1\<rparr>) r ?d"
    using held_update [OF usq(2) same] frame by (simp add: held_cmd_def)
  then have "io_held env base q r ?d (sq_store q ?usq2 (u\<lparr>nr_cmds := nr_cmds u + 1\<rparr>))"
    using sq_at_bound [OF usq(1)] by (auto simp: io_held_def sq_at_store)
  moreover have "c_opaque ?d = c_opaque c" "c_cid ?d = c_cid c" "c_state ?d = UNVME_CMD_S_SUBMITTED" "c_sqe ?d = c_sqe c"
    by simp_all
  ultimately show ?thesis using run by (auto simp del: if_split_asm)
qed

text \<open>The library's own callers post the entry of the command.\<close>

lemma post_own_entry:
  assumes "io_held env base q r c u"
  shows "unvmed_cmd_post io now (q, r) flags u = unvmed_cmd_post_entry io now (q, r) (c_sqe c) flags
    (set_command (q, r) (c\<lparr>c_sqe := (c_sqe c)\<lparr>sqe_cid := c_cid c\<rparr>\<rparr>) u)"
proof -
  obtain usq where usq: "sq_at q u = Some usq" "cmd_at usq r = Some c" "sq_inv usq" "r \<in> live_refs usq"
    using assms by (auto simp: io_held_def held_cmd_def cmd_sys_wf_def)
  then have "cmd_live r c" using sq_inv_cmd by blast
  then obtain nq rq where nq: "sq_q usq = Some nq" "c_rq c = Some rq"
    using usq(3) by (auto simp: sq_inv_def cmd_live_def)
  let ?d = "c\<lparr>c_sqe := (c_sqe c)\<lparr>sqe_cid := c_cid c\<rparr>\<rparr>"
  have "set_command (q, r) ?d u = sq_store q (cmd_set usq r ?d) u"
    using usq(1) by (simp add: set_command_def sq_modify_at)
  moreover have "cmd_set (cmd_set usq r ?d) r e = cmd_set usq r e" for e by (cases r) simp_all
  moreover have "sq_store q x (sq_store q y u\<lparr>nr_cmds := n\<rparr>) = sq_store q x (u\<lparr>nr_cmds := n\<rparr>)" for x y n
    by (simp add: sq_store_def)
  moreover have "nr_cmds (sq_store q y u) = nr_cmds u" for y by (simp add: sq_store_def)
  ultimately show ?thesis
    using usq(1,2) nq cmd_at_set [OF usq(2), of ?d] sq_at_bound [OF usq(1)]
    by (simp add: unvmed_cmd_post_def unvmed_cmd_post_entry_def sq_at_store Let_def)
qed

subsection \<open>The functions that queue an I/O\<close>

definition serves :: "('m, 'r) cmd_env \<Rightarrow> ('m, 'r) fio_env \<Rightarrow> bool" where
  "serves env E \<longleftrightarrow> e_dma env = fe_ops E \<and> e_sq env = io_sq (fe_io E) \<and> posts_keep_rqs (io_sq (fe_io E))"

definition io_queued ::
  "('m, 'r) cmd_env \<Rightarrow> cmd_item set \<Rightarrow> nat \<Rightarrow> nat \<Rightarrow> ('m, 'r, 'z) unvme_scheme \<Rightarrow> bool" where
  "io_queued env base q i u \<longleftrightarrow> (\<exists>r c. io_held env base q r c u \<and> r \<noteq> Conflict \<and> c_opaque c = i
     \<and> c_state c = UNVME_CMD_S_SUBMITTED)"

text \<open>
  What a call does to the commands: a queued I/O holds one, a refused one none. \<open>leak\<close> says that an
  error may leave a command behind.
\<close>

definition io_result ::
  "('m, 'r) cmd_env \<Rightarrow> cmd_item set \<Rightarrow> bool \<Rightarrow> nat \<Rightarrow> fio_thread \<Rightarrow> nat set
   \<Rightarrow> fio_q_status outcome \<times> ('m, 'r, 'z) fio_state \<Rightarrow> bool" where
  "io_result env base leak i t locked res \<longleftrightarrow>
     (case res of (out, t', u') \<Rightarrow> out \<noteq> Fault \<longrightarrow> t' = t\<lparr>ft_ios := ft_ios t'\<rparr> \<and> sq_locked u' = locked \<and>
        (case out of
           Ok FIO_Q_QUEUED \<Rightarrow> io_queued env base (ft_sqid t) i u'
         | Ok FIO_Q_BUSY \<Rightarrow> io_idle env base (ft_sqid t) u'
         | Ok (FIO_Q_ERR e) \<Rightarrow> io_idle env base (ft_sqid t) u'
             \<or> leak \<and> (\<exists>r c. io_held env base (ft_sqid t) r c u')
         | _ \<Rightarrow> False))"

lemma held_live: "io_held env base q r c u \<Longrightarrow> c_state c \<noteq> UNVME_CMD_S_INIT"
  using sq_inv_cmd by (fastforce simp: io_held_def held_cmd_def cmd_sys_wf_def cmd_live_def)

lemma post_io_result:
  assumes held: "io_held env base (ft_sqid t) r c u" and "same_owner c d" and "r \<noteq> Conflict" and "serves env E"
  shows "io_result env base leak i t (sq_locked u) (post_io E i (ft_sqid t, r) d sqe (t, u))"
proof -
  let ?d = "d\<lparr>c_opaque := i, c_vcq := ft_vcq t\<rparr>"
  have "same_owner c ?d" using assms(2) by (simp add: same_owner_def)
  note set = held_set_command [OF held this]
  have keep: "posts_keep_rqs (io_sq (fe_io E))" using assms(4) by (simp add: serves_def)
  obtain idx e u' where post: "unvmed_cmd_post_entry (fe_io E) (fe_now E) (ft_sqid t, r) sqe UNVMED_CMD_F_NODB
      (set_command (ft_sqid t, r) ?d u) = (Ok idx, u')" and e: "io_held env base (ft_sqid t) r e u'"
      "c_opaque e = i" "c_state e = UNVME_CMD_S_SUBMITTED" "sq_locked u' = sq_locked u"
    using held_post_entry [OF set(1) keep, of "fe_now E" sqe] set(2) by auto
  then have "io_queued env base (ft_sqid t) i u'" using assms(3) by (auto simp: io_queued_def)
  with post e(4) show ?thesis by (simp add: post_io_def io_result_def)
qed

lemma drop_io_result:
  assumes "io_held env base (ft_sqid t) r c u" and "serves env E"
  shows "io_result env base leak i t (sq_locked u) (drop_io E (ft_sqid t, r) e (t, u))"
proof -
  have "e_dma env = fe_ops E" "e_sq env = io_sq (fe_io E)" using assms(2) by (auto simp: serves_def)
  from held_put [OF assms(1) this] obtain n u' where "cmd_put_at (fe_ops E) (fe_io E) (ft_sqid t, r) u = (Ok n, u')"
    "io_idle env base (ft_sqid t) u'" "sq_locked u' = sq_locked u" by blast
  then show ?thesis by (simp add: drop_io_def io_result_def)
qed

lemma with_cmd_result:
  assumes idle: "io_idle env base (ft_sqid t) u" and "no_cid req"
    and alloc: "alloc = serve_req (e_dma env) (e_sq env) req"
    and k: "\<And>r c u1. io_held env base (ft_sqid t) r c u1 \<Longrightarrow> r \<noteq> Conflict \<Longrightarrow>
      io_result env base leak i t (sq_locked u1) (k (ft_sqid t, r) c (t, u1))"
  shows "io_result env base leak i t (sq_locked u) (with_cmd E alloc k (t, u))"
proof -
  obtain out u1 where run: "on_sq (ft_sqid t) alloc u = (out, u1)" by fastforce
  note spec = alloc_io [OF idle run [unfolded alloc] assms(2)]
  show ?thesis
  proof (cases out)
    case (Ok r)
    with spec obtain c where c: "io_held env base (ft_sqid t) r c u1" "r \<noteq> Conflict" by auto
    from k [OF this] held_command [OF c(1)] spec Ok run show ?thesis by (simp add: with_cmd_def)
  qed (use spec run in \<open>simp_all add: with_cmd_def io_result_def\<close>)
qed

lemma result_frame:
  assumes "io_result env base leak i (t\<lparr>ft_ios := f\<rparr>) locked res"
  shows "io_result env base leak i t locked res"
  using assms by (cases res; cases "fst res") (auto simp: io_result_def split: fio_q_status.splits)

lemma same_owner_refl: "c_state c \<noteq> UNVME_CMD_S_INIT \<Longrightarrow> same_owner c c"
  by (simp add: same_owner_def)

lemma same_owner_iov [simp]:
  "same_owner c (d\<lparr>c_sqe := x\<rparr>) \<longleftrightarrow> same_owner c d"
  "same_owner c (d\<lparr>c_buf := (c_buf d)\<lparr>iov_base := a, iov_len := n\<rparr>\<rparr>) \<longleftrightarrow> same_owner c d"
  by (simp_all add: same_owner_def buf_owns_def)

lemma rw_submit_result:
  assumes held: "io_held env base (ft_sqid t) r c u" and r: "r \<noteq> Conflict" and E: "serves env E"
  shows "io_result env base (io_mbuf (ft_ios t i) \<noteq> 0 \<and> o_enable_sgl (ft_opts t)) i t (sq_locked u)
    (rw_submit E i slba nlb (ft_sqid t, r) c (t, u))"
proof -
  let ?io = "ft_ios t i"
  let ?io1 = "rw_verify E (ft_opts t) (rw_copy (ft_opts t) ?io)"
  let ?leak = "io_mbuf (ft_ios t i) \<noteq> 0 \<and> o_enable_sgl (ft_opts t)"
  show ?thesis
  proof (cases "rw_fill E t ?io1 (rw_sqe (fe_defs E) t ?io slba nlb)")
    case (Some fill)
    obtain sqe mo where fill: "fill = (sqe, mo)" by fastforce
    let ?t1 = "t\<lparr>ft_ios := (ft_ios t)(i := ?io1\<lparr>io_mem := mo\<rparr>)\<rparr>"
    let ?c1 = "c\<lparr>c_buf := (c_buf c)\<lparr>iov_base := rw_buf t ?io + unat (o_prp1_offset (ft_opts t)),
                                  iov_len := xfer_buflen ?io\<rparr>, c_sqe := sqe\<rparr>"
    have own: "same_owner c ?c1" using same_owner_refl [OF held_live [OF held]] by simp
    note set = held_set_command [OF held own]
    let ?u1 = "set_command (ft_sqid t, r) ?c1 u"
    have own1: "same_owner ?c1 ?c1" using same_owner_refl [OF held_live [OF set(1)]] .
    have held1: "io_held env base (ft_sqid ?t1) r ?c1 ?u1" using set(1) by simp
    obtain out c2 where map: "rw_map E ?t1 ?io (iommu ?u1) ?c1 sqe = (out, c2)" by fastforce
    have run: "rw_submit E i slba nlb (ft_sqid t, r) c (t, u) =
        (case out of Ok _ \<Rightarrow> rw_post E i ?io (ft_sqid t, r) ?c1 (c_sqe c2) (?t1, ?u1)
                   | Fail e \<Rightarrow> drop_io E (ft_sqid t, r) e (?t1, ?u1) | Fault \<Rightarrow> (Fault, ?t1, ?u1))"
      using Some fill map by (simp add: rw_submit_def Let_def split: outcome.splits)
    have "io_result env base ?leak i ?t1 (sq_locked ?u1) (rw_submit E i slba nlb (ft_sqid t, r) c (t, u))"
    proof (cases out)
      case (Ok x)
      have post: "io_result env base ?leak i ?t1 (sq_locked ?u1) (post_io E i (ft_sqid t, r) ?c1 e (?t1, ?u1))" for e
        using post_io_result [OF held1 own1 r E] by simp
      show ?thesis
      proof (cases "io_mbuf ?io \<noteq> 0 \<and> o_enable_sgl (ft_opts t)")
        case True
        then have "rw_submit E i slba nlb (ft_sqid t, r) c (t, u) = (Ok (FIO_Q_ERR EINVAL), ?t1, ?u1)"
          unfolding run by (simp add: Ok rw_post_def)
        then show ?thesis using True set(1) by (auto simp: io_result_def)
      next
        case False
        then have "\<exists>e. rw_submit E i slba nlb (ft_sqid t, r) c (t, u) = post_io E i (ft_sqid t, r) ?c1 e (?t1, ?u1)"
          unfolding run by (auto simp: Ok rw_post_def)
        then show ?thesis using post by metis
      qed
    next
      case (Fail e)
      then show ?thesis using run drop_io_result [OF held1 E] by simp
    qed (use run in \<open>simp add: io_result_def\<close>)
    then show ?thesis unfolding set(2) by (rule result_frame)
  qed (simp add: rw_submit_def io_result_def Let_def)
qed

text \<open>The error that leaves a command behind: metadata together with scatter-gather lists.\<close>

definition sgl_metadata :: "nat \<Rightarrow> fio_thread \<Rightarrow> bool" where
  "sgl_metadata i t \<longleftrightarrow> io_mbuf (ft_ios t i) \<noteq> 0 \<and> o_enable_sgl (ft_opts t)"

lemma rw_result:
  assumes idle: "io_idle env base (ft_sqid t) u" and E: "serves env E"
  shows "io_result env base (sgl_metadata i t) i t (sq_locked u) (fio_libunvmed_rw E i (t, u))"
proof -
  let ?io = "ft_ios t i"
  let ?req = "if io_mlen ?io \<noteq> 0 then ReqMeta None (rw_buf t ?io) (xfer_buflen ?io) (io_mbuf ?io) (io_mlen ?io)
              else ReqBuf None (rw_buf t ?io) (xfer_buflen ?io)"
  have alloc: "rw_alloc E t ?io = serve_req (e_dma env) (e_sq env) ?req"
    using E by (auto simp: rw_alloc_def serves_def fun_eq_iff)
  have none: "no_cid ?req" by (simp add: no_cid_def)
  have "io_result env base (sgl_metadata i t) i t (sq_locked u)
      (with_cmd E (rw_alloc E t ?io) (rw_submit E i slba nlb) (t, u))" for slba nlb
    unfolding sgl_metadata_def by (rule with_cmd_result [OF idle none alloc]) (rule rw_submit_result [OF _ _ E])
  then show ?thesis
    by (auto simp: fio_libunvmed_rw_def Let_def io_result_def split: option.splits)
qed

lemma admin_prep_shape: "\<exists>f. admin_prep E t m iov c = unvmed_mapv_prp_u2 (fe_mops E) m iov 1 (put_sqe f c)"
  unfolding admin_prep_def Let_def
  by (auto split: option.split libunvmed_admin_cmd.split simp: unvmed_cmd_prep_id_ns_def unvmed_cmd_prep_id_ctrl_def
      unvmed_cmd_prep_id_active_nslist_def unvmed_cmd_prep_nvm_id_ns_def unvmed_cmd_prep_id_primary_ctrl_caps_def
      unvmed_cmd_prep_id_secondary_ctrl_list_def unvmed_cmd_prep_get_log_page_def unvmed_cmd_prep_get_features_def Let_def
      intro!: exI)

lemma mapv_prp_sqe: "unvmed_mapv_prp_u2 mops m iov n (put_sqe f c) = (out, d) \<Longrightarrow> \<exists>x. d = c\<lparr>c_sqe := x\<rparr>"
  by (auto simp: unvmed_mapv_prp_u2_def with_rq_def sqe_result_def put_sqe_def
      split: if_splits option.splits prod.splits)

lemma admin_post_result:
  assumes held: "io_held env base (ft_sqid t) r c u" and r: "r \<noteq> Conflict" and E: "serves env E"
  shows "io_result env base leak i t (sq_locked u) (admin_post E i (ft_sqid t, r) (out, c\<lparr>c_sqe := x\<rparr>) (t, u))"
proof -
  let ?c = "c\<lparr>c_sqe := x, c_opaque := i, c_vcq := ft_vcq t\<rparr>"
  note live = held_live [OF held]
  have own: "same_owner c ?c" "same_owner c (c\<lparr>c_sqe := x\<rparr>)" using live by (simp_all add: same_owner_def)
  show ?thesis
  proof (cases out)
    case (Ok y)
    note set = held_set_command [OF held own(1)]
    let ?d = "?c\<lparr>c_sqe := (c_sqe ?c)\<lparr>sqe_cid := c_cid ?c\<rparr>\<rparr>" and ?u1 = "set_command (ft_sqid t, r) ?c u"
    have "same_owner ?c ?d" using live by (simp add: same_owner_def)
    note set2 = held_set_command [OF set(1) this]
    have keep: "posts_keep_rqs (io_sq (fe_io E))" using E by (simp add: serves_def)
    obtain idx e u' where post: "unvmed_cmd_post (fe_io E) (fe_now E) (ft_sqid t, r) UNVMED_CMD_F_NODB ?u1 = (Ok idx, u')"
      and e: "io_held env base (ft_sqid t) r e u'" "c_opaque e = i" "c_state e = UNVME_CMD_S_SUBMITTED"
        "sq_locked u' = sq_locked u"
      using held_post_entry [OF set2(1) keep, of "fe_now E" "c_sqe ?c"] set(2) set2(2)
      unfolding post_own_entry [OF set(1)] by auto
    have "admin_post E i (ft_sqid t, r) (out, c\<lparr>c_sqe := x\<rparr>) (t, u) = (Ok FIO_Q_QUEUED, t, u')"
      using Ok post by (simp add: admin_post_def)
    moreover have "io_queued env base (ft_sqid t) i u'" using e r by (auto simp: io_queued_def)
    ultimately show ?thesis using e(4) by (simp add: io_result_def)
  next
    case (Fail e)
    note set = held_set_command [OF held own(2)]
    then show ?thesis using drop_io_result [OF set(1) E] set(2) Fail by (simp add: admin_post_def)
  qed (simp add: admin_post_def io_result_def)
qed

lemma admin_result:
  assumes idle: "io_idle env base (ft_sqid t) u" and E: "serves env E"
  shows "io_result env base leak i t (sq_locked u) (fio_libunvmed_admin E i (t, u))"
proof -
  let ?buf = "io_xfer_buf (ft_ios t i)" and ?len = "d_identify_size (fe_defs E)"
  have nodata: "unvmed_alloc_cmd_nodata (fe_ops E) (io_sq (fe_io E)) None = serve_req (e_dma env) (e_sq env) (ReqNodata None)"
    and data: "unvmed_alloc_cmd (fe_ops E) (io_sq (fe_io E)) None ?buf ?len = serve_req (e_dma env) (e_sq env) (ReqBuf None ?buf ?len)"
    using E by (auto simp: serves_def fun_eq_iff)
  have none: "no_cid (ReqNodata None)" "no_cid (ReqBuf None ?buf ?len)" by (simp_all add: no_cid_def)
  have abort: "\<exists>x. unvmed_cmd_prep_abort d a b c = c\<lparr>c_sqe := x\<rparr>" for d a b c
    by (auto simp: unvmed_cmd_prep_abort_def put_sqe_def)
  have prep: "\<exists>out x. admin_prep E t m iov c = (out, c\<lparr>c_sqe := x\<rparr>)" for m iov c
    using admin_prep_shape [of E t m iov c] mapv_prp_sqe by (metis surj_pair)
  show ?thesis
  proof (cases "admin_of (o_admin_cmd (ft_opts t)) = Some LIBUNVMED_ADMIN_ABORT")
    case True
    have step: "io_result env base leak i t (sq_locked u1) (admin_post E i (ft_sqid t, r)
        (Ok (), unvmed_cmd_prep_abort d a b c) (t, u1))"
      if "io_held env base (ft_sqid t) r c u1" "r \<noteq> Conflict" for r c u1 d a b
      using admin_post_result [OF that E] abort [of d a b c] by metis
    have "io_result env base leak i t (sq_locked u)
        (with_cmd E (unvmed_alloc_cmd_nodata (fe_ops E) (io_sq (fe_io E)) None)
           (\<lambda>p c. admin_post E i p (Ok (), unvmed_cmd_prep_abort d a b c)) (t, u))" for d a b
      by (rule with_cmd_result [OF idle none(1) nodata]) (rule step)
    then show ?thesis using True by (simp add: fio_libunvmed_admin_def)
  next
    case False
    have step: "io_result env base leak i t (sq_locked u1) (admin_post E i (ft_sqid t, r) (admin_prep E t m iov c) (t, u1))"
      if "io_held env base (ft_sqid t) r c u1" "r \<noteq> Conflict" for r c u1 m iov
      using admin_post_result [OF that E] prep [of m iov c] by metis
    have "io_result env base leak i t (sq_locked u)
        (with_cmd E (unvmed_alloc_cmd (fe_ops E) (io_sq (fe_io E)) None ?buf ?len)
           (\<lambda>p c s1. admin_post E i p (admin_prep E t (iommu (snd s1)) [(?buf, ?len)] c) s1) (t, u))"
      by (rule with_cmd_result [OF idle none(2) data]) (rule step)
    then show ?thesis using False by (simp add: fio_libunvmed_admin_def Let_def)
  qed
qed

lemma fsync_result:
  assumes idle: "io_idle env base (ft_sqid t) u" and E: "serves env E"
  shows "io_result env base leak i t (sq_locked u) (fio_libunvmed_fsync E i (t, u))"
proof -
  have alloc: "unvmed_alloc_cmd_nodata (fe_ops E) (io_sq (fe_io E)) None = serve_req (e_dma env) (e_sq env) (ReqNodata None)"
    using E by (auto simp: serves_def fun_eq_iff)
  have none: "no_cid (ReqNodata None)" by (simp add: no_cid_def)
  show ?thesis
    unfolding fio_libunvmed_fsync_def
    by (rule with_cmd_result [OF idle none alloc]) (rule post_io_result [OF _ same_owner_refl [OF held_live] _ E])
qed

lemma trim_submit_result:
  assumes held: "io_held env base (ft_sqid t) r c u" and r: "r \<noteq> Conflict" and E: "serves env E"
  shows "io_result env base leak i t (sq_locked u) (trim_submit E i slba nlb (ft_sqid t, r) c (t, u))"
proof -
  have own: "same_owner c c" using same_owner_refl [OF held_live [OF held]] .
  have post: "io_result env base leak i t (sq_locked u) (post_io E i (ft_sqid t, r) c e (t\<lparr>ft_ios := f\<rparr>, u))" for e f
    using result_frame [OF post_io_result [of env base "t\<lparr>ft_ios := f\<rparr>", OF _ own r E]] held by simp
  have drop: "io_result env base leak i t (sq_locked u) (drop_io E (ft_sqid t, r) e (t\<lparr>ft_ios := f\<rparr>, u))" for e f
    using result_frame [OF drop_io_result [of env base "t\<lparr>ft_ios := f\<rparr>", OF _ E]] held by simp
  have fault: "io_result env base leak i t l (Fault, s)" for l s by (cases s) (simp add: io_result_def)
  show ?thesis
    unfolding trim_submit_def Let_def
    by (simp add: post drop fault split: option.split prod.split outcome.split)
qed

lemma trim_result:
  assumes idle: "io_idle env base (ft_sqid t) u" and E: "serves env E"
  shows "io_result env base leak i t (sq_locked u) (fio_libunvmed_trim E i (t, u))"
proof -
  let ?buf = "trim_buf (ft_ios t i)"
  have alloc: "unvmed_alloc_cmd (fe_ops E) (io_sq (fe_io E)) None ?buf 4096 = serve_req (e_dma env) (e_sq env) (ReqBuf None ?buf 4096)"
    using E by (auto simp: serves_def fun_eq_iff)
  have none: "no_cid (ReqBuf None ?buf 4096)" by (simp add: no_cid_def)
  have "io_result env base leak i t (sq_locked u)
      (with_cmd E (unvmed_alloc_cmd (fe_ops E) (io_sq (fe_io E)) None ?buf 4096) (trim_submit E i slba nlb) (t, u))" for slba nlb
    by (rule with_cmd_result [OF idle none alloc]) (rule trim_submit_result [OF _ _ E])
  then show ?thesis
    by (auto simp: fio_libunvmed_trim_def Let_def io_result_def split: option.splits)
qed

subsection \<open>Queueing\<close>

lemma sys_updates [simp]:
  fixes u :: "('m, 'r, 'z) unvme_scheme"
  shows "cmd_sys_wf (env, usq, u\<lparr>sq_locked := L\<rparr>) = cmd_sys_wf (env, usq, u)"
    "cmd_sys_live (env, usq, u\<lparr>sq_locked := L\<rparr>) = cmd_sys_live (env, usq, u)"
    "cmd_sys_wf (env, usq, u\<lparr>nr_cmds := n\<rparr>) = cmd_sys_wf (env, usq, u)"
    "cmd_sys_live (env, usq, u\<lparr>nr_cmds := n\<rparr>) = cmd_sys_live (env, usq, u)"
    "cmd_sys_wf (env, usq, u\<lparr>vcqs := v\<rparr>) = cmd_sys_wf (env, usq, u)"
    "cmd_sys_live (env, usq, u\<lparr>vcqs := v\<rparr>) = cmd_sys_live (env, usq, u)"
  by (simp_all add: cmd_sys_wf_def cmd_sys_live_def ledger_def)

lemma at_updates [simp]:
  "sq_at q (u\<lparr>sq_locked := L\<rparr>) = sq_at q u" "sq_at q (u\<lparr>nr_cmds := n\<rparr>) = sq_at q u" "sq_at q (u\<lparr>vcqs := v\<rparr>) = sq_at q u"
  by (simp_all add: sq_at_def)

lemma held_updates [simp]:
  "io_held env base q r c (u\<lparr>sq_locked := L\<rparr>) = io_held env base q r c u"
  "io_held env base q r c (u\<lparr>nr_cmds := n\<rparr>) = io_held env base q r c u"
  "io_held env base q r c (u\<lparr>vcqs := v\<rparr>) = io_held env base q r c u"
  "io_idle env base q (u\<lparr>sq_locked := L\<rparr>) = io_idle env base q u"
  "io_queued env base q i (u\<lparr>sq_locked := L\<rparr>) = io_queued env base q i u"
  by (simp_all add: io_held_def io_idle_def io_queued_def held_cmd_def)

lemma op_result:
  assumes "io_idle env base (ft_sqid t) u" and "serves env E" and "queue_op E i t = Some f"
  shows "io_result env base (sgl_metadata i t) i t (sq_locked u) (f (t, u))"
  using assms(3) rw_result [OF assms(1,2)] admin_result [OF assms(1,2)] trim_result [OF assms(1,2)]
    fsync_result [OF assms(1,2)]
  by (auto simp: queue_op_def split: fio_ddir.splits if_splits)

text \<open>Every outcome of the call, with the lock as before.\<close>

lemma queue_outcome:
  fixes u u' :: "('m, 'r, 'z) unvme_scheme"
  assumes idle: "io_idle env base (ft_sqid t) u" and E: "serves env E"
    and run: "fio_libunvmed_queue E i (t, u) = (out, t', u')"
  shows "case out of
      Ok FIO_Q_QUEUED \<Rightarrow> io_queued env base (ft_sqid t) i u' \<and> sq_locked u' = sq_locked u
        \<and> t' = add_queued 1 (t\<lparr>ft_ios := ft_ios t'\<rparr>)
    | Ok (FIO_Q_ERR e) \<Rightarrow> (io_idle env base (ft_sqid t) u' \<or> sgl_metadata i t \<and> (\<exists>r c. io_held env base (ft_sqid t) r c u'))
        \<and> sq_locked u' = sq_locked u \<and> t' = add_queued 1 (t\<lparr>ft_ios := ft_ios t'\<rparr>)
    | Ok _ \<Rightarrow> io_idle env base (ft_sqid t) u' \<and> sq_locked u' = sq_locked u
    | Fail e \<Rightarrow> False
    | Fault \<Rightarrow> True"
proof (cases "nr_queued (ft_data t) = iodepth (ft_job t) \<or> ft_sqid t \<in> sq_locked u")
  case True
  then have "out = Ok FIO_Q_BUSY" "u' = u"
    using run by (auto simp: fio_libunvmed_queue_def unvmed_sq_try_enter_def split: if_splits)
  with idle show ?thesis by simp
next
  case False
  let ?q = "ft_sqid t"
  let ?u1 = "u\<lparr>sq_locked := insert ?q (sq_locked u)\<rparr>"
  have ex: "unvmed_sq_exit ?q v = v\<lparr>sq_locked := sq_locked v - {?q}\<rparr>" for v :: "('m, 'r, 'z) unvme_scheme"
    by (simp add: unvmed_sq_exit_def)
  have unlock: "sq_locked (unvmed_sq_exit ?q v) = sq_locked u" if "sq_locked v = sq_locked ?u1" for v :: "('m, 'r, 'z) unvme_scheme"
    using that False by (auto simp: ex)
  have idle1: "io_idle env base ?q ?u1" using idle by simp
  have same: "unvmed_sq_ready (sq_at ?q ?u1) = unvmed_sq_ready (sq_at ?q u)" by simp
  consider (no) "out = Ok FIO_Q_BUSY \<or> out = Ok FIO_Q_COMPLETED" "u' = unvmed_sq_exit ?q ?u1" | (ro) "out = Fault"
    | (op) f where "queue_op E i t = Some f" "fio_libunvmed_queue E i (t, u) =
         (case f (t, ?u1) of (Ok ret, t2, u2) \<Rightarrow> (Ok ret, add_queued 1 t2, unvmed_sq_exit ?q u2) | r \<Rightarrow> r)"
    using run False
    by (auto simp: fio_libunvmed_queue_def unvmed_sq_try_enter_def split: if_splits option.splits)
  then show ?thesis
  proof cases
    case no
    have "sq_locked u' = sq_locked u" unfolding no(2) by (rule unlock) simp
    moreover have "io_idle env base ?q u'" unfolding no(2) ex using idle by simp
    ultimately show ?thesis using no(1) by auto
  next
    case op
    obtain out1 t2 u2 where f: "f (t, ?u1) = (out1, t2, u2)" using prod_cases3 by blast
    note res = op_result [OF idle1 E op(1), unfolded f]
    show ?thesis
    proof (cases out1)
      case (Ok st)
      then have eq: "out = Ok st" "t' = add_queued 1 t2" "u' = unvmed_sq_exit ?q u2" using op(2) run f by simp_all
      have t2: "t2 = t\<lparr>ft_ios := ft_ios t2\<rparr>" and lock: "sq_locked u2 = sq_locked ?u1"
        using res Ok by (simp_all add: io_result_def)
      have ios: "ft_ios t' = ft_ios t2" by (simp add: eq(2) add_queued_def)
      have t': "t' = add_queued 1 (t\<lparr>ft_ios := ft_ios t'\<rparr>)" unfolding ios using eq(2) t2 by simp
      have lock': "sq_locked u' = sq_locked u" unfolding eq(3) by (rule unlock [OF lock])
      have held: "io_held env base ?q r c u' = io_held env base ?q r c u2" "io_idle env base ?q u' = io_idle env base ?q u2"
        "io_queued env base ?q i u' = io_queued env base ?q i u2" for r c
        unfolding eq(3) ex by simp_all
      show ?thesis
        using res Ok t' lock' unfolding eq(1) by (cases st) (simp_all add: io_result_def held)
    qed (use op(2) run f res in \<open>auto simp: io_result_def\<close>)
  qed simp
qed

subsection \<open>Completing\<close>

lemma held_count:
  assumes held: "io_held env base q r c u" and run: "count_cmd (q, r) u = (Ok x, u')"
  shows "io_held env base q r c u'"
proof -
  obtain usq where usq: "sq_at q u = Some usq" "held_cmd env base usq u r c"
    using held by (auto simp: io_held_def)
  obtain cnt where u': "u' = sq_store q (usq\<lparr>sq_cmd_count := cnt\<rparr>) u"
    using run usq(1) by (auto simp: count_cmd_def Let_def split: option.splits if_splits)
  let ?usq = "usq\<lparr>sq_cmd_count := cnt\<rparr>"
  have "sq_q usq \<noteq> None" using usq(2) by (simp add: held_cmd_def cmd_sys_wf_def sq_inv_def)
  then have "held_cmd env base ?usq u r c"
    using usq(2) sys_frame [where usq' = ?usq and usq = usq and u' = u and u = u] by (simp add: held_cmd_def sq_rqs_def)
  then show ?thesis using sq_at_bound [OF usq(1)] by (auto simp: io_held_def u' sq_at_store)
qed

lemma vcqs_same: "\<exists>v. (u :: ('m, 'r, 'z) unvme_scheme) = u\<lparr>vcqs := v\<rparr>"
  by (rule exI [of _ "vcqs u"]) simp

text \<open>The reaper completes the command; it stays that of the I/O.\<close>

lemma held_complete:
  assumes held: "io_held env base q r c u" and run: "unvmed_cmd_cmpl (q, r) cqe u = Some (Ok (), u')"
  shows "\<exists>d. io_held env base q r d u' \<and> c_opaque d = c_opaque c \<and> c_cid d = c_cid c"
proof -
  obtain u1 where u1: "count_cmd (q, r) u = (Ok (), u1)"
    using run by (auto simp: unvmed_cmd_cmpl_def thenb_Ok)
  note held1 = held_count [OF held u1]
  obtain woken u2 where u2: "unvmed_cmd_cmpl_wakeup (q, r) cqe u1 = (Ok woken, u2)"
    using run u1 by (auto simp: unvmed_cmd_cmpl_def thenb_Ok)
  let ?d = "if woken then (unvmed_cmd_cmpl_u2 cqe (c\<lparr>c_state := UNVME_CMD_S_TO_BE_COMPLETED\<rparr>))\<lparr>c_completed := True\<rparr>
            else c\<lparr>c_state := UNVME_CMD_S_TO_BE_COMPLETED\<rparr>"
  have own: "same_owner c ?d" by (simp add: same_owner_def unvmed_cmd_cmpl_u2_def)
  have u2': "\<exists>n. u2 = (set_command (q, r) ?d u1)\<lparr>nr_cmds := n\<rparr>"
  proof (cases woken)
    case True
    then show ?thesis using u2 held_command [OF held1]
      by (auto simp: unvmed_cmd_cmpl_wakeup_def Let_def split: if_splits)
  next
    case False
    then have "u2 = (set_command (q, r) ?d u1)\<lparr>nr_cmds := nr_cmds (set_command (q, r) ?d u1)\<rparr>"
      using u2 held_command [OF held1] by (auto simp: unvmed_cmd_cmpl_wakeup_def Let_def split: if_splits)
    then show ?thesis by blast
  qed
  then have held2: "io_held env base q r ?d u2" using held_set_command(1) [OF held1 own] by auto
  have "\<exists>v. u' = u2\<lparr>vcqs := v\<rparr>"
  proof (cases woken)
    case True
    then have "u' = u2\<lparr>vcqs := vcqs u2\<rparr>" using run u1 u2 by (simp add: unvmed_cmd_cmpl_def)
    then show ?thesis by blast
  next
    case False
    have push: "\<exists>v. w = u2\<lparr>vcqs := v\<rparr>" if "unvmed_vcq_push (q, r) cqe u2 = Some (out, w)" for out w
      using that by (auto simp: unvmed_vcq_push_def vcqs_same split: option.splits outcome.splits)
    show ?thesis
      using run u1 u2 False push
      by (auto simp: unvmed_cmd_cmpl_def split: option.splits outcome.splits prod.splits)
  qed
  then have "io_held env base q r ?d u'" using held2 by auto
  then show ?thesis by (intro exI [of _ ?d]) (simp add: unvmed_cmd_cmpl_u2_def)
qed

lemma held_slot:
  assumes "io_held env base q r c u" and "r \<noteq> Conflict"
  shows "r = Slot (unat (c_cid c))"
proof -
  obtain usq where "sq_at q u = Some usq" "sq_inv usq" "cmd_at usq r = Some c" "r \<in> live_refs usq"
    using assms(1) by (auto simp: io_held_def held_cmd_def cmd_sys_wf_def)
  then have "cmd_owned r c" using sq_inv_cmd by (auto simp: cmd_live_def)
  with assms(2) show ?thesis by (cases r) auto
qed

lemma held_lookup:
  assumes "io_held env base q r c u" and "r \<noteq> Conflict" and "cqe_cid cqe = c_cid c"
  obtains usq where "sq_at q u = Some usq" "unvmed_get_cmd (cqe_cid cqe) usq = Ok (Some r)" "cmd_at usq r = Some c"
proof -
  obtain usq where usq: "sq_at q u = Some usq" "cmd_at usq r = Some c"
    using assms(1) by (auto simp: io_held_def held_cmd_def)
  then have "unvmed_get_cmd (cqe_cid cqe) usq = Ok (Some r)"
    using held_live [OF assms(1)] held_slot [OF assms(1,2)] assms(3) by (simp add: unvmed_get_cmd_def)
  with usq that show ?thesis by blast
qed

text \<open>The application takes the completion out of its virtual queue.\<close>

lemma held_take:
  assumes held: "io_held env base q r c u" and r: "r \<noteq> Conflict" and "cqe_cid cqe = c_cid c"
  shows "\<exists>d u'. take_vcqe q cqe u = (Ok True, u') \<and> io_held env base q r d u' \<and> c_opaque d = c_opaque c \<and> c_cid d = c_cid c"
proof -
  obtain usq where usq: "sq_at q u = Some usq" "unvmed_get_cmd (cqe_cid cqe) usq = Ok (Some r)" "cmd_at usq r = Some c"
    using held_lookup [OF assms] .
  have "same_owner c (unvmed_cmd_cmpl_u2 cqe c)" by (simp add: same_owner_def unvmed_cmd_cmpl_u2_def)
  from held_set_command(1) [OF held this] usq show ?thesis
    by (auto simp: take_vcqe_def unvmed_cmd_cmpl_u2_def intro!: exI)
qed

lemma event_outcome:
  assumes held: "io_held env base (ft_sqid t) r c u" and r: "r \<noteq> Conflict" and E: "serves env E"
    and cqe: "nth_opt (ft_cqes t) k = Some cqe" "cqe_cid cqe = c_cid c"
    and id: "map_option sq_id (sq_at (ft_sqid t) u) = Some (unat (sqid cqe))"
    and io: "event_io E t cqe (ft_ios t (c_opaque c)) = Some io"
  shows "\<exists>u'. fio_libunvmed_event E k (t, u) = (Ok (c_opaque c),
      add_queued (- 1) (t\<lparr>ft_ios := (ft_ios t)(c_opaque c := event_finish io)\<rparr>), u') \<and> io_idle env base (ft_sqid t) u'"
proof -
  obtain usq where usq: "sq_at (ft_sqid t) u = Some usq" "unvmed_get_cmd (cqe_cid cqe) usq = Ok (Some r)"
    "cmd_at usq r = Some c"
    using held_lookup [OF held r cqe(2)] .
  have "e_dma env = fe_ops E" "e_sq env = io_sq (fe_io E)" using E by (auto simp: serves_def)
  from held_put [OF held this] obtain n u' where "cmd_put_at (fe_ops E) (fe_io E) (ft_sqid t, r) u = (Ok n, u')"
    "io_idle env base (ft_sqid t) u'" by blast
  then show ?thesis using usq cqe(1) id io by (simp add: fio_libunvmed_event_def)
qed

subsection \<open>Events\<close>

lemma run_loop_length:
  "cq_run_loop fuel env io qid cqid vcq nowait n u = Some (Ok es, v) \<Longrightarrow> length es \<le> n"
proof (induction fuel env io qid cqid vcq nowait n u arbitrary: es v rule: cq_run_loop.induct)
  case (3 fuel env io qid cqid vcq nowait n u0)
  then show ?case
    by (auto simp: thenb_Ok Let_def split: option.splits if_splits outcome.splits prod.splits)
qed auto

lemma run_n_length:
  "unvmed_cq_run_n_u2 fuel env io qid cqid vcq n nowait u = Some (Ok es, v) \<Longrightarrow> length es \<le> n"
  using run_loop_length by (fastforce simp: unvmed_cq_run_n_u2_def thenb_Ok)

definition run_bounded :: "(nat \<Rightarrow> 's \<Rightarrow> (nvme_cqe list outcome \<times> 's) option) \<Rightarrow> bool" where
  "run_bounded run \<longleftrightarrow> (\<forall>n u es v. run n u = Some (Ok es, v) \<longrightarrow> length es \<le> n)"

lemma getevents_loop_bounds:
  assumes "run_bounded run" and "getevents_loop fuel term run mn es u = Some (Ok (es', done), v)"
    and "length es \<le> mn"
  shows "length es' \<le> mn \<and> (done \<or> length es' = mn) \<and> (done \<longrightarrow> (\<exists>k. term k))"
  using assms(2,3)
proof (induction fuel arbitrary: es u)
  case 0
  then show ?case by (simp add: getevents_loop.simps split: if_splits)
next
  case (Suc fuel)
  show ?case
  proof (cases "mn \<le> length es")
    case True
    with Suc.prems show ?thesis by (simp add: getevents_loop.simps)
  next
    case False
    obtain es1 u1 where run1: "run (mn - length es) u = Some (Ok es1, u1)"
      and rest: "(if term fuel then thenb (run (mn - length (es @ es1)) u1) (\<lambda>es2 u2. Some (Ok (es @ es1 @ es2, True), u2))
        else getevents_loop fuel term run mn (es @ es1) u1) = Some (Ok (es', done), v)"
      using Suc.prems(1) False by (subst (asm) getevents_loop.simps) (auto simp: thenb_Ok)
    have le: "length (es @ es1) \<le> mn"
      using assms(1) run1 Suc.prems(2) False by (fastforce simp: run_bounded_def)
    show ?thesis
    proof (cases "term fuel")
      case True
      then obtain es2 where "run (mn - length (es @ es1)) u1 = Some (Ok es2, v)" "es' = es @ es1 @ es2" "done"
        using rest by (auto simp: thenb_Ok)
      with assms(1) le True show ?thesis by (fastforce simp: run_bounded_def)
    qed (use rest Suc.IH [OF _ le] in auto)
  qed
qed

lemma getevents_run_bounds:
  assumes "run_bounded run" and "mn \<le> mx" and "getevents_run fuel term run mn mx u = Some (Ok es, v)"
  shows "length es \<le> mx \<and> ((\<forall>k. \<not> term k) \<longrightarrow> mn \<le> length es)"
proof -
  obtain es1 d u1 where loop: "getevents_loop fuel term run mn [] u = Some (Ok (es1, d), u1)"
    and rest: "(if d \<or> mx \<le> length es1 then Some (Ok es1, u1)
      else thenb (run (mx - length es1) u1) (\<lambda>es2 u2. Some (Ok (es1 @ es2), u2))) = Some (Ok es, v)"
    using assms(3) by (auto simp: getevents_run_def thenb_Ok)
  note bnd = getevents_loop_bounds [OF assms(1) loop]
  show ?thesis
  proof (cases "d \<or> mx \<le> length es1")
    case True
    with rest bnd assms(2) show ?thesis by auto
  next
    case False
    then obtain es2 where "run (mx - length es1) u1 = Some (Ok es2, v)" "es = es1 @ es2"
      using rest by (auto simp: thenb_Ok)
    with assms(1) bnd False show ?thesis by (fastforce simp: run_bounded_def)
  qed
qed


subsection \<open>Queue, complete, event\<close>

text \<open>C4. An I/O of any kind that fio queues holds one command more than before, with its buffers
  and its request, and the submission queue is unlocked. When the device completes the command
  and the job takes the completion from its virtual queue, the event of the completion is that
  I/O again, the job's count of queued I/Os is what it was, and everything the command held is
  free.
\<close>

theorem fio_io_roundtrip:
  assumes idle: "io_idle env base (ft_sqid t) u" and E: "serves env E"
    and run: "fio_libunvmed_queue E i (t, u) = (Ok FIO_Q_QUEUED, t1, u1)"
  shows "\<exists>r c. command (ft_sqid t, r) u1 = Some c \<and> io_held env base (ft_sqid t) r c u1 \<and> c_opaque c = i
    \<and> nr_queued (ft_data t1) = nr_queued (ft_data t) + 1 \<and> sq_locked u1 = sq_locked u
    \<and> (\<forall>cqe u2. cqe_cid cqe = c_cid c \<longrightarrow> unvmed_cmd_cmpl (ft_sqid t, r) cqe u1 = Some (Ok (), u2) \<longrightarrow>
        (\<exists>u3. take_vcqe (ft_sqid t) cqe u2 = (Ok True, u3)
          \<and> (\<forall>cqes k. nth_opt cqes k = Some cqe \<longrightarrow>
               map_option sq_id (sq_at (ft_sqid t) u3) = Some (unat (sqid cqe)) \<longrightarrow>
               event_io E (t1\<lparr>ft_cqes := cqes\<rparr>) cqe (ft_ios t1 i) \<noteq> None \<longrightarrow>
               (\<exists>t4 u4. fio_libunvmed_event E k (t1\<lparr>ft_cqes := cqes\<rparr>, u3) = (Ok i, t4, u4)
                  \<and> nr_queued (ft_data t4) = nr_queued (ft_data t) \<and> io_idle env base (ft_sqid t) u4))))"
proof -
  have out: "io_queued env base (ft_sqid t) i u1" "sq_locked u1 = sq_locked u" "t1 = add_queued 1 (t\<lparr>ft_ios := ft_ios t1\<rparr>)"
    using queue_outcome [OF idle E run] by auto
  then obtain r c where c: "io_held env base (ft_sqid t) r c u1" "r \<noteq> Conflict" "c_opaque c = i"
    by (auto simp: io_queued_def)
  have q: "ft_sqid t1 = ft_sqid t" "nr_queued (ft_data t1) = nr_queued (ft_data t) + 1"
    by (subst out(3), simp add: add_queued_def)+
  have "\<exists>u3. take_vcqe (ft_sqid t) cqe u2 = (Ok True, u3)
      \<and> (\<forall>cqes k. nth_opt cqes k = Some cqe \<longrightarrow> map_option sq_id (sq_at (ft_sqid t) u3) = Some (unat (sqid cqe)) \<longrightarrow>
           event_io E (t1\<lparr>ft_cqes := cqes\<rparr>) cqe (ft_ios t1 i) \<noteq> None \<longrightarrow>
           (\<exists>t4 u4. fio_libunvmed_event E k (t1\<lparr>ft_cqes := cqes\<rparr>, u3) = (Ok i, t4, u4)
              \<and> nr_queued (ft_data t4) = nr_queued (ft_data t) \<and> io_idle env base (ft_sqid t) u4))"
    if cid: "cqe_cid cqe = c_cid c" and cmpl: "unvmed_cmd_cmpl (ft_sqid t, r) cqe u1 = Some (Ok (), u2)" for cqe u2
  proof -
    obtain d where d: "io_held env base (ft_sqid t) r d u2" "c_opaque d = i" "c_cid d = c_cid c"
      using held_complete [OF c(1) cmpl] c(3) by auto
    obtain e u3 where e: "take_vcqe (ft_sqid t) cqe u2 = (Ok True, u3)" "io_held env base (ft_sqid t) r e u3"
      "c_opaque e = i" "cqe_cid cqe = c_cid e"
      using held_take [OF d(1) c(2), of cqe] d(2,3) cid by auto
    have "\<exists>t4 u4. fio_libunvmed_event E k (t1\<lparr>ft_cqes := cqes\<rparr>, u3) = (Ok i, t4, u4)
        \<and> nr_queued (ft_data t4) = nr_queued (ft_data t) \<and> io_idle env base (ft_sqid t) u4"
      if k: "nth_opt cqes k = Some cqe" and id: "map_option sq_id (sq_at (ft_sqid t) u3) = Some (unat (sqid cqe))"
        and io: "event_io E (t1\<lparr>ft_cqes := cqes\<rparr>) cqe (ft_ios t1 i) \<noteq> None" for cqes k
    proof -
      let ?t2 = "t1\<lparr>ft_cqes := cqes\<rparr>"
      obtain io where io': "event_io E ?t2 cqe (ft_ios ?t2 (c_opaque e)) = Some io" using io e(3) by auto
      have "io_held env base (ft_sqid ?t2) r e u3" "nth_opt (ft_cqes ?t2) k = Some cqe"
        "map_option sq_id (sq_at (ft_sqid ?t2) u3) = Some (unat (sqid cqe))"
        using e(2) q(1) k id by simp_all
      from event_outcome [OF this(1) c(2) E this(2) e(4) this(3) io'] show ?thesis
        using e(3) q by (auto simp: add_queued_def)
    qed
    with e(1) show ?thesis by blast
  qed
  with c q(2) out(2) held_command [OF c(1)] show ?thesis by blast
qed

text \<open>C21. An I/O that gets past the checks of the queue and is then refused, because no command is
  free or because its data cannot be mapped, is counted as queued although it holds nothing (or,
  for metadata with scatter-gather lists, leaks its command). No event takes it off the count
  again: once refused I/Os have brought the count to the depth of the job, every I/O of the job is
  refused without a look at the queue, for any state of the controller.
\<close>

theorem refused_io_counted:
  assumes idle: "io_idle env base (ft_sqid t) u" and E: "serves env E"
    and run: "fio_libunvmed_queue E i (t, u) = (Ok st, t', u')" and st: "st = FIO_Q_BUSY \<or> st = FIO_Q_ERR e"
    and past: "nr_queued (ft_data t) \<noteq> iodepth (ft_job t)" "ft_sqid t \<notin> sq_locked u"
      "unvmed_sq_ready (sq_at (ft_sqid t) u)"
  shows "nr_queued (ft_data t') = nr_queued (ft_data t) + 1
    \<and> (io_idle env base (ft_sqid t) u' \<or> sgl_metadata i t \<and> (\<exists>r c. io_held env base (ft_sqid t) r c u'))
    \<and> (nr_queued (ft_data t') = iodepth (ft_job t) \<longrightarrow>
         (\<forall>j v. fio_libunvmed_queue E j (t', v) = (Ok FIO_Q_BUSY, t', (v :: ('m, 'r, 'z) unvme_scheme))))"
proof -
  let ?u1 = "u\<lparr>sq_locked := insert (ft_sqid t) (sq_locked u)\<rparr>"
  obtain f where f: "queue_op E i t = Some f" "fio_libunvmed_queue E i (t, u) =
      (case f (t, ?u1) of (Ok ret, t2, u2) \<Rightarrow> (Ok ret, add_queued 1 t2, unvmed_sq_exit (ft_sqid t) u2) | r \<Rightarrow> r)"
    using run past st
    by (auto simp: fio_libunvmed_queue_def unvmed_sq_try_enter_def split: if_splits option.splits)
  obtain out t2 u2 where f2: "f (t, ?u1) = (out, t2, u2)" using prod_cases3 by blast
  have "io_idle env base (ft_sqid t) ?u1" using idle by simp
  note res = op_result [OF this E f(1), unfolded f2]
  have eq: "out = Ok st" "t' = add_queued 1 t2" using run f(2) f2 by (cases out; simp)+
  then have t2: "t2 = t\<lparr>ft_ios := ft_ios t2\<rparr>" using res by (simp add: io_result_def)
  have cnt: "nr_queued (ft_data t') = nr_queued (ft_data t) + 1" "ft_job t' = ft_job t" "ft_sqid t' = ft_sqid t"
    unfolding eq(2) by (subst t2, simp add: add_queued_def)+
  have "io_idle env base (ft_sqid t) u' \<or> sgl_metadata i t \<and> (\<exists>r c. io_held env base (ft_sqid t) r c u')"
    using queue_outcome [OF idle E run] st by auto
  moreover have "fio_libunvmed_queue E j (t', v) = (Ok FIO_Q_BUSY, t', v)"
    if "nr_queued (ft_data t') = iodepth (ft_job t)" for j and v :: "('m, 'r, 'z) unvme_scheme"
    using that cnt(2) by (simp add: fio_libunvmed_queue_def)
  ultimately show ?thesis using cnt(1) by blast
qed

subsection \<open>Samples\<close>

text \<open>A job of depth one on the sample controller, with one I/O.\<close>


definition sample_fio_env :: "(nat set, nat list) fio_env" where
  "sample_fio_env = \<lparr>fe_defs = sample_fio_defs, fe_pi = host_ops, fe_ops = sample_ops, fe_mops = sample_map,
     fe_io = busy_io\<lparr>io_sq := sample_sq_ops\<rparr>, fe_now = zero_timespec, fe_cqe_ok = (\<lambda>cqe. drop_bit 1 (sfp cqe) = 0),
     fe_ro_ok = (\<lambda>_. True), fe_populate = (\<lambda>b. b), fe_lid = (\<lambda>_. 2), fe_abort = (0, 0)\<rparr>"

definition sample_fio_io :: "fio_ddir \<Rightarrow> fio_io" where
  "sample_fio_io d = \<lparr>io_ddir = d, io_offset = 0, xfer_buflen = 512, io_index = 0, io_xfer_buf = 4096, io_buf = 4096,
     io_mbuf = 0, io_mlen = 0, io_mem = sample_pi_bufs, io_copy = [], io_number_trim = 1, io_trims = [],
     io_ranges = [], io_ver_list = False, io_ver_in_dev = False, io_device_error = False, io_error = 0\<rparr>"

definition sample_thread :: "fio_ddir \<Rightarrow> fio_thread" where
  "sample_thread d = \<lparr>ft_job = \<lparr>use_thread = True, nr_files = 1, iodepth = 1, max_bs = (\<lambda>_. 512), min_bs = (\<lambda>_. 512),
       td_writes = True, td_trims = False, num_range = 1\<rparr>,
     ft_opts = zero_fio_options, ft_data = zero_data, ft_mem = sample_mem, ft_ns = zero_ns\<lparr>nsid := 1, lba_size := 512\<rparr>,
     ft_sqid = 1, ft_cqid = 1, ft_vcq = 1, ft_ios = (\<lambda>_. sample_fio_io d), ft_cqes = replicate 4 zero_cqe\<rparr>"

definition sample_posted :: "nat list unvme_sq" where
  "sample_posted = sample_usq\<lparr>sq_q := Some ((the (sq_q sample_usq))\<lparr>nsq_rqs := [2, 3]\<rparr>),
      sq_cids := \<lparr>bm_size = 3, nr_bytes = 1, bm_bits = [0xF9], bm_top = 0\<rparr>, sq_nr_cmds := 1,
      sq_cmds := [new_cmd\<lparr>c_vcq := 1, c_state := UNVME_CMD_S_SUBMITTED\<rparr>, zero_cmd, zero_cmd]\<rparr>"

lemma sample_thread_simps [simp]:
  "ft_sqid (sample_thread d) = 1" "nr_queued (ft_data (sample_thread d)) = 0" "iodepth (ft_job (sample_thread d)) = 1"
  "io_ddir (ft_ios (sample_thread d) i) = d" "fe_ro_ok sample_fio_env x"
  by (simp_all add: sample_thread_def zero_data_def sample_fio_io_def sample_fio_env_def)

lemma sample_u_rest [simp]: "timeout sample_u = 0" "nr_cmds sample_u = 0" "vcqs sample_u = (\<lambda>_. None)"
  by (simp_all add: sample_u_def unvme_nss.extend_def)

lemma sample_flush_alloc:
  assumes "sqs u = [None, Some sample_usq, None]"
  shows "on_sq 1 (unvmed_alloc_cmd_nodata sample_ops sample_sq_ops None) u = (Ok (Slot 0), u\<lparr>sqs := [None, Some (sample_usq\<lparr>
      sq_q := Some ((the (sq_q sample_usq))\<lparr>nsq_rqs := [2, 3]\<rparr>),
      sq_cids := \<lparr>bm_size = 3, nr_bytes = 1, bm_bits = [0xF9], bm_top = 0\<rparr>, sq_nr_cmds := 1,
      sq_cmds := [new_cmd, zero_cmd, zero_cmd]\<rparr>), None]\<rparr>)"
  using assms
  by (simp add: on_sq_def sq_at_def nth_opt_def unvmed_alloc_cmd_nodata_def unvmed_cmd_init_u2_def unvmed_cmd_alloc_u2_def
      sample_cids [simplified] cmd_alloc_finish_def sq_take_rq_def sample_sq_ops_def cmd_init_meta_def buf_init_none
      sq_store_def rep3 sample_usq_def new_cmd_def fresh_cmd_def zero_cmd_def)

lemma sample_ready: "unvmed_sq_ready (Some sample_usq)"
  by (simp add: unvmed_sq_ready_def sample_usq_def)

lemma sample_flush: "fio_libunvmed_queue sample_fio_env 0 (sample_thread DDIR_SYNC, sample_u) =
  (Ok FIO_Q_QUEUED, add_queued 1 (sample_thread DDIR_SYNC), sample_u\<lparr>sqs := [None, Some sample_posted, None], nr_cmds := 1\<rparr>)"
proof -
  let ?u = "sample_u\<lparr>sq_locked := {1}\<rparr>"
  note alloc = sample_flush_alloc [of ?u, simplified]
  have "fio_libunvmed_fsync sample_fio_env 0 (sample_thread DDIR_SYNC, ?u) = (Ok FIO_Q_QUEUED, sample_thread DDIR_SYNC,
     ?u\<lparr>sqs := [None, Some sample_posted, None], nr_cmds := 1\<rparr>)"
    by (simp add: fio_libunvmed_fsync_def with_cmd_def sample_fio_env_def sample_thread_def alloc command_def sq_at_def nth_opt_def
      post_io_def unvmed_cmd_post_entry_def set_command_def sq_modify_def sq_store_def Let_def sample_posted_def)
       (simp add: sample_sq_ops_def sample_usq_def new_cmd_def fresh_cmd_def zero_cmd_def)
  then show ?thesis
    using sample_ready
    by (simp add: fio_libunvmed_queue_def unvmed_sq_try_enter_def unvmed_sq_exit_def queue_op_def sq_at_def nth_opt_def)
qed


lemma sample_serves: "serves sample_env sample_fio_env"
  by (simp add: serves_def sample_env_def sample_fio_env_def posts_keep_rqs_def sample_sq_ops_def)

lemma sample_u_dma: "heap sample_u = {}" "iommu sample_u = {}" "bdf sample_u = Some ''0000:01:00.0''"
  by (simp_all add: sample_u_def unvme_nss.extend_def sample_nss_def unvme_dma.extend_def sample_dma_def)

lemma sample_u_idle: "io_idle sample_env (cmd_sys_live (sample_env, sample_usq, sample_u)) 1 sample_u"
proof -
  have "cmd_sys_wf (sample_env, sample_usq, sample_u)"
    using sample_sys_wf sample_u_dma by (simp add: cmd_sys_wf_def sample_dma_def)
  then show ?thesis by (simp add: io_idle_def sq_at_def nth_opt_def)
qed

lemma posted_live: "live_refs sample_posted = {Slot 0}"
proof -
  have "\<forall>c\<in>set [0..<3]. bit (0xF9 :: u8) c \<longleftrightarrow> c = 0" by code_simp
  then show ?thesis
    by (auto simp: live_refs_def used_cids_def cid_bit_def sample_posted_def sample_usq_def zero_cmd_def)
qed


definition posted_u :: "unvme_cmd \<Rightarrow> u64 list \<Rightarrow> (nat set, nat list) unvme" where
  "posted_u c cnt = sample_u\<lparr>sqs := [None, Some (sample_posted\<lparr>sq_cmds := [c, zero_cmd, zero_cmd], sq_cmd_count := cnt\<rparr>), None],
     nr_cmds := 1\<rparr>"

definition flush_cmd :: "unvme_cmd_state \<Rightarrow> unvme_cmd" where
  "flush_cmd st = new_cmd\<lparr>c_vcq := 1, c_state := st\<rparr>"

lemma posted_at: "sq_at q (posted_u c cnt) = (if q = 1 then Some (sample_posted\<lparr>sq_cmds := [c, zero_cmd, zero_cmd], sq_cmd_count := cnt\<rparr>) else None)"
  by (auto simp: sq_at_def posted_u_def nth_opt_def nth_Cons less_Suc_eq split: nat.splits)

lemma posted_first: "sample_u\<lparr>sqs := [None, Some sample_posted, None], nr_cmds := 1\<rparr> =
    posted_u (flush_cmd UNVME_CMD_S_SUBMITTED) (replicate 255 0)"
  by (simp add: posted_u_def flush_cmd_def sample_posted_def sample_usq_def)

lemma posted_set: "set_command (1, Slot 0) d (posted_u c cnt) = posted_u d cnt"
  by (simp add: set_command_def sq_modify_at [OF posted_at [of 1 c cnt, simplified]] sq_store_def) (simp add: posted_u_def)

lemma posted_command: "command (1, Slot 0) (posted_u c cnt) = Some c"
  by (simp add: command_def posted_at nth_opt_def)

lemma posted_complete:
  "unvmed_cmd_cmpl (1, Slot 0) cqe (posted_u (flush_cmd UNVME_CMD_S_SUBMITTED) (replicate 255 0)) =
     Some (Ok (), posted_u (flush_cmd UNVME_CMD_S_TO_BE_COMPLETED) (1 # replicate 254 0))"
proof -
  have "count_cmd (1, Slot 0) (posted_u (flush_cmd st) (replicate 255 0)) = (Ok (), posted_u (flush_cmd st) (1 # replicate 254 0))" for st
  proof -
    have "(replicate 255 0)[0 := 1] = (1 :: u64) # replicate 254 0" by (simp add: numeral_eq_Suc)
    moreover have "unat (sqe_opcode (c_sqe (flush_cmd st))) = 0"
      by (simp add: flush_cmd_def new_cmd_def fresh_cmd_def zero_cmd_def zero_sqe_def)
    ultimately show ?thesis
      by (simp add: count_cmd_def posted_at posted_command Let_def sq_store_def del: One_nat_def) (simp add: posted_u_def)
  qed
  moreover have "c_flags (flush_cmd st) = 0" "(flush_cmd st)\<lparr>c_state := st'\<rparr> = flush_cmd st'" "c_vcq (flush_cmd st) = 1" for st st'
    by (simp_all add: flush_cmd_def new_cmd_def fresh_cmd_def zero_cmd_def)
  moreover have "vcqs (posted_u c cnt) = (\<lambda>_. None)" for c cnt by (simp add: posted_u_def)
  ultimately show ?thesis
    by (simp add: unvmed_cmd_cmpl_def unvmed_cmd_cmpl_wakeup_def posted_command posted_set unvmed_vcq_push_def unvmed_cmd_get_vcq_def
        del: One_nat_def)
qed

theorem fio_io_roundtrip_witness:
  "\<exists>t1 u1 u2 u3 t4 u4. fio_libunvmed_queue sample_fio_env 0 (sample_thread DDIR_SYNC, sample_u) = (Ok FIO_Q_QUEUED, t1, u1)
     \<and> nr_queued (ft_data t1) = 1
     \<and> unvmed_cmd_cmpl (1, Slot 0) (zero_cqe\<lparr>sqid := 1\<rparr>) u1 = Some (Ok (), u2)
     \<and> take_vcqe 1 (zero_cqe\<lparr>sqid := 1\<rparr>) u2 = (Ok True, u3)
     \<and> fio_libunvmed_event sample_fio_env 0 (t1\<lparr>ft_cqes := [zero_cqe\<lparr>sqid := 1\<rparr>]\<rparr>, u3) = (Ok 0, t4, u4)
     \<and> nr_queued (ft_data t4) = 0"
proof -
  let ?cqe = "zero_cqe\<lparr>sqid := 1\<rparr>" and ?t1 = "add_queued 1 (sample_thread DDIR_SYNC)"
  let ?c = "flush_cmd UNVME_CMD_S_TO_BE_COMPLETED" and ?u1 = "posted_u (flush_cmd UNVME_CMD_S_SUBMITTED) (replicate 255 0)"
  let ?u2 = "posted_u ?c (1 # replicate 254 0)"
  note run = sample_flush [unfolded posted_first]
  have idle: "io_idle sample_env (cmd_sys_live (sample_env, sample_usq, sample_u)) (ft_sqid (sample_thread DDIR_SYNC)) sample_u"
    using sample_u_idle by simp
  let ?base = "cmd_sys_live (sample_env, sample_usq, sample_u)"
  obtain r c where c: "command (1, r) ?u1 = Some c" "io_held sample_env ?base 1 r c ?u1" "nr_queued (ft_data ?t1) = 0 + 1"
    and later: "\<forall>cqe u2. cqe_cid cqe = c_cid c \<longrightarrow> unvmed_cmd_cmpl (1, r) cqe ?u1 = Some (Ok (), u2) \<longrightarrow>
        (\<exists>u3. take_vcqe 1 cqe u2 = (Ok True, u3)
          \<and> (\<forall>cqes k. nth_opt cqes k = Some cqe \<longrightarrow> map_option sq_id (sq_at 1 u3) = Some (unat (sqid cqe)) \<longrightarrow>
               event_io sample_fio_env (?t1\<lparr>ft_cqes := cqes\<rparr>) cqe (ft_ios ?t1 0) \<noteq> None \<longrightarrow>
               (\<exists>t4 u4. fio_libunvmed_event sample_fio_env k (?t1\<lparr>ft_cqes := cqes\<rparr>, u3) = (Ok 0, t4, u4)
                  \<and> nr_queued (ft_data t4) = 0 \<and> io_idle sample_env ?base 1 u4)))"
    using fio_io_roundtrip [OF idle sample_serves run, unfolded sample_thread_simps] by blast
  have "r \<in> live_refs (sample_posted\<lparr>sq_cmds := [flush_cmd UNVME_CMD_S_SUBMITTED, zero_cmd, zero_cmd], sq_cmd_count := replicate 255 0\<rparr>)"
    using c(2) by (auto simp: io_held_def posted_at held_cmd_def)
  then have r: "r = Slot 0" using posted_live by (auto simp: live_refs_def)
  then have cid: "c_cid c = 0" using c(1) posted_command [of "flush_cmd UNVME_CMD_S_SUBMITTED" "replicate 255 0"] by (simp add: flush_cmd_def)
  have "cqe_cid ?cqe = c_cid c" using cid by (simp add: zero_cqe_def)
  then obtain u3 where u3: "take_vcqe 1 ?cqe ?u2 = (Ok True, u3)"
    and event: "\<forall>cqes k. nth_opt cqes k = Some ?cqe \<longrightarrow> map_option sq_id (sq_at 1 u3) = Some (unat (sqid ?cqe)) \<longrightarrow>
      event_io sample_fio_env (?t1\<lparr>ft_cqes := cqes\<rparr>) ?cqe (ft_ios ?t1 0) \<noteq> None \<longrightarrow>
      (\<exists>t4 u4. fio_libunvmed_event sample_fio_env k (?t1\<lparr>ft_cqes := cqes\<rparr>, u3) = (Ok 0, t4, u4)
         \<and> nr_queued (ft_data t4) = 0 \<and> io_idle sample_env ?base 1 u4)"
    using later posted_complete [of ?cqe] unfolding r by blast
  have "\<exists>d. u3 = posted_u d (1 # replicate 254 0)"
    using u3 posted_set by (auto simp: take_vcqe_def posted_at unvmed_get_cmd_def zero_cqe_def split: option.splits if_splits)
  then have "map_option sq_id (sq_at 1 u3) = Some (unat (sqid ?cqe))"
    by (auto simp: posted_at sample_posted_def sample_usq_def)
  moreover have "event_io sample_fio_env (?t1\<lparr>ft_cqes := [?cqe]\<rparr>) ?cqe (ft_ios ?t1 0) \<noteq> None"
    by (simp add: event_io_def event_copy_def event_verify_def add_queued_def Let_def)
  moreover have "nth_opt [?cqe] 0 = Some ?cqe" by simp
  ultimately show ?thesis using run c(3) posted_complete u3 event by (metis add_0)
qed


text \<open>The queue without a free request.\<close>

definition drained_usq :: "nat list unvme_sq" where
  "drained_usq = sample_usq\<lparr>sq_q := Some ((the (sq_q sample_usq))\<lparr>nsq_rqs := []\<rparr>)\<rparr>"

definition drained_u :: "(nat set, nat list) unvme" where
  "drained_u = sample_u\<lparr>sqs := [None, Some drained_usq, None]\<rparr>"

lemma drained_at: "sq_at 1 drained_u = Some drained_usq"
  by (simp add: sq_at_def nth_opt_def drained_u_def)

lemma drained_alloc:
  assumes "sqs u = [None, Some drained_usq, None]"
  shows "on_sq 1 (unvmed_alloc_cmd_nodata sample_ops sample_sq_ops None) u = (Fail EBUSY, u)"
proof -
  have "drained_usq\<lparr>sq_cids := \<lparr>bm_size = 3, nr_bytes = Suc 0, bm_bits = [0xF8], bm_top = 0\<rparr>\<rparr> = drained_usq"
    by (simp add: drained_usq_def sample_usq_def)
  moreover have "sq_cids drained_usq = \<lparr>bm_size = 3, nr_bytes = Suc 0, bm_bits = [0xF8], bm_top = 0\<rparr>"
    "sq_q drained_usq = Some ((the (sq_q sample_usq))\<lparr>nsq_rqs := []\<rparr>)"
    by (simp_all add: drained_usq_def sample_usq_def)
  moreover have "u\<lparr>sqs := [None, Some drained_usq, None]\<rparr> = u" using assms by simp
  ultimately show ?thesis
    using assms
    by (simp add: on_sq_def sq_at_def nth_opt_def unvmed_alloc_cmd_nodata_def unvmed_cmd_init_u2_def unvmed_cmd_alloc_u2_def
      sample_cids [simplified] sample_cids_free [simplified] cmd_alloc_finish_def sq_take_rq_def sample_sq_ops_def sq_store_def)
qed

lemma drained_idle: "io_idle sample_env (cmd_sys_live (sample_env, drained_usq, drained_u)) 1 drained_u"
proof -
  have live: "live_refs drained_usq = live_refs sample_usq" and at: "cmd_at drained_usq r = cmd_at sample_usq r" for r
    by (cases r; simp add: live_refs_def drained_usq_def)+
  have "cmd_sys_wf (sample_env, drained_usq, drained_u)"
    using sample_sys_wf sample_u_dma live at
    by (simp add: cmd_sys_wf_def sq_inv_def single_refs_def drained_u_def sample_dma_def)
       (simp add: drained_usq_def sq_rqs_def sample_env_def)
  then show ?thesis using drained_at by (simp add: io_idle_def)
qed

lemma drained_flush: "fio_libunvmed_queue sample_fio_env 0 (sample_thread DDIR_SYNC, drained_u) =
  (Ok FIO_Q_BUSY, add_queued 1 (sample_thread DDIR_SYNC), drained_u)"
proof -
  let ?u = "drained_u\<lparr>sq_locked := {1}\<rparr>"
  have "fe_ops sample_fio_env = sample_ops" "io_sq (fe_io sample_fio_env) = sample_sq_ops"
    by (simp_all add: sample_fio_env_def)
  moreover have "sqs ?u = [None, Some drained_usq, None]" by (simp add: drained_u_def)
  ultimately have "fio_libunvmed_fsync sample_fio_env 0 (sample_thread DDIR_SYNC, ?u) = (Ok FIO_Q_BUSY, sample_thread DDIR_SYNC, ?u)"
    using drained_alloc [of ?u] by (simp add: fio_libunvmed_fsync_def with_cmd_def del: One_nat_def)
  moreover have "unvmed_sq_ready (Some drained_usq)" "sq_locked drained_u = {}"
    by (simp_all add: unvmed_sq_ready_def drained_usq_def sample_usq_def drained_u_def)
  moreover have "drained_u\<lparr>sq_locked := {}\<rparr> = drained_u" by (simp add: drained_u_def sample_u_def unvme_nss.extend_def)
  ultimately show ?thesis
    using drained_at
    by (simp add: fio_libunvmed_queue_def unvmed_sq_try_enter_def unvmed_sq_exit_def queue_op_def del: One_nat_def)
qed

theorem refused_io_counted_witness:
  "nr_queued (ft_data (sample_thread DDIR_SYNC)) = 0
   \<and> fio_libunvmed_queue sample_fio_env 0 (sample_thread DDIR_SYNC, drained_u)
       = (Ok FIO_Q_BUSY, add_queued 1 (sample_thread DDIR_SYNC), drained_u)
   \<and> fio_libunvmed_queue sample_fio_env 0 (add_queued 1 (sample_thread DDIR_SYNC), sample_u)
       = (Ok FIO_Q_BUSY, add_queued 1 (sample_thread DDIR_SYNC), sample_u)"
proof -
  have idle: "io_idle sample_env (cmd_sys_live (sample_env, drained_usq, drained_u)) (ft_sqid (sample_thread DDIR_SYNC)) drained_u"
    using drained_idle by simp
  have past: "nr_queued (ft_data (sample_thread DDIR_SYNC)) \<noteq> iodepth (ft_job (sample_thread DDIR_SYNC))"
    "ft_sqid (sample_thread DDIR_SYNC) \<notin> sq_locked drained_u" "unvmed_sq_ready (sq_at (ft_sqid (sample_thread DDIR_SYNC)) drained_u)"
    using drained_at by (simp_all add: drained_u_def unvmed_sq_ready_def drained_usq_def sample_usq_def del: One_nat_def)
  from refused_io_counted [OF idle sample_serves drained_flush _ past, of EIO]
  have "nr_queued (ft_data (add_queued 1 (sample_thread DDIR_SYNC))) = 0 + 1"
    "nr_queued (ft_data (add_queued 1 (sample_thread DDIR_SYNC))) = 1 \<longrightarrow>
       (\<forall>j v. fio_libunvmed_queue sample_fio_env j (add_queued 1 (sample_thread DDIR_SYNC), v)
          = (Ok FIO_Q_BUSY, add_queued 1 (sample_thread DDIR_SYNC), (v :: (nat set, nat list) unvme)))"
    unfolding sample_thread_simps by blast+
  then show ?thesis using drained_flush by simp
qed

text \<open>The flush is completed and waits in the virtual queue of the job.\<close>

definition landed_vcq :: unvme_vcq where
  "landed_vcq = \<lparr>vq_qid = 1, vq_qsize = 4, vq_head = 0, vq_tail = 1,
     vq_vcqe = replicate 4 \<lparr>vcqe_cqe = zero_cqe\<lparr>sqid := 1\<rparr>, vcqe_bdf = 0x100, vcqe_injected = 0\<rparr>\<rparr>"

definition landed_u :: "(nat set, nat list) unvme" where
  "landed_u = (posted_u (flush_cmd UNVME_CMD_S_TO_BE_COMPLETED) (replicate 255 0))\<lparr>vcqs := [1 \<mapsto> landed_vcq]\<rparr>"


end
