(* ===== verification/Fio_Job_Facts.thy ===== *)
theory Fio_Job_Facts
  imports Fio_Job Fio_Queue_Facts Registry_Facts
begin

text \<open>
  The life of a fio job gives back what it takes: opening and closing the file of a job is neutral
  for the queues, the mappings and the virtual completion queues. The error paths do not.
\<close>

unbundle bit_operations_syntax

subsection \<open>What mapping leaves alone\<close>

text \<open>Mapping and unmapping change the mappings of the controller only, and no address of the job.\<close>

definition same_buffers :: "fio_mem \<Rightarrow> fio_mem \<Rightarrow> bool" where
  "same_buffers mm mm' \<longleftrightarrow>
     orig_buffer mm' = orig_buffer mm \<and> orig_buffer_size mm' = orig_buffer_size mm \<and> prp_iomem mm' = prp_iomem mm
   \<and> prp_list_iomem mm' = prp_list_iomem mm \<and> meta_iomem mm' = meta_iomem mm \<and> trim_iomem mm' = trim_iomem mm
   \<and> ld_epoch mm' = ld_epoch mm"

definition iommu_only :: "('m, 'z) mem_state \<Rightarrow> ('m, 'z) mem_state \<Rightarrow> bool" where
  "iommu_only s s' \<longleftrightarrow> same_buffers (fst s) (fst s') \<and> (\<exists>m. snd s' = (snd s)\<lparr>iommu := m\<rparr>)"

lemma iommu_only_refl: "iommu_only s s"
  by (auto simp: iommu_only_def same_buffers_def intro: exI [of _ "iommu (snd s)"])

lemma iommu_only_trans: "iommu_only s s' \<Longrightarrow> iommu_only s' s'' \<Longrightarrow> iommu_only s s''"
  by (auto simp: iommu_only_def same_buffers_def)

lemma unmap_vaddr_iommu: "\<exists>m. snd (unvmed_unmap_vaddr ops a u) = u\<lparr>iommu := m\<rparr>"
  by (auto simp: unvmed_unmap_vaddr_def split: sum.splits intro: exI [of _ "iommu u"])

lemma map_buffer_iommu:
  assumes "\<And>i mm. same_buffers mm (put i mm)"
  shows "iommu_only s (snd (map_buffer ops p a len put s))"
  using assms
  by (auto simp: map_buffer_def unvmed_map_vaddr_def iommu_only_refl iommu_only_def same_buffers_def
      intro: exI [of _ "iommu (snd s)"] split: prod.splits sum.splits)

lemma unmap_buffer_iommu: "\<exists>m. unmap_buffer ops b u = u\<lparr>iommu := m\<rparr>"
  using unmap_vaddr_iommu [of ops "snd b" u]
  by (auto simp: unmap_buffer_def ignore_def intro: exI [of _ "iommu u"])

lemma rollback_iommu:
  fixes s :: "('m, 'z) mem_state"
  shows "iommu_only s (snd (rollback ops e bs s))"
proof -
  have "\<exists>m. fold (unmap_buffer ops) bs u = u\<lparr>iommu := m\<rparr>" for u :: "('m, 'z) unvme_dma_scheme"
  proof (induction bs arbitrary: u)
    case Nil
    then show ?case by (auto intro: exI [of _ "iommu u"])
  next
    case (Cons b bs)
    obtain m where "unmap_buffer ops b u = u\<lparr>iommu := m\<rparr>" using unmap_buffer_iommu [of ops b u] by (elim exE)
    with Cons.IH [of "u\<lparr>iommu := m\<rparr>"] show ?case by auto
  qed
  then show ?thesis by (simp add: rollback_def iommu_only_def same_buffers_def)
qed

lemma or_undo_iommu:
  assumes "iommu_only s (snd r)" "\<And>s'. iommu_only s' (snd (undo s'))" "\<And>s'. iommu_only s' (snd (next s'))"
  shows "iommu_only s (snd (or_undo r undo next))"
  using assms by (cases r; cases "fst r") (auto simp: or_undo_def intro: iommu_only_trans)

lemma map_mems_iommu: "iommu_only s (snd (libunvmed_map_mems ops cmb_data s))"
proof -
  have "iommu_only s (snd (map_buffer ops True a len (\<lambda>iova mm. mm\<lparr>orig_buffer_iova := iova\<rparr>) s))" for a len
    by (rule map_buffer_iommu) (simp add: same_buffers_def)
  moreover have "iommu_only s ((fst s)\<lparr>orig_buffer_iova := i\<rparr>, snd s)" for i
    by (auto simp: iommu_only_def same_buffers_def intro: exI [of _ "iommu (snd s)"])
  ultimately have orig: "iommu_only s (snd (map_orig_buffer ops cmb_data s))"
    by (simp add: map_orig_buffer_def Let_def iommu_only_refl split: option.splits)
  show ?thesis
    unfolding libunvmed_map_mems_def Let_def
    by (intro or_undo_iommu orig map_buffer_iommu rollback_iommu) (simp_all add: iommu_only_refl same_buffers_def)
qed


subsection \<open>The queues and the virtual completion queue\<close>

lemma sq_put_one:
  assumes "sq_wf u" "nth_opt (sqs u) i = Some (Some usq)"
    and "sqs v = (sqs u)[i := Some (usq\<lparr>sq_refcnt := sq_refcnt usq + 1\<rparr>)]"
  shows "snd (unvmed_sq_put i v) = v\<lparr>sqs := sqs u\<rparr>"
  using assms(2,3) sq_wfD [OF assms(1,2)]
  by (auto simp: unvmed_sq_put_def Let_def sq_store_def nth_opt_update list_update_same_conv)

lemma cq_put_one:
  assumes "cq_wf u" "nth_opt (cqs u) j = Some (Some ucq)"
    and "cqs v = (cqs u)[j := Some (ucq\<lparr>cq_refcnt := cq_refcnt ucq + 1\<rparr>)]"
  shows "snd (unvmed_cq_put j v) = v\<lparr>cqs := cqs u\<rparr>"
  using assms(2,3) cq_wfD [OF assms(1,2)]
  by (auto simp: unvmed_cq_put_def Let_def cq_store_def nth_opt_update list_update_same_conv)

text \<open>Both queues are held with one reference more than in \<open>u\<close>.\<close>

definition holds_queues ::
  "('m, 'r, 'z) unvme_inst_scheme \<Rightarrow> nat \<Rightarrow> nat \<Rightarrow> ('m, 'r, 'z) unvme_inst_scheme \<Rightarrow> bool" where
  "holds_queues u i j v \<longleftrightarrow> (\<exists>usq ucq. nth_opt (sqs u) i = Some (Some usq) \<and> nth_opt (cqs u) j = Some (Some ucq)
     \<and> sq_ucq usq = j
     \<and> v = u\<lparr>sqs := (sqs u)[i := Some (usq\<lparr>sq_refcnt := sq_refcnt usq + 1\<rparr>)],
             cqs := (cqs u)[j := Some (ucq\<lparr>cq_refcnt := cq_refcnt ucq + 1\<rparr>)]\<rparr>)"

lemma put_queues_held:
  assumes "sq_wf u" "cq_wf u" "holds_queues u i j v" "sqs w = sqs v" "cqs w = cqs v"
  shows "put_queues i j w = w\<lparr>sqs := sqs u, cqs := cqs u\<rparr>"
proof -
  obtain usq ucq where q: "nth_opt (sqs u) i = Some (Some usq)" "nth_opt (cqs u) j = Some (Some ucq)"
    "sqs w = (sqs u)[i := Some (usq\<lparr>sq_refcnt := sq_refcnt usq + 1\<rparr>)]"
    "cqs w = (cqs u)[j := Some (ucq\<lparr>cq_refcnt := cq_refcnt ucq + 1\<rparr>)]"
    using assms(3-5) by (auto simp: holds_queues_def)
  have "snd (unvmed_cq_put j w) = w\<lparr>cqs := cqs u\<rparr>" by (rule cq_put_one [OF assms(2) q(2,4)])
  then show ?thesis
    using sq_put_one [OF assms(1) q(1), of "w\<lparr>cqs := cqs u\<rparr>"] q(3) by (simp add: put_queues_def)
qed

lemma vcq_init_free:
  assumes inv: "vcq_pool_inv p" and run: "unvmed_vcq_init p a n mem = Inr (q, p', qid)"
    and free: "\<And>i. i \<in> vcq_free_qids p \<Longrightarrow> vcq_map p i = None"
  shows "qid \<in> vcq_free_qids p \<and> vq_qid q = qid
    \<and> vcq_free_qids (snd (unvmed_vcq_free p' q)) = vcq_free_qids p
    \<and> vcq_map (snd (unvmed_vcq_free p' q)) = vcq_map p \<and> vcq_pool_inv (snd (unvmed_vcq_free p' q))"
proof -
  from run obtain p1 where acq: "unvmed_vcq_acquire p = Some (qid, p1)"
    and p': "p' = p1\<lparr>vcq_map := (vcq_map p1)(qid \<mapsto> a)\<rparr>" and q: "vq_qid q = qid"
    by (auto simp: unvmed_vcq_init_def split: option.splits if_splits)
  from acquire_step [OF inv acq] have step: "qid \<in> vcq_free_qids p" "vcq_free_qids p1 = vcq_free_qids p - {qid}"
    "vcq_pool_inv p1" by auto
  have map1: "vcq_map p1 = vcq_map p"
    using acq by (auto simp: unvmed_vcq_acquire_def split: option.splits)
  have upd: "vcq_free_qids (p1\<lparr>vcq_map := x\<rparr>) = vcq_free_qids p1" "vcq_pool_inv (p1\<lparr>vcq_map := x\<rparr>) = vcq_pool_inv p1" for x
    by (simp_all add: vcq_free_qids_def vcq_pool_inv_def)
  have "qid \<in> valid_qids" using step(1) inv by (auto elim: vcq_pool_invE)
  with release_step [of "p1\<lparr>vcq_map := vcq_map p\<rparr>" qid] step upd
  have "vcq_free_qids (unvmed_vcq_release (p1\<lparr>vcq_map := vcq_map p\<rparr>) qid) = vcq_free_qids p"
    "vcq_pool_inv (unvmed_vcq_release (p1\<lparr>vcq_map := vcq_map p\<rparr>) qid)" by auto
  moreover have "(vcq_map p)(qid := None) = vcq_map p" using free [OF step(1)] by (metis fun_upd_triv)
  ultimately show ?thesis
    using step(1) q p' map1 by (simp add: unvmed_vcq_free_def Let_def unvmed_vcq_release_def)
qed

subsection \<open>Opening and closing\<close>

lemma open_queues:
  assumes "sq_wf u" "cq_wf u" "unvmed_sq_get i u = Some u1" "sq_at i u1 = Some usq"
    and "unvmed_cq_get (sq_ucq usq) u1 = Some u2"
  shows "holds_queues u i (sq_ucq usq) u2 \<and> (\<exists>usq0. nth_opt (sqs u) i = Some (Some usq0) \<and> sq_qsize usq0 = sq_qsize usq)"
proof -
  obtain usq0 where usq0: "nth_opt (sqs u) i = Some (Some usq0)"
    using assms(1,3) by (auto simp: unvmed_sq_get_def sq_find_wf split: option.splits)
  have u1: "u1 = u\<lparr>sqs := (sqs u)[i := Some (usq0\<lparr>sq_refcnt := sq_refcnt usq0 + 1\<rparr>)]\<rparr>"
    using sq_get_live [OF assms(1) usq0] assms(3) by (simp add: sq_store_def)
  have usq: "usq = usq0\<lparr>sq_refcnt := sq_refcnt usq0 + 1\<rparr>"
    using assms(4) u1 usq0 by (simp add: sq_at_def nth_opt_update)
  have wf1: "cq_wf u1" using assms(2) u1 by (simp add: cq_wf_def)
  obtain ucq where ucq: "nth_opt (cqs u) (sq_ucq usq) = Some (Some ucq)"
    using wf1 assms(5) u1 by (auto simp: unvmed_cq_get_def cq_find_wf split: option.splits)
  have "0 < cq_refcnt ucq" using cq_wfD [OF assms(2) ucq] by blast
  then have "u2 = u1\<lparr>cqs := (cqs u)[sq_ucq usq := Some (ucq\<lparr>cq_refcnt := cq_refcnt ucq + 1\<rparr>)]\<rparr>"
    using assms(5) wf1 u1 ucq by (simp add: unvmed_cq_get_def cq_find_wf cq_store_def)
  with u1 usq0 ucq usq show ?thesis by (auto simp: holds_queues_def)
qed

lemma abort_limits_frame [simp]:
  "ft_mem (abort_limits td n t) = ft_mem t" "ft_opts (abort_limits td n t) = ft_opts t"
  "ft_job (abort_limits td n t) = ft_job t" "ft_sqid (abort_limits td n t) = ft_sqid t"
  "ft_cqid (abort_limits td n t) = ft_cqid t" "ft_ns (abort_limits td n t) = ft_ns t"
  by (simp_all add: abort_limits_def)

lemma parse_prchk_cmb: "libunvmed_parse_prchk d o' = (r, o1) \<Longrightarrow> o_cmb_data o1 = o_cmb_data o'"
  by (auto simp: libunvmed_parse_prchk_def Let_def split: option.splits if_splits)

lemma open_job_ok:
  assumes "open_job d ops td n k (t, sh, u) = (Ok (), t1, sh1, u1)"
  shows "\<exists>mm m q p qid. libunvmed_map_mems ops (o_cmb_data (ft_opts t)) (ft_mem t, u) = (Ok (), mm, u\<lparr>iommu := m\<rparr>)
    \<and> same_buffers (ft_mem t) mm \<and> unvmed_vcq_init (vcq_ids_pool sh) (td_vcq td) k (td_vcqe td) = Inr (q, p, qid)
    \<and> ft_sqid t1 = ft_sqid t \<and> ft_cqid t1 = ft_cqid t \<and> ft_vcq t1 = word_of_nat qid
    \<and> ft_mem t1 = mm\<lparr>ld_epoch := epoch u\<rparr> \<and> o_cmb_data (ft_opts t1) = o_cmb_data (ft_opts t)
    \<and> vcq_ids_pool sh1 = p \<and> unat (iodepth (ft_job t)) < n
    \<and> u1 = u\<lparr>iommu := m, vcqs := (vcqs u)(qid \<mapsto> q), thread_list := thread_list u @ [(td_tid td, td_callback td)]\<rparr>"
proof -
  obtain r mm v where map: "libunvmed_map_mems ops (o_cmb_data (ft_opts t)) (ft_mem t, u) = (r, mm, v)"
    by (metis prod_cases3)
  obtain m where m: "same_buffers (ft_mem t) mm" "v = u\<lparr>iommu := m\<rparr>"
    using map_mems_iommu [of "(ft_mem t, u)" ops "o_cmb_data (ft_opts t)"] map by (auto simp: iommu_only_def)
  obtain r2 o1 where prchk: "libunvmed_parse_prchk d (ft_opts t) = (r2, o1)" by fastforce
  have n: "unat (iodepth (ft_job t)) < n" and rs: "r = Ok ()" "r2 = Ok ()"
    using assms map prchk
    by (auto simp: open_job_def Let_def not_less split: if_splits outcome.splits)
  from assms map prchk n rs obtain q p qid where
    "unvmed_vcq_init (vcq_ids_pool sh) (td_vcq td) k (td_vcqe td) = Inr (q, p, qid)"
    by (auto simp: open_job_def Let_def split: if_splits sum.splits)
  with assms map prchk n rs m parse_prchk_cmb [OF prchk] show ?thesis
    by (auto simp: open_job_def Let_def unvmed_add_thread_def unvmed_get_epoch_def split: if_splits)
qed

lemma close_unmaps:
  assumes "dma_laws ops mapped" "bdf u0 \<noteq> None"
  shows "mapped_since mapped u0 bs u \<Longrightarrow>
    \<exists>m. fold (close_unmap ops) bs (Ok (), u) = (Ok (), u\<lparr>iommu := m\<rparr>) \<and> mapped_since mapped u0 [] (u\<lparr>iommu := m\<rparr>)"
proof (induction bs arbitrary: u)
  case Nil
  then show ?case by (auto intro: exI [of _ "iommu u"])
next
  case (Cons b bs)
  obtain p a where b: "b = (p, a)" by fastforce
  show ?case
  proof (cases p)
    case True
    have "bdf u \<noteq> None" "Mapping a \<in> ledger mapped u"
      using Cons.prems assms(2) True by (auto simp: b mapped_since_def)
    from unmap_vaddr_ok [OF assms(1) this] obtain m where
      m: "unvmed_unmap_vaddr ops a u = (Ok (), u\<lparr>iommu := m\<rparr>)"
        "ledger mapped (u\<lparr>iommu := m\<rparr>) = ledger mapped u - {Mapping a}" by blast
    have "mapped_since mapped u0 bs (u\<lparr>iommu := m\<rparr>)"
      using Cons.prems True m(2) by (auto simp: b mapped_since_def)
    from Cons.IH [OF this] m(1) True show ?thesis by (auto simp: b close_unmap_def)
  next
    case False
    with Cons.prems have "mapped_since mapped u0 bs u" by (simp add: b mapped_since_def)
    from Cons.IH [OF this] False show ?thesis by (simp add: b close_unmap_def)
  qed
qed

lemma remove_last_thread:
  "tid \<notin> fst ` set xs \<Longrightarrow> remove_first (\<lambda>e. fst e = tid) (xs @ [(tid, op)]) = xs"
  by (induction xs) auto

text \<open>What opening the file of a job has done when it succeeds.\<close>

definition opened ::
  "'m dma_ops \<Rightarrow> fio_td \<Rightarrow> ('m, 'r, 'z) job_state \<Rightarrow> ('m, 'r, 'z) job_state \<Rightarrow> bool" where
  "opened ops td = (\<lambda>(t, sh, u) (t1, sh1, u1). \<exists>v mm m q p qid k.
     holds_queues u (ft_sqid t1) (ft_cqid t1) v
   \<and> libunvmed_map_mems ops (o_cmb_data (ft_opts t)) (ft_mem t, v) = (Ok (), mm, v\<lparr>iommu := m\<rparr>)
   \<and> same_buffers (ft_mem t) mm \<and> unvmed_vcq_init (vcq_ids_pool sh) (td_vcq td) k (td_vcqe td) = Inr (q, p, qid)
   \<and> ft_vcq t1 = word_of_nat qid \<and> ft_mem t1 = mm\<lparr>ld_epoch := epoch u\<rparr>
   \<and> o_cmb_data (ft_opts t1) = o_cmb_data (ft_opts t) \<and> vcq_ids_pool sh1 = p
   \<and> u1 = v\<lparr>iommu := m, vcqs := (vcqs u)(qid \<mapsto> q), thread_list := thread_list u @ [(td_tid td, td_callback td)]\<rparr>)"

lemma open_ok:
  assumes wf: "sq_wf u" "cq_wf u" and run: "fio_libunvmed_open_file d ops td (t, sh, u) = (Ok (), t1, sh1, u1)"
  shows "opened ops td (t, sh, u) (t1, sh1, u1)
    \<and> (\<exists>usq. nth_opt (sqs u) (ft_sqid t1) = Some (Some usq) \<and> unat (iodepth (ft_job t)) < sq_qsize usq)"
proof -
  let ?i = "unat (job_sqid td (ft_opts t))"
  let ?t = "t\<lparr>ft_opts := (ft_opts t)\<lparr>o_sqid := job_sqid td (ft_opts t)\<rparr>\<rparr>"
  from run obtain w usq v where
    w: "unvmed_sq_get ?i u = Some w" "sq_at ?i w = Some usq" "unvmed_cq_get (sq_ucq usq) w = Some v"
    by (auto simp: fio_libunvmed_open_file_def Let_def split: option.splits)
  let ?k = "case nth_opt (cqs v) (sq_ucq usq) of Some (Some ucq) \<Rightarrow> cq_qsize ucq | _ \<Rightarrow> 0"
  obtain r t2 sh2 u2 where job: "open_job d ops td (sq_qsize usq) ?k (?t\<lparr>ft_sqid := ?i, ft_cqid := sq_ucq usq\<rparr>, sh, v) = (r, t2, sh2, u2)"
    by (metis prod_cases4)
  have eq: "r = Ok ()" "t1 = t2" "sh1 = count_opened sh2" "u1 = u2"
    using run w job by (auto simp: fio_libunvmed_open_file_def Let_def split: outcome.splits)
  note queues = open_queues [OF wf w]
  have v: "epoch v = epoch u" "vcqs v = vcqs u" "thread_list v = thread_list u"
    using queues by (auto simp: holds_queues_def)
  obtain mm m q p qid where fin: "libunvmed_map_mems ops (o_cmb_data (ft_opts t)) (ft_mem t, v) = (Ok (), mm, v\<lparr>iommu := m\<rparr>)"
    "same_buffers (ft_mem t) mm" "unvmed_vcq_init (vcq_ids_pool sh) (td_vcq td) ?k (td_vcqe td) = Inr (q, p, qid)"
    "ft_sqid t1 = ?i" "ft_cqid t1 = sq_ucq usq" "ft_vcq t1 = word_of_nat qid" "ft_mem t1 = mm\<lparr>ld_epoch := epoch u\<rparr>"
    "o_cmb_data (ft_opts t1) = o_cmb_data (ft_opts t)" "vcq_ids_pool sh1 = p" "unat (iodepth (ft_job t)) < sq_qsize usq"
    "u1 = v\<lparr>iommu := m, vcqs := (vcqs u)(qid \<mapsto> q), thread_list := thread_list u @ [(td_tid td, td_callback td)]\<rparr>"
    using open_job_ok [OF job [unfolded eq(1)]] eq(2-4) v by (elim exE) (simp add: count_opened_def Let_def)
  from queues fin(4,10) have "\<exists>usq. nth_opt (sqs u) (ft_sqid t1) = Some (Some usq) \<and> unat (iodepth (ft_job t)) < sq_qsize usq"
    by auto
  moreover have "opened ops td (t, sh, u) (t1, sh1, u1)"
    unfolding opened_def prod.case
    by (rule exI [of _ v], rule exI [of _ mm], rule exI [of _ m], rule exI [of _ q], rule exI [of _ p],
        rule exI [of _ qid], rule exI [of _ ?k]) (simp only: fin queues simp_thms)
  ultimately show ?thesis by blast
qed

text \<open>No virtual completion queue has an identifier that is in the pool.\<close>

definition ids_unused :: "vcq_pool \<Rightarrow> ('m, 'r, 'z) unvme_scheme \<Rightarrow> bool" where
  "ids_unused p u \<longleftrightarrow> (\<forall>i \<in> vcq_free_qids p. vcq_map p i = None \<and> vcqs u i = None)"

text \<open>
  Closing undoes opening, when the controller was not re-initialised in between.
\<close>

lemma close_opened:
  assumes laws: "dma_laws ops mapped" and att: "bdf u \<noteq> None" and wf: "sq_wf u" "cq_wf u"
    and pool: "vcq_pool_inv (vcq_ids_pool sh)"
    and free: "ids_unused (vcq_ids_pool sh) u"
    and tid: "td_tid td \<notin> fst ` set (thread_list u)"
    and orig: "orig_buffer_size (ft_mem t) \<noteq> 0 \<longleftrightarrow> orig_buffer (ft_mem t) \<noteq> 0"
    and op: "opened ops td (t, sh, u) (t1, sh1, u1)"
  shows "mapped_since mapped u (mem_buffers (o_cmb_data (ft_opts t)) (ft_mem t)) u1
    \<and> (\<exists>m p. fio_libunvmed_close_file ops td (t1, sh1, u1) = (Ok (), t1, sh1\<lparr>vcq_ids_pool := p\<rparr>, u\<lparr>iommu := m\<rparr>)
        \<and> ledger mapped (u\<lparr>iommu := m\<rparr>) = ledger mapped u \<and> vcq_pool_inv p
        \<and> vcq_free_qids p = vcq_free_qids (vcq_ids_pool sh) \<and> vcq_map p = vcq_map (vcq_ids_pool sh))"
proof -
  note unused = free [unfolded ids_unused_def, rule_format]
  let ?cmb = "o_cmb_data (ft_opts t)" and ?bs = "mem_buffers (o_cmb_data (ft_opts t)) (ft_mem t)"
  obtain v mm m q p qid k where o': "holds_queues u (ft_sqid t1) (ft_cqid t1) v"
    "libunvmed_map_mems ops ?cmb (ft_mem t, v) = (Ok (), mm, v\<lparr>iommu := m\<rparr>)"
    "same_buffers (ft_mem t) mm" "unvmed_vcq_init (vcq_ids_pool sh) (td_vcq td) k (td_vcqe td) = Inr (q, p, qid)"
    "ft_vcq t1 = word_of_nat qid" "ft_mem t1 = mm\<lparr>ld_epoch := epoch u\<rparr>"
    "o_cmb_data (ft_opts t1) = ?cmb" "vcq_ids_pool sh1 = p"
    "u1 = v\<lparr>iommu := m, vcqs := (vcqs u)(qid \<mapsto> q), thread_list := thread_list u @ [(td_tid td, td_callback td)]\<rparr>"
    using op unfolding opened_def prod.case by (elim exE conjE)
  obtain S C where v: "v = u\<lparr>sqs := S, cqs := C\<rparr>" using o'(1) by (auto simp: holds_queues_def)
  have led: "ledger mapped (v\<lparr>iommu := x\<rparr>) = ledger mapped (u\<lparr>iommu := x\<rparr>)" for x by (simp add: v ledger_def)
  have since_v: "mapped_since mapped v ?bs (v\<lparr>iommu := m\<rparr>)"
    using map_mems_all [OF laws, of "(ft_mem t, v)" ?cmb] att o'(2) by (simp add: all_or_nothing_def v)
  have since: "mapped_since mapped u ?bs u1"
    using since_v by (simp add: mapped_since_def o'(9) v ledger_def)
  define w where "w = unvmed_del_thread (td_tid td) u1"
  have w: "w = v\<lparr>iommu := m, vcqs := (vcqs u)(qid \<mapsto> q), thread_list := thread_list u\<rparr>"
    using remove_last_thread [OF tid] by (simp add: w_def unvmed_del_thread_def o'(9))
  have bs: "[(prp_list_iomem (ft_mem t1) \<noteq> 0, prp_list_iomem (ft_mem t1)), (prp_iomem (ft_mem t1) \<noteq> 0, prp_iomem (ft_mem t1)),
      (orig_buffer (ft_mem t1) \<noteq> 0 \<and> \<not> ?cmb, orig_buffer (ft_mem t1))] = ?bs"
    using o'(3) orig by (simp add: o'(6) same_buffers_def mem_buffers_def orig_part_def)
  have "mapped_since mapped u ?bs w" using since by (simp add: w o'(9) mapped_since_def ledger_def)
  from close_unmaps [OF laws att this] obtain m2 where
    m2: "fold (close_unmap ops) ?bs (Ok (), w) = (Ok (), w\<lparr>iommu := m2\<rparr>)" "mapped_since mapped u [] (w\<lparr>iommu := m2\<rparr>)"
    by blast
  let ?p = "snd (unvmed_vcq_free p q)"
  have vcq: "qid \<in> vcq_free_qids (vcq_ids_pool sh)" "vcq_free_qids ?p = vcq_free_qids (vcq_ids_pool sh)"
    "vcq_map ?p = vcq_map (vcq_ids_pool sh)" "vcq_pool_inv ?p"
    using vcq_init_free [OF pool o'(4)] unused by auto
  have "qid < 2 ^ 32"
    using vcq(1) pool by (auto elim!: vcq_pool_invE simp: valid_qids_def UNVME_VCQ_MAX_def)
  then have qid: "unat (ft_vcq t1) = qid" by (simp add: o'(5) unat_of_nat)
  have put: "put_queues (ft_sqid t1) (ft_cqid t1) (w\<lparr>iommu := m2\<rparr>) = (w\<lparr>iommu := m2\<rparr>)\<lparr>sqs := sqs u, cqs := cqs u\<rparr>"
    by (rule put_queues_held [OF wf o'(1)]) (simp_all add: w o'(9))
  have epoch: "ld_epoch (ft_mem t1) = unvmed_get_epoch w" by (simp add: o'(6) unvmed_get_epoch_def w o'(9) v)
  have "(vcqs u)(qid := None) = vcqs u" using unused [OF vcq(1)] by (metis fun_upd_triv)
  then have u2: "(w\<lparr>iommu := m2\<rparr>)\<lparr>sqs := sqs u, cqs := cqs u, vcqs := (vcqs u)(qid := None)\<rparr> = u\<lparr>iommu := m2\<rparr>"
    by (simp add: w o'(9) v)
  have "fio_libunvmed_close_file ops td (t1, sh1, u1) = (Ok (), t1, sh1\<lparr>vcq_ids_pool := ?p\<rparr>, u\<lparr>iommu := m2\<rparr>)"
    unfolding fio_libunvmed_close_file_def Let_def prod.case w_def [symmetric] o'(7) bs m2(1) qid o'(8) put
    using epoch u2 by (simp add: m2(1) put) (simp add: w)
  moreover have "ledger mapped (u\<lparr>iommu := m2\<rparr>) = ledger mapped u"
    using m2(2) by (simp add: mapped_since_def ledger_def w o'(9) v)
  ultimately show ?thesis using since vcq(2-4) by blast
qed

text \<open>C9. Opening and closing the file of a job is neutral. An open that succeeds has given the job one
  reference more to its submission and completion queue, a queue with more entries than its depth,
  and mappings of exactly its data, PRP and PRP list buffers. A close, with no re-initialisation of
  the controller in between, succeeds and brings the controller back to what it was, with the same
  memory mapped, and the identifier of the virtual completion queue back into the pool.
\<close>

theorem open_close_roundtrip:
  assumes "dma_laws ops mapped" and "bdf u \<noteq> None" and wf: "sq_wf u" "cq_wf u"
    and "vcq_pool_inv (vcq_ids_pool sh)"
    and "ids_unused (vcq_ids_pool sh) u"
    and "td_tid td \<notin> fst ` set (thread_list u)"
    and "orig_buffer_size (ft_mem t) \<noteq> 0 \<longleftrightarrow> orig_buffer (ft_mem t) \<noteq> 0"
    and run: "fio_libunvmed_open_file d ops td (t, sh, u) = (Ok (), t1, sh1, u1)"
  shows "mapped_since mapped u (mem_buffers (o_cmb_data (ft_opts t)) (ft_mem t)) u1
    \<and> sq_cnt u1 (ft_sqid t1) = sq_cnt u (ft_sqid t1) + 1 \<and> cq_cnt u1 (ft_cqid t1) = cq_cnt u (ft_cqid t1) + 1
    \<and> (\<exists>usq. nth_opt (sqs u) (ft_sqid t1) = Some (Some usq) \<and> unat (iodepth (ft_job t)) < sq_qsize usq)
    \<and> (\<exists>m p. fio_libunvmed_close_file ops td (t1, sh1, u1) = (Ok (), t1, sh1\<lparr>vcq_ids_pool := p\<rparr>, u\<lparr>iommu := m\<rparr>)
        \<and> ledger mapped (u\<lparr>iommu := m\<rparr>) = ledger mapped u \<and> vcq_pool_inv p
        \<and> vcq_free_qids p = vcq_free_qids (vcq_ids_pool sh) \<and> vcq_map p = vcq_map (vcq_ids_pool sh))"
proof -
  note op = open_ok [OF wf run]
  have "sq_cnt u1 (ft_sqid t1) = sq_cnt u (ft_sqid t1) + 1 \<and> cq_cnt u1 (ft_cqid t1) = cq_cnt u (ft_cqid t1) + 1"
  proof -
    from op obtain v where v: "holds_queues u (ft_sqid t1) (ft_cqid t1) v" "sqs u1 = sqs v" "cqs u1 = cqs v"
      by (force simp: opened_def)
    then show ?thesis by (auto simp: holds_queues_def sq_cnt_def cq_cnt_def nth_opt_update)
  qed
  with op close_opened [OF assms(1-8) op [THEN conjunct1]] show ?thesis by (elim conjE) (intro conjI)
qed

subsection \<open>A file that cannot be opened\<close>

lemma open_job_fail:
  assumes laws: "dma_laws ops mapped" and att: "bdf u \<noteq> None"
    and run: "open_job d ops td n k (t, sh, u) = (Fail e, t1, sh1, u1)"
  shows "(\<exists>m. u1 = u\<lparr>iommu := m\<rparr>)
    \<and> mapped_since mapped u (if unat (iodepth (ft_job t)) < n \<and> fst (libunvmed_map_mems ops (o_cmb_data (ft_opts t)) (ft_mem t, u)) = Ok ()
        then mem_buffers (o_cmb_data (ft_opts t)) (ft_mem t) else []) u1"
proof -
  obtain r mm v where map: "libunvmed_map_mems ops (o_cmb_data (ft_opts t)) (ft_mem t, u) = (r, mm, v)"
    by (metis prod_cases3)
  obtain m where m: "v = u\<lparr>iommu := m\<rparr>"
    using map_mems_iommu [of "(ft_mem t, u)" ops "o_cmb_data (ft_opts t)"] map by (auto simp: iommu_only_def)
  have all: "all_or_nothing mapped u (mem_buffers (o_cmb_data (ft_opts t)) (ft_mem t)) (r, mm, v)"
    using map_mems_all [OF laws, of "(ft_mem t, u)" "o_cmb_data (ft_opts t)"] att map by simp
  consider "u1 = u" "n \<le> unat (iodepth (ft_job t))" | "u1 = v" "unat (iodepth (ft_job t)) < n" "r \<noteq> Fault"
    using run map by (auto simp: open_job_def Let_def split: if_splits outcome.splits sum.splits prod.splits)
  then show ?thesis
  proof cases
    case 1
    then show ?thesis by (auto simp: mapped_since_refl intro: exI [of _ "iommu u"])
  next
    case 2
    with all m map show ?thesis by (cases r) (auto simp: all_or_nothing_def)
  qed
qed

text \<open>The file of a job is opened up to the point where its buffers are mapped.\<close>

definition maps_buffers :: "'m dma_ops \<Rightarrow> fio_td \<Rightarrow> ('m, 'r, 'y) job_state \<Rightarrow> bool" where
  "maps_buffers ops td = (\<lambda>(t, sh, u).
     let i = unat (job_sqid td (ft_opts t)) in
     case unvmed_sq_get i u of
       None \<Rightarrow> False
     | Some w \<Rightarrow>
         (case sq_at i w of
            None \<Rightarrow> False
          | Some usq \<Rightarrow>
              (case unvmed_cq_get (sq_ucq usq) w of
                 None \<Rightarrow> False
               | Some v \<Rightarrow> unat (iodepth (ft_job t)) < sq_qsize usq
                   \<and> fst (libunvmed_map_mems ops (o_cmb_data (ft_opts t)) (ft_mem t, v)) = Ok ())))"

text \<open>C20. When the file of a job cannot be opened, the references to the queues are dropped again and the
  job is not registered: the controller is as before but for the IOMMU. If the failure comes before
  the buffers are mapped or while they are, nothing is mapped in addition; if it comes later, all the
  buffers of the job stay mapped.
\<close>

theorem failed_open_keeps_mappings:
  assumes laws: "dma_laws ops mapped" and att: "bdf u \<noteq> None" and wf: "sq_wf u" "cq_wf u"
    and run: "fio_libunvmed_open_file d ops td (t, sh, u) = (Fail e, t1, sh1, u1)"
  shows "u1 = u\<lparr>iommu := iommu u1\<rparr>
    \<and> ledger mapped u1 = ledger mapped u \<union>
        (if maps_buffers ops td (t, sh, u)
         then Mapping ` set (present (mem_buffers (o_cmb_data (ft_opts t)) (ft_mem t))) else {})"
proof -
  let ?i = "unat (job_sqid td (ft_opts t))" and ?bs = "mem_buffers (o_cmb_data (ft_opts t)) (ft_mem t)"
  let ?t = "t\<lparr>ft_opts := (ft_opts t)\<lparr>o_sqid := job_sqid td (ft_opts t)\<rparr>\<rparr>"
  show ?thesis
  proof (cases "unvmed_sq_get ?i u")
    case None
    with run show ?thesis by (auto simp: fio_libunvmed_open_file_def maps_buffers_def Let_def)
  next
    case (Some w)
    then obtain usq0 where usq0: "nth_opt (sqs u) ?i = Some (Some usq0)"
      using wf(1) by (auto simp: unvmed_sq_get_def sq_find_wf split: option.splits)
    have w: "w = sq_store ?i (usq0\<lparr>sq_refcnt := sq_refcnt usq0 + 1\<rparr>) u" using sq_get_live [OF wf(1) usq0] Some by simp
    then have at: "sq_at ?i w = Some (usq0\<lparr>sq_refcnt := sq_refcnt usq0 + 1\<rparr>)"
      using usq0 by (simp add: sq_at_def sq_store_def nth_opt_update)
    show ?thesis
    proof (cases "unvmed_cq_get (sq_ucq usq0) w")
      case None
      with run Some at w sq_get_put [OF wf(1) usq0] show ?thesis
        by (auto simp: fio_libunvmed_open_file_def maps_buffers_def Let_def)
    next
      case (Some v)
      note held = open_queues [OF wf \<open>unvmed_sq_get ?i u = Some w\<close> at, simplified, OF Some, THEN conjunct1]
      obtain S C where v: "v = u\<lparr>sqs := S, cqs := C\<rparr>" using held by (auto simp: holds_queues_def)
      let ?k = "case nth_opt (cqs v) (sq_ucq usq0) of Some (Some ucq) \<Rightarrow> cq_qsize ucq | _ \<Rightarrow> 0"
      obtain r t2 sh2 u2 where job: "open_job d ops td (sq_qsize usq0) ?k (?t\<lparr>ft_sqid := ?i, ft_cqid := sq_ucq usq0\<rparr>, sh, v) = (r, t2, sh2, u2)"
        by (metis prod_cases4)
      have eq: "r = Fail e" "u1 = put_queues ?i (sq_ucq usq0) u2"
        using run \<open>unvmed_sq_get ?i u = Some w\<close> at Some job
        by (auto simp: fio_libunvmed_open_file_def Let_def split: outcome.splits)
      have maps: "maps_buffers ops td (t, sh, u) \<longleftrightarrow> unat (iodepth (ft_job t)) < sq_qsize usq0
          \<and> fst (libunvmed_map_mems ops (o_cmb_data (ft_opts t)) (ft_mem t, v)) = Ok ()"
        using \<open>unvmed_sq_get ?i u = Some w\<close> at Some by (simp add: maps_buffers_def)
      have "bdf v \<noteq> None" using att v by simp
      note fail = open_job_fail [OF laws this job [unfolded eq(1)]]
      then obtain m where m: "u2 = v\<lparr>iommu := m\<rparr>" by blast
      have since: "mapped_since mapped v (if maps_buffers ops td (t, sh, u) then ?bs else []) u2"
        using fail [THEN conjunct2] unfolding maps by (auto split: if_splits)
      have u1: "u1 = u\<lparr>iommu := m\<rparr>" using put_queues_held [OF wf held, of u2] m by (simp add: eq(2) v)
      from since have "mapped_since mapped u (if maps_buffers ops td (t, sh, u) then ?bs else []) u1"
        by (simp add: mapped_since_def m v u1 ledger_def)
      then show ?thesis by (cases "maps_buffers ops td (t, sh, u)") (simp_all add: mapped_since_def u1)
    qed
  qed
qed

subsection \<open>The buffers and references of a job\<close>

text \<open>
  Since \<open>u0\<close> the blocks \<open>B\<close> were allocated and the buffers \<open>C\<close> mapped, and nothing else has changed.
\<close>

definition own ::
  "('m \<Rightarrow> nat set) \<Rightarrow> ('m, 'z) unvme_dma_scheme \<Rightarrow> nat set \<Rightarrow> nat set \<Rightarrow> ('m, 'z) unvme_dma_scheme \<Rightarrow> bool" where
  "own mapped u0 B C u \<longleftrightarrow> dma_frame u0 u \<and> ledger mapped u = ledger mapped u0 \<union> Block ` B \<union> Mapping ` C
     \<and> (\<forall>a \<in> B. a \<noteq> 0 \<and> Block a \<notin> ledger mapped u0) \<and> (\<forall>a \<in> C. Mapping a \<notin> ledger mapped u0)"

lemma own_refl: "own mapped u {} {} u"
  by (simp add: own_def)

lemma own_map:
  assumes laws: "dma_laws ops mapped" and own: "own mapped u0 A A u"
    and run: "unvmed_pgmap ops n u = (Ok (a, l), u1)" "unvmed_map_vaddr ops a l 0 u1 = (Ok i, u2)"
  shows "own mapped u0 (insert a A) (insert a A) u2 \<and> a \<noteq> 0 \<and> a \<notin> A"
proof -
  have a: "a \<noteq> 0" "Block a \<notin> ledger mapped u" "ledger mapped u1 = insert (Block a) (ledger mapped u)"
    "u1 = u\<lparr>heap := insert a (heap u)\<rparr>"
    using pgmap_aligned_ok [OF laws run(1) [unfolded unvmed_pgmap_def]] by auto
  obtain m where m: "u2 = u1\<lparr>iommu := m\<rparr>" "Mapping a \<notin> ledger mapped u1"
    "ledger mapped u2 = insert (Mapping a) (ledger mapped u1)"
    by (rule map_vaddr_cases [OF laws, of a l 0 u1]) (use run(2) in auto)
  have "dma_frame u u2" using a(4) m(1) by simp
  with own a m show ?thesis by (auto simp: own_def intro: dma_frame_trans)
qed

lemma own_release:
  assumes laws: "dma_laws ops mapped" and att: "bdf u0 \<noteq> None" and own: "own mapped u0 B C u" and a: "a \<in> B" "a \<in> C"
  shows "\<exists>u'. release_buffer ops stale a u = (Ok (), u') \<and> own mapped u0 (B - {a}) (if stale then C else C - {a}) u'"
proof -
  have bdf: "bdf u \<noteq> None" using own att dma_frame_fields [of u0 u] by (simp add: own_def)
  have in_led: "Block a \<in> ledger mapped u" "Mapping a \<in> ledger mapped u" "a \<noteq> 0" using own a by (auto simp: own_def)
  from unmap_vaddr_ok [OF laws bdf in_led(2)] obtain m where m: "unvmed_unmap_vaddr ops a u = (Ok (), u\<lparr>iommu := m\<rparr>)"
    "ledger mapped (u\<lparr>iommu := m\<rparr>) = ledger mapped u - {Mapping a}" by blast
  define v where "v = (if stale then u else u\<lparr>iommu := m\<rparr>)"
  have v: "(if stale then u else ignore (unvmed_unmap_vaddr ops a u)) = v" "dma_frame u v"
    "ledger mapped v = (if stale then ledger mapped u else ledger mapped u - {Mapping a})"
    by (simp_all add: v_def m ignore_def)
  have "Block a \<in> ledger mapped v" using in_led(1) v(3) by simp
  note un = pgunmap_ok [OF this in_led(3)]
  have fr: "dma_frame u (v\<lparr>heap := heap v - {a}\<rparr>)" using v(2) by (rule dma_frame_trans) simp
  have "own mapped u0 (B - {a}) (if stale then C else C - {a}) (v\<lparr>heap := heap v - {a}\<rparr>)"
    using own a fr un v(3) by (auto simp: own_def intro: dma_frame_trans)
  with un show ?thesis by (auto simp: release_buffer_def v(1))
qed

lemma own_heap:
  assumes "own mapped u0 {} C u"
  shows "u = u0\<lparr>iommu := iommu u\<rparr>"
proof -
  have "Block a \<in> ledger mapped u \<longleftrightarrow> Block a \<in> ledger mapped u0" for a using assms by (auto simp: own_def)
  then have "heap u = heap u0" by (auto simp: ledger_def)
  moreover have "u = u0\<lparr>heap := heap u, iommu := iommu u\<rparr>" using assms by (simp add: own_def dma_frame_def)
  ultimately show ?thesis by simp
qed

text \<open>The buffers of the engine itself, the metadata and the trim buffer.\<close>

definition engine_buffers :: "fio_job \<Rightarrow> fio_mem \<Rightarrow> nat set" where
  "engine_buffers td mm =
     (if meta_iomem mm \<noteq> 0 then {meta_iomem mm} else {}) \<union> (if td_trims td then {trim_iomem mm} else {})"

lemma zero_mem_buffers [simp]: "meta_iomem zero_mem = 0" "trim_iomem zero_mem = 0" "ld_epoch zero_mem = 0"
  by (simp_all add: zero_mem_def)

lemma alloc_mapped_own:
  assumes laws: "dma_laws ops mapped" and own: "own mapped u0 A A u"
    and run: "alloc_mapped ops n put put_iova (mm, u) = (Ok (), mm', u')"
  shows "\<exists>a l i. mm' = put_iova i (put a l mm) \<and> a \<noteq> 0 \<and> a \<notin> A
    \<and> own mapped u0 (insert a A) (insert a A) u'"
proof -
  obtain a l u1 i where "unvmed_pgmap ops n u = (Ok (a, l), u1)" "unvmed_map_vaddr ops a l 0 u1 = (Ok i, u')"
    "mm' = put_iova i (put a l mm)"
    using run by (auto simp: alloc_mapped_def split: prod.splits outcome.splits)
  with own_map [OF laws own] show ?thesis by blast
qed

lemma init_buffers_own:
  assumes laws: "dma_laws ops mapped"
    and run: "init_buffers ops range_bytes ns td md (zero_mem, u) = (Ok (), mm, u')"
    and meta: "\<not> libunvmed_ns_meta_is_dif ns \<and> md \<noteq> 0 \<longrightarrow> meta_iomem mm \<noteq> 0"
  shows "own mapped u (engine_buffers td mm) (engine_buffers td mm) u'
    \<and> (td_trims td \<longrightarrow> trim_iomem mm \<noteq> meta_iomem mm)"
proof -
  let ?m = "\<not> libunvmed_ns_meta_is_dif ns \<and> md \<noteq> 0"
  obtain mm1 u1 A where one: "own mapped u A A u1" "A = (if meta_iomem mm1 \<noteq> 0 then {meta_iomem mm1} else {})"
    and two: "(if td_trims td
           then alloc_mapped ops (ucast (iodepth td) * range_bytes)
                  (\<lambda>a sz mm. mm\<lparr>trim_iomem := a, trim_iomem_size := sz\<rparr>)
                  (\<lambda>iova mm. mm\<lparr>trim_iomem_iova := iova\<rparr>) (mm1, u1)
           else (Ok (), mm1, u1)) = (Ok (), mm, u')"
  proof (cases ?m)
    case False
    with run that [of "{}" u zero_mem] show ?thesis
      by (auto simp: init_buffers_def own_refl)
  next
    case True
    let ?n = "ucast (md * iodepth td)"
    show ?thesis
    proof (cases "\<exists>a sz u1. unvmed_pgmap ops ?n u = (Ok (a, sz), u1)")
      case True
      then obtain a sz u1 where pg: "unvmed_pgmap ops ?n u = (Ok (a, sz), u1)" by blast
      obtain i u2 where mp: "unvmed_map_vaddr ops a sz 0 u1 = (Ok i, u2)"
        using run \<open>?m\<close> pg by (auto simp: init_buffers_def andthen_def split: prod.splits outcome.splits)
      show ?thesis
        by (rule that [of "{a}" u2 "zero_mem\<lparr>meta_iomem := a, meta_iomem_size := sz, meta_iomem_iova := i\<rparr>"])
          (use own_map [OF laws own_refl pg mp] run \<open>?m\<close> pg mp in \<open>auto simp: init_buffers_def\<close>)
    next
      case False
      then have "meta_iomem mm = 0"
        using run \<open>?m\<close>
        by (auto simp: init_buffers_def andthen_def alloc_mapped_def split: prod.splits outcome.splits if_splits)
      with meta \<open>?m\<close> show ?thesis by simp
    qed
  qed
  show ?thesis
  proof (cases "td_trims td")
    case True
    with two have "alloc_mapped ops (ucast (iodepth td) * range_bytes) (\<lambda>a sz mm. mm\<lparr>trim_iomem := a, trim_iomem_size := sz\<rparr>)
        (\<lambda>iova mm. mm\<lparr>trim_iomem_iova := iova\<rparr>) (mm1, u1) = (Ok (), mm, u')" by simp
    from alloc_mapped_own [OF laws one(1) this] obtain a l i where
      "mm = mm1\<lparr>trim_iomem := a, trim_iomem_size := l, trim_iomem_iova := i\<rparr>" "a \<noteq> 0" "a \<notin> A"
      "own mapped u (insert a A) (insert a A) u'" by (elim exE conjE)
    with one(2) True show ?thesis by (auto simp: engine_buffers_def)
  next
    case False
    with two one show ?thesis by (auto simp: engine_buffers_def)
  qed
qed

lemma index_of_bound: "index_of P xs = Some i \<Longrightarrow> i < length xs"
  by (induction xs arbitrary: i) (auto split: if_splits)

lemma ns_index_update: "ns_index n xs = Some k \<Longrightarrow> nsid ns = n \<Longrightarrow> ns_index n (xs[k := ns]) = Some k"
  by (induction xs arbitrary: k) (auto split: if_splits)

lemma ns_get_put:
  assumes wf: "ns_wf u" and get: "unvmed_ns_get n u = Some w"
  shows "w = u\<lparr>ns_list := ns_list w\<rparr>" and "unvmed_ns_find n w = Some ns \<Longrightarrow> nsid ns = n"
    and "ns_list x = ns_list w \<Longrightarrow> \<exists>c>0. unvmed_ns_put n x = (c, x\<lparr>ns_list := ns_list u\<rparr>)"
proof -
  let ?f = "\<lambda>ns. ns\<lparr>ns_refcnt := ns_refcnt ns + 1\<rparr>"
  obtain k where k: "ns_index n (ns_list u) = Some k" "w = ns_update n ?f u"
    using get by (auto simp: unvmed_ns_get_def split: option.splits)
  have at: "k < length (ns_list u)" "nsid (ns_list u ! k) = n" using ns_index_Some [OF k(1)] by auto
  let ?xs = "(ns_list u)[k := ?f (ns_list u ! k)]"
  have w: "w = u\<lparr>ns_list := ?xs\<rparr>" using k by (simp add: ns_update_def)
  have pos: "0 < ns_refcnt (ns_list u ! k)" using wf at by (auto simp: ns_wf_def)
  have ix: "ns_index n ?xs = Some k"
    using k(1) at(2) by (intro ns_index_update) simp_all
  show "w = u\<lparr>ns_list := ns_list w\<rparr>" using w by simp
  show "nsid ns = n" if "unvmed_ns_find n w = Some ns" using that ix at by (auto simp: unvmed_ns_find_def w)
  show "\<exists>c>0. unvmed_ns_put n x = (c, x\<lparr>ns_list := ns_list u\<rparr>)" if "ns_list x = ns_list w"
    using that pos at ix by (auto simp: unvmed_ns_put_def Let_def w ns_update_def list_update_same_conv)
qed

lemma init_data_ok:
  assumes run: "libunvmed_init_data ops range_bytes name td o' g = (Ok (i, ns, md, mm), g1)"
  obtains w u where "i < length (unvme_list g)"
    "unvmed_ns_get (o_nsid o') ((unvme_list g ! i)\<lparr>u_refcnt := u_refcnt (unvme_list g ! i) + 1\<rparr>) = Some w"
    "unvmed_ns_find (o_nsid o') w = Some ns" "init_buffers ops range_bytes ns td md (zero_mem, w) = (Ok (), mm, u)"
    "g1 = set_unvme i u g"
proof -
  obtain addr g0 where addr: "snd (libunvmed_to_bdf name) = Ok addr" "unvmed_get addr g = (Ok (Some i), g0)"
    using run by (auto simp: libunvmed_init_data_def Let_def split: outcome.splits prod.splits option.splits if_splits)
  let ?v = "(unvme_list g ! i)\<lparr>u_refcnt := u_refcnt (unvme_list g ! i) + 1\<rparr>"
  have i: "i < length (unvme_list g)" "g0 = set_unvme i ?v g"
    using addr(2) index_of_bound
    by (auto simp: unvmed_get_def Let_def split: outcome.splits if_splits option.splits)
  then have at: "unvme_list g0 ! i = ?v" by (simp add: set_unvme_def)
  obtain w where w: "unvmed_ns_get (o_nsid o') ?v = Some w"
    using run addr at by (auto simp: libunvmed_init_data_def split: option.splits)
  obtain u where "unvmed_ns_find (o_nsid o') w = Some ns" "init_buffers ops range_bytes ns td md (zero_mem, w) = (Ok (), mm, u)"
    "g1 = set_unvme i u g0"
    using run addr at w
    by (auto simp: libunvmed_init_data_def Let_def split: outcome.splits prod.splits option.splits if_splits)
  then show ?thesis using that i w by (simp add: set_unvme_def)
qed

lemma own_ns:
  fixes v :: "('m, 'z) unvme_nss_scheme"
  assumes "own mapped (v\<lparr>ns_list := xs\<rparr>) B C x"
  shows "own mapped v B C (x\<lparr>ns_list := ns_list v\<rparr>) \<and> ns_list x = xs"
proof -
  obtain h m where x: "x = v\<lparr>ns_list := xs, heap := h, iommu := m\<rparr>" using assms by (auto simp: own_def dma_frame_def)
  then have "x\<lparr>ns_list := ns_list v\<rparr> = v\<lparr>heap := h, iommu := m\<rparr>" by simp
  with assms x show ?thesis by (simp add: own_def ledger_def)
qed

lemma own_iommu: "own mapped w B C u \<Longrightarrow> ledger mapped (u\<lparr>iommu := m\<rparr>) = ledger mapped u \<Longrightarrow> own mapped w B C (u\<lparr>iommu := m\<rparr>)"
  by (auto simp: own_def intro: dma_frame_trans)

text \<open>C19. Initialising a job and cleaning it up is neutral for the references to the controller and the
  namespace and for the memory of the metadata and trim buffers: the controller is what it was. The
  mappings of the two buffers are gone exactly when the epoch that the job remembers is that of the
  controller; otherwise the buffers stay mapped although their memory is free. The job remembers 0
  until its file is opened, and the epoch of a controller is not 0 after its initialisation. In
  between mappings may come and go, as opening and closing the file does.
\<close>

theorem init_cleanup_roundtrip:
  assumes laws: "dma_laws ops mapped" and att: "bdf (unvme_list g ! i) \<noteq> None" and wf: "ns_wf (unvme_list g ! i)"
    and ref: "0 < u_refcnt (unvme_list g ! i)"
    and init: "libunvmed_init_data ops range_bytes name td o' g = (Ok (i, ns, md, mm), g1)"
    and meta: "\<not> libunvmed_ns_meta_is_dif ns \<and> md \<noteq> 0 \<longrightarrow> meta_iomem mm \<noteq> 0"
    and t: "ft_job t = td" "ft_ns t = ns" "meta_iomem (ft_mem t) = meta_iomem mm" "trim_iomem (ft_mem t) = trim_iomem mm"
    and mid: "ledger mapped ((unvme_list g1 ! i)\<lparr>iommu := m\<rparr>) = ledger mapped (unvme_list g1 ! i)"
  shows "\<exists>m'. fio_libunvmed_cleanup ops errs i t (set_unvme i ((unvme_list g1 ! i)\<lparr>iommu := m\<rparr>) g1)
        = (Ok (), set_unvme i ((unvme_list g ! i)\<lparr>iommu := m'\<rparr>) g)
    \<and> ledger mapped ((unvme_list g ! i)\<lparr>iommu := m'\<rparr>) = ledger mapped (unvme_list g ! i)
        \<union> Mapping ` (if ld_epoch (ft_mem t) = epoch (unvme_list g ! i) then {} else engine_buffers td mm)"
proof -
  define u where "u = unvme_list g ! i"
  define v where "v = u\<lparr>u_refcnt := u_refcnt u + 1\<rparr>"
  let ?A = "engine_buffers td mm" and ?M = "if meta_iomem mm \<noteq> 0 then {meta_iomem mm} else {}"
  let ?stale = "ld_epoch (ft_mem t) \<noteq> epoch u"
  obtain w u1 where i: "i < length (unvme_list g)" and w: "unvmed_ns_get (o_nsid o') v = Some w"
    and ns: "unvmed_ns_find (o_nsid o') w = Some ns" and buf: "init_buffers ops range_bytes ns td md (zero_mem, w) = (Ok (), mm, u1)"
    and g1: "g1 = set_unvme i u1 g"
    using init_data_ok [OF init] by (metis u_def v_def)
  have nv: "ns_wf v" using wf by (simp add: v_def u_def ns_wf_def)
  have wx: "w = v\<lparr>ns_list := ns_list w\<rparr>" and nsid: "nsid ns = o_nsid o'"
    using ns_get_put(1,2) [OF nv w] ns by blast+
  have own1: "own mapped w ?A ?A u1" and apart: "td_trims td \<longrightarrow> trim_iomem mm \<noteq> meta_iomem mm"
    using init_buffers_own [OF laws buf meta] by auto
  let ?u2 = "u1\<lparr>iommu := m\<rparr>"
  have own2: "own mapped w ?A ?A ?u2" using own1 mid i by (intro own_iommu) (simp_all add: g1 set_unvme_def)
  then have "epoch ?u2 = epoch w" by (auto simp: own_def dma_frame_def dest: arg_cong [where f = epoch])
  moreover have "epoch w = epoch u" "bdf w = bdf u" by (subst wx, simp add: v_def)+
  ultimately have ep: "unvmed_get_epoch ?u2 = epoch u" and bdf: "bdf w \<noteq> None" "bdf v \<noteq> None"
    using att by (simp_all add: unvmed_get_epoch_def v_def u_def)
  obtain u3 where trim: "(if td_trims td then release_buffer ops ?stale (trim_iomem mm) ?u2 else (Ok (), ?u2)) = (Ok (), u3)"
    and own3: "own mapped w ?M (if ?stale then ?A else ?M) u3"
  proof (cases "td_trims td")
    case True
    have M: "?A - {trim_iomem mm} = ?M" using True apart by (auto simp: engine_buffers_def)
    from own_release [OF laws bdf(1) own2, of "trim_iomem mm" ?stale] obtain u3 where
      "release_buffer ops ?stale (trim_iomem mm) ?u2 = (Ok (), u3)" "own mapped w ?M (if ?stale then ?A else ?M) u3"
      using True unfolding M by (auto simp: engine_buffers_def)
    with True that show ?thesis by simp
  next
    case False
    then have "?A = ?M" by (simp add: engine_buffers_def)
    with False own2 that [of ?u2] show ?thesis by simp
  qed
  let ?u4 = "u3\<lparr>ns_list := ns_list v\<rparr>"
  have own4: "own mapped v ?M (if ?stale then ?A else ?M) ?u4" and u3: "ns_list u3 = ns_list w"
    using own_ns [where v = v and xs = "ns_list w"] own3 wx by metis+
  from ns_get_put(3) [OF nv w u3] obtain c where put: "0 < c" "unvmed_ns_put (o_nsid o') u3 = (c, ?u4)" by blast
  obtain u5 where meta5: "(if meta_iomem mm \<noteq> 0 then release_buffer ops ?stale (meta_iomem mm) ?u4 else (Ok (), ?u4)) = (Ok (), u5)"
    and own5: "own mapped v {} (if ?stale then ?A else {}) u5"
  proof (cases "meta_iomem mm = 0")
    case True
    with own4 have "own mapped v {} (if ?stale then ?A else {}) ?u4" by (cases ?stale) simp_all
    with True that [of ?u4] show ?thesis by simp
  next
    case False
    have sets: "?M - {meta_iomem mm} = {}" "meta_iomem mm \<in> ?M" "meta_iomem mm \<in> (if ?stale then ?A else ?M)"
      "(if ?stale then (if ?stale then ?A else ?M) else (if ?stale then ?A else ?M) - {meta_iomem mm}) = (if ?stale then ?A else {})"
      using False by (auto simp: engine_buffers_def)
    from own_release [OF laws bdf(2) own4 sets(2,3), of ?stale] obtain u5 where
      "release_buffer ops ?stale (meta_iomem mm) ?u4 = (Ok (), u5)" "own mapped v {} (if ?stale then ?A else {}) u5"
      unfolding sets(1,4) by blast
    with False that show ?thesis by simp
  qed
  have u5: "u5 = v\<lparr>iommu := iommu u5\<rparr>" by (rule own_heap [OF own5])
  have fin: "u5\<lparr>u_refcnt := u_refcnt u5 - 1\<rparr> = u\<lparr>iommu := iommu u5\<rparr>" "u_refcnt u5 = u_refcnt u + 1"
    by (subst u5, subst u5, simp add: v_def) (subst u5, simp add: v_def)
  let ?g = "set_unvme i u5 (set_unvme i ?u2 g1)"
  have "unvmed_put ops errs i ?g = (Ok (u_refcnt u), set_unvme i (u\<lparr>iommu := iommu u5\<rparr>) g)"
    using fin i ref by (simp add: unvmed_put_def Let_def set_unvme_def g1 u_def nth_opt_update)
  moreover have at: "unvme_list g1 ! i = u1" "unvme_list (set_unvme i ?u2 g1) ! i = ?u2" using i by (simp_all add: g1 set_unvme_def)
  ultimately have run: "fio_libunvmed_cleanup ops errs i t (set_unvme i ((unvme_list g1 ! i)\<lparr>iommu := m\<rparr>) g1)
      = (Ok (), set_unvme i (u\<lparr>iommu := iommu u5\<rparr>) g)"
    unfolding fio_libunvmed_cleanup_def Let_def t at ep trim prod.case outcome.case nsid put(2) meta5
    using put(1) by simp
  have "ledger mapped (u\<lparr>iommu := iommu u5\<rparr>) = ledger mapped u \<union> Mapping ` (if ?stale then ?A else {})"
  proof -
    have "ledger mapped u5 = ledger mapped v \<union> Mapping ` (if ?stale then ?A else {})" using own5 by (simp add: own_def)
    moreover have "ledger mapped u5 = ledger mapped (u\<lparr>iommu := iommu u5\<rparr>)" "ledger mapped v = ledger mapped u"
      by (subst u5, simp add: ledger_def v_def) (simp add: ledger_def v_def)
    ultimately show ?thesis by simp
  qed
  with run show ?thesis unfolding u_def by (intro exI [of _ "iommu u5"]) (auto split: if_splits)
qed

subsection \<open>Samples\<close>

definition sample_td :: fio_td where
  "sample_td = \<lparr>td_thread_number = 1, td_tid = 7, td_callback = 0, td_verify = False, td_vcq = 64,
     td_vcqe = Some (replicate 4 \<lparr>vcqe_cqe = zero_cqe, vcqe_bdf = 0, vcqe_injected = 0\<rparr>)\<rparr>"

definition sample_shared :: fio_shared where
  "sample_shared = \<lparr>g_initialized_threads = 0, g_total_threads = 1, g_all_threads_initialized = False,
     vcq_ids_pool = unvmed_vcq_pool_init\<rparr>"

definition sample_job_ns :: unvme_ns where
  "sample_job_ns = zero_ns\<lparr>nsid := 1, ns_refcnt := 1, lba_size := 512, ns_ms := 8\<rparr>"

definition sample_job_u :: "(nat set, nat list) unvme_inst" where
  "sample_job_u = blank_inst\<lparr>bdf := Some ''0000:01:00.0'', mps := 0, heap := {}, iommu := {}, ns_list := [sample_job_ns],
     id_ctrl := Some \<lparr>id_mdts = 5, id_ctratt = 0\<rparr>, sqs := [None, Some sample_usq, None], cqs := [None, Some sample_ucq, None],
     vcqs := (\<lambda>_. None), u_bdf := 0x100, u_refcnt := 1, epoch := 1, thread_list := []\<rparr>"

lemma sample_job_fields [simp]:
  "bdf sample_job_u = Some ''0000:01:00.0''" "mps sample_job_u = 0" "heap sample_job_u = {}" "iommu sample_job_u = {}"
  "ns_list sample_job_u = [sample_job_ns]" "id_ctrl sample_job_u = Some \<lparr>id_mdts = 5, id_ctratt = 0\<rparr>"
  "sqs sample_job_u = [None, Some sample_usq, None]" "cqs sample_job_u = [None, Some sample_ucq, None]"
  "vcqs sample_job_u = (\<lambda>_. None)" "u_bdf sample_job_u = 0x100" "u_refcnt sample_job_u = 1" "epoch sample_job_u = 1"
  "thread_list sample_job_u = []"
  by (simp_all add: sample_job_u_def)

lemma sample_job_wf: "sq_wf sample_job_u" "cq_wf sample_job_u" "ns_wf sample_job_u"
  using sample_u_wf by (simp_all add: sq_wf_def cq_wf_def ns_wf_def sample_job_ns_def)

lemma sample_job_ids: "vcq_pool_inv (vcq_ids_pool sample_shared)" "ids_unused (vcq_ids_pool sample_shared) sample_job_u"
  using pool_init_inv by (simp_all add: sample_shared_def ids_unused_def unvmed_vcq_pool_init_def)

lemma sample_ledger: "ledger id sample_job_u = {}"
  by (simp add: ledger_def)

lemma sample_map_mems: "libunvmed_map_mems sample_ops False (sample_mem, u) = (Ok (),
    sample_mem\<lparr>orig_buffer_iova := 4096, prp_list_iomem_iova := 8192\<rparr>, u\<lparr>iommu := {4096, 8192}\<rparr>)"
  if "bdf u = Some b" "iommu u = {}"
  using that
  by (simp add: libunvmed_map_mems_def Let_def or_undo_def map_orig_buffer_def map_buffer_def sample_mem_def
      unvmed_map_vaddr_def sample_ops_def insert_commute)

lemma sample_job_opts:
  "ft_mem (sample_thread x) = sample_mem" "ft_opts (sample_thread x) = zero_fio_options" "o_cmb_data zero_fio_options = False"
  by (simp_all add: sample_thread_def zero_fio_options_def)

definition held_u :: "(nat set, nat list) unvme_inst" where
  "held_u = sample_job_u\<lparr>sqs := [None, Some (sample_usq\<lparr>sq_refcnt := sq_refcnt sample_usq + 1\<rparr>), None],
     cqs := [None, Some (sample_ucq\<lparr>cq_refcnt := cq_refcnt sample_ucq + 1\<rparr>), None]\<rparr>"

lemma sample_open:
  assumes t: "job_sqid sample_td (ft_opts t) = 1"
  shows "fio_libunvmed_open_file d sample_ops sample_td (t, sh, sample_job_u) =
    (case open_job d sample_ops sample_td 4 4
            (t\<lparr>ft_opts := (ft_opts t)\<lparr>o_sqid := 1\<rparr>, ft_sqid := 1, ft_cqid := 1\<rparr>, sh, held_u) of
       (Ok _, t2, sh2, u3) \<Rightarrow> (Ok (), t2, count_opened sh2, u3)
     | (r, t2, sh2, u3) \<Rightarrow> (r, t2, count_opened sh2, put_queues 1 1 u3))"
proof -
  let ?u = "sample_job_u\<lparr>sqs := [None, Some (sample_usq\<lparr>sq_refcnt := sq_refcnt sample_usq + 1\<rparr>), None]\<rparr>"
  have q: "sq_qsize sample_usq = 4" "cq_qsize sample_ucq = 4" "sq_ucq sample_usq = 1" "sq_refcnt sample_usq = 1"
    "cq_refcnt sample_ucq = 1" "sq_id sample_usq = 1" "cq_id sample_ucq = 1" "sq_enabled sample_usq" "cq_enabled sample_ucq"
    by (simp_all add: sample_usq_def sample_ucq_def)
  have "unvmed_sq_get 1 sample_job_u = Some ?u" using sample_job_wf(1) q
    by (simp add: unvmed_sq_get_def sq_find_wf nth_opt_def sq_store_def)
  moreover have "cq_wf ?u" using sample_job_wf(2) by (simp add: cq_wf_def)
  then have "unvmed_cq_get 1 ?u = Some held_u" using q
    by (simp add: unvmed_cq_get_def cq_find_wf nth_opt_def cq_store_def held_u_def)
  ultimately show ?thesis
    unfolding fio_libunvmed_open_file_def Let_def prod.case t
    using q by (simp add: sq_at_def nth_opt_def held_u_def del: One_nat_def)
       (simp split: outcome.split prod.split)
qed

theorem open_close_roundtrip_witness:
  "\<exists>t1 sh1 u1 m p. fio_libunvmed_open_file sample_fio_defs sample_ops sample_td (sample_thread DDIR_READ, sample_shared, sample_job_u)
       = (Ok (), t1, sh1, u1) \<and> ledger id u1 = {Mapping 4096, Mapping 8192}
     \<and> fio_libunvmed_close_file sample_ops sample_td (t1, sh1, u1) = (Ok (), t1, sh1\<lparr>vcq_ids_pool := p\<rparr>, sample_job_u\<lparr>iommu := m\<rparr>)
     \<and> ledger id (sample_job_u\<lparr>iommu := m\<rparr>) = {}"
proof -
  let ?t = "sample_thread DDIR_READ"
  obtain t1 sh1 u1 where run: "fio_libunvmed_open_file sample_fio_defs sample_ops sample_td (?t, sample_shared, sample_job_u) = (Ok (), t1, sh1, u1)"
  proof -
    have "job_sqid sample_td (ft_opts ?t) = 1" by (simp add: job_sqid_def sample_thread_def zero_fio_options_def)
    note op = sample_open [OF this]
    have "fst (open_job sample_fio_defs sample_ops sample_td 4 4
            (?t\<lparr>ft_opts := (ft_opts ?t)\<lparr>o_sqid := 1\<rparr>, ft_sqid := 1, ft_cqid := 1\<rparr>, sample_shared, held_u)) = Ok ()"
      by (simp add: open_job_def Let_def sample_thread_def sample_map_mems held_u_def zero_fio_options_def libunvmed_parse_prchk_def
          abort_limits_def libunvmed_ns_meta_is_dif_def zero_ns_def sample_shared_def unvmed_vcq_init_def unvmed_vcq_acquire_def
          unvmed_vcq_pool_init_def sample_td_def UNVME_VCQ_MAX_def)
    then show ?thesis using that op by (metis (mono_tags, lifting) prod.case prod.exhaust_sel outcome.case(1))
  qed
  have hyps: "bdf sample_job_u \<noteq> None" "td_tid sample_td \<notin> fst ` set (thread_list sample_job_u)"
    "orig_buffer_size (ft_mem ?t) \<noteq> 0 \<longleftrightarrow> orig_buffer (ft_mem ?t) \<noteq> 0"
    by (simp_all add: sample_thread_def sample_mem_def)
  have "mem_buffers (o_cmb_data (ft_opts ?t)) (ft_mem ?t) = [(True, 8192), (False, 0), (True, 4096)]"
    by (simp add: sample_thread_def sample_mem_def mem_buffers_def orig_part_def zero_fio_options_def)
  with open_close_roundtrip [OF sample_ops_laws hyps(1) sample_job_wf(1,2) sample_job_ids hyps(2,3) run]
  show ?thesis using run by (auto simp: mapped_since_def sample_ledger)
qed


theorem failed_open_keeps_mappings_witness:
  "\<exists>t1 sh1 u1. fio_libunvmed_open_file sample_fio_defs sample_ops sample_td
        ((sample_thread DDIR_READ)\<lparr>ft_opts := zero_fio_options\<lparr>o_pi_chk := Some ''NONE''\<rparr>\<rparr>, sample_shared, sample_job_u)
       = (Fail ERRNO_UNSET, t1, sh1, u1)
     \<and> u1 = sample_job_u\<lparr>iommu := iommu u1\<rparr> \<and> ledger id u1 = {Mapping 4096, Mapping 8192}"
proof -
  let ?t = "(sample_thread DDIR_READ)\<lparr>ft_opts := zero_fio_options\<lparr>o_pi_chk := Some ''NONE''\<rparr>\<rparr>"
  let ?job = "open_job sample_fio_defs sample_ops sample_td 4 4
     (?t\<lparr>ft_opts := (ft_opts ?t)\<lparr>o_sqid := 1\<rparr>, ft_sqid := 1, ft_cqid := 1\<rparr>, sample_shared, held_u)"
  have sqid: "job_sqid sample_td (ft_opts ?t) = 1" by (simp add: job_sqid_def zero_fio_options_def)
  have "\<not> strstr ''NONE'' ''REFTAG''" "\<not> strstr ''NONE'' ''APPTAG''" "\<not> strstr ''NONE'' ''GUARD''" by code_simp+
  then have "libunvmed_parse_prchk sample_fio_defs ((ft_opts ?t)\<lparr>o_sqid := 1\<rparr>) = (Fail ERRNO_UNSET, (ft_opts ?t)\<lparr>o_sqid := 1\<rparr>)"
    by (simp add: libunvmed_parse_prchk_def Let_def set_if_def zero_fio_options_def)
  then obtain t1 sh1 where job: "?job = (Fail ERRNO_UNSET, t1, sh1, held_u\<lparr>iommu := {4096, 8192}\<rparr>)"
    using that by (simp add: open_job_def Let_def sample_map_mems held_u_def sample_job_opts)
  then obtain u1 where run: "fio_libunvmed_open_file sample_fio_defs sample_ops sample_td (?t, sample_shared, sample_job_u)
      = (Fail ERRNO_UNSET, t1, count_opened sh1, u1)" and u1: "u1 = put_queues 1 1 (held_u\<lparr>iommu := {4096, 8192}\<rparr>)"
    using sample_open [OF sqid, of sample_fio_defs sample_shared] by simp
  have held: "holds_queues sample_job_u 1 1 held_u"
    by (simp add: holds_queues_def held_u_def nth_opt_def sample_usq_def)
  have "iommu u1 = {4096, 8192}"
    using put_queues_held [OF sample_job_wf(1,2) held, of "held_u\<lparr>iommu := {4096, 8192}\<rparr>"] u1 by simp
  then have ne: "ledger id u1 \<noteq> ledger id sample_job_u" by (auto simp: ledger_def)
  have bs: "present (mem_buffers (o_cmb_data (ft_opts ?t)) (ft_mem ?t)) = [8192, 4096]"
    by (simp add: sample_thread_def sample_mem_def mem_buffers_def orig_part_def zero_fio_options_def)
  have "bdf sample_job_u \<noteq> None" by simp
  from failed_open_keeps_mappings [OF sample_ops_laws this sample_job_wf(1,2) run] ne
  have res: "u1 = sample_job_u\<lparr>iommu := iommu u1\<rparr>" "ledger id u1 = {Mapping 4096, Mapping 8192}"
    unfolding bs sample_ledger by (auto split: if_splits)
  with run show ?thesis by blast
qed

theorem init_cleanup_roundtrip_witness:
  "\<exists>ns mm g1 m'. libunvmed_init_data sample_ops 4096 ''0000:01:00.0'' (ft_job (sample_thread DDIR_READ)) zero_fio_options
        \<lparr>list_ready = True, unvme_list = [sample_job_u]\<rparr> = (Ok (0, ns, 8, mm), g1)
     \<and> fio_libunvmed_cleanup sample_ops (\<lambda>_. None) 0 ((sample_thread DDIR_READ)\<lparr>ft_mem := mm, ft_ns := ns\<rparr>) g1
       = (Ok (), \<lparr>list_ready = True, unvme_list = [sample_job_u\<lparr>iommu := m'\<rparr>]\<rparr>)
     \<and> ledger id (sample_job_u\<lparr>iommu := m'\<rparr>) = {Mapping 4096}"
proof -
  let ?g = "\<lparr>list_ready = True, unvme_list = [sample_job_u]\<rparr>" and ?td = "ft_job (sample_thread DDIR_READ)"
  let ?ns = "sample_job_ns\<lparr>ns_refcnt := 2\<rparr>"
  let ?mm = "zero_mem\<lparr>meta_iomem := 4096, meta_iomem_size := 4096, meta_iomem_iova := 4096\<rparr>"
  let ?u = "sample_job_u\<lparr>u_refcnt := 2, ns_list := [?ns], heap := {4096}, iommu := {4096}\<rparr>"
  have addr: "snd (libunvmed_to_bdf ''0000:01:00.0'') = Ok ''0000:01:00.0''" "unvmed_bdf_to_int_u2 ''0000:01:00.0'' = Ok 0x100"
    by code_simp+
  let ?w = "sample_job_u\<lparr>u_refcnt := 2, ns_list := [?ns]\<rparr>"
  have opts: "o_nsid zero_fio_options = 1" "o_md_per_io_size zero_fio_options = 0" by (simp_all add: zero_fio_options_def)
  have ps: "unvmed_pagesize sample_ops ?w = 4096" by (simp add: unvmed_pagesize_def sample_ops_def)
  have get: "unvmed_ns_get 1 (sample_job_u\<lparr>u_refcnt := 2\<rparr>) = Some ?w" and find: "unvmed_ns_find 1 ?w = Some ?ns"
    by (simp_all add: unvmed_ns_get_def ns_update_def unvmed_ns_find_def sample_job_ns_def)
  have xfer: "unvmed_get_max_xfer_size sample_ops ?w = Ok 131072"
    using ps by (simp add: unvmed_get_max_xfer_size_def)
  have bs: "check_bs ?ns 131072 ?td [DDIR_READ, DDIR_WRITE, DDIR_TRIM] 0 = Ok 8"
    by (simp add: sample_thread_def sample_job_ns_def bs_unit_def libunvmed_ns_meta_is_dif_def zero_ns_def Let_def)
  have buf: "init_buffers sample_ops 4096 ?ns ?td 8 (zero_mem, ?w) = (Ok (), ?mm, ?u)"
    using ps by (simp add: init_buffers_def sample_thread_def sample_job_ns_def libunvmed_ns_meta_is_dif_def zero_ns_def
        unvmed_pgmap_def unvmed_pgmap_aligned_def Let_def unvmed_map_vaddr_def sample_ops_def)
  have init: "libunvmed_init_data sample_ops 4096 ''0000:01:00.0'' ?td zero_fio_options ?g
      = (Ok (0, ?ns, 8, ?mm), ?g\<lparr>unvme_list := [?u]\<rparr>)"
    using addr by (simp add: libunvmed_init_data_def unvmed_get_def set_unvme_def Let_def opts get find xfer bs buf del: check_bs.simps)
  let ?t = "(sample_thread DDIR_READ)\<lparr>ft_mem := ?mm, ft_ns := ?ns\<rparr>"
  have hyps: "bdf (unvme_list ?g ! 0) \<noteq> None" "ns_wf (unvme_list ?g ! 0)" "0 < u_refcnt (unvme_list ?g ! 0)"
    "\<not> libunvmed_ns_meta_is_dif ?ns \<and> (8 :: u32) \<noteq> 0 \<longrightarrow> meta_iomem ?mm \<noteq> 0" "ft_job ?t = ?td" "ft_ns ?t = ?ns"
    "meta_iomem (ft_mem ?t) = meta_iomem ?mm" "trim_iomem (ft_mem ?t) = trim_iomem ?mm"
    "ledger id ((unvme_list (?g\<lparr>unvme_list := [?u]\<rparr>) ! 0)\<lparr>iommu := {4096}\<rparr>) = ledger id (unvme_list (?g\<lparr>unvme_list := [?u]\<rparr>) ! 0)"
    using sample_job_wf(3) by simp_all
  have epoch: "ld_epoch (ft_mem ?t) \<noteq> epoch (unvme_list ?g ! 0)" and A: "engine_buffers ?td ?mm = {4096}"
    by (simp_all add: engine_buffers_def sample_thread_def)
  have same: "set_unvme 0 ((unvme_list (?g\<lparr>unvme_list := [?u]\<rparr>) ! 0)\<lparr>iommu := {4096}\<rparr>) (?g\<lparr>unvme_list := [?u]\<rparr>) = ?g\<lparr>unvme_list := [?u]\<rparr>"
    by (simp add: set_unvme_def)
  from init_cleanup_roundtrip [OF sample_ops_laws hyps(1-3) init hyps(4-9), of "\<lambda>_. None", unfolded same A] epoch
  obtain m' where "fio_libunvmed_cleanup sample_ops (\<lambda>_. None) 0 ?t (?g\<lparr>unvme_list := [?u]\<rparr>)
       = (Ok (), set_unvme 0 ((unvme_list ?g ! 0)\<lparr>iommu := m'\<rparr>) ?g)"
    "ledger id ((unvme_list ?g ! 0)\<lparr>iommu := m'\<rparr>) = ledger id (unvme_list ?g ! 0) \<union> {Mapping 4096}" by auto
  with init show ?thesis by (auto simp: set_unvme_def sample_ledger)
qed

end
