(* ===== verification/Daemon.thy ===== *)
theory Daemon
  imports Bdf Vcq
begin

text \<open>
  The command line client and the daemon, \<open>src/src/unvme.c\<close>, \<open>src/src/unvmed.c\<close> and their helpers: the
  table of commands, the arguments that the client writes to a file and the daemon reads back, the
  choice of the handler, and the threads and the list of jobs of the daemon. What a command does is
  one or a few calls of the library, and a parameter here, like the parser of options.
\<close>

subsection \<open>Commands\<close>

datatype command_type =
    UNVME_CLIENT_CMD | UNVME_DAEMON_CMD | UNVME_DEV_CMD | UNVME_NODEV_CMD
  | UNVME_GENERIC_CMD | UNVME_DRIVER_CMD | UNVME_NVME_CMD | UNVME_APP_CMD

datatype command =
  unvme_command (cmd_name: string) (cmd_ctype: "command_type list") (cmd_func: string)

definition cmds :: "command list" where
  "cmds = [
     unvme_command ''help'' [UNVME_GENERIC_CMD, UNVME_CLIENT_CMD, UNVME_NODEV_CMD] ''unvme_help'',
     unvme_command ''version'' [UNVME_GENERIC_CMD, UNVME_CLIENT_CMD, UNVME_NODEV_CMD] ''unvme_version'',
     unvme_command ''start'' [UNVME_GENERIC_CMD, UNVME_CLIENT_CMD, UNVME_NODEV_CMD] ''unvme_start'',
     unvme_command ''stop'' [UNVME_GENERIC_CMD, UNVME_CLIENT_CMD, UNVME_NODEV_CMD] ''unvme_stop'',
     unvme_command ''log'' [UNVME_GENERIC_CMD, UNVME_CLIENT_CMD, UNVME_NODEV_CMD] ''unvme_log'',
     unvme_command ''log-level'' [UNVME_GENERIC_CMD, UNVME_DAEMON_CMD, UNVME_NODEV_CMD] ''unvme_log_level'',
     unvme_command ''list'' [UNVME_GENERIC_CMD, UNVME_DAEMON_CMD, UNVME_NODEV_CMD] ''unvme_list'',
     unvme_command ''add'' [UNVME_GENERIC_CMD, UNVME_DAEMON_CMD, UNVME_DEV_CMD] ''unvme_add'',
     unvme_command ''del'' [UNVME_GENERIC_CMD, UNVME_DAEMON_CMD, UNVME_DEV_CMD] ''unvme_del'',
     unvme_command ''show-regs'' [UNVME_DRIVER_CMD, UNVME_DAEMON_CMD, UNVME_DEV_CMD] ''unvme_show_regs'',
     unvme_command ''status'' [UNVME_DRIVER_CMD, UNVME_DAEMON_CMD, UNVME_DEV_CMD] ''unvme_status'',
     unvme_command ''create-adminq'' [UNVME_DRIVER_CMD, UNVME_DAEMON_CMD, UNVME_DEV_CMD] ''unvme_create_adminq'',
     unvme_command ''enable'' [UNVME_DRIVER_CMD, UNVME_DAEMON_CMD, UNVME_DEV_CMD] ''unvme_enable'',
     unvme_command ''disable'' [UNVME_DRIVER_CMD, UNVME_DAEMON_CMD, UNVME_DEV_CMD] ''unvme_reset'',
     unvme_command ''create-iocq'' [UNVME_DRIVER_CMD, UNVME_DAEMON_CMD, UNVME_DEV_CMD] ''unvme_create_iocq'',
     unvme_command ''delete-iocq'' [UNVME_DRIVER_CMD, UNVME_DAEMON_CMD, UNVME_DEV_CMD] ''unvme_delete_iocq'',
     unvme_command ''create-iosq'' [UNVME_DRIVER_CMD, UNVME_DAEMON_CMD, UNVME_DEV_CMD] ''unvme_create_iosq'',
     unvme_command ''delete-iosq'' [UNVME_DRIVER_CMD, UNVME_DAEMON_CMD, UNVME_DEV_CMD] ''unvme_delete_iosq'',
     unvme_command ''update-sqdb'' [UNVME_DRIVER_CMD, UNVME_DAEMON_CMD, UNVME_DEV_CMD] ''unvme_update_sqdb'',
     unvme_command ''create-ns'' [UNVME_DRIVER_CMD, UNVME_DAEMON_CMD, UNVME_DEV_CMD] ''unvme_create_ns'',
     unvme_command ''delete-ns'' [UNVME_DRIVER_CMD, UNVME_DAEMON_CMD, UNVME_DEV_CMD] ''unvme_delete_ns'',
     unvme_command ''attach-ns'' [UNVME_DRIVER_CMD, UNVME_DAEMON_CMD, UNVME_DEV_CMD] ''unvme_attach_ns'',
     unvme_command ''detach-ns'' [UNVME_DRIVER_CMD, UNVME_DAEMON_CMD, UNVME_DEV_CMD] ''unvme_detach_ns'',
     unvme_command ''hmb'' [UNVME_DRIVER_CMD, UNVME_DAEMON_CMD, UNVME_DEV_CMD] ''unvme_hmb'',
     unvme_command ''cmb'' [UNVME_DRIVER_CMD, UNVME_DAEMON_CMD, UNVME_DEV_CMD] ''unvme_cmb'',
     unvme_command ''reset'' [UNVME_DRIVER_CMD, UNVME_DAEMON_CMD, UNVME_DEV_CMD] ''unvme_reset'',
     unvme_command ''subsystem-reset'' [UNVME_DRIVER_CMD, UNVME_DAEMON_CMD, UNVME_DEV_CMD] ''unvme_subsystem_reset'',
     unvme_command ''flr'' [UNVME_DRIVER_CMD, UNVME_DAEMON_CMD, UNVME_DEV_CMD] ''unvme_flr'',
     unvme_command ''hot-reset'' [UNVME_DRIVER_CMD, UNVME_DAEMON_CMD, UNVME_DEV_CMD] ''unvme_hot_reset'',
     unvme_command ''link-disable'' [UNVME_DRIVER_CMD, UNVME_DAEMON_CMD, UNVME_DEV_CMD] ''unvme_link_disable'',
     unvme_command ''malloc'' [UNVME_DRIVER_CMD, UNVME_DAEMON_CMD, UNVME_DEV_CMD] ''unvme_malloc'',
     unvme_command ''mfree'' [UNVME_DRIVER_CMD, UNVME_DAEMON_CMD, UNVME_DEV_CMD] ''unvme_mfree'',
     unvme_command ''mread'' [UNVME_DRIVER_CMD, UNVME_DAEMON_CMD, UNVME_DEV_CMD] ''unvme_mread'',
     unvme_command ''mwrite'' [UNVME_DRIVER_CMD, UNVME_DAEMON_CMD, UNVME_DEV_CMD] ''unvme_mwrite'',
     unvme_command ''id-ns'' [UNVME_NVME_CMD, UNVME_DAEMON_CMD, UNVME_DEV_CMD] ''unvme_id_ns'',
     unvme_command ''id-ctrl'' [UNVME_NVME_CMD, UNVME_DAEMON_CMD, UNVME_DEV_CMD] ''unvme_id_ctrl'',
     unvme_command ''id-active-nslist'' [UNVME_NVME_CMD, UNVME_DAEMON_CMD, UNVME_DEV_CMD] ''unvme_id_active_nslist'',
     unvme_command ''nvm-id-ns'' [UNVME_NVME_CMD, UNVME_DAEMON_CMD, UNVME_DEV_CMD] ''unvme_nvm_id_ns'',
     unvme_command ''set-features'' [UNVME_NVME_CMD, UNVME_DAEMON_CMD, UNVME_DEV_CMD] ''unvme_set_features'',
     unvme_command ''set-features-noq'' [UNVME_NVME_CMD, UNVME_DAEMON_CMD, UNVME_DEV_CMD] ''unvme_set_features_noq'',
     unvme_command ''set-features-hmb'' [UNVME_NVME_CMD, UNVME_DAEMON_CMD, UNVME_DEV_CMD] ''unvme_set_features_hmb'',
     unvme_command ''get-features'' [UNVME_NVME_CMD, UNVME_DAEMON_CMD, UNVME_DEV_CMD] ''unvme_get_features'',
     unvme_command ''read'' [UNVME_NVME_CMD, UNVME_DAEMON_CMD, UNVME_DEV_CMD] ''unvme_read'',
     unvme_command ''write'' [UNVME_NVME_CMD, UNVME_DAEMON_CMD, UNVME_DEV_CMD] ''unvme_write'',
     unvme_command ''passthru'' [UNVME_NVME_CMD, UNVME_DAEMON_CMD, UNVME_DEV_CMD] ''unvme_passthru'',
     unvme_command ''format'' [UNVME_NVME_CMD, UNVME_DAEMON_CMD, UNVME_DEV_CMD] ''unvme_format'',
     unvme_command ''virt-mgmt'' [UNVME_NVME_CMD, UNVME_DAEMON_CMD, UNVME_DEV_CMD] ''unvme_virt_mgmt'',
     unvme_command ''primary-ctrl-caps'' [UNVME_NVME_CMD, UNVME_DAEMON_CMD, UNVME_DEV_CMD] ''unvme_id_primary_ctrl_caps'',
     unvme_command ''list-secondary'' [UNVME_NVME_CMD, UNVME_DAEMON_CMD, UNVME_DEV_CMD] ''unvme_id_secondary_ctrl_list'',
     unvme_command ''fio'' [UNVME_APP_CMD, UNVME_DAEMON_CMD, UNVME_NODEV_CMD] ''unvme_fio'']"

definition unvme_get_cmd :: "string \<Rightarrow> command option" where
  "unvme_get_cmd name = find (\<lambda>c. cmd_name c = name) cmds"

subsection \<open>The arguments in a file\<close>

definition newline :: char where "newline = CHR 0x0A"
definition nul :: char where "nul = CHR 0x00"

definition UNVME_ARGV_MAXLEN :: nat where "UNVME_ARGV_MAXLEN = 4096"

text \<open>The size of \<open>__argv\<close>, \<open>UNVME_MAX_OPT * UNVME_MAX_STR\<close>, and of the buffer for a line.\<close>

definition oneline_size :: nat where "oneline_size = 64 * 32"
definition line_size :: nat where "line_size = 128"

text \<open>The characters of a buffer before its terminator.\<close>

definition cstr :: "string \<Rightarrow> string" where
  "cstr s = takeWhile (\<lambda>c. c \<noteq> nul) s"

text \<open>
  \<open>unvme_msg_init()\<close> of the client: every argument and a newline are appended to a zeroed buffer
  without a test, and the whole buffer is written.
\<close>

definition argv_text :: "string list \<Rightarrow> string" where
  "argv_text args = concat (map (\<lambda>a. a @ [newline]) args)"

definition unvme_msg_init_client :: "string list \<Rightarrow> string outcome" where
  "unvme_msg_init_client args =
     (let s = argv_text args in
      if UNVME_ARGV_MAXLEN \<le> length s then Fault
      else Ok (s @ replicate (UNVME_ARGV_MAXLEN - length s) nul))"

text \<open>\<open>fgets()\<close> reads at most one character less than its size, to the end of a line.\<close>

fun fgets_take :: "nat \<Rightarrow> string \<Rightarrow> string \<times> string" where
  "fgets_take 0 s = ([], s)"
| "fgets_take (Suc n) [] = ([], [])"
| "fgets_take (Suc n) (c # s) =
     (if c = newline then ([c], s) else case fgets_take n s of (l, r) \<Rightarrow> (c # l, r))"

definition fgets :: "nat \<Rightarrow> string \<Rightarrow> (string \<times> string) option" where
  "fgets n s = (if s = [] then None else Some (fgets_take (n - 1) s))"

lemma fgets_take_length: "length (fst (fgets_take n s)) + length (snd (fgets_take n s)) = length s"
  by (induction n s rule: fgets_take.induct) (auto split: prod.splits)

lemma fgets_take_pos: "s \<noteq> [] \<Longrightarrow> 0 < n \<Longrightarrow> 0 < length (fst (fgets_take n s))"
  by (cases "(n, s)" rule: fgets_take.cases) (auto split: prod.splits)

lemma fgets_shorter: "fgets line_size s = Some (l, r) \<Longrightarrow> length r < length s"
  using fgets_take_length [of 127 s] fgets_take_pos [of s 127]
  by (auto simp: fgets_def line_size_def split: if_splits simp flip: length_greater_0_conv)

definition basename :: "string \<Rightarrow> string" where
  "basename s = (if CHR ''/'' \<in> set s then rev (takeWhile (\<lambda>c. c \<noteq> CHR ''/'') (rev s)) else s)"

text \<open>
  The loop of the daemon's \<open>unvme_msg_init()\<close> from argument \<open>i\<close> on, with \<open>used\<close> characters in \<open>__argv\<close>;
  \<open>mem i\<close> says whether \<open>calloc()\<close> succeeds. The array of arguments has \<open>argc + 1\<close> elements. An
  argument has the memory of its line, which has room for its terminator only if the line ends
  with a newline.
\<close>

function msg_lines :: "(nat \<Rightarrow> bool) \<Rightarrow> nat \<Rightarrow> nat \<Rightarrow> nat \<Rightarrow> string \<Rightarrow> string list outcome" where
  "msg_lines mem argc i used file =
     (if argc < i then Fault
      else case fgets line_size file of
        None \<Rightarrow> Ok []
      | Some (buf, rest) \<Rightarrow>
          (let s = cstr buf; line = takeWhile (\<lambda>c. c \<noteq> newline) s;
               a = (if i = 0 then basename line else line);
               used' = used + length a + (if i = 0 then 0 else 1)
           in if s = [] then Ok []
              else if \<not> mem i then Fail ENOMEM
              else if length s \<le> length a then Fault
              else if oneline_size \<le> used' then Fault
              else case msg_lines mem argc (Suc i) used' rest of
                     Ok as \<Rightarrow> Ok (a # as) | Fail e \<Rightarrow> Fail e | Fault \<Rightarrow> Fault))"
  by pat_completeness auto
termination
  by (relation "measure (\<lambda>(mem, argc, i, used, file). length file)") (auto dest: fgets_shorter)

declare msg_lines.simps [simp del]

text \<open>
  The file is its contents, or the reason why it cannot be opened, which is not that there are too
  many open files: then the daemon tries again.
\<close>

definition unvme_msg_init :: "(nat \<Rightarrow> bool) \<Rightarrow> nat \<Rightarrow> errno + string \<Rightarrow> string list outcome" where
  "unvme_msg_init mem argc file = (case file of Inl e \<Rightarrow> Fail e | Inr s \<Rightarrow> msg_lines mem argc 0 0 s)"

subsection \<open>Paths and the arguments of fio\<close>

definition unvme_is_abspath :: "string \<Rightarrow> bool" where
  "unvme_is_abspath path = (case path of [] \<Rightarrow> False | c # _ \<Rightarrow> c = CHR ''/'' \<or> c = CHR ''~'')"

definition unvme_get_filepath :: "string \<Rightarrow> string \<Rightarrow> string" where
  "unvme_get_filepath pwd file = (if unvme_is_abspath file then file else pwd @ ''/'' @ file)"

definition starts_with :: "string \<Rightarrow> string \<Rightarrow> bool" where
  "starts_with p s \<longleftrightarrow> take (length p) s = p"

text \<open>The arguments that \<open>unvmed_run_fio()\<close> passes to fio.\<close>

definition fio_arg :: "string \<Rightarrow> string \<Rightarrow> string" where
  "fio_arg pwd a =
     (if \<not> starts_with ''-'' a then unvme_get_filepath pwd a
      else if starts_with ''-output='' a \<or> starts_with ''--output='' a
      then ''--output='' @ unvme_get_filepath pwd (tl (dropWhile (\<lambda>c. c \<noteq> CHR ''='') a))
      else a)"

definition fio_argv :: "string \<Rightarrow> string list \<Rightarrow> string list" where
  "fio_argv pwd args = map (fio_arg pwd) args @ [''--eta=always'', ''--thread=1'']"

subsection \<open>The client\<close>

text \<open>
  \<open>main()\<close> of the client up to the message: it ends with a status, runs a command itself, or sends
  its arguments to the daemon. \<open>dev\<close> is what the parser of options finds for the device argument;
  a device is replaced by its full address. A status is that of \<open>main()\<close>.
\<close>

datatype client_step = Exit_Client int | Run_Client string | Send_Daemon "string list"

definition unvme_check_args_devcmd :: "(string list \<Rightarrow> string option) \<Rightarrow> string list \<Rightarrow> string list outcome" where
  "unvme_check_args_devcmd dev argv =
     (case dev argv of
        None \<Rightarrow> Ok argv
      | Some s \<Rightarrow>
          (case unvmed_parse_bdf s of
             Ok bdf \<Rightarrow> Ok (argv[2 := bdf]) | Fail _ \<Rightarrow> Fail EINVAL | Fault \<Rightarrow> Fault))"

text \<open>\<open>unvme_check_args()\<close>: \<open>None\<close> is the result 0, after which the client ends with the help it has shown.\<close>

definition unvme_check_args :: "(string list \<Rightarrow> string option) \<Rightarrow> string list \<Rightarrow> string list option outcome" where
  "unvme_check_args dev argv =
     (case argv of
        [] \<Rightarrow> Fault
      | [_] \<Rightarrow> Ok None
      | _ # name # _ \<Rightarrow>
          (case unvme_get_cmd name of
             None \<Rightarrow> Fail EINVAL
           | Some c \<Rightarrow>
               if UNVME_DEV_CMD \<in> set (cmd_ctype c)
               then (case unvme_check_args_devcmd dev argv of
                       Ok argv' \<Rightarrow> Ok (Some argv') | Fail e \<Rightarrow> Fail e | Fault \<Rightarrow> Fault)
               else Ok (Some argv)))"

definition unvme_main ::
  "(string list \<Rightarrow> string option) \<Rightarrow> bool \<Rightarrow> int option \<Rightarrow> string list \<Rightarrow> client_step outcome" where
  "unvme_main dev running ver argv =
     (case unvme_check_args dev argv of
        Fault \<Rightarrow> Fault
      | Fail _ \<Rightarrow> Ok (Exit_Client 22)
      | Ok None \<Rightarrow> Ok (Exit_Client 0)
      | Ok (Some argv') \<Rightarrow>
          Ok (case unvme_get_cmd (argv ! 1) of
                None \<Rightarrow> Exit_Client 1
              | Some c \<Rightarrow>
                  if UNVME_CLIENT_CMD \<in> set (cmd_ctype c) then Run_Client (cmd_func c)
                  else if \<not> running then Exit_Client 1
                  else case ver of Some e \<Rightarrow> Exit_Client e | None \<Rightarrow> Send_Daemon argv'))"

text \<open>
  \<open>__unvme_handler()\<close> of the daemon: its result, with \<open>run\<close> for the functions of the commands and \<open>vec\<close>
  for the allocation of the array of arguments; the numbers are \<open>-ENOMEM\<close>, \<open>-ECANCELED\<close> and \<open>-EINVAL\<close>, and
  \<open>Fail\<close> is the negative \<open>errno\<close>. A message without a command passes \<open>NULL\<close> to \<open>strcmp()\<close>.
\<close>

definition unvme_handler_result ::
  "(string \<Rightarrow> string list \<Rightarrow> int) \<Rightarrow> bool \<Rightarrow> (nat \<Rightarrow> bool) \<Rightarrow> nat \<Rightarrow> errno + string \<Rightarrow> int outcome" where
  "unvme_handler_result run vec mem argc file =
     (if \<not> vec then Ok (- 12)
      else case unvme_msg_init mem argc file of
        Fault \<Rightarrow> Fault
      | Fail e \<Rightarrow> Fail e
      | Ok argv \<Rightarrow>
          (case argv of
             _ # name # _ \<Rightarrow>
               if name = ''stop'' then Ok (- 125)
               else (case unvme_get_cmd name of
                       Some c \<Rightarrow> if UNVME_DAEMON_CMD \<in> set (cmd_ctype c) then Ok (run (cmd_func c) argv) else Ok (- 22)
                     | None \<Rightarrow> Ok (- 22))
           | _ \<Rightarrow> Fault))"

subsection \<open>Jobs\<close>

text \<open>
  \<open>unvme_del_job()\<close> looks up the first job of a client, unlinks it under the lock of the list and
  frees it afterwards. Other threads may run between the three, and so the place in it is a state of
  the thread that calls it. A job is the process of its client and the number of its thread.
\<close>

datatype del_job = Lookup int | Unlink "int \<times> nat" | Free "int \<times> nat" | Deleted

text \<open>
  A thread of the daemon: not yet started; in its handler, with its virtual completion queue; in
  \<open>unvme_exit_job()\<close> before and after the answer, with the queue if it returns to
  \<open>unvme_handler()\<close> afterwards and without if it was called by \<open>exit()\<close>; after it; ended and not
  joined; and gone.
\<close>

datatype job_thread =
    Started int | Running int unvme_vcq
  | Closing int int "unvme_vcq option" | Deleting del_job "unvme_vcq option"
  | Exiting unvme_vcq | Ended | Gone

text \<open>
  The main thread, which serves one message after the other, in \<open>unvme_signal_job()\<close> or not, or is
  stopped. The flag stands for \<open>SIGINT\<close> and \<open>SIGTERM\<close>.
\<close>

datatype main_thread = Idle | Killing int nat bool | Joining int nat bool | Main_Deleting del_job | Stopped

text \<open>
  The list of jobs, the jobs in memory, the threads by number, the messages received, those for
  which there never is a thread that answers, the results sent to clients for messages and for
  signals, and whether the behaviour of the program has become undefined: freed memory, a closed
  stream or a thread that is gone was used.
\<close>

record daemon =
  jobs :: "(int \<times> nat) list"
  live :: "(int \<times> nat) set"
  threads :: "nat \<Rightarrow> job_thread option"
  nr_threads :: nat
  main :: main_thread
  received :: "int list"
  lost :: "int list"
  replies :: "(int \<times> int) list"
  sig_replies :: "int list"
  fault :: bool

text \<open>Without memory \<open>unvme_add_job()\<close> writes through a null pointer, before it asserts that there is none.\<close>

definition unvme_add_job :: "bool \<Rightarrow> int \<Rightarrow> nat \<Rightarrow> daemon \<Rightarrow> daemon" where
  "unvme_add_job mem pid t d =
     (if mem then d\<lparr>jobs := jobs d @ [(pid, t)], live := insert (pid, t) (live d)\<rparr> else d\<lparr>fault := True\<rparr>)"

definition unvme_get_job :: "int \<Rightarrow> daemon \<Rightarrow> (int \<times> nat) option" where
  "unvme_get_job pid d = find (\<lambda>j. fst j = pid) (jobs d)"

fun unvme_del_job :: "del_job \<Rightarrow> daemon \<Rightarrow> del_job \<times> daemon" where
  "unvme_del_job (Lookup pid) d = (case unvme_get_job pid d of None \<Rightarrow> Deleted | Some j \<Rightarrow> Unlink j, d)"
| "unvme_del_job (Unlink j) d = (Free j, d\<lparr>jobs := remove1 j (jobs d), fault := fault d \<or> j \<notin> set (jobs d)\<rparr>)"
| "unvme_del_job (Free j) d = (Deleted, d\<lparr>live := live d - {j}, fault := fault d \<or> j \<notin> live d\<rparr>)"
| "unvme_del_job Deleted d = (Deleted, d)"

definition set_thread :: "nat \<Rightarrow> job_thread \<Rightarrow> daemon \<Rightarrow> daemon" where
  "set_thread t st d = d\<lparr>threads := (threads d)(t \<mapsto> st)\<rparr>"

definition send_reply :: "int \<Rightarrow> int \<Rightarrow> daemon \<Rightarrow> daemon" where
  "send_reply pid ret d = d\<lparr>replies := replies d @ [(pid, ret)]\<rparr>"

text \<open>
  \<open>unvme_run_job()\<close> does not look at the result of \<open>pthread_create()\<close>, which \<open>created\<close> stands for:
  without a thread the job stays in the list and nobody has the message.
\<close>

definition unvme_run_job :: "bool \<Rightarrow> bool \<Rightarrow> int \<Rightarrow> daemon \<Rightarrow> daemon" where
  "unvme_run_job mem created pid d =
     (let t = nr_threads d;
          d1 = (unvme_add_job mem pid t d)\<lparr>nr_threads := Suc t, received := received d @ [pid]\<rparr>
      in if created then set_thread t (Started pid) d1 else d1\<lparr>lost := lost d @ [pid]\<rparr>)"

text \<open>
  The steps of \<open>unvme_exit_job()\<close>. Its streams are flushed and closed when a thread enters it
  (\<open>Closing\<close>); then it answers, deletes the job, and forgets the message.
\<close>

fun unvme_exit_job :: "job_thread \<Rightarrow> daemon \<Rightarrow> (job_thread \<times> daemon) option" where
  "unvme_exit_job (Closing pid ret back) d = Some (Deleting (Lookup pid) back, send_reply pid ret d)"
| "unvme_exit_job (Deleting Deleted back) d = Some (case back of Some q \<Rightarrow> Exiting q | None \<Rightarrow> Ended, d)"
| "unvme_exit_job (Deleting st back) d = (case unvme_del_job st d of (st', d') \<Rightarrow> Some (Deleting st' back, d'))"
| "unvme_exit_job _ d = None"

text \<open>
  The start of \<open>unvme_handler()\<close>: \<open>vcq\<close> is what \<open>unvmed_vcq_init()\<close> makes, any queue or none. The pool of
  their identifiers, which is shared by all threads, is not part of this state.
\<close>

definition handler_start :: "unvme_vcq option \<Rightarrow> int \<Rightarrow> nat \<Rightarrow> daemon \<Rightarrow> daemon" where
  "handler_start vcq pid t d =
     (case vcq of
        None \<Rightarrow> set_thread t Ended (send_reply pid (- 12) d)
      | Some q \<Rightarrow> set_thread t (Running pid q) d)"

text \<open>
  The daemon's own \<open>exit()\<close> without a jump buffer, in the thread of a job: called by the handler, or by
  the handler of a signal, which interrupts the thread anywhere. A thread that has no message yet
  ends without an answer; one in \<open>unvme_exit_job()\<close> closes its streams a second time.
\<close>

fun exit_thread :: "int \<Rightarrow> job_thread \<Rightarrow> daemon \<Rightarrow> (job_thread \<times> daemon) option" where
  "exit_thread status (Started pid) d = Some (Ended, d\<lparr>lost := lost d @ [pid]\<rparr>)"
| "exit_thread status (Running pid q) d = Some (Closing pid status None, d)"
| "exit_thread status (Closing pid ret back) d = Some (Ended, d\<lparr>fault := True\<rparr>)"
| "exit_thread status (Deleting st back) d = Some (Ended, d\<lparr>fault := True\<rparr>)"
| "exit_thread status (Exiting q) d = Some (Ended, d)"
| "exit_thread status Ended d = None"
| "exit_thread status Gone d = None"

text \<open>
  The steps. A message starts a job. A thread starts, runs its handler to its end, goes through
  \<open>unvme_exit_job()\<close>, frees its virtual queue and detaches; \<open>exit()\<close> may come at any time. A message
  with a signal is answered when its client has no job; otherwise the main thread kills the thread
  of the job and joins it, each time reading the job, and deletes the job if the signal is
  \<open>SIGINT\<close> or \<open>SIGTERM\<close>. The main thread itself may be stopped by a signal.
\<close>

inductive daemon_step :: "daemon \<Rightarrow> daemon \<Rightarrow> bool" where
  message: "main d = Idle \<Longrightarrow> daemon_step d (unvme_run_job mem created pid d)"
| start: "threads d t = Some (Started pid) \<Longrightarrow> daemon_step d (handler_start vcq pid t d)"
| finish: "threads d t = Some (Running pid q) \<Longrightarrow> daemon_step d (set_thread t (Closing pid ret (Some q)) d)"
| exit_job: "threads d t = Some st \<Longrightarrow> unvme_exit_job st d = Some (st', d') \<Longrightarrow> daemon_step d (set_thread t st' d')"
| leave: "threads d t = Some (Exiting q) \<Longrightarrow> daemon_step d (set_thread t Gone d)"
| quit: "threads d t = Some st \<Longrightarrow> exit_thread status st d = Some (st', d') \<Longrightarrow> daemon_step d (set_thread t st' d')"
| signal_none: "main d = Idle \<Longrightarrow> unvme_get_job pid d = None \<Longrightarrow>
    daemon_step d (d\<lparr>sig_replies := sig_replies d @ [pid]\<rparr>)"
| signal_job: "main d = Idle \<Longrightarrow> unvme_get_job pid d = Some (pid, t) \<Longrightarrow>
    daemon_step d (d\<lparr>main := Killing pid t term\<rparr>)"
| kill: "main d = Killing pid t term \<Longrightarrow>
    daemon_step d (d\<lparr>main := Joining pid t term,
      fault := fault d \<or> (pid, t) \<notin> live d \<or> threads d t \<in> {None, Some Gone}\<rparr>)"
| join: "main d = Joining pid t term \<Longrightarrow> threads d t \<in> {Some Ended, Some Gone} \<Longrightarrow>
    daemon_step d (set_thread t Gone
      (d\<lparr>main := (if term then Main_Deleting (Lookup pid) else Idle),
         fault := fault d \<or> (pid, t) \<notin> live d \<or> threads d t = Some Gone\<rparr>))"
| delete: "main d = Main_Deleting st \<Longrightarrow> unvme_del_job st d = (st', d') \<Longrightarrow>
    daemon_step d (d'\<lparr>main := (if st' = Deleted then Idle else Main_Deleting st')\<rparr>)"
| stop: "daemon_step d (d\<lparr>main := Stopped\<rparr>)"

definition start_daemon :: daemon where
  "start_daemon = \<lparr>jobs = [], live = {}, threads = (\<lambda>_. None), nr_threads = 0, main = Idle,
     received = [], lost = [], replies = [], sig_replies = [], fault = False\<rparr>"

inductive daemon_reachable :: "daemon \<Rightarrow> bool" where
  init: "daemon_reachable start_daemon"
| step: "daemon_reachable d \<Longrightarrow> daemon_step d d' \<Longrightarrow> daemon_reachable d'"

end
