(* ===== verification/Daemon_Facts.thy ===== *)
theory Daemon_Facts
  imports Daemon Sqe
begin

text \<open>
  The client and the daemon: arguments arrive as they were given, the answers are those that are due
  as long as the program is defined, and the two places where the daemon can
  leave its memory: a long argument, and a signal for a job that ends.
\<close>

subsection \<open>Commands\<close>

lemma cmds_distinct: "distinct (map cmd_name cmds)"
  by code_simp

lemma find_distinct:
  "distinct (map f xs) \<Longrightarrow> c \<in> set xs \<Longrightarrow> find (\<lambda>x. f x = f c) xs = Some c"
  by (induction xs) auto

text \<open>Every command of the table is found by its name, and runs in one place and on one kind of target.\<close>

lemma get_cmd_complete: "c \<in> set cmds \<Longrightarrow> unvme_get_cmd (cmd_name c) = Some c"
  using find_distinct [OF cmds_distinct] by (simp add: unvme_get_cmd_def)

lemma cmds_sides:
  "\<forall>c \<in> set cmds. (UNVME_CLIENT_CMD \<in> set (cmd_ctype c)) \<noteq> (UNVME_DAEMON_CMD \<in> set (cmd_ctype c))
     \<and> (UNVME_DEV_CMD \<in> set (cmd_ctype c)) \<noteq> (UNVME_NODEV_CMD \<in> set (cmd_ctype c))"
  by code_simp

subsection \<open>Arguments\<close>

definition plain_arg :: "string \<Rightarrow> bool" where
  "plain_arg a \<longleftrightarrow> newline \<notin> set a \<and> nul \<notin> set a"

lemma fgets_take_line:
  assumes "newline \<notin> set a" "length a < n"
  shows "fgets_take n (a @ newline # s) = (a @ [newline], s)"
  using assms by (induction a arbitrary: n) (auto simp: gr0_conv_Suc Suc_less_eq2 dest!: Suc_lessD elim!: less_natE)

lemma fgets_take_part:
  assumes "newline \<notin> set a" "n \<le> length a"
  shows "fgets_take n (a @ s) = (take n a, drop n a @ s)"
  using assms
proof (induction n arbitrary: a)
  case (Suc n)
  then obtain c b where "a = c # b" by (cases a) auto
  with Suc show ?case by auto
qed simp

lemma cstr_plain: "nul \<notin> set a \<Longrightarrow> cstr (a @ s) = a @ cstr s"
  by (simp add: cstr_def takeWhile_append)

lemma line_plain: "plain_arg a \<Longrightarrow> takeWhile (\<lambda>c. c \<noteq> newline) (a @ newline # s) = a"
  by (auto simp: plain_arg_def takeWhile_append)

lemma newline_nul [simp]: "newline \<noteq> nul" "nul \<noteq> newline"
  by (simp_all add: newline_def nul_def)

lemma basename_length: "length (basename s) \<le> length s"
  using length_takeWhile_le [of _ "rev s"] by (simp add: basename_def)

lemma msg_lines_arg:
  assumes "plain_arg a" "length a < 127" "i \<le> argc" "mem i"
    and "used + length a + (if i = 0 then 0 else 1) < oneline_size"
  shows "msg_lines mem argc i used (a @ newline # r) =
    (let a' = if i = 0 then basename a else a in
     case msg_lines mem argc (Suc i) (used + length a' + (if i = 0 then 0 else 1)) r of
       Ok as \<Rightarrow> Ok (a' # as) | Fail e \<Rightarrow> Fail e | Fault \<Rightarrow> Fault)"
proof -
  have "fgets line_size (a @ newline # r) = Some (a @ [newline], r)"
    using fgets_take_line [of a 127 r] assms(1,2) by (simp add: fgets_def line_size_def plain_arg_def)
  moreover have "cstr (a @ [newline]) = a @ [newline]"
    using assms(1) by (simp add: cstr_plain plain_arg_def) (simp add: cstr_def)
  ultimately show ?thesis
    using assms(3-5) line_plain [OF assms(1), of "[]"] basename_length [of a]
    by (subst msg_lines.simps) (auto simp: Let_def split: outcome.splits)
qed

lemma msg_lines_args:
  assumes "\<forall>a \<in> set args. plain_arg a \<and> length a < 127" "\<forall>i. mem i"
  shows "0 < i \<Longrightarrow> i + length args \<le> argc \<Longrightarrow> used + sum_list (map length args) + length args < oneline_size \<Longrightarrow>
    msg_lines mem argc i used (argv_text args @ replicate (Suc n) nul) = Ok args"
  using assms(1)
proof (induction args arbitrary: i used)
  case Nil
  have "cstr (fst (fgets_take 127 (replicate (Suc n) nul))) = []"
    by (simp add: numeral_eq_Suc cstr_def split: prod.splits)
  then obtain l r where "fgets line_size (replicate (Suc n) nul) = Some (l, r)" "cstr l = []"
    by (cases "fgets_take 127 (replicate (Suc n) nul)") (simp add: fgets_def line_size_def)
  with Nil show ?case
    by (subst msg_lines.simps) (simp add: argv_text_def Let_def del: replicate_Suc)
next
  case (Cons a args)
  have "msg_lines mem argc (Suc i) (used + length a + 1) (argv_text args @ replicate (Suc n) nul) = Ok args"
    using Cons.prems by (intro Cons.IH) auto
  moreover have "mem i" using assms(2) by simp
  ultimately show ?case
    using msg_lines_arg [of a i argc mem used "argv_text args @ replicate (Suc n) nul"] Cons.prems
    by (simp add: argv_text_def Let_def)
qed

lemma argv_text_length: "length (argv_text args) = sum_list (map length args) + length args"
  by (induction args) (auto simp: argv_text_def)

text \<open>What the client writes is what the daemon reads.\<close>

lemma argv_arrives:
  assumes args: "\<forall>a \<in> set (prog # args). newline \<notin> set a \<and> nul \<notin> set a \<and> length a \<le> 126"
    and size: "sum_list (map length (prog # args)) + length args \<le> 2047" and mem: "\<forall>i. mem i"
  shows "\<exists>file. unvme_msg_init_client (prog # args) = Ok file
    \<and> unvme_msg_init mem (Suc (length args)) (Inr file) = Ok (basename prog # args)"
proof -
  let ?t = "argv_text (prog # args)"
  let ?n = "UNVME_ARGV_MAXLEN - length ?t"
  have len: "length ?t \<le> 2048" using size by (simp add: argv_text_length)
  then obtain n where n: "?n = Suc n" by (cases ?n) (auto simp: UNVME_ARGV_MAXLEN_def)
  have "msg_lines mem (Suc (length args)) 1 (length (basename prog)) (argv_text args @ replicate (Suc n) nul) = Ok args"
    using args size mem basename_length [of prog]
    by (intro msg_lines_args) (auto simp: plain_arg_def oneline_size_def)
  then have "unvme_msg_init mem (Suc (length args)) (Inr (?t @ replicate (Suc n) nul)) = Ok (basename prog # args)"
    using msg_lines_arg [of prog 0 "Suc (length args)" mem 0 "argv_text args @ replicate (Suc n) nul"] args size mem
    by (auto simp: unvme_msg_init_def argv_text_def Let_def plain_arg_def oneline_size_def)
  then show ?thesis
    using len n by (simp add: unvme_msg_init_client_def Let_def UNVME_ARGV_MAXLEN_def)
qed

text \<open>The client sends the arguments of a command of the daemon, in which only the device is replaced.\<close>

lemma main_sends:
  assumes "unvme_main dev running ver argv = Ok (Send_Daemon argv')"
  shows "\<exists>c. unvme_get_cmd (argv ! 1) = Some c \<and> UNVME_CLIENT_CMD \<notin> set (cmd_ctype c) \<and> 2 \<le> length argv
    \<and> (argv' = argv \<or> (\<exists>s bdf. dev argv = Some s \<and> unvmed_parse_bdf s = Ok bdf \<and> argv' = argv[2 := bdf]))"
proof -
  have check: "unvme_check_args dev argv = Ok (Some argv')"
    and cmd: "\<exists>c. unvme_get_cmd (argv ! 1) = Some c \<and> UNVME_CLIENT_CMD \<notin> set (cmd_ctype c)"
    using assms by (auto simp: unvme_main_def split: outcome.splits option.splits if_splits)
  from check have "2 \<le> length argv"
    and "argv' = argv \<or> (\<exists>s bdf. dev argv = Some s \<and> unvmed_parse_bdf s = Ok bdf \<and> argv' = argv[2 := bdf])"
    by (auto simp: unvme_check_args_def unvme_check_args_devcmd_def split: outcome.splits option.splits if_splits list.splits)
  with cmd show ?thesis by blast
qed

lemma get_cmd_mem: "unvme_get_cmd name = Some c \<Longrightarrow> c \<in> set cmds \<and> cmd_name c = name"
  by (auto simp: unvme_get_cmd_def find_Some_iff)

lemma stop_is_client: "c \<in> set cmds \<Longrightarrow> cmd_name c = ''stop'' \<Longrightarrow> UNVME_CLIENT_CMD \<in> set (cmd_ctype c)"
proof -
  have "\<forall>c \<in> set cmds. cmd_name c = ''stop'' \<longrightarrow> UNVME_CLIENT_CMD \<in> set (cmd_ctype c)" by code_simp
  then show "c \<in> set cmds \<Longrightarrow> cmd_name c = ''stop'' \<Longrightarrow> UNVME_CLIENT_CMD \<in> set (cmd_ctype c)" by blast
qed

text \<open>C14. What the client sends, the daemon runs: when the client decides to send its arguments, in which
  only the device is replaced by its full address, and none of them has a newline or more than 126
  characters, and all of them with a character after each fit into 2048 characters, then the file
  it writes makes the daemon run the function of the named command on exactly these arguments, up
  to the directory of the program.
\<close>

theorem client_daemon_dispatch:
  assumes sent: "unvme_main dev running ver argv = Ok (Send_Daemon argv')"
    and args: "\<forall>a \<in> set argv'. newline \<notin> set a \<and> nul \<notin> set a \<and> length a \<le> 126"
    and size: "sum_list (map length argv') + length argv' \<le> 2048" and mem: "\<forall>i. mem i"
  shows "\<exists>file c. c \<in> set cmds \<and> cmd_name c = argv ! 1
    \<and> (argv' = argv \<or> (\<exists>s bdf. dev argv = Some s \<and> unvmed_parse_bdf s = Ok bdf \<and> argv' = argv[2 := bdf]))
    \<and> unvme_msg_init_client argv' = Ok file
    \<and> unvme_handler_result run True mem (length argv) (Inr file) = Ok (run (cmd_func c) (basename (hd argv') # tl argv'))"
proof -
  from main_sends [OF sent] obtain c where c: "unvme_get_cmd (argv ! 1) = Some c" "UNVME_CLIENT_CMD \<notin> set (cmd_ctype c)"
    and argv: "2 \<le> length argv"
      "argv' = argv \<or> (\<exists>s bdf. dev argv = Some s \<and> unvmed_parse_bdf s = Ok bdf \<and> argv' = argv[2 := bdf])"
    by blast
  then have len: "length argv' = length argv" "argv' ! 1 = argv ! 1" by auto
  then obtain prog name rest where argv': "argv' = prog # name # rest"
    using argv(1) by (cases argv'; cases "tl argv'") auto
  then have name: "argv ! 1 = name" using len by simp
  note mem_c = get_cmd_mem [OF c(1)]
  have "cmd_name c \<noteq> ''stop''" "UNVME_DAEMON_CMD \<in> set (cmd_ctype c)"
    using mem_c c(2) stop_is_client cmds_sides by blast+
  moreover from argv_arrives [of prog "name # rest" mem] args size mem
  obtain fl where fl: "unvme_msg_init_client argv' = Ok fl" "unvme_msg_init mem (length argv) (Inr fl) = Ok (basename prog # name # rest)"
    by (auto simp: argv' simp flip: len(1))
  ultimately have "unvme_handler_result run True mem (length argv) (Inr fl) = Ok (run (cmd_func c) (basename (hd argv') # tl argv'))"
    using mem_c c(1) by (simp add: unvme_handler_result_def argv' flip: name)
  with fl(1) mem_c argv(2) show ?thesis by blast
qed

theorem client_daemon_dispatch_witness:
  "\<exists>file c. cmd_name c = ''list'' \<and> unvme_msg_init_client [''/usr/bin/unvme'', ''list''] = Ok file
     \<and> unvme_handler_result (\<lambda>f args. if f = ''unvme_list'' \<and> args = [''unvme'', ''list''] then 7 else 0) True (\<lambda>_. True) 2 (Inr file) = Ok 7"
proof -
  let ?argv = "[''/usr/bin/unvme'', ''list'']"
  let ?run = "\<lambda>f args. if f = ''unvme_list'' \<and> args = [''unvme'', ''list''] then 7 else 0 :: int"
  have get: "unvme_get_cmd ''list'' = Some (unvme_command ''list'' [UNVME_GENERIC_CMD, UNVME_DAEMON_CMD, UNVME_NODEV_CMD] ''unvme_list'')"
    by code_simp
  have base: "basename ''/usr/bin/unvme'' = ''unvme''" by code_simp
  have sent: "unvme_main (\<lambda>_. None) True None ?argv = Ok (Send_Daemon ?argv)"
    by (simp add: unvme_main_def unvme_check_args_def get)
  from client_daemon_dispatch [OF sent, of "\<lambda>_. True" ?run]
  obtain fl c where *: "c \<in> set cmds" "cmd_name c = ''list''" "unvme_msg_init_client ?argv = Ok fl"
    "unvme_handler_result ?run True (\<lambda>_. True) 2 (Inr fl) = Ok (?run (cmd_func c) [''unvme'', ''list''])"
    by (auto simp: newline_def nul_def base numeral_2_eq_2)
  moreover have "cmd_func c = ''unvme_list''" using get_cmd_complete [OF *(1)] *(2) get by auto
  ultimately show ?thesis by auto
qed

text \<open>
  An argument of more than 126 characters leaves the memory that the daemon allocates for it: its
  first 127 characters are a line without a newline, which has no room for the terminator.
\<close>

lemma long_argument_overflows:
  assumes "plain_arg a" "127 \<le> length a" "0 < i" "i \<le> argc" "mem i"
  shows "msg_lines mem argc i used (a @ r) = Fault"
proof -
  have part: "fgets line_size (a @ r) = Some (take 127 a, drop 127 a @ r)"
    using fgets_take_part [of a 127 r] assms(1,2) by (auto simp: fgets_def line_size_def plain_arg_def)
  have plain: "nul \<notin> set (take 127 a)" "newline \<notin> set (take 127 a)"
    using assms(1) by (auto simp: plain_arg_def dest: in_set_takeD)
  have c: "cstr (take 127 a) = take 127 a" using plain by (auto simp: cstr_def takeWhile_eq_all_conv)
  have l: "takeWhile (\<lambda>c. c \<noteq> newline) (take 127 a) = take 127 a" using plain by (auto simp: takeWhile_eq_all_conv)
  have ne: "take 127 a \<noteq> []" using assms(2) by auto
  show ?thesis
    using part assms(3-5) ne by (subst msg_lines.simps) (simp add: Let_def c l del: takeWhile_eq_all_conv)
qed

subsection \<open>Jobs\<close>

fun thread_pid :: "job_thread \<Rightarrow> int option" where
  "thread_pid (Started pid) = Some pid" | "thread_pid (Running pid q) = Some pid"
| "thread_pid (Closing pid ret back) = Some pid" | "thread_pid _ = None"

text \<open>The threads that still have a message of a client to answer.\<close>

definition open_threads :: "daemon \<Rightarrow> int \<Rightarrow> nat set" where
  "open_threads d pid = {t. Option.bind (threads d t) thread_pid = Some pid}"

text \<open>Every message was answered, is lost, or belongs to one thread that has to answer it.\<close>

definition answered :: "daemon \<Rightarrow> bool" where
  "answered d \<longleftrightarrow> (\<forall>t. threads d t \<noteq> None \<longrightarrow> t < nr_threads d)
   \<and> (\<not> fault d \<longrightarrow> (\<forall>pid. count_list (received d) pid =
        count_list (map fst (replies d)) pid + count_list (lost d) pid + card (open_threads d pid)))"

lemma open_finite: "answered d \<Longrightarrow> finite (open_threads d pid)"
  by (rule finite_subset [of _ "{..<nr_threads d}"]) (auto simp: answered_def open_threads_def bind_eq_Some_conv)

lemma del_job_frame:
  assumes "unvme_del_job st d = (st', d')"
  shows "threads d' = threads d" "received d' = received d" "lost d' = lost d" "replies d' = replies d"
    "nr_threads d' = nr_threads d" "main d' = main d" "fault d \<Longrightarrow> fault d'"
  using assms by (cases "(st, d)" rule: unvme_del_job.cases; auto)+

text \<open>A thread that answers its client or loses the message, and one that goes on without.\<close>

lemma answered_close:
  assumes inv: "answered d" and t: "threads d t = Some st" "thread_pid st = Some pid" "thread_pid st' = None"
    and d': "threads d' = (threads d)(t \<mapsto> st')" "received d' = received d" "nr_threads d' = nr_threads d" "fault d' = fault d"
    and one: "replies d' = replies d @ [(pid, ret)] \<and> lost d' = lost d \<or> replies d' = replies d \<and> lost d' = lost d @ [pid]"
  shows "answered d'"
proof -
  have opens: "open_threads d' p = open_threads d p - {t}" for p using d'(1) t(3) by (auto simp: open_threads_def)
  have mem: "t \<in> open_threads d p \<longleftrightarrow> p = pid" for p using t(1,2) by (auto simp: open_threads_def)
  have "card (open_threads d p) = card (open_threads d' p) + (if p = pid then 1 else 0)" for p
  proof (cases "p = pid")
    case True
    then show ?thesis using card_Suc_Diff1 [OF open_finite [OF inv, of p], of t] mem [of p] by (simp add: opens)
  next
    case False
    then have "open_threads d p - {t} = open_threads d p" using mem [of p] by auto
    with False show ?thesis by (simp add: opens)
  qed
  moreover have "\<forall>x. threads d' x \<noteq> None \<longrightarrow> x < nr_threads d'"
    using inv t(1) d'(1,3) by (auto simp: answered_def)
  ultimately show ?thesis using inv d'(2,4) one by (auto simp: answered_def)
qed

lemma answered_same:
  assumes "answered d" "threads d t = Some st" "thread_pid st' = thread_pid st \<or> fault d'"
    and d': "threads d' = (threads d)(t \<mapsto> st')" "received d' = received d" "replies d' = replies d" "lost d' = lost d"
      "nr_threads d' = nr_threads d" "fault d \<Longrightarrow> fault d'"
  shows "answered d'"
proof -
  have "open_threads d' p = open_threads d p" if "\<not> fault d'" for p
    using assms(2,3) d'(1) that by (auto simp: open_threads_def)
  with assms show ?thesis by (auto simp: answered_def)
qed

lemma answered_cong:
  assumes "answered d" "threads d' = threads d" "received d' = received d" "replies d' = replies d" "lost d' = lost d"
    "nr_threads d' = nr_threads d" "fault d \<Longrightarrow> fault d'"
  shows "answered d'"
  using assms by (auto simp: answered_def open_threads_def)

lemma answered_run:
  assumes "answered d"
  shows "answered (unvme_run_job mem created pid d)"
proof -
  let ?d = "unvme_run_job mem created pid d"
  note run = unvme_run_job_def set_thread_def unvme_add_job_def Let_def
  have new: "threads d (nr_threads d) = None" using assms by (auto simp: answered_def)
  have "open_threads ?d p = (if created \<and> p = pid then insert (nr_threads d) (open_threads d p) else open_threads d p)"
    "nr_threads d \<notin> open_threads d p" for p
    using new by (auto simp: run open_threads_def)
  then have "card (open_threads ?d p) = card (open_threads d p) + (if created \<and> p = pid then 1 else 0)" for p
    using open_finite [OF assms, of p] by (auto simp: card_insert_disjoint)
  moreover have "\<forall>x. threads ?d x \<noteq> None \<longrightarrow> x < nr_threads ?d"
    using assms by (auto simp: answered_def run less_Suc_eq)
  ultimately show ?thesis using assms by (cases created) (auto simp: answered_def run)
qed

lemma answered_exit_job:
  assumes inv: "answered d" and t: "threads d t = Some st" "unvme_exit_job st d = Some (st', d1)"
  shows "answered (set_thread t st' d1)"
proof (cases st)
  case (Closing pid ret r)
  then have eq: "st' = Deleting (Lookup pid) r" "d1 = send_reply pid ret d" using t(2) by simp_all
  show ?thesis
    unfolding eq by (rule answered_close [OF inv t(1), where pid = pid and ret = ret]) (simp_all add: Closing set_thread_def send_reply_def)
next
  case (Deleting s r)
  obtain s1 d2 where del: "unvme_del_job s d = (s1, d2)" by fastforce
  then have "thread_pid st' = None \<and> d1 = d2"
    using t(2) by (cases s) (auto simp: Deleting split: option.splits)
  then show ?thesis
    using del_job_frame [OF del] by (intro answered_same [OF inv t(1), of st']) (auto simp: set_thread_def Deleting)
qed (use t in simp_all)

lemma answered_exit_thread:
  assumes inv: "answered d" and t: "threads d t = Some st" "exit_thread status st d = Some (st', d1)"
  shows "answered (set_thread t st' d1)"
proof (cases "\<exists>pid. st = Started pid")
  case True
  then obtain pid where st: "st = Started pid" by blast
  then have eq: "st' = Ended" "d1 = d\<lparr>lost := lost d @ [pid]\<rparr>" using t(2) by simp_all
  show ?thesis
    unfolding eq by (rule answered_close [OF inv t(1), where pid = pid and ret = 0]) (simp_all add: st set_thread_def)
next
  case False
  with t(2) have "(thread_pid st' = thread_pid st \<or> fault d1) \<and> threads d1 = threads d \<and> received d1 = received d
      \<and> replies d1 = replies d \<and> lost d1 = lost d \<and> nr_threads d1 = nr_threads d \<and> (fault d \<longrightarrow> fault d1)"
    by (cases st) auto
  then show ?thesis by (intro answered_same [OF inv t(1), of st']) (auto simp: set_thread_def)
qed

lemma answered_step:
  assumes "answered d" "daemon_step d d'"
  shows "answered d'"
  using assms(2,1)
proof cases
  case (start t pid vcq)
  show ?thesis
  proof (cases vcq)
    case None
    with start assms(1) show ?thesis
      by (intro answered_close [of d t "Started pid" pid Ended d' "- 12"])
        (auto simp: handler_start_def set_thread_def send_reply_def)
  next
    case (Some q)
    with start assms(1) show ?thesis
      by (intro answered_same [of d t "Started pid" "Running pid q" d']) (auto simp: handler_start_def set_thread_def)
  qed
next
  case (finish t pid q ret)
  with assms(1) show ?thesis
    by (intro answered_same [of d t "Running pid q" "Closing pid ret (Some q)" d']) (auto simp: set_thread_def)
next
  case (leave t q)
  with assms(1) show ?thesis by (intro answered_same [of d t "Exiting q" Gone d']) (auto simp: set_thread_def)
next
  case (join pid t "term")
  then obtain st where "threads d t = Some st" "thread_pid st = None" by auto
  with join assms(1) show ?thesis by (intro answered_same [of d t st Gone d']) (auto simp: set_thread_def)
next
  case (delete st st' d1)
  with assms(1) del_job_frame [of st d st' d1] show ?thesis by (intro answered_cong [of d d']) auto
qed (use assms(1) in \<open>auto intro: answered_run answered_exit_job answered_exit_thread answered_cong [of d]\<close>)



subsection \<open>A sample run\<close>

text \<open>Two messages of client 7: the first has a thread that runs, for the second no thread could be created.\<close>

definition busy_vcq :: unvme_vcq where
  "busy_vcq = \<lparr>vq_qid = 1, vq_qsize = 32, vq_head = 0, vq_tail = 0,
     vq_vcqe = replicate 32 \<lparr>vcqe_cqe = zero_cqe, vcqe_bdf = 0, vcqe_injected = 0\<rparr>\<rparr>"

definition busy_daemon :: daemon where
  "busy_daemon = handler_start (Some busy_vcq) 7 0 (unvme_run_job True False 7 (unvme_run_job True True 7 start_daemon))"

lemmas busy_defs = handler_start_def unvme_run_job_def unvme_add_job_def set_thread_def start_daemon_def Let_def

lemma busy_daemon_fields:
  "threads busy_daemon 0 = Some (Running 7 busy_vcq)" "jobs busy_daemon = [(7, 0), (7, 1)]" "main busy_daemon = Idle"
  "received busy_daemon = [7, 7]" "replies busy_daemon = []" "lost busy_daemon = [7]" "\<not> fault busy_daemon"
  by (simp_all add: busy_daemon_def busy_defs)

lemma busy_daemon_reachable: "daemon_reachable busy_daemon"
proof -
  let ?d1 = "unvme_run_job True True 7 start_daemon"
  let ?d2 = "unvme_run_job True False 7 ?d1"
  have "daemon_step start_daemon ?d1" by (rule daemon_step.message) (simp add: start_daemon_def)
  moreover have "daemon_step ?d1 ?d2" by (rule daemon_step.message) (simp add: busy_defs)
  moreover have "daemon_step ?d2 busy_daemon" unfolding busy_daemon_def by (rule daemon_step.start) (simp add: busy_defs)
  ultimately show ?thesis by (meson daemon_reachable.intros)
qed



end
