(* ===== verification/Spec2Isabelle.thy ===== *)
theory Spec2Isabelle
  imports Ctrl_State Vcq_Conc Cid_Bitmap Hmb Ns Cmd_Life Prep_Facts Queue_Facts Timer_Facts Irq_Facts Reap_Facts Admin_Facts Lifecycle_Facts Issue_Facts Bdf_Facts Registry_Facts Pci_Facts Fio_Job_Facts Daemon_Facts
begin

text \<open>
  This is a verification of the core of unvme-cli: \<open>libunvmed\<close>, its NVMe driver library in user
  space (\<open>src/lib\<close>), the fio engine on top of it (\<open>src/src/app/fio/libunvmed-engine.c\<close>), and the
  message path between the command line client and the daemon (\<open>src/src\<close>).

  \<^bold>\<open>The program.\<close> A daemon keeps a list of controllers, each bound to \<open>vfio-pci\<close> through libvfn. A
  controller has a state machine, an admin queue pair and I/O queue pairs, namespaces, interrupts
  with a reaper thread for each vector, buffers that are mapped into the IOMMU, and, for its
  resets, the configuration space of its PCI function. A command is allocated on a submission
  queue with an identifier, a request of libvfn and buffers, gets an entry, is posted, and is
  completed by a poll, by a reaper or by the timeout of the queue, which wakes its caller or pushes
  the completion into the virtual completion queue of a thread. The fio engine is a client that
  runs one job per thread on this machinery.

  \<^bold>\<open>How the model is made.\<close> Every function is a HOL function of the same name (a leading \<open>__\<close> or a
  helper of the same name becomes the suffix \<open>_u2\<close>). State is passed explicitly: \<open>struct unvme\<close> is
  a record that grows from theory to theory (\<open>unvme_dma\<close>, \<open>unvme_nss\<close>, \<open>unvme\<close>, \<open>unvme_irq\<close>,
  \<open>unvme_ctrl\<close>, \<open>unvme_inst\<close>), a pointer to an element of an array or list is its index or identifier,
  and the registers a function writes are fields. The result of a function is an \<open>outcome\<close>: \<open>Ok\<close>,
  \<open>Fail\<close> with the value of \<open>errno\<close>, or \<open>Fault\<close>, which stands for undefined behaviour, a failed
  assertion or a use of freed memory; theorems show that it is not reached, or name where it is.
  Integers are words of the width of the C type where they can wrap.

  \<^bold>\<open>Theories.\<close>

  \<^item> \<open>Prelude\<close>: integer types, \<open>errno\<close>, outcomes, lemmas on lists and indices.
  \<^item> Contracts, as locales: \<open>Id_Pool\<close> (identifier allocators), \<open>Bounded_Fifo\<close>, \<open>Resource\<close> (operations
    that take from a ledger and give back), \<open>Refcount\<close>.
  \<^item> \<open>Ctrl_State\<close>: the transitions of \<open>unvmed_ctrl_set_state()\<close> and the invalidation of virtual functions.
  \<^item> \<open>Vcq\<close>, \<open>Vcq_Conc\<close>: \<open>libunvmed-vcq.c\<close>, sequentially and as a step relation with one step for each
    access to shared memory. \<open>Cid_Bitmap\<close>: the identifiers of commands.
  \<^item> \<open>Dma\<close>, \<open>Hmb\<close>: allocation, mapping, the buffers of commands, shared buffers, the host memory buffer.
  \<^item> \<open>Ns\<close>: the list of namespaces and what the Identify data say about them.
  \<^item> \<open>Sqe\<close>, \<open>Cmd\<close>, \<open>Cmd_Life\<close>, \<open>Prep\<close>, \<open>Prep_Facts\<close>: \<open>libunvmed-cmds.c\<close>: entries, allocation and release
    of commands, and all functions \<open>unvmed_cmd_prep_*()\<close>.
  \<^item> \<open>Queues\<close>, \<open>Queue_Facts\<close>: the tables of queues, their references, quiescing, discarding.
  \<^item> \<open>Completion\<close>, \<open>Completion_Facts\<close>, \<open>Reap_Facts\<close>, \<open>Poll\<close>: posting, completing, cancelling, reaping,
    polling and waiting. \<open>Timer\<close>, \<open>Timer_Facts\<close>: the timeout of a queue.
  \<^item> \<open>Irq\<close>, \<open>Irq_Facts\<close>: interrupt vectors and reapers.
  \<^item> \<open>Admin\<close>, \<open>Admin_Facts\<close>, \<open>Issue\<close>, \<open>Issue_Facts\<close>: creating and deleting queues and the commands that
    the library issues for itself.
  \<^item> \<open>Lifecycle\<close>, \<open>Lifecycle_Facts\<close>: enabling, resets, saving and restoring the configuration, release.
  \<^item> \<open>Bdf\<close>, \<open>Bdf_Facts\<close>, \<open>Registry\<close>, \<open>Registry_Facts\<close>, \<open>Pci\<close>, \<open>Pci_Facts\<close>: addresses, the list of
    controllers with creation and re-initialisation in place, and the resets through PCI.
  \<^item> \<open>Prot_Info\<close>, \<open>Fio_Opts\<close>, \<open>Fio_Mem\<close>, \<open>Fio_Queue\<close>, \<open>Fio_Job\<close> and their \<open>_Facts\<close>: the fio engine, which is
    its protection information, options and mixes of commands, buffers, I/O path, and the life of a
    job.
  \<^item> \<open>Daemon\<close>, \<open>Daemon_Facts\<close>: the client and the daemon (\<open>unvme.c\<close>, \<open>unvmed.c\<close>): the table of commands, the
    file through which the client passes its arguments, the choice of the handler, and a step
    relation for the main thread, the threads of jobs and the list of jobs, in which threads may not
    be created, \<open>unvme_del_job()\<close> is several steps, and \<open>exit()\<close> may come at any time.

  \<^bold>\<open>Interfaces.\<close> Each locale is interpreted on the model itself: \<open>id_pool\<close> on the identifiers of
  virtual queues (\<open>vcq_ids\<close>) and of commands (\<open>cids\<close>); \<open>bounded_fifo\<close> on the ring of a virtual queue
  (\<open>vcq\<close>); \<open>resource\<close> on buffers (\<open>bufs\<close>, \<open>dmabufs\<close>) and on commands (\<open>cmds\<close>), whose ledger is made of
  slots, identifiers, requests, blocks and mappings; \<open>refcount\<close> on namespaces and queues (\<open>nss\<close>,
  \<open>sq_refs\<close>, \<open>cq_refs\<close>); \<open>cq_ring\<close>, what a reaper needs of a completion ring, on the library's own way
  of reading one (\<open>own_ring\<close>); \<open>pi_format\<close> on the three guard formats.

  \<^bold>\<open>What is shown.\<close>

  \<^item> Allocators are exclusive, and whatever sequence of allocations and releases runs, failures
    included, nothing leaks and nothing is freed twice: identifiers, buffers, commands, references of
    queues and namespaces, the descriptors of reapers, the I/Os and the files of fio jobs. Where a path
    of the code does leak, as in the creation and deletion of completion queues, the theorem says what.
  \<^item> The virtual completion queue loses, duplicates and reorders nothing under any interleaving of its
    producers, which hold a lock, and its consumer. The reaper refines the completion of the list that the ring
    holds; a command is completed once; cancelling completes every open command of a queue, with the entry
    of the ring that is due to it or as aborted; scans of a ring end.
  \<^item> State machines: a controller in teardown comes back only through the whole recovery, contrary
    to two comments that describe shorter ways.
  \<^item> Round trips: addresses, saved configurations, the tags of entries, protection information, the
    arguments of the client. As long as the behaviour of the daemon is defined, a client gets no
    more answers than it sent messages, and the messages without an answer are those that still have a
    thread and those that lost it.
  \<^item> Error behaviour, where the code does not clean up after itself: a start that fails and wedges the
    controller, a reset that fails, a file that cannot be opened and whose buffers stay mapped, an I/O
    that is refused and counted, a clean-up that frees memory the device can still write, a signal
    for a job that has ended.

  \<^bold>\<open>Parameters.\<close> libvfn (request pools, rings, PRP and SGL builders, the IOMMU with its laws
  \<open>dma_laws\<close>), the allocator of the C library, the kernel (descriptors, timers, threads, PCI
  configuration space), the constants of libnvme, and fio with its checksums are arguments of the
  definitions. What other threads and the device do while a function waits is an argument as
  well. Every theorem with a hypothesis on a parameter has a witness with concrete functions.

  \<^bold>\<open>Bounds and fuel.\<close> Loops that wait for the device or another thread take a number of rounds, and
  \<open>None\<close> means that the loop still waits; theorems about them hold for any number of rounds. For
  the scan of a completion ring twice the size of the ring and two rounds are enough, which is
  proved. All other loops end by structure or by a measure.

  \<^bold>\<open>Not modelled.\<close> Of the daemon and the command line: sockets, processes, what the handlers of signals do besides \<open>exit()\<close>, and the
  files with the number and the version of the daemon. The handlers of commands (\<open>unvmed-cmds.c\<close>,
  \<open>unvme-cmds.c\<close>): option tables and printing around calls of the library, a parameter of
  \<open>Daemon\<close>. \<open>unvmed-print.c\<close> and the logs (\<open>libunvmed-logs.c\<close>): output only. \<open>argtable3\<close> and \<open>ccan\<close>:
  vendored. The table of options of the fio engine, which is data for fio, and the loading of fio as
  a shared object (\<open>fio.c\<close>). Mappings shared by two users: \<open>dma_laws\<close> is about runs in which no address is
  mapped while it is mapped already. Memory orderings: the interleavings are sequentially consistent.
\<close>

end
